(* ===== verification/Rte_Prelude.thy ===== *)
theory Rte_Prelude
  imports Main "HOL-Library.Word"
begin

text \<open>
  Shared vocabulary of the development: the fixed-width integer types of
  \<^verbatim>\<open>include/rte/utils/types/rte_types.h\<close>, the result of a call that may enter
  a safe state and never return, the collections of simplification rules the component
  theories add to, and generic lemmas on words and lists that several components use.
\<close>

section \<open>Machine integers\<close>

type_synonym u8 = "8 word"
type_synonym u16 = "16 word"
type_synonym u32 = "32 word"
type_synonym u64 = "64 word"

text \<open>\<^verbatim>\<open>rte_duration_ms_t\<close> and \<^verbatim>\<open>rte_timestamp_ms_t\<close>.\<close>

type_synonym duration_ms = u32
type_synonym timestamp_ms = u64

type_synonym bytes = "u8 list"

section \<open>Calls that may not return\<close>

text \<open>
  \<^verbatim>\<open>rte_safestate_enter()\<close> loops forever at the levels SAFE and REBOOT. A call that can
  reach it has a result of this type: \<open>Returned\<close> carries the value and the state at the
  return, \<open>Halted\<close> the state in which the code spins for ever.
\<close>

datatype ('a, 's) run = Returned 'a 's | Halted 's

fun run_state :: "('a, 's) run \<Rightarrow> 's" where
  "run_state (Returned _ s) = s"
| "run_state (Halted s) = s"

fun returns :: "('a, 's) run \<Rightarrow> bool" where
  "returns (Returned _ _) = True"
| "returns (Halted _) = False"

fun map_run_value :: "('a \<Rightarrow> 'b) \<Rightarrow> ('a, 's) run \<Rightarrow> ('b, 's) run" where
  "map_run_value f (Returned a s) = Returned (f a) s"
| "map_run_value f (Halted s) = Halted s"

lemma run_state_map_run_value [simp]: "run_state (map_run_value f r) = run_state r"
  by (cases r) simp_all

lemma returns_map_run_value [simp]: "returns (map_run_value f r) = returns r"
  by (cases r) simp_all

section \<open>Options\<close>

fun the_default :: "'a \<Rightarrow> 'a option \<Rightarrow> 'a" where
  "the_default d None = d"
| "the_default d (Some a) = a"

section \<open>Collections of rules\<close>

named_theorems policy_defs "definitions of the site-role policy"
named_theorems frame_simps "fields an operation leaves as they are"
named_theorems channel_defs "definitions of the channel layers"

section \<open>Words\<close>

text \<open>The wrap-safe age test of the code: \<open>now \<ge> stamp \<and> now - stamp \<le> n\<close>.\<close>

lemma word_age_le_iff:
  fixes a b n :: "'a::len word"
  shows "(b \<le> a \<and> a - b \<le> n) \<longleftrightarrow> (unat b \<le> unat a \<and> unat a \<le> unat b + unat n)"
  by (auto simp: word_le_nat_alt unat_sub)

lemma word_age_less_iff:
  fixes a b n :: "'a::len word"
  shows "(b \<le> a \<and> a - b < n) \<longleftrightarrow> (unat b \<le> unat a \<and> unat a < unat b + unat n)"
  by (auto simp: word_le_nat_alt word_less_nat_alt unat_sub)

lemma unat_Suc_word:
  fixes a :: "'a::len word"
  assumes "a \<noteq> - 1"
  shows "unat (a + 1) = Suc (unat a)"
  using assms by (metis add.commute add_eq_0_iff unatSuc)

lemma unat_u8_less [simp]: "unat (b :: u8) < 256"
  using unsigned_less [of b] by simp

lemma xor_left_cancel_word: "xor a b = xor a c \<longleftrightarrow> b = (c :: 'a::len word)"
proof
  assume "xor a b = xor a c"
  then have "xor a (xor a b) = xor a (xor a c)" by simp
  then show "b = c" by (simp flip: xor.assoc)
qed simp

lemma xor_right_cancel_word: "xor b a = xor c a \<longleftrightarrow> b = (c :: 'a::len word)"
  by (metis xor_left_cancel_word xor.commute)

lemma xor_eq_0_word: "xor a b = 0 \<longleftrightarrow> a = (b :: 'a::len word)"
  by (metis xor_left_cancel_word xor_self_eq)

lemma drop_bit_0_not_bit:
  fixes c :: "'a::len word"
  assumes "drop_bit n c = 0" "n \<le> k"
  shows "\<not> bit c k"
proof
  assume "bit c k"
  then have "bit (drop_bit n c) (k - n)" using assms(2) by (simp add: bit_drop_bit_eq)
  with assms(1) show False by simp
qed

lemma drop_bit_0_unat_less:
  fixes c :: "'a::len word"
  assumes "drop_bit n c = 0"
  shows "unat c < 2 ^ n"
proof -
  have "unat (drop_bit n c) = unat c div 2 ^ n"
    unfolding unat_drop_bit_eq by (rule drop_bit_eq_div)
  then have "unat c div 2 ^ n = 0" by (simp only: assms unsigned_0)
  then show ?thesis by (simp add: div_eq_0_iff)
qed

section \<open>Lists\<close>

lemma find_None_iff_all: "List.find P xs = None \<longleftrightarrow> (\<forall>x \<in> set xs. \<not> P x)"
  by (auto simp: find_None_iff)

lemma find_SomeD: "List.find P xs = Some x \<Longrightarrow> x \<in> set xs \<and> P x"
  by (auto simp: find_Some_iff)

lemma count_list_le_length: "count_list xs x \<le> length xs"
  by (induction xs) auto

lemma count_list_pos_iff: "0 < count_list xs x \<longleftrightarrow> x \<in> set xs"
  by (induction xs) auto

lemma count_list_sum_le_length:
  "x \<noteq> y \<Longrightarrow> count_list xs x + count_list xs y \<le> length xs"
  by (induction xs) auto

end
