(* ===== verification/Rte_Types.thy ===== *)
theory Rte_Types
  imports Rte_Prelude
begin

text \<open>
  The enumerations every component shares: status codes
  (\<^verbatim>\<open>include/rte/utils/status/rte_status.h\<close>, \<^verbatim>\<open>src/utils/status/rte_status.c\<close>),
  the states and channel states of the dual modules
  (\<^verbatim>\<open>include/rte/redundancy/dual/rte_dual_types.h\<close>) and their texts. A parameter of a C
  enumeration type can hold any integer. Where the code has a \<open>default\<close> branch for such a
  value, the datatype has one more constructor that carries it.
\<close>

section \<open>Status codes\<close>

datatype rte_status =
    STATUS_OK
  | STATUS_INVALID_PARAM
  | STATUS_NOT_INITIALIZED
  | STATUS_ALREADY_INITIALIZED
  | STATUS_TIMEOUT
  | STATUS_RESOURCE_EXHAUSTED
  | STATUS_NOT_SUPPORTED
  | STATUS_NOT_IMPLEMENTED
  | STATUS_HARDWARE_FAULT
  | STATUS_DATA_CORRUPTION
  | STATUS_INTERNAL_ERROR
  | STATUS_VALUE_OUT_OF_RANGE
  | STATUS_INVALID_STATE
  | STATUS_NOT_CONNECTED
  | STATUS_UNKNOWN nat

fun rte_status_to_string :: "rte_status \<Rightarrow> string" where
  "rte_status_to_string STATUS_OK = ''OK''"
| "rte_status_to_string STATUS_INVALID_PARAM = ''INVALID_PARAM''"
| "rte_status_to_string STATUS_NOT_INITIALIZED = ''NOT_INITIALIZED''"
| "rte_status_to_string STATUS_ALREADY_INITIALIZED = ''ALREADY_INITIALIZED''"
| "rte_status_to_string STATUS_TIMEOUT = ''TIMEOUT''"
| "rte_status_to_string STATUS_RESOURCE_EXHAUSTED = ''RESOURCE_EXHAUSTED''"
| "rte_status_to_string STATUS_NOT_SUPPORTED = ''NOT_SUPPORTED''"
| "rte_status_to_string STATUS_NOT_IMPLEMENTED = ''NOT_IMPLEMENTED''"
| "rte_status_to_string STATUS_HARDWARE_FAULT = ''HARDWARE_FAULT''"
| "rte_status_to_string STATUS_DATA_CORRUPTION = ''DATA_CORRUPTION''"
| "rte_status_to_string STATUS_INTERNAL_ERROR = ''INTERNAL_ERROR''"
| "rte_status_to_string STATUS_VALUE_OUT_OF_RANGE = ''VALUE_OUT_OF_RANGE''"
| "rte_status_to_string STATUS_INVALID_STATE = ''INVALID_STATE''"
| "rte_status_to_string STATUS_NOT_CONNECTED = ''NOT_CONNECTED''"
| "rte_status_to_string (STATUS_UNKNOWN _) = ''UNKNOWN_STATUS''"

section \<open>States of the dual modules\<close>

datatype rte_dual_state =
    DUAL_IDLE
  | DUAL_UNKNOWN
  | DUAL_ONLINE
  | DUAL_HOTSTANDBY
  | DUAL_COLDSTANDBY
  | DUAL_STATE_OTHER nat

datatype rte_dual_channel_status =
    CHANNEL_DOWN
  | CHANNEL_DEGRADED
  | CHANNEL_FULL
  | CHANNEL_STATUS_OTHER nat

fun rte_dual_state_to_string :: "rte_dual_state \<Rightarrow> string" where
  "rte_dual_state_to_string DUAL_IDLE = ''IDLE''"
| "rte_dual_state_to_string DUAL_UNKNOWN = ''UNKNOWN''"
| "rte_dual_state_to_string DUAL_ONLINE = ''ONLINE''"
| "rte_dual_state_to_string DUAL_HOTSTANDBY = ''HOTSTANDBY''"
| "rte_dual_state_to_string DUAL_COLDSTANDBY = ''COLDSTANDBY''"
| "rte_dual_state_to_string (DUAL_STATE_OTHER _) = ''UNKNOWN_STATE''"

fun rte_dual_channel_status_to_string :: "rte_dual_channel_status \<Rightarrow> string" where
  "rte_dual_channel_status_to_string CHANNEL_DOWN = ''DOWN''"
| "rte_dual_channel_status_to_string CHANNEL_DEGRADED = ''DEGRADED''"
| "rte_dual_channel_status_to_string CHANNEL_FULL = ''FULL''"
| "rte_dual_channel_status_to_string (CHANNEL_STATUS_OTHER _) = ''UNKNOWN_STATUS''"

text \<open>The byte that carries a state in a STATE frame, \<^verbatim>\<open>(uint8_t)state\<close>.\<close>

fun dual_state_code :: "rte_dual_state \<Rightarrow> u8" where
  "dual_state_code DUAL_IDLE = 0"
| "dual_state_code DUAL_UNKNOWN = 1"
| "dual_state_code DUAL_ONLINE = 2"
| "dual_state_code DUAL_HOTSTANDBY = 3"
| "dual_state_code DUAL_COLDSTANDBY = 4"
| "dual_state_code (DUAL_STATE_OTHER n) = of_nat n"

lemma rte_status_to_string_distinct:
  "rte_status_to_string a = rte_status_to_string b \<Longrightarrow>
    a = b \<or> (\<exists>m n. a = STATUS_UNKNOWN m \<and> b = STATUS_UNKNOWN n)"
  by (cases a; cases b; simp)

end
