(* ===== verification/Site_Role_Policy.thy ===== *)
theory Site_Role_Policy
  imports Rte_Types
begin

text \<open>
  The pure decision rules of the site-role service:
  \<^verbatim>\<open>src/redundancy/site_role/rte_site_role_policy.c\<close> and its header. One definition per
  function, in the order of the file. Cycle numbers are \<^verbatim>\<open>uint32_t\<close>, so every age test
  is on words and the tests \<open>cycle \<ge> stamp\<close> that guard the unsigned differences are
  part of the model.
\<close>

section \<open>Constants, actions, reasons, facts\<close>

definition STANDBY_DATA_TIMEOUT_CYCLES :: u32 where [policy_defs]: "STANDBY_DATA_TIMEOUT_CYCLES = 3"
definition STANDBY_SYNC_RETRY_CYCLES :: u32 where [policy_defs]: "STANDBY_SYNC_RETRY_CYCLES = 10"
definition TAKEOVER_CONFIRM_VALID_CYCLES :: u32 where [policy_defs]: "TAKEOVER_CONFIRM_VALID_CYCLES = 120"
definition BOTH_STANDBY_CYCLES :: u32 where [policy_defs]: "BOTH_STANDBY_CYCLES = 6"

datatype site_role_action =
    ACTION_NONE
  | ACTION_PROMOTE
  | ACTION_DEMOTE
  | ACTION_RENEGOTIATE
  | ACTION_ALARM
  | ACTION_WAIT

datatype site_role_reason =
    REASON_NONE
  | REASON_BOTH_FAULTED
  | REASON_PEER_FAULTED
  | REASON_RECOVERED
  | REASON_DISPATCHER_CONFIRMED
  | REASON_BOTH_STANDBY_WEST
  | REASON_BOTH_STANDBY_SIBLING
  | REASON_YIELD_TO_TAKEOVER
  | REASON_DUAL_ONLINE
  | REASON_WAITING_READY

record site_role_input =
  in_is_online :: bool
  in_own_faulted :: bool
  in_is_west :: bool
  in_link_up :: bool
  in_peer_unresponsive :: bool
  in_cycle :: u32
  in_peer_last_rx_cycle :: u32
  in_peer_online_now :: bool
  in_peer_faulted :: bool
  in_peer_snapshot_valid :: bool
  in_sibling_online :: bool
  in_takeover_confirmed :: bool
  in_takeover_confirm_cycle :: u32
  in_lost_peer_while_online :: bool
  in_both_standby_cycles :: u32
  in_own_ready :: bool
  in_sibling_ready :: bool
  in_sibling_reachable :: bool

record site_role_decision =
  d_action :: site_role_action
  d_reason :: site_role_reason
  d_both_standby_cycles :: u32

section \<open>Rules\<close>

definition peer_answering :: "site_role_input \<Rightarrow> bool" where
  "peer_answering i \<longleftrightarrow>
    in_cycle i \<ge> in_peer_last_rx_cycle i \<and> in_cycle i - in_peer_last_rx_cycle i \<le> 2"

definition pair_ready_to_promote :: "site_role_input \<Rightarrow> bool" where
  "pair_ready_to_promote i \<longleftrightarrow>
    in_own_ready i \<and> (in_sibling_online i \<or> in_sibling_ready i \<or> \<not> in_sibling_reachable i)"

definition rte_site_role_takeover_allowed ::
  "bool \<Rightarrow> bool \<Rightarrow> bool \<Rightarrow> bool \<Rightarrow> u32 \<Rightarrow> u32 \<Rightarrow> bool" where
  "rte_site_role_takeover_allowed is_online own_faulted peer_unresponsive confirmed cycle confirm_cycle =
    (if \<not> is_online \<and> \<not> own_faulted \<and> peer_unresponsive \<and> confirmed
     then cycle \<ge> confirm_cycle \<and> cycle - confirm_cycle \<le> TAKEOVER_CONFIRM_VALID_CYCLES
     else False)"

definition rte_site_role_both_standby_tiebreak :: "u32 \<Rightarrow> bool \<Rightarrow> bool \<Rightarrow> bool" where
  "rte_site_role_both_standby_tiebreak both_standby_cycles is_west sibling_online \<longleftrightarrow>
    (sibling_online \<and> both_standby_cycles \<ge> 1) \<or>
    (is_west \<and> both_standby_cycles \<ge> BOTH_STANDBY_CYCLES)"

text \<open>The chain of rules, before the readiness check at the end of \<^verbatim>\<open>rte_site_role_decide()\<close>.\<close>

definition decide_rules :: "site_role_input \<Rightarrow> site_role_decision" where
  "decide_rules i =
    (let none = \<lparr>d_action = ACTION_NONE, d_reason = REASON_NONE, d_both_standby_cycles = 0\<rparr> in
     if in_own_faulted i \<and> in_peer_faulted i
     then none\<lparr>d_action := ACTION_RENEGOTIATE, d_reason := REASON_BOTH_FAULTED\<rparr>
     else if \<not> in_own_faulted i \<and> \<not> in_is_online i \<and> in_peer_faulted i
     then none\<lparr>d_action := ACTION_PROMOTE, d_reason := REASON_PEER_FAULTED\<rparr>
     else if in_own_faulted i \<and> in_peer_snapshot_valid i \<and> \<not> in_peer_faulted i
     then none\<lparr>d_action := ACTION_DEMOTE, d_reason := REASON_RECOVERED\<rparr>
     else if rte_site_role_takeover_allowed (in_is_online i) (in_own_faulted i)
               (in_peer_unresponsive i) (in_takeover_confirmed i) (in_cycle i)
               (in_takeover_confirm_cycle i)
     then none\<lparr>d_action := ACTION_PROMOTE, d_reason := REASON_DISPATCHER_CONFIRMED\<rparr>
     else if in_is_online i \<and> \<not> in_own_faulted i \<and> \<not> in_peer_faulted i \<and>
             in_peer_online_now i \<and> peer_answering i
     then (if in_lost_peer_while_online i
           then none\<lparr>d_action := ACTION_DEMOTE, d_reason := REASON_YIELD_TO_TAKEOVER\<rparr>
           else none\<lparr>d_action := ACTION_ALARM, d_reason := REASON_DUAL_ONLINE\<rparr>)
     else if \<not> in_is_online i \<and> \<not> in_own_faulted i \<and> in_link_up i \<and>
             \<not> in_peer_unresponsive i \<and> peer_answering i \<and> \<not> in_peer_online_now i \<and>
             \<not> in_peer_faulted i
     then (let n = in_both_standby_cycles i + 1 in
           if rte_site_role_both_standby_tiebreak n (in_is_west i) (in_sibling_online i)
           then none\<lparr>d_action := ACTION_PROMOTE,
                     d_reason := (if in_sibling_online i then REASON_BOTH_STANDBY_SIBLING
                                  else REASON_BOTH_STANDBY_WEST),
                     d_both_standby_cycles := 0\<rparr>
           else none\<lparr>d_both_standby_cycles := n\<rparr>)
     else if \<not> in_is_online i \<and> \<not> in_own_faulted i \<and> in_sibling_online i \<and>
             \<not> in_peer_faulted i \<and> \<not> (in_peer_online_now i \<and> peer_answering i)
     then (let n = in_both_standby_cycles i + 1 in
           if n \<ge> 2
           then none\<lparr>d_action := ACTION_PROMOTE, d_reason := REASON_BOTH_STANDBY_SIBLING,
                     d_both_standby_cycles := 0\<rparr>
           else none\<lparr>d_both_standby_cycles := n\<rparr>)
     else none)"

definition rte_site_role_decide :: "site_role_input \<Rightarrow> site_role_decision" where
  "rte_site_role_decide i =
    (let d = decide_rules i in
     if d_action d = ACTION_PROMOTE \<and> \<not> pair_ready_to_promote i
     then \<lparr>d_action = ACTION_WAIT, d_reason = REASON_WAITING_READY,
           d_both_standby_cycles = in_both_standby_cycles i + 1\<rparr>
     else d)"

fun rte_site_role_reason_text :: "site_role_reason \<Rightarrow> string" where
  "rte_site_role_reason_text REASON_BOTH_FAULTED = ''both sites FAULTED, WEST wins''"
| "rte_site_role_reason_text REASON_PEER_FAULTED = ''counterpart FAULTED''"
| "rte_site_role_reason_text REASON_RECOVERED = ''was FAULTED, counterpart healthy ONLINE''"
| "rte_site_role_reason_text REASON_DISPATCHER_CONFIRMED =
     ''dispatcher confirmed the other site is not ONLINE''"
| "rte_site_role_reason_text REASON_BOTH_STANDBY_WEST =
     ''negotiation - both sites STANDBY, WEST wins the tie''"
| "rte_site_role_reason_text REASON_BOTH_STANDBY_SIBLING =
     ''negotiation - both sites STANDBY, joining the ONLINE A/B sibling''"
| "rte_site_role_reason_text REASON_YIELD_TO_TAKEOVER =
     ''counterpart took over while this channel was cut off''"
| "rte_site_role_reason_text REASON_DUAL_ONLINE =
     ''both sites ONLINE without a lost-contact history''"
| "rte_site_role_reason_text REASON_WAITING_READY =
     ''promotion held back until both A/B channels are ready''"
| "rte_site_role_reason_text REASON_NONE = ''none''"

fun rte_site_role_reason_token :: "site_role_reason \<Rightarrow> string" where
  "rte_site_role_reason_token REASON_BOTH_FAULTED = ''both_faulted''"
| "rte_site_role_reason_token REASON_PEER_FAULTED = ''peer_faulted''"
| "rte_site_role_reason_token REASON_RECOVERED = ''recovered''"
| "rte_site_role_reason_token REASON_DISPATCHER_CONFIRMED = ''dispatcher''"
| "rte_site_role_reason_token REASON_BOTH_STANDBY_WEST = ''both_standby_west''"
| "rte_site_role_reason_token REASON_BOTH_STANDBY_SIBLING = ''both_standby_sibling''"
| "rte_site_role_reason_token REASON_YIELD_TO_TAKEOVER = ''yield''"
| "rte_site_role_reason_token REASON_DUAL_ONLINE = ''dual_online''"
| "rte_site_role_reason_token REASON_WAITING_READY = ''waiting_ready''"
| "rte_site_role_reason_token REASON_NONE = ''none''"

definition rte_site_role_standby_sync_due ::
  "bool \<Rightarrow> bool \<Rightarrow> bool \<Rightarrow> bool \<Rightarrow> u32 \<Rightarrow> u32 \<Rightarrow> bool" where
  "rte_site_role_standby_sync_due sync_enabled is_online link_up healthy cycle last_try =
    (if sync_enabled \<and> is_online \<and> link_up
     then (if healthy then True
           else cycle < last_try \<or> cycle - last_try \<ge> STANDBY_SYNC_RETRY_CYCLES)
     else False)"

definition rte_site_role_standby_data_stale ::
  "bool \<Rightarrow> bool \<Rightarrow> bool \<Rightarrow> u32 \<Rightarrow> u32 \<Rightarrow> bool" where
  "rte_site_role_standby_data_stale sync_enabled is_online have_snapshot cycle last_rx_cycle =
    (if sync_enabled \<and> \<not> is_online \<and> have_snapshot
     then cycle < last_rx_cycle \<or> cycle - last_rx_cycle > STANDBY_DATA_TIMEOUT_CYCLES
     else False)"

section \<open>The rules taken one at a time\<close>

lemmas decide_unfold = rte_site_role_decide_def decide_rules_def Let_def

text \<open>The facts under which the both-standby rule counts its cycles.\<close>

definition both_standby :: "site_role_input \<Rightarrow> bool" where
  "both_standby i \<longleftrightarrow> \<not> in_is_online i \<and> \<not> in_own_faulted i \<and> in_link_up i \<and>
     \<not> in_peer_unresponsive i \<and> peer_answering i \<and> \<not> in_peer_online_now i \<and> \<not> in_peer_faulted i"

definition sibling_ahead :: "site_role_input \<Rightarrow> bool" where
  "sibling_ahead i \<longleftrightarrow> \<not> in_is_online i \<and> \<not> in_own_faulted i \<and> in_sibling_online i \<and>
     \<not> in_peer_faulted i \<and> \<not> (in_peer_online_now i \<and> peer_answering i)"

definition takeover_due :: "site_role_input \<Rightarrow> bool" where
  "takeover_due i = rte_site_role_takeover_allowed (in_is_online i) (in_own_faulted i)
     (in_peer_unresponsive i) (in_takeover_confirmed i) (in_cycle i) (in_takeover_confirm_cycle i)"

lemma takeover_due_iff:
  "takeover_due i \<longleftrightarrow> \<not> in_is_online i \<and> \<not> in_own_faulted i \<and> in_peer_unresponsive i \<and>
     in_takeover_confirmed i \<and>
     unat (in_takeover_confirm_cycle i) \<le> unat (in_cycle i) \<and>
     unat (in_cycle i) \<le> unat (in_takeover_confirm_cycle i) + 120"
  by (auto simp: takeover_due_def rte_site_role_takeover_allowed_def
      TAKEOVER_CONFIRM_VALID_CYCLES_def word_le_nat_alt unat_sub)

lemma peer_answering_iff:
  "peer_answering i \<longleftrightarrow>
     unat (in_peer_last_rx_cycle i) \<le> unat (in_cycle i) \<and>
     unat (in_cycle i) \<le> unat (in_peer_last_rx_cycle i) + 2"
  unfolding peer_answering_def by (simp add: word_age_le_iff)

lemma decide_rules_eq:
  "decide_rules i =
    (let act = (\<lambda>a r n. \<lparr>d_action = a, d_reason = r, d_both_standby_cycles = n\<rparr>);
         n = in_both_standby_cycles i + 1 in
     if in_own_faulted i \<and> in_peer_faulted i then act ACTION_RENEGOTIATE REASON_BOTH_FAULTED 0
     else if \<not> in_own_faulted i \<and> \<not> in_is_online i \<and> in_peer_faulted i
     then act ACTION_PROMOTE REASON_PEER_FAULTED 0
     else if in_own_faulted i \<and> in_peer_snapshot_valid i then act ACTION_DEMOTE REASON_RECOVERED 0
     else if takeover_due i then act ACTION_PROMOTE REASON_DISPATCHER_CONFIRMED 0
     else if in_is_online i \<and> \<not> in_own_faulted i \<and> \<not> in_peer_faulted i \<and>
             in_peer_online_now i \<and> peer_answering i
     then (if in_lost_peer_while_online i then act ACTION_DEMOTE REASON_YIELD_TO_TAKEOVER 0
           else act ACTION_ALARM REASON_DUAL_ONLINE 0)
     else if both_standby i
     then (if rte_site_role_both_standby_tiebreak n (in_is_west i) (in_sibling_online i)
           then act ACTION_PROMOTE (if in_sibling_online i then REASON_BOTH_STANDBY_SIBLING
                                    else REASON_BOTH_STANDBY_WEST) 0
           else act ACTION_NONE REASON_NONE n)
     else if sibling_ahead i
     then (if 2 \<le> n then act ACTION_PROMOTE REASON_BOTH_STANDBY_SIBLING 0
           else act ACTION_NONE REASON_NONE n)
     else act ACTION_NONE REASON_NONE 0)"
  unfolding decide_rules_def takeover_due_def both_standby_def sibling_ahead_def Let_def
  by (intro if_cong refl) auto

lemma decide_rules_promote_iff:
  "d_action (decide_rules i) = ACTION_PROMOTE \<longleftrightarrow>
     \<not> in_own_faulted i \<and> \<not> in_is_online i \<and>
     (in_peer_faulted i \<or> takeover_due i \<or>
      both_standby i \<and> rte_site_role_both_standby_tiebreak (in_both_standby_cycles i + 1)
                          (in_is_west i) (in_sibling_online i) \<or>
      \<not> both_standby i \<and> sibling_ahead i \<and> 2 \<le> in_both_standby_cycles i + 1)"
proof -
  have "takeover_due i \<Longrightarrow> \<not> in_own_faulted i \<and> \<not> in_is_online i"
    and "both_standby i \<Longrightarrow> \<not> in_own_faulted i \<and> \<not> in_is_online i \<and> \<not> in_peer_faulted i"
    and "sibling_ahead i \<Longrightarrow> \<not> in_own_faulted i \<and> \<not> in_is_online i \<and> \<not> in_peer_faulted i"
    by (simp_all add: takeover_due_iff both_standby_def sibling_ahead_def)
  then show ?thesis
    unfolding decide_rules_eq Let_def
    by (cases "in_own_faulted i"; cases "in_is_online i"; cases "in_peer_faulted i";
        cases "takeover_due i"; cases "both_standby i"; cases "sibling_ahead i") simp_all
qed

lemma decide_promote_rules:
  "d_action (rte_site_role_decide i) = ACTION_PROMOTE \<longleftrightarrow>
     d_action (decide_rules i) = ACTION_PROMOTE \<and> pair_ready_to_promote i"
  by (auto simp: rte_site_role_decide_def Let_def)

lemma decide_demote_rules:
  "d_action (rte_site_role_decide i) = ACTION_DEMOTE \<longleftrightarrow>
     d_action (decide_rules i) = ACTION_DEMOTE"
  by (simp add: rte_site_role_decide_def Let_def)

lemma decide_renegotiate_iff:
  "d_action (rte_site_role_decide i) = ACTION_RENEGOTIATE \<longleftrightarrow>
     in_own_faulted i \<and> in_peer_faulted i"
  unfolding decide_unfold by simp

lemma decide_demote_iff_rules:
  "d_action (rte_site_role_decide i) = ACTION_DEMOTE \<longleftrightarrow>
     (in_own_faulted i \<and> in_peer_snapshot_valid i \<and> \<not> in_peer_faulted i) \<or>
     (\<not> in_own_faulted i \<and> in_is_online i \<and> \<not> in_peer_faulted i \<and> in_peer_online_now i \<and>
      peer_answering i \<and> in_lost_peer_while_online i)"
proof -
  have "takeover_due i \<Longrightarrow> \<not> in_own_faulted i \<and> \<not> in_is_online i"
    and "both_standby i \<Longrightarrow> \<not> in_own_faulted i \<and> \<not> in_is_online i \<and> \<not> in_peer_faulted i"
    and "sibling_ahead i \<Longrightarrow> \<not> in_own_faulted i \<and> \<not> in_is_online i \<and> \<not> in_peer_faulted i"
    by (simp_all add: takeover_due_iff both_standby_def sibling_ahead_def)
  then show ?thesis
    unfolding decide_demote_rules decide_rules_eq Let_def
    by (cases "in_own_faulted i"; cases "in_is_online i"; cases "in_peer_faulted i";
        cases "takeover_due i"; cases "both_standby i"; cases "sibling_ahead i") auto
qed

section \<open>Runs of decisions\<close>

text \<open>
  The caller stores \<open>d_both_standby_cycles\<close> and hands it back in the next cycle
  (\<^verbatim>\<open>rte_site_role_evaluate()\<close>). Over a list of inputs, one per cycle:
\<close>

fun decide_cycles :: "u32 \<Rightarrow> site_role_input list \<Rightarrow> site_role_decision list" where
  "decide_cycles n [] = []"
| "decide_cycles n (i # is) =
     (let d = rte_site_role_decide (i\<lparr>in_both_standby_cycles := n\<rparr>)
      in d # decide_cycles (d_both_standby_cycles d) is)"

lemma both_standby_update [simp]:
  "both_standby (i\<lparr>in_both_standby_cycles := n\<rparr>) = both_standby i"
  "pair_ready_to_promote (i\<lparr>in_both_standby_cycles := n\<rparr>) = pair_ready_to_promote i"
  by (simp_all add: both_standby_def peer_answering_def pair_ready_to_promote_def)

lemma decide_both_standby:
  assumes "both_standby i"
  shows "rte_site_role_decide i =
    (if rte_site_role_both_standby_tiebreak (in_both_standby_cycles i + 1) (in_is_west i)
          (in_sibling_online i)
     then if pair_ready_to_promote i
          then \<lparr>d_action = ACTION_PROMOTE,
                d_reason = (if in_sibling_online i then REASON_BOTH_STANDBY_SIBLING
                            else REASON_BOTH_STANDBY_WEST),
                d_both_standby_cycles = 0\<rparr>
          else \<lparr>d_action = ACTION_WAIT, d_reason = REASON_WAITING_READY,
                d_both_standby_cycles = in_both_standby_cycles i + 1\<rparr>
     else \<lparr>d_action = ACTION_NONE, d_reason = REASON_NONE,
           d_both_standby_cycles = in_both_standby_cycles i + 1\<rparr>)"
proof -
  have "\<not> takeover_due i" "\<not> in_own_faulted i" "\<not> in_is_online i" "\<not> in_peer_faulted i"
    using assms by (auto simp: both_standby_def takeover_due_iff)
  with assms show ?thesis
    by (simp add: rte_site_role_decide_def decide_rules_eq Let_def)
qed

definition lone_standby :: "bool \<Rightarrow> site_role_input \<Rightarrow> bool" where
  "lone_standby west i \<longleftrightarrow> both_standby i \<and> \<not> in_sibling_online i \<and>
     pair_ready_to_promote i \<and> in_is_west i = west"

lemma lone_standby_step:
  assumes "lone_standby west i"
  shows "rte_site_role_decide (i\<lparr>in_both_standby_cycles := n\<rparr>) =
    (if west \<and> 6 \<le> n + 1
     then \<lparr>d_action = ACTION_PROMOTE, d_reason = REASON_BOTH_STANDBY_WEST,
           d_both_standby_cycles = 0\<rparr>
     else \<lparr>d_action = ACTION_NONE, d_reason = REASON_NONE, d_both_standby_cycles = n + 1\<rparr>)"
  using assms
  by (simp add: lone_standby_def decide_both_standby rte_site_role_both_standby_tiebreak_def
      BOTH_STANDBY_CYCLES_def)

lemma decide_cycles_lone_west:
  assumes "\<forall>i \<in> set is. lone_standby True i" "k + length is = 6"
  shows "map d_action (decide_cycles (of_nat k) is) =
    (if is = [] then [] else replicate (5 - k) ACTION_NONE @ [ACTION_PROMOTE])"
  using assms
proof (induction "is" arbitrary: k)
  case Nil
  then show ?case by simp
next
  case (Cons i "is")
  have k: "k \<le> 5" using Cons.prems by simp
  have word: "(6 \<le> (of_nat k :: u32) + 1) = (k = 5)"
  proof -
    have "k \<in> {0, 1, 2, 3, 4, 5}" using k by auto
    then show ?thesis by (elim insertE) (simp_all add: word_le_nat_alt)
  qed
  have step: "rte_site_role_decide (i\<lparr>in_both_standby_cycles := of_nat k\<rparr>) =
    (if k = 5 then \<lparr>d_action = ACTION_PROMOTE, d_reason = REASON_BOTH_STANDBY_WEST,
           d_both_standby_cycles = 0\<rparr>
     else \<lparr>d_action = ACTION_NONE, d_reason = REASON_NONE,
           d_both_standby_cycles = of_nat (Suc k)\<rparr>)"
    using lone_standby_step [of True i "of_nat k"] Cons.prems by (simp add: word)
  show ?case
  proof (cases "k = 5")
    case True
    with Cons.prems step show ?thesis by simp
  next
    case False
    with k Cons.prems have "is \<noteq> []" by auto
    with False k Cons.IH [of "Suc k"] Cons.prems step show ?thesis
      by (simp add: Suc_diff_le numeral_eq_Suc)
  qed
qed

lemma decide_cycles_lone_east:
  assumes "\<forall>i \<in> set is. lone_standby False i"
  shows "map d_action (decide_cycles n is) = replicate (length is) ACTION_NONE"
  using assms by (induction "is" arbitrary: n) (simp_all add: lone_standby_step [where west = False] Let_def)

section \<open>Properties\<close>

text \<open>A channel is told to become ONLINE exactly when it is neither ONLINE nor FAULTED, its
  A/B pair is ready, and one of four things holds: the counterpart announced FAULTED, a
  dispatcher confirmation is at most 120 cycles old and the counterpart is unresponsive, the
  both-standby tie-break fires, or the A/B sibling is already ONLINE for two cycles and the
  counterpart is not verifiably ONLINE. No other combination of facts promotes.\<close>

theorem decide_promotes_iff:
  "d_action (rte_site_role_decide i) = ACTION_PROMOTE \<longleftrightarrow>
     \<not> in_own_faulted i \<and> \<not> in_is_online i \<and> pair_ready_to_promote i \<and>
     (in_peer_faulted i \<or> takeover_due i \<or>
      both_standby i \<and> rte_site_role_both_standby_tiebreak (in_both_standby_cycles i + 1)
                          (in_is_west i) (in_sibling_online i) \<or>
      \<not> both_standby i \<and> sibling_ahead i \<and> 2 \<le> in_both_standby_cycles i + 1)"
  unfolding decide_promote_rules decide_rules_promote_iff by blast

text \<open>A silent counterpart is never taken over from on silence alone: when the counterpart
  is unresponsive, has not announced a fault, and no A/B sibling is ONLINE, a promotion means
  that the dispatcher confirmed it, in a cycle that is not in the future and at most 120 cycles
  ago. A confirmation stamped by a cycle counter ahead of the current one does not count.\<close>

theorem silent_peer_needs_dispatcher:
  assumes "d_action (rte_site_role_decide i) = ACTION_PROMOTE"
    and "in_peer_unresponsive i" "\<not> in_peer_faulted i" "\<not> in_sibling_online i"
  shows "in_takeover_confirmed i \<and>
    unat (in_takeover_confirm_cycle i) \<le> unat (in_cycle i) \<and>
    unat (in_cycle i) - unat (in_takeover_confirm_cycle i) \<le> 120"
  using assms unfolding decide_promote_rules decide_rules_promote_iff
  by (auto simp: both_standby_def sibling_ahead_def takeover_due_iff)

definition silent_peer_input :: site_role_input where
  "silent_peer_input = \<lparr>in_is_online = False, in_own_faulted = False, in_is_west = False,
     in_link_up = False, in_peer_unresponsive = True, in_cycle = 500,
     in_peer_last_rx_cycle = 100, in_peer_online_now = False, in_peer_faulted = False,
     in_peer_snapshot_valid = False, in_sibling_online = False, in_takeover_confirmed = True,
     in_takeover_confirm_cycle = 380, in_lost_peer_while_online = False,
     in_both_standby_cycles = 0, in_own_ready = True, in_sibling_ready = True,
     in_sibling_reachable = True\<rparr>"

lemma silent_peer_promotes: "d_action (rte_site_role_decide silent_peer_input) = ACTION_PROMOTE"
  by code_simp

theorem silent_peer_needs_dispatcher_witness:
  "in_takeover_confirmed silent_peer_input \<and>
    unat (in_takeover_confirm_cycle silent_peer_input) \<le> unat (in_cycle silent_peer_input) \<and>
    unat (in_cycle silent_peer_input) - unat (in_takeover_confirm_cycle silent_peer_input) \<le> 120"
  by (rule silent_peer_needs_dispatcher [OF silent_peer_promotes])
    (simp_all add: silent_peer_input_def)

text \<open>A channel gives up ONLINE, or a FAULTED channel stands down, in two cases only: it is
  FAULTED, has a valid snapshot and the counterpart is not FAULTED; or it is ONLINE and healthy,
  the counterpart answers and is ONLINE, and this channel lost the counterpart while it was
  ONLINE. Two sites that are ONLINE without that history are reported, not demoted.\<close>

theorem decide_demotes_iff:
  "d_action (rte_site_role_decide i) = ACTION_DEMOTE \<longleftrightarrow>
     (in_own_faulted i \<and> in_peer_snapshot_valid i \<and> \<not> in_peer_faulted i) \<or>
     (\<not> in_own_faulted i \<and> in_is_online i \<and> \<not> in_peer_faulted i \<and> in_peer_online_now i \<and>
      peer_answering i \<and> in_lost_peer_while_online i)"
  by (rule decide_demote_iff_rules)

text \<open>The tie-break between two standby sites: over six consecutive cycles in which both
  sites are standby and ready and no sibling is ONLINE, WEST does nothing for five cycles and is
  promoted in the sixth, while EAST is never promoted, however long the run.\<close>

theorem tiebreak_sixth_cycle:
  assumes "\<forall>i \<in> set west. lone_standby True i" "length west = 6"
    and "\<forall>i \<in> set east. lone_standby False i"
  shows "map d_action (decide_cycles 0 west) = replicate 5 ACTION_NONE @ [ACTION_PROMOTE] \<and>
    ACTION_PROMOTE \<notin> d_action ` set (decide_cycles n east)"
proof
  show "map d_action (decide_cycles 0 west) = replicate 5 ACTION_NONE @ [ACTION_PROMOTE]"
    using decide_cycles_lone_west [of west 0] assms by (auto simp: numeral_eq_Suc)
  have "d_action ` set (decide_cycles n east) = set (map d_action (decide_cycles n east))"
    by simp
  then show "ACTION_PROMOTE \<notin> d_action ` set (decide_cycles n east)"
    using decide_cycles_lone_east [OF assms(3)] by (simp add: set_replicate_conv_if)
qed

definition standby_input :: "bool \<Rightarrow> site_role_input" where
  "standby_input west = silent_peer_input\<lparr>in_is_west := west, in_link_up := True,
     in_peer_unresponsive := False, in_peer_last_rx_cycle := 499\<rparr>"

lemma lone_standby_input: "lone_standby west (standby_input west)"
  by (simp add: lone_standby_def standby_input_def silent_peer_input_def both_standby_def
      peer_answering_def pair_ready_to_promote_def)

theorem tiebreak_sixth_cycle_witness:
  "map d_action (decide_cycles 0 (replicate 6 (standby_input True))) =
     replicate 5 ACTION_NONE @ [ACTION_PROMOTE] \<and>
   ACTION_PROMOTE \<notin> d_action ` set (decide_cycles 0 (replicate 9 (standby_input False)))"
  by (rule tiebreak_sixth_cycle) (auto simp: lone_standby_input)

section \<open>A remark on the counter\<close>

text \<open>
  \<^verbatim>\<open>both_standby_cycles\<close> is documented as the number of consecutive cycles in which both
  sites were standby. A promotion that is held back because the pair is not ready increments it
  whatever the reason of the promotion was, so five cycles with a FAULTED counterpart make the
  first both-standby cycle promote WEST.
\<close>

lemma wait_counts_towards_tiebreak:
  "map d_action (decide_cycles 0 (replicate 5 ((standby_input True)\<lparr>in_peer_faulted := True,
       in_own_ready := False\<rparr>) @ [standby_input True])) =
     replicate 5 ACTION_WAIT @ [ACTION_PROMOTE]"
  by code_simp

end
