(* ===== verification/Election.thy ===== *)
theory Election
  imports Rte_Types
begin

text \<open>
  The leader election among replicas, \<^verbatim>\<open>src/redundancy/election/rte_election.c\<close>: every
  replica runs it on the candidates it currently sees and derives its own state and the winner.
  The oldest start-up time wins and the smallest identifier breaks a tie. A pointer that the
  code compares with \<^verbatim>\<open>NULL\<close> is an option. The array and its length are two arguments, as in
  the code.
\<close>

section \<open>Data\<close>

record rte_election_candidate =
  cand_id :: u32
  cand_startup_timestamp_ms :: u64
  cand_degraded :: bool

record rte_election =
  el_own_id :: u32
  el_own_last_state :: rte_dual_state
  el_winner_id :: u32
  el_have_winner :: bool

definition MAX_REPLICAS :: nat where "MAX_REPLICAS = 5"

section \<open>Operations\<close>

text \<open>\<open>rte_election_init\<close>: the two pointers and, when neither is \<^verbatim>\<open>NULL\<close>, the object and the
  configured identifier.\<close>

definition rte_election_init ::
  "rte_election option \<Rightarrow> u32 option \<Rightarrow> rte_status \<times> rte_election option" where
  "rte_election_init election config =
    (case (election, config) of
       (Some e, Some own_id) \<Rightarrow>
         (STATUS_OK, Some (e\<lparr>el_own_id := own_id, el_own_last_state := DUAL_IDLE,
                           el_winner_id := 0, el_have_winner := False\<rparr>))
     | _ \<Rightarrow> (STATUS_INVALID_PARAM, election))"

definition find_own_index :: "rte_election_candidate list \<Rightarrow> nat \<Rightarrow> u32 \<Rightarrow> nat option" where
  "find_own_index candidates candidate_count own_id =
    List.find (\<lambda>i. cand_id (candidates ! i) = own_id) [0..<candidate_count]"

definition precedes :: "rte_election_candidate \<Rightarrow> rte_election_candidate \<Rightarrow> bool" where
  "precedes c d \<longleftrightarrow>
    cand_startup_timestamp_ms c < cand_startup_timestamp_ms d \<or>
    (cand_startup_timestamp_ms c = cand_startup_timestamp_ms d \<and> cand_id c < cand_id d)"

definition find_winner_index :: "rte_election_candidate list \<Rightarrow> nat \<Rightarrow> nat" where
  "find_winner_index candidates candidate_count =
    fold (\<lambda>i winner. if precedes (candidates ! i) (candidates ! winner) then i else winner)
      [1..<candidate_count] 0"

definition rte_election_execute ::
  "rte_election option \<Rightarrow> rte_election_candidate list option \<Rightarrow> nat \<Rightarrow>
    rte_status \<times> rte_election option" where
  "rte_election_execute election candidates candidate_count =
    (case election of
       None \<Rightarrow> (STATUS_INVALID_PARAM, election)
     | Some e \<Rightarrow>
         if candidate_count > MAX_REPLICAS then (STATUS_INVALID_PARAM, election)
         else if candidates = None \<and> candidate_count > 0 then (STATUS_INVALID_PARAM, election)
         else
           let cs = (case candidates of None \<Rightarrow> [] | Some cs \<Rightarrow> cs) in
           case find_own_index cs candidate_count (el_own_id e) of
             None \<Rightarrow> (STATUS_OK, Some (e\<lparr>el_own_last_state := DUAL_UNKNOWN\<rparr>))
           | Some own_index \<Rightarrow>
               let winner_index = find_winner_index cs candidate_count;
                   e' = e\<lparr>el_winner_id := cand_id (cs ! winner_index), el_have_winner := True\<rparr>
               in (STATUS_OK, Some (e'\<lparr>el_own_last_state :=
                    (if winner_index = own_index then DUAL_ONLINE
                     else if cand_degraded (cs ! winner_index) then DUAL_COLDSTANDBY
                     else DUAL_HOTSTANDBY)\<rparr>)))"

definition rte_election_get_own_state :: "rte_election option \<Rightarrow> rte_dual_state" where
  "rte_election_get_own_state election =
    (case election of None \<Rightarrow> DUAL_IDLE | Some e \<Rightarrow> el_own_last_state e)"

text \<open>The out parameter is the second component, \<open>None\<close> when nothing is written to it.\<close>

definition rte_election_get_winner_id ::
  "rte_election option \<Rightarrow> bool \<Rightarrow> rte_status \<times> u32 option" where
  "rte_election_get_winner_id election out_id_given =
    (case election of
       None \<Rightarrow> (STATUS_INVALID_PARAM, None)
     | Some e \<Rightarrow>
         if \<not> out_id_given then (STATUS_INVALID_PARAM, None)
         else if \<not> el_have_winner e then (STATUS_NOT_INITIALIZED, None)
         else (STATUS_OK, Some (el_winner_id e)))"

section \<open>The order of the candidates\<close>

text \<open>The key by which candidates are compared, with its lexicographic order.\<close>

datatype election_key = Election_Key (key_time: u64) (key_id: u32)

instantiation election_key :: linorder
begin

definition less_eq_election_key :: "election_key \<Rightarrow> election_key \<Rightarrow> bool" where
  "less_eq_election_key a b \<longleftrightarrow>
    key_time a < key_time b \<or> (key_time a = key_time b \<and> key_id a \<le> key_id b)"

definition less_election_key :: "election_key \<Rightarrow> election_key \<Rightarrow> bool" where
  "less_election_key a b \<longleftrightarrow>
    key_time a < key_time b \<or> (key_time a = key_time b \<and> key_id a < key_id b)"

instance
proof
  fix a b c :: election_key
  show "(a < b) = (a \<le> b \<and> \<not> b \<le> a)"
    by (auto simp: less_election_key_def less_eq_election_key_def)
  show "a \<le> a" by (simp add: less_eq_election_key_def)
  show "a \<le> b \<Longrightarrow> b \<le> c \<Longrightarrow> a \<le> c" by (auto simp: less_eq_election_key_def)
  show "a \<le> b \<Longrightarrow> b \<le> a \<Longrightarrow> a = b"
    by (cases a; cases b) (auto simp: less_eq_election_key_def)
  show "a \<le> b \<or> b \<le> a" by (auto simp: less_eq_election_key_def)
qed

end

definition election_key :: "rte_election_candidate \<Rightarrow> election_key" where
  "election_key c = Election_Key (cand_startup_timestamp_ms c) (cand_id c)"

lemma precedes_iff_less: "precedes c d \<longleftrightarrow> election_key c < election_key d"
  by (simp add: precedes_def election_key_def less_election_key_def)

lemma election_key_inject_id: "election_key c = election_key d \<Longrightarrow> cand_id c = cand_id d"
  by (simp add: election_key_def)

section \<open>The two scans\<close>

lemma winner_scan:
  assumes "\<forall>i \<in> set js. i < n" "w < n"
  shows "(let win = fold (\<lambda>i w. if precedes (cs ! i) (cs ! w) then i else w) js w in
    win < n \<and> win \<in> insert w (set js) \<and>
    (\<forall>i \<in> insert w (set js). election_key (cs ! win) \<le> election_key (cs ! i)))"
  using assms unfolding Let_def
proof (induction js arbitrary: w)
  case (Cons j js)
  let ?w = "if precedes (cs ! j) (cs ! w) then j else w"
  have "?w < n" using Cons.prems by simp
  with Cons.IH [of ?w] Cons.prems
  have IH: "fold (\<lambda>i w. if precedes (cs ! i) (cs ! w) then i else w) js ?w < n"
    "fold (\<lambda>i w. if precedes (cs ! i) (cs ! w) then i else w) js ?w \<in> insert ?w (set js)"
    "\<forall>i \<in> insert ?w (set js). election_key (cs !
       fold (\<lambda>i w. if precedes (cs ! i) (cs ! w) then i else w) js ?w) \<le> election_key (cs ! i)"
    by auto
  have "election_key (cs ! ?w) \<le> election_key (cs ! j)"
    "election_key (cs ! ?w) \<le> election_key (cs ! w)"
    by (auto simp: precedes_iff_less)
  with IH show ?case by (auto simp: insert_commute intro: order_trans)
qed simp

lemma find_winner_index:
  assumes "0 < n"
  shows "find_winner_index cs n < n"
    and "i < n \<Longrightarrow> election_key (cs ! find_winner_index cs n) \<le> election_key (cs ! i)"
proof -
  have all: "insert 0 (set [1..<n]) = {0..<n}" using assms by auto
  have scan: "find_winner_index cs n < n \<and>
    (\<forall>i \<in> insert 0 (set [1..<n]). election_key (cs ! find_winner_index cs n) \<le> election_key (cs ! i))"
    using winner_scan [of "[1..<n]" n 0 cs] assms
    unfolding find_winner_index_def Let_def by simp
  then show "find_winner_index cs n < n" by simp
  show "i < n \<Longrightarrow> election_key (cs ! find_winner_index cs n) \<le> election_key (cs ! i)"
    using scan unfolding all by simp
qed

lemma find_own_index_None:
  "n \<le> length cs \<Longrightarrow> find_own_index cs n own = None \<longleftrightarrow> own \<notin> cand_id ` set (take n cs)"
  by (force simp: find_own_index_def find_None_iff_all in_set_conv_nth)

lemma find_own_index_SomeD:
  "find_own_index cs n own = Some i \<Longrightarrow> i < n \<and> cand_id (cs ! i) = own"
  by (auto simp: find_own_index_def dest: find_SomeD)

text \<open>Distinct identifiers make the winner the only least candidate.\<close>

definition least_candidate ::
  "rte_election_candidate set \<Rightarrow> rte_election_candidate \<Rightarrow> bool" where
  "least_candidate C w \<longleftrightarrow> w \<in> C \<and> (\<forall>c \<in> C. election_key w \<le> election_key c)"

lemma least_candidate_unique:
  assumes "least_candidate C v" "least_candidate C w" "inj_on cand_id C"
  shows "v = w"
proof -
  have "election_key v = election_key w"
    using assms(1,2) by (auto simp: least_candidate_def intro: antisym)
  with assms show ?thesis
    by (metis election_key_inject_id inj_onD least_candidate_def)
qed

lemma winner_least_candidate:
  assumes "0 < n" "n \<le> length cs"
  shows "least_candidate (set (take n cs)) (cs ! find_winner_index cs n)"
  using find_winner_index [OF assms(1), where cs = cs] assms
  by (force simp: least_candidate_def in_set_conv_nth)

lemma execute_own_present:
  assumes "n \<le> length cs" "n \<le> MAX_REPLICAS" "el_own_id e \<in> cand_id ` set (take n cs)"
  shows "\<exists>own_index. find_own_index cs n (el_own_id e) = Some own_index \<and> own_index < n \<and>
    cand_id (cs ! own_index) = el_own_id e \<and>
    rte_election_execute (Some e) (Some cs) n =
      (STATUS_OK, Some (e\<lparr>el_winner_id := cand_id (cs ! find_winner_index cs n),
         el_have_winner := True,
         el_own_last_state :=
           (if find_winner_index cs n = own_index then DUAL_ONLINE
            else if cand_degraded (cs ! find_winner_index cs n) then DUAL_COLDSTANDBY
            else DUAL_HOTSTANDBY)\<rparr>))"
proof -
  obtain j where j: "find_own_index cs n (el_own_id e) = Some j"
    using find_own_index_None [OF assms(1), of "el_own_id e"] assms(3) by fastforce
  moreover have "\<not> MAX_REPLICAS < n" using assms(2) by simp
  ultimately show ?thesis
    using find_own_index_SomeD [OF j] by (simp add: rte_election_execute_def Let_def)
qed

lemma oldest_wins:
  assumes "length cs \<le> MAX_REPLICAS" "distinct (map cand_id cs)"
    and "el_own_id e \<in> cand_id ` set cs"
    and "least_candidate (set cs) w"
  shows "rte_election_execute (Some e) (Some cs) (length cs) =
    (STATUS_OK, Some (e\<lparr>el_winner_id := cand_id w, el_have_winner := True, el_own_last_state :=
       (if el_own_id e = cand_id w then DUAL_ONLINE
        else if cand_degraded w then DUAL_COLDSTANDBY else DUAL_HOTSTANDBY)\<rparr>))"
proof -
  let ?n = "length cs"
  have pos: "0 < ?n" using assms(3) by auto
  have inj: "inj_on cand_id (set cs)" using assms(2) by (simp add: distinct_map)
  have w: "w = cs ! find_winner_index cs ?n"
    using winner_least_candidate [OF pos order_refl] assms(4) inj
    by (auto intro: least_candidate_unique)
  have win: "find_winner_index cs ?n < ?n" by (rule find_winner_index(1)) (rule pos)
  obtain j where j: "j < ?n" "cand_id (cs ! j) = el_own_id e"
    and run: "rte_election_execute (Some e) (Some cs) ?n =
      (STATUS_OK, Some (e\<lparr>el_winner_id := cand_id (cs ! find_winner_index cs ?n),
         el_have_winner := True,
         el_own_last_state :=
           (if find_winner_index cs ?n = j then DUAL_ONLINE
            else if cand_degraded (cs ! find_winner_index cs ?n) then DUAL_COLDSTANDBY
            else DUAL_HOTSTANDBY)\<rparr>))"
    using execute_own_present [of "length cs" cs e] assms by auto
  have "find_winner_index cs ?n = j \<longleftrightarrow> el_own_id e = cand_id w"
    using nth_eq_iff_index_eq [OF assms(2), of "find_winner_index cs ?n" j] j win by (auto simp: w)
  with run w show ?thesis by simp
qed

section \<open>Properties\<close>

text \<open>An election among at most five candidates with distinct identifiers, run by one of
  them, ends with OK and names as the winner the candidate with the least start-up time, ties
  broken by the least identifier. The node is ONLINE exactly when it is that candidate itself,
  otherwise HOTSTANDBY, or COLDSTANDBY when the winner is degraded.\<close>

theorem election_winner_is_oldest:
  assumes "length cs \<le> MAX_REPLICAS" "distinct (map cand_id cs)"
    and "el_own_id e \<in> cand_id ` set cs"
    and "least_candidate (set cs) w"
  shows "rte_election_execute (Some e) (Some cs) (length cs) =
    (STATUS_OK, Some (e\<lparr>el_winner_id := cand_id w, el_have_winner := True, el_own_last_state :=
       (if el_own_id e = cand_id w then DUAL_ONLINE
        else if cand_degraded w then DUAL_COLDSTANDBY else DUAL_HOTSTANDBY)\<rparr>))"
  using assms by (rule oldest_wins)

definition sample_candidates :: "rte_election_candidate list" where
  "sample_candidates =
    [\<lparr>cand_id = 3, cand_startup_timestamp_ms = 700, cand_degraded = False\<rparr>,
     \<lparr>cand_id = 2, cand_startup_timestamp_ms = 500, cand_degraded = True\<rparr>,
     \<lparr>cand_id = 1, cand_startup_timestamp_ms = 500, cand_degraded = False\<rparr>]"

definition sample_election :: "u32 \<Rightarrow> rte_election" where
  "sample_election own = \<lparr>el_own_id = own, el_own_last_state = DUAL_IDLE, el_winner_id = 0,
     el_have_winner = False\<rparr>"

lemma sample_least: "least_candidate (set sample_candidates) (sample_candidates ! 2)"
  by (simp add: least_candidate_def sample_candidates_def election_key_def
      less_eq_election_key_def)

theorem election_winner_is_oldest_witness:
  "rte_election_execute (Some (sample_election 2)) (Some sample_candidates) 3 =
    (STATUS_OK, Some ((sample_election 2)\<lparr>el_winner_id := 1, el_have_winner := True,
       el_own_last_state := DUAL_HOTSTANDBY\<rparr>))"
  using election_winner_is_oldest [of sample_candidates "sample_election 2",
      OF _ _ _ sample_least]
  by (simp add: sample_candidates_def sample_election_def MAX_REPLICAS_def numeral_eq_Suc)


text \<open>C40. Agreement: let every node of a group of at most five with distinct identifiers run
  the election on its own list of the group, each in an order of its own. Then all nodes name
  the same winner, exactly one of them, the winner, is ONLINE, and all others hold one common
  standby state.\<close>

theorem election_agreement:
  assumes "\<And>own. own \<in> cand_id ` members \<Longrightarrow>
      set (view own) = members \<and> distinct (map cand_id (view own)) \<and>
      length (view own) \<le> MAX_REPLICAS \<and> el_own_id (node own) = own"
    and "members \<noteq> {}"
  shows "\<exists>w \<in> cand_id ` members. \<exists>standby. standby \<noteq> DUAL_ONLINE \<and>
    (\<forall>own \<in> cand_id ` members.
      case rte_election_execute (Some (node own)) (Some (view own)) (length (view own)) of
        (st, e) \<Rightarrow> st = STATUS_OK \<and>
          rte_election_get_winner_id e True = (STATUS_OK, Some w) \<and>
          rte_election_get_own_state e = (if own = w then DUAL_ONLINE else standby))"
proof -
  obtain c where "c \<in> members" using assms(2) by auto
  with assms(1) [of "cand_id c"]
  have "members = set (view (cand_id c))" "members \<noteq> {}" by auto
  then obtain n where "0 < n" "n \<le> length (view (cand_id c))"
    "members = set (take n (view (cand_id c)))"
    by (metis length_greater_0_conv order_refl set_empty take_all)
  with winner_least_candidate obtain w where w: "least_candidate members w" by metis
  let ?standby = "if cand_degraded w then DUAL_COLDSTANDBY else DUAL_HOTSTANDBY"
  have "rte_election_execute (Some (node own)) (Some (view own)) (length (view own)) =
    (STATUS_OK, Some ((node own)\<lparr>el_winner_id := cand_id w, el_have_winner := True,
       el_own_last_state := (if own = cand_id w then DUAL_ONLINE else ?standby)\<rparr>))"
    if own: "own \<in> cand_id ` members" for own
    using assms(1) [OF own] w own
    by (subst oldest_wins [where w = w]) (auto simp del: map_map)
  then show ?thesis
    using w
    by (intro bexI [of _ "cand_id w"] exI [of _ ?standby])
      (auto simp: rte_election_get_winner_id_def rte_election_get_own_state_def
        least_candidate_def)
qed

theorem election_agreement_witness:
  "\<exists>w \<in> cand_id ` set sample_candidates. \<exists>standby. standby \<noteq> DUAL_ONLINE \<and>
    (\<forall>own \<in> cand_id ` set sample_candidates.
      case rte_election_execute (Some (sample_election own))
          (Some (if own = 1 then rev sample_candidates else sample_candidates))
          (length (if own = 1 then rev sample_candidates else sample_candidates)) of
        (st, e) \<Rightarrow> st = STATUS_OK \<and>
          rte_election_get_winner_id e True = (STATUS_OK, Some w) \<and>
          rte_election_get_own_state e = (if own = w then DUAL_ONLINE else standby))"
  by (rule election_agreement)
    (auto simp: sample_candidates_def sample_election_def MAX_REPLICAS_def)

end
