(* ===== verification/Checksum_Tables.thy ===== *)
theory Checksum_Tables
  imports Rte_Prelude
begin

text \<open>
  The three lookup tables of \<^verbatim>\<open>src/redundancy/checksum/rte_checksum.c\<close>, entry by entry,
  and the bitwise reflected CRC they are checked against: each table equals the one the bitwise
  rule produces from its declared polynomial.
\<close>

section \<open>The tables\<close>

definition g_crc64_ertms_table :: "u64 list" where
  "g_crc64_ertms_table = [
     0x0000000000000000, 0x0B2CAB2AF58BDC79, 0x16595655EB17B8F2, 0x1D75FD7F1E9C648B,
     0x162C6BDB0AAEBB67, 0x1D00C0F1FF25671E, 0x00753D8EE1B90395, 0x0B5996A41432DFEC,
     0x16C610C6C9DCBC4D, 0x1DEABBEC3C576034, 0x009F469322CB04BF, 0x0BB3EDB9D740D8C6,
     0x00EA7B1DC372072A, 0x0BC6D03736F9DB53, 0x16B32D482865BFD8, 0x1D9F8662DDEE63A1,
     0x1712E6FD4F38B219, 0x1C3E4DD7BAB36E60, 0x014BB0A8A42F0AEB, 0x0A671B8251A4D692,
     0x013E8D264596097E, 0x0A12260CB01DD507, 0x1767DB73AE81B18C, 0x1C4B70595B0A6DF5,
     0x01D4F63B86E40E54, 0x0AF85D11736FD22D, 0x178DA06E6DF3B6A6, 0x1CA10B4498786ADF,
     0x17F89DE08C4AB533, 0x1CD436CA79C1694A, 0x01A1CBB5675D0DC1, 0x0A8D609F92D6D1B8,
     0x14BB0A8A42F0AEB1, 0x1F97A1A0B77B72C8, 0x02E25CDFA9E71643, 0x09CEF7F55C6CCA3A,
     0x02976151485E15D6, 0x09BBCA7BBDD5C9AF, 0x14CE3704A349AD24, 0x1FE29C2E56C2715D,
     0x027D1A4C8B2C12FC, 0x0951B1667EA7CE85, 0x14244C19603BAA0E, 0x1F08E73395B07677,
     0x145171978182A99B, 0x1F7DDABD740975E2, 0x020827C26A951169, 0x09248CE89F1ECD10,
     0x03A9EC770DC81CA8, 0x0885475DF843C0D1, 0x15F0BA22E6DFA45A, 0x1EDC110813547823,
     0x158587AC0766A7CF, 0x1EA92C86F2ED7BB6, 0x03DCD1F9EC711F3D, 0x08F07AD319FAC344,
     0x156FFCB1C414A0E5, 0x1E43579B319F7C9C, 0x0336AAE42F031817, 0x081A01CEDA88C46E,
     0x0343976ACEBA1B82, 0x086F3C403B31C7FB, 0x151AC13F25ADA370, 0x1E366A15D0267F09,
     0x13E8D264596097E1, 0x18C4794EACEB4B98, 0x05B18431B2772F13, 0x0E9D2F1B47FCF36A,
     0x05C4B9BF53CE2C86, 0x0EE81295A645F0FF, 0x139DEFEAB8D99474, 0x18B144C04D52480D,
     0x052EC2A290BC2BAC, 0x0E0269886537F7D5, 0x137794F77BAB935E, 0x185B3FDD8E204F27,
     0x1302A9799A1290CB, 0x182E02536F994CB2, 0x055BFF2C71052839, 0x0E775406848EF440,
     0x04FA3499165825F8, 0x0FD69FB3E3D3F981, 0x12A362CCFD4F9D0A, 0x198FC9E608C44173,
     0x12D65F421CF69E9F, 0x19FAF468E97D42E6, 0x048F0917F7E1266D, 0x0FA3A23D026AFA14,
     0x123C245FDF8499B5, 0x19108F752A0F45CC, 0x0465720A34932147, 0x0F49D920C118FD3E,
     0x04104F84D52A22D2, 0x0F3CE4AE20A1FEAB, 0x124919D13E3D9A20, 0x1965B2FBCBB64659,
     0x0753D8EE1B903950, 0x0C7F73C4EE1BE529, 0x110A8EBBF08781A2, 0x1A262591050C5DDB,
     0x117FB335113E8237, 0x1A53181FE4B55E4E, 0x0726E560FA293AC5, 0x0C0A4E4A0FA2E6BC,
     0x1195C828D24C851D, 0x1AB9630227C75964, 0x07CC9E7D395B3DEF, 0x0CE03557CCD0E196,
     0x07B9A3F3D8E23E7A, 0x0C9508D92D69E203, 0x11E0F5A633F58688, 0x1ACC5E8CC67E5AF1,
     0x10413E1354A88B49, 0x1B6D9539A1235730, 0x06186846BFBF33BB, 0x0D34C36C4A34EFC2,
     0x066D55C85E06302E, 0x0D41FEE2AB8DEC57, 0x1034039DB51188DC, 0x1B18A8B7409A54A5,
     0x06872ED59D743704, 0x0DAB85FF68FFEB7D, 0x10DE788076638FF6, 0x1BF2D3AA83E8538F,
     0x10AB450E97DA8C63, 0x1B87EE246251501A, 0x06F2135B7CCD3491, 0x0DDEB8718946E8E8,
     0x1D4F63B86E40E541, 0x1663C8929BCB3938, 0x0B1635ED85575DB3, 0x003A9EC770DC81CA,
     0x0B63086364EE5E26, 0x004FA3499165825F, 0x1D3A5E368FF9E6D4, 0x1616F51C7A723AAD,
     0x0B89737EA79C590C, 0x00A5D85452178575, 0x1DD0252B4C8BE1FE, 0x16FC8E01B9003D87,
     0x1DA518A5AD32E26B, 0x1689B38F58B93E12, 0x0BFC4EF046255A99, 0x00D0E5DAB3AE86E0,
     0x0A5D854521785758, 0x01712E6FD4F38B21, 0x1C04D310CA6FEFAA, 0x1728783A3FE433D3,
     0x1C71EE9E2BD6EC3F, 0x175D45B4DE5D3046, 0x0A28B8CBC0C154CD, 0x010413E1354A88B4,
     0x1C9B9583E8A4EB15, 0x17B73EA91D2F376C, 0x0AC2C3D603B353E7, 0x01EE68FCF6388F9E,
     0x0AB7FE58E20A5072, 0x019B557217818C0B, 0x1CEEA80D091DE880, 0x17C20327FC9634F9,
     0x09F469322CB04BF0, 0x02D8C218D93B9789, 0x1FAD3F67C7A7F302, 0x1481944D322C2F7B,
     0x1FD802E9261EF097, 0x14F4A9C3D3952CEE, 0x098154BCCD094865, 0x02ADFF963882941C,
     0x1F3279F4E56CF7BD, 0x141ED2DE10E72BC4, 0x096B2FA10E7B4F4F, 0x0247848BFBF09336,
     0x091E122FEFC24CDA, 0x0232B9051A4990A3, 0x1F47447A04D5F428, 0x146BEF50F15E2851,
     0x1EE68FCF6388F9E9, 0x15CA24E596032590, 0x08BFD99A889F411B, 0x039372B07D149D62,
     0x08CAE4146926428E, 0x03E64F3E9CAD9EF7, 0x1E93B2418231FA7C, 0x15BF196B77BA2605,
     0x08209F09AA5445A4, 0x030C34235FDF99DD, 0x1E79C95C4143FD56, 0x15556276B4C8212F,
     0x1E0CF4D2A0FAFEC3, 0x15205FF8557122BA, 0x0855A2874BED4631, 0x037909ADBE669A48,
     0x0EA7B1DC372072A0, 0x058B1AF6C2ABAED9, 0x18FEE789DC37CA52, 0x13D24CA329BC162B,
     0x188BDA073D8EC9C7, 0x13A7712DC80515BE, 0x0ED28C52D6997135, 0x05FE27782312AD4C,
     0x1861A11AFEFCCEED, 0x134D0A300B771294, 0x0E38F74F15EB761F, 0x05145C65E060AA66,
     0x0E4DCAC1F452758A, 0x056161EB01D9A9F3, 0x18149C941F45CD78, 0x133837BEEACE1101,
     0x19B557217818C0B9, 0x1299FC0B8D931CC0, 0x0FEC0174930F784B, 0x04C0AA5E6684A432,
     0x0F993CFA72B67BDE, 0x04B597D0873DA7A7, 0x19C06AAF99A1C32C, 0x12ECC1856C2A1F55,
     0x0F7347E7B1C47CF4, 0x045FECCD444FA08D, 0x192A11B25AD3C406, 0x1206BA98AF58187F,
     0x195F2C3CBB6AC793, 0x127387164EE11BEA, 0x0F067A69507D7F61, 0x042AD143A5F6A318,
     0x1A1CBB5675D0DC11, 0x1130107C805B0068, 0x0C45ED039EC764E3, 0x076946296B4CB89A,
     0x0C30D08D7F7E6776, 0x071C7BA78AF5BB0F, 0x1A6986D89469DF84, 0x11452DF261E203FD,
     0x0CDAAB90BC0C605C, 0x07F600BA4987BC25, 0x1A83FDC5571BD8AE, 0x11AF56EFA29004D7,
     0x1AF6C04BB6A2DB3B, 0x11DA6B6143290742, 0x0CAF961E5DB563C9, 0x07833D34A83EBFB0,
     0x0D0E5DAB3AE86E08, 0x0622F681CF63B271, 0x1B570BFED1FFD6FA, 0x107BA0D424740A83,
     0x1B2236703046D56F, 0x100E9D5AC5CD0916, 0x0D7B6025DB516D9D, 0x0657CB0F2EDAB1E4,
     0x1BC84D6DF334D245, 0x10E4E64706BF0E3C, 0x0D911B3818236AB7, 0x06BDB012EDA8B6CE,
     0x0DE426B6F99A6922, 0x06C88D9C0C11B55B, 0x1BBD70E3128DD1D0, 0x1091DBC9E7060DA9]"

definition g_crc64_iso_table :: "u64 list" where
  "g_crc64_iso_table = [
     0x0000000000000000, 0x0000000000000007, 0x000000000000000E, 0x0000000000000009,
     0x000000000000001C, 0x000000000000001B, 0x0000000000000012, 0x0000000000000015,
     0x000000000000000F, 0x0000000000000008, 0x0000000000000001, 0x0000000000000006,
     0x0000000000000013, 0x0000000000000014, 0x000000000000001D, 0x000000000000001A,
     0x000000000000001E, 0x0000000000000019, 0x0000000000000010, 0x0000000000000017,
     0x0000000000000002, 0x0000000000000005, 0x000000000000000C, 0x000000000000000B,
     0x0000000000000011, 0x0000000000000016, 0x000000000000001F, 0x0000000000000018,
     0x000000000000000D, 0x000000000000000A, 0x0000000000000003, 0x0000000000000004,
     0x000000000000000B, 0x000000000000000C, 0x0000000000000005, 0x0000000000000002,
     0x0000000000000017, 0x0000000000000010, 0x0000000000000019, 0x000000000000001E,
     0x0000000000000004, 0x0000000000000003, 0x000000000000000A, 0x000000000000000D,
     0x0000000000000018, 0x000000000000001F, 0x0000000000000016, 0x0000000000000011,
     0x0000000000000015, 0x0000000000000012, 0x000000000000001B, 0x000000000000001C,
     0x0000000000000009, 0x000000000000000E, 0x0000000000000007, 0x0000000000000000,
     0x000000000000001A, 0x000000000000001D, 0x0000000000000014, 0x0000000000000013,
     0x0000000000000006, 0x0000000000000001, 0x0000000000000008, 0x000000000000000F,
     0x0000000000000016, 0x0000000000000011, 0x0000000000000018, 0x000000000000001F,
     0x000000000000000A, 0x000000000000000D, 0x0000000000000004, 0x0000000000000003,
     0x0000000000000019, 0x000000000000001E, 0x0000000000000017, 0x0000000000000010,
     0x0000000000000005, 0x0000000000000002, 0x000000000000000B, 0x000000000000000C,
     0x0000000000000008, 0x000000000000000F, 0x0000000000000006, 0x0000000000000001,
     0x0000000000000014, 0x0000000000000013, 0x000000000000001A, 0x000000000000001D,
     0x0000000000000007, 0x0000000000000000, 0x0000000000000009, 0x000000000000000E,
     0x000000000000001B, 0x000000000000001C, 0x0000000000000015, 0x0000000000000012,
     0x000000000000001D, 0x000000000000001A, 0x0000000000000013, 0x0000000000000014,
     0x0000000000000001, 0x0000000000000006, 0x000000000000000F, 0x0000000000000008,
     0x0000000000000012, 0x0000000000000015, 0x000000000000001C, 0x000000000000001B,
     0x000000000000000E, 0x0000000000000009, 0x0000000000000000, 0x0000000000000007,
     0x0000000000000003, 0x0000000000000004, 0x000000000000000D, 0x000000000000000A,
     0x000000000000001F, 0x0000000000000018, 0x0000000000000011, 0x0000000000000016,
     0x000000000000000C, 0x000000000000000B, 0x0000000000000002, 0x0000000000000005,
     0x0000000000000010, 0x0000000000000017, 0x000000000000001E, 0x0000000000000019,
     0x000000000000001B, 0x000000000000001C, 0x0000000000000015, 0x0000000000000012,
     0x0000000000000007, 0x0000000000000000, 0x0000000000000009, 0x000000000000000E,
     0x0000000000000014, 0x0000000000000013, 0x000000000000001A, 0x000000000000001D,
     0x0000000000000008, 0x000000000000000F, 0x0000000000000006, 0x0000000000000001,
     0x0000000000000005, 0x0000000000000002, 0x000000000000000B, 0x000000000000000C,
     0x0000000000000019, 0x000000000000001E, 0x0000000000000017, 0x0000000000000010,
     0x000000000000000A, 0x000000000000000D, 0x0000000000000004, 0x0000000000000003,
     0x0000000000000016, 0x0000000000000011, 0x0000000000000018, 0x000000000000001F,
     0x0000000000000010, 0x0000000000000017, 0x000000000000001E, 0x0000000000000019,
     0x000000000000000C, 0x000000000000000B, 0x0000000000000002, 0x0000000000000005,
     0x000000000000001F, 0x0000000000000018, 0x0000000000000011, 0x0000000000000016,
     0x0000000000000003, 0x0000000000000004, 0x000000000000000D, 0x000000000000000A,
     0x000000000000000E, 0x0000000000000009, 0x0000000000000000, 0x0000000000000007,
     0x0000000000000012, 0x0000000000000015, 0x000000000000001C, 0x000000000000001B,
     0x0000000000000001, 0x0000000000000006, 0x000000000000000F, 0x0000000000000008,
     0x000000000000001D, 0x000000000000001A, 0x0000000000000013, 0x0000000000000014,
     0x000000000000000D, 0x000000000000000A, 0x0000000000000003, 0x0000000000000004,
     0x0000000000000011, 0x0000000000000016, 0x000000000000001F, 0x0000000000000018,
     0x0000000000000002, 0x0000000000000005, 0x000000000000000C, 0x000000000000000B,
     0x000000000000001E, 0x0000000000000019, 0x0000000000000010, 0x0000000000000017,
     0x0000000000000013, 0x0000000000000014, 0x000000000000001D, 0x000000000000001A,
     0x000000000000000F, 0x0000000000000008, 0x0000000000000001, 0x0000000000000006,
     0x000000000000001C, 0x000000000000001B, 0x0000000000000012, 0x0000000000000015,
     0x0000000000000000, 0x0000000000000007, 0x000000000000000E, 0x0000000000000009,
     0x0000000000000006, 0x0000000000000001, 0x0000000000000008, 0x000000000000000F,
     0x000000000000001A, 0x000000000000001D, 0x0000000000000014, 0x0000000000000013,
     0x0000000000000009, 0x000000000000000E, 0x0000000000000007, 0x0000000000000000,
     0x0000000000000015, 0x0000000000000012, 0x000000000000001B, 0x000000000000001C,
     0x0000000000000018, 0x000000000000001F, 0x0000000000000016, 0x0000000000000011,
     0x0000000000000004, 0x0000000000000003, 0x000000000000000A, 0x000000000000000D,
     0x0000000000000017, 0x0000000000000010, 0x0000000000000019, 0x000000000000001E,
     0x000000000000000B, 0x000000000000000C, 0x0000000000000005, 0x0000000000000002]"

definition g_crc64_xz_table :: "u64 list" where
  "g_crc64_xz_table = [
     0x0000000000000000, 0x09A87409262A286D, 0x1350E8124C5450DA, 0x1AF89C1B6A7E78B7,
     0x0EFFCC19ED95E633, 0x0757B810CBBFCE5E, 0x1DAF240BA1C1B6E9, 0x1407500287EB9E84,
     0x1DFF9833DB2BCC66, 0x1457EC3AFD01E40B, 0x0EAF7021977F9CBC, 0x07070428B155B4D1,
     0x1300542A36BE2A55, 0x1AA8202310940238, 0x0050BC387AEA7A8F, 0x09F8C8315CC052E2,
     0x13A12C5AC36ADF4B, 0x1A095853E540F726, 0x00F1C4488F3E8F91, 0x0959B041A914A7FC,
     0x1D5EE0432EFF3978, 0x14F6944A08D51115, 0x0E0E085162AB69A2, 0x07A67C58448141CF,
     0x0E5EB4691841132D, 0x07F6C0603E6B3B40, 0x1D0E5C7B541543F7, 0x14A62872723F6B9A,
     0x00A17870F5D4F51E, 0x09090C79D3FEDD73, 0x13F19062B980A5C4, 0x1A59E46B9FAA8DA9,
     0x0F1C4488F3E8F911, 0x06B43081D5C2D17C, 0x1C4CAC9ABFBCA9CB, 0x15E4D893999681A6,
     0x01E388911E7D1F22, 0x084BFC983857374F, 0x12B3608352294FF8, 0x1B1B148A74036795,
     0x12E3DCBB28C33577, 0x1B4BA8B20EE91D1A, 0x01B334A9649765AD, 0x081B40A042BD4DC0,
     0x1C1C10A2C556D344, 0x15B464ABE37CFB29, 0x0F4CF8B08902839E, 0x06E48CB9AF28ABF3,
     0x1CBD68D23082265A, 0x15151CDB16A80E37, 0x0FED80C07CD67680, 0x0645F4C95AFC5EED,
     0x1242A4CBDD17C069, 0x1BEAD0C2FB3DE804, 0x01124CD9914390B3, 0x08BA38D0B769B8DE,
     0x0142F0E1EBA9EA3C, 0x08EA84E8CD83C251, 0x121218F3A7FDBAE6, 0x1BBA6CFA81D7928B,
     0x0FBD3CF8063C0C0F, 0x061548F120162462, 0x1CEDD4EA4A685CD5, 0x1545A0E36C4274B8,
     0x1E388911E7D1F222, 0x1790FD18C1FBDA4F, 0x0D686103AB85A2F8, 0x04C0150A8DAF8A95,
     0x10C745080A441411, 0x196F31012C6E3C7C, 0x0397AD1A461044CB, 0x0A3FD913603A6CA6,
     0x03C711223CFA3E44, 0x0A6F652B1AD01629, 0x1097F93070AE6E9E, 0x193F8D39568446F3,
     0x0D38DD3BD16FD877, 0x0490A932F745F01A, 0x1E6835299D3B88AD, 0x17C04120BB11A0C0,
     0x0D99A54B24BB2D69, 0x0431D14202910504, 0x1EC94D5968EF7DB3, 0x176139504EC555DE,
     0x03666952C92ECB5A, 0x0ACE1D5BEF04E337, 0x10368140857A9B80, 0x199EF549A350B3ED,
     0x10663D78FF90E10F, 0x19CE4971D9BAC962, 0x0336D56AB3C4B1D5, 0x0A9EA16395EE99B8,
     0x1E99F1611205073C, 0x17318568342F2F51, 0x0DC919735E5157E6, 0x04616D7A787B7F8B,
     0x1124CD9914390B33, 0x188CB9903213235E, 0x0274258B586D5BE9, 0x0BDC51827E477384,
     0x1FDB0180F9ACED00, 0x16737589DF86C56D, 0x0C8BE992B5F8BDDA, 0x05239D9B93D295B7,
     0x0CDB55AACF12C755, 0x057321A3E938EF38, 0x1F8BBDB88346978F, 0x1623C9B1A56CBFE2,
     0x022499B322872166, 0x0B8CEDBA04AD090B, 0x117471A16ED371BC, 0x18DC05A848F959D1,
     0x0285E1C3D753D478, 0x0B2D95CAF179FC15, 0x11D509D19B0784A2, 0x187D7DD8BD2DACCF,
     0x0C7A2DDA3AC6324B, 0x05D259D31CEC1A26, 0x1F2AC5C876926291, 0x1682B1C150B84AFC,
     0x1F7A79F00C78181E, 0x16D20DF92A523073, 0x0C2A91E2402C48C4, 0x0582E5EB660660A9,
     0x1185B5E9E1EDFE2D, 0x182DC1E0C7C7D640, 0x02D55DFBADB9AEF7, 0x0B7D29F28B93869A,
     0x142F0E1EBA9EA3C3, 0x1D877A179CB48BAE, 0x077FE60CF6CAF319, 0x0ED79205D0E0DB74,
     0x1AD0C207570B45F0, 0x1378B60E71216D9D, 0x09802A151B5F152A, 0x00285E1C3D753D47,
     0x09D0962D61B56FA5, 0x0078E224479F47C8, 0x1A807E3F2DE13F7F, 0x13280A360BCB1712,
     0x072F5A348C208996, 0x0E872E3DAA0AA1FB, 0x147FB226C074D94C, 0x1DD7C62FE65EF121,
     0x078E224479F47C88, 0x0E26564D5FDE54E5, 0x14DECA5635A02C52, 0x1D76BE5F138A043F,
     0x0971EE5D94619ABB, 0x00D99A54B24BB2D6, 0x1A21064FD835CA61, 0x13897246FE1FE20C,
     0x1A71BA77A2DFB0EE, 0x13D9CE7E84F59883, 0x09215265EE8BE034, 0x0089266CC8A1C859,
     0x148E766E4F4A56DD, 0x1D26026769607EB0, 0x07DE9E7C031E0607, 0x0E76EA7525342E6A,
     0x1B334A9649765AD2, 0x129B3E9F6F5C72BF, 0x0863A28405220A08, 0x01CBD68D23082265,
     0x15CC868FA4E3BCE1, 0x1C64F28682C9948C, 0x069C6E9DE8B7EC3B, 0x0F341A94CE9DC456,
     0x06CCD2A5925D96B4, 0x0F64A6ACB477BED9, 0x159C3AB7DE09C66E, 0x1C344EBEF823EE03,
     0x08331EBC7FC87087, 0x019B6AB559E258EA, 0x1B63F6AE339C205D, 0x12CB82A715B60830,
     0x089266CC8A1C8599, 0x013A12C5AC36ADF4, 0x1BC28EDEC648D543, 0x126AFAD7E062FD2E,
     0x066DAAD5678963AA, 0x0FC5DEDC41A34BC7, 0x153D42C72BDD3370, 0x1C9536CE0DF71B1D,
     0x156DFEFF513749FF, 0x1CC58AF6771D6192, 0x063D16ED1D631925, 0x0F9562E43B493148,
     0x1B9232E6BCA2AFCC, 0x123A46EF9A8887A1, 0x08C2DAF4F0F6FF16, 0x016AAEFDD6DCD77B,
     0x0A17870F5D4F51E1, 0x03BFF3067B65798C, 0x19476F1D111B013B, 0x10EF1B1437312956,
     0x04E84B16B0DAB7D2, 0x0D403F1F96F09FBF, 0x17B8A304FC8EE708, 0x1E10D70DDAA4CF65,
     0x17E81F3C86649D87, 0x1E406B35A04EB5EA, 0x04B8F72ECA30CD5D, 0x0D108327EC1AE530,
     0x1917D3256BF17BB4, 0x10BFA72C4DDB53D9, 0x0A473B3727A52B6E, 0x03EF4F3E018F0303,
     0x19B6AB559E258EAA, 0x101EDF5CB80FA6C7, 0x0AE64347D271DE70, 0x034E374EF45BF61D,
     0x1749674C73B06899, 0x1EE11345559A40F4, 0x04198F5E3FE43843, 0x0DB1FB5719CE102E,
     0x04493366450E42CC, 0x0DE1476F63246AA1, 0x1719DB74095A1216, 0x1EB1AF7D2F703A7B,
     0x0AB6FF7FA89BA4FF, 0x031E8B768EB18C92, 0x19E6176DE4CFF425, 0x104E6364C2E5DC48,
     0x050BC387AEA7A8F0, 0x0CA3B78E888D809D, 0x165B2B95E2F3F82A, 0x1FF35F9CC4D9D047,
     0x0BF40F9E43324EC3, 0x025C7B97651866AE, 0x18A4E78C0F661E19, 0x110C9385294C3674,
     0x18F45BB4758C6496, 0x115C2FBD53A64CFB, 0x0BA4B3A639D8344C, 0x020CC7AF1FF21C21,
     0x160B97AD981982A5, 0x1FA3E3A4BE33AAC8, 0x055B7FBFD44DD27F, 0x0CF30BB6F267FA12,
     0x16AAEFDD6DCD77BB, 0x1F029BD44BE75FD6, 0x05FA07CF21992761, 0x0C5273C607B30F0C,
     0x185523C480589188, 0x11FD57CDA672B9E5, 0x0B05CBD6CC0CC152, 0x02ADBFDFEA26E93F,
     0x0B5577EEB6E6BBDD, 0x02FD03E790CC93B0, 0x18059FFCFAB2EB07, 0x11ADEBF5DC98C36A,
     0x05AABBF75B735DEE, 0x0C02CFFE7D597583, 0x16FA53E517270D34, 0x1F5227EC310D2559]"

section \<open>The bitwise rule\<close>

text \<open>One bit of the reflected, right-shifting division, and the table entry of a byte.\<close>

definition crc_shift :: "u64 \<Rightarrow> u64 \<Rightarrow> u64" where
  "crc_shift poly c = (if bit c 0 then xor (drop_bit 1 c) poly else drop_bit 1 c)"

definition crc_entry :: "u64 \<Rightarrow> nat \<Rightarrow> u64" where
  "crc_entry poly n = (crc_shift poly ^^ 8) (of_nat n)"

definition POLY_ERTMS :: u64 where "POLY_ERTMS = 0x1D4F63B86E40E541"
definition POLY_ISO :: u64 where "POLY_ISO = 0x1B"
definition POLY_XZ :: u64 where "POLY_XZ = 0x142F0E1EBA9EA3C3"

lemma crc_shift_xor: "crc_shift p (xor a b) = xor (crc_shift p a) (crc_shift p b)"
  by (rule bit_eqI) (auto simp: crc_shift_def bit_simps)

lemma crc_shift_funpow_xor:
  "(crc_shift p ^^ n) (xor a b) = xor ((crc_shift p ^^ n) a) ((crc_shift p ^^ n) b)"
  by (induction n) (simp_all add: crc_shift_xor)

lemma crc_shift_0 [simp]: "crc_shift p 0 = 0"
  by (simp add: crc_shift_def)

lemma crc_entry_0: "crc_entry p 0 = 0"
proof -
  have "(crc_shift p ^^ n) 0 = 0" for n by (induction n) simp_all
  then show ?thesis by (simp add: crc_entry_def)
qed

lemma of_nat_add_power_xor:
  assumes "i < 2 ^ k"
  shows "(of_nat (2 ^ k + i) :: u64) = xor (2 ^ k) (of_nat i)"
proof (rule bit_word_eqI)
  have "i = take_bit k i" using assms by (simp add: take_bit_nat_eq_self)
  then have small: "bit i n \<Longrightarrow> n < k" for n by (metis bit_take_bit_iff)
  have disj: "\<not> bit ((2::nat) ^ k) n \<or> \<not> bit i n" for n
    using small [of n] by (auto simp: bit_exp_iff)
  then have sum: "2 ^ k + i = or (2 ^ k) i" by (rule disjunctive_add)
  fix n assume "n < LENGTH(64)"
  then show "bit (of_nat (2 ^ k + i) :: u64) n = bit (xor (2 ^ k) (of_nat i :: u64)) n"
    unfolding sum using disj [of n] by (auto simp: bit_simps)
qed

lemma crc_entry_double:
  "i < 2 ^ k \<Longrightarrow> crc_entry p (2 ^ k + i) = xor (crc_entry p (2 ^ k)) (crc_entry p i)"
  unfolding crc_entry_def of_nat_add_power_xor
  by (simp add: crc_shift_funpow_xor)

text \<open>A table of twice the size, from the entry of the next power of two.\<close>

definition crc_entries :: "u64 \<Rightarrow> nat \<Rightarrow> u64 list" where
  "crc_entries p n = map (crc_entry p) [0..<n]"

lemma crc_entries_double:
  "crc_entries p (2 * 2 ^ k) =
     crc_entries p (2 ^ k) @ map (xor (crc_entry p (2 ^ k))) (crc_entries p (2 ^ k))"
proof -
  have "[0..<2 * 2 ^ k] = [0..<2 ^ k] @ map (\<lambda>i. 2 ^ k + i) [0..<2 ^ k]"
    by (rule nth_equalityI) (auto simp: nth_append)
  then show ?thesis by (simp add: crc_entries_def crc_entry_double)
qed

lemma crc_entries_256:
  "crc_entries p 256 =
    (let next = (\<lambda>t e. t @ map (xor e) t) in
     next (next (next (next (next (next (next (next [0]
       (crc_entry p 1)) (crc_entry p 2)) (crc_entry p 4)) (crc_entry p 8))
       (crc_entry p 16)) (crc_entry p 32)) (crc_entry p 64)) (crc_entry p 128))"
proof -
  have one: "crc_entries p 1 = [0]" by (simp add: crc_entries_def crc_entry_0)
  show ?thesis
    using crc_entries_double [of p 0] crc_entries_double [of p 1] crc_entries_double [of p 2]
      crc_entries_double [of p 3] crc_entries_double [of p 4] crc_entries_double [of p 5]
      crc_entries_double [of p 6] crc_entries_double [of p 7] one
    by (simp only: Let_def) simp
qed

lemma funpow_8: "(f ^^ 8) x = f (f (f (f (f (f (f (f x)))))))"
  by (simp add: numeral_eq_Suc)

section \<open>Table and polynomial\<close>

lemma crc64_ertms_table: "g_crc64_ertms_table = crc_entries POLY_ERTMS 256"
proof -
  have "crc_entry POLY_ERTMS 1 = 0xB2CAB2AF58BDC79" "crc_entry POLY_ERTMS 2 = 0x16595655EB17B8F2"
    "crc_entry POLY_ERTMS 4 = 0x162C6BDB0AAEBB67" "crc_entry POLY_ERTMS 8 = 0x16C610C6C9DCBC4D"
    "crc_entry POLY_ERTMS 16 = 0x1712E6FD4F38B219" "crc_entry POLY_ERTMS 32 = 0x14BB0A8A42F0AEB1"
    "crc_entry POLY_ERTMS 64 = 0x13E8D264596097E1" "crc_entry POLY_ERTMS 128 = 0x1D4F63B86E40E541"
    by (simp_all add: crc_entry_def funpow_8 crc_shift_def POLY_ERTMS_def)
  then show ?thesis
    unfolding crc_entries_256 Let_def by (simp add: g_crc64_ertms_table_def)
qed

lemma crc64_iso_table: "g_crc64_iso_table = crc_entries POLY_ISO 256"
proof -
  have "crc_entry POLY_ISO 1 = 0x7" "crc_entry POLY_ISO 2 = 0xE"
    "crc_entry POLY_ISO 4 = 0x1C" "crc_entry POLY_ISO 8 = 0xF"
    "crc_entry POLY_ISO 16 = 0x1E" "crc_entry POLY_ISO 32 = 0xB"
    "crc_entry POLY_ISO 64 = 0x16" "crc_entry POLY_ISO 128 = 0x1B"
    by (simp_all add: crc_entry_def funpow_8 crc_shift_def POLY_ISO_def)
  then show ?thesis
    unfolding crc_entries_256 Let_def by (simp add: g_crc64_iso_table_def)
qed

lemma crc64_xz_table: "g_crc64_xz_table = crc_entries POLY_XZ 256"
proof -
  have "crc_entry POLY_XZ 1 = 0x9A87409262A286D" "crc_entry POLY_XZ 2 = 0x1350E8124C5450DA"
    "crc_entry POLY_XZ 4 = 0xEFFCC19ED95E633" "crc_entry POLY_XZ 8 = 0x1DFF9833DB2BCC66"
    "crc_entry POLY_XZ 16 = 0x13A12C5AC36ADF4B" "crc_entry POLY_XZ 32 = 0xF1C4488F3E8F911"
    "crc_entry POLY_XZ 64 = 0x1E388911E7D1F222" "crc_entry POLY_XZ 128 = 0x142F0E1EBA9EA3C3"
    by (simp_all add: crc_entry_def funpow_8 crc_shift_def POLY_XZ_def)
  then show ?thesis
    unfolding crc_entries_256 Let_def by (simp add: g_crc64_xz_table_def)
qed

end
