(* ===== verification/Wire.thy ===== *)
theory Wire
  imports Rte_Prelude
begin

text \<open>
  Integers in memory. The code reads and writes the fields of packed structures through byte
  pointers on little-endian targets; \<open>le_bytes\<close> and \<open>le_word\<close> are the two directions, and the
  lemmas make them inverse to each other.
\<close>

definition le_bytes :: "nat \<Rightarrow> 'a::len word \<Rightarrow> bytes" where
  "le_bytes n w = map (\<lambda>i. ucast (drop_bit (8 * i) w)) [0..<n]"

fun le_word :: "bytes \<Rightarrow> 'a::len word" where
  "le_word [] = 0"
| "le_word (b # bs) = or (ucast b) (push_bit 8 (le_word bs))"

lemma length_le_bytes [simp]: "length (le_bytes n w) = n"
  by (simp add: le_bytes_def)

lemma nth_le_bytes: "i < n \<Longrightarrow> le_bytes n w ! i = ucast (drop_bit (8 * i) w)"
  by (simp add: le_bytes_def)

lemma bit_le_word:
  "bit (le_word bs :: 'a::len word) n \<longleftrightarrow>
     n < LENGTH('a) \<and> n div 8 < length bs \<and> bit (bs ! (n div 8)) (n mod 8)"
proof (induction bs arbitrary: n)
  case (Cons b bs)
  show ?case
  proof (cases "n < 8")
    case True
    then show ?thesis by (auto simp: bit_simps)
  next
    case False
    then obtain m where m: "n = m + 8" by (metis add.commute le_iff_add not_less)
    then have "\<not> bit (ucast b :: 'a word) n" by (auto simp: bit_simps dest: bit_imp_le_length)
    moreover have "n div 8 = Suc (m div 8)" "n mod 8 = m mod 8" using m by simp_all
    ultimately show ?thesis using m Cons.IH [of m]
      by (auto simp: bit_simps bit_or_iff simp del: div_add_self1 div_add_self2)
  qed
qed simp

lemma le_word_le_bytes:
  fixes w :: "'a::len word"
  assumes "LENGTH('a) \<le> 8 * n"
  shows "le_word (le_bytes n w) = w"
proof (rule bit_word_eqI)
  fix k assume k: "k < LENGTH('a)"
  with assms have "k div 8 < n" by (auto simp: div_less_iff_less_mult)
  with k show "bit (le_word (le_bytes n w) :: 'a word) k = bit w k"
    by (simp add: bit_le_word nth_le_bytes bit_simps)
qed

lemma le_bytes_le_word:
  assumes "8 * length bs \<le> LENGTH('a::len)"
  shows "le_bytes (length bs) (le_word bs :: 'a word) = bs"
proof (rule nth_equalityI)
  fix i assume "i < length (le_bytes (length bs) (le_word bs :: 'a word))"
  then have i: "i < length bs" by simp
  show "le_bytes (length bs) (le_word bs :: 'a word) ! i = bs ! i"
  proof (rule bit_word_eqI)
    fix k assume "k < LENGTH(8)"
    then have k: "k < 8" by simp
    with i assms have "8 * i + k < LENGTH('a)" by simp
    with i k show "bit (le_bytes (length bs) (le_word bs :: 'a word) ! i) k = bit (bs ! i) k"
      by (simp add: nth_le_bytes bit_simps bit_le_word)
  qed
qed simp

lemma le_bytes_inject:
  fixes v w :: "'a::len word"
  assumes "LENGTH('a) \<le> 8 * n"
  shows "le_bytes n v = le_bytes n w \<longleftrightarrow> v = w"
  using le_word_le_bytes [OF assms] by metis

lemma le_bytes_8_1 [simp]: "le_bytes 1 (b :: u8) = [b]"
  by (simp add: le_bytes_def)

lemma le_word_8_1 [simp]: "le_word [b] = (b :: u8)"
  by simp

section \<open>Copies\<close>

text \<open>\<open>memcpy\<close> of \<open>src\<close> to offset \<open>off\<close> of a buffer, inside its bounds.\<close>

definition copy_at :: "nat \<Rightarrow> 'a list \<Rightarrow> 'a list \<Rightarrow> 'a list" where
  "copy_at off src buf = take off buf @ src @ drop (off + length src) buf"

lemma length_copy_at [simp]:
  "off + length src \<le> length buf \<Longrightarrow> length (copy_at off src buf) = length buf"
  by (simp add: copy_at_def)

lemma take_copy_at_0: "take (length src) (copy_at 0 src buf) = src"
  by (simp add: copy_at_def)

lemma slice_copy_at:
  "off \<le> length buf \<Longrightarrow> take (length src) (drop off (copy_at off src buf)) = src"
  by (simp add: copy_at_def)

end
