(* ===== verification/Checksum.thy ===== *)
theory Checksum
  imports Rte_Types Wire Checksum_Tables
begin

text \<open>
  CRC-64 computation and verification, \<^verbatim>\<open>src/redundancy/checksum/rte_checksum.c\<close>: the module
  state with its table pointer and its counters, the operations on it in the order of the file,
  and the proofs that the table-driven loop computes the bitwise CRC of the selected polynomial
  and that two of the three polynomials detect every change inside a window of seven bytes.
  Creation of a vital message, which reads the clock, is in \<open>Vital_Message\<close>.
\<close>

section \<open>State\<close>

datatype rte_crc64_polynomial =
    RTE_CRC64_ERTMS
  | RTE_CRC64_ISO
  | RTE_CRC64_XZ
  | RTE_CRC64_OTHER nat

record rte_checksum_result =
  cr_computed :: u64
  cr_expected :: u64
  cr_match :: u8

record rte_checksum_stats =
  cst_total_checksums :: u32
  cst_verification_passes :: u32
  cst_verification_failures :: u32
  cst_sequence_errors :: u32
  cst_payload_oversize :: u32

record rte_checksum_manager =
  cm_initialized :: u8
  cm_polynomial :: rte_crc64_polynomial
  cm_table :: "u64 list option"
  cm_stats :: rte_checksum_stats

definition zero_stats :: rte_checksum_stats where
  "zero_stats = \<lparr>cst_total_checksums = 0, cst_verification_passes = 0,
     cst_verification_failures = 0, cst_sequence_errors = 0, cst_payload_oversize = 0\<rparr>"

text \<open>The static initialiser \<^verbatim>\<open>{0}\<close>.\<close>

definition initial_checksum_manager :: rte_checksum_manager where
  "initial_checksum_manager = \<lparr>cm_initialized = 0, cm_polynomial = RTE_CRC64_ERTMS,
     cm_table = None, cm_stats = zero_stats\<rparr>"

definition upd_stats ::
  "(rte_checksum_stats \<Rightarrow> rte_checksum_stats) \<Rightarrow> rte_checksum_manager \<Rightarrow> rte_checksum_manager" where
  "upd_stats f cm = cm\<lparr>cm_stats := f (cm_stats cm)\<rparr>"

section \<open>Computation\<close>

definition rte_checksum_crc64_init ::
  "rte_crc64_polynomial \<Rightarrow> rte_checksum_manager \<Rightarrow> rte_status \<times> rte_checksum_manager" where
  "rte_checksum_crc64_init polynomial cm =
    (if cm_initialized cm \<noteq> 0 then (STATUS_ALREADY_INITIALIZED, cm)
     else
       let select = (\<lambda>table. cm\<lparr>cm_table := Some table, cm_polynomial := polynomial\<rparr>);
           start = (\<lambda>cm'. (STATUS_OK, cm'\<lparr>cm_stats := zero_stats, cm_initialized := 1\<rparr>))
       in case polynomial of
            RTE_CRC64_ERTMS \<Rightarrow> start (select g_crc64_ertms_table)
          | RTE_CRC64_ISO \<Rightarrow> start (select g_crc64_iso_table)
          | RTE_CRC64_XZ \<Rightarrow> start (select g_crc64_xz_table)
          | RTE_CRC64_OTHER _ \<Rightarrow> (STATUS_INVALID_PARAM, cm))"

text \<open>One turn of the loop over the bytes.\<close>

definition crc_step :: "u64 list \<Rightarrow> u64 \<Rightarrow> u8 \<Rightarrow> u64" where
  "crc_step table crc b =
    (let index = ucast (and (xor crc (ucast b)) 0xFF) :: u8
     in xor (drop_bit 8 crc) (table ! unat index))"

definition rte_checksum_crc64 ::
  "bytes option \<Rightarrow> nat \<Rightarrow> rte_checksum_manager \<Rightarrow> u64 \<times> rte_checksum_manager" where
  "rte_checksum_crc64 data data_size cm =
    (if cm_initialized cm = 0 then (0, cm)
     else case data of
       None \<Rightarrow> (if data_size \<noteq> 0 then 0 else 0xFFFFFFFFFFFFFFFF, cm)
     | Some bs \<Rightarrow>
         case cm_table cm of
           None \<Rightarrow> (0, cm)
         | Some table \<Rightarrow>
             (xor (foldl (crc_step table) 0xFFFFFFFFFFFFFFFF (take data_size bs)) 0xFFFFFFFFFFFFFFFF,
              upd_stats (\<lambda>s. s\<lparr>cst_total_checksums := cst_total_checksums s + 1\<rparr>) cm))"

text \<open>\<open>result_out\<close> is the caller's object, \<open>None\<close> for \<^verbatim>\<open>NULL\<close>. Its new value is returned.\<close>

definition rte_checksum_crc64_verify ::
  "bytes option \<Rightarrow> nat \<Rightarrow> u64 \<Rightarrow> rte_checksum_result option \<Rightarrow> rte_checksum_manager \<Rightarrow>
    rte_status \<times> rte_checksum_result option \<times> rte_checksum_manager" where
  "rte_checksum_crc64_verify data data_size expected_crc result_out cm =
    (case result_out of
       None \<Rightarrow> (STATUS_INVALID_PARAM, None, cm)
     | Some r \<Rightarrow>
         if cm_initialized cm = 0
         then (STATUS_NOT_INITIALIZED,
               Some (r\<lparr>cr_computed := 0, cr_expected := expected_crc, cr_match := 0\<rparr>), cm)
         else
           let (computed, cm1) = rte_checksum_crc64 data data_size cm;
               r' = r\<lparr>cr_computed := computed, cr_expected := expected_crc,
                      cr_match := (if computed = expected_crc then 1 else 0)\<rparr>
           in if cr_match r' \<noteq> 0
              then (STATUS_OK, Some r', upd_stats (\<lambda>s. s\<lparr>cst_verification_passes :=
                      cst_verification_passes s + 1\<rparr>) cm1)
              else (STATUS_DATA_CORRUPTION, Some r', upd_stats (\<lambda>s. s\<lparr>cst_verification_failures :=
                      cst_verification_failures s + 1\<rparr>) cm1))"

definition rte_checksum_crc64_get_polynomial ::
  "rte_checksum_manager \<Rightarrow> rte_crc64_polynomial" where
  "rte_checksum_crc64_get_polynomial cm = cm_polynomial cm"

definition rte_checksum_get_stats ::
  "rte_checksum_stats option \<Rightarrow> rte_checksum_manager \<Rightarrow> rte_status \<times> rte_checksum_stats option" where
  "rte_checksum_get_stats stats_out cm =
    (case stats_out of None \<Rightarrow> (STATUS_INVALID_PARAM, None) | Some _ \<Rightarrow> (STATUS_OK, Some (cm_stats cm)))"

definition rte_checksum_reset_stats ::
  "rte_checksum_manager \<Rightarrow> rte_status \<times> rte_checksum_manager" where
  "rte_checksum_reset_stats cm = (STATUS_OK, cm\<lparr>cm_stats := zero_stats\<rparr>)"

section \<open>Verification of a vital message\<close>

record rte_vital_message =
  vm_sequence_number :: u32
  vm_sender_id :: u32
  vm_timestamp_ms :: u32
  vm_payload_size :: u8
  vm_padding :: u8
  vm_reserved :: u16
  vm_payload :: bytes
  vm_crc64 :: u64

definition PAYLOAD_BYTES :: nat where "PAYLOAD_BYTES = 248"

text \<open>The bytes of the structure in memory up to the CRC field, and all of them.\<close>

definition vital_message_covered :: "rte_vital_message \<Rightarrow> bytes" where
  "vital_message_covered m =
    le_bytes 4 (vm_sequence_number m) @ le_bytes 4 (vm_sender_id m) @
    le_bytes 4 (vm_timestamp_ms m) @ le_bytes 1 (vm_payload_size m) @
    le_bytes 1 (vm_padding m) @ le_bytes 2 (vm_reserved m) @ vm_payload m"

definition vital_message_bytes :: "rte_vital_message \<Rightarrow> bytes" where
  "vital_message_bytes m = vital_message_covered m @ le_bytes 8 (vm_crc64 m)"

definition vital_message_of_bytes :: "bytes \<Rightarrow> rte_vital_message" where
  "vital_message_of_bytes b =
    \<lparr>vm_sequence_number = le_word (take 4 b), vm_sender_id = le_word (take 4 (drop 4 b)),
     vm_timestamp_ms = le_word (take 4 (drop 8 b)), vm_payload_size = le_word (take 1 (drop 12 b)),
     vm_padding = le_word (take 1 (drop 13 b)), vm_reserved = le_word (take 2 (drop 14 b)),
     vm_payload = take 248 (drop 16 b), vm_crc64 = le_word (take 8 (drop 264 b))\<rparr>"

text \<open>
  The payload is copied from the start of the payload field, with the length the message claims.
  A claim above 248 makes the code read on into the CRC field.
\<close>

definition rte_checksum_vital_message_verify ::
  "rte_vital_message option \<Rightarrow> u32 \<Rightarrow> bytes option \<Rightarrow> nat \<Rightarrow> u8 option \<Rightarrow> rte_checksum_manager \<Rightarrow>
    rte_status \<times> bytes option \<times> u8 option \<times> rte_checksum_manager" where
  "rte_checksum_vital_message_verify msg expected_sequence payload_out payload_max_size
     payload_size_out cm =
    (case (msg, payload_out, payload_size_out) of
       (Some m, Some buf, Some _) \<Rightarrow>
         let (status, _, cm1) = rte_checksum_crc64_verify (Some (vital_message_covered m)) 264
               (vm_crc64 m) (Some \<lparr>cr_computed = 0, cr_expected = 0, cr_match = 0\<rparr>) cm
         in if status \<noteq> STATUS_OK then (status, payload_out, payload_size_out, cm1)
            else if vm_sequence_number m \<noteq> expected_sequence
            then (STATUS_DATA_CORRUPTION, payload_out, payload_size_out,
                  upd_stats (\<lambda>s. s\<lparr>cst_sequence_errors := cst_sequence_errors s + 1\<rparr>) cm1)
            else if unat (vm_payload_size m) > payload_max_size
            then (STATUS_INVALID_PARAM, payload_out, payload_size_out,
                  upd_stats (\<lambda>s. s\<lparr>cst_payload_oversize := cst_payload_oversize s + 1\<rparr>) cm1)
            else (STATUS_OK,
                  Some (if vm_payload_size m > 0
                        then copy_at 0 (take (unat (vm_payload_size m))
                                          (drop 16 (vital_message_bytes m))) buf
                        else buf),
                  Some (vm_payload_size m), cm1)
     | _ \<Rightarrow> (STATUS_INVALID_PARAM, payload_out, payload_size_out, cm))"

section \<open>The loop computes the bitwise CRC\<close>

definition crc_bits_step :: "u64 \<Rightarrow> u64 \<Rightarrow> u8 \<Rightarrow> u64" where
  "crc_bits_step poly c b = (crc_shift poly ^^ 8) (xor c (ucast b))"

definition crc64_bits :: "u64 \<Rightarrow> bytes \<Rightarrow> u64" where
  "crc64_bits poly data = not (foldl (crc_bits_step poly) (- 1) data)"

lemma crc_shift_even: "\<not> bit c 0 \<Longrightarrow> crc_shift p c = drop_bit 1 c"
  by (simp add: crc_shift_def)

lemma crc_shift_funpow_clear:
  "(\<And>j. j < k \<Longrightarrow> \<not> bit h j) \<Longrightarrow> (crc_shift p ^^ k) h = drop_bit k h"
proof (induction k)
  case (Suc k)
  then have "(crc_shift p ^^ k) h = drop_bit k h" by simp
  moreover have "\<not> bit (drop_bit k h) 0" using Suc.prems [of k] by (simp add: bit_simps)
  ultimately show ?case by (simp add: crc_shift_even)
qed simp

lemma crc_index: "(ucast (and (xor crc (ucast b)) 0xFF) :: u8) = xor (ucast (crc :: u64)) b"
proof (rule bit_word_eqI)
  have FF: "(0xFF :: u64) = mask 8" by (simp add: mask_eq_exp_minus_1)
  fix n assume "n < LENGTH(8)"
  then show "bit (ucast (and (xor crc (ucast b)) 0xFF) :: u8) n = bit (xor (ucast crc) b) n"
    unfolding FF by (auto simp: bit_simps)
qed

lemma crc_step_index: "crc_step table crc b = xor (drop_bit 8 crc) (table ! unat (xor (ucast crc) b))"
  by (simp add: crc_step_def crc_index Let_def)

lemma funpow_shift_byte:
  "(crc_shift p ^^ 8) c = xor (drop_bit 8 c) ((crc_shift p ^^ 8) (of_nat (unat (ucast c :: u8))))"
proof -
  let ?low = "ucast (ucast c :: u8) :: u64"
  have low: "bit ?low n \<longleftrightarrow> n < 8 \<and> bit c n" for n
    by (auto simp: bit_simps)
  let ?high = "xor c ?low"
  have "(crc_shift p ^^ 8) ?high = drop_bit 8 ?high"
    by (rule crc_shift_funpow_clear) (simp add: bit_xor_iff low)
  also have "drop_bit 8 ?high = drop_bit 8 c"
    by (rule bit_word_eqI) (simp add: bit_simps low)
  finally have "(crc_shift p ^^ 8) ?high = drop_bit 8 c" .
  moreover have "c = xor ?high ?low" by (rule bit_word_eqI) (auto simp: bit_simps)
  ultimately show ?thesis unfolding of_nat_unat by (metis crc_shift_funpow_xor)
qed

text \<open>What every table of the module promises: it is the table of its polynomial.\<close>

locale crc_table =
  fixes table :: "u64 list" and poly :: u64
  assumes entries: "table = crc_entries poly 256"
begin

lemma table_nth: "n < 256 \<Longrightarrow> table ! n = crc_entry poly n"
  by (simp add: entries crc_entries_def)

lemma table_byte: "table ! unat (b :: u8) = crc_entry poly (unat b)"
  by (intro table_nth) simp

lemma step_is_bitwise: "crc_step table crc b = crc_bits_step poly crc b"
proof -
  have "(ucast (xor crc (ucast b)) :: u8) = xor (ucast crc) b"
    by (rule bit_word_eqI) (auto simp: bit_simps)
  moreover have "drop_bit 8 (xor crc (ucast b :: u64)) = drop_bit 8 crc"
    by (rule bit_word_eqI) (auto simp: bit_simps dest: bit_imp_le_length)
  ultimately show ?thesis
    unfolding crc_bits_step_def crc_step_index table_byte
    using funpow_shift_byte [of poly "xor crc (ucast b)"] by (simp add: crc_entry_def)
qed

lemma loop_is_bitwise: "foldl (crc_step table) c data = foldl (crc_bits_step poly) c data"
  by (induction data arbitrary: c) (simp_all add: step_is_bitwise)

end

text \<open>
  A stronger promise, which the ERTMS and XZ tables keep and the ISO table does not: entries
  fit in 61 bits, and no entry but the first has its top byte (bits 53 to 60) clear.
\<close>

locale detecting_table = crc_table +
  assumes small: "list_all (\<lambda>e. drop_bit 61 e = 0) table"
    and top: "list_all (\<lambda>e. drop_bit 53 e \<noteq> 0) (tl table)"
begin

lemma table_length: "length table = 256"
  by (simp add: entries crc_entries_def)

lemma table_small: "drop_bit 61 (table ! unat (b :: u8)) = 0"
  using small by (simp add: table_length list_all_iff)

lemma table_top: "b \<noteq> 0 \<Longrightarrow> drop_bit 53 (table ! unat (b :: u8)) \<noteq> 0"
proof -
  assume "b \<noteq> 0"
  then have "0 < unat b" by (simp add: unat_gt_0)
  then have "table ! unat b = tl table ! (unat b - 1)"
    using unat_u8_less [of b] by (subst nth_tl) (simp_all add: table_length del: unat_u8_less)
  moreover have "unat b - 1 < length (tl table)"
    using \<open>0 < unat b\<close> unat_u8_less [of b] by (simp add: table_length del: unat_u8_less)
  ultimately have "table ! unat b \<in> set (tl table)" by (metis nth_mem)
  with top show ?thesis by (simp add: list_all_iff)
qed

lemma table_xor: "table ! unat (xor a b :: u8) = xor (table ! unat a) (table ! unat b)"
proof -
  have "(ucast (xor a b) :: u64) = xor (ucast a) (ucast b)"
    by (rule bit_word_eqI) (auto simp: bit_simps)
  then show ?thesis
    by (simp add: table_byte crc_entry_def crc_shift_funpow_xor)
qed

lemma top_injective:
  assumes "drop_bit 53 (table ! unat a) = drop_bit 53 (table ! unat (b :: u8))"
  shows "a = b"
proof (rule ccontr)
  assume "a \<noteq> b"
  then have "xor a b \<noteq> 0" by (simp add: xor_eq_0_word)
  then have "drop_bit 53 (table ! unat (xor a b)) \<noteq> 0" by (rule table_top)
  with assms show False by (simp add: table_xor drop_bit_xor)
qed

lemma step_small: "drop_bit 61 (crc_step table c b) = 0"
  by (rule bit_word_eqI)
    (use table_small [of "xor (ucast c) b"] in
      \<open>auto simp: crc_step_index bit_simps bit_eq_iff dest: bit_imp_le_length\<close>)

lemma loop_small: "data \<noteq> [] \<Longrightarrow> drop_bit 61 (foldl (crc_step table) c data) = 0"
  by (cases data rule: rev_cases) (simp_all add: step_small)

lemma step_back:
  assumes high: "drop_bit 61 u = drop_bit 61 v" and m: "m \<le> 53"
    and eq: "drop_bit m (crc_step table u a) = drop_bit m (crc_step table v b)"
  shows "xor (ucast u) a = xor (ucast v) b" "drop_bit (m + 8) u = drop_bit (m + 8) v"
proof -
  have "drop_bit (53 - m) (drop_bit m (crc_step table u a)) =
      drop_bit (53 - m) (drop_bit m (crc_step table v b))"
    using eq by simp
  then have "drop_bit 53 (crc_step table u a) = drop_bit 53 (crc_step table v b)"
    using m by simp
  then have "drop_bit 53 (table ! unat (xor (ucast u) a)) =
      drop_bit 53 (table ! unat (xor (ucast v) b))"
    using high by (simp add: crc_step_index drop_bit_xor xor_left_cancel_word)
  then show index: "xor (ucast u) a = xor (ucast v) b" by (rule top_injective)
  with eq show "drop_bit (m + 8) u = drop_bit (m + 8) v"
    by (simp add: crc_step_index drop_bit_xor xor_right_cancel_word)
qed

lemma same_high:
  "length as = length bs \<Longrightarrow>
    drop_bit 61 (foldl (crc_step table) c as) = drop_bit 61 (foldl (crc_step table) c bs)"
  by (cases "as = []"; cases "bs = []") (simp_all add: loop_small)

lemma window_injective:
  assumes "length as = length bs" "8 * length as + m \<le> 56"
    and "drop_bit m (foldl (crc_step table) u as) = drop_bit m (foldl (crc_step table) u bs)"
  shows "as = bs"
  using assms
proof (induction as arbitrary: bs m rule: rev_induct)
  case (snoc a as)
  from snoc.prems(1) obtain b bs' where bs: "bs = bs' @ [b]" "length as = length bs'"
    by (cases bs rule: rev_cases) auto
  let ?u = "foldl (crc_step table) u as" and ?v = "foldl (crc_step table) u bs'"
  have high: "drop_bit 61 ?u = drop_bit 61 ?v"
    using bs(2) by (rule same_high)
  have m: "m \<le> 53" using snoc.prems(2) by simp
  have eq: "drop_bit m (crc_step table ?u a) = drop_bit m (crc_step table ?v b)"
    using snoc.prems(3) bs by simp
  have "as = bs'"
    using step_back(2) [OF high m eq] snoc.prems(2) bs(2) by (intro snoc.IH [of bs' "m + 8"]) auto
  with step_back(1) [OF high m eq] bs show ?case by (simp add: xor_left_cancel_word)
qed simp

lemma suffix_injective:
  assumes "drop_bit 61 u = drop_bit 61 v"
    and "foldl (crc_step table) u cs = foldl (crc_step table) v cs"
  shows "u = v"
  using assms
proof (induction cs arbitrary: u v)
  case (Cons c cs)
  then have "crc_step table u c = crc_step table v c" by (simp add: step_small)
  then have eq: "drop_bit 0 (crc_step table u c) = drop_bit 0 (crc_step table v c)" by simp
  have low: "(ucast u :: u8) = ucast v"
    using step_back(1) [OF Cons.prems(1) _ eq] by (simp add: xor_right_cancel_word)
  have high: "drop_bit 8 u = drop_bit 8 v"
    using step_back(2) [OF Cons.prems(1) _ eq] by simp
  show ?case
  proof (rule bit_word_eqI)
    fix n assume "n < LENGTH(64)"
    then show "bit u n = bit v n"
    proof (cases "n < 8")
      case True
      from low have "bit (ucast u :: u8) n = bit (ucast v :: u8) n" by simp
      with True show ?thesis by (simp add: bit_simps)
    next
      case False
      from high have "bit (drop_bit 8 u) (n - 8) = bit (drop_bit 8 v) (n - 8)" by simp
      with False show ?thesis by (simp add: bit_simps)
    qed
  qed
qed simp

theorem burst_detected:
  assumes "length as = length bs" "length as \<le> 7"
    and "foldl (crc_step table) u (pre @ as @ post) = foldl (crc_step table) u (pre @ bs @ post)"
  shows "as = bs"
proof -
  let ?s = "foldl (crc_step table) u pre"
  have "drop_bit 61 (foldl (crc_step table) ?s as) = drop_bit 61 (foldl (crc_step table) ?s bs)"
    using assms(1) by (rule same_high)
  from suffix_injective [OF this, of post] assms(3)
  have "foldl (crc_step table) ?s as = foldl (crc_step table) ?s bs" by simp
  with window_injective [of as bs 0 ?s] assms(1,2) show ?thesis by simp
qed

end

interpretation ertms: detecting_table g_crc64_ertms_table POLY_ERTMS
proof
  show "g_crc64_ertms_table = crc_entries POLY_ERTMS 256" by (rule crc64_ertms_table)
  show "list_all (\<lambda>e. drop_bit 61 e = 0) g_crc64_ertms_table"
    by (simp add: g_crc64_ertms_table_def)
  show "list_all (\<lambda>e. drop_bit 53 e \<noteq> 0) (tl g_crc64_ertms_table)"
    by (simp add: g_crc64_ertms_table_def)
qed

interpretation xz: detecting_table g_crc64_xz_table POLY_XZ
proof
  show "g_crc64_xz_table = crc_entries POLY_XZ 256" by (rule crc64_xz_table)
  show "list_all (\<lambda>e. drop_bit 61 e = 0) g_crc64_xz_table"
    by (simp add: g_crc64_xz_table_def)
  show "list_all (\<lambda>e. drop_bit 53 e \<noteq> 0) (tl g_crc64_xz_table)"
    by (simp add: g_crc64_xz_table_def)
qed

interpretation iso: crc_table g_crc64_iso_table POLY_ISO
  by unfold_locales (rule crc64_iso_table)

section \<open>The module invariant\<close>

fun crc_poly :: "rte_crc64_polynomial \<Rightarrow> u64" where
  "crc_poly RTE_CRC64_ERTMS = POLY_ERTMS"
| "crc_poly RTE_CRC64_ISO = POLY_ISO"
| "crc_poly RTE_CRC64_XZ = POLY_XZ"
| "crc_poly (RTE_CRC64_OTHER _) = 0"

definition cm_ready :: "rte_crc64_polynomial \<Rightarrow> rte_checksum_manager \<Rightarrow> bool" where
  "cm_ready p cm \<longleftrightarrow> cm_initialized cm \<noteq> 0 \<and> cm_polynomial cm = p \<and>
    (p, cm_table cm) \<in> {(RTE_CRC64_ERTMS, Some g_crc64_ertms_table),
      (RTE_CRC64_ISO, Some g_crc64_iso_table), (RTE_CRC64_XZ, Some g_crc64_xz_table)}"

text \<open>Either the module is not initialised, or its table belongs to its polynomial.\<close>

definition cm_inv :: "rte_checksum_manager \<Rightarrow> bool" where
  "cm_inv cm \<longleftrightarrow> cm_initialized cm = 0 \<or> cm_ready (cm_polynomial cm) cm"

lemma upd_stats_fields [simp]:
  "cm_initialized (upd_stats f cm) = cm_initialized cm"
  "cm_polynomial (upd_stats f cm) = cm_polynomial cm"
  "cm_table (upd_stats f cm) = cm_table cm"
  "cm_stats (upd_stats f cm) = f (cm_stats cm)"
  by (simp_all add: upd_stats_def)

lemma cm_ready_upd_stats [simp]: "cm_ready p (upd_stats f cm) = cm_ready p cm"
  by (simp add: cm_ready_def)

lemma cm_ready_crc64 [simp]: "cm_ready p (snd (rte_checksum_crc64 d n cm)) = cm_ready p cm"
  by (simp add: rte_checksum_crc64_def split: option.split)

lemma cm_ready_crc64_result:
  "rte_checksum_crc64 d n cm = (c, cm') \<Longrightarrow> cm_ready p cm' = cm_ready p cm"
  using cm_ready_crc64 [of p d n cm] by simp

lemma cm_ready_verify:
  "rte_checksum_crc64_verify d n e r cm = (st, r', cm') \<Longrightarrow> cm_ready p cm' = cm_ready p cm"
  by (auto simp: rte_checksum_crc64_verify_def Let_def cm_ready_crc64_result
      split: option.splits prod.splits if_splits)

lemma cm_ready_message_verify:
  "rte_checksum_vital_message_verify m q b n z cm = (st, b', z', cm') \<Longrightarrow>
    cm_ready p cm' = cm_ready p cm"
  by (auto simp: rte_checksum_vital_message_verify_def Let_def cm_ready_verify
      split: option.splits prod.splits if_splits)

lemma cm_ready_init:
  "rte_checksum_crc64_init p cm = (STATUS_OK, cm') \<Longrightarrow> cm_ready p cm'"
  by (auto simp: rte_checksum_crc64_init_def cm_ready_def Let_def
      split: if_splits rte_crc64_polynomial.splits)

lemma init_refused:
  "cm_initialized cm \<noteq> 0 \<Longrightarrow>
    rte_checksum_crc64_init p cm = (STATUS_ALREADY_INITIALIZED, cm)"
  by (simp add: rte_checksum_crc64_init_def)

lemma cm_inv_init: "cm_inv cm \<Longrightarrow> cm_inv (snd (rte_checksum_crc64_init p cm))"
  by (auto simp: cm_inv_def rte_checksum_crc64_init_def cm_ready_def Let_def
      split: rte_crc64_polynomial.splits)

lemma crc64_ready:
  assumes "cm_ready p cm"
  shows "fst (rte_checksum_crc64 (Some data) n cm) = crc64_bits (crc_poly p) (take n data)"
proof -
  have ones: "(0xFFFFFFFFFFFFFFFF :: u64) = - 1" by simp
  show ?thesis
    using assms unfolding cm_ready_def
    by (auto simp: rte_checksum_crc64_def crc64_bits_def ertms.loop_is_bitwise
        xz.loop_is_bitwise iso.loop_is_bitwise ones)
qed

lemma verify_ready:
  assumes "cm_ready p cm"
  shows "fst (rte_checksum_crc64_verify (Some data) n e (Some r) cm) =
    (if crc64_bits (crc_poly p) (take n data) = e then STATUS_OK else STATUS_DATA_CORRUPTION)"
  using crc64_ready [OF assms, of data n] assms
  by (auto simp: rte_checksum_crc64_verify_def Let_def cm_ready_def split: prod.split)

lemma crc64_bits_burst:
  assumes "p \<in> {RTE_CRC64_ERTMS, RTE_CRC64_XZ}" "length as = length bs" "length as \<le> 7"
  shows "crc64_bits (crc_poly p) (pre @ as @ post) = crc64_bits (crc_poly p) (pre @ bs @ post)
    \<longleftrightarrow> as = bs"
  using assms ertms.burst_detected [OF assms(2,3), of "- 1" pre post]
    xz.burst_detected [OF assms(2,3), of "- 1" pre post]
  by (auto simp: crc64_bits_def ertms.loop_is_bitwise xz.loop_is_bitwise)

section \<open>The ISO table\<close>

lemma iso_entries_small: "list_all (\<lambda>e. drop_bit 5 e = 0) g_crc64_iso_table"
  by (simp add: g_crc64_iso_table_def)

lemma iso_step_small:
  assumes "drop_bit n c = 0" "n \<le> 64"
  shows "drop_bit (max 5 (n - 8)) (crc_step g_crc64_iso_table c b) = 0"
proof -
  let ?e = "g_crc64_iso_table ! unat (xor (ucast c) b)"
  have "length g_crc64_iso_table = 256" by (simp add: iso.entries crc_entries_def)
  then have "drop_bit 5 ?e = 0" using iso_entries_small by (simp add: list_all_iff)
  then have e: "\<not> bit ?e k" if "5 \<le> k" for k
    using that by (rule drop_bit_0_not_bit)
  have c: "\<not> bit c k" if "n \<le> k" for k
    using assms(1) that by (rule drop_bit_0_not_bit)
  show ?thesis
    by (rule bit_word_eqI) (simp add: crc_step_index bit_simps e c)
qed

lemma iso_loop_small:
  "drop_bit (max 5 (64 - 8 * length data)) (foldl (crc_step g_crc64_iso_table) (- 1) data) = 0"
proof (induction data rule: rev_induct)
  case Nil
  show ?case by (rule bit_word_eqI) (simp add: bit_simps)
next
  case (snoc b data)
  let ?n = "max 5 (64 - 8 * length data)"
  have "drop_bit (max 5 (?n - 8)) (foldl (crc_step g_crc64_iso_table) (- 1) (data @ [b])) = 0"
    using iso_step_small [OF snoc.IH] by simp
  moreover have "max 5 (?n - 8) = max 5 (64 - 8 * length (data @ [b]))" by auto
  ultimately show ?case by simp
qed

section \<open>Properties\<close>

text \<open>C37. With any of the three polynomials selected, the table-driven checksum of a buffer is
  the bitwise reflected CRC of its bytes for that polynomial, with initial value and final
  exclusive-or all ones.\<close>

theorem crc64_is_bitwise_crc:
  assumes "rte_checksum_crc64_init p cm = (STATUS_OK, cm')"
  shows "fst (rte_checksum_crc64 (Some data) (length data) cm') = crc64_bits (crc_poly p) data"
  using crc64_ready [OF cm_ready_init [OF assms], of data "length data"] by simp

theorem crc64_is_bitwise_crc_witness:
  "fst (rte_checksum_crc64 (Some [1, 2, 3]) (length [1, 2, 3::u8])
     (snd (rte_checksum_crc64_init RTE_CRC64_ERTMS initial_checksum_manager))) =
   crc64_bits (crc_poly RTE_CRC64_ERTMS) [1, 2, 3]"
  by (rule crc64_is_bitwise_crc [where cm = initial_checksum_manager])
    (simp add: rte_checksum_crc64_init_def initial_checksum_manager_def)

text \<open>With the ERTMS or the XZ polynomial, verification detects every change that is
  confined to a window of at most seven bytes anywhere in a buffer: the altered buffer passes
  against the checksum of the original exactly when nothing was altered.\<close>

theorem burst_of_seven_bytes_detected:
  assumes "cm_ready p cm" "p \<in> {RTE_CRC64_ERTMS, RTE_CRC64_XZ}"
    and "length as = length bs" "length as \<le> 7"
    and "cm_ready p cm0"
  shows "fst (rte_checksum_crc64_verify (Some (pre @ bs @ post)) (length (pre @ bs @ post))
      (fst (rte_checksum_crc64 (Some (pre @ as @ post)) (length (pre @ as @ post)) cm0)) (Some r) cm)
    = (if as = bs then STATUS_OK else STATUS_DATA_CORRUPTION)"
  using crc64_bits_burst [OF assms(2,3,4), of pre post]
  by (auto simp: verify_ready [OF assms(1)] crc64_ready [OF assms(5)])

definition ertms_manager :: rte_checksum_manager where
  "ertms_manager = snd (rte_checksum_crc64_init RTE_CRC64_ERTMS initial_checksum_manager)"

lemma ertms_manager_ready: "cm_ready RTE_CRC64_ERTMS ertms_manager"
  by (rule cm_ready_init [where cm = initial_checksum_manager])
    (simp add: ertms_manager_def rte_checksum_crc64_init_def initial_checksum_manager_def)

theorem burst_of_seven_bytes_detected_witness:
  "fst (rte_checksum_crc64_verify (Some ([10] @ [1, 2, 9] @ [11])) (length ([10] @ [1, 2, 9] @ [11::u8]))
      (fst (rte_checksum_crc64 (Some ([10] @ [1, 2, 3] @ [11])) (length ([10] @ [1, 2, 3] @ [11::u8]))
        ertms_manager)) (Some \<lparr>cr_computed = 0, cr_expected = 0, cr_match = 0\<rparr>) ertms_manager)
    = (if [1, 2, 3] = [1, 2, 9::u8] then STATUS_OK else STATUS_DATA_CORRUPTION)"
  by (rule burst_of_seven_bytes_detected [OF ertms_manager_ready _ _ _ ertms_manager_ready])
    simp_all

text \<open>With the ISO polynomial as the module declares it, the checksum of any buffer of at
  least eight bytes takes one of 32 values only: its complement is below 32. The polynomial
  constant has no term above its fifth bit after the reflection the table uses, so earlier
  bytes leave no trace.\<close>

theorem iso_checksum_has_32_values:
  assumes "cm_ready RTE_CRC64_ISO cm" "8 \<le> n" "n \<le> length data"
  shows "not (fst (rte_checksum_crc64 (Some data) n cm)) < 32"
proof -
  let ?c = "foldl (crc_step g_crc64_iso_table) (- 1) (take n data)"
  have "drop_bit 5 ?c = 0"
    using iso_loop_small [of "take n data"] assms(2,3) by simp
  then have "?c < 32" using drop_bit_0_unat_less [of 5 ?c] by (simp add: word_less_nat_alt)
  moreover have "not (fst (rte_checksum_crc64 (Some data) n cm)) = ?c"
    using crc64_ready [OF assms(1), of data n]
    by (simp add: crc64_bits_def iso.loop_is_bitwise)
  ultimately show ?thesis by simp
qed

theorem iso_checksum_has_32_values_witness:
  "not (fst (rte_checksum_crc64 (Some [1, 2, 3, 4, 5, 6, 7, 8, 9]) 9
     (snd (rte_checksum_crc64_init RTE_CRC64_ISO initial_checksum_manager)))) < 32"
  by (rule iso_checksum_has_32_values, rule cm_ready_init [where cm = initial_checksum_manager])
    (simp_all add: rte_checksum_crc64_init_def initial_checksum_manager_def)

end
