(* ===== verification/Platform_State.thy ===== *)
theory Platform_State
  imports Rte_Types Checksum
begin

text \<open>
  The file-scope state of the platform layer and the utilities every component calls:
  \<^verbatim>\<open>src/utils/lifecycle/rte_lifecycle.c\<close> (the setup lock),
  \<^verbatim>\<open>src/utils/safestate/rte_safestate.c\<close> (safe states),
  \<^verbatim>\<open>src/utils/safestate/rte_safety_violation.c\<close>, the plain part of
  \<^verbatim>\<open>src/oal/log/rte_log.c\<close>, and \<^verbatim>\<open>src/oal/timer\<close>, \<^verbatim>\<open>src/oal/netlink\<close>,
  \<^verbatim>\<open>src/oal/random\<close>.

  Code outside the repository (an OSAdapter, a registered handler) is a function on an opaque
  state \<open>'x\<close> that the record carries in \<open>ext\<close>. A function pointer that the code compares with
  \<^verbatim>\<open>NULL\<close> is an option. Handles and storage pointers are addresses. The parameters
  \<^verbatim>\<open>file\<close> and \<^verbatim>\<open>line\<close> of the reports carry no behaviour and are left out.
\<close>

section \<open>Types of the external code\<close>

datatype rte_safestate_level =
    LEVEL_DEGRADED
  | LEVEL_SAFE
  | LEVEL_REBOOT
  | LEVEL_UNRECOGNIZED nat

type_synonym safestate_reason = u16

definition REASON_UNSPECIFIED :: safestate_reason where "REASON_UNSPECIFIED = 0"
definition REASON_ASSERT_FAILED :: safestate_reason where "REASON_ASSERT_FAILED = 1"
definition REASON_CHECKPOINT_TIMEOUT :: safestate_reason where "REASON_CHECKPOINT_TIMEOUT = 2"
definition REASON_SETUP_AFTER_INIT :: safestate_reason where "REASON_SETUP_AFTER_INIT = 3"
definition REASON_CLOCK_FAILED :: safestate_reason where "REASON_CLOCK_FAILED = 5"

type_synonym 'x safestate_handler =
  "rte_safestate_level \<Rightarrow> safestate_reason \<Rightarrow> string option \<Rightarrow> 'x \<Rightarrow> 'x"

datatype rte_safety_violation_kind =
    VIOLATION_CORRUPTION
  | VIOLATION_OVERFLOW
  | VIOLATION_OUT_OF_RANGE

type_synonym 'x violation_handler = "rte_safety_violation_kind \<Rightarrow> string option \<Rightarrow> 'x \<Rightarrow> 'x"

datatype rte_log_level = LOG_DEBUG | LOG_INFO | LOG_WARNING | LOG_ERROR | LOG_LEVEL_OTHER nat

fun log_level_value :: "rte_log_level \<Rightarrow> nat" where
  "log_level_value LOG_DEBUG = 0"
| "log_level_value LOG_INFO = 1"
| "log_level_value LOG_WARNING = 2"
| "log_level_value LOG_ERROR = 3"
| "log_level_value (LOG_LEVEL_OTHER n) = 4 + n"

record 'x osadapter_log =
  log_init :: "('x \<Rightarrow> rte_status \<times> 'x) option"
  log_write :: "(rte_log_level \<Rightarrow> string option \<Rightarrow> string \<Rightarrow> 'x \<Rightarrow> 'x) option"

type_synonym handle = nat

datatype rte_timer_mode = TIMER_ONE_SHOT | TIMER_PERIODIC

record rte_timer_config =
  tc_mode :: rte_timer_mode
  tc_period_ms :: duration_ms
  tc_callback :: "nat option"
  tc_user_ctx :: "nat option"

record 'x osadapter_timer =
  timer_create :: "(nat \<Rightarrow> rte_timer_config \<Rightarrow> 'x \<Rightarrow> rte_status \<times> handle option \<times> 'x) option"
  timer_start :: "(handle \<Rightarrow> 'x \<Rightarrow> rte_status \<times> 'x) option"
  timer_stop :: "(handle \<Rightarrow> 'x \<Rightarrow> rte_status \<times> 'x) option"
  timer_destroy :: "(handle \<Rightarrow> 'x \<Rightarrow> rte_status \<times> 'x) option"
  timer_now :: "('x \<Rightarrow> rte_status \<times> timestamp_ms \<times> 'x) option"

datatype rte_netlink_role = NETLINK_LISTEN | NETLINK_CONNECT

record rte_netlink_config =
  nc_role :: rte_netlink_role
  nc_host :: "string option"
  nc_port :: u16
  nc_message_size :: nat
  nc_connect_timeout_ms :: duration_ms
  nc_rcvbuf_bytes :: u32
  nc_sndbuf_bytes :: u32

record 'x osadapter_netlink =
  netlink_open :: "(nat \<Rightarrow> rte_netlink_config \<Rightarrow> 'x \<Rightarrow> rte_status \<times> handle option \<times> 'x) option"
  netlink_send :: "(handle \<Rightarrow> bytes \<Rightarrow> duration_ms \<Rightarrow> 'x \<Rightarrow> rte_status \<times> 'x) option"
  netlink_receive :: "(handle \<Rightarrow> bytes \<Rightarrow> duration_ms \<Rightarrow> 'x \<Rightarrow> rte_status \<times> bytes \<times> 'x) option"
  netlink_close :: "(handle \<Rightarrow> 'x \<Rightarrow> rte_status \<times> 'x) option"

record 'x osadapter_random =
  random_fill :: "(nat \<Rightarrow> 'x \<Rightarrow> rte_status \<times> bytes \<times> 'x) option"

section \<open>The state\<close>

record 'x rte =
  ext :: 'x
  g_setup_locked :: bool
  s_handlers :: "nat \<Rightarrow> 'x safestate_handler option"
  s_violation_handler :: "'x violation_handler option"
  s_log :: "'x osadapter_log option"
  s_min_level :: rte_log_level
  s_timer :: "'x osadapter_timer option"
  s_netlink :: "'x osadapter_netlink option"
  s_random :: "'x osadapter_random option"
  g_checksum :: rte_checksum_manager

text \<open>The state at program start.\<close>

definition initial_rte :: "'x \<Rightarrow> 'x rte" where
  "initial_rte x = \<lparr>ext = x, g_setup_locked = False, s_handlers = (\<lambda>_. None),
     s_violation_handler = None, s_log = None, s_min_level = LOG_DEBUG, s_timer = None,
     s_netlink = None, s_random = None, g_checksum = initial_checksum_manager\<rparr>"

section \<open>Safe states\<close>

fun rte_safestate_level_to_index :: "rte_safestate_level \<Rightarrow> nat option" where
  "rte_safestate_level_to_index LEVEL_DEGRADED = Some 0"
| "rte_safestate_level_to_index LEVEL_SAFE = Some 1"
| "rte_safestate_level_to_index LEVEL_REBOOT = Some 2"
| "rte_safestate_level_to_index (LEVEL_UNRECOGNIZED _) = None"

definition rte_safestate_enter ::
  "rte_safestate_level \<Rightarrow> safestate_reason \<Rightarrow> string option \<Rightarrow> 'x rte \<Rightarrow> (unit, 'x rte) run" where
  "rte_safestate_enter level reason message s =
    (let index = rte_safestate_level_to_index level;
         handler = (case index of None \<Rightarrow> None | Some i \<Rightarrow> s_handlers s i);
         s' = (case handler of None \<Rightarrow> s | Some h \<Rightarrow> s\<lparr>ext := h level reason message (ext s)\<rparr>)
     in if index = None \<or> level = LEVEL_SAFE \<or> level = LEVEL_REBOOT then Halted s'
        else Returned () s')"

definition rte_lifecycle_lock :: "'x rte \<Rightarrow> 'x rte" where
  "rte_lifecycle_lock s = s\<lparr>g_setup_locked := True\<rparr>"

definition rte_lifecycle_unlock :: "'x rte \<Rightarrow> 'x rte" where
  "rte_lifecycle_unlock s = s\<lparr>g_setup_locked := False\<rparr>"

definition rte_lifecycle_is_locked :: "'x rte \<Rightarrow> bool" where
  "rte_lifecycle_is_locked s = g_setup_locked s"

text \<open>The level DEGRADED returns, so only the state of the report matters.\<close>

definition rte_lifecycle_check_setup_allowed :: "'x rte \<Rightarrow> rte_status \<times> 'x rte" where
  "rte_lifecycle_check_setup_allowed s =
    (if g_setup_locked s
     then (STATUS_INVALID_STATE,
           run_state (rte_safestate_enter LEVEL_DEGRADED REASON_SETUP_AFTER_INIT
             (Some ''setup-only resource requested after the setup phase was locked'') s))
     else (STATUS_OK, s))"

definition rte_safestate_register_handler ::
  "rte_safestate_level \<Rightarrow> 'x safestate_handler option \<Rightarrow> 'x rte \<Rightarrow> rte_status \<times> 'x rte" where
  "rte_safestate_register_handler level handler s =
    (case (handler, rte_safestate_level_to_index level) of
       (Some h, Some index) \<Rightarrow>
         let (status, s1) = rte_lifecycle_check_setup_allowed s
         in if status \<noteq> STATUS_OK then (status, s1)
            else (STATUS_OK, s1\<lparr>s_handlers := (s_handlers s1)(index := Some h)\<rparr>)
     | _ \<Rightarrow> (STATUS_INVALID_PARAM, s))"

section \<open>Safety violations\<close>

definition rte_safety_violation_register_handler ::
  "'x violation_handler option \<Rightarrow> 'x rte \<Rightarrow> rte_status \<times> 'x rte" where
  "rte_safety_violation_register_handler handler s =
    (case handler of None \<Rightarrow> (STATUS_INVALID_PARAM, s)
     | Some h \<Rightarrow> (STATUS_OK, s\<lparr>s_violation_handler := Some h\<rparr>))"

definition rte_safety_violation_report ::
  "rte_safety_violation_kind \<Rightarrow> string option \<Rightarrow> 'x rte \<Rightarrow> 'x rte" where
  "rte_safety_violation_report kind message s =
    (case s_violation_handler s of None \<Rightarrow> s
     | Some h \<Rightarrow> s\<lparr>ext := h kind message (ext s)\<rparr>)"

section \<open>Log\<close>

definition rte_osadapter_log_register ::
  "'x osadapter_log option \<Rightarrow> 'x rte \<Rightarrow> rte_status \<times> 'x rte" where
  "rte_osadapter_log_register osadapter s =
    (case osadapter of None \<Rightarrow> (STATUS_INVALID_PARAM, s)
     | Some a \<Rightarrow>
         let (status, s1) = rte_lifecycle_check_setup_allowed s
         in if status \<noteq> STATUS_OK then (status, s1) else (STATUS_OK, s1\<lparr>s_log := Some a\<rparr>))"

definition rte_log_init :: "'x rte \<Rightarrow> rte_status \<times> 'x rte" where
  "rte_log_init s =
    (case s_log s of None \<Rightarrow> (STATUS_OK, s)
     | Some a \<Rightarrow> case log_init a of None \<Rightarrow> (STATUS_OK, s)
       | Some f \<Rightarrow> let (status, x) = f (ext s) in (status, s\<lparr>ext := x\<rparr>))"

definition rte_log_write :: "rte_log_level \<Rightarrow> string option \<Rightarrow> string \<Rightarrow> 'x rte \<Rightarrow> 'x rte" where
  "rte_log_write level tag message s =
    (case s_log s of None \<Rightarrow> s
     | Some a \<Rightarrow> case log_write a of None \<Rightarrow> s
       | Some f \<Rightarrow>
           if log_level_value level < log_level_value (s_min_level s) then s
           else s\<lparr>ext := f level tag message (ext s)\<rparr>)"

text \<open>\<open>name\<close> and the presence of the out parameter. The status comes with the level written.\<close>

definition rte_log_level_from_string ::
  "string option \<Rightarrow> rte_log_level option \<Rightarrow> rte_status \<times> rte_log_level option" where
  "rte_log_level_from_string name out_level =
    (case (name, out_level) of
       (Some n, Some _) \<Rightarrow>
         (case map_of [(''DEBUG'', LOG_DEBUG), (''INFO'', LOG_INFO), (''WARNING'', LOG_WARNING),
                 (''ERROR'', LOG_ERROR)] n of
            None \<Rightarrow> (STATUS_INVALID_PARAM, out_level)
          | Some l \<Rightarrow> (STATUS_OK, Some l))
     | _ \<Rightarrow> (STATUS_INVALID_PARAM, out_level))"

definition rte_log_set_level :: "rte_log_level \<Rightarrow> 'x rte \<Rightarrow> 'x rte" where
  "rte_log_set_level min_level s =
    (if log_level_value min_level \<le> log_level_value LOG_ERROR then s\<lparr>s_min_level := min_level\<rparr>
     else s)"

definition rte_log_get_level :: "'x rte \<Rightarrow> rte_log_level" where
  "rte_log_get_level s = s_min_level s"

fun rte_log_level_to_string :: "rte_log_level \<Rightarrow> string" where
  "rte_log_level_to_string LOG_DEBUG = ''DEBUG''"
| "rte_log_level_to_string LOG_INFO = ''INFO''"
| "rte_log_level_to_string LOG_WARNING = ''WARNING''"
| "rte_log_level_to_string LOG_ERROR = ''ERROR''"
| "rte_log_level_to_string (LOG_LEVEL_OTHER _) = ''UNKNOWN''"

end
