(* ===== verification/Oal_Services.thy ===== *)
theory Oal_Services
  imports Platform_State
begin

text \<open>
  The services of the OS abstraction layer that check their parameters and dispatch to the
  registered OSAdapter: \<^verbatim>\<open>src/oal/timer/rte_timer.c\<close>, \<^verbatim>\<open>src/oal/netlink/rte_netlink.c\<close> and
  \<^verbatim>\<open>src/oal/random/rte_random.c\<close>.
\<close>

section \<open>Timer\<close>

definition rte_osadapter_timer_register ::
  "'x osadapter_timer option \<Rightarrow> 'x rte \<Rightarrow> rte_status \<times> 'x rte" where
  "rte_osadapter_timer_register osadapter s =
    (case osadapter of None \<Rightarrow> (STATUS_INVALID_PARAM, s)
     | Some a \<Rightarrow>
         let (status, s1) = rte_lifecycle_check_setup_allowed s
         in if status \<noteq> STATUS_OK then (status, s1) else (STATUS_OK, s1\<lparr>s_timer := Some a\<rparr>))"

text \<open>
  The out handle of \<open>rte_timer_create\<close> is the caller's variable: \<open>None\<close> for a \<^verbatim>\<open>NULL\<close>
  pointer, otherwise its value, itself a handle or \<^verbatim>\<open>NULL\<close>.
\<close>

definition rte_timer_create ::
  "nat option \<Rightarrow> rte_timer_config option \<Rightarrow> handle option option \<Rightarrow> 'x rte \<Rightarrow>
    rte_status \<times> handle option option \<times> 'x rte" where
  "rte_timer_create storage config out_handle s =
    (case (storage, config, out_handle) of
       (Some st, Some cfg, Some _) \<Rightarrow>
         if tc_callback cfg = None \<or> tc_period_ms cfg = 0
         then (STATUS_INVALID_PARAM, out_handle, s)
         else
           let (status, s1) = rte_lifecycle_check_setup_allowed s
           in if status \<noteq> STATUS_OK then (status, Some None, s1)
              else (case s_timer s1 of None \<Rightarrow> (STATUS_NOT_INITIALIZED, Some None, s1)
                | Some a \<Rightarrow> case timer_create a of None \<Rightarrow> (STATUS_NOT_SUPPORTED, Some None, s1)
                  | Some f \<Rightarrow>
                      let (status, h, x) = f st cfg (ext s1) in (status, Some h, s1\<lparr>ext := x\<rparr>))
     | _ \<Rightarrow> (STATUS_INVALID_PARAM, out_handle, s))"

text \<open>The common tail of the operations on a handle: the adapter's entry, if there is one.\<close>

definition dispatch ::
  "'a option \<Rightarrow> ('a \<Rightarrow> (handle \<Rightarrow> 'x \<Rightarrow> rte_status \<times> 'x) option) \<Rightarrow> handle \<Rightarrow> 'x rte \<Rightarrow>
    rte_status \<times> 'x rte" where
  "dispatch adapter entry h s =
    (case adapter of None \<Rightarrow> (STATUS_NOT_INITIALIZED, s)
     | Some a \<Rightarrow> case entry a of None \<Rightarrow> (STATUS_NOT_SUPPORTED, s)
       | Some f \<Rightarrow> let (status, x) = f h (ext s) in (status, s\<lparr>ext := x\<rparr>))"

definition rte_timer_start :: "handle option \<Rightarrow> 'x rte \<Rightarrow> rte_status \<times> 'x rte" where
  "rte_timer_start handle s =
    (case handle of None \<Rightarrow> (STATUS_INVALID_PARAM, s)
     | Some h \<Rightarrow>
         let (status, s1) = rte_lifecycle_check_setup_allowed s
         in if status \<noteq> STATUS_OK then (status, s1) else dispatch (s_timer s1) timer_start h s1)"

definition rte_timer_stop :: "handle option \<Rightarrow> 'x rte \<Rightarrow> rte_status \<times> 'x rte" where
  "rte_timer_stop handle s =
    (case handle of None \<Rightarrow> (STATUS_INVALID_PARAM, s)
     | Some h \<Rightarrow> dispatch (s_timer s) timer_stop h s)"

definition rte_timer_destroy :: "handle option \<Rightarrow> 'x rte \<Rightarrow> rte_status \<times> 'x rte" where
  "rte_timer_destroy handle s =
    (case handle of None \<Rightarrow> (STATUS_INVALID_PARAM, s)
     | Some h \<Rightarrow> dispatch (s_timer s) timer_destroy h s)"

text \<open>
  \<open>rte_timer_now\<close> with a valid out pointer: the status and the value left in it, 0 unless the
  adapter stored another one.
\<close>

definition rte_timer_now :: "'x rte \<Rightarrow> rte_status \<times> timestamp_ms \<times> 'x rte" where
  "rte_timer_now s =
    (case s_timer s of None \<Rightarrow> (STATUS_NOT_INITIALIZED, 0, s)
     | Some a \<Rightarrow> case timer_now a of None \<Rightarrow> (STATUS_NOT_SUPPORTED, 0, s)
       | Some f \<Rightarrow> let (status, now, x) = f (ext s) in (status, now, s\<lparr>ext := x\<rparr>))"

section \<open>Network links\<close>

definition rte_osadapter_netlink_register ::
  "'x osadapter_netlink option \<Rightarrow> 'x rte \<Rightarrow> rte_status \<times> 'x rte" where
  "rte_osadapter_netlink_register osadapter s =
    (case osadapter of None \<Rightarrow> (STATUS_INVALID_PARAM, s)
     | Some a \<Rightarrow>
         let (status, s1) = rte_lifecycle_check_setup_allowed s
         in if status \<noteq> STATUS_OK then (status, s1) else (STATUS_OK, s1\<lparr>s_netlink := Some a\<rparr>))"

definition rte_netlink_open ::
  "nat option \<Rightarrow> rte_netlink_config option \<Rightarrow> handle option option \<Rightarrow> 'x rte \<Rightarrow>
    rte_status \<times> handle option option \<times> 'x rte" where
  "rte_netlink_open storage config out_handle s =
    (case (storage, config, out_handle) of
       (Some st, Some cfg, Some _) \<Rightarrow>
         if nc_message_size cfg = 0 then (STATUS_INVALID_PARAM, out_handle, s)
         else if nc_role cfg = NETLINK_CONNECT \<and> nc_host cfg = None
         then (STATUS_INVALID_PARAM, out_handle, s)
         else (case s_netlink s of None \<Rightarrow> (STATUS_NOT_INITIALIZED, Some None, s)
           | Some a \<Rightarrow> case netlink_open a of None \<Rightarrow> (STATUS_NOT_SUPPORTED, Some None, s)
             | Some f \<Rightarrow>
                 let (status, h, x) = f st cfg (ext s) in (status, Some h, s\<lparr>ext := x\<rparr>))
     | _ \<Rightarrow> (STATUS_INVALID_PARAM, out_handle, s))"

text \<open>A buffer and its size: the adapter is handed the first \<open>message_size\<close> bytes.\<close>

definition rte_netlink_send ::
  "handle option \<Rightarrow> bytes option \<Rightarrow> nat \<Rightarrow> duration_ms \<Rightarrow> 'x rte \<Rightarrow> rte_status \<times> 'x rte" where
  "rte_netlink_send handle message message_size timeout_ms s =
    (case (handle, message) of
       (Some h, Some m) \<Rightarrow>
         if message_size = 0 then (STATUS_INVALID_PARAM, s)
         else (case s_netlink s of None \<Rightarrow> (STATUS_NOT_INITIALIZED, s)
           | Some a \<Rightarrow> case netlink_send a of None \<Rightarrow> (STATUS_NOT_SUPPORTED, s)
             | Some f \<Rightarrow> let (status, x) = f h (take message_size m) timeout_ms (ext s)
                         in (status, s\<lparr>ext := x\<rparr>))
     | _ \<Rightarrow> (STATUS_INVALID_PARAM, s))"

definition rte_netlink_receive ::
  "handle option \<Rightarrow> bytes option \<Rightarrow> nat \<Rightarrow> duration_ms \<Rightarrow> 'x rte \<Rightarrow>
    rte_status \<times> bytes option \<times> 'x rte" where
  "rte_netlink_receive handle out_message buffer_size timeout_ms s =
    (case (handle, out_message) of
       (Some h, Some m) \<Rightarrow>
         if buffer_size = 0 then (STATUS_INVALID_PARAM, out_message, s)
         else (case s_netlink s of None \<Rightarrow> (STATUS_NOT_INITIALIZED, out_message, s)
           | Some a \<Rightarrow> case netlink_receive a of None \<Rightarrow> (STATUS_NOT_SUPPORTED, out_message, s)
             | Some f \<Rightarrow> let (status, m', x) = f h (take buffer_size m) timeout_ms (ext s)
                         in (status, Some (m' @ drop buffer_size m), s\<lparr>ext := x\<rparr>))
     | _ \<Rightarrow> (STATUS_INVALID_PARAM, out_message, s))"

definition rte_netlink_close :: "handle option \<Rightarrow> 'x rte \<Rightarrow> rte_status \<times> 'x rte" where
  "rte_netlink_close handle s =
    (case handle of None \<Rightarrow> (STATUS_INVALID_PARAM, s)
     | Some h \<Rightarrow> dispatch (s_netlink s) netlink_close h s)"

section \<open>Random bytes\<close>

definition RANDOM_MAX_REQUEST :: nat where "RANDOM_MAX_REQUEST = 256"

definition rte_osadapter_random_register ::
  "'x osadapter_random option \<Rightarrow> 'x rte \<Rightarrow> rte_status \<times> 'x rte" where
  "rte_osadapter_random_register osadapter s =
    (case osadapter of None \<Rightarrow> (STATUS_INVALID_PARAM, s)
     | Some a \<Rightarrow>
         let (status, s1) = rte_lifecycle_check_setup_allowed s
         in if status \<noteq> STATUS_OK then (status, s1) else (STATUS_OK, s1\<lparr>s_random := Some a\<rparr>))"

definition rte_random_fill ::
  "bytes option \<Rightarrow> nat \<Rightarrow> 'x rte \<Rightarrow> rte_status \<times> bytes option \<times> 'x rte" where
  "rte_random_fill out len s =
    (case out of None \<Rightarrow> (STATUS_INVALID_PARAM, out, s)
     | Some buf \<Rightarrow>
         if len = 0 \<or> len > RANDOM_MAX_REQUEST then (STATUS_INVALID_PARAM, out, s)
         else (case s_random s of None \<Rightarrow> (STATUS_NOT_INITIALIZED, out, s)
           | Some a \<Rightarrow> case random_fill a of None \<Rightarrow> (STATUS_NOT_SUPPORTED, out, s)
             | Some f \<Rightarrow> let (status, b, x) = f len (ext s)
                         in (status, Some (copy_at 0 b buf), s\<lparr>ext := x\<rparr>)))"

end
