(* ===== verification/Channel.thy ===== *)
theory Channel
  imports Oal_Services
begin

text \<open>
  One redundant channel, \<^verbatim>\<open>src/redundancy/channel_link/rte_channel.c\<close>: the configured send
  and receive callbacks with health counters as a side effect. Channels live in caller-owned
  memory and are shared by reference, so the model keeps them in a store from addresses to
  channel objects. A callback is a function on the platform state; \<^verbatim>\<open>channel_handle\<close> is the
  opaque pointer it is given.
\<close>

section \<open>Data\<close>

type_synonym 'x channel_send_fn = "nat option \<Rightarrow> bytes \<Rightarrow> 'x rte \<Rightarrow> rte_status \<times> 'x rte"
type_synonym 'x channel_recv_fn =
  "nat option \<Rightarrow> bytes \<Rightarrow> duration_ms \<Rightarrow> 'x rte \<Rightarrow> rte_status \<times> bytes \<times> 'x rte"

record rte_channel_health =
  ch_send_count :: u32
  ch_send_error_count :: u32
  ch_receive_count :: u32
  ch_receive_error_count :: u32
  ch_is_healthy :: bool
  ch_last_error :: rte_status

record 'x rte_channel_config =
  cc_channel_handle :: "nat option"
  cc_send :: "'x channel_send_fn option"
  cc_recv :: "'x channel_recv_fn option"
  cc_name :: "string option"

text \<open>The stored configuration: initialisation stores non-\<^verbatim>\<open>NULL\<close> callbacks only.\<close>

record 'x rte_channel =
  ch_handle :: "nat option"
  ch_send :: "'x channel_send_fn"
  ch_recv :: "'x channel_recv_fn"
  ch_name :: "string option"
  ch_health :: rte_channel_health
  ch_initialized :: bool

type_synonym 'x chan_mem = "nat \<Rightarrow> 'x rte_channel"

section \<open>Operations\<close>

definition rte_channel_init ::
  "nat option \<Rightarrow> 'x rte_channel_config option \<Rightarrow> 'x chan_mem \<Rightarrow> 'x rte \<Rightarrow>
    rte_status \<times> 'x chan_mem \<times> 'x rte" where
  "rte_channel_init storage config mem s =
    (case (storage, config) of
       (Some p, Some cfg) \<Rightarrow>
         (case (cc_send cfg, cc_recv cfg) of
            (Some snd_fn, Some rcv_fn) \<Rightarrow>
              let (status, s1) = rte_lifecycle_check_setup_allowed s
              in if status \<noteq> STATUS_OK then (status, mem, s1)
                 else (STATUS_OK,
                   mem(p := \<lparr>ch_handle = cc_channel_handle cfg, ch_send = snd_fn,
                     ch_recv = rcv_fn, ch_name = cc_name cfg,
                     ch_health = \<lparr>ch_send_count = 0, ch_send_error_count = 0,
                       ch_receive_count = 0, ch_receive_error_count = 0,
                       ch_is_healthy = True, ch_last_error = STATUS_OK\<rparr>,
                     ch_initialized = True\<rparr>), s1)
          | _ \<Rightarrow> (STATUS_INVALID_PARAM, mem, s))
     | _ \<Rightarrow> (STATUS_INVALID_PARAM, mem, s))"

text \<open>The bookkeeping after a callback: one of two counters, and the error on a failure.\<close>

definition note_send :: "rte_status \<Rightarrow> 'x rte_channel \<Rightarrow> 'x rte_channel" where
  "note_send status c =
    (let h = ch_health c in
     c\<lparr>ch_health := (if status = STATUS_OK then h\<lparr>ch_send_count := ch_send_count h + 1\<rparr>
        else h\<lparr>ch_send_error_count := ch_send_error_count h + 1, ch_last_error := status\<rparr>)\<rparr>)"

definition note_receive :: "rte_status \<Rightarrow> 'x rte_channel \<Rightarrow> 'x rte_channel" where
  "note_receive status c =
    (let h = ch_health c in
     c\<lparr>ch_health := (if status = STATUS_OK then h\<lparr>ch_receive_count := ch_receive_count h + 1\<rparr>
        else h\<lparr>ch_receive_error_count := ch_receive_error_count h + 1, ch_last_error := status\<rparr>)\<rparr>)"

definition rte_channel_send ::
  "nat option \<Rightarrow> bytes option \<Rightarrow> nat \<Rightarrow> 'x chan_mem \<Rightarrow> 'x rte \<Rightarrow>
    rte_status \<times> 'x chan_mem \<times> 'x rte" where
  "rte_channel_send handle data data_size mem s =
    (case (handle, data) of
       (Some p, Some d) \<Rightarrow>
         if data_size = 0 then (STATUS_INVALID_PARAM, mem, s)
         else if \<not> ch_initialized (mem p) then (STATUS_NOT_INITIALIZED, mem, s)
         else
           let (status, s1) = ch_send (mem p) (ch_handle (mem p)) (take data_size d) s
           in (status, mem(p := note_send status (mem p)), s1)
     | _ \<Rightarrow> (STATUS_INVALID_PARAM, mem, s))"

definition rte_channel_receive ::
  "nat option \<Rightarrow> bytes option \<Rightarrow> nat \<Rightarrow> duration_ms \<Rightarrow> 'x chan_mem \<Rightarrow> 'x rte \<Rightarrow>
    rte_status \<times> bytes option \<times> 'x chan_mem \<times> 'x rte" where
  "rte_channel_receive handle data data_size timeout_ms mem s =
    (case (handle, data) of
       (Some p, Some d) \<Rightarrow>
         if data_size = 0 then (STATUS_INVALID_PARAM, data, mem, s)
         else if \<not> ch_initialized (mem p) then (STATUS_NOT_INITIALIZED, data, mem, s)
         else
           let (status, d', s1) =
             ch_recv (mem p) (ch_handle (mem p)) (take data_size d) timeout_ms s
           in (status, Some (d' @ drop data_size d), mem(p := note_receive status (mem p)), s1)
     | _ \<Rightarrow> (STATUS_INVALID_PARAM, data, mem, s))"

definition rte_channel_get_health ::
  "nat option \<Rightarrow> bool \<Rightarrow> 'x chan_mem \<Rightarrow> rte_status \<times> rte_channel_health option" where
  "rte_channel_get_health handle out_given mem =
    (case handle of None \<Rightarrow> (STATUS_INVALID_PARAM, None)
     | Some p \<Rightarrow> if \<not> out_given then (STATUS_INVALID_PARAM, None)
                else (STATUS_OK, Some (ch_health (mem p))))"

definition rte_channel_get_name :: "nat option \<Rightarrow> 'x chan_mem \<Rightarrow> string option" where
  "rte_channel_get_name handle mem =
    (case handle of None \<Rightarrow> None | Some p \<Rightarrow> ch_name (mem p))"

definition rte_channel_set_healthy ::
  "nat option \<Rightarrow> bool \<Rightarrow> 'x chan_mem \<Rightarrow> rte_status \<times> 'x chan_mem" where
  "rte_channel_set_healthy handle is_healthy mem =
    (case handle of None \<Rightarrow> (STATUS_INVALID_PARAM, mem)
     | Some p \<Rightarrow> (STATUS_OK, mem(p := (mem p)\<lparr>ch_health :=
         (ch_health (mem p))\<lparr>ch_is_healthy := is_healthy\<rparr>\<rparr>)))"

definition rte_channel_destroy :: "nat option \<Rightarrow> 'x chan_mem \<Rightarrow> rte_status \<times> 'x chan_mem" where
  "rte_channel_destroy handle mem =
    (case handle of None \<Rightarrow> (STATUS_OK, mem)
     | Some p \<Rightarrow> (STATUS_OK, mem(p := (mem p)\<lparr>ch_initialized := False\<rparr>)))"

section \<open>Health\<close>

text \<open>The healthy flag of the channel at an address, as the voting layers read it.\<close>

definition channel_healthy :: "'x chan_mem \<Rightarrow> nat \<Rightarrow> bool" where
  "channel_healthy mem p \<longleftrightarrow>
    (case snd (rte_channel_get_health (Some p) True mem) of
       None \<Rightarrow> False | Some h \<Rightarrow> ch_is_healthy h)"

lemma channel_healthy_iff [simp]: "channel_healthy mem p = ch_is_healthy (ch_health (mem p))"
  by (simp add: channel_healthy_def rte_channel_get_health_def)

lemma note_healthy [simp]:
  "ch_is_healthy (ch_health (note_send st c)) = ch_is_healthy (ch_health c)"
  "ch_is_healthy (ch_health (note_receive st c)) = ch_is_healthy (ch_health c)"
  by (simp_all add: note_send_def note_receive_def Let_def)

lemma note_frame [simp]:
  "ch_initialized (note_send st c) = ch_initialized c" "ch_send (note_send st c) = ch_send c"
  "ch_recv (note_send st c) = ch_recv c" "ch_handle (note_send st c) = ch_handle c"
  "ch_initialized (note_receive st c) = ch_initialized c"
  "ch_send (note_receive st c) = ch_send c"
  "ch_recv (note_receive st c) = ch_recv c" "ch_handle (note_receive st c) = ch_handle c"
  by (simp_all add: note_send_def note_receive_def Let_def)

lemma channel_receive_other:
  "rte_channel_receive (Some p) d n t mem s = (st, d', mem', s') \<Longrightarrow> q \<noteq> p \<Longrightarrow> mem' q = mem q"
  by (auto simp: rte_channel_receive_def split: option.splits prod.splits if_splits)

lemma channel_send_other:
  "rte_channel_send (Some p) d n mem s = (st, mem', s') \<Longrightarrow> q \<noteq> p \<Longrightarrow> mem' q = mem q"
  by (auto simp: rte_channel_send_def split: option.splits prod.splits if_splits)

lemma channel_receive_healthy:
  "rte_channel_receive (Some p) d n t mem s = (st, d', mem', s') \<Longrightarrow>
    ch_is_healthy (ch_health (mem' q)) = ch_is_healthy (ch_health (mem q))"
  by (auto simp: rte_channel_receive_def split: option.splits prod.splits if_splits)

text \<open>A receive into a buffer leaves a buffer.\<close>

lemma channel_receive_Some:
  "\<exists>st d' mem' s'. rte_channel_receive (Some p) (Some d) n t mem s = (st, Some d', mem', s')"
  by (cases "ch_recv (mem p) (ch_handle (mem p)) (take n d) t s")
    (simp add: rte_channel_receive_def)

end
