(* ===== verification/Voter.thy ===== *)
theory Voter
  imports Channel
begin

text \<open>
  The N-way voting engine, \<^verbatim>\<open>src/redundancy/voter/rte_voter.c\<close>. Channels are addresses in
  the channel store, in the order of registration. The responses of one round are a list with
  one entry per channel, \<open>None\<close> where the channel did not respond. A result that is a
  disagreement enters the configured safe state, which does not return at the levels SAFE and
  REBOOT, so the operations that can reach it have a \<open>run\<close> as result.
\<close>

section \<open>Data\<close>

datatype rte_voting_strategy =
    VOTING_2OO2
  | VOTING_2OO3
  | VOTING_NMR
  | VOTING_STRATEGY_OTHER nat

datatype rte_voting_result =
    VOTING_AGREED
  | VOTING_DISAGREED
  | VOTING_TIMEOUT
  | VOTING_INSUFFICIENT_QUORUM

type_synonym compare_fn = "bytes \<Rightarrow> bytes \<Rightarrow> nat \<Rightarrow> nat option \<Rightarrow> bool"
type_synonym 'x disagreement_fn = "nat option \<Rightarrow> rte_voting_result \<Rightarrow> 'x \<Rightarrow> 'x"

record 'x rte_voter_config =
  vc_voting_strategy :: rte_voting_strategy
  vc_quorum_size :: u32
  vc_channel_timeout_ms :: duration_ms
  vc_compare :: "compare_fn option"
  vc_compare_context :: "nat option"
  vc_log_disagreements :: bool
  vc_safestate_level :: rte_safestate_level
  vc_safestate_reason :: safestate_reason
  vc_on_disagreement :: "'x disagreement_fn option"
  vc_disagreement_context :: "nat option"

definition VOTER_MAX_CHANNELS :: nat where "VOTER_MAX_CHANNELS = 8"
definition VOTER_MAX_MESSAGE_SIZE :: nat where "VOTER_MAX_MESSAGE_SIZE = 256"

text \<open>The used prefix of the channel array; its length is \<^verbatim>\<open>channel_count\<close>.\<close>

record 'x rte_voter =
  vo_config :: "'x rte_voter_config"
  vo_channels :: "nat list"
  vo_total_disagreements :: u32
  vo_initialized :: bool

section \<open>Local functions\<close>

fun voter_channel_count_matches_strategy :: "'x rte_voter \<Rightarrow> nat \<Rightarrow> bool" where
  "voter_channel_count_matches_strategy v channel_count =
    (case vc_voting_strategy (vo_config v) of
       VOTING_2OO2 \<Rightarrow> channel_count = 2
     | VOTING_2OO3 \<Rightarrow> channel_count = 3
     | VOTING_NMR \<Rightarrow> channel_count \<ge> 1 \<and> vc_quorum_size (vo_config v) \<ge> 1 \<and>
         unat (vc_quorum_size (vo_config v)) \<le> channel_count
     | VOTING_STRATEGY_OTHER _ \<Rightarrow> False)"

definition voter_required_quorum :: "'x rte_voter \<Rightarrow> nat" where
  "voter_required_quorum v =
    (case vc_voting_strategy (vo_config v) of
       VOTING_2OO2 \<Rightarrow> 2
     | VOTING_2OO3 \<Rightarrow> 2
     | VOTING_NMR \<Rightarrow> unat (vc_quorum_size (vo_config v))
     | VOTING_STRATEGY_OTHER _ \<Rightarrow> 0xFFFFFFFF)"

text \<open>The first \<open>n\<close> bytes are compared.\<close>

definition voter_data_equal :: "'x rte_voter \<Rightarrow> nat \<Rightarrow> bytes \<Rightarrow> bytes \<Rightarrow> bool" where
  "voter_data_equal v n a b =
    (case vc_compare (vo_config v) of
       Some compare \<Rightarrow> compare a b n (vc_compare_context (vo_config v))
     | None \<Rightarrow> take n a = take n b)"

definition voter_count_healthy :: "'x rte_voter \<Rightarrow> 'x chan_mem \<Rightarrow> nat" where
  "voter_count_healthy v mem = length (filter (channel_healthy mem) (vo_channels v))"

text \<open>
  The receive phase over the remaining channels. \<open>stack\<close> is what the local buffers hold before
  they are used, indexed by the channel's position.
\<close>

fun voter_receive_from_healthy_channels ::
  "nat list \<Rightarrow> nat \<Rightarrow> (nat \<Rightarrow> bytes) \<Rightarrow> nat \<Rightarrow> duration_ms \<Rightarrow> bool \<Rightarrow> 'x chan_mem \<Rightarrow> 'x rte \<Rightarrow>
    bytes option list \<times> bool \<times> 'x chan_mem \<times> 'x rte" where
  "voter_receive_from_healthy_channels [] i stack n t saw_timeout mem s =
    ([], saw_timeout, mem, s)"
| "voter_receive_from_healthy_channels (p # ps) i stack n t saw_timeout mem s =
    (if \<not> channel_healthy mem p
     then let (rs, tm, mem', s') =
            voter_receive_from_healthy_channels ps (i + 1) stack n t saw_timeout mem s
          in (None # rs, tm, mem', s')
     else
       let (st, buf, mem1, s1) = rte_channel_receive (Some p) (Some (stack i)) n t mem s;
           (rs, tm, mem', s') =
             voter_receive_from_healthy_channels ps (i + 1) stack n t
               (saw_timeout \<or> st = STATUS_TIMEOUT) mem1 s1
       in ((if st = STATUS_OK then buf else None) # rs, tm, mem', s'))"

definition successful_responses :: "bytes option list \<Rightarrow> nat" where
  "successful_responses rs = length (filter (\<lambda>r. r \<noteq> None) rs)"

text \<open>
  Grouping. Each response is compared with the earlier ones, in order, and joins the group of the
  first that equals it, or opens a new group. The state is the list of placed responses with
  their group, and the sizes of the groups.
\<close>

fun place_response ::
  "(bytes \<Rightarrow> bytes \<Rightarrow> bool) \<Rightarrow> (bytes \<times> nat) option list \<times> nat list \<Rightarrow> bytes option \<Rightarrow>
    (bytes \<times> nat) option list \<times> nat list" where
  "place_response eq (placed, group_count) None = (placed @ [None], group_count)"
| "place_response eq (placed, group_count) (Some b) =
    (case List.find (\<lambda>p. case p of None \<Rightarrow> False | Some (b', _) \<Rightarrow> eq b b') placed of
       Some (Some (_, g)) \<Rightarrow>
         (placed @ [Some (b, g)], group_count[g := group_count ! g + 1])
     | _ \<Rightarrow> (placed @ [Some (b, length group_count)], group_count @ [1]))"

definition voter_group_matching_responses ::
  "(bytes \<Rightarrow> bytes \<Rightarrow> bool) \<Rightarrow> bytes option list \<Rightarrow> (bytes \<times> nat) option list \<times> nat list" where
  "voter_group_matching_responses eq responses = foldl (place_response eq) ([], []) responses"

text \<open>The scan for the largest group, and the copy of its first member.\<close>

definition best_group :: "nat list \<Rightarrow> nat \<times> nat" where
  "best_group group_count =
    foldl (\<lambda>(best_count, best) i.
        if group_count ! i > best_count then (group_count ! i, i) else (best_count, best))
      (0, 0) [0..<length group_count]"

definition first_of_group :: "(bytes \<times> nat) option list \<Rightarrow> nat \<Rightarrow> bytes option" where
  "first_of_group placed g =
    (case List.find (\<lambda>p. case p of None \<Rightarrow> False | Some (_, g') \<Rightarrow> g' = g) placed of
       Some (Some (b, _)) \<Rightarrow> Some b
     | _ \<Rightarrow> None)"

section \<open>Set-up\<close>

definition rte_voter_init ::
  "'x rte_voter option \<Rightarrow> 'x rte_voter_config option \<Rightarrow> 'x rte \<Rightarrow>
    rte_status \<times> 'x rte_voter option \<times> 'x rte" where
  "rte_voter_init storage config s =
    (case (storage, config) of
       (Some v, Some cfg) \<Rightarrow>
         let (status, s1) = rte_lifecycle_check_setup_allowed s in
         if status \<noteq> STATUS_OK then (status, storage, s1)
         else
           let ok = (STATUS_OK, Some (v\<lparr>vo_config := cfg, vo_channels := [],
                       vo_total_disagreements := 0, vo_initialized := True\<rparr>), s1)
           in (case vc_voting_strategy cfg of
                 VOTING_2OO2 \<Rightarrow> ok
               | VOTING_2OO3 \<Rightarrow> ok
               | VOTING_NMR \<Rightarrow> if vc_quorum_size cfg = 0 then (STATUS_INVALID_PARAM, storage, s1)
                               else ok
               | VOTING_STRATEGY_OTHER _ \<Rightarrow> (STATUS_INVALID_PARAM, storage, s1))
     | _ \<Rightarrow> (STATUS_INVALID_PARAM, storage, s))"

definition rte_voter_register_channel ::
  "'x rte_voter option \<Rightarrow> nat option \<Rightarrow> 'x rte \<Rightarrow> rte_status \<times> 'x rte_voter option \<times> 'x rte" where
  "rte_voter_register_channel voter channel s =
    (case (voter, channel) of
       (Some v, Some p) \<Rightarrow>
         if \<not> vo_initialized v then (STATUS_NOT_INITIALIZED, voter, s)
         else
           let (status, s1) = rte_lifecycle_check_setup_allowed s in
           if status \<noteq> STATUS_OK then (status, voter, s1)
           else if length (vo_channels v) \<ge> VOTER_MAX_CHANNELS
           then (STATUS_RESOURCE_EXHAUSTED, voter, s1)
           else (STATUS_OK, Some (v\<lparr>vo_channels := vo_channels v @ [p]\<rparr>), s1)
     | _ \<Rightarrow> (STATUS_INVALID_PARAM, voter, s))"

section \<open>Sending\<close>

fun voter_send_loop ::
  "nat list \<Rightarrow> bytes \<Rightarrow> nat \<Rightarrow> nat \<times> bool \<times> bool \<Rightarrow> 'x chan_mem \<Rightarrow> 'x rte \<Rightarrow>
    (nat \<times> bool \<times> bool) \<times> 'x chan_mem \<times> 'x rte" where
  "voter_send_loop [] d n acc mem s = (acc, mem, s)"
| "voter_send_loop (p # ps) d n (healthy_count, any_failed, any_timeout) mem s =
    (if \<not> channel_healthy mem p
     then voter_send_loop ps d n (healthy_count, any_failed, any_timeout) mem s
     else
       let (st, mem1, s1) = rte_channel_send (Some p) (Some d) n mem s
       in voter_send_loop ps d n
            (healthy_count + 1, any_failed \<or> st \<noteq> STATUS_OK, any_timeout \<or> st = STATUS_TIMEOUT)
            mem1 s1)"

definition rte_voter_send ::
  "'x rte_voter option \<Rightarrow> bytes option \<Rightarrow> nat \<Rightarrow> 'x chan_mem \<Rightarrow> 'x rte \<Rightarrow>
    rte_status \<times> 'x chan_mem \<times> 'x rte" where
  "rte_voter_send voter data data_size mem s =
    (case (voter, data) of
       (Some v, Some d) \<Rightarrow>
         if data_size = 0 then (STATUS_INVALID_PARAM, mem, s)
         else if \<not> vo_initialized v then (STATUS_NOT_INITIALIZED, mem, s)
         else if data_size > VOTER_MAX_MESSAGE_SIZE then (STATUS_RESOURCE_EXHAUSTED, mem, s)
         else if \<not> voter_channel_count_matches_strategy v (length (vo_channels v))
         then (STATUS_INVALID_PARAM, mem, s)
         else
           let ((healthy_count, any_failed, any_timeout), mem', s') =
             voter_send_loop (vo_channels v) d data_size (0, False, False) mem s
           in (if healthy_count = 0 then STATUS_HARDWARE_FAULT
               else if any_timeout then STATUS_TIMEOUT
               else if any_failed then STATUS_HARDWARE_FAULT
               else STATUS_OK, mem', s')
     | _ \<Rightarrow> (STATUS_INVALID_PARAM, mem, s))"

section \<open>Voting\<close>

text \<open>
  The outputs of a round: the status, the caller's data buffer, the result and the byte count,
  \<open>None\<close> where nothing was written. The state is the voter, the channels and the platform.
\<close>

type_synonym vote_out = "rte_status \<times> bytes option \<times> rte_voting_result option \<times> nat option"
type_synonym 'x vote_state = "'x rte_voter option \<times> 'x chan_mem \<times> 'x rte"

definition call_on_disagreement ::
  "'x rte_voter \<Rightarrow> rte_voting_result \<Rightarrow> 'x rte \<Rightarrow> 'x rte" where
  "call_on_disagreement v r s =
    (case vc_on_disagreement (vo_config v) of None \<Rightarrow> s
     | Some f \<Rightarrow> s\<lparr>ext := f (vc_disagreement_context (vo_config v)) r (ext s)\<rparr>)"

text \<open>The reaction to a disagreement: counter, log line, callback, safe state.\<close>

definition voter_disagreed ::
  "string \<Rightarrow> 'x rte_voter \<Rightarrow> 'x chan_mem \<Rightarrow> 'x rte \<Rightarrow> (unit, 'x vote_state) run" where
  "voter_disagreed message v mem s =
    (let v' = v\<lparr>vo_total_disagreements := vo_total_disagreements v + 1\<rparr>;
         s1 = (if vc_log_disagreements (vo_config v)
               then rte_log_write LOG_ERROR (Some ''voter'') message s else s);
         s2 = call_on_disagreement v' VOTING_DISAGREED s1
     in case rte_safestate_enter (vc_safestate_level (vo_config v))
               (vc_safestate_reason (vo_config v)) None s2 of
          Halted s3 \<Rightarrow> Halted (Some v', mem, s3)
        | Returned _ s3 \<Rightarrow> Returned () (Some v', mem, s3))"

definition rte_voter_receive ::
  "(nat \<Rightarrow> bytes) \<Rightarrow> 'x rte_voter option \<Rightarrow> bytes option \<Rightarrow> nat \<Rightarrow> 'x chan_mem \<Rightarrow> 'x rte \<Rightarrow>
    (vote_out, 'x vote_state) run" where
  "rte_voter_receive stack voter data data_size mem s =
    (case (voter, data) of
       (Some v, Some d) \<Rightarrow>
         let quit = (\<lambda>st. Returned (st, data, None, None) (voter, mem, s)) in
         if data_size = 0 then quit STATUS_INVALID_PARAM
         else if \<not> vo_initialized v then quit STATUS_NOT_INITIALIZED
         else if data_size > VOTER_MAX_MESSAGE_SIZE then quit STATUS_RESOURCE_EXHAUSTED
         else if \<not> voter_channel_count_matches_strategy v (length (vo_channels v))
         then quit STATUS_INVALID_PARAM
         else
           let required_quorum = voter_required_quorum v;
               (local_result, d', mem1, s1) =
                 (if voter_count_healthy v mem < required_quorum
                  then (VOTING_INSUFFICIENT_QUORUM, d, mem, s)
                  else
                    let (responses, saw_timeout, mem1, s1) =
                          voter_receive_from_healthy_channels (vo_channels v) 0 stack data_size
                            (vc_channel_timeout_ms (vo_config v)) False mem s;
                        successful = successful_responses responses
                    in if successful = 0
                       then (if saw_timeout then VOTING_TIMEOUT else VOTING_INSUFFICIENT_QUORUM,
                             d, mem1, s1)
                       else if successful < required_quorum
                       then (VOTING_INSUFFICIENT_QUORUM, d, mem1, s1)
                       else
                         let (placed, group_count) =
                               voter_group_matching_responses (voter_data_equal v data_size)
                                 responses;
                             (best_count, best) = best_group group_count
                         in if best_count \<ge> required_quorum
                            then (VOTING_AGREED,
                                  (case first_of_group placed best of None \<Rightarrow> d
                                   | Some b \<Rightarrow> copy_at 0 (take data_size b) d), mem1, s1)
                            else (VOTING_DISAGREED, d, mem1, s1))
           in case local_result of
                VOTING_AGREED \<Rightarrow>
                  Returned (STATUS_OK, Some d', Some local_result, Some data_size)
                    (voter, mem1, s1)
              | VOTING_DISAGREED \<Rightarrow>
                  map_run_value (\<lambda>_. (STATUS_HARDWARE_FAULT, Some d', Some local_result, Some 0))
                    (voter_disagreed ''channels disagreed'' v mem1 s1)
              | _ \<Rightarrow>
                  Returned (STATUS_HARDWARE_FAULT, Some d', Some local_result, Some 0)
                    (voter, mem1, call_on_disagreement v local_result s1)
     | _ \<Rightarrow> Returned (STATUS_INVALID_PARAM, data, None, None) (voter, mem, s))"

text \<open>
  \<open>buffers\<close> is the caller's array of pointers, \<open>out_data\<close> its optional output buffer.
\<close>

definition rte_voter_vote_buffers ::
  "'x rte_voter option \<Rightarrow> bytes option list option \<Rightarrow> nat \<Rightarrow> bytes option \<Rightarrow> 'x chan_mem \<Rightarrow> 'x rte \<Rightarrow>
    (vote_out, 'x vote_state) run" where
  "rte_voter_vote_buffers voter buffers data_size out_data mem s =
    (case (voter, buffers) of
       (Some v, Some bs) \<Rightarrow>
         let quit = (\<lambda>st. Returned (st, out_data, None, None) (voter, mem, s)) in
         if data_size = 0 then quit STATUS_INVALID_PARAM
         else if \<not> vo_initialized v then quit STATUS_NOT_INITIALIZED
         else if data_size > VOTER_MAX_MESSAGE_SIZE then quit STATUS_RESOURCE_EXHAUSTED
         else if length bs > VOTER_MAX_CHANNELS then quit STATUS_INVALID_PARAM
         else if \<not> voter_channel_count_matches_strategy v (length bs)
         then quit STATUS_INVALID_PARAM
         else if None \<in> set bs then quit STATUS_INVALID_PARAM
         else
           let required_quorum = voter_required_quorum v;
               local_buffers = map (map_option (take data_size)) bs;
               (placed, group_count) =
                 voter_group_matching_responses (voter_data_equal v data_size) local_buffers;
               (best_count, best) = best_group group_count
           in if best_count \<ge> required_quorum
              then Returned (STATUS_OK,
                     (case (out_data, first_of_group placed best) of
                        (Some d, Some b) \<Rightarrow> Some (copy_at 0 (take data_size b) d)
                      | _ \<Rightarrow> out_data), Some VOTING_AGREED, Some data_size) (voter, mem, s)
              else map_run_value
                     (\<lambda>_. (STATUS_HARDWARE_FAULT, out_data, Some VOTING_DISAGREED, Some 0))
                     (voter_disagreed ''channels disagreed (buffers)'' v mem s)
     | _ \<Rightarrow> Returned (STATUS_INVALID_PARAM, out_data, None, None) (voter, mem, s))"

section \<open>Queries\<close>

definition rte_voter_get_aggregated_health ::
  "'x rte_voter option \<Rightarrow> 'x chan_mem \<Rightarrow> rte_status \<times> (nat \<times> u32) option" where
  "rte_voter_get_aggregated_health voter mem =
    (case voter of None \<Rightarrow> (STATUS_INVALID_PARAM, None)
     | Some v \<Rightarrow> (STATUS_OK, Some (voter_count_healthy v mem, vo_total_disagreements v)))"

definition rte_voter_get_channel_count :: "'x rte_voter option \<Rightarrow> nat" where
  "rte_voter_get_channel_count voter =
    (case voter of None \<Rightarrow> 0 | Some v \<Rightarrow> length (vo_channels v))"

definition rte_voter_get_channel :: "'x rte_voter option \<Rightarrow> nat \<Rightarrow> nat option" where
  "rte_voter_get_channel voter index =
    (case voter of None \<Rightarrow> None
     | Some v \<Rightarrow> if index \<ge> length (vo_channels v) then None else Some (vo_channels v ! index))"

definition rte_voter_get_channel_by_name ::
  "'x rte_voter option \<Rightarrow> string option \<Rightarrow> 'x chan_mem \<Rightarrow> nat option" where
  "rte_voter_get_channel_by_name voter name mem =
    (case (voter, name) of
       (Some v, Some nm) \<Rightarrow>
         List.find (\<lambda>p. rte_channel_get_name (Some p) mem = Some nm) (vo_channels v)
     | _ \<Rightarrow> None)"

definition rte_voter_destroy :: "'x rte_voter option \<Rightarrow> rte_status \<times> 'x rte_voter option" where
  "rte_voter_destroy voter =
    (case voter of None \<Rightarrow> (STATUS_OK, None)
     | Some v \<Rightarrow> (STATUS_OK, Some (v\<lparr>vo_initialized := False\<rparr>)))"

section \<open>The scan for the largest group\<close>

lemma best_group_scan:
  "foldl (\<lambda>(bc, b) i. if counts ! i > bc then (counts ! i, i) else (bc, b)) (0, 0) [0..<n] = (bc, b)
    \<Longrightarrow> (\<forall>i < n. counts ! i \<le> bc) \<and> (bc > 0 \<longrightarrow> b < n \<and> counts ! b = (bc :: nat))"
proof (induction n arbitrary: bc b)
  case (Suc n)
  obtain bc' b' where scan: "foldl (\<lambda>(bc, b) i. if counts ! i > bc then (counts ! i, i) else (bc, b))
      (0, 0) [0..<n] = (bc', b')" by fastforce
  from Suc.IH [OF this] Suc.prems show ?case
    by (auto simp: scan less_Suc_eq split: if_splits)
qed simp

lemma best_group:
  assumes "best_group counts = (bc, b)"
  shows "g < length counts \<Longrightarrow> counts ! g \<le> bc"
    and "bc > 0 \<Longrightarrow> b < length counts \<and> counts ! b = bc"
  using best_group_scan [of counts "length counts" bc b] assms by (simp_all add: best_group_def)

section \<open>Grouping by an equivalence\<close>

text \<open>The responses that are there.\<close>

fun somes :: "'a option list \<Rightarrow> 'a list" where
  "somes [] = []"
| "somes (None # rs) = somes rs"
| "somes (Some b # rs) = b # somes rs"

lemma somes_append [simp]: "somes (xs @ ys) = somes xs @ somes ys"
  by (induction xs rule: somes.induct) simp_all

lemma set_somes: "x \<in> set (somes rs) \<longleftrightarrow> Some x \<in> set rs"
  by (induction rs rule: somes.induct) auto

lemma successful_responses: "successful_responses rs = length (somes rs)"
  by (induction rs rule: somes.induct) (simp_all add: successful_responses_def)

lemma somes_map_Some [simp]: "somes (map Some xs) = xs"
  by (induction xs) simp_all

text \<open>How many responses agree with a value.\<close>

definition votes :: "(bytes \<Rightarrow> bytes \<Rightarrow> bool) \<Rightarrow> bytes option list \<Rightarrow> bytes \<Rightarrow> nat" where
  "votes eq rs b = length (filter (eq b) (somes rs))"

text \<open>The interface to the comparison callback: it is an equivalence on the buffers.\<close>

locale comparison =
  fixes eq :: "bytes \<Rightarrow> bytes \<Rightarrow> bool"
  assumes equivalence: "equivp eq"
begin

lemma eq_refl: "eq a a" and eq_sym: "eq a b \<Longrightarrow> eq b a" and eq_trans: "eq a b \<Longrightarrow> eq b c \<Longrightarrow> eq a c"
  using equivalence by (auto elim: equivpE reflpE dest: sympD transpD)

definition grouped :: "(bytes \<times> nat) option list \<Rightarrow> nat list \<Rightarrow> bool" where
  "grouped placed counts \<longleftrightarrow>
    (\<forall>(b, g) \<in> set (somes placed). g < length counts) \<and>
    (\<forall>(b, g) \<in> set (somes placed). \<forall>(b', g') \<in> set (somes placed). eq b b' \<longleftrightarrow> g = g') \<and>
    (\<forall>g < length counts. counts ! g = length (filter (\<lambda>(b, g'). g' = g) (somes placed)))"

lemma grouped_None [simp]: "grouped (placed @ [None]) counts = grouped placed counts"
  by (simp add: grouped_def)

lemma grouped_new:
  assumes "grouped placed counts" "\<forall>(b', g) \<in> set (somes placed). \<not> eq b b'"
  shows "grouped (placed @ [Some (b, length counts)]) (counts @ [1])"
proof -
  have empty: "filter (\<lambda>(b, g'). g' = length counts) (somes placed) = []"
    using assms(1) by (fastforce simp: grouped_def filter_empty_conv)
  have new: "\<not> eq b c" "\<not> eq c b" "k < length counts" if "(c, k) \<in> set (somes placed)" for c k
    using that assms eq_sym by (auto simp: grouped_def)
  show ?thesis
    using assms(1) new unfolding grouped_def
    by (auto simp: nth_append less_Suc_eq empty eq_refl split: prod.splits)
qed

lemma grouped_join:
  assumes "grouped placed counts" "(b', g) \<in> set (somes placed)" "eq b b'"
  shows "grouped (placed @ [Some (b, g)]) (counts[g := counts ! g + 1])"
proof -
  have same: "eq b c \<longleftrightarrow> g = k" if "(c, k) \<in> set (somes placed)" for c k
  proof -
    have "eq b' c \<longleftrightarrow> g = k" using assms(1,2) that by (auto simp: grouped_def)
    then show ?thesis using assms(3) eq_sym eq_trans by blast
  qed
  then have same': "eq c b \<longleftrightarrow> k = g" if "(c, k) \<in> set (somes placed)" for c k
    using that eq_sym by blast
  show ?thesis
    using assms(1,2) same same' unfolding grouped_def
    by (auto simp: nth_list_update eq_refl split: prod.splits)
qed

lemma place_grouped:
  assumes "grouped placed counts" "place_response eq (placed, counts) r = (placed', counts')"
  shows "grouped placed' counts' \<and> map fst (somes placed') = map fst (somes placed) @ somes [r]"
proof (cases r)
  case None
  with assms have "placed' = placed @ [None]" "counts' = counts" by auto
  with assms None show ?thesis by simp
next
  case (Some b)
  let ?P = "\<lambda>p. case p of None \<Rightarrow> False | Some (b', _) \<Rightarrow> eq b b'"
  show ?thesis
  proof (cases "List.find ?P placed")
    case None
    then have "\<forall>(b', g) \<in> set (somes placed). \<not> eq b b'"
      by (fastforce simp: find_None_iff_all set_somes)
    with grouped_new [OF assms(1)] assms(2) None Some show ?thesis by auto
  next
    case (Some p)
    with \<open>r = Some b\<close> obtain b' g where p: "p = Some (b', g)" "eq b b'" "(b', g) \<in> set (somes placed)"
      by (cases p) (auto dest!: find_SomeD simp: set_somes)
    with grouped_join [OF assms(1) p(3,2)] assms(2) Some \<open>r = Some b\<close> show ?thesis by auto
  qed
qed

lemma foldl_grouped:
  "grouped placed counts \<Longrightarrow> foldl (place_response eq) (placed, counts) rs = (placed', counts') \<Longrightarrow>
    grouped placed' counts' \<and> map fst (somes placed') = map fst (somes placed) @ somes rs"
proof (induction rs arbitrary: placed counts)
  case (Cons r rs)
  obtain pl co where step: "place_response eq (placed, counts) r = (pl, co)" by fastforce
  with place_grouped [OF Cons.prems(1) step] Cons.IH [of pl co] Cons.prems(2)
  show ?case by (cases r) auto
qed simp

lemma grouping:
  assumes "voter_group_matching_responses eq rs = (placed, counts)"
  shows "grouped placed counts" "map fst (somes placed) = somes rs"
  using foldl_grouped [of "[]" "[]" rs placed counts] assms
  by (auto simp: voter_group_matching_responses_def grouped_def)

lemma group_size:
  assumes "voter_group_matching_responses eq rs = (placed, counts)" "(b, g) \<in> set (somes placed)"
  shows "g < length counts \<and> counts ! g = votes eq rs b"
proof -
  note gr = grouping [OF assms(1)]
  have "filter (\<lambda>(b, g'). g' = g) (somes placed) = filter (\<lambda>(c, _). eq b c) (somes placed)"
    using gr(1) assms(2) by (intro filter_cong) (auto simp: grouped_def)
  then have "length (filter (\<lambda>(b, g'). g' = g) (somes placed)) =
      length (filter (eq b) (map fst (somes placed)))"
    by (simp add: filter_map comp_def case_prod_unfold)
  with gr assms(2) show ?thesis by (auto simp: grouped_def votes_def)
qed

text \<open>The outcome of a round, in terms of the number of votes for a value.\<close>

theorem vote_outcome:
  assumes "voter_group_matching_responses eq rs = (placed, counts)"
    and "best_group counts = (bc, best)"
  shows "b \<in> set (somes rs) \<Longrightarrow> votes eq rs b \<le> bc"
    and "0 < bc \<Longrightarrow> \<exists>b. first_of_group placed best = Some b \<and> b \<in> set (somes rs) \<and> votes eq rs b = bc"
proof -
  note gr = grouping [OF assms(1)]
  {
    assume "b \<in> set (somes rs)"
    then obtain g where "(b, g) \<in> set (somes placed)" unfolding gr(2) [symmetric] by auto
    with group_size [OF assms(1)] best_group(1) [OF assms(2)] show "votes eq rs b \<le> bc" by fastforce
  next
    assume "0 < bc"
    with best_group(2) [OF assms(2)] have best: "best < length counts" "counts ! best = bc" by auto
    with gr(1) \<open>0 < bc\<close> have "filter (\<lambda>(b, g'). g' = best) (somes placed) \<noteq> []"
      by (auto simp: grouped_def)
    then obtain c where c: "Some (c, best) \<in> set placed"
      by (auto simp: filter_empty_conv set_somes)
    let ?P = "\<lambda>p. case p of None \<Rightarrow> False | Some (_, g') \<Rightarrow> g' = best"
    obtain p where p: "List.find ?P placed = Some p"
      using c by (cases "List.find ?P placed") (auto simp: find_None_iff_all)
    then obtain b where b: "p = Some (b, best)" "(b, best) \<in> set (somes placed)"
      by (cases p) (auto dest!: find_SomeD simp: set_somes)
    moreover have "b \<in> set (somes rs)" unfolding gr(2) [symmetric] using b(2) by force
    ultimately show "\<exists>b. first_of_group placed best = Some b \<and> b \<in> set (somes rs) \<and> votes eq rs b = bc"
      using p best group_size [OF assms(1) b(2)] by (auto simp: first_of_group_def)
  }
qed

end

text \<open>Without a comparison callback the voter compares bytes.\<close>

lemma default_equal: "vc_compare (vo_config v) = None \<Longrightarrow>
    voter_data_equal v n = (\<lambda>a b. take n a = take n b)"
  by (intro ext) (simp add: voter_data_equal_def)

interpretation bytewise: comparison "\<lambda>a b. take n a = take n b" for n
  by unfold_locales (auto intro!: equivpI reflpI sympI transpI)

section \<open>Rounds\<close>

text \<open>A live voter, a legal message size and the right number of buffers.\<close>

definition voter_live :: "'x rte_voter \<Rightarrow> nat \<Rightarrow> nat \<Rightarrow> bool" where
  "voter_live v n channel_count \<longleftrightarrow> vo_initialized v \<and> 0 < n \<and> n \<le> VOTER_MAX_MESSAGE_SIZE \<and>
     voter_channel_count_matches_strategy v channel_count"

lemma live_quorum_pos: "voter_live v n k \<Longrightarrow> 1 \<le> voter_required_quorum v"
  by (auto simp: voter_live_def voter_required_quorum_def word_le_nat_alt
      split: rte_voting_strategy.splits)

lemma live_quorum_le: "voter_live v n k \<Longrightarrow> voter_required_quorum v \<le> k"
  by (auto simp: voter_live_def voter_required_quorum_def split: rte_voting_strategy.splits)

text \<open>The end of a round, from the responses.\<close>

definition voter_conclude ::
  "'x rte_voter \<Rightarrow> nat \<Rightarrow> bytes \<Rightarrow> bytes option list \<Rightarrow> 'x chan_mem \<Rightarrow> 'x rte \<Rightarrow>
    (vote_out, 'x vote_state) run" where
  "voter_conclude v n d rs mem s =
    (let (placed, counts) = voter_group_matching_responses (voter_data_equal v n) rs;
         (bc, best) = best_group counts
     in if bc \<ge> voter_required_quorum v
        then Returned (STATUS_OK, Some (case first_of_group placed best of None \<Rightarrow> d
               | Some b \<Rightarrow> copy_at 0 (take n b) d), Some VOTING_AGREED, Some n) (Some v, mem, s)
        else map_run_value (\<lambda>_. (STATUS_HARDWARE_FAULT, Some d, Some VOTING_DISAGREED, Some 0))
               (voter_disagreed ''channels disagreed'' v mem s))"

definition voter_gives_up ::
  "'x rte_voter \<Rightarrow> bytes \<Rightarrow> rte_voting_result \<Rightarrow> 'x chan_mem \<Rightarrow> 'x rte \<Rightarrow>
    (vote_out, 'x vote_state) run" where
  "voter_gives_up v d r mem s =
    Returned (STATUS_HARDWARE_FAULT, Some d, Some r, Some 0)
      (Some v, mem, call_on_disagreement v r s)"

lemma receive_few_healthy:
  assumes "voter_live v n (length (vo_channels v))"
    and "voter_count_healthy v mem < voter_required_quorum v"
  shows "rte_voter_receive stack (Some v) (Some d) n mem s =
    voter_gives_up v d VOTING_INSUFFICIENT_QUORUM mem s"
  using assms by (simp add: rte_voter_receive_def voter_live_def voter_gives_up_def Let_def)

lemma receive_round:
  assumes "voter_live v n (length (vo_channels v))"
    and "voter_required_quorum v \<le> voter_count_healthy v mem"
    and "voter_receive_from_healthy_channels (vo_channels v) 0 stack n
           (vc_channel_timeout_ms (vo_config v)) False mem s = (rs, tm, mem1, s1)"
  shows "rte_voter_receive stack (Some v) (Some d) n mem s =
    (if length (somes rs) = 0
     then voter_gives_up v d (if tm then VOTING_TIMEOUT else VOTING_INSUFFICIENT_QUORUM) mem1 s1
     else if length (somes rs) < voter_required_quorum v
     then voter_gives_up v d VOTING_INSUFFICIENT_QUORUM mem1 s1
     else voter_conclude v n d rs mem1 s1)"
proof -
  obtain placed counts where gr:
    "voter_group_matching_responses (voter_data_equal v n) rs = (placed, counts)" by fastforce
  obtain bc best where bg: "best_group counts = (bc, best)" by fastforce
  show ?thesis
    using assms gr bg
    by (simp add: rte_voter_receive_def voter_live_def voter_gives_up_def Let_def
        successful_responses voter_conclude_def)
qed

lemma conclude_cases:
  assumes "equivp (voter_data_equal v n)" "1 \<le> voter_required_quorum v"
  defines "eq \<equiv> voter_data_equal v n"
  shows "(\<exists>b \<in> set (somes rs). voter_required_quorum v \<le> votes eq rs b \<and>
      (\<forall>c \<in> set (somes rs). votes eq rs c \<le> votes eq rs b) \<and>
      voter_conclude v n d rs mem s =
        Returned (STATUS_OK, Some (copy_at 0 (take n b) d), Some VOTING_AGREED, Some n)
          (Some v, mem, s))
    \<or> ((\<forall>b \<in> set (somes rs). votes eq rs b < voter_required_quorum v) \<and>
      voter_conclude v n d rs mem s =
        map_run_value (\<lambda>_. (STATUS_HARDWARE_FAULT, Some d, Some VOTING_DISAGREED, Some 0))
          (voter_disagreed ''channels disagreed'' v mem s))"
proof -
  have cmp: "comparison eq" using assms(1) by (simp add: comparison_def eq_def)
  obtain placed counts where gr: "voter_group_matching_responses eq rs = (placed, counts)"
    by fastforce
  obtain bc best where bg: "best_group counts = (bc, best)" by fastforce
  note out = comparison.vote_outcome [OF cmp gr bg]
  show ?thesis
  proof (cases "voter_required_quorum v \<le> bc")
    case True
    with out(2) assms(2) obtain b where
      "first_of_group placed best = Some b" "b \<in> set (somes rs)" "votes eq rs b = bc" by auto
    with True gr bg out(1) show ?thesis
      by (intro disjI1 bexI [of _ b]) (auto simp: voter_conclude_def eq_def)
  next
    case False
    with out(1) have "\<forall>b \<in> set (somes rs). votes eq rs b < voter_required_quorum v" by fastforce
    with False gr bg show ?thesis by (auto simp: voter_conclude_def eq_def)
  qed
qed

text \<open>The buffer vote is a round in which every channel has responded.\<close>

lemma vote_buffers_round:
  assumes "voter_live v n (length bs)" "length bs \<le> VOTER_MAX_CHANNELS"
    and "voter_group_matching_responses (voter_data_equal v n) (map Some (map (take n) bs)) =
      (placed, counts)"
    and "best_group counts = (bc, best)"
  shows "rte_voter_vote_buffers (Some v) (Some (map Some bs)) n out mem s =
    (if bc \<ge> voter_required_quorum v
     then Returned (STATUS_OK,
            (case (out, first_of_group placed best) of
               (Some d, Some b) \<Rightarrow> Some (copy_at 0 (take n b) d) | _ \<Rightarrow> out),
            Some VOTING_AGREED, Some n) (Some v, mem, s)
     else map_run_value (\<lambda>_. (STATUS_HARDWARE_FAULT, out, Some VOTING_DISAGREED, Some 0))
            (voter_disagreed ''channels disagreed (buffers)'' v mem s))"
proof -
  have "map (map_option (take n)) (map Some bs) = map Some (map (take n) bs)" by simp
  moreover have "None \<notin> set (map Some bs)" by auto
  ultimately show ?thesis
    using assms by (simp add: rte_voter_vote_buffers_def voter_live_def Let_def del: map_map)
qed

text \<open>How many buffers start with the same \<open>n\<close> bytes as \<open>b\<close>.\<close>

definition tally :: "nat \<Rightarrow> bytes list \<Rightarrow> bytes \<Rightarrow> nat" where
  "tally n bs b = length (filter (\<lambda>c. take n b = take n c) bs)"

lemma votes_tally: "votes (\<lambda>a b. take n a = take n b) rs b = tally n (somes rs) b"
  by (simp add: votes_def tally_def)

lemma bytewise_equiv: "vc_compare (vo_config v) = None \<Longrightarrow> equivp (voter_data_equal v n)"
  using bytewise.equivalence by (simp add: default_equal)

lemma majority_overlap:
  assumes "length rs < tally n rs a + tally n rs b"
  shows "take n a = take n b"
proof (rule ccontr)
  assume "take n a \<noteq> take n b"
  then have "filter (\<lambda>c. take n a = take n c) rs = filter (\<lambda>c. take n a = take n c)
      (filter (\<lambda>c. take n b \<noteq> take n c) rs)"
    unfolding filter_filter by (intro filter_cong) auto
  then have "tally n rs a \<le> length (filter (\<lambda>c. take n b \<noteq> take n c) rs)"
    unfolding tally_def by (metis length_filter_le)
  moreover have "tally n rs b + length (filter (\<lambda>c. take n b \<noteq> take n c) rs) = length rs"
    unfolding tally_def by (rule sum_length_filter_compl)
  ultimately show False using assms by simp
qed

section \<open>Disagreement\<close>

lemma disagreed_halts:
  "returns (voter_disagreed msg v mem s) \<longleftrightarrow> vc_safestate_level (vo_config v) = LEVEL_DEGRADED"
  by (cases "vc_safestate_level (vo_config v)")
    (simp_all add: voter_disagreed_def rte_safestate_enter_def Let_def)

lemma disagreed_counts:
  "\<exists>s'. run_state (voter_disagreed msg v mem s) =
    (Some (v\<lparr>vo_total_disagreements := vo_total_disagreements v + 1\<rparr>), mem, s')"
  by (simp add: voter_disagreed_def Let_def split: run.split)

section \<open>A channel that delivers a value\<close>

text \<open>
  An initialised and healthy channel whose callback returns OK with a message of \<open>n\<close> bytes that
  is \<open>b\<close>: in every state of the platform that satisfies \<open>P\<close>, into every buffer that satisfies
  \<open>B\<close>.
\<close>

definition delivers_in ::
  "('x rte \<Rightarrow> bool) \<Rightarrow> (bytes \<Rightarrow> bool) \<Rightarrow> 'x rte_channel \<Rightarrow> nat \<Rightarrow> bytes \<Rightarrow> bool" where
  "delivers_in P B c n b \<longleftrightarrow> ch_initialized c \<and> ch_is_healthy (ch_health c) \<and> length b = n \<and>
    (\<forall>buf t s. P s \<longrightarrow> B buf \<longrightarrow> (\<exists>s'. ch_recv c (ch_handle c) buf t s = (STATUS_OK, b, s')))"

text \<open>No restriction on the state or the buffer.\<close>

definition delivers :: "'x rte_channel \<Rightarrow> nat \<Rightarrow> bytes \<Rightarrow> bool" where
  "delivers c n b \<longleftrightarrow> ch_initialized c \<and> ch_is_healthy (ch_health c) \<and> length b = n \<and>
    (\<forall>buf t s. \<exists>s'. ch_recv c (ch_handle c) buf t s = (STATUS_OK, b, s'))"

lemma delivers_everywhere: "delivers c n b = delivers_in (\<lambda>_. True) (\<lambda>_. True) c n b"
  by (simp add: delivers_def delivers_in_def)

text \<open>A receive from the channel leaves the platform in a state that satisfies \<open>P\<close>.\<close>

definition keeps_state :: "('x rte \<Rightarrow> bool) \<Rightarrow> 'x rte_channel \<Rightarrow> bool" where
  "keeps_state P c \<longleftrightarrow> (\<forall>buf t s st d s'. P s \<longrightarrow> ch_recv c (ch_handle c) buf t s = (st, d, s') \<longrightarrow> P s')"

lemma keeps_everything [simp]: "keeps_state (\<lambda>_. True) c"
  by (simp add: keeps_state_def)

lemma receive_delivers:
  assumes "delivers_in P B (mem p) n b" "0 < n" "P s" "B (take n buf)"
    and "rte_channel_receive (Some p) (Some buf) n t mem s = (st, out, mem', s')"
  shows "st = STATUS_OK \<and> out = Some (b @ drop n buf)"
proof -
  from assms(1,3,4) obtain s1 where
    "ch_recv (mem p) (ch_handle (mem p)) (take n buf) t s = (STATUS_OK, b, s1)"
    unfolding delivers_in_def by blast
  with assms show ?thesis by (simp add: rte_channel_receive_def delivers_in_def)
qed

lemma receive_keeps_delivers:
  "rte_channel_receive (Some p) (Some buf) n t mem s = (st, out, mem', s') \<Longrightarrow>
    delivers_in P B (mem' q) k b = delivers_in P B (mem q) k b \<and>
    keeps_state P (mem' q) = keeps_state P (mem q)"
  by (auto simp: rte_channel_receive_def delivers_in_def keeps_state_def split: prod.splits if_splits)

lemma receive_keeps_state:
  assumes "rte_channel_receive (Some p) (Some buf) n t mem s = (st, out, mem', s')"
    and "keeps_state P (mem p)" "P s"
  shows "P s'"
proof -
  obtain st1 d s1 where r: "ch_recv (mem p) (ch_handle (mem p)) (take n buf) t s = (st1, d, s1)"
    by (metis prod_cases3)
  then have "P s1" using assms(2,3) unfolding keeps_state_def by blast
  then show ?thesis using assms(1,3) r by (auto simp: rte_channel_receive_def split: if_splits)
qed

lemma loop_delivers:
  assumes "voter_receive_from_healthy_channels ps i stack n t tm0 mem s = (rs, tm, mem', s')"
    and "0 < n" "P s" "\<And>k. B (take n (stack k))" "\<forall>p \<in> set ps. keeps_state P (mem p)"
  shows "length rs = length ps \<and>
    (\<forall>k < length ps. delivers_in P B (mem (ps ! k)) n b \<longrightarrow> (\<exists>r. rs ! k = Some r \<and> take n r = b))"
  using assms(1,3,5)
proof (induction ps arbitrary: i tm0 mem s rs)
  case (Cons p ps)
  show ?case
  proof (cases "channel_healthy mem p")
    case False
    with Cons.prems(1) obtain rs' where
      "voter_receive_from_healthy_channels ps (i + 1) stack n t tm0 mem s = (rs', tm, mem', s')"
      "rs = None # rs'" by (auto split: prod.splits)
    with Cons.IH [OF this(1)] Cons.prems(2,3) False show ?thesis
      by (auto simp: nth_Cons' delivers_in_def less_Suc_eq_0_disj)
  next
    case True
    obtain st buf mem1 s1 where rcv:
      "rte_channel_receive (Some p) (Some (stack i)) n t mem s = (st, buf, mem1, s1)"
      by (metis prod_cases4)
    with True Cons.prems(1) obtain rs' where rs:
      "voter_receive_from_healthy_channels ps (i + 1) stack n t (tm0 \<or> st = STATUS_TIMEOUT) mem1 s1 =
        (rs', tm, mem', s')"
      "rs = (if st = STATUS_OK then buf else None) # rs'"
      by (auto split: prod.splits)
    have head: "\<exists>r. hd rs = Some r \<and> take n r = b" if "delivers_in P B (mem p) n b"
      using receive_delivers [OF that assms(2) Cons.prems(2) assms(4) rcv] that rs(2)
      by (auto simp: delivers_in_def)
    have "P s1"
      using receive_keeps_state [where P = P, OF rcv _ Cons.prems(2)] Cons.prems(3) by simp
    moreover have "\<forall>p \<in> set ps. keeps_state P (mem1 p)"
      using Cons.prems(3) receive_keeps_delivers [OF rcv] by simp
    ultimately show ?thesis
      using Cons.IH [OF rs(1)] rs(2) head
      by (auto simp: receive_keeps_delivers [OF rcv] nth_Cons' less_Suc_eq_0_disj)
  qed
qed simp

lemma tally_two:
  assumes "i \<noteq> j" "i < length rs" "j < length rs"
    and "rs ! i = Some x" "rs ! j = Some y" "take n x = b" "take n y = b" "length b = n"
  shows "2 \<le> tally n (somes rs) b"
proof -
  have "length (filter (\<lambda>c. take n b = take n c) (somes rs)) =
      length (filter (\<lambda>r. \<exists>c. r = Some c \<and> take n b = take n c) rs)"
    by (induction rs rule: somes.induct) auto
  also have "\<dots> = card {k. k < length rs \<and> (\<exists>c. rs ! k = Some c \<and> take n b = take n c)}"
    by (rule length_filter_conv_card)
  also have "card {i, j} \<le> \<dots>"
    using assms by (intro card_mono) auto
  finally show ?thesis using assms(1) by (simp add: tally_def)
qed

lemma healthy_two:
  assumes "i \<noteq> j" "i < length ps" "j < length ps"
    and "channel_healthy mem (ps ! i)" "channel_healthy mem (ps ! j)"
  shows "2 \<le> length (filter (channel_healthy mem) ps)"
proof -
  have "card {i, j} \<le> card {k. k < length ps \<and> channel_healthy mem (ps ! k)}"
    using assms by (intro card_mono) auto
  then show ?thesis using assms(1) by (simp add: length_filter_conv_card)
qed

lemma two_of_three_in:
  assumes "vc_voting_strategy (vo_config v) = VOTING_2OO3" "vc_compare (vo_config v) = None"
    and "vo_initialized v" "length (vo_channels v) = 3" "0 < n" "n \<le> VOTER_MAX_MESSAGE_SIZE"
    and "i < 3" "j < 3" "i \<noteq> j"
    and "delivers_in P B (mem (vo_channels v ! i)) n b" "delivers_in P B (mem (vo_channels v ! j)) n b"
    and "P s" "\<And>k. B (take n (stack k))" "\<forall>p \<in> set (vo_channels v). keeps_state P (mem p)"
  shows "\<exists>mem' s'. rte_voter_receive stack (Some v) (Some d) n mem s =
    Returned (STATUS_OK, Some (copy_at 0 b d), Some VOTING_AGREED, Some n) (Some v, mem', s')"
proof -
  have q: "voter_required_quorum v = 2" using assms(1) by (simp add: voter_required_quorum_def)
  have live: "voter_live v n (length (vo_channels v))"
    using assms by (simp add: voter_live_def)
  have healthy: "voter_required_quorum v \<le> voter_count_healthy v mem"
    using healthy_two [of i j "vo_channels v" mem] assms
    by (simp add: q voter_count_healthy_def delivers_in_def)
  obtain rs tm mem' s' where loop: "voter_receive_from_healthy_channels (vo_channels v) 0 stack n
      (vc_channel_timeout_ms (vo_config v)) False mem s = (rs, tm, mem', s')"
    by (metis prod_cases4)
  note all = loop_delivers [where P = P and B = B, OF loop assms(5,12,13,14), of b]
  obtain x where x: "rs ! i = Some x" "take n x = b" using all assms(4,7,10) by auto
  obtain y where y: "rs ! j = Some y" "take n y = b" using all assms(4,8,11) by auto
  have rs: "length rs = 3" "rs ! i = Some x" "rs ! j = Some y" "take n x = b" "take n y = b"
    using all assms(4) x y by simp_all
  have b: "length b = n" using assms(10) by (simp add: delivers_in_def)
  have two: "2 \<le> tally n (somes rs) b"
    using tally_two [of i j rs x y n b] rs assms(7-9) b by simp
  then have len: "2 \<le> length (somes rs)"
    unfolding tally_def using length_filter_le le_trans by blast
  have "length (somes rs) \<le> 3"
    using rs(1) successful_responses [of rs] length_filter_le [of "\<lambda>r. r \<noteq> None" rs]
    by (simp add: successful_responses_def)
  moreover have "x \<in> set (somes rs)" using rs assms(7) by (metis nth_mem set_somes)
  ultimately have win: "take n c = b" if "2 \<le> tally n (somes rs) c" for c
    using majority_overlap [of "somes rs" n c b] two that b by auto
  have "tally n (somes rs) x = tally n (somes rs) b" using rs(4) b by (simp add: tally_def)
  with two have "\<not> tally n (somes rs) x < 2" by simp
  moreover note conclude_cases [OF bytewise_equiv [OF assms(2)] live_quorum_pos [OF live],
      where n = n and rs = rs and d = d and mem = mem' and s = s',
      unfolded q default_equal [OF assms(2)] votes_tally]
  ultimately obtain c where c: "2 \<le> tally n (somes rs) c" "voter_conclude v n d rs mem' s' =
      Returned (STATUS_OK, Some (copy_at 0 (take n c) d), Some VOTING_AGREED, Some n) (Some v, mem', s')"
    using \<open>x \<in> set (somes rs)\<close> by blast
  have "rte_voter_receive stack (Some v) (Some d) n mem s = voter_conclude v n d rs mem' s'"
    using receive_round [OF live healthy loop, of d] len by (auto simp: q)
  then show ?thesis using c(2) win [OF c(1)] by simp
qed

lemma two_of_three:
  assumes "vc_voting_strategy (vo_config v) = VOTING_2OO3" "vc_compare (vo_config v) = None"
    and "vo_initialized v" "length (vo_channels v) = 3" "0 < n" "n \<le> VOTER_MAX_MESSAGE_SIZE"
    and "i < 3" "j < 3" "i \<noteq> j"
    and "delivers (mem (vo_channels v ! i)) n b" "delivers (mem (vo_channels v ! j)) n b"
  shows "\<exists>mem' s'. rte_voter_receive stack (Some v) (Some d) n mem s =
    Returned (STATUS_OK, Some (copy_at 0 b d), Some VOTING_AGREED, Some n) (Some v, mem', s')"
  by (rule two_of_three_in [where P = "\<lambda>_. True" and B = "\<lambda>_. True", OF assms(1-9) assms(10,11) [unfolded delivers_everywhere]]) simp_all

section \<open>Properties\<close>

text \<open>C18. A 2-out-of-3 voter masks one faulty channel: if two of its three channels are healthy
  and deliver the same message, a receive returns OK with that message, whatever the third
  channel is, does or answers.\<close>

theorem two_of_three_masks_one_fault:
  assumes "vc_voting_strategy (vo_config v) = VOTING_2OO3" "vc_compare (vo_config v) = None"
    and "vo_initialized v" "length (vo_channels v) = 3" "0 < n" "n \<le> VOTER_MAX_MESSAGE_SIZE"
    and "i < 3" "j < 3" "i \<noteq> j"
    and "delivers (mem (vo_channels v ! i)) n b" "delivers (mem (vo_channels v ! j)) n b"
  shows "\<exists>mem' s'. rte_voter_receive stack (Some v) (Some d) n mem s =
    Returned (STATUS_OK, Some (copy_at 0 b d), Some VOTING_AGREED, Some n) (Some v, mem', s')"
  using assms by (rule two_of_three)

definition sample_channel :: "bytes \<Rightarrow> unit rte_channel" where
  "sample_channel b = \<lparr>ch_handle = None, ch_send = (\<lambda>_ _ s. (STATUS_OK, s)),
     ch_recv = (\<lambda>_ _ _ s. (STATUS_OK, b, s)), ch_name = None,
     ch_health = \<lparr>ch_send_count = 0, ch_send_error_count = 0, ch_receive_count = 0,
       ch_receive_error_count = 0, ch_is_healthy = True, ch_last_error = STATUS_OK\<rparr>,
     ch_initialized = True\<rparr>"

definition sample_voter :: "rte_safestate_level \<Rightarrow> unit rte_voter" where
  "sample_voter level = \<lparr>vo_config = \<lparr>vc_voting_strategy = VOTING_2OO3, vc_quorum_size = 0,
       vc_channel_timeout_ms = 10, vc_compare = None, vc_compare_context = None,
       vc_log_disagreements = True, vc_safestate_level = level, vc_safestate_reason = 7,
       vc_on_disagreement = None, vc_disagreement_context = None\<rparr>,
     vo_channels = [0, 1, 2], vo_total_disagreements = 0, vo_initialized = True\<rparr>"

definition sample_mem :: "nat \<Rightarrow> unit rte_channel" where
  "sample_mem p = sample_channel (if p = 1 then [9, 9] else [1, 2])"

theorem two_of_three_masks_one_fault_witness:
  "\<exists>mem' s'. rte_voter_receive (\<lambda>_. [0, 0]) (Some (sample_voter LEVEL_SAFE)) (Some [0, 0]) 2
      sample_mem (initial_rte ()) =
    Returned (STATUS_OK, Some (copy_at 0 [1, 2] [0, 0]), Some VOTING_AGREED, Some 2)
      (Some (sample_voter LEVEL_SAFE), mem', s')"
  by (rule two_of_three_masks_one_fault [where i = 0 and j = 2])
    (simp_all add: sample_voter_def sample_mem_def sample_channel_def delivers_def
      VOTER_MAX_MESSAGE_SIZE_def)

text \<open>C20. A receive returns OK only with a quorum: the voter is live, at least the required
  number of its channels were healthy, and the message handed out is the one that at least the
  required number of channels answered with in this round, compared byte by byte.\<close>

theorem receive_ok_has_quorum:
  assumes "rte_voter_receive stack (Some v) (Some d) n mem s = Returned (STATUS_OK, out, r, k) st"
    and "vc_compare (vo_config v) = None"
  shows "voter_live v n (length (vo_channels v)) \<and>
    voter_required_quorum v \<le> voter_count_healthy v mem \<and>
    (\<exists>rs tm mem' s' b.
      voter_receive_from_healthy_channels (vo_channels v) 0 stack n
        (vc_channel_timeout_ms (vo_config v)) False mem s = (rs, tm, mem', s') \<and>
      b \<in> set (somes rs) \<and> voter_required_quorum v \<le> tally n (somes rs) b \<and>
      out = Some (copy_at 0 (take n b) d) \<and> r = Some VOTING_AGREED \<and> k = Some n)"
proof -
  have live: "voter_live v n (length (vo_channels v))"
    using assms(1) by (auto simp: rte_voter_receive_def voter_live_def Let_def split: if_splits)
  have enough: "voter_required_quorum v \<le> voter_count_healthy v mem"
    using assms(1) receive_few_healthy [OF live, of mem stack d s]
    by (cases "voter_count_healthy v mem < voter_required_quorum v")
      (auto simp: voter_gives_up_def)
  obtain rs tm mem' s' where loop: "voter_receive_from_healthy_channels (vo_channels v) 0 stack n
      (vc_channel_timeout_ms (vo_config v)) False mem s = (rs, tm, mem', s')"
    by (metis prod_cases4)
  have "voter_conclude v n d rs mem' s' = Returned (STATUS_OK, out, r, k) st"
    using assms(1) receive_round [OF live enough loop, of d]
    by (auto simp: voter_gives_up_def split: if_splits)
  moreover have "map_run_value (\<lambda>_. (STATUS_HARDWARE_FAULT, Some d, Some VOTING_DISAGREED, Some 0))
      (voter_disagreed ''channels disagreed'' v mem' s') \<noteq> Returned (STATUS_OK, out, r, k) st"
    by (cases "voter_disagreed ''channels disagreed'' v mem' s'") simp_all
  ultimately obtain b where "b \<in> set (somes rs)" "voter_required_quorum v \<le> tally n (somes rs) b"
    "out = Some (copy_at 0 (take n b) d)" "r = Some VOTING_AGREED" "k = Some n"
    using conclude_cases [OF bytewise_equiv [OF assms(2)] live_quorum_pos [OF live], where n = n and rs = rs and d = d and mem = mem' and s = s']
    by (auto simp: default_equal [OF assms(2)] votes_tally)
  with live enough loop show ?thesis by blast
qed

lemma sample_round:
  "\<exists>st. rte_voter_receive (\<lambda>_. [0, 0]) (Some (sample_voter LEVEL_SAFE)) (Some [0, 0]) 2
      sample_mem (initial_rte ()) = Returned (STATUS_OK, Some [1, 2], Some VOTING_AGREED, Some 2) st"
proof -
  have "\<exists>mem' s'. rte_voter_receive (\<lambda>_. [0, 0]) (Some (sample_voter LEVEL_SAFE)) (Some [0, 0]) 2
      sample_mem (initial_rte ()) = Returned (STATUS_OK, Some (copy_at 0 [1, 2] [0, 0]),
        Some VOTING_AGREED, Some 2) (Some (sample_voter LEVEL_SAFE), mem', s')"
    by (rule two_of_three [where i = 0 and j = 2])
      (simp_all add: sample_voter_def sample_mem_def sample_channel_def delivers_def
        VOTER_MAX_MESSAGE_SIZE_def)
  then show ?thesis by (auto simp: copy_at_def)
qed

theorem receive_ok_has_quorum_witness:
  "voter_required_quorum (sample_voter LEVEL_SAFE) \<le> voter_count_healthy (sample_voter LEVEL_SAFE) sample_mem"
proof -
  obtain st where "rte_voter_receive (\<lambda>_. [0, 0]) (Some (sample_voter LEVEL_SAFE)) (Some [0, 0]) 2
      sample_mem (initial_rte ()) = Returned (STATUS_OK, Some [1, 2], Some VOTING_AGREED, Some 2) st"
    using sample_round by blast
  from receive_ok_has_quorum [OF this] show ?thesis by (simp add: sample_voter_def)
qed

text \<open>The buffer vote decides by plurality with a quorum: it returns OK, with a message that
  no other one outnumbers, exactly when some message is shared by at least the required number
  of buffers. Otherwise it reports a disagreement and changes no output but the count.\<close>

theorem vote_buffers_decides:
  assumes "voter_live v n (length bs)" "length bs \<le> VOTER_MAX_CHANNELS"
    and "vc_compare (vo_config v) = None"
  shows "if \<exists>b \<in> set bs. voter_required_quorum v \<le> tally n bs b
    then \<exists>w \<in> set bs. (\<forall>c \<in> set bs. tally n bs c \<le> tally n bs w) \<and>
      voter_required_quorum v \<le> tally n bs w \<and>
      rte_voter_vote_buffers (Some v) (Some (map Some bs)) n (Some d) mem s =
        Returned (STATUS_OK, Some (copy_at 0 (take n w) d), Some VOTING_AGREED, Some n)
          (Some v, mem, s)
    else rte_voter_vote_buffers (Some v) (Some (map Some bs)) n (Some d) mem s =
      map_run_value (\<lambda>_. (STATUS_HARDWARE_FAULT, Some d, Some VOTING_DISAGREED, Some 0))
        (voter_disagreed ''channels disagreed (buffers)'' v mem s)"
proof -
  let ?rs = "map Some (map (take n) bs)"
  obtain placed counts where gr: "voter_group_matching_responses (voter_data_equal v n) ?rs =
      (placed, counts)" by fastforce
  obtain bc best where bg: "best_group counts = (bc, best)" by fastforce
  have somes: "somes ?rs = map (take n) bs" by (simp del: map_map)
  have tally: "tally n (map (take n) bs) (take n b) = tally n bs b" for b
    by (simp add: tally_def filter_map comp_def)
  note out = bytewise.vote_outcome [of n ?rs, folded default_equal [OF assms(3)], OF gr bg,
      unfolded default_equal [OF assms(3)] votes_tally somes]
  have max: "tally n bs c \<le> bc" if "c \<in> set bs" for c
    using out(1) [of "take n c"] that tally by simp
  have win: "\<exists>w \<in> set bs. first_of_group placed best = Some (take n w) \<and> tally n bs w = bc"
    if "0 < bc"
    using out(2) [OF that] tally by auto
  have pos: "1 \<le> voter_required_quorum v" by (rule live_quorum_pos [OF assms(1)])
  show ?thesis
  proof (cases "voter_required_quorum v \<le> bc")
    case True
    with pos win obtain w where
      w: "w \<in> set bs" "first_of_group placed best = Some (take n w)" "tally n bs w = bc" by auto
    with True max have "\<exists>b \<in> set bs. voter_required_quorum v \<le> tally n bs b" by auto
    moreover have "rte_voter_vote_buffers (Some v) (Some (map Some bs)) n (Some d) mem s =
      Returned (STATUS_OK, Some (copy_at 0 (take n w) d), Some VOTING_AGREED, Some n) (Some v, mem, s)"
      using vote_buffers_round [OF assms(1,2) gr bg, of "Some d" mem s] True w by simp
    ultimately show ?thesis using True max w by auto
  next
    case False
    with max have "\<not> (\<exists>b \<in> set bs. voter_required_quorum v \<le> tally n bs b)" by fastforce
    with False vote_buffers_round [OF assms(1,2) gr bg, of "Some d" mem s] show ?thesis by simp
  qed
qed

theorem vote_buffers_decides_witness:
  "if \<exists>b \<in> set [[1], [2], [1::u8]]. voter_required_quorum (sample_voter LEVEL_SAFE) \<le>
        tally 1 [[1], [2], [1]] b
    then \<exists>w \<in> set [[1], [2], [1]]. (\<forall>c \<in> set [[1], [2], [1]]. tally 1 [[1], [2], [1]] c \<le>
        tally 1 [[1], [2], [1]] w) \<and>
      voter_required_quorum (sample_voter LEVEL_SAFE) \<le> tally 1 [[1], [2], [1]] w \<and>
      rte_voter_vote_buffers (Some (sample_voter LEVEL_SAFE)) (Some (map Some [[1], [2], [1]])) 1
          (Some [0]) sample_mem (initial_rte ()) =
        Returned (STATUS_OK, Some (copy_at 0 (take 1 w) [0]), Some VOTING_AGREED, Some 1)
          (Some (sample_voter LEVEL_SAFE), sample_mem, initial_rte ())
    else rte_voter_vote_buffers (Some (sample_voter LEVEL_SAFE)) (Some (map Some [[1], [2], [1]])) 1
          (Some [0]) sample_mem (initial_rte ()) =
      map_run_value (\<lambda>_. (STATUS_HARDWARE_FAULT, Some [0], Some VOTING_DISAGREED, Some 0))
        (voter_disagreed ''channels disagreed (buffers)'' (sample_voter LEVEL_SAFE) sample_mem
          (initial_rte ()))"
  by (rule vote_buffers_decides)
    (simp_all add: voter_live_def sample_voter_def VOTER_MAX_CHANNELS_def VOTER_MAX_MESSAGE_SIZE_def)

text \<open>A disagreement is not survivable: when enough channels answer but no message reaches
  the quorum, the receive counts the disagreement and, unless the configured level is DEGRADED,
  never returns to the caller. At DEGRADED it returns the error with the caller's buffer
  untouched.\<close>

theorem disagreement_stops_the_voter:
  assumes "voter_live v n (length (vo_channels v))" "vc_compare (vo_config v) = None"
    and "voter_required_quorum v \<le> voter_count_healthy v mem"
    and "voter_receive_from_healthy_channels (vo_channels v) 0 stack n
           (vc_channel_timeout_ms (vo_config v)) False mem s = (rs, tm, mem', s')"
    and "voter_required_quorum v \<le> length (somes rs)"
    and "\<forall>b \<in> set (somes rs). tally n (somes rs) b < voter_required_quorum v"
  shows "(\<exists>s''. run_state (rte_voter_receive stack (Some v) (Some d) n mem s) =
      (Some (v\<lparr>vo_total_disagreements := vo_total_disagreements v + 1\<rparr>), mem', s'')) \<and>
    (if vc_safestate_level (vo_config v) = LEVEL_DEGRADED
     then \<exists>st. rte_voter_receive stack (Some v) (Some d) n mem s =
       Returned (STATUS_HARDWARE_FAULT, Some d, Some VOTING_DISAGREED, Some 0) st
     else \<not> returns (rte_voter_receive stack (Some v) (Some d) n mem s))"
proof -
  let ?dis = "voter_disagreed ''channels disagreed'' v mem' s'"
  have "voter_conclude v n d rs mem' s' =
      map_run_value (\<lambda>_. (STATUS_HARDWARE_FAULT, Some d, Some VOTING_DISAGREED, Some 0)) ?dis"
    using conclude_cases [OF bytewise_equiv [OF assms(2)] live_quorum_pos [OF assms(1)],
        where n = n and rs = rs and d = d and mem = mem' and s = s'] assms(6)
    by (force simp: default_equal [OF assms(2)] votes_tally)
  then have run: "rte_voter_receive stack (Some v) (Some d) n mem s =
      map_run_value (\<lambda>_. (STATUS_HARDWARE_FAULT, Some d, Some VOTING_DISAGREED, Some 0)) ?dis"
    using receive_round [OF assms(1,3,4), of d] assms(5) live_quorum_pos [OF assms(1)] by auto
  show ?thesis
    using disagreed_counts [of "''channels disagreed''" v mem' s']
      disagreed_halts [of "''channels disagreed''" v mem' s']
    unfolding run by (cases ?dis) auto
qed

definition split_mem :: "nat \<Rightarrow> unit rte_channel" where
  "split_mem p = sample_channel [of_nat p]"

theorem disagreement_stops_the_voter_witness:
  "\<not> returns (rte_voter_receive (\<lambda>_. [0]) (Some (sample_voter LEVEL_SAFE)) (Some [0]) 1
      split_mem (initial_rte ()))"
proof -
  obtain rs tm mem' s' where loop: "voter_receive_from_healthy_channels [0, 1, 2] 0 (\<lambda>_. [0]) 1 10
      False split_mem (initial_rte ()) = (rs, tm, mem', s')"
    by (metis prod_cases4)
  then have "rs = [Some [0], Some [1], Some [2]]"
    by (auto simp: rte_channel_receive_def split_mem_def sample_channel_def note_receive_def Let_def)
  with disagreement_stops_the_voter [of "sample_voter LEVEL_SAFE" 1 split_mem "\<lambda>_. [0]"
      "initial_rte ()" rs tm mem' s' "[0]"] loop
  show ?thesis
    by (simp add: voter_live_def sample_voter_def VOTER_MAX_MESSAGE_SIZE_def
        voter_required_quorum_def voter_count_healthy_def split_mem_def sample_channel_def tally_def)
qed

end
