(* ===== verification/Cross_Comparator.thy ===== *)
theory Cross_Comparator
  imports Voter
begin

text \<open>
  The pairwise comparator, \<^verbatim>\<open>src/redundancy/cross_comparator/rte_cross_comparator.c\<close>. Its
  two channel pointers are set in order by the registration, so they are a list of at most two
  addresses whose length is \<^verbatim>\<open>registered_count\<close>.
\<close>

section \<open>Data\<close>

record 'x rte_cross_comparator_config =
  xc_channel_timeout_ms :: duration_ms
  xc_compare :: "compare_fn option"
  xc_compare_context :: "nat option"
  xc_log_disagreements :: bool
  xc_safestate_level :: rte_safestate_level
  xc_safestate_reason :: safestate_reason
  xc_on_disagreement :: "'x disagreement_fn option"
  xc_disagreement_context :: "nat option"

record 'x rte_cross_comparator =
  xo_config :: "'x rte_cross_comparator_config"
  xo_channels :: "nat list"
  xo_total_disagreements :: u32
  xo_initialized :: bool

definition CROSS_COMPARATOR_MAX_MESSAGE_SIZE :: nat where
  "CROSS_COMPARATOR_MAX_MESSAGE_SIZE = 256"

type_synonym 'x compare_state = "'x rte_cross_comparator option \<times> 'x chan_mem \<times> 'x rte"

section \<open>Operations\<close>

definition cross_comparator_data_equal ::
  "'x rte_cross_comparator \<Rightarrow> bytes \<Rightarrow> bytes \<Rightarrow> nat \<Rightarrow> bool" where
  "cross_comparator_data_equal c a b n =
    (case xc_compare (xo_config c) of
       Some compare \<Rightarrow> compare a b n (xc_compare_context (xo_config c))
     | None \<Rightarrow> take n a = take n b)"

definition rte_cross_comparator_init ::
  "'x rte_cross_comparator option \<Rightarrow> 'x rte_cross_comparator_config option \<Rightarrow> 'x rte \<Rightarrow>
    rte_status \<times> 'x rte_cross_comparator option \<times> 'x rte" where
  "rte_cross_comparator_init storage config s =
    (case (storage, config) of
       (Some c, Some cfg) \<Rightarrow>
         let (status, s1) = rte_lifecycle_check_setup_allowed s in
         if status \<noteq> STATUS_OK then (status, storage, s1)
         else (STATUS_OK, Some (c\<lparr>xo_config := cfg, xo_channels := [],
                 xo_total_disagreements := 0, xo_initialized := True\<rparr>), s1)
     | _ \<Rightarrow> (STATUS_INVALID_PARAM, storage, s))"

definition rte_cross_comparator_register_channel ::
  "'x rte_cross_comparator option \<Rightarrow> nat option \<Rightarrow> 'x rte \<Rightarrow>
    rte_status \<times> 'x rte_cross_comparator option \<times> 'x rte" where
  "rte_cross_comparator_register_channel cmp channel s =
    (case (cmp, channel) of
       (Some c, Some p) \<Rightarrow>
         if \<not> xo_initialized c then (STATUS_NOT_INITIALIZED, cmp, s)
         else
           let (status, s1) = rte_lifecycle_check_setup_allowed s in
           if status \<noteq> STATUS_OK then (status, cmp, s1)
           else (case xo_channels c of
                   [] \<Rightarrow> (STATUS_OK, Some (c\<lparr>xo_channels := [p]\<rparr>), s1)
                 | [a] \<Rightarrow> (STATUS_OK, Some (c\<lparr>xo_channels := [a, p]\<rparr>), s1)
                 | _ \<Rightarrow> (STATUS_RESOURCE_EXHAUSTED, cmp, s1))
     | _ \<Rightarrow> (STATUS_INVALID_PARAM, cmp, s))"

text \<open>The shared tail of both entry points.\<close>

definition call_on_mismatch ::
  "'x rte_cross_comparator \<Rightarrow> rte_voting_result \<Rightarrow> 'x rte \<Rightarrow> 'x rte" where
  "call_on_mismatch c r s =
    (case xc_on_disagreement (xo_config c) of None \<Rightarrow> s
     | Some f \<Rightarrow> s\<lparr>ext := f (xc_disagreement_context (xo_config c)) r (ext s)\<rparr>)"

definition cross_comparator_finish ::
  "'x rte_cross_comparator \<Rightarrow> rte_voting_result \<Rightarrow> bytes \<Rightarrow> nat \<Rightarrow> bytes option \<Rightarrow> 'x chan_mem \<Rightarrow>
    'x rte \<Rightarrow> (vote_out, 'x compare_state) run" where
  "cross_comparator_finish c local_result agreed_data data_size out_data mem s =
    (if local_result = VOTING_AGREED
     then Returned (STATUS_OK,
            map_option (copy_at 0 (take data_size agreed_data)) out_data,
            Some local_result, Some data_size) (Some c, mem, s)
     else
       let out = (STATUS_HARDWARE_FAULT, out_data, Some local_result, Some 0) in
       if local_result = VOTING_DISAGREED
       then
         let c' = c\<lparr>xo_total_disagreements := xo_total_disagreements c + 1\<rparr>;
             s1 = (if xc_log_disagreements (xo_config c)
                   then rte_log_write LOG_ERROR (Some ''cross_comparator'') ''channels disagreed'' s
                   else s);
             s2 = call_on_mismatch c' local_result s1
         in case rte_safestate_enter (xc_safestate_level (xo_config c))
                   (xc_safestate_reason (xo_config c)) None s2 of
              Halted s3 \<Rightarrow> Halted (Some c', mem, s3)
            | Returned _ s3 \<Rightarrow> Returned out (Some c', mem, s3)
       else Returned out (Some c, mem, call_on_mismatch c local_result s))"

text \<open>The first buffer is cleared before use, \<open>stack_b\<close> is the second one's old content.\<close>

definition rte_cross_comparator_execute ::
  "bytes \<Rightarrow> 'x rte_cross_comparator option \<Rightarrow> nat \<Rightarrow> bytes option \<Rightarrow> 'x chan_mem \<Rightarrow> 'x rte \<Rightarrow>
    (vote_out, 'x compare_state) run" where
  "rte_cross_comparator_execute stack_b cmp data_size out_data mem s =
    (let quit = (\<lambda>st. Returned (st, out_data, None, None) (cmp, mem, s)) in
     case cmp of None \<Rightarrow> quit STATUS_INVALID_PARAM
     | Some c \<Rightarrow>
         if data_size = 0 then quit STATUS_INVALID_PARAM
         else if \<not> xo_initialized c then quit STATUS_NOT_INITIALIZED
         else if data_size > CROSS_COMPARATOR_MAX_MESSAGE_SIZE then quit STATUS_RESOURCE_EXHAUSTED
         else (case xo_channels c of
           [a, b] \<Rightarrow>
             let buf_a = replicate CROSS_COMPARATOR_MAX_MESSAGE_SIZE 0;
                 t = xc_channel_timeout_ms (xo_config c)
             in if \<not> channel_healthy mem a \<or> \<not> channel_healthy mem b
                then cross_comparator_finish c VOTING_INSUFFICIENT_QUORUM buf_a data_size out_data
                       mem s
                else
                  let (st_a, buf_a', mem1, s1) =
                        rte_channel_receive (Some a) (Some buf_a) data_size t mem s;
                      (st_b, buf_b', mem2, s2) =
                        rte_channel_receive (Some b) (Some stack_b) data_size t mem1 s1;
                      da = (case buf_a' of None \<Rightarrow> [] | Some x \<Rightarrow> x);
                      db = (case buf_b' of None \<Rightarrow> [] | Some x \<Rightarrow> x);
                      local_result =
                        (if st_a = STATUS_TIMEOUT \<or> st_b = STATUS_TIMEOUT then VOTING_TIMEOUT
                         else if st_a \<noteq> STATUS_OK \<or> st_b \<noteq> STATUS_OK
                         then VOTING_INSUFFICIENT_QUORUM
                         else if cross_comparator_data_equal c da db data_size then VOTING_AGREED
                         else VOTING_DISAGREED)
                  in cross_comparator_finish c local_result da data_size out_data mem2 s2
         | _ \<Rightarrow> quit STATUS_INVALID_PARAM))"

definition rte_cross_comparator_execute_buffers ::
  "'x rte_cross_comparator option \<Rightarrow> bytes option \<Rightarrow> bytes option \<Rightarrow> nat \<Rightarrow> bytes option \<Rightarrow>
    'x chan_mem \<Rightarrow> 'x rte \<Rightarrow> (vote_out, 'x compare_state) run" where
  "rte_cross_comparator_execute_buffers cmp local_data peer_data data_size out_data mem s =
    (let quit = (\<lambda>st. Returned (st, out_data, None, None) (cmp, mem, s)) in
     case (cmp, local_data, peer_data) of
       (Some c, Some l, Some p) \<Rightarrow>
         if data_size = 0 then quit STATUS_INVALID_PARAM
         else if \<not> xo_initialized c then quit STATUS_NOT_INITIALIZED
         else if data_size > CROSS_COMPARATOR_MAX_MESSAGE_SIZE then quit STATUS_RESOURCE_EXHAUSTED
         else cross_comparator_finish c
                (if cross_comparator_data_equal c l p data_size then VOTING_AGREED
                 else VOTING_DISAGREED) l data_size out_data mem s
     | _ \<Rightarrow> quit STATUS_INVALID_PARAM)"

definition rte_cross_comparator_get_aggregated_health ::
  "'x rte_cross_comparator option \<Rightarrow> 'x chan_mem \<Rightarrow> rte_status \<times> (nat \<times> u32) option" where
  "rte_cross_comparator_get_aggregated_health cmp mem =
    (case cmp of None \<Rightarrow> (STATUS_INVALID_PARAM, None)
     | Some c \<Rightarrow> (STATUS_OK, Some (length (filter (channel_healthy mem) (xo_channels c)),
                   xo_total_disagreements c)))"

definition rte_cross_comparator_destroy ::
  "'x rte_cross_comparator option \<Rightarrow> rte_status \<times> 'x rte_cross_comparator option" where
  "rte_cross_comparator_destroy cmp =
    (case cmp of None \<Rightarrow> (STATUS_OK, None)
     | Some c \<Rightarrow> (STATUS_OK, Some (c\<lparr>xo_initialized := False\<rparr>)))"

section \<open>The tail\<close>

lemma finish_agreed:
  "cross_comparator_finish c VOTING_AGREED d n out mem s =
    Returned (STATUS_OK, map_option (copy_at 0 (take n d)) out, Some VOTING_AGREED, Some n)
      (Some c, mem, s)"
  by (simp add: cross_comparator_finish_def)

lemma finish_disagreed:
  "\<exists>s'. cross_comparator_finish c VOTING_DISAGREED d n out mem s =
    (let c' = c\<lparr>xo_total_disagreements := xo_total_disagreements c + 1\<rparr> in
     if xc_safestate_level (xo_config c) = LEVEL_DEGRADED
     then Returned (STATUS_HARDWARE_FAULT, out, Some VOTING_DISAGREED, Some 0) (Some c', mem, s')
     else Halted (Some c', mem, s'))"
  by (cases "xc_safestate_level (xo_config c)")
    (simp_all add: cross_comparator_finish_def rte_safestate_enter_def Let_def)

lemma finish_status_ok:
  "cross_comparator_finish c r d n out mem s = Returned (STATUS_OK, out', r', k) st \<Longrightarrow>
    r = VOTING_AGREED \<and> out' = map_option (copy_at 0 (take n d)) out"
  by (auto simp: cross_comparator_finish_def Let_def split: if_splits run.splits)

lemma receive_two:
  assumes "xo_initialized c" "0 < n" "n \<le> CROSS_COMPARATOR_MAX_MESSAGE_SIZE"
    and "xo_channels c = [a, b]" "channel_healthy mem a" "channel_healthy mem b"
    and "rte_channel_receive (Some a) (Some (replicate 256 0)) n
           (xc_channel_timeout_ms (xo_config c)) mem s = (st_a, Some da, mem1, s1)"
    and "rte_channel_receive (Some b) (Some stack_b) n
           (xc_channel_timeout_ms (xo_config c)) mem1 s1 = (st_b, Some db, mem2, s2)"
  shows "rte_cross_comparator_execute stack_b (Some c) n out mem s =
    cross_comparator_finish c
      (if st_a = STATUS_TIMEOUT \<or> st_b = STATUS_TIMEOUT then VOTING_TIMEOUT
       else if st_a \<noteq> STATUS_OK \<or> st_b \<noteq> STATUS_OK then VOTING_INSUFFICIENT_QUORUM
       else if cross_comparator_data_equal c da db n then VOTING_AGREED else VOTING_DISAGREED)
      da n out mem2 s2"
  using assms
  by (simp add: rte_cross_comparator_execute_def CROSS_COMPARATOR_MAX_MESSAGE_SIZE_def)

section \<open>Properties\<close>

text \<open>The comparison of two buffers fails safe: equal bytes return OK with those bytes and
  change nothing, and unequal bytes count one disagreement and never return to the caller,
  unless the configured level is DEGRADED, when the error is returned and the output buffer is
  left alone.\<close>

theorem compare_buffers_fails_safe:
  assumes "xo_initialized c" "0 < n" "n \<le> CROSS_COMPARATOR_MAX_MESSAGE_SIZE"
    and "xc_compare (xo_config c) = None"
  shows "if take n a = take n b
    then rte_cross_comparator_execute_buffers (Some c) (Some a) (Some b) n out mem s =
      Returned (STATUS_OK, map_option (copy_at 0 (take n a)) out, Some VOTING_AGREED, Some n)
        (Some c, mem, s)
    else \<exists>s'. rte_cross_comparator_execute_buffers (Some c) (Some a) (Some b) n out mem s =
      (let c' = c\<lparr>xo_total_disagreements := xo_total_disagreements c + 1\<rparr> in
       if xc_safestate_level (xo_config c) = LEVEL_DEGRADED
       then Returned (STATUS_HARDWARE_FAULT, out, Some VOTING_DISAGREED, Some 0) (Some c', mem, s')
       else Halted (Some c', mem, s'))"
  using assms finish_disagreed [of c a n out mem s]
  by (auto simp: rte_cross_comparator_execute_buffers_def cross_comparator_data_equal_def
      finish_agreed)

definition sample_comparator :: "unit rte_cross_comparator" where
  "sample_comparator = \<lparr>xo_config = \<lparr>xc_channel_timeout_ms = 10, xc_compare = None,
       xc_compare_context = None, xc_log_disagreements = True, xc_safestate_level = LEVEL_SAFE,
       xc_safestate_reason = 9, xc_on_disagreement = None, xc_disagreement_context = None\<rparr>,
     xo_channels = [0, 2], xo_total_disagreements = 4, xo_initialized = True\<rparr>"

theorem compare_buffers_fails_safe_witness:
  "\<exists>s'. rte_cross_comparator_execute_buffers (Some sample_comparator) (Some [1, 2]) (Some [1, 3]) 2
      None sample_mem (initial_rte ()) =
    Halted (Some (sample_comparator\<lparr>xo_total_disagreements := 5\<rparr>), sample_mem, s')"
  using compare_buffers_fails_safe [of sample_comparator 2 "[1, 2]" "[1, 3]" None sample_mem
      "initial_rte ()"]
  by (simp add: sample_comparator_def CROSS_COMPARATOR_MAX_MESSAGE_SIZE_def)

text \<open>The channel comparison is a 2-out-of-2: it returns OK only when both registered
  channels were healthy and both answered OK in this round with the same bytes, and the bytes
  handed out are those.\<close>

theorem compare_channels_ok:
  assumes "rte_cross_comparator_execute stack_b (Some c) n out mem s =
      Returned (STATUS_OK, out', r, k) st"
    and "xc_compare (xo_config c) = None"
  shows "\<exists>a b da db mem1 s1 mem2 s2. xo_channels c = [a, b] \<and>
    ch_is_healthy (ch_health (mem a)) \<and> ch_is_healthy (ch_health (mem b)) \<and>
    rte_channel_receive (Some a) (Some (replicate 256 0)) n
      (xc_channel_timeout_ms (xo_config c)) mem s = (STATUS_OK, Some da, mem1, s1) \<and>
    rte_channel_receive (Some b) (Some stack_b) n
      (xc_channel_timeout_ms (xo_config c)) mem1 s1 = (STATUS_OK, Some db, mem2, s2) \<and>
    take n da = take n db \<and> out' = map_option (copy_at 0 (take n da)) out"
proof -
  have live: "xo_initialized c" "0 < n" "n \<le> CROSS_COMPARATOR_MAX_MESSAGE_SIZE"
    "\<exists>a b. xo_channels c = [a, b]"
    using assms(1)
    by (auto simp: rte_cross_comparator_execute_def Let_def split: if_splits list.splits)
  then obtain a b where ab: "xo_channels c = [a, b]" by blast
  have healthy: "channel_healthy mem a \<and> channel_healthy mem b"
  proof (rule ccontr)
    assume "\<not> ?thesis"
    then have "rte_cross_comparator_execute stack_b (Some c) n out mem s =
        cross_comparator_finish c VOTING_INSUFFICIENT_QUORUM (replicate 256 0) n out mem s"
      using live(1-3) ab
      by (auto simp: rte_cross_comparator_execute_def CROSS_COMPARATOR_MAX_MESSAGE_SIZE_def)
    with assms(1) show False by (auto dest: finish_status_ok)
  qed
  obtain st_a da mem1 s1 where ra: "rte_channel_receive (Some a) (Some (replicate 256 0)) n
      (xc_channel_timeout_ms (xo_config c)) mem s = (st_a, Some da, mem1, s1)"
    using channel_receive_Some by metis
  obtain st_b db mem2 s2 where rb: "rte_channel_receive (Some b) (Some stack_b) n
      (xc_channel_timeout_ms (xo_config c)) mem1 s1 = (st_b, Some db, mem2, s2)"
    using channel_receive_Some by metis
  have "cross_comparator_finish c
      (if st_a = STATUS_TIMEOUT \<or> st_b = STATUS_TIMEOUT then VOTING_TIMEOUT
       else if st_a \<noteq> STATUS_OK \<or> st_b \<noteq> STATUS_OK then VOTING_INSUFFICIENT_QUORUM
       else if cross_comparator_data_equal c da db n then VOTING_AGREED else VOTING_DISAGREED)
      da n out mem2 s2 = Returned (STATUS_OK, out', r, k) st"
    using receive_two [OF live(1-3) ab _ _ ra rb, of out] healthy assms(1) by simp
  from finish_status_ok [OF this] have "st_a = STATUS_OK" "st_b = STATUS_OK"
    "cross_comparator_data_equal c da db n" "out' = map_option (copy_at 0 (take n da)) out"
    by (auto split: if_splits)
  then have "rte_channel_receive (Some a) (Some (replicate 256 0)) n
      (xc_channel_timeout_ms (xo_config c)) mem s = (STATUS_OK, Some da, mem1, s1)"
    "rte_channel_receive (Some b) (Some stack_b) n
      (xc_channel_timeout_ms (xo_config c)) mem1 s1 = (STATUS_OK, Some db, mem2, s2)"
    "take n da = take n db" "out' = map_option (copy_at 0 (take n da)) out"
    using ra rb assms(2) by (simp_all add: cross_comparator_data_equal_def)
  with ab healthy show ?thesis unfolding channel_healthy_iff by blast
qed

lemma sample_compare:
  "\<exists>st. rte_cross_comparator_execute [0, 0] (Some sample_comparator) 2 None sample_mem
      (initial_rte ()) = Returned (STATUS_OK, None, Some VOTING_AGREED, Some 2) st"
  by (simp add: rte_cross_comparator_execute_def sample_comparator_def
      CROSS_COMPARATOR_MAX_MESSAGE_SIZE_def sample_mem_def sample_channel_def
      rte_channel_receive_def cross_comparator_data_equal_def finish_agreed)

theorem compare_channels_ok_witness:
  "ch_is_healthy (ch_health (sample_mem 0)) \<and> ch_is_healthy (ch_health (sample_mem 2))"
proof -
  obtain st where "rte_cross_comparator_execute [0, 0] (Some sample_comparator) 2 None sample_mem
      (initial_rte ()) = Returned (STATUS_OK, None, Some VOTING_AGREED, Some 2) st"
    using sample_compare by blast
  from compare_channels_ok [OF this] show ?thesis by (auto simp: sample_comparator_def)
qed

end
