(* ===== verification/Vital_Message.thy ===== *)
theory Vital_Message
  imports Oal_Services
begin

text \<open>
  Creation of a vital message (\<^verbatim>\<open>rte_checksum_vital_message_create()\<close> in
  \<^verbatim>\<open>src/redundancy/checksum/rte_checksum.c\<close>), the layout of its 272 bytes, and what creation
  and verification promise each other.
\<close>

section \<open>The interface of a frame layout\<close>

text \<open>
  Every wire structure of the code is a fixed-size image of a record. \<open>wf\<close> are the records whose
  variable parts have their declared size.
\<close>

locale frame_codec =
  fixes enc :: "'m \<Rightarrow> bytes" and dec :: "bytes \<Rightarrow> 'm" and wf :: "'m \<Rightarrow> bool" and frame_size :: nat
  assumes length_enc: "wf m \<Longrightarrow> length (enc m) = frame_size"
    and dec_enc: "wf m \<Longrightarrow> dec (enc m) = m"
    and enc_dec: "length b = frame_size \<Longrightarrow> enc (dec b) = b"
    and wf_dec: "length b = frame_size \<Longrightarrow> wf (dec b)"
begin

lemma enc_inject: "wf m \<Longrightarrow> wf m' \<Longrightarrow> enc m = enc m' \<longleftrightarrow> m = m'"
  using dec_enc by metis

lemma enc_surj: "length b = frame_size \<Longrightarrow> \<exists>m. wf m \<and> enc m = b"
  using enc_dec wf_dec by blast

lemma dec_inject: "length b = frame_size \<Longrightarrow> length c = frame_size \<Longrightarrow> dec b = dec c \<longleftrightarrow> b = c"
  using enc_dec by metis

end

section \<open>Layout\<close>

definition wf_message :: "rte_vital_message \<Rightarrow> bool" where
  "wf_message m \<longleftrightarrow> length (vm_payload m) = 248"

lemma length_covered: "wf_message m \<Longrightarrow> length (vital_message_covered m) = 264"
  by (simp add: vital_message_covered_def wf_message_def)

lemma le_word_whole:
  fixes w :: "'a::len word"
  assumes "LENGTH('a) = 8 * n"
  shows "le_word (le_bytes n w) = w"
  using assms by (simp add: le_word_le_bytes)

lemma le_word_take [simp]:
  "le_word (take 4 (le_bytes 4 (w :: u32) @ b)) = w"
  "le_word (take 8 (le_bytes 8 (v :: u64) @ b)) = v"
  "le_word (take 2 (le_bytes 2 (u :: u16) @ b)) = u"
  "le_word (take 1 (le_bytes 1 (c :: u8) @ b)) = c"
  "le_word (take 8 (le_bytes 8 (v :: u64))) = v"
  by (simp_all add: le_word_whole)

lemma slices: "n \<le> length b \<Longrightarrow> take n b @ take k (drop n b) = take (n + k) b"
  by (simp add: take_add)

interpretation vital: frame_codec vital_message_bytes vital_message_of_bytes wf_message 272
proof
  fix m :: rte_vital_message
  assume wf: "wf_message m"
  show "length (vital_message_bytes m) = 272"
    using length_covered [OF wf] by (simp add: vital_message_bytes_def)
  show "vital_message_of_bytes (vital_message_bytes m) = m"
    using wf by (simp add: vital_message_of_bytes_def vital_message_bytes_def
        vital_message_covered_def wf_message_def drop_Cons' le_word_whole)
next
  fix b :: bytes
  assume b: "length b = 272"
  show "wf_message (vital_message_of_bytes b)"
    using b by (simp add: wf_message_def vital_message_of_bytes_def)
  have "le_bytes 4 (le_word (take 4 b) :: u32) = take 4 b"
    "le_bytes 4 (le_word (take 4 (drop 4 b)) :: u32) = take 4 (drop 4 b)"
    "le_bytes 4 (le_word (take 4 (drop 8 b)) :: u32) = take 4 (drop 8 b)"
    "le_bytes 1 (le_word (take 1 (drop 12 b)) :: u8) = take 1 (drop 12 b)"
    "le_bytes 1 (le_word (take 1 (drop 13 b)) :: u8) = take 1 (drop 13 b)"
    "le_bytes 2 (le_word (take 2 (drop 14 b)) :: u16) = take 2 (drop 14 b)"
    "le_bytes 8 (le_word (take 8 (drop 264 b)) :: u64) = take 8 (drop 264 b)"
    using b le_bytes_le_word [of "take 4 b", where 'a = 32]
      le_bytes_le_word [of "take 4 (drop 4 b)", where 'a = 32]
      le_bytes_le_word [of "take 4 (drop 8 b)", where 'a = 32]
      le_bytes_le_word [of "take 1 (drop 12 b)", where 'a = 8]
      le_bytes_le_word [of "take 1 (drop 13 b)", where 'a = 8]
      le_bytes_le_word [of "take 2 (drop 14 b)", where 'a = 16]
      le_bytes_le_word [of "take 8 (drop 264 b)", where 'a = 64] by simp_all
  then have "vital_message_bytes (vital_message_of_bytes b) =
      take 4 b @ take 4 (drop 4 b) @ take 4 (drop 8 b) @ take 1 (drop 12 b) @ take 1 (drop 13 b) @
      take 2 (drop 14 b) @ take 248 (drop 16 b) @ take 8 (drop 264 b)"
    by (simp add: vital_message_bytes_def vital_message_covered_def vital_message_of_bytes_def)
  also have "\<dots> = take 272 b"
    using take_add [of 264 8 b] take_add [of 16 248 b] take_add [of 14 2 b] take_add [of 13 1 b]
      take_add [of 12 1 b] take_add [of 8 4 b] take_add [of 4 4 b] by simp
  finally show "vital_message_bytes (vital_message_of_bytes b) = b" using b by simp
qed

lemma covered_of_bytes:
  assumes "length b = 272"
  shows "vital_message_covered (vital_message_of_bytes b) = take 264 b"
proof -
  have "take 264 (vital_message_bytes (vital_message_of_bytes b)) =
      vital_message_covered (vital_message_of_bytes b)"
    using length_covered [OF vital.wf_dec [OF assms]] by (simp add: vital_message_bytes_def)
  then show ?thesis using vital.enc_dec [OF assms] by simp
qed

section \<open>Creation\<close>

text \<open>A checksum operation on the platform's module state.\<close>

definition with_checksum ::
  "(rte_checksum_manager \<Rightarrow> 'a \<times> rte_checksum_manager) \<Rightarrow> 'x rte \<Rightarrow> 'a \<times> 'x rte" where
  "with_checksum f s = (let (a, cm) = f (g_checksum s) in (a, s\<lparr>g_checksum := cm\<rparr>))"

definition rte_checksum_vital_message_create ::
  "rte_vital_message option \<Rightarrow> u32 \<Rightarrow> u32 \<Rightarrow> bytes option \<Rightarrow> nat \<Rightarrow> 'x rte \<Rightarrow>
    rte_status \<times> rte_vital_message option \<times> 'x rte" where
  "rte_checksum_vital_message_create msg_out sender_id sequence_no payload payload_size s =
    (case msg_out of
       None \<Rightarrow> (STATUS_INVALID_PARAM, None, s)
     | Some m \<Rightarrow>
         if payload_size > 248
         then (STATUS_INVALID_PARAM, msg_out, s\<lparr>g_checksum := upd_stats
                 (\<lambda>st. st\<lparr>cst_payload_oversize := cst_payload_oversize st + 1\<rparr>) (g_checksum s)\<rparr>)
         else if payload = None \<and> payload_size \<noteq> 0 then (STATUS_INVALID_PARAM, msg_out, s)
         else if cm_initialized (g_checksum s) = 0 then (STATUS_NOT_INITIALIZED, msg_out, s)
         else
           let (_, now_ms, s1) = rte_timer_now s;
               body = (case payload of None \<Rightarrow> [] | Some p \<Rightarrow> take payload_size p);
               m1 = m\<lparr>vm_sequence_number := sequence_no, vm_sender_id := sender_id,
                      vm_timestamp_ms := ucast (and now_ms 0xFFFFFFFF),
                      vm_payload_size := of_nat payload_size, vm_padding := 0, vm_reserved := 0,
                      vm_payload := copy_at 0 body (replicate 248 0)\<rparr>;
               (crc, s2) = with_checksum (rte_checksum_crc64 (Some (vital_message_covered m1)) 264) s1
           in (STATUS_OK, Some (m1\<lparr>vm_crc64 := crc\<rparr>), s2))"

section \<open>Creation and verification\<close>

lemma timer_now_frame:
  "rte_timer_now s = (st, now, s') \<Longrightarrow> g_checksum s' = g_checksum s \<and> s_netlink s' = s_netlink s \<and>
    s_timer s' = s_timer s \<and> s_handlers s' = s_handlers s \<and> g_setup_locked s' = g_setup_locked s"
  by (auto simp: rte_timer_now_def split: option.splits prod.splits)

lemma create_ok:
  assumes "rte_checksum_vital_message_create mo sender q (Some payload) n s = (STATUS_OK, m, s')"
    and "cm_ready p (g_checksum s)" "n \<le> length payload"
  shows "\<exists>msg. m = Some msg \<and> wf_message msg \<and> n \<le> 248 \<and>
    vm_sequence_number msg = q \<and> vm_sender_id msg = sender \<and>
    vm_payload_size msg = of_nat n \<and> vm_payload msg = take n payload @ replicate (248 - n) 0 \<and>
    vm_crc64 msg = crc64_bits (crc_poly p) (vital_message_covered msg)"
proof -
  obtain m0 where m0: "mo = Some m0"
    using assms(1) by (cases mo) (auto simp: rte_checksum_vital_message_create_def)
  have n: "n \<le> 248" "cm_initialized (g_checksum s) \<noteq> 0"
    using assms(1,2) m0
    by (auto simp: rte_checksum_vital_message_create_def cm_ready_def split: if_splits)
  obtain st now s1 where now: "rte_timer_now s = (st, now, s1)" by (metis prod_cases3)
  then have ready: "cm_ready p (g_checksum s1)" using timer_now_frame [OF now] assms(2) by simp
  let ?m = "m0\<lparr>vm_sequence_number := q, vm_sender_id := sender,
      vm_timestamp_ms := ucast (and now 0xFFFFFFFF), vm_payload_size := of_nat n, vm_padding := 0,
      vm_reserved := 0, vm_payload := copy_at 0 (take n payload) (replicate 248 0)\<rparr>"
  obtain crc cm where crc: "rte_checksum_crc64 (Some (vital_message_covered ?m)) 264 (g_checksum s1) =
      (crc, cm)" by fastforce
  have wf: "wf_message ?m" using n assms(3) by (simp add: wf_message_def)
  have "m = Some (?m\<lparr>vm_crc64 := crc\<rparr>)"
    using assms(1) m0 n now crc
    by (simp add: rte_checksum_vital_message_create_def with_checksum_def Let_def)
  moreover have "crc = crc64_bits (crc_poly p) (vital_message_covered ?m)"
    using crc64_ready [OF ready, of "vital_message_covered ?m" 264] crc length_covered [OF wf]
    by simp
  moreover have "vital_message_covered (?m\<lparr>vm_crc64 := crc\<rparr>) = vital_message_covered ?m"
    by (simp add: vital_message_covered_def)
  ultimately show ?thesis
    using wf n assms(3) by (simp add: wf_message_def copy_at_def)
qed

lemma create_keeps_platform:
  assumes "rte_checksum_vital_message_create mo sender q payload n s = (st, m, s')"
  shows "s_netlink s' = s_netlink s \<and> s_timer s' = s_timer s \<and>
    cm_ready p (g_checksum s') = cm_ready p (g_checksum s)"
proof -
  obtain ts now s1 where now: "rte_timer_now s = (ts, now, s1)" by (metis prod_cases3)
  note fr = timer_now_frame [OF now]
  show ?thesis
    using assms fr
    by (auto simp: rte_checksum_vital_message_create_def now with_checksum_def Let_def
        cm_ready_crc64_result split: option.splits if_splits prod.splits)
qed

text \<open>Verification of a message whose CRC field is right, and of one whose CRC field is wrong.\<close>

lemma message_verify_ok:
  assumes "cm_ready p cm" "wf_message m"
    and "vm_crc64 m = crc64_bits (crc_poly p) (vital_message_covered m)"
    and "vm_sequence_number m = q" "unat (vm_payload_size m) \<le> n" "unat (vm_payload_size m) \<le> 248"
  shows "\<exists>cm'. cm_ready p cm' \<and> rte_checksum_vital_message_verify (Some m) q (Some buf) n (Some z) cm =
    (STATUS_OK, Some (copy_at 0 (take (unat (vm_payload_size m)) (vm_payload m)) buf),
     Some (vm_payload_size m), cm')"
proof -
  obtain st r cm' where ver: "rte_checksum_crc64_verify (Some (vital_message_covered m)) 264 (vm_crc64 m)
      (Some \<lparr>cr_computed = 0, cr_expected = 0, cr_match = 0\<rparr>) cm = (st, r, cm')"
    by (metis prod_cases3)
  then have st: "st = STATUS_OK"
    using verify_ready [OF assms(1), of "vital_message_covered m" 264 "vm_crc64 m"]
      length_covered [OF assms(2)] assms(3) by (metis fst_conv order_refl take_all)
  have drop: "take k (drop 16 (vital_message_bytes m)) = take k (vm_payload m)" if "k \<le> 248" for k
    using that assms(2)
    by (simp add: vital_message_bytes_def vital_message_covered_def wf_message_def)
  have "copy_at 0 [] buf = buf" by (simp add: copy_at_def)
  then show ?thesis
    using ver st assms(4-6) cm_ready_verify [OF ver, of p] assms(1) drop
    by (auto simp: rte_checksum_vital_message_verify_def word_gt_0)
qed

lemma message_verify_bad_crc:
  assumes "cm_ready p cm" "wf_message m"
    and "vm_crc64 m \<noteq> crc64_bits (crc_poly p) (vital_message_covered m)"
  shows "\<exists>cm'. cm_ready p cm' \<and> rte_checksum_vital_message_verify (Some m) q (Some buf) n (Some z) cm =
    (STATUS_DATA_CORRUPTION, Some buf, Some z, cm')"
proof -
  obtain st r cm' where ver: "rte_checksum_crc64_verify (Some (vital_message_covered m)) 264 (vm_crc64 m)
      (Some \<lparr>cr_computed = 0, cr_expected = 0, cr_match = 0\<rparr>) cm = (st, r, cm')"
    by (metis prod_cases3)
  then have st: "st = STATUS_DATA_CORRUPTION"
    using verify_ready [OF assms(1), of "vital_message_covered m" 264 "vm_crc64 m"]
      length_covered [OF assms(2)] assms(3) by (metis fst_conv order_refl take_all)
  then show ?thesis
    using ver cm_ready_verify [OF ver, of p] assms(1)
    by (auto simp: rte_checksum_vital_message_verify_def)
qed

text \<open>Whatever is accepted had a right CRC, the expected number and a size within the bound.\<close>

lemma message_verify_accepts:
  assumes "rte_checksum_vital_message_verify (Some m) q (Some buf) n (Some z) cm =
      (STATUS_OK, b', z', cm')"
    and "cm_ready p cm" "wf_message m"
  shows "vm_crc64 m = crc64_bits (crc_poly p) (vital_message_covered m) \<and>
    vm_sequence_number m = q \<and> unat (vm_payload_size m) \<le> n \<and> z' = Some (vm_payload_size m)"
proof -
  have crc: "vm_crc64 m = crc64_bits (crc_poly p) (vital_message_covered m)"
    using message_verify_bad_crc [OF assms(2,3), of q buf n z] assms(1) by fastforce
  then show ?thesis
    using assms(1)
    by (auto simp: rte_checksum_vital_message_verify_def Let_def split: prod.splits if_splits)
qed

end
