(* ===== verification/Dual_Msgchannel.thy ===== *)
theory Dual_Msgchannel
  imports Vital_Message
begin

text \<open>
  The message channel under the dual modules, \<^verbatim>\<open>src/redundancy/dual/rte_dual_msgchannel.c\<close>:
  one vital message per network frame, with a sequence number in each direction and a check of
  the sender. The local frame of a receive starts cleared: an OSAdapter that returns OK has
  written all 272 bytes.
\<close>

section \<open>Data\<close>

definition MSGCHANNEL_MAX_PAYLOAD :: nat where "MSGCHANNEL_MAX_PAYLOAD = 248"

record dual_msgchannel =
  mc_link :: "handle option"
  mc_sender_id :: u32
  mc_expected_peer_id :: u32
  mc_next_sequence :: u32
  mc_expected_sequence :: u32
  mc_resync_on_sequence_error :: bool

record dual_msgchannel_config =
  mcc_link :: "handle option"
  mcc_sender_id :: u32
  mcc_expected_peer_id :: u32

section \<open>Operations\<close>

definition rte_dual_msgchannel_init ::
  "dual_msgchannel option \<Rightarrow> dual_msgchannel_config option \<Rightarrow> rte_status \<times> dual_msgchannel option" where
  "rte_dual_msgchannel_init channel config =
    (case (channel, config) of
       (Some c, Some cfg) \<Rightarrow>
         if mcc_link cfg = None then (STATUS_INVALID_PARAM, channel)
         else (STATUS_OK, Some (c\<lparr>mc_link := mcc_link cfg, mc_sender_id := mcc_sender_id cfg,
                 mc_expected_peer_id := mcc_expected_peer_id cfg, mc_next_sequence := 0,
                 mc_expected_sequence := 0, mc_resync_on_sequence_error := False\<rparr>))
     | _ \<Rightarrow> (STATUS_INVALID_PARAM, channel))"

text \<open>An object with no particular content, for the uninitialised local frame.\<close>

definition zero_message :: rte_vital_message where
  "zero_message = \<lparr>vm_sequence_number = 0, vm_sender_id = 0, vm_timestamp_ms = 0,
     vm_payload_size = 0, vm_padding = 0, vm_reserved = 0, vm_payload = replicate 248 0,
     vm_crc64 = 0\<rparr>"

text \<open>The results are the status, the sequence number written out, the channel and the state.\<close>

definition rte_dual_msgchannel_send ::
  "dual_msgchannel option \<Rightarrow> bytes option \<Rightarrow> u8 \<Rightarrow> duration_ms \<Rightarrow> 'x rte \<Rightarrow>
    rte_status \<times> u32 option \<times> dual_msgchannel option \<times> 'x rte" where
  "rte_dual_msgchannel_send channel payload payload_size timeout_ms s =
    (case channel of
       None \<Rightarrow> (STATUS_INVALID_PARAM, None, channel, s)
     | Some c \<Rightarrow>
         if payload = None \<and> payload_size \<noteq> 0 then (STATUS_INVALID_PARAM, None, channel, s)
         else
           let (status, frame, s1) = rte_checksum_vital_message_create (Some zero_message)
                 (mc_sender_id c) (mc_next_sequence c) payload (unat payload_size) s
           in if status \<noteq> STATUS_OK then (status, None, channel, s1)
              else
                let (status2, s2) = rte_netlink_send (mc_link c)
                      (map_option vital_message_bytes frame) 272 timeout_ms s1
                in if status2 \<noteq> STATUS_OK then (status2, None, channel, s2)
                   else (STATUS_OK, Some (mc_next_sequence c),
                         Some (c\<lparr>mc_next_sequence := mc_next_sequence c + 1\<rparr>), s2))"

text \<open>The results also hold the caller's payload buffer and payload size.\<close>

type_synonym 'x receive_out =
  "rte_status \<times> bytes option \<times> u8 option \<times> u32 option \<times> dual_msgchannel option \<times> 'x rte"

definition rte_dual_msgchannel_receive ::
  "dual_msgchannel option \<Rightarrow> bytes option \<Rightarrow> u8 \<Rightarrow> duration_ms \<Rightarrow> u8 option \<Rightarrow> 'x rte \<Rightarrow>
    'x receive_out" where
  "rte_dual_msgchannel_receive channel out_payload payload_max_size timeout_ms out_payload_size s =
    (case (channel, out_payload, out_payload_size) of
       (Some c, Some _, Some _) \<Rightarrow>
         if payload_max_size = 0
         then (STATUS_INVALID_PARAM, out_payload, out_payload_size, None, channel, s)
         else
           let (status, raw, s1) = rte_netlink_receive (mc_link c) (Some (replicate 272 0)) 272
                 timeout_ms s;
               frame = vital_message_of_bytes (case raw of None \<Rightarrow> [] | Some b \<Rightarrow> b)
           in if status \<noteq> STATUS_OK
              then (status, out_payload, out_payload_size, None, channel, s1)
              else if vm_sender_id frame \<noteq> mc_expected_peer_id c
              then (STATUS_HARDWARE_FAULT, out_payload, out_payload_size, None, channel, s1)
              else
                let ((status2, buf, sz), s2) = with_checksum (\<lambda>cm.
                      let (st, b, z, cm') = rte_checksum_vital_message_verify (Some frame)
                            (mc_expected_sequence c) out_payload (unat payload_max_size)
                            out_payload_size cm
                      in ((st, b, z), cm')) s1;
                    (c2, s3) =
                      (if status2 = STATUS_DATA_CORRUPTION \<and> mc_resync_on_sequence_error c \<and>
                          vm_sequence_number frame \<noteq> mc_expected_sequence c
                       then
                         let (st, s3) = with_checksum (\<lambda>cm.
                               let (st, _, cm') = rte_checksum_crc64_verify
                                     (Some (vital_message_covered frame)) 264 (vm_crc64 frame)
                                     (Some \<lparr>cr_computed = 0, cr_expected = 0, cr_match = 0\<rparr>) cm
                               in (st, cm')) s2
                         in (if st = STATUS_OK
                             then c\<lparr>mc_expected_sequence := vm_sequence_number frame + 1\<rparr>
                             else c, s3)
                       else (c, s2))
                in if status2 \<noteq> STATUS_OK then (status2, buf, sz, None, Some c2, s3)
                   else (STATUS_OK, buf, sz, Some (vm_sequence_number frame),
                         Some (c2\<lparr>mc_expected_sequence := vm_sequence_number frame + 1\<rparr>), s3)
     | _ \<Rightarrow> (STATUS_INVALID_PARAM, out_payload, out_payload_size, None, channel, s))"

definition rte_dual_msgchannel_reset_sequence ::
  "dual_msgchannel option \<Rightarrow> rte_status \<times> dual_msgchannel option" where
  "rte_dual_msgchannel_reset_sequence channel =
    (case channel of None \<Rightarrow> (STATUS_INVALID_PARAM, None)
     | Some c \<Rightarrow> (STATUS_OK, Some (c\<lparr>mc_next_sequence := 0, mc_expected_sequence := 0\<rparr>)))"

definition rte_dual_msgchannel_set_resync_on_sequence_error ::
  "dual_msgchannel option \<Rightarrow> bool \<Rightarrow> rte_status \<times> dual_msgchannel option" where
  "rte_dual_msgchannel_set_resync_on_sequence_error channel enable =
    (case channel of None \<Rightarrow> (STATUS_INVALID_PARAM, None)
     | Some c \<Rightarrow> (STATUS_OK, Some (c\<lparr>mc_resync_on_sequence_error := enable\<rparr>)))"

section \<open>What a receive can do\<close>

text \<open>The frame the OSAdapter hands over in a state: 272 bytes with status OK.\<close>

definition link_delivers :: "dual_msgchannel \<Rightarrow> duration_ms \<Rightarrow> bytes \<Rightarrow> 'x rte \<Rightarrow> 'x rte \<Rightarrow> bool" where
  "link_delivers c t b s s' \<longleftrightarrow> length b = 272 \<and>
    rte_netlink_receive (mc_link c) (Some (replicate 272 0)) 272 t s = (STATUS_OK, Some b, s')"

lemma netlink_receive_frame:
  "rte_netlink_receive h b n t s = (st, b', s') \<Longrightarrow> g_checksum s' = g_checksum s \<and>
    s_timer s' = s_timer s \<and> s_netlink s' = s_netlink s"
  by (auto simp: rte_netlink_receive_def split: option.splits prod.splits if_splits)

lemma netlink_send_frame:
  "rte_netlink_send h b n t s = (st, s') \<Longrightarrow> g_checksum s' = g_checksum s \<and>
    s_timer s' = s_timer s \<and> s_netlink s' = s_netlink s"
  by (auto simp: rte_netlink_send_def split: option.splits prod.splits if_splits)

lemma receive_masquerade:
  assumes "link_delivers c t b s s1" "0 < k"
    and "vm_sender_id (vital_message_of_bytes b) \<noteq> mc_expected_peer_id c"
  shows "rte_dual_msgchannel_receive (Some c) (Some buf) k t (Some z) s =
    (STATUS_HARDWARE_FAULT, Some buf, Some z, None, Some c, s1)"
  using assms by (simp add: rte_dual_msgchannel_receive_def link_delivers_def word_gt_0)

text \<open>A receive on a frame from the right sender, in terms of the verification.\<close>

lemma receive_verified:
  assumes "link_delivers c t b s s1" "0 < k"
    and "vm_sender_id (vital_message_of_bytes b) = mc_expected_peer_id c"
    and "rte_checksum_vital_message_verify (Some (vital_message_of_bytes b)) (mc_expected_sequence c)
      (Some buf) (unat k) (Some z) (g_checksum s1) = (STATUS_OK, out, sz, cm)"
  shows "rte_dual_msgchannel_receive (Some c) (Some buf) k t (Some z) s =
    (STATUS_OK, out, sz, Some (vm_sequence_number (vital_message_of_bytes b)),
     Some (c\<lparr>mc_expected_sequence := vm_sequence_number (vital_message_of_bytes b) + 1\<rparr>),
     s1\<lparr>g_checksum := cm\<rparr>)"
  using assms
  by (simp add: rte_dual_msgchannel_receive_def link_delivers_def word_gt_0 with_checksum_def Let_def)

lemma receive_rejected:
  assumes "link_delivers c t b s s1" "0 < k"
    and "vm_sender_id (vital_message_of_bytes b) = mc_expected_peer_id c"
    and "rte_checksum_vital_message_verify (Some (vital_message_of_bytes b)) (mc_expected_sequence c)
      (Some buf) (unat k) (Some z) (g_checksum s1) = (st, out, sz, cm)"
    and "st \<noteq> STATUS_OK"
  shows "\<exists>c' s'. rte_dual_msgchannel_receive (Some c) (Some buf) k t (Some z) s =
    (st, out, sz, None, Some c', s')"
proof -
  obtain st3 r cm3 where "rte_checksum_crc64_verify
      (Some (vital_message_covered (vital_message_of_bytes b))) 264 (vm_crc64 (vital_message_of_bytes b))
      (Some \<lparr>cr_computed = 0, cr_expected = 0, cr_match = 0\<rparr>) cm = (st3, r, cm3)"
    by (metis prod_cases3)
  with assms show ?thesis
    by (simp add: rte_dual_msgchannel_receive_def link_delivers_def word_gt_0 with_checksum_def Let_def)
qed

text \<open>Facts about every receive: the identities stay, and the expected number moves only as stated.\<close>

lemma receive_step:
  assumes "rte_dual_msgchannel_receive (Some c) out k t sz s = (st, out', sz', q, c'', s')"
  shows "\<exists>c'. c'' = Some c' \<and> mc_link c' = mc_link c \<and> mc_sender_id c' = mc_sender_id c \<and>
    mc_expected_peer_id c' = mc_expected_peer_id c \<and> mc_next_sequence c' = mc_next_sequence c \<and>
    mc_resync_on_sequence_error c' = mc_resync_on_sequence_error c \<and>
    (if st = STATUS_OK
     then q = Some (mc_expected_sequence c) \<and> mc_expected_sequence c' = mc_expected_sequence c + 1
     else q = None \<and>
       (\<not> mc_resync_on_sequence_error c \<longrightarrow> mc_expected_sequence c' = mc_expected_sequence c))"
proof (cases "out = None \<or> sz = None \<or> k = 0")
  case True
  with assms show ?thesis
    by (auto simp: rte_dual_msgchannel_receive_def split: option.splits)
next
  case False
  then obtain buf z where io: "out = Some buf" "sz = Some z" "k \<noteq> 0" by auto
  obtain st1 raw s1 where rcv: "rte_netlink_receive (mc_link c) (Some (replicate 272 0)) 272 t s =
      (st1, raw, s1)" by (metis prod_cases3)
  let ?f = "vital_message_of_bytes (case raw of None \<Rightarrow> [] | Some b \<Rightarrow> b)"
  obtain st2 b2 z2 cm2 where ver: "rte_checksum_vital_message_verify (Some ?f)
      (mc_expected_sequence c) (Some buf) (unat k) (Some z) (g_checksum s1) = (st2, b2, z2, cm2)"
    by (metis prod_cases4)
  have num: "vm_sequence_number ?f = mc_expected_sequence c" if "st2 = STATUS_OK"
    using ver that
    by (auto simp: rte_checksum_vital_message_verify_def Let_def split: prod.splits if_splits)
  obtain st3 r cm3 where crc: "rte_checksum_crc64_verify (Some (vital_message_covered ?f)) 264
      (vm_crc64 ?f) (Some \<lparr>cr_computed = 0, cr_expected = 0, cr_match = 0\<rparr>) cm2 = (st3, r, cm3)"
    by (metis prod_cases3)
  show ?thesis
    using assms num unfolding io
    by (simp add: rte_dual_msgchannel_receive_def io rcv ver crc with_checksum_def Let_def
        split: if_splits) auto
qed

lemma send_step:
  assumes "rte_dual_msgchannel_send (Some c) pl n t s = (st, q, c'', s')"
  shows "c'' = Some (if st = STATUS_OK then c\<lparr>mc_next_sequence := mc_next_sequence c + 1\<rparr> else c)"
  using assms
  by (auto simp: rte_dual_msgchannel_send_def Let_def split: if_splits prod.splits)

section \<open>Runs of a channel\<close>

text \<open>
  A history of one channel: receives and sends in any order with any arguments, and arbitrary
  changes of the rest of the platform in between. The list collects the numbers of the accepted
  frames.
\<close>

inductive msgchannel_run ::
  "dual_msgchannel \<Rightarrow> 'x rte \<Rightarrow> u32 list \<Rightarrow> dual_msgchannel \<Rightarrow> 'x rte \<Rightarrow> bool" for c s where
  start: "msgchannel_run c s [] c s"
| receive: "msgchannel_run c s qs c1 s1 \<Longrightarrow>
    rte_dual_msgchannel_receive (Some c1) out k t sz s1 = (st, out', sz', q, Some c2, s2) \<Longrightarrow>
    msgchannel_run c s (qs @ (case q of None \<Rightarrow> [] | Some x \<Rightarrow> [x])) c2 s2"
| send: "msgchannel_run c s qs c1 s1 \<Longrightarrow>
    rte_dual_msgchannel_send (Some c1) pl n t s1 = (st, q, Some c2, s2) \<Longrightarrow>
    msgchannel_run c s qs c2 s2"
| environment: "msgchannel_run c s qs c1 s1 \<Longrightarrow> msgchannel_run c s qs c1 s2"

lemma run_in_order:
  assumes "msgchannel_run c s qs c' s'" "\<not> mc_resync_on_sequence_error c"
  shows "qs = map (\<lambda>i. mc_expected_sequence c + of_nat i) [0..<length qs] \<and>
    mc_expected_sequence c' = mc_expected_sequence c + of_nat (length qs) \<and>
    \<not> mc_resync_on_sequence_error c'"
  using assms
proof induction
  case (receive qs c1 s1 out k t sz st out' sz' q c2 s2)
  from receive_step [OF receive.hyps(2)] receive.IH [OF receive.prems] show ?case
    by (auto split: if_splits)
next
  case (send qs c1 s1 pl n t st q c2 s2)
  from send_step [OF send.hyps(2)] send.IH [OF send.prems] show ?case by auto
qed auto

lemma distinct_consecutive:
  assumes "n \<le> 2 ^ 32"
  shows "distinct (map (\<lambda>i. (e :: u32) + of_nat i) [0..<n])"
  using assms by (auto simp: distinct_map inj_on_def word_of_nat_eq_iff take_bit_nat_eq_self)

section \<open>The frame that a send hands over\<close>

lemma send_frame:
  assumes "rte_dual_msgchannel_send (Some a) (Some payload) n t s = (STATUS_OK, q, a', s')"
    and "s_netlink s = Some ad" "netlink_send ad = Some f" "mc_link a = Some h"
    and "cm_ready p (g_checksum s)" "unat n \<le> length payload"
  shows "\<exists>m x. f h (vital_message_bytes m) t x = (STATUS_OK, ext s') \<and> wf_message m \<and>
    vm_sequence_number m = mc_next_sequence a \<and> vm_sender_id m = mc_sender_id a \<and>
    vm_payload_size m = n \<and> unat n \<le> 248 \<and> take (unat n) (vm_payload m) = take (unat n) payload \<and>
    vm_crc64 m = crc64_bits (crc_poly p) (vital_message_covered m)"
proof -
  obtain st1 fr s1 where cr: "rte_checksum_vital_message_create (Some zero_message) (mc_sender_id a)
      (mc_next_sequence a) (Some payload) (unat n) s = (st1, fr, s1)" by (metis prod_cases3)
  have st1: "st1 = STATUS_OK"
    using assms(1) by (auto simp: rte_dual_msgchannel_send_def cr Let_def split: if_splits)
  from create_ok [OF cr [unfolded st1] assms(5,6)] obtain m where m: "fr = Some m" "wf_message m"
    "unat n \<le> 248" "vm_sequence_number m = mc_next_sequence a" "vm_sender_id m = mc_sender_id a"
    "vm_payload_size m = of_nat (unat n)"
    "vm_payload m = take (unat n) payload @ replicate (248 - unat n) 0"
    "vm_crc64 m = crc64_bits (crc_poly p) (vital_message_covered m)"
    by (elim exE conjE) (rule that)
  obtain st2 s2 where ns: "rte_netlink_send (Some h) (Some (vital_message_bytes m)) 272 t s1 = (st2, s2)"
    by fastforce
  have sent: "st2 = STATUS_OK" "s' = s2"
    using assms(1,4) st1 m(1)
    by (auto simp: rte_dual_msgchannel_send_def cr ns split: if_splits)
  obtain st3 x where fx: "f h (vital_message_bytes m) t (ext s1) = (st3, x)" by fastforce
  have "s_netlink s1 = Some ad" using create_keeps_platform [OF cr] assms(2) by simp
  then have "f h (vital_message_bytes m) t (ext s1) = (STATUS_OK, ext s')"
    using ns sent assms(3) fx vital.length_enc [OF m(2)] by (auto simp: rte_netlink_send_def)
  then show ?thesis using m assms(6) by (intro exI [of _ m]) auto
qed

lemma frame_accepted:
  assumes "link_delivers c t (vital_message_bytes m) s s'" "cm_ready p (g_checksum s)" "wf_message m"
    and "vm_sender_id m = mc_expected_peer_id c" "vm_sequence_number m = mc_expected_sequence c"
    and "vm_crc64 m = crc64_bits (crc_poly p) (vital_message_covered m)"
    and "vm_payload_size m \<le> k" "0 < k" "unat (vm_payload_size m) \<le> 248"
  shows "\<exists>cm. cm_ready p cm \<and> rte_dual_msgchannel_receive (Some c) (Some buf) k t (Some z) s =
    (STATUS_OK, Some (copy_at 0 (take (unat (vm_payload_size m)) (vm_payload m)) buf),
     Some (vm_payload_size m), Some (vm_sequence_number m),
     Some (c\<lparr>mc_expected_sequence := vm_sequence_number m + 1\<rparr>), s'\<lparr>g_checksum := cm\<rparr>)"
proof -
  have ready: "cm_ready p (g_checksum s')"
    using assms(1,2) netlink_receive_frame by (fastforce simp: link_delivers_def)
  obtain cm where "cm_ready p cm" "rte_checksum_vital_message_verify (Some m)
      (mc_expected_sequence c) (Some buf) (unat k) (Some z) (g_checksum s') =
    (STATUS_OK, Some (copy_at 0 (take (unat (vm_payload_size m)) (vm_payload m)) buf),
     Some (vm_payload_size m), cm)"
    using message_verify_ok [OF ready assms(3,6,5), of "unat k" buf z] assms(7,9)
    by (auto simp: word_le_nat_alt)
  with receive_verified [OF assms(1,8)] vital.dec_enc [OF assms(3)] assms(4) show ?thesis by auto
qed

section \<open>A sample link\<close>

text \<open>A platform whose network link holds one frame: a send stores it, a receive returns it.\<close>

definition one_frame_link :: "bytes osadapter_netlink" where
  "one_frame_link = \<lparr>netlink_open = None, netlink_send = Some (\<lambda>h b t x. (STATUS_OK, b)),
     netlink_receive = Some (\<lambda>h b t x. (STATUS_OK, x, x)), netlink_close = None\<rparr>"

definition sample_platform :: "bytes \<Rightarrow> bytes rte" where
  "sample_platform b = (initial_rte b)\<lparr>s_netlink := Some one_frame_link, g_checksum := ertms_manager\<rparr>"

definition sample_msgchannel :: dual_msgchannel where
  "sample_msgchannel = \<lparr>mc_link = Some 0, mc_sender_id = 0, mc_expected_peer_id = 0,
     mc_next_sequence = 0, mc_expected_sequence = 0, mc_resync_on_sequence_error = False\<rparr>"

definition sealed :: "rte_vital_message \<Rightarrow> rte_vital_message" where
  "sealed m = m\<lparr>vm_crc64 := crc64_bits POLY_ERTMS (vital_message_covered m)\<rparr>"

lemma sealed_facts:
  "wf_message (sealed zero_message)"
  "vm_crc64 (sealed zero_message) = crc64_bits (crc_poly RTE_CRC64_ERTMS) (vital_message_covered (sealed zero_message))"
  "vm_sender_id (sealed zero_message) = 0" "vm_sequence_number (sealed zero_message) = 0"
  "vm_payload_size (sealed zero_message) = 0"
  by (simp_all add: sealed_def wf_message_def zero_message_def vital_message_covered_def)

lemma sample_platform_facts [simp]:
  "cm_ready RTE_CRC64_ERTMS (g_checksum (sample_platform b))"
  "s_netlink (sample_platform b) = Some one_frame_link"
  by (simp_all add: sample_platform_def ertms_manager_ready)

lemma sample_delivers:
  "length b = 272 \<Longrightarrow> link_delivers sample_msgchannel t b (sample_platform b) (sample_platform b)"
  by (simp add: link_delivers_def rte_netlink_receive_def sample_msgchannel_def
      one_frame_link_def sample_platform_def initial_rte_def)

lemma sample_receive:
  "\<exists>cm out sz. rte_dual_msgchannel_receive (Some sample_msgchannel) (Some []) 9 5 (Some 0)
      (sample_platform (vital_message_bytes (sealed zero_message))) =
    (STATUS_OK, out, sz, Some 0, Some (sample_msgchannel\<lparr>mc_expected_sequence := 1\<rparr>),
     (sample_platform (vital_message_bytes (sealed zero_message)))\<lparr>g_checksum := cm\<rparr>)"
  using frame_accepted [OF sample_delivers [where t = 5, OF vital.length_enc [OF sealed_facts(1)]]
      sample_platform_facts(1) sealed_facts(1), where k = 9 and buf = "[]" and z = 0]
  by (auto simp: sealed_facts sample_msgchannel_def)

lemma sample_send:
  "\<exists>q c' s'. rte_dual_msgchannel_send (Some sample_msgchannel) (Some [7, 8]) 2 5 (sample_platform []) =
    (STATUS_OK, q, c', s')"
proof -
  obtain crc cm where "rte_checksum_crc64 (Some (vital_message_covered (zero_message
      \<lparr>vm_payload_size := 2, vm_payload := copy_at 0 [7, 8] (replicate 248 0)\<rparr>))) 264 ertms_manager =
      (crc, cm)" by fastforce
  moreover have "cm_initialized ertms_manager \<noteq> 0" using ertms_manager_ready by (simp add: cm_ready_def)
  ultimately show ?thesis
    by (simp add: rte_dual_msgchannel_send_def rte_checksum_vital_message_create_def
        rte_timer_now_def rte_netlink_send_def sample_platform_def initial_rte_def
        sample_msgchannel_def one_frame_link_def zero_message_def with_checksum_def Let_def
        split: prod.split)
qed

section \<open>Properties\<close>

text \<open>C8. Nothing is accepted twice, out of order or with a gap: over any history of a channel
  without resynchronisation, whatever the network delivers, the numbers of the accepted frames
  are consecutive from the expected one, and so all different within one cycle of the counter.\<close>

theorem no_replay_no_reorder:
  assumes "msgchannel_run c s qs c' s'" "\<not> mc_resync_on_sequence_error c"
  shows "qs = map (\<lambda>i. mc_expected_sequence c + of_nat i) [0..<length qs] \<and>
    mc_expected_sequence c' = mc_expected_sequence c + of_nat (length qs) \<and>
    (length qs \<le> 2 ^ 32 \<longrightarrow> distinct qs)"
  using run_in_order [OF assms] distinct_consecutive [of "length qs" "mc_expected_sequence c"]
  by metis

theorem no_replay_no_reorder_witness:
  "\<exists>c' s'. msgchannel_run sample_msgchannel
      (sample_platform (vital_message_bytes (sealed zero_message))) [0] c' s' \<and>
    mc_expected_sequence c' = mc_expected_sequence sample_msgchannel + of_nat (length [0 :: u32])"
proof -
  obtain cm out sz where rcv: "rte_dual_msgchannel_receive (Some sample_msgchannel) (Some []) 9 5
      (Some 0) (sample_platform (vital_message_bytes (sealed zero_message))) =
    (STATUS_OK, out, sz, Some 0, Some (sample_msgchannel\<lparr>mc_expected_sequence := 1\<rparr>),
     (sample_platform (vital_message_bytes (sealed zero_message)))\<lparr>g_checksum := cm\<rparr>)"
    using sample_receive by blast
  have "msgchannel_run sample_msgchannel (sample_platform (vital_message_bytes (sealed zero_message)))
      [0] (sample_msgchannel\<lparr>mc_expected_sequence := 1\<rparr>)
      ((sample_platform (vital_message_bytes (sealed zero_message)))\<lparr>g_checksum := cm\<rparr>)"
    using msgchannel_run.receive [OF msgchannel_run.start rcv] by simp
  with no_replay_no_reorder [OF this] show ?thesis
    by (auto simp: sample_msgchannel_def)
qed

text \<open>C9. A frame goes through: whatever a send that returns OK hands to the network link makes
  every receive on it, at a peer that expects this sender and this number and has room, return
  OK with exactly the payload that was sent, and advances the peer's expectation by one.\<close>

theorem send_receive_roundtrip:
  assumes "rte_dual_msgchannel_send (Some a) (Some payload) n t s = (STATUS_OK, q, a', s')"
    and "s_netlink s = Some ad" "netlink_send ad = Some f" "mc_link a = Some h"
    and "cm_ready p (g_checksum s)" "unat n \<le> length payload"
  shows "q = Some (mc_next_sequence a) \<and> (\<exists>frame x. f h frame t x = (STATUS_OK, ext s') \<and>
    (\<forall>c t' r r' buf k z.
      link_delivers c t' frame r r' \<and> cm_ready p (g_checksum r) \<and>
      mc_expected_peer_id c = mc_sender_id a \<and> mc_expected_sequence c = mc_next_sequence a \<and>
      n \<le> k \<and> 0 < k \<longrightarrow>
      (\<exists>cm. rte_dual_msgchannel_receive (Some c) (Some buf) k t' (Some z) r =
        (STATUS_OK, Some (copy_at 0 (take (unat n) payload) buf), Some n, q,
         Some (c\<lparr>mc_expected_sequence := mc_next_sequence a + 1\<rparr>), r'\<lparr>g_checksum := cm\<rparr>))))"
proof -
  have q: "q = Some (mc_next_sequence a)"
    using assms(1) by (auto simp: rte_dual_msgchannel_send_def Let_def split: if_splits prod.splits)
  obtain m x where m: "f h (vital_message_bytes m) t x = (STATUS_OK, ext s')" "wf_message m"
    "vm_sequence_number m = mc_next_sequence a" "vm_sender_id m = mc_sender_id a"
    "vm_payload_size m = n" "unat n \<le> 248" "take (unat n) (vm_payload m) = take (unat n) payload"
    "vm_crc64 m = crc64_bits (crc_poly p) (vital_message_covered m)"
    using send_frame [OF assms] by blast
  have "\<exists>cm. rte_dual_msgchannel_receive (Some c) (Some buf) k t' (Some z) r =
        (STATUS_OK, Some (copy_at 0 (take (unat n) payload) buf), Some n, q,
         Some (c\<lparr>mc_expected_sequence := mc_next_sequence a + 1\<rparr>), r'\<lparr>g_checksum := cm\<rparr>)"
    if "link_delivers c t' (vital_message_bytes m) r r'" "cm_ready p (g_checksum r)"
      "mc_expected_peer_id c = mc_sender_id a" "mc_expected_sequence c = mc_next_sequence a"
      "n \<le> k" "0 < k" for c t' and r r' :: "'b rte" and buf k z
    using frame_accepted [OF that(1,2) m(2), of k buf z] that m q by auto
  with m(1) q show ?thesis by (intro conjI exI [of _ "vital_message_bytes m"] exI [of _ x]) auto
qed

theorem send_receive_roundtrip_witness:
  "\<exists>q c' s' frame. rte_dual_msgchannel_send (Some sample_msgchannel) (Some [7, 8]) 2 5
      (sample_platform []) = (STATUS_OK, q, c', s') \<and> ext s' = frame \<and>
    q = Some (mc_next_sequence sample_msgchannel)"
proof -
  obtain q c' s' where snd: "rte_dual_msgchannel_send (Some sample_msgchannel) (Some [7, 8]) 2 5
      (sample_platform []) = (STATUS_OK, q, c', s')" using sample_send by blast
  have link: "netlink_send one_frame_link = Some (\<lambda>h b t x. (STATUS_OK, b))"
    "mc_link sample_msgchannel = Some 0"
    by (simp_all add: one_frame_link_def sample_msgchannel_def)
  from send_receive_roundtrip [OF snd sample_platform_facts(2) link sample_platform_facts(1)] snd
  show ?thesis by auto
qed

text \<open>C10. Corruption on the way is rejected: with the ERTMS or the XZ polynomial, a frame whose
  checksum was right and that is changed inside a window of at most seven bytes of its covered
  part is never accepted. The receive returns an error and leaves the payload buffer alone.\<close>

theorem corrupted_frame_rejected:
  assumes "p \<in> {RTE_CRC64_ERTMS, RTE_CRC64_XZ}" "cm_ready p (g_checksum s)"
    and "wf_message m" "vm_crc64 m = crc64_bits (crc_poly p) (vital_message_covered m)"
    and "vital_message_covered m = pre @ as @ post"
    and "length as = length bs" "length as \<le> 7" "as \<noteq> bs"
    and "link_delivers c t (pre @ bs @ post @ le_bytes 8 (vm_crc64 m)) s s'"
    and "rte_dual_msgchannel_receive (Some c) (Some buf) k t (Some z) s = (st, out, sz, q, c', s'')"
  shows "st \<noteq> STATUS_OK \<and> out = Some buf \<and> q = None"
proof (cases "0 < k \<and> vm_sender_id (vital_message_of_bytes (pre @ bs @ post @ le_bytes 8 (vm_crc64 m)))
    = mc_expected_peer_id c")
  case False
  then consider "k = 0" | "0 < k" "vm_sender_id (vital_message_of_bytes
      (pre @ bs @ post @ le_bytes 8 (vm_crc64 m))) \<noteq> mc_expected_peer_id c"
    by (auto simp: word_gt_0)
  then show ?thesis
  proof cases
    case 1
    with assms(10) show ?thesis by (auto simp: rte_dual_msgchannel_receive_def)
  next
    case 2
    with assms(10) receive_masquerade [OF assms(9) 2] show ?thesis by simp
  qed
next
  case True
  let ?b = "pre @ bs @ post @ le_bytes 8 (vm_crc64 m)"
  let ?m = "vital_message_of_bytes ?b"
  have len: "length ?b = 272" using assms(9) by (simp add: link_delivers_def)
  have cov: "vital_message_covered ?m = pre @ bs @ post"
    using covered_of_bytes [OF len] len by simp
  have "length (pre @ bs @ post) = 264" using len by simp
  then have "drop 264 ?b = le_bytes 8 (vm_crc64 m)"
    by (metis append_assoc append_eq_conv_conj)
  then have "take 8 (drop 264 ?b) = le_bytes 8 (vm_crc64 m)" by (simp del: drop_append)
  then have keep: "vm_crc64 ?m = vm_crc64 m"
    by (simp add: vital_message_of_bytes_def le_word_le_bytes del: drop_append take_append)
  have "crc64_bits (crc_poly p) (pre @ as @ post) \<noteq> crc64_bits (crc_poly p) (pre @ bs @ post)"
    using crc64_bits_burst [OF assms(1,6,7), of pre post] assms(8) by blast
  then have bad: "vm_crc64 ?m \<noteq> crc64_bits (crc_poly p) (vital_message_covered ?m)"
    unfolding cov keep unfolding assms(4) unfolding assms(5) .
  have ready: "cm_ready p (g_checksum s')"
    using assms(2,9) netlink_receive_frame by (fastforce simp: link_delivers_def)
  have wf: "wf_message ?m" by (rule vital.wf_dec [OF len])
  obtain cm where "rte_checksum_vital_message_verify (Some ?m) (mc_expected_sequence c) (Some buf)
      (unat k) (Some z) (g_checksum s') = (STATUS_DATA_CORRUPTION, Some buf, Some z, cm)"
    using message_verify_bad_crc [OF ready wf bad] by blast
  with receive_rejected [OF assms(9) _ _ this] True assms(10) show ?thesis by auto
qed

theorem corrupted_frame_rejected_witness:
  "\<exists>st out sz q c' s'. rte_dual_msgchannel_receive (Some sample_msgchannel) (Some [5]) 9 5 (Some 0)
      (sample_platform ([1] @ replicate 263 0 @ le_bytes 8 (vm_crc64 (sealed zero_message)))) =
      (st, out, sz, q, c', s') \<and> st \<noteq> STATUS_OK \<and> out = Some [5] \<and> q = None"
proof -
  let ?b = "[] @ [1] @ replicate 263 0 @ le_bytes 8 (vm_crc64 (sealed zero_message))"
  have cov: "vital_message_covered (sealed zero_message) = [] @ [0] @ replicate 263 0"
    by (simp add: sealed_def zero_message_def vital_message_covered_def le_bytes_def
        upt_rec numeral_eq_Suc)
  obtain st out sz q c' s' where rcv: "rte_dual_msgchannel_receive (Some sample_msgchannel) (Some [5])
      9 5 (Some 0) (sample_platform ?b) = (st, out, sz, q, c', s')" by (metis prod_cases6)
  have "st \<noteq> STATUS_OK \<and> out = Some [5] \<and> q = None"
    by (rule corrupted_frame_rejected [where bs = "[1]", OF _ _ sealed_facts(1,2) cov _ _ _ _ rcv])
      (use sample_delivers [of ?b 5] in simp_all)
  with rcv show ?thesis by auto
qed

text \<open>A frame from any other sender is refused as a hardware fault before its number or
  checksum is looked at, and neither the channel nor the payload buffer changes.\<close>

theorem masquerade_refused:
  assumes "link_delivers c t b s s'" "0 < k"
    and "vm_sender_id (vital_message_of_bytes b) \<noteq> mc_expected_peer_id c"
  shows "rte_dual_msgchannel_receive (Some c) (Some buf) k t (Some z) s =
    (STATUS_HARDWARE_FAULT, Some buf, Some z, None, Some c, s')"
  using assms by (rule receive_masquerade)

theorem masquerade_refused_witness:
  "rte_dual_msgchannel_receive (Some (sample_msgchannel\<lparr>mc_expected_peer_id := 4\<rparr>)) (Some [5]) 9 5
      (Some 0) (sample_platform (vital_message_bytes (sealed zero_message))) =
    (STATUS_HARDWARE_FAULT, Some [5], Some 0, None,
     Some (sample_msgchannel\<lparr>mc_expected_peer_id := 4\<rparr>),
     sample_platform (vital_message_bytes (sealed zero_message)))"
proof (rule masquerade_refused)
  show "link_delivers (sample_msgchannel\<lparr>mc_expected_peer_id := 4\<rparr>) 5
      (vital_message_bytes (sealed zero_message))
      (sample_platform (vital_message_bytes (sealed zero_message)))
      (sample_platform (vital_message_bytes (sealed zero_message)))"
    using sample_delivers [OF vital.length_enc [OF sealed_facts(1)], of 5]
    by (simp add: link_delivers_def)
qed (simp_all add: vital.dec_enc [OF sealed_facts(1)] sealed_facts)

end
