(* ===== verification/Dual_Channel.thy ===== *)
theory Dual_Channel
  imports Dual_Msgchannel "HOL-Library.Monad_Syntax"
begin

text \<open>
  A dual channel over up to four redundant links, \<^verbatim>\<open>src/redundancy/dual/rte_dual_channel.c\<close>,
  and its frames, \<^verbatim>\<open>include/rte/redundancy/dual/rte_dual_frames.h\<close>. The wait for an
  acknowledgement is a loop that ends only if the clock or the link cooperate: it is a
  \<open>partial_function\<close> into \<open>option\<close>, so \<open>None\<close> is a call that does not return, and the operations
  that use it run in the option monad.
\<close>

section \<open>Frames\<close>

definition KIND_DATA :: u8 where "KIND_DATA = 0"
definition KIND_ACK :: u8 where "KIND_ACK = 1"
definition KIND_STATE :: u8 where "KIND_STATE = 2"
definition KIND_HEARTBEAT :: u8 where "KIND_HEARTBEAT = 3"

lemmas frame_kinds = KIND_DATA_def KIND_ACK_def KIND_STATE_def KIND_HEARTBEAT_def

definition frame_header :: "u8 \<Rightarrow> bytes" where
  "frame_header kind = [kind, 0, 0, 0]"

record dual_ack_frame =
  af_kind :: u8
  af_header_reserved :: bytes
  af_acked_sequence :: u32

record dual_state_frame =
  sf_kind :: u8
  sf_header_reserved :: bytes
  sf_state :: u8
  sf_channel_degraded :: u8
  sf_reserved :: u16
  sf_timestamp_ms :: u64

definition ack_frame_bytes :: "dual_ack_frame \<Rightarrow> bytes" where
  "ack_frame_bytes f = af_kind f # af_header_reserved f @ le_bytes 4 (af_acked_sequence f)"

definition ack_frame_of_bytes :: "bytes \<Rightarrow> dual_ack_frame" where
  "ack_frame_of_bytes b = \<lparr>af_kind = hd b, af_header_reserved = take 3 (drop 1 b),
     af_acked_sequence = le_word (take 4 (drop 4 b))\<rparr>"

definition state_frame_bytes :: "dual_state_frame \<Rightarrow> bytes" where
  "state_frame_bytes f = sf_kind f # sf_header_reserved f @ [sf_state f, sf_channel_degraded f] @
     le_bytes 2 (sf_reserved f) @ le_bytes 8 (sf_timestamp_ms f)"

definition state_frame_of_bytes :: "bytes \<Rightarrow> dual_state_frame" where
  "state_frame_of_bytes b = \<lparr>sf_kind = hd b, sf_header_reserved = take 3 (drop 1 b),
     sf_state = b ! 4, sf_channel_degraded = b ! 5, sf_reserved = le_word (take 2 (drop 6 b)),
     sf_timestamp_ms = le_word (take 8 (drop 8 b))\<rparr>"

text \<open>The heartbeat has four bytes of padding between its header and its time stamp.\<close>

definition heartbeat_frame_bytes :: "u64 \<Rightarrow> bytes" where
  "heartbeat_frame_bytes ts = frame_header KIND_HEARTBEAT @ replicate 4 0 @ le_bytes 8 ts"

text \<open>Both layouts are codecs of their frame size.\<close>

definition wf_ack_frame :: "dual_ack_frame \<Rightarrow> bool" where
  "wf_ack_frame f \<longleftrightarrow> length (af_header_reserved f) = 3"

definition wf_state_frame :: "dual_state_frame \<Rightarrow> bool" where
  "wf_state_frame f \<longleftrightarrow> length (sf_header_reserved f) = 3"

lemma hd_take_drop: "k + 1 \<le> length b \<Longrightarrow> hd b # take k (drop 1 b) = take (k + 1) b"
  by (cases b) simp_all

interpretation ack: frame_codec ack_frame_bytes ack_frame_of_bytes wf_ack_frame 8
proof
  fix b :: bytes
  assume b: "length b = 8"
  have word: "le_bytes 4 (le_word (take 4 (drop 4 b)) :: u32) = take 4 (drop 4 b)"
    using b le_bytes_le_word [of "take 4 (drop 4 b)", where 'a = 32] by simp
  have "ack_frame_bytes (ack_frame_of_bytes b) = (hd b # take 3 (drop 1 b)) @ take 4 (drop 4 b)"
    unfolding ack_frame_bytes_def ack_frame_of_bytes_def dual_ack_frame.simps word by simp
  also have "\<dots> = b" using b hd_take_drop [of 3 b] by simp
  finally show "ack_frame_bytes (ack_frame_of_bytes b) = b" .
qed (auto simp: wf_ack_frame_def ack_frame_bytes_def ack_frame_of_bytes_def le_word_whole)

interpretation state: frame_codec state_frame_bytes state_frame_of_bytes wf_state_frame 16
proof
  fix b :: bytes
  assume b: "length b = 16"
  have words: "le_bytes 2 (le_word (take 2 (drop 6 b)) :: u16) = take 2 (drop 6 b)"
    "le_bytes 8 (le_word (take 8 (drop 8 b)) :: u64) = take 8 (drop 8 b)"
    using b le_bytes_le_word [of "take 2 (drop 6 b)", where 'a = 16]
      le_bytes_le_word [of "take 8 (drop 8 b)", where 'a = 64] by simp_all
  have fields: "[b ! 4, b ! 5] = take 2 (drop 4 b)"
    using b by (simp add: list_eq_iff_nth_eq less_Suc_eq numeral_2_eq_2)
  have "state_frame_bytes (state_frame_of_bytes b) = (hd b # take 3 (drop 1 b)) @
      take 2 (drop 4 b) @ take 2 (drop 6 b) @ take 8 (drop 8 b)"
    unfolding state_frame_bytes_def state_frame_of_bytes_def dual_state_frame.simps words fields by simp
  also have "\<dots> = b"
    using b hd_take_drop [of 3 b] append_take_drop_id [of 4 b] append_take_drop_id [of 2 "drop 4 b"]
      append_take_drop_id [of 2 "drop 6 b"] by simp
  finally show "state_frame_bytes (state_frame_of_bytes b) = b" .
qed (auto simp: wf_state_frame_def state_frame_bytes_def state_frame_of_bytes_def le_word_whole
    nth_append)

section \<open>Data\<close>

definition DUAL_MAX_LINKS :: nat where "DUAL_MAX_LINKS = 4"
definition DUAL_MAX_PAYLOAD :: nat where "DUAL_MAX_PAYLOAD = 244"
definition STALL_POLL_LIMIT :: nat where "STALL_POLL_LIMIT = 32"

type_synonym 'x status_callback =
  "rte_dual_channel_status \<Rightarrow> rte_dual_channel_status \<Rightarrow> nat option \<Rightarrow> 'x \<Rightarrow> 'x"

text \<open>The arrays have \<open>DUAL_MAX_LINKS\<close> entries, of which the first \<open>dc_link_count\<close> are in use.\<close>

record 'x dual_channel =
  dc_links :: "dual_msgchannel list"
  dc_link_count :: nat
  dc_link_up :: "bool list"
  dc_last_status :: rte_dual_channel_status
  dc_status_callback :: "'x status_callback option"
  dc_status_callback_ctx :: "nat option"
  dc_ack_timeout_ms :: duration_ms
  dc_pending_data_valid :: bool
  dc_pending_data :: bytes
  dc_pending_data_size :: u8
  dc_pending_state_valid :: bool
  dc_pending_state :: dual_state_frame

record 'x dual_channel_config =
  dcc_links :: "handle option list"
  dcc_link_count :: nat
  dcc_sender_id :: u32
  dcc_expected_peer_id :: u32
  dcc_ack_timeout_ms :: duration_ms
  dcc_status_callback :: "'x status_callback option"
  dcc_status_callback_ctx :: "nat option"

datatype dual_poll_result =
    POLL_NONE
  | POLL_DATA
  | POLL_ACK u32
  | POLL_STATE
  | POLL_HEARTBEAT

section \<open>Status\<close>

definition dual_channel_compute_status :: "'x dual_channel \<Rightarrow> rte_dual_channel_status" where
  "dual_channel_compute_status ch =
    (let up_count = length (filter id (take (dc_link_count ch) (dc_link_up ch))) in
     if up_count = 0 then CHANNEL_DOWN
     else if up_count = dc_link_count ch then CHANNEL_FULL
     else CHANNEL_DEGRADED)"

definition dual_channel_update_status ::
  "'x dual_channel \<Rightarrow> 'x rte \<Rightarrow> 'x dual_channel \<times> 'x rte" where
  "dual_channel_update_status ch s =
    (let new_status = dual_channel_compute_status ch;
         old_status = dc_last_status ch
     in if new_status \<noteq> old_status
        then (ch\<lparr>dc_last_status := new_status\<rparr>,
              case dc_status_callback ch of None \<Rightarrow> s
              | Some f \<Rightarrow> s\<lparr>ext := f new_status old_status (dc_status_callback_ctx ch) (ext s)\<rparr>)
        else (ch, s))"

section \<open>One link\<close>

text \<open>A send on one of the links, which keeps the link's sequence numbers.\<close>

definition link_send ::
  "nat \<Rightarrow> bytes \<Rightarrow> u8 \<Rightarrow> 'x dual_channel \<Rightarrow> 'x rte \<Rightarrow>
    rte_status \<times> u32 option \<times> 'x dual_channel \<times> 'x rte" where
  "link_send i payload n ch s =
    (let (st, q, c, s1) = rte_dual_msgchannel_send (Some (dc_links ch ! i)) (Some payload) n
           (dc_ack_timeout_ms ch) s
     in (st, q, case c of None \<Rightarrow> ch | Some c' \<Rightarrow> ch\<lparr>dc_links := (dc_links ch)[i := c']\<rparr>, s1))"

definition ack_for :: "u32 \<Rightarrow> bytes" where
  "ack_for q = ack_frame_bytes \<lparr>af_kind = KIND_ACK, af_header_reserved = [0, 0, 0],
     af_acked_sequence = q\<rparr>"

text \<open>What a poll does with a frame that was received and verified.\<close>

definition dual_channel_handle_frame ::
  "nat \<Rightarrow> bytes \<Rightarrow> u8 \<Rightarrow> u32 \<Rightarrow> 'x dual_channel \<Rightarrow> 'x rte \<Rightarrow>
    rte_status \<times> dual_poll_result \<times> 'x dual_channel \<times> 'x rte" where
  "dual_channel_handle_frame i raw raw_size q ch s =
    (let kind = hd raw in
     if kind = KIND_DATA
     then
       let app_size = raw_size - 4;
           ch1 = (if unat app_size \<le> DUAL_MAX_PAYLOAD
                  then ch\<lparr>dc_pending_data := copy_at 0
                           (take (unat app_size) (drop 4 raw)) (dc_pending_data ch),
                         dc_pending_data_size := app_size,
                         dc_pending_data_valid := True\<rparr>
                  else ch);
           (_, _, ch2, s2) = link_send i (ack_for q) 8 ch1 s
       in (STATUS_OK, POLL_DATA, ch2, s2)
     else if kind = KIND_ACK
     then (if raw_size < 8 then (STATUS_DATA_CORRUPTION, POLL_NONE, ch, s)
           else (STATUS_OK, POLL_ACK (af_acked_sequence (ack_frame_of_bytes (take 8 raw))), ch, s))
     else if kind = KIND_STATE
     then (if raw_size < 16 then (STATUS_DATA_CORRUPTION, POLL_NONE, ch, s)
           else (STATUS_OK, POLL_STATE,
                 ch\<lparr>dc_pending_state := state_frame_of_bytes (take 16 raw),
                    dc_pending_state_valid := True\<rparr>, s))
     else if kind = KIND_HEARTBEAT
     then
       let (_, _, ch2, s2) = link_send i (ack_for q) 8 ch s
       in (STATUS_OK, POLL_HEARTBEAT, ch2, s2)
     else (STATUS_OK, POLL_NONE, ch, s))"

definition dual_channel_poll_link_once ::
  "nat \<Rightarrow> duration_ms \<Rightarrow> 'x dual_channel \<Rightarrow> 'x rte \<Rightarrow>
    rte_status \<times> dual_poll_result \<times> 'x dual_channel \<times> 'x rte" where
  "dual_channel_poll_link_once i timeout_ms ch s =
    (let (st, raw', size', q', c, s1) = rte_dual_msgchannel_receive (Some (dc_links ch ! i))
           (Some (replicate MSGCHANNEL_MAX_PAYLOAD 0)) 248 timeout_ms (Some 0) s;
         ch1 = (case c of None \<Rightarrow> ch | Some c' \<Rightarrow> ch\<lparr>dc_links := (dc_links ch)[i := c']\<rparr>)
     in case (raw', size', q') of
          (Some raw, Some raw_size, Some q) \<Rightarrow>
            if st \<noteq> STATUS_OK then (st, POLL_NONE, ch1, s1)
            else if raw_size < 4 then (STATUS_DATA_CORRUPTION, POLL_NONE, ch1, s1)
            else dual_channel_handle_frame i raw raw_size q ch1 s1
        | _ \<Rightarrow> (st, POLL_NONE, ch1, s1))"

section \<open>Initialisation\<close>

definition rte_dual_channel_init ::
  "'x dual_channel option \<Rightarrow> 'x dual_channel_config option \<Rightarrow> rte_status \<times> 'x dual_channel option" where
  "rte_dual_channel_init channel config =
    (case (channel, config) of
       (Some ch, Some cfg) \<Rightarrow>
         if dcc_link_count cfg = 0 \<or> dcc_link_count cfg > DUAL_MAX_LINKS
         then (STATUS_INVALID_PARAM, channel)
         else if \<exists>i \<in> set [0..<dcc_link_count cfg]. dcc_links cfg ! i = None
         then (STATUS_INVALID_PARAM, channel)
         else
           let init = (\<lambda>i. case rte_dual_msgchannel_init (Some (dc_links ch ! i))
                   (Some \<lparr>mcc_link = dcc_links cfg ! i, mcc_sender_id = dcc_sender_id cfg,
                      mcc_expected_peer_id = dcc_expected_peer_id cfg\<rparr>) of
                   (_, Some c) \<Rightarrow> c | (_, None) \<Rightarrow> dc_links ch ! i)
           in (STATUS_OK, Some (ch\<lparr>dc_link_count := dcc_link_count cfg,
                 dc_links := map init [0..<dcc_link_count cfg] @ drop (dcc_link_count cfg) (dc_links ch),
                 dc_link_up := replicate DUAL_MAX_LINKS False,
                 dc_ack_timeout_ms := dcc_ack_timeout_ms cfg,
                 dc_status_callback := dcc_status_callback cfg,
                 dc_status_callback_ctx := dcc_status_callback_ctx cfg,
                 dc_last_status := CHANNEL_DOWN, dc_pending_data_valid := False,
                 dc_pending_data_size := 0, dc_pending_state_valid := False,
                 dc_pending_state := state_frame_of_bytes (replicate 16 0)\<rparr>))
     | _ \<Rightarrow> (STATUS_INVALID_PARAM, channel))"

text \<open>A channel object of zero bytes, as clearing its memory leaves it.\<close>

definition cleared_channel :: "'x dual_channel" where
  "cleared_channel = \<lparr>dc_links = replicate DUAL_MAX_LINKS \<lparr>mc_link = None, mc_sender_id = 0,
       mc_expected_peer_id = 0, mc_next_sequence = 0, mc_expected_sequence = 0,
       mc_resync_on_sequence_error = False\<rparr>,
     dc_link_count = 0, dc_link_up = replicate DUAL_MAX_LINKS False, dc_last_status = CHANNEL_DOWN,
     dc_status_callback = None, dc_status_callback_ctx = None, dc_ack_timeout_ms = 0,
     dc_pending_data_valid = False, dc_pending_data = replicate DUAL_MAX_PAYLOAD 0,
     dc_pending_data_size = 0, dc_pending_state_valid = False,
     dc_pending_state = state_frame_of_bytes (replicate 16 0)\<rparr>"

section \<open>Sending\<close>

text \<open>
  The first hard fault of a call, \<^verbatim>\<open>saw_hard_fault\<close> with \<^verbatim>\<open>hard_fault_status\<close>, is an option.
\<close>

definition note_fault :: "rte_status option \<Rightarrow> rte_status \<Rightarrow> rte_status option" where
  "note_fault fault st =
    (if st = STATUS_HARDWARE_FAULT \<and> fault = None then Some st else fault)"

partial_function (option) dual_wait_ack ::
  "nat \<Rightarrow> u32 \<Rightarrow> timestamp_ms \<Rightarrow> duration_ms \<Rightarrow> nat \<Rightarrow> rte_status option \<Rightarrow> 'x dual_channel \<Rightarrow> 'x rte \<Rightarrow>
    (bool \<times> rte_status option \<times> 'x dual_channel \<times> 'x rte) option" where
  "dual_wait_ack i sent start_ms remaining stall_polls fault ch s =
    (if remaining > 0 \<and> stall_polls < STALL_POLL_LIMIT
     then
       let (poll_status, result, ch1, s1) = dual_channel_poll_link_once i remaining ch s in
       if poll_status = STATUS_OK \<and> result = POLL_ACK sent then Some (True, fault, ch1, s1)
       else if poll_status = STATUS_HARDWARE_FAULT
       then Some (False, note_fault fault poll_status, ch1, s1)
       else
         let (_, now_ms, s2) = rte_timer_now s1 in
         if now_ms > start_ms
         then
           let elapsed = now_ms - start_ms in
           dual_wait_ack i sent start_ms
             (if elapsed \<ge> ucast (dc_ack_timeout_ms ch1) then 0
              else dc_ack_timeout_ms ch1 - ucast elapsed) 0 fault ch1 s2
         else dual_wait_ack i sent start_ms remaining (stall_polls + 1) fault ch1 s2
     else Some (False, fault, ch, s))"

definition dual_channel_send_to_link_and_wait_ack ::
  "nat \<Rightarrow> bytes \<Rightarrow> u8 \<Rightarrow> rte_status option \<Rightarrow> 'x dual_channel \<Rightarrow> 'x rte \<Rightarrow>
    (bool \<times> rte_status option \<times> 'x dual_channel \<times> 'x rte) option" where
  "dual_channel_send_to_link_and_wait_ack i frame frame_size fault ch s =
    (let (send_status, q, ch1, s1) = link_send i frame frame_size ch s;
         fault1 = note_fault fault send_status;
         sent_sequence = (case q of None \<Rightarrow> 0 | Some x \<Rightarrow> x)
     in if send_status = STATUS_OK
        then
          let (_, start_ms, s2) = rte_timer_now s1
          in dual_wait_ack i sent_sequence start_ms (dc_ack_timeout_ms ch1) 0 fault1 ch1 s2
        else Some (False, fault1, ch1, s1))"

text \<open>The loop over the links of both sending operations.\<close>

fun send_to_links ::
  "nat list \<Rightarrow> bytes \<Rightarrow> u8 \<Rightarrow> nat \<Rightarrow> rte_status option \<Rightarrow> 'x dual_channel \<Rightarrow> 'x rte \<Rightarrow>
    (nat \<times> rte_status option \<times> 'x dual_channel \<times> 'x rte) option" where
  "send_to_links [] frame n ack_count fault ch s = Some (ack_count, fault, ch, s)"
| "send_to_links (i # is) frame n ack_count fault ch s = do {
     (up, fault1, ch1, s1) \<leftarrow> dual_channel_send_to_link_and_wait_ack i frame n fault ch s;
     send_to_links is frame n (if up then ack_count + 1 else ack_count) fault1
       (ch1\<lparr>dc_link_up := (dc_link_up ch1)[i := up]\<rparr>) s1
   }"

definition send_frame_and_report ::
  "bytes \<Rightarrow> u8 \<Rightarrow> 'x dual_channel \<Rightarrow> 'x rte \<Rightarrow>
    (rte_status \<times> nat option \<times> 'x dual_channel option \<times> 'x rte) option" where
  "send_frame_and_report frame n ch s = do {
     (ack_count, fault, ch1, s1) \<leftarrow> send_to_links [0..<dc_link_count ch] frame n 0 None ch s;
     let (ch2, s2) = dual_channel_update_status ch1 s1;
     Some (if ack_count > 0 then STATUS_OK
           else (case fault of None \<Rightarrow> STATUS_TIMEOUT | Some st \<Rightarrow> st),
           Some ack_count, Some ch2, s2)
   }"

definition rte_dual_channel_send ::
  "'x dual_channel option \<Rightarrow> bytes option \<Rightarrow> u8 \<Rightarrow> 'x rte \<Rightarrow>
    (rte_status \<times> nat option \<times> 'x dual_channel option \<times> 'x rte) option" where
  "rte_dual_channel_send channel payload payload_size s =
    (case channel of
       None \<Rightarrow> Some (STATUS_INVALID_PARAM, None, channel, s)
     | Some ch \<Rightarrow>
         if payload = None \<and> payload_size \<noteq> 0 then Some (STATUS_INVALID_PARAM, None, channel, s)
         else if unat payload_size > DUAL_MAX_PAYLOAD
         then Some (STATUS_INVALID_PARAM, None, channel, s)
         else
           let body = (case payload of None \<Rightarrow> [] | Some p \<Rightarrow> take (unat payload_size) p)
           in send_frame_and_report (frame_header KIND_DATA @ body) (4 + payload_size) ch s)"

definition rte_dual_channel_send_heartbeat ::
  "'x dual_channel option \<Rightarrow> 'x rte \<Rightarrow>
    (rte_status \<times> nat option \<times> 'x dual_channel option \<times> 'x rte) option" where
  "rte_dual_channel_send_heartbeat channel s =
    (case channel of
       None \<Rightarrow> Some (STATUS_INVALID_PARAM, None, channel, s)
     | Some ch \<Rightarrow>
         let (_, now_ms, s1) = rte_timer_now s
         in send_frame_and_report (heartbeat_frame_bytes now_ms) 16 ch s1)"

fun send_state_to_links ::
  "nat list \<Rightarrow> bytes \<Rightarrow> nat \<Rightarrow> 'x dual_channel \<Rightarrow> 'x rte \<Rightarrow> nat \<times> 'x dual_channel \<times> 'x rte" where
  "send_state_to_links [] frame sent_count ch s = (sent_count, ch, s)"
| "send_state_to_links (i # is) frame sent_count ch s =
    (let (st, _, ch1, s1) = link_send i frame 16 ch s
     in send_state_to_links is frame (if st = STATUS_OK then sent_count + 1 else sent_count) ch1 s1)"

definition rte_dual_channel_send_state_frame ::
  "'x dual_channel option \<Rightarrow> rte_dual_state \<Rightarrow> bool \<Rightarrow> u64 \<Rightarrow> 'x rte \<Rightarrow>
    rte_status \<times> 'x dual_channel option \<times> 'x rte" where
  "rte_dual_channel_send_state_frame channel state channel_degraded timestamp_ms s =
    (case channel of
       None \<Rightarrow> (STATUS_INVALID_PARAM, channel, s)
     | Some ch \<Rightarrow>
         let frame = state_frame_bytes \<lparr>sf_kind = KIND_STATE, sf_header_reserved = [0, 0, 0],
               sf_state = dual_state_code state,
               sf_channel_degraded = (if channel_degraded then 1 else 0), sf_reserved = 0,
               sf_timestamp_ms = timestamp_ms\<rparr>;
             (sent_count, ch1, s1) = send_state_to_links [0..<dc_link_count ch] frame 0 ch s
         in (if sent_count > 0 then STATUS_OK else STATUS_TIMEOUT, Some ch1, s1))"

section \<open>Receiving\<close>

text \<open>One attempt on every link, whatever the earlier ones gave.\<close>

fun poll_links ::
  "nat list \<Rightarrow> duration_ms \<Rightarrow> rte_status option \<Rightarrow> 'x dual_channel \<Rightarrow> 'x rte \<Rightarrow>
    rte_status option \<times> 'x dual_channel \<times> 'x rte" where
  "poll_links [] t fault ch s = (fault, ch, s)"
| "poll_links (i # is) t fault ch s =
    (let (st, _, ch1, s1) = dual_channel_poll_link_once i t ch s
     in poll_links is t (note_fault fault st) ch1 s1)"

definition per_link_timeout :: "duration_ms \<Rightarrow> 'x dual_channel \<Rightarrow> duration_ms" where
  "per_link_timeout t ch = (if dc_link_count ch > 0 then t div of_nat (dc_link_count ch) else 0)"

text \<open>The results hold the caller's buffer and the size written.\<close>

definition rte_dual_channel_receive ::
  "'x dual_channel option \<Rightarrow> bytes option \<Rightarrow> u8 \<Rightarrow> duration_ms \<Rightarrow> u8 option \<Rightarrow> 'x rte \<Rightarrow>
    rte_status \<times> bytes option \<times> u8 option \<times> 'x dual_channel option \<times> 'x rte" where
  "rte_dual_channel_receive channel out_payload max_size timeout_ms out_size s =
    (case (channel, out_payload, out_size) of
       (Some ch, Some buf, Some _) \<Rightarrow>
         if max_size = 0 then (STATUS_INVALID_PARAM, out_payload, out_size, channel, s)
         else
           let (fault, ch1, s1) =
                 (if \<not> dc_pending_data_valid ch
                  then poll_links [0..<dc_link_count ch] (per_link_timeout timeout_ms ch) None ch s
                  else (None, ch, s))
           in if \<not> dc_pending_data_valid ch1
              then (case fault of None \<Rightarrow> STATUS_TIMEOUT | Some st \<Rightarrow> st,
                    out_payload, out_size, Some ch1, s1)
              else if dc_pending_data_size ch1 > max_size
              then (STATUS_INVALID_PARAM, out_payload, out_size, Some ch1, s1)
              else (STATUS_OK,
                    Some (copy_at 0 (take (unat (dc_pending_data_size ch1)) (dc_pending_data ch1)) buf),
                    Some (dc_pending_data_size ch1), Some (ch1\<lparr>dc_pending_data_valid := False\<rparr>), s1)
     | _ \<Rightarrow> (STATUS_INVALID_PARAM, out_payload, out_size, channel, s))"

definition rte_dual_channel_receive_state_frame ::
  "'x dual_channel option \<Rightarrow> duration_ms \<Rightarrow> dual_state_frame option \<Rightarrow> 'x rte \<Rightarrow>
    rte_status \<times> dual_state_frame option \<times> 'x dual_channel option \<times> 'x rte" where
  "rte_dual_channel_receive_state_frame channel timeout_ms out_frame s =
    (case (channel, out_frame) of
       (Some ch, Some _) \<Rightarrow>
         let (_, ch1, s1) =
               (if \<not> dc_pending_state_valid ch
                then poll_links [0..<dc_link_count ch] (per_link_timeout timeout_ms ch) None ch s
                else (None, ch, s))
         in if \<not> dc_pending_state_valid ch1 then (STATUS_TIMEOUT, out_frame, Some ch1, s1)
            else (STATUS_OK, Some (dc_pending_state ch1),
                  Some (ch1\<lparr>dc_pending_state_valid := False\<rparr>), s1)
     | _ \<Rightarrow> (STATUS_INVALID_PARAM, out_frame, channel, s))"

section \<open>Queries\<close>

definition rte_dual_channel_get_status :: "'x dual_channel option \<Rightarrow> rte_dual_channel_status" where
  "rte_dual_channel_get_status channel =
    (case channel of None \<Rightarrow> CHANNEL_DOWN | Some ch \<Rightarrow> dc_last_status ch)"

definition rte_dual_channel_is_link_up :: "'x dual_channel option \<Rightarrow> nat \<Rightarrow> bool" where
  "rte_dual_channel_is_link_up channel link_index =
    (case channel of None \<Rightarrow> False
     | Some ch \<Rightarrow> if link_index \<ge> dc_link_count ch then False else dc_link_up ch ! link_index)"

definition rte_dual_channel_set_resync_on_sequence_error ::
  "'x dual_channel option \<Rightarrow> bool \<Rightarrow> rte_status \<times> 'x dual_channel option" where
  "rte_dual_channel_set_resync_on_sequence_error channel enable =
    (case channel of None \<Rightarrow> (STATUS_INVALID_PARAM, None)
     | Some ch \<Rightarrow> (STATUS_OK, Some (ch\<lparr>dc_links := map (\<lambda>c.
         case rte_dual_msgchannel_set_resync_on_sequence_error (Some c) enable of
           (_, Some c') \<Rightarrow> c' | (_, None) \<Rightarrow> c) (dc_links ch)\<rparr>)))"

section \<open>What the links leave alone\<close>

text \<open>The part of a channel that polling and sending on a link do not touch.\<close>

definition same_setup :: "'x dual_channel \<Rightarrow> 'x dual_channel \<Rightarrow> bool" where
  "same_setup ch ch' \<longleftrightarrow> dc_link_count ch' = dc_link_count ch \<and> dc_link_up ch' = dc_link_up ch \<and>
     dc_last_status ch' = dc_last_status ch \<and> dc_ack_timeout_ms ch' = dc_ack_timeout_ms ch \<and>
     dc_status_callback ch' = dc_status_callback ch \<and>
     map mc_link (dc_links ch') = map mc_link (dc_links ch)"

lemma same_setup_refl [simp]: "same_setup ch ch"
  by (simp add: same_setup_def)

lemma same_setup_trans: "same_setup a b \<Longrightarrow> same_setup b c \<Longrightarrow> same_setup a c"
  by (simp add: same_setup_def)

lemma same_setup_length: "same_setup a b \<Longrightarrow> length (dc_links b) = length (dc_links a)"
  by (metis length_map same_setup_def)

lemma map_update_same: "f x = f (xs ! i) \<Longrightarrow> map f (xs[i := x]) = map f xs"
  by (metis list_update_beyond list_update_id map_update not_less nth_map)

lemma link_send_setup:
  "link_send i pl n ch s = (st, q, ch', s') \<Longrightarrow> same_setup ch ch'"
  by (auto simp: link_send_def same_setup_def dest!: send_step intro!: map_update_same
      split: prod.splits option.splits)

lemma receive_link_setup:
  assumes "rte_dual_msgchannel_receive (Some (dc_links ch ! i)) out k t sz s = (st, out', sz', q, c, s')"
  shows "same_setup ch (case c of None \<Rightarrow> ch | Some c' \<Rightarrow> ch\<lparr>dc_links := (dc_links ch)[i := c']\<rparr>)"
  using receive_step [OF assms] by (auto simp: same_setup_def intro!: map_update_same)

lemma same_setup_pending [simp]:
  "same_setup ch (ch'\<lparr>dc_pending_data := a, dc_pending_data_size := b, dc_pending_data_valid := c\<rparr>) =
    same_setup ch ch'"
  "same_setup ch (ch'\<lparr>dc_pending_state := f, dc_pending_state_valid := c\<rparr>) = same_setup ch ch'"
  by (simp_all add: same_setup_def)

text \<open>
  A poll in three cases: the receive failed; it succeeded and nothing was sent back; it succeeded
  and an acknowledgement went out.
\<close>

lemma handle_cases:
  assumes "dual_channel_handle_frame i raw z q ch s = (st, r, ch', s')"
  shows "(s' = s \<and> same_setup ch ch' \<and> st \<in> {STATUS_OK, STATUS_DATA_CORRUPTION}) \<or>
     (st = STATUS_OK \<and> r \<in> {POLL_DATA, POLL_HEARTBEAT} \<and>
        (\<exists>n ch1 st2 q2. link_send i (ack_for q) n ch1 s = (st2, q2, ch', s') \<and> same_setup ch ch1))"
proof -
  consider "hd raw = KIND_DATA" | "hd raw = KIND_HEARTBEAT"
    | "hd raw \<noteq> KIND_DATA" "hd raw \<noteq> KIND_HEARTBEAT" by blast
  then show ?thesis
  proof cases
    case 1
    let ?c = "if unat (z - 4) \<le> DUAL_MAX_PAYLOAD
       then ch\<lparr>dc_pending_data := copy_at 0 (take (unat (z - 4)) (drop 4 raw)) (dc_pending_data ch),
               dc_pending_data_size := z - 4, dc_pending_data_valid := True\<rparr> else ch"
    obtain st2 q2 ch2 s2 where send: "link_send i (ack_for q) 8 ?c s = (st2, q2, ch2, s2)"
      by (metis prod_cases4)
    have "same_setup ch ?c" by simp
    with assms 1 send show ?thesis
      by (auto simp: dual_channel_handle_frame_def Let_def)
  next
    case 2
    obtain st2 q2 ch2 s2 where send: "link_send i (ack_for q) 8 ch s = (st2, q2, ch2, s2)"
      by (metis prod_cases4)
    have "hd raw \<noteq> KIND_DATA" "hd raw \<noteq> KIND_ACK" "hd raw \<noteq> KIND_STATE"
      using 2 by (simp_all add: frame_kinds)
    with assms 2 send show ?thesis
      by (auto simp: dual_channel_handle_frame_def Let_def intro: same_setup_refl)
  next
    case 3
    with assms show ?thesis
      by (auto simp: dual_channel_handle_frame_def Let_def split: if_splits)
  qed
qed

lemma poll_cases:
  assumes "dual_channel_poll_link_once i t ch s = (st, r, ch', s')"
  obtains st1 raw sz q c s1 where
    "rte_dual_msgchannel_receive (Some (dc_links ch ! i)) (Some (replicate MSGCHANNEL_MAX_PAYLOAD 0))
       248 t (Some 0) s = (st1, raw, sz, q, c, s1)"
    "(st1 \<noteq> STATUS_OK \<and> st = st1 \<and> r = POLL_NONE \<and> s' = s1 \<and> same_setup ch ch' \<and>
        dc_pending_state_valid ch' = dc_pending_state_valid ch) \<or>
     (st1 = STATUS_OK \<and> s' = s1 \<and> same_setup ch ch' \<and> st \<noteq> STATUS_HARDWARE_FAULT) \<or>
     (st1 = STATUS_OK \<and> st = STATUS_OK \<and> r \<in> {POLL_DATA, POLL_HEARTBEAT} \<and>
        (\<exists>pl n ch1 st2 q2. link_send i pl n ch1 s1 = (st2, q2, ch', s') \<and> same_setup ch ch1))"
proof -
  obtain st1 raw sz q c s1 where rcv: "rte_dual_msgchannel_receive (Some (dc_links ch ! i))
      (Some (replicate MSGCHANNEL_MAX_PAYLOAD 0)) 248 t (Some 0) s = (st1, raw, sz, q, c, s1)"
    by (metis prod_cases6)
  let ?ch = "case c of None \<Rightarrow> ch | Some c' \<Rightarrow> ch\<lparr>dc_links := (dc_links ch)[i := c']\<rparr>"
  note same = receive_link_setup [OF rcv]
  have valid: "dc_pending_state_valid ?ch = dc_pending_state_valid ch" by (simp split: option.split)
  show thesis
  proof (rule that [OF rcv])
    show "(st1 \<noteq> STATUS_OK \<and> st = st1 \<and> r = POLL_NONE \<and> s' = s1 \<and> same_setup ch ch' \<and>
        dc_pending_state_valid ch' = dc_pending_state_valid ch) \<or>
     (st1 = STATUS_OK \<and> s' = s1 \<and> same_setup ch ch' \<and> st \<noteq> STATUS_HARDWARE_FAULT) \<or>
     (st1 = STATUS_OK \<and> st = STATUS_OK \<and> r \<in> {POLL_DATA, POLL_HEARTBEAT} \<and>
        (\<exists>pl n ch1 st2 q2. link_send i pl n ch1 s1 = (st2, q2, ch', s') \<and> same_setup ch ch1))"
    proof (cases "\<exists>b z x. raw = Some b \<and> sz = Some z \<and> q = Some x \<and> st1 = STATUS_OK \<and> 4 \<le> z")
      case False
      then have "(st = st1 \<or> st1 = STATUS_OK \<and> st = STATUS_DATA_CORRUPTION) \<and>
          r = POLL_NONE \<and> ch' = ?ch \<and> s' = s1"
        using assms unfolding dual_channel_poll_link_once_def rcv Let_def
        by (cases raw; cases sz; cases q) (auto simp: not_less split: if_splits)
      with same valid show ?thesis by auto
    next
      case True
      then obtain b z x where bzx: "raw = Some b" "sz = Some z" "q = Some x" "st1 = STATUS_OK" "4 \<le> z"
        by blast
      then have "dual_channel_handle_frame i b z x ?ch s1 = (st, r, ch', s')"
        using assms unfolding dual_channel_poll_link_once_def rcv Let_def by (simp add: leD)
      note frame = handle_cases [OF this]
      have trans: "same_setup ch a" if "same_setup ?ch a" for a
        using same that by (rule same_setup_trans)
      from frame show ?thesis
      proof (elim disjE conjE exE)
        assume "s' = s1" "same_setup ?ch ch'" "st \<in> {STATUS_OK, STATUS_DATA_CORRUPTION}"
        then show ?thesis using trans bzx(4) by (intro disjI2 disjI1) auto
      next
        fix n ch1 st2 q2
        assume "st = STATUS_OK" "r \<in> {POLL_DATA, POLL_HEARTBEAT}"
          "link_send i (ack_for x) n ch1 s1 = (st2, q2, ch', s')" "same_setup ?ch ch1"
        then show ?thesis using trans bzx(4) by (intro disjI2) blast
      qed
    qed
  qed
qed

section \<open>OSAdapters that make progress\<close>

text \<open>
  The documented behaviour of the adapters, for a measure \<open>pending\<close> of the frames still under way
  and a reading \<open>clk\<close> of the time base: no call lets time run backwards or creates frames out of
  nothing, a receive that reports TIMEOUT has blocked for its whole timeout, and a receive that
  reports anything else has taken a frame, unless it reports a hard fault.
\<close>

definition paced :: "('x \<Rightarrow> nat) \<Rightarrow> ('x \<Rightarrow> nat) \<Rightarrow> 'x rte \<Rightarrow> bool" where
  "paced pending clk s \<longleftrightarrow> (\<exists>ta na now sn rcv.
     s_timer s = Some ta \<and> timer_now ta = Some now \<and>
     s_netlink s = Some na \<and> netlink_send na = Some sn \<and> netlink_receive na = Some rcv \<and>
     (\<forall>x st t x'. now x = (st, t, x') \<longrightarrow>
        unat t = clk x' \<and> clk x \<le> clk x' \<and> pending x' \<le> pending x) \<and>
     (\<forall>h b t x st x'. sn h b t x = (st, x') \<longrightarrow> clk x \<le> clk x' \<and> pending x' \<le> pending x) \<and>
     (\<forall>h b t x st b' x'. rcv h b t x = (st, b', x') \<longrightarrow>
        clk x \<le> clk x' \<and> pending x' \<le> pending x \<and>
        (st = STATUS_TIMEOUT \<longrightarrow> clk x + unat t \<le> clk x') \<and>
        (st \<noteq> STATUS_TIMEOUT \<longrightarrow> st \<noteq> STATUS_HARDWARE_FAULT \<longrightarrow> pending x' < pending x)))"

definition advances :: "('x \<Rightarrow> nat) \<Rightarrow> ('x \<Rightarrow> nat) \<Rightarrow> 'x rte \<Rightarrow> 'x rte \<Rightarrow> bool" where
  "advances pending clk s s' \<longleftrightarrow> s_timer s' = s_timer s \<and> s_netlink s' = s_netlink s \<and>
     clk (ext s) \<le> clk (ext s') \<and> pending (ext s') \<le> pending (ext s)"

lemma advances_refl [simp]: "advances p c s s"
  by (simp add: advances_def)

lemma advances_trans: "advances p c s t \<Longrightarrow> advances p c t u \<Longrightarrow> advances p c s u"
  by (simp add: advances_def)

lemma advances_paced: "advances p c s s' \<Longrightarrow> paced p c s' = paced p c s"
  by (simp add: advances_def paced_def)

lemma advances_checksum [simp]: "advances p c s (s'\<lparr>g_checksum := cm\<rparr>) = advances p c s s'"
  by (simp add: advances_def)

lemma now_advances:
  assumes "paced p c s" "rte_timer_now s = (st, t, s')"
  shows "advances p c s s' \<and> unat t = c (ext s')"
proof -
  obtain ta now where a: "s_timer s = Some ta" "timer_now ta = Some now"
    "\<forall>x st t x'. now x = (st, t, x') \<longrightarrow> unat t = c x' \<and> c x \<le> c x' \<and> p x' \<le> p x"
    using assms(1) by (auto simp: paced_def)
  obtain st1 t1 x1 where "now (ext s) = (st1, t1, x1)" by (metis prod_cases3)
  with a assms(2) show ?thesis by (auto simp: rte_timer_now_def advances_def)
qed

lemma with_checksum_advances:
  "with_checksum f s = (a, s') \<Longrightarrow> advances p c s s'"
  by (auto simp: with_checksum_def split: prod.splits)

lemma create_advances:
  assumes "paced p c s"
    and "rte_checksum_vital_message_create mo sender q pl n s = (st, m, s')"
  shows "advances p c s s'"
proof -
  obtain ts now s1 where now: "rte_timer_now s = (ts, now, s1)" by (metis prod_cases3)
  note adv = now_advances [OF assms(1) now]
  show ?thesis
    using assms(2) adv
    by (auto simp: rte_checksum_vital_message_create_def now Let_def with_checksum_def
        split: option.splits if_splits prod.splits)
qed

lemma netlink_send_advances:
  assumes "paced p c s" "rte_netlink_send h m n t s = (st, s')"
  shows "advances p c s s'"
proof (cases "\<exists>h' m'. h = Some h' \<and> m = Some m' \<and> n \<noteq> 0")
  case False
  with assms(2) show ?thesis by (auto simp: rte_netlink_send_def split: option.splits if_splits)
next
  case True
  then obtain h' m' where hm: "h = Some h'" "m = Some m'" "n \<noteq> 0" by blast
  obtain na sn where a: "s_netlink s = Some na" "netlink_send na = Some sn"
    "\<forall>h b t x st x'. sn h b t x = (st, x') \<longrightarrow> c x \<le> c x' \<and> p x' \<le> p x"
    using assms(1) by (auto simp: paced_def)
  obtain st1 x1 where run: "sn h' (take n m') t (ext s) = (st1, x1)" by fastforce
  from a(3) run have "c (ext s) \<le> c x1 \<and> p x1 \<le> p (ext s)" by blast
  with a(1,2) run hm assms(2) show ?thesis
    by (auto simp: rte_netlink_send_def advances_def)
qed

lemma netlink_receive_advances:
  assumes "paced p c s" "rte_netlink_receive (Some h) (Some m) n t s = (st, m', s')" "n \<noteq> 0"
  shows "advances p c s s' \<and>
    (st = STATUS_TIMEOUT \<longrightarrow> c (ext s) + unat t \<le> c (ext s')) \<and>
    (st \<noteq> STATUS_TIMEOUT \<longrightarrow> st \<noteq> STATUS_HARDWARE_FAULT \<longrightarrow> p (ext s') < p (ext s))"
proof -
  obtain na rcv where a: "s_netlink s = Some na" "netlink_receive na = Some rcv"
    "\<forall>h b t x st b' x'. rcv h b t x = (st, b', x') \<longrightarrow>
        c x \<le> c x' \<and> p x' \<le> p x \<and>
        (st = STATUS_TIMEOUT \<longrightarrow> c x + unat t \<le> c x') \<and>
        (st \<noteq> STATUS_TIMEOUT \<longrightarrow> st \<noteq> STATUS_HARDWARE_FAULT \<longrightarrow> p x' < p x)"
    using assms(1) unfolding paced_def by blast
  obtain st1 b1 x1 where run: "rcv h (take n m) t (ext s) = (st1, b1, x1)" by (metis prod_cases3)
  from a(3) run have x1: "c (ext s) \<le> c x1 \<and> p x1 \<le> p (ext s) \<and>
        (st1 = STATUS_TIMEOUT \<longrightarrow> c (ext s) + unat t \<le> c x1) \<and>
        (st1 \<noteq> STATUS_TIMEOUT \<longrightarrow> st1 \<noteq> STATUS_HARDWARE_FAULT \<longrightarrow> p x1 < p (ext s))" by blast
  have "st = st1" "s' = s\<lparr>ext := x1\<rparr>"
    using a(1,2) run assms(2,3) by (auto simp: rte_netlink_receive_def)
  with x1 show ?thesis by (simp add: advances_def)
qed

lemma msg_send_advances:
  assumes "paced p c s" "rte_dual_msgchannel_send (Some ch) pl n t s = (st, q, ch', s')"
  shows "advances p c s s'"
proof (cases "pl = None \<and> n \<noteq> 0")
  case True
  with assms(2) show ?thesis by (simp add: rte_dual_msgchannel_send_def)
next
  case False
  obtain st1 fr s1 where cr: "rte_checksum_vital_message_create (Some zero_message) (mc_sender_id ch)
      (mc_next_sequence ch) pl (unat n) s = (st1, fr, s1)" by (metis prod_cases3)
  obtain st2 s2 where ns: "rte_netlink_send (mc_link ch) (map_option vital_message_bytes fr) 272 t s1 =
      (st2, s2)" by fastforce
  note adv = create_advances [OF assms(1) cr]
  have "advances p c s1 s2"
    using netlink_send_advances [OF _ ns] advances_paced [OF adv] assms(1) by blast
  with adv have "advances p c s s2" by (rule advances_trans)
  with adv False assms(2) show ?thesis
    by (auto simp: rte_dual_msgchannel_send_def cr ns split: if_splits)
qed

lemma msg_receive_advances:
  assumes "paced p c s" "mc_link ch = Some h" "0 < k"
    and "rte_dual_msgchannel_receive (Some ch) (Some buf) k t (Some z) s = (st, out, sz, q, ch', s')"
  shows "advances p c s s' \<and>
    ((st = STATUS_TIMEOUT \<and> c (ext s) + unat t \<le> c (ext s')) \<or>
     st = STATUS_HARDWARE_FAULT \<or> p (ext s') < p (ext s))"
proof -
  obtain st1 raw s1 where rcv: "rte_netlink_receive (mc_link ch) (Some (replicate 272 0)) 272 t s =
      (st1, raw, s1)" by (metis prod_cases3)
  note adv = netlink_receive_advances [OF assms(1) rcv [unfolded assms(2)]]
  show ?thesis
  proof (cases "st1 = STATUS_OK")
    case False
    with assms(3,4) adv show ?thesis
      by (auto simp: rte_dual_msgchannel_receive_def rcv word_gt_0)
  next
    case True
    let ?f = "vital_message_of_bytes (case raw of None \<Rightarrow> [] | Some b \<Rightarrow> b)"
    obtain st2 b2 z2 cm2 where ver: "rte_checksum_vital_message_verify (Some ?f)
        (mc_expected_sequence ch) (Some buf) (unat k) (Some z) (g_checksum s1) = (st2, b2, z2, cm2)"
      by (metis prod_cases4)
    obtain st3 r cm3 where crc: "rte_checksum_crc64_verify (Some (vital_message_covered ?f)) 264
        (vm_crc64 ?f) (Some \<lparr>cr_computed = 0, cr_expected = 0, cr_match = 0\<rparr>) cm2 = (st3, r, cm3)"
      by (metis prod_cases3)
    have "\<exists>cm. s' = s1 \<or> s' = s1\<lparr>g_checksum := cm\<rparr>"
      using assms(3,4) True
      by (simp add: rte_dual_msgchannel_receive_def rcv ver crc word_gt_0 with_checksum_def Let_def
          split: if_splits) auto
    then show ?thesis using adv True by auto
  qed
qed

lemma link_send_advances:
  "paced p c s \<Longrightarrow> link_send i pl n ch s = (st, q, ch', s') \<Longrightarrow> advances p c s s'"
  by (auto simp: link_send_def dest: msg_send_advances split: prod.splits)

text \<open>The links in use have a handle, as initialisation demands.\<close>

definition links_open :: "'x dual_channel \<Rightarrow> bool" where
  "links_open ch \<longleftrightarrow> length (dc_links ch) = DUAL_MAX_LINKS \<and> dc_link_count ch \<le> DUAL_MAX_LINKS \<and>
     length (dc_link_up ch) = DUAL_MAX_LINKS \<and>
     (\<forall>i < dc_link_count ch. mc_link (dc_links ch ! i) \<noteq> None)"

lemma same_setup_open: "same_setup ch ch' \<Longrightarrow> links_open ch' = links_open ch"
proof -
  assume same: "same_setup ch ch'"
  then have len: "length (dc_links ch') = length (dc_links ch)" by (rule same_setup_length)
  have eq: "map mc_link (dc_links ch') = map mc_link (dc_links ch)" "dc_link_count ch' = dc_link_count ch"
    "dc_link_up ch' = dc_link_up ch"
    using same by (simp_all add: same_setup_def)
  have "mc_link (dc_links ch' ! i) = mc_link (dc_links ch ! i)" if "i < length (dc_links ch)" for i
  proof -
    have "map mc_link (dc_links ch') ! i = map mc_link (dc_links ch) ! i" by (simp add: eq)
    with that len show ?thesis by simp
  qed
  then show ?thesis unfolding links_open_def eq len
    by (metis order.strict_trans2)
qed

lemma poll_advances:
  assumes "paced p c s" "links_open ch" "i < dc_link_count ch"
    and "dual_channel_poll_link_once i t ch s = (st, r, ch', s')"
  shows "advances p c s s' \<and> same_setup ch ch' \<and>
    ((st = STATUS_TIMEOUT \<and> c (ext s) + unat t \<le> c (ext s')) \<or>
     st = STATUS_HARDWARE_FAULT \<or> p (ext s') < p (ext s)) \<and>
    (dc_pending_state_valid ch' \<longrightarrow> dc_pending_state_valid ch \<or> p (ext s') < p (ext s))"
proof -
  obtain h where h: "mc_link (dc_links ch ! i) = Some h"
    using assms(2,3) by (auto simp: links_open_def)
  from poll_cases [OF assms(4)] obtain st1 raw sz q d s1 where
    rcv: "rte_dual_msgchannel_receive (Some (dc_links ch ! i)) (Some (replicate MSGCHANNEL_MAX_PAYLOAD 0))
       248 t (Some 0) s = (st1, raw, sz, q, d, s1)"
    and c3: "(st1 \<noteq> STATUS_OK \<and> st = st1 \<and> r = POLL_NONE \<and> s' = s1 \<and> same_setup ch ch' \<and>
        dc_pending_state_valid ch' = dc_pending_state_valid ch) \<or>
     (st1 = STATUS_OK \<and> s' = s1 \<and> same_setup ch ch' \<and> st \<noteq> STATUS_HARDWARE_FAULT) \<or>
     (st1 = STATUS_OK \<and> st = STATUS_OK \<and> r \<in> {POLL_DATA, POLL_HEARTBEAT} \<and>
        (\<exists>pl n ch1 st2 q2. link_send i pl n ch1 s1 = (st2, q2, ch', s') \<and> same_setup ch ch1))"
    by blast
  have adv: "advances p c s s1 \<and> ((st1 = STATUS_TIMEOUT \<and> c (ext s) + unat t \<le> c (ext s1)) \<or>
     st1 = STATUS_HARDWARE_FAULT \<or> p (ext s1) < p (ext s))"
    by (rule msg_receive_advances [OF assms(1) h _ rcv]) simp
  from c3 show ?thesis
  proof (elim disjE conjE exE)
    fix pl n ch1 st2 q2
    assume ok: "st1 = STATUS_OK"
      and sent: "link_send i pl n ch1 s1 = (st2, q2, ch', s')" "same_setup ch ch1"
    have "advances p c s1 s'"
      using link_send_advances [OF _ sent(1)] advances_paced adv assms(1) by blast
    with adv ok have "advances p c s s'" "p (ext s') < p (ext s)"
      by (auto simp: advances_def)
    moreover have "same_setup ch ch'"
      using sent(2) link_send_setup [OF sent(1)] by (rule same_setup_trans)
    ultimately show ?thesis by blast
  qed (use adv in auto)
qed

section \<open>The wait for an acknowledgement\<close>

text \<open>The budget of the next turn.\<close>

definition next_remaining :: "timestamp_ms \<Rightarrow> timestamp_ms \<Rightarrow> duration_ms \<Rightarrow> duration_ms \<Rightarrow> duration_ms" where
  "next_remaining start now ack remaining =
    (if start < now
     then (if ucast ack \<le> now - start then 0 else ack - ucast (now - start)) else remaining)"

lemma wait_induct [consumes 1, case_names over acked broken again]:
  fixes s :: "'x rte"
  assumes run: "dual_wait_ack i q start remaining stall fault ch s = Some y"
    and over: "\<And>remaining stall fault ch s. \<not> (0 < remaining \<and> stall < STALL_POLL_LIMIT) \<Longrightarrow>
      P remaining stall fault ch s (False, fault, ch, s)"
    and acked: "\<And>remaining stall fault ch s ch1 s1.
      dual_channel_poll_link_once i remaining ch s = (STATUS_OK, POLL_ACK q, ch1, s1) \<Longrightarrow>
      P remaining stall fault ch s (True, fault, ch1, s1)"
    and broken: "\<And>remaining stall fault ch s r ch1 s1.
      dual_channel_poll_link_once i remaining ch s = (STATUS_HARDWARE_FAULT, r, ch1, s1) \<Longrightarrow>
      P remaining stall fault ch s (False, note_fault fault STATUS_HARDWARE_FAULT, ch1, s1)"
    and again: "\<And>remaining stall fault ch s st r ch1 s1 ts now s2 y.
      0 < remaining \<Longrightarrow> stall < STALL_POLL_LIMIT \<Longrightarrow>
      dual_channel_poll_link_once i remaining ch s = (st, r, ch1, s1) \<Longrightarrow>
      rte_timer_now s1 = (ts, now, s2) \<Longrightarrow> st \<noteq> STATUS_HARDWARE_FAULT \<Longrightarrow>
      P (next_remaining start now (dc_ack_timeout_ms ch1) remaining)
        (if start < now then 0 else stall + 1) fault ch1 s2 y \<Longrightarrow>
      P remaining stall fault ch s y"
  shows "P remaining stall fault ch s y"
proof -
  let ?Q = "\<lambda>i' q' start' remaining stall fault ch (s :: 'x rte) y.
    i' = i \<and> q' = q \<and> start' = start \<longrightarrow> P remaining stall fault ch s y"
  have "?Q i q start remaining stall fault ch s y"
  proof (rule dual_wait_ack.raw_induct [OF _ run, where P = ?Q], intro impI, elim conjE, hypsubst)
    fix rec remaining stall fault ch and s :: "'x rte" and y
    assume hyp: "\<And>i' q' start' remaining stall fault ch (s :: 'x rte) y.
        rec i' q' start' remaining stall fault ch s = Some y \<Longrightarrow>
        ?Q i' q' start' remaining stall fault ch s y"
      and body: "(if 0 < remaining \<and> stall < STALL_POLL_LIMIT
       then
         let (poll_status, result, ch1, s1) = dual_channel_poll_link_once i remaining ch s in
         if poll_status = STATUS_OK \<and> result = POLL_ACK q then Some (True, fault, ch1, s1)
         else if poll_status = STATUS_HARDWARE_FAULT
         then Some (False, note_fault fault poll_status, ch1, s1)
         else
           let (_, now_ms, s2) = rte_timer_now s1 in
           if start < now_ms
           then
             let elapsed = now_ms - start in
             rec i q start
               (if ucast (dc_ack_timeout_ms ch1) \<le> elapsed then 0
                else dc_ack_timeout_ms ch1 - ucast elapsed) 0 fault ch1 s2
           else rec i q start remaining (stall + 1) fault ch1 s2
       else Some (False, fault, ch, s)) = Some y"
    obtain st r ch1 s1 where poll: "dual_channel_poll_link_once i remaining ch s = (st, r, ch1, s1)"
      by (metis prod_cases4)
    obtain ts now s2 where now: "rte_timer_now s1 = (ts, now, s2)" by (metis prod_cases3)
    have turn: "rec i q start (next_remaining start now (dc_ack_timeout_ms ch1) remaining)
          (if start < now then 0 else stall + 1) fault ch1 s2 = Some y"
      if "0 < remaining \<and> stall < STALL_POLL_LIMIT" "\<not> (st = STATUS_OK \<and> r = POLL_ACK q)"
        "st \<noteq> STATUS_HARDWARE_FAULT"
      using body that unfolding poll now Let_def split_conv next_remaining_def by (simp split: if_splits)
    show "P remaining stall fault ch s y"
    proof (cases "0 < remaining \<and> stall < STALL_POLL_LIMIT")
      case False
      with body have "y = (False, fault, ch, s)" by auto
      with over [OF False] show ?thesis by simp
    next
      case True
      consider "st = STATUS_OK \<and> r = POLL_ACK q" | "st = STATUS_HARDWARE_FAULT"
        | "\<not> (st = STATUS_OK \<and> r = POLL_ACK q)" "st \<noteq> STATUS_HARDWARE_FAULT" by blast
      then show ?thesis
      proof cases
        case 1
        with body True have "y = (True, fault, ch1, s1)" by (simp add: poll)
        with 1 poll acked show ?thesis by simp
      next
        case 2
        with body True have "y = (False, note_fault fault st, ch1, s1)" by (simp add: poll)
        with 2 poll broken show ?thesis by simp
      next
        case 3
        from hyp [OF turn [OF True 3]] True 3(2) show ?thesis using again [OF _ _ poll now] by simp
      qed
    qed
  qed
  then show ?thesis by simp
qed

lemma wait_step:
  assumes "0 < remaining" "stall < STALL_POLL_LIMIT"
    and "dual_channel_poll_link_once i remaining ch s = (st, r, ch1, s1)"
    and "rte_timer_now s1 = (ts, now, s2)"
  shows "dual_wait_ack i q start remaining stall fault ch s =
    (if st = STATUS_OK \<and> r = POLL_ACK q then Some (True, fault, ch1, s1)
     else if st = STATUS_HARDWARE_FAULT then Some (False, note_fault fault st, ch1, s1)
     else if now > start
     then dual_wait_ack i q start
            (if now - start \<ge> ucast (dc_ack_timeout_ms ch1) then 0
             else dc_ack_timeout_ms ch1 - ucast (now - start)) 0 fault ch1 s2
     else dual_wait_ack i q start remaining (stall + 1) fault ch1 s2)"
  using assms by (subst dual_wait_ack.simps) (simp add: Let_def)

lemma wait_over: "dual_wait_ack i q start 0 stall fault ch s = Some (False, fault, ch, s)"
  by (subst dual_wait_ack.simps) simp

lemma poll_setup: "dual_channel_poll_link_once i t ch s = (st, r, ch', s') \<Longrightarrow> same_setup ch ch'"
  by (erule poll_cases) (auto dest: link_send_setup intro: same_setup_trans)

text \<open>What a call that waits on a link does to the channel and the platform: polls and clock readings.\<close>

inductive polled :: "nat \<Rightarrow> 'x dual_channel \<Rightarrow> 'x rte \<Rightarrow> 'x dual_channel \<Rightarrow> 'x rte \<Rightarrow> bool" for i where
  start: "polled i ch s ch s"
| poll: "dual_channel_poll_link_once i t ch s = (st, r, ch1, s1) \<Longrightarrow> rte_timer_now s1 = (ts, now, s2) \<Longrightarrow>
    polled i ch1 s2 ch' s' \<Longrightarrow> polled i ch s ch' s'"

lemma polled_setup: "polled i ch s ch' s' \<Longrightarrow> same_setup ch ch'"
  by (induction rule: polled.induct) (auto dest: poll_setup intro: same_setup_trans)

text \<open>
  The wait is a sequence of polls of the link; the fault it reports is the one it was given or a
  hard fault; a link is reported as up only when the last poll gave the acknowledgement of the
  frame.
\<close>

definition wait_outcome ::
  "nat \<Rightarrow> u32 \<Rightarrow> 'x dual_channel \<Rightarrow> 'x rte \<Rightarrow> bool \<Rightarrow> 'x dual_channel \<Rightarrow> 'x rte \<Rightarrow> bool" where
  "wait_outcome i q ch s up ch' s' \<longleftrightarrow> (\<exists>ch1 s1. polled i ch s ch1 s1 \<and>
     (\<not> up \<and> ch' = ch1 \<and> s' = s1 \<or>
      (\<exists>t st r. dual_channel_poll_link_once i t ch1 s1 = (st, r, ch', s') \<and>
        (up \<longrightarrow> st = STATUS_OK \<and> r = POLL_ACK q))))"

lemma wait_outcome_later:
  "wait_outcome i q ch1 s2 up ch' s' \<Longrightarrow> dual_channel_poll_link_once i t ch s = (st, r, ch1, s1) \<Longrightarrow>
    rte_timer_now s1 = (ts, now, s2) \<Longrightarrow> wait_outcome i q ch s up ch' s'"
  unfolding wait_outcome_def by (metis polled.poll)

lemma wait_outcome_setup: "wait_outcome i q ch s up ch' s' \<Longrightarrow> same_setup ch ch'"
  by (auto simp: wait_outcome_def dest!: polled_setup poll_setup intro: same_setup_trans)

lemma wait_result:
  assumes "dual_wait_ack i q start remaining stall fault ch s = Some y"
  shows "\<exists>up fault' ch' s'. y = (up, fault', ch', s') \<and>
    (fault' = fault \<or> fault' = Some STATUS_HARDWARE_FAULT) \<and> wait_outcome i q ch s up ch' s'"
  (is "?R i q fault ch s y")
  using assms
proof (induction rule: wait_induct)
  case (over remaining stall fault ch s)
  have "wait_outcome i q ch s False ch s" unfolding wait_outcome_def by (metis polled.start)
  then show ?case by blast
next
  case (acked remaining stall fault ch s ch1 s1)
  then have "wait_outcome i q ch s True ch1 s1"
    unfolding wait_outcome_def by (metis polled.start)
  then show ?case by blast
next
  case (broken remaining stall fault ch s r ch1 s1)
  then have "wait_outcome i q ch s False ch1 s1"
    unfolding wait_outcome_def by (metis polled.start)
  then show ?case by (auto simp: note_fault_def)
next
  case (again remaining stall fault ch s st r ch1 s1 ts now s2 y)
  then show ?case using wait_outcome_later [OF _ again(3,4)] by blast
qed

section \<open>The sending operations\<close>

lemma wait_call_result:
  assumes "dual_channel_send_to_link_and_wait_ack i frame n fault ch s = Some (up, fault', ch', s')"
  shows "same_setup ch ch' \<and> (fault' = fault \<or> fault' = Some STATUS_HARDWARE_FAULT)"
proof -
  obtain st q ch1 s1 where send: "link_send i frame n ch s = (st, q, ch1, s1)" by (metis prod_cases4)
  obtain ts start s2 where now: "rte_timer_now s1 = (ts, start, s2)" by (metis prod_cases3)
  note same = link_send_setup [OF send]
  show ?thesis
  proof (cases "st = STATUS_OK")
    case False
    with assms same show ?thesis
      by (auto simp: dual_channel_send_to_link_and_wait_ack_def send note_fault_def split: if_splits)
  next
    case True
    then have fault: "note_fault fault st = fault" by (simp add: note_fault_def)
    from assms True have "dual_wait_ack i (case q of None \<Rightarrow> 0 | Some x \<Rightarrow> x) start
        (dc_ack_timeout_ms ch1) 0 (note_fault fault st) ch1 s2 = Some (up, fault', ch', s')"
      by (simp add: dual_channel_send_to_link_and_wait_ack_def send now)
    from wait_result [OF this] fault have "same_setup ch1 ch'"
      "fault' = fault \<or> fault' = Some STATUS_HARDWARE_FAULT" by (auto dest: wait_outcome_setup)
    with same show ?thesis by (blast intro: same_setup_trans)
  qed
qed

lemma links_result:
  assumes "send_to_links is frame n k fault ch s = Some (k', fault', ch', s')"
    and "distinct is" "\<forall>i \<in> set is. i < length (dc_link_up ch)"
  shows "same_setup (ch\<lparr>dc_link_up := dc_link_up ch'\<rparr>) ch' \<and>
    (fault' = fault \<or> fault' = Some STATUS_HARDWARE_FAULT) \<and>
    length (dc_link_up ch') = length (dc_link_up ch) \<and>
    (\<forall>j. j \<notin> set is \<longrightarrow> dc_link_up ch' ! j = dc_link_up ch ! j) \<and>
    k' = k + length (filter (\<lambda>i. dc_link_up ch' ! i) is)"
  using assms
proof (induction "is" arbitrary: k fault ch s)
  case Nil
  then show ?case by (simp add: same_setup_def)
next
  case (Cons i "is")
  from Cons.prems(1) obtain up fault1 ch1 s1 where
    one: "dual_channel_send_to_link_and_wait_ack i frame n fault ch s = Some (up, fault1, ch1, s1)"
    and rest: "send_to_links is frame n (if up then k + 1 else k) fault1
       (ch1\<lparr>dc_link_up := (dc_link_up ch1)[i := up]\<rparr>) s1 = Some (k', fault', ch', s')"
    by (auto split: Option.bind_splits)
  note same = wait_call_result [OF one]
  then have up1: "dc_link_up ch1 = dc_link_up ch" by (simp add: same_setup_def)
  have ih: "same_setup (ch1\<lparr>dc_link_up := dc_link_up ch'\<rparr>) ch'"
    "fault' = fault1 \<or> fault' = Some STATUS_HARDWARE_FAULT"
    "length (dc_link_up ch') = length (dc_link_up ch)"
    "\<forall>j. j \<notin> set is \<longrightarrow> dc_link_up ch' ! j = (dc_link_up ch)[i := up] ! j"
    "k' = (if up then k + 1 else k) + length (filter (\<lambda>i. dc_link_up ch' ! i) is)"
    using Cons.IH [OF rest] Cons.prems(2,3) up1 by simp_all
  have i: "dc_link_up ch' ! i = up" using ih(4) Cons.prems(2,3) by simp
  have "\<forall>j. j \<notin> set (i # is) \<longrightarrow> dc_link_up ch' ! j = dc_link_up ch ! j" using ih(4) by simp
  moreover have "same_setup (ch\<lparr>dc_link_up := dc_link_up ch'\<rparr>) ch'"
    using same ih(1) by (simp add: same_setup_def)
  moreover have "k' = k + length (filter (\<lambda>i. dc_link_up ch' ! i) (i # is))" using ih(5) i by simp
  ultimately show ?case using ih(2,3) same by blast
qed

lemma filter_take_nth:
  "n \<le> length xs \<Longrightarrow> length (filter id (take n xs)) = length (filter (\<lambda>i. xs ! i) [0..<n])"
proof (induction n)
  case (Suc n)
  then show ?case by (simp add: take_Suc_conv_app_nth)
qed simp

text \<open>The number of links in use that are up.\<close>

definition links_up :: "'x dual_channel \<Rightarrow> nat" where
  "links_up ch = length (filter (\<lambda>i. dc_link_up ch ! i) [0..<dc_link_count ch])"

lemma links_up_le: "links_up ch \<le> dc_link_count ch"
  unfolding links_up_def by (rule order_trans [OF length_filter_le]) simp

lemma compute_status_up:
  "dc_link_count ch \<le> length (dc_link_up ch) \<Longrightarrow> dual_channel_compute_status ch =
    (if links_up ch = 0 then CHANNEL_DOWN else if links_up ch = dc_link_count ch then CHANNEL_FULL
     else CHANNEL_DEGRADED)"
  by (simp add: dual_channel_compute_status_def filter_take_nth links_up_def)

lemma frame_report:
  assumes "send_frame_and_report frame n ch s = Some (st, cnt, ch', s')" "links_open ch"
  shows "\<exists>ch2. ch' = Some ch2 \<and> cnt = Some (links_up ch2) \<and> dc_link_count ch2 = dc_link_count ch \<and>
    dc_last_status ch2 = dual_channel_compute_status ch2 \<and>
    (st = STATUS_OK \<longleftrightarrow> 0 < links_up ch2) \<and>
    st \<in> {STATUS_OK, STATUS_TIMEOUT, STATUS_HARDWARE_FAULT} \<and> links_open ch2"
proof -
  obtain k fault ch1 s1 where links: "send_to_links [0..<dc_link_count ch] frame n 0 None ch s =
      Some (k, fault, ch1, s1)"
    using assms(1) by (auto simp: send_frame_and_report_def split: Option.bind_splits)
  have open': "dc_link_count ch \<le> length (dc_link_up ch)" using assms(2) by (simp add: links_open_def)
  have res: "same_setup (ch\<lparr>dc_link_up := dc_link_up ch1\<rparr>) ch1"
    "fault = None \<or> fault = Some STATUS_HARDWARE_FAULT"
    "length (dc_link_up ch1) = length (dc_link_up ch)"
    "k = length (filter (\<lambda>i. dc_link_up ch1 ! i) [0..<dc_link_count ch])"
    using links_result [OF links] open' by auto
  obtain ch2 s2 where upd: "dual_channel_update_status ch1 s1 = (ch2, s2)" by fastforce
  then have ch2: "ch2 = ch1\<lparr>dc_last_status := dual_channel_compute_status ch1\<rparr>"
    by (auto simp: dual_channel_update_status_def Let_def split: if_splits)
  have count: "dc_link_count ch1 = dc_link_count ch" using res(1) by (simp add: same_setup_def)
  have k: "k = links_up ch2" by (simp add: links_up_def ch2 res(4) count)
  have comp: "dual_channel_compute_status ch2 = dual_channel_compute_status ch1"
    by (simp add: ch2 dual_channel_compute_status_def)
  have "links_open (ch\<lparr>dc_link_up := dc_link_up ch1\<rparr>)"
    using assms(2) res(3) by (simp add: links_open_def)
  then have "links_open ch1" using same_setup_open [OF res(1)] by simp
  then have "links_open ch2" by (simp add: ch2 links_open_def)
  moreover have "ch' = Some ch2" "cnt = Some k"
    "st = (if k > 0 then STATUS_OK else (case fault of None \<Rightarrow> STATUS_TIMEOUT | Some st \<Rightarrow> st))"
    using assms(1) by (simp_all add: send_frame_and_report_def links upd)
  ultimately show ?thesis using res(2) k comp by (auto simp: ch2 count)
qed

section \<open>Waiting ends\<close>

lemma unat_duration_less: "unat (t :: duration_ms) < 2 ^ 32"
  using unsigned_less [of t, where 'a = nat] by simp

lemma unat_ucast_duration: "unat (ucast (t :: duration_ms) :: timestamp_ms) = unat t"
  using unat_duration_less [of t] by (simp add: unsigned_ucast_eq take_bit_nat_eq_self)

lemma next_budget:
  assumes "unat start \<le> C" "C \<le> unat now" "unat start + unat ack \<le> C + unat remaining"
  shows "next_remaining start now ack remaining = 0 \<or>
      unat start + unat ack \<le> unat now + unat (next_remaining start now ack remaining)"
    and "C + unat remaining \<le> unat now \<Longrightarrow> 0 < remaining \<Longrightarrow>
      next_remaining start now ack remaining = 0"
proof -
  note ack = unat_ucast_duration [of ack]
  have elapsed: "unat (now - start) = unat now - unat start" if "start < now"
    using that by (simp add: unat_sub less_imp_le)
  have left: "unat (ack - ucast (now - start)) = unat ack - (unat now - unat start)"
    if "start < now" "\<not> ucast ack \<le> now - start"
  proof -
    have less: "unat (now - start) < unat ack"
      using that(2) ack by (simp add: word_le_nat_alt)
    then have "unat (ucast (now - start) :: u32) = unat (now - start)"
      using unat_duration_less [of ack] by (simp add: unsigned_ucast_eq take_bit_nat_eq_self)
    with less elapsed [OF that(1)] show ?thesis
      by (simp add: unat_sub word_le_nat_alt)
  qed
  show "next_remaining start now ack remaining = 0 \<or>
      unat start + unat ack \<le> unat now + unat (next_remaining start now ack remaining)"
    using assms left by (auto simp: next_remaining_def word_less_nat_alt)
  show "next_remaining start now ack remaining = 0"
    if "C + unat remaining \<le> unat now" "0 < remaining"
    using assms that ack elapsed
    by (auto simp: next_remaining_def word_less_nat_alt word_le_nat_alt)
qed

text \<open>
  The wait, by induction on the frames under way: at every turn of the loop the budget left covers
  the time to the deadline, a receive that found no frame used up the whole budget, and any other
  one took a frame.
\<close>

lemma wait_returns:
  assumes "paced p c s" "links_open ch" "i < dc_link_count ch" "unat start \<le> c (ext s)"
    "unat start + unat (dc_ack_timeout_ms ch) \<le> c (ext s) + unat remaining"
  shows "dual_wait_ack i q start remaining stall fault ch s \<noteq> None"
  using assms
proof (induction "p (ext s)" arbitrary: s ch remaining stall rule: less_induct)
  case less
  show ?case
  proof (cases "0 < remaining \<and> stall < STALL_POLL_LIMIT")
    case False
    then show ?thesis by (subst dual_wait_ack.simps) auto
  next
    case True
    obtain st r ch1 s1 where poll: "dual_channel_poll_link_once i remaining ch s = (st, r, ch1, s1)"
      by (metis prod_cases4)
    obtain ts now s2 where now: "rte_timer_now s1 = (ts, now, s2)" by (metis prod_cases3)
    have adv: "advances p c s s1" and same: "same_setup ch ch1"
      and res: "(st = STATUS_TIMEOUT \<and> c (ext s) + unat remaining \<le> c (ext s1)) \<or>
        st = STATUS_HARDWARE_FAULT \<or> p (ext s1) < p (ext s)"
      using poll_advances [OF less.prems(1,2,3) poll] by blast+
    have paced1: "paced p c s1" using less.prems(1) advances_paced [OF adv] by simp
    have adv2: "advances p c s1 s2" and clk: "unat now = c (ext s2)"
      using now_advances [OF paced1 now] by blast+
    have paced2: "paced p c s2" using paced1 advances_paced [OF adv2] by simp
    have ack: "dc_ack_timeout_ms ch1 = dc_ack_timeout_ms ch" "dc_link_count ch1 = dc_link_count ch"
      using same by (simp_all add: same_setup_def)
    have open1: "links_open ch1" using same_setup_open [OF same] less.prems(2) by simp
    have late: "c (ext s) \<le> c (ext s2)" "p (ext s2) \<le> p (ext s1)" "c (ext s1) \<le> c (ext s2)"
      using adv adv2 by (simp_all add: advances_def)
    let ?rem = "next_remaining start now (dc_ack_timeout_ms ch) remaining"
    note budget = next_budget [OF less.prems(4) late(1) [folded clk] less.prems(5)]
    have again: "dual_wait_ack i q start ?rem stall' fault ch1 s2 \<noteq> None"
      if hw: "st \<noteq> STATUS_HARDWARE_FAULT" for stall'
    proof (cases "?rem = 0")
      case True
      then show ?thesis by (simp add: wait_over)
    next
      case rem: False
      with budget(2) True clk late(3) have "\<not> c (ext s) + unat remaining \<le> c (ext s1)" by auto
      with res hw late(2) have fewer: "p (ext s2) < p (ext s)" by auto
      have "unat start + unat (dc_ack_timeout_ms ch1) \<le> c (ext s2) + unat ?rem"
        using budget(1) rem clk ack(1) by simp
      moreover have "unat start \<le> c (ext s2)" using less.prems(4) late(1) by simp
      ultimately show ?thesis
        using less.hyps [OF fewer paced2 open1] less.prems(3) ack(2) by simp
    qed
    have "dual_wait_ack i q start remaining stall fault ch s =
      (if st = STATUS_OK \<and> r = POLL_ACK q then Some (True, fault, ch1, s1)
       else if st = STATUS_HARDWARE_FAULT then Some (False, note_fault fault st, ch1, s1)
       else dual_wait_ack i q start ?rem (if now > start then 0 else stall + 1) fault ch1 s2)"
      using wait_step [OF _ _ poll now, of stall q start fault] True
      by (simp add: next_remaining_def ack(1))
    with again show ?thesis by (metis option.distinct(1))
  qed
qed

lemma polled_advances:
  assumes "polled i ch s ch' s'" "paced p c s" "links_open ch" "i < dc_link_count ch"
  shows "advances p c s s'"
  using assms
proof (induction rule: polled.induct)
  case (poll t ch s st r ch1 s1 ts now s2 ch' s')
  have adv: "advances p c s s1" "same_setup ch ch1"
    using poll_advances [OF poll.prems poll.hyps(1)] by blast+
  have adv2: "advances p c s1 s2"
    using now_advances [OF _ poll.hyps(2)] poll.prems(1) advances_paced [OF adv(1)] by blast
  have "advances p c s2 s'"
    using poll.IH poll.prems advances_paced [OF advances_trans [OF adv(1) adv2]]
      same_setup_open [OF adv(2)] adv(2) by (simp add: same_setup_def)
  with adv(1) adv2 show ?case by (blast intro: advances_trans)
qed simp

lemma wait_outcome_advances:
  assumes "wait_outcome i q ch s up ch' s'" "paced p c s" "links_open ch" "i < dc_link_count ch"
  shows "advances p c s s'"
proof -
  obtain ch1 s1 where run: "polled i ch s ch1 s1"
    and last: "s' = s1 \<or> (\<exists>t st r. dual_channel_poll_link_once i t ch1 s1 = (st, r, ch', s'))"
    using assms(1) unfolding wait_outcome_def by metis
  note adv = polled_advances [OF run assms(2-4)]
  have "links_open ch1" "i < dc_link_count ch1" "paced p c s1"
    using polled_setup [OF run] same_setup_open assms advances_paced [OF adv]
    by (auto simp: same_setup_def)
  with last have "advances p c s1 s'" by (auto dest: poll_advances)
  with adv show ?thesis by (rule advances_trans)
qed

lemma wait_call_returns:
  assumes "paced p c s" "links_open ch" "i < dc_link_count ch"
  obtains up fault' ch' s' where
    "dual_channel_send_to_link_and_wait_ack i frame n fault ch s = Some (up, fault', ch', s')"
    "advances p c s s'" "same_setup ch ch'"
proof -
  obtain st q ch1 s1 where send: "link_send i frame n ch s = (st, q, ch1, s1)" by (metis prod_cases4)
  obtain ts start s2 where now: "rte_timer_now s1 = (ts, start, s2)" by (metis prod_cases3)
  note adv = link_send_advances [OF assms(1) send]
  note same = link_send_setup [OF send]
  show thesis
  proof (cases "st = STATUS_OK")
    case False
    with that adv same show ?thesis by (simp add: dual_channel_send_to_link_and_wait_ack_def send)
  next
    case True
    have p1: "paced p c s1" using assms(1) advances_paced [OF adv] by simp
    have adv2: "advances p c s1 s2" "unat start = c (ext s2)" using now_advances [OF p1 now] by blast+
    have p2: "paced p c s2" using p1 advances_paced [OF adv2(1)] by simp
    have o1: "links_open ch1" "i < dc_link_count ch1"
      using assms same_setup_open [OF same] same by (auto simp: same_setup_def)
    let ?q = "case q of None \<Rightarrow> 0 | Some x \<Rightarrow> x"
    have "dual_wait_ack i ?q start (dc_ack_timeout_ms ch1) 0 (note_fault fault st) ch1 s2 \<noteq> None"
      using wait_returns [OF p2 o1] adv2(2) by simp
    then obtain y where y: "dual_wait_ack i ?q start (dc_ack_timeout_ms ch1) 0 (note_fault fault st)
        ch1 s2 = Some y" by blast
    from wait_result [OF y] obtain up fault' ch' s' where res: "y = (up, fault', ch', s')"
      "wait_outcome i ?q ch1 s2 up ch' s'" by blast
    have "dual_channel_send_to_link_and_wait_ack i frame n fault ch s = Some (up, fault', ch', s')"
      using True y res by (simp add: dual_channel_send_to_link_and_wait_ack_def send now)
    then show ?thesis
      using that adv adv2(1) wait_outcome_advances [OF res(2) p2 o1] same wait_outcome_setup [OF res(2)]
      by (blast intro: advances_trans same_setup_trans)
  qed
qed

lemma links_return:
  assumes "paced p c s" "links_open ch" "\<forall>i \<in> set is. i < dc_link_count ch"
  shows "send_to_links is frame n k fault ch s \<noteq> None"
  using assms
proof (induction "is" arbitrary: k fault ch s)
  case (Cons i "is")
  obtain up fault1 ch1 s1 where
    one: "dual_channel_send_to_link_and_wait_ack i frame n fault ch s = Some (up, fault1, ch1, s1)"
    and adv: "advances p c s s1" and same: "same_setup ch ch1"
    using wait_call_returns [OF Cons.prems(1,2)] Cons.prems(3) by (metis list.set_intros(1))
  let ?ch = "ch1\<lparr>dc_link_up := (dc_link_up ch1)[i := up]\<rparr>"
  have "links_open ch1" using same_setup_open [OF same] Cons.prems(2) by simp
  then have "links_open ?ch" by (simp add: links_open_def)
  moreover have "paced p c s1" using Cons.prems(1) advances_paced [OF adv] by simp
  moreover have "\<forall>i \<in> set is. i < dc_link_count ?ch"
    using Cons.prems(3) same by (simp add: same_setup_def)
  ultimately show ?case using Cons.IH one by simp
qed simp

lemma frame_returns:
  assumes "paced p c s" "links_open ch"
  shows "send_frame_and_report frame n ch s \<noteq> None"
proof -
  obtain y where "send_to_links [0..<dc_link_count ch] frame n 0 None ch s = Some y"
    using links_return [OF assms] by fastforce
  then show ?thesis by (cases y) (simp add: send_frame_and_report_def split: prod.split)
qed

section \<open>Sample links\<close>

text \<open>
  A platform whose only state is its clock, on which no frame ever arrives: a receive blocks for its
  timeout, or fails once the clock has run out. And one on which the same frame always arrives.
\<close>

definition quiet_link :: "u64 osadapter_netlink" where
  "quiet_link = \<lparr>netlink_open = None, netlink_send = Some (\<lambda>h b t x. (STATUS_OK, x)),
     netlink_receive = Some (\<lambda>h b t x. if unat x + unat t < 2 ^ 64
       then (STATUS_TIMEOUT, b, x + ucast t) else (STATUS_HARDWARE_FAULT, b, x)),
     netlink_close = None\<rparr>"

definition plain_clock :: "u64 osadapter_timer" where
  "plain_clock = \<lparr>timer_create = None, timer_start = None, timer_stop = None, timer_destroy = None,
     timer_now = Some (\<lambda>x. (STATUS_OK, x, x))\<rparr>"

definition ack_message :: rte_vital_message where
  "ack_message = sealed (zero_message\<lparr>vm_payload_size := 8, vm_payload := ack_for 0 @ replicate 240 0\<rparr>)"

definition ack_platform :: "bytes rte" where
  "ack_platform = (initial_rte (vital_message_bytes ack_message))
     \<lparr>s_netlink := Some \<lparr>netlink_open = None, netlink_send = Some (\<lambda>h b t x. (STATUS_OK, x)),
        netlink_receive = Some (\<lambda>h b t x. (STATUS_OK, x, x)), netlink_close = None\<rparr>,
      g_checksum := ertms_manager\<rparr>"

definition quiet_platform :: "u64 rte" where
  "quiet_platform = (initial_rte 0)\<lparr>s_netlink := Some quiet_link, s_timer := Some plain_clock,
     g_checksum := ertms_manager\<rparr>"

definition sample_channel :: "'x dual_channel" where
  "sample_channel = \<lparr>dc_links = replicate 4 sample_msgchannel, dc_link_count = 2,
     dc_link_up = replicate 4 False, dc_last_status = CHANNEL_DOWN, dc_status_callback = None,
     dc_status_callback_ctx = None, dc_ack_timeout_ms = 50, dc_pending_data_valid = False,
     dc_pending_data = replicate 244 0, dc_pending_data_size = 0, dc_pending_state_valid = False,
     dc_pending_state = state_frame_of_bytes (replicate 16 0)\<rparr>"

lemma sample_channel_open: "links_open sample_channel"
  by (simp add: links_open_def sample_channel_def DUAL_MAX_LINKS_def sample_msgchannel_def
      less_Suc_eq numeral_2_eq_2)

lemma quiet_paced: "paced (\<lambda>_. 0) unat quiet_platform"
proof -
  have "unat x \<le> unat (x + ucast t :: u64) \<and> unat x + unat t \<le> unat (x + ucast t :: u64)"
    if "unat x + unat t < 2 ^ 64" for x :: u64 and t :: duration_ms
  proof -
    from that show ?thesis by (simp add: unat_plus_if_size word_size unat_ucast_duration)
  qed
  then show ?thesis
    by (auto simp: paced_def quiet_platform_def quiet_link_def plain_clock_def split: if_splits)
qed

lemma ack_for_length: "length (ack_for q) = 8"
  unfolding ack_for_def by (rule ack.length_enc) (simp add: wf_ack_frame_def)

lemma ack_message_facts:
  "wf_message ack_message" "vm_sender_id ack_message = 0" "vm_sequence_number ack_message = 0"
  "vm_payload_size ack_message = 8" "take 8 (vm_payload ack_message) = ack_for 0"
  "vm_crc64 ack_message = crc64_bits (crc_poly RTE_CRC64_ERTMS) (vital_message_covered ack_message)"
  by (simp_all add: ack_message_def sealed_def zero_message_def wf_message_def ack_for_length
      vital_message_covered_def)

lemma ack_poll:
  assumes "cm_ready RTE_CRC64_ERTMS cm" "dc_links ch ! 0 = sample_msgchannel\<lparr>mc_next_sequence := q\<rparr>"
  shows "\<exists>ch' s'. dual_channel_poll_link_once 0 t ch (ack_platform\<lparr>g_checksum := cm\<rparr>) =
    (STATUS_OK, POLL_ACK 0, ch', s')"
proof -
  have dlv: "link_delivers (dc_links ch ! 0) t (vital_message_bytes ack_message)
      (ack_platform\<lparr>g_checksum := cm\<rparr>) (ack_platform\<lparr>g_checksum := cm\<rparr>)"
    using vital.length_enc [OF ack_message_facts(1)] assms(2)
    by (simp add: link_delivers_def rte_netlink_receive_def sample_msgchannel_def ack_platform_def
        initial_rte_def)
  obtain cm' where rcv: "rte_dual_msgchannel_receive (Some (dc_links ch ! 0)) (Some (replicate 248 0))
      248 t (Some 0) (ack_platform\<lparr>g_checksum := cm\<rparr>) =
    (STATUS_OK, Some (copy_at 0 (ack_for 0) (replicate 248 0)), Some 8, Some 0,
     Some ((dc_links ch ! 0)\<lparr>mc_expected_sequence := 1\<rparr>), ack_platform\<lparr>g_checksum := cm'\<rparr>)"
    using frame_accepted [OF dlv _ ack_message_facts(1), where p = RTE_CRC64_ERTMS and k = 248 and
        buf = "replicate 248 0" and z = 0] assms ack_message_facts
    by (auto simp: sample_msgchannel_def)
  have hd: "hd (copy_at 0 (ack_for 0) (replicate 248 0)) = KIND_ACK"
    by (simp add: copy_at_def ack_for_def ack_frame_bytes_def)
  have "af_acked_sequence (ack_frame_of_bytes (ack_for 0)) = 0"
    unfolding ack_for_def by (subst ack.dec_enc) (simp_all add: wf_ack_frame_def)
  moreover have "take 8 (copy_at 0 (ack_for 0) (replicate 248 0)) = ack_for 0"
    using take_copy_at_0 [of "ack_for 0" "replicate 248 0"] by (simp add: ack_for_length)
  ultimately show ?thesis
    by (simp add: dual_channel_poll_link_once_def rcv MSGCHANNEL_MAX_PAYLOAD_def
        dual_channel_handle_frame_def hd frame_kinds Let_def)
qed

definition sent_once :: "bytes dual_channel" where
  "sent_once = sample_channel\<lparr>dc_links :=
     (replicate 4 sample_msgchannel)[0 := sample_msgchannel\<lparr>mc_next_sequence := 1\<rparr>]\<rparr>"

lemma ack_send:
  "\<exists>cm. cm_ready RTE_CRC64_ERTMS cm \<and> link_send 0 [0, 0, 0, 0, 9] 5 sample_channel ack_platform =
     (STATUS_OK, Some 0, sent_once, ack_platform\<lparr>g_checksum := cm\<rparr>)"
proof -
  obtain crc cm where crc: "rte_checksum_crc64 (Some (vital_message_covered (zero_message
      \<lparr>vm_payload_size := 5, vm_payload := copy_at 0 [0, 0, 0, 0, 9] (replicate 248 0)\<rparr>))) 264
      ertms_manager = (crc, cm)" by fastforce
  have "cm_initialized ertms_manager \<noteq> 0" using ertms_manager_ready by (simp add: cm_ready_def)
  with crc have "link_send 0 [0, 0, 0, 0, 9] 5 sample_channel ack_platform =
     (STATUS_OK, Some 0, sent_once, ack_platform\<lparr>g_checksum := cm\<rparr>)"
    by (simp add: link_send_def rte_dual_msgchannel_send_def rte_checksum_vital_message_create_def
        rte_timer_now_def rte_netlink_send_def ack_platform_def initial_rte_def sent_once_def
        sample_channel_def sample_msgchannel_def zero_message_def with_checksum_def Let_def)
  moreover have "cm_ready RTE_CRC64_ERTMS cm"
    using cm_ready_crc64 ertms_manager_ready crc by (metis snd_conv)
  ultimately show ?thesis by blast
qed

lemma ack_wait_call:
  "\<exists>ch' s'. dual_channel_send_to_link_and_wait_ack 0 [0, 0, 0, 0, 9] 5 None sample_channel ack_platform =
    Some (True, None, ch', s')"
proof -
  obtain cm where cm: "cm_ready RTE_CRC64_ERTMS cm" and send: "link_send 0 [0, 0, 0, 0, 9] 5
      sample_channel ack_platform = (STATUS_OK, Some 0, sent_once, ack_platform\<lparr>g_checksum := cm\<rparr>)"
    using ack_send by blast
  have "dc_links sent_once ! 0 = sample_msgchannel\<lparr>mc_next_sequence := 1\<rparr>" by (simp add: sent_once_def)
  from ack_poll [OF cm this] obtain ch' s' where poll: "dual_channel_poll_link_once 0 50 sent_once
      (ack_platform\<lparr>g_checksum := cm\<rparr>) = (STATUS_OK, POLL_ACK 0, ch', s')" by blast
  have now: "rte_timer_now (ack_platform\<lparr>g_checksum := cm\<rparr>) =
      (STATUS_NOT_INITIALIZED, 0, ack_platform\<lparr>g_checksum := cm\<rparr>)"
    by (simp add: rte_timer_now_def ack_platform_def initial_rte_def)
  obtain ts now' s2 where "rte_timer_now s' = (ts, now', s2)" by (metis prod_cases3)
  with wait_step [OF _ _ poll] have "dual_wait_ack 0 0 0 50 0 None sent_once (ack_platform\<lparr>g_checksum := cm\<rparr>) =
      Some (True, None, ch', s')" by (simp add: STALL_POLL_LIMIT_def)
  moreover have "dc_ack_timeout_ms sent_once = 50"
    by (simp add: sent_once_def sample_channel_def)
  ultimately show ?thesis
    by (simp add: dual_channel_send_to_link_and_wait_ack_def send now note_fault_def)
qed

section \<open>Properties\<close>

text \<open>C12. What a send reports: the number of links that acknowledged the frame, OK exactly when
  there is one, TIMEOUT or HARDWARE_FAULT otherwise; the channel is DOWN, DEGRADED or FULL as
  none, some or all of its links acknowledged.\<close>

theorem send_reports_acknowledged_links:
  assumes "rte_dual_channel_send (Some ch) payload n s = Some (st, cnt, ch', s')"
    and "links_open ch" "payload \<noteq> None \<or> n = 0" "unat n \<le> DUAL_MAX_PAYLOAD"
  shows "\<exists>ch2. ch' = Some ch2 \<and> cnt = Some (links_up ch2) \<and> dc_link_count ch2 = dc_link_count ch \<and>
    (st = STATUS_OK \<longleftrightarrow> 0 < links_up ch2) \<and>
    st \<in> {STATUS_OK, STATUS_TIMEOUT, STATUS_HARDWARE_FAULT} \<and>
    rte_dual_channel_get_status ch' =
      (if links_up ch2 = 0 then CHANNEL_DOWN
       else if links_up ch2 = dc_link_count ch then CHANNEL_FULL else CHANNEL_DEGRADED)"
proof -
  obtain frame k where run: "send_frame_and_report frame k ch s = Some (st, cnt, ch', s')"
    using assms(1,3,4) unfolding rte_dual_channel_send_def Let_def option.case
    by (metis not_less)
  from frame_report [OF run assms(2)] obtain ch2 where ch2: "ch' = Some ch2" "cnt = Some (links_up ch2)"
    "dc_link_count ch2 = dc_link_count ch" "dc_last_status ch2 = dual_channel_compute_status ch2"
    "st = STATUS_OK \<longleftrightarrow> 0 < links_up ch2"
    "st \<in> {STATUS_OK, STATUS_TIMEOUT, STATUS_HARDWARE_FAULT}" "links_open ch2"
    by (elim exE conjE)
  have "dc_link_count ch2 \<le> length (dc_link_up ch2)" using ch2(7) by (simp add: links_open_def)
  from compute_status_up [OF this] ch2(1,3,4) have "rte_dual_channel_get_status ch' =
      (if links_up ch2 = 0 then CHANNEL_DOWN
       else if links_up ch2 = dc_link_count ch then CHANNEL_FULL else CHANNEL_DEGRADED)"
    by (simp add: rte_dual_channel_get_status_def)
  with ch2(1,2,3,5,6) show ?thesis by (intro exI [of _ ch2] conjI)
qed

text \<open>C11. A link counts as up only when it acknowledged this very frame: the frame was sent with the
  link's next sequence number, and the last poll of the link, after nothing but other polls of it,
  gave the acknowledgement of that number.\<close>

theorem link_up_needs_its_acknowledgement:
  assumes "dual_channel_send_to_link_and_wait_ack i frame n fault ch s = Some (True, fault', ch', s')"
  shows "\<exists>q ch0 s0 t ch1 s1. link_send i frame n ch s = (STATUS_OK, Some q, ch0, s0) \<and>
    q = mc_next_sequence (dc_links ch ! i) \<and> polled i ch0 (snd (snd (rte_timer_now s0))) ch1 s1 \<and>
    dual_channel_poll_link_once i t ch1 s1 = (STATUS_OK, POLL_ACK q, ch', s')"
proof -
  obtain st q ch1 s1 where send: "link_send i frame n ch s = (st, q, ch1, s1)" by (metis prod_cases4)
  obtain ts start s2 where now: "rte_timer_now s1 = (ts, start, s2)" by (metis prod_cases3)
  have ok: "st = STATUS_OK"
    using assms by (simp add: dual_channel_send_to_link_and_wait_ack_def send Let_def split: if_splits)
  with send have q: "q = Some (mc_next_sequence (dc_links ch ! i))"
    by (auto simp: link_send_def rte_dual_msgchannel_send_def Let_def split: prod.splits if_splits)
  from assms ok have "dual_wait_ack i (mc_next_sequence (dc_links ch ! i)) start
      (dc_ack_timeout_ms ch1) 0 (note_fault fault st) ch1 s2 = Some (True, fault', ch', s')"
    by (simp add: dual_channel_send_to_link_and_wait_ack_def send now q)
  from wait_result [OF this]
  have "wait_outcome i (mc_next_sequence (dc_links ch ! i)) ch1 s2 True ch' s'" by blast
  with send ok q now show ?thesis by (auto simp: wait_outcome_def)
qed

text \<open>C15. A send returns when the OSAdapters keep their word: the clock does not run backwards, a
  receive blocks for its whole timeout unless it takes a frame or fails, and only finitely many
  frames are under way.\<close>

theorem send_returns:
  assumes "paced p c s" "links_open ch"
  shows "rte_dual_channel_send (Some ch) payload n s \<noteq> None \<and>
    rte_dual_channel_send_heartbeat (Some ch) s \<noteq> None"
proof -
  obtain ts now s1 where now: "rte_timer_now s = (ts, now, s1)" by (metis prod_cases3)
  have "paced p c s1" using assms(1) now_advances [OF assms(1) now] advances_paced by blast
  from frame_returns [OF this assms(2)] frame_returns [OF assms] show ?thesis
    by (simp add: rte_dual_channel_send_def rte_dual_channel_send_heartbeat_def now Let_def)
qed

theorem link_up_needs_its_acknowledgement_witness:
  "\<exists>q ch0 s0 t ch1 s1 ch' s'. link_send 0 [0, 0, 0, 0, 9] 5 sample_channel ack_platform =
      (STATUS_OK, Some q, ch0, s0) \<and> polled 0 ch0 (snd (snd (rte_timer_now s0))) ch1 s1 \<and>
    dual_channel_poll_link_once 0 t ch1 s1 = (STATUS_OK, POLL_ACK q, ch', s')"
proof -
  obtain ch' s' where "dual_channel_send_to_link_and_wait_ack 0 [0, 0, 0, 0, 9] 5 None sample_channel
      ack_platform = Some (True, None, ch', s')" using ack_wait_call by blast
  from link_up_needs_its_acknowledgement [OF this] show ?thesis by blast
qed

theorem send_returns_witness:
  "rte_dual_channel_send (Some sample_channel) (Some [1, 2]) 2 quiet_platform \<noteq> None \<and>
    rte_dual_channel_send_heartbeat (Some sample_channel) quiet_platform \<noteq> None"
  by (rule send_returns [OF quiet_paced sample_channel_open])

theorem send_reports_acknowledged_links_witness:
  "\<exists>st cnt ch2 s'. rte_dual_channel_send (Some sample_channel) (Some [1, 2]) 2 quiet_platform =
     Some (st, cnt, Some ch2, s') \<and> cnt = Some (links_up ch2) \<and> (st = STATUS_OK \<longleftrightarrow> 0 < links_up ch2)"
proof -
  obtain y where "rte_dual_channel_send (Some sample_channel) (Some [1, 2]) 2 quiet_platform = Some y"
    using frame_returns [OF quiet_paced sample_channel_open]
    by (fastforce simp: rte_dual_channel_send_def DUAL_MAX_PAYLOAD_def)
  then obtain st cnt ch' s' where run: "rte_dual_channel_send (Some sample_channel) (Some [1, 2]) 2
      quiet_platform = Some (st, cnt, ch', s')" by (metis prod_cases4)
  from send_reports_acknowledged_links [OF run sample_channel_open] run show ?thesis
    by (auto simp: DUAL_MAX_PAYLOAD_def)
qed

text \<open>
  A time base that has moved on since the wait began and then stands still: every turn of the loop
  finds the same elapsed time and clears the count of turns without progress.
\<close>

lemma elapsed_less:
  fixes start now :: timestamp_ms and ack :: duration_ms
  assumes "start < now" "now - start < ucast ack"
  shows "0 < ack - ucast (now - start)"
proof -
  have less: "unat (now - start) < unat ack"
    using assms(2) by (simp add: word_less_nat_alt unat_ucast_duration)
  then have "unat (ucast (now - start) :: duration_ms) = unat (now - start)"
    using unat_duration_less [of ack] by (simp add: unsigned_ucast_eq take_bit_nat_eq_self)
  with less have "ack \<noteq> ucast (now - start)" by auto
  then show ?thesis by (simp add: word_gt_0)
qed

lemma quiet_poll:
  assumes "s_netlink s = Some na" "netlink_receive na = Some rcv" "mc_link (dc_links ch ! i) = Some h"
    and "\<forall>h b t x. fst (rcv h b t x) = STATUS_TIMEOUT"
  shows "\<exists>x. dual_channel_poll_link_once i t ch s = (STATUS_TIMEOUT, POLL_NONE, ch, s\<lparr>ext := x\<rparr>)"
proof -
  obtain b x where "rcv h (replicate 272 0) t (ext s) = (STATUS_TIMEOUT, b, x)"
    using assms(4) by (metis prod.collapse)
  then have "rte_netlink_receive (mc_link (dc_links ch ! i)) (Some (replicate 272 0)) 272 t s =
      (STATUS_TIMEOUT, Some b, s\<lparr>ext := x\<rparr>)"
    using assms(1-3) by (simp add: rte_netlink_receive_def)
  then show ?thesis
    by (intro exI [of _ x]) (simp add: dual_channel_poll_link_once_def rte_dual_msgchannel_receive_def)
qed

lemma frozen_wait:
  assumes "dual_wait_ack i q start remaining stall fault ch s = Some y"
    and "s_timer s = Some ta" "timer_now ta = Some now" "\<forall>x. fst (snd (now x)) = t"
    and "s_netlink s = Some na" "netlink_receive na = Some rcv"
    and "\<forall>h b t x. fst (rcv h b t x) = STATUS_TIMEOUT"
    and "mc_link (dc_links ch ! i) = Some h" "start < t" "t - start < ucast (dc_ack_timeout_ms ch)"
    and "0 < remaining" "stall < STALL_POLL_LIMIT"
  shows False
  using assms(1,2,5,8-)
proof (induction rule: wait_induct)
  case (again remaining stall fault ch s st r ch1 s1 ts now' s2 y)
  obtain x where poll: "dual_channel_poll_link_once i remaining ch s =
      (STATUS_TIMEOUT, POLL_NONE, ch, s\<lparr>ext := x\<rparr>)"
    using quiet_poll [OF again.prems(2) assms(6) again.prems(3) assms(7)] by blast
  obtain ts1 x1 where "now x = (ts1, t, x1)" using assms(4) by (metis prod.collapse)
  then have clock: "rte_timer_now (s\<lparr>ext := x\<rparr>) = (ts1, t, s\<lparr>ext := x1\<rparr>)"
    using again.prems(1) assms(3) by (simp add: rte_timer_now_def)
  have "ch1 = ch" "s1 = s\<lparr>ext := x\<rparr>" using again.hyps(3) poll by simp_all
  moreover have "now' = t" "s2 = s\<lparr>ext := x1\<rparr>" using again.hyps(4) clock calculation by simp_all
  moreover have "\<not> ucast (dc_ack_timeout_ms ch) \<le> t - start" using again.prems(5) by (simp add: not_le)
  ultimately show ?case
    using again.IH again.prems elapsed_less [OF again.prems(4,5)]
    by (simp add: next_remaining_def STALL_POLL_LIMIT_def)
next
  case (acked remaining stall fault ch s ch1 s1)
  with quiet_poll [OF this(3) assms(6) this(4) assms(7), of remaining] show ?case by auto
next
  case (broken remaining stall fault ch s r ch1 s1)
  with quiet_poll [OF this(3) assms(6) this(4) assms(7), of remaining] show ?case by auto
qed simp

text \<open>C16. The loop is not bounded by the count of polls without progress: once the clock has moved on
  by less than the timeout and then stops, on a link that stays silent, the wait never returns.\<close>

theorem stopped_clock_never_returns:
  assumes "s_timer s = Some ta" "timer_now ta = Some now" "\<forall>x. fst (snd (now x)) = t"
    and "s_netlink s = Some na" "netlink_receive na = Some rcv"
    and "\<forall>h b d x. fst (rcv h b d x) = STATUS_TIMEOUT"
    and "mc_link (dc_links ch ! i) = Some h" "start < t" "t - start < ucast (dc_ack_timeout_ms ch)"
    and "0 < remaining"
  shows "dual_wait_ack i q start remaining 0 fault ch s = None"
proof (rule ccontr)
  assume "dual_wait_ack i q start remaining 0 fault ch s \<noteq> None"
  then obtain y where run: "dual_wait_ack i q start remaining 0 fault ch s = Some y" by blast
  show False by (rule frozen_wait [OF run assms]) (simp add: STALL_POLL_LIMIT_def)
qed

definition silent_platform :: "nat rte" where
  "silent_platform = (initial_rte 0)
     \<lparr>s_netlink := Some \<lparr>netlink_open = None, netlink_send = None,
        netlink_receive = Some (\<lambda>h b t x. (STATUS_TIMEOUT, b, x)), netlink_close = None\<rparr>,
      s_timer := Some \<lparr>timer_create = None, timer_start = None, timer_stop = None,
        timer_destroy = None, timer_now = Some (\<lambda>x. (STATUS_OK, 8, x))\<rparr>\<rparr>"

theorem stopped_clock_never_returns_witness:
  "dual_wait_ack 0 3 7 50 0 None sample_channel silent_platform = None"
  by (rule stopped_clock_never_returns [where t = 8 and h = 0 and
        ta = "the (s_timer silent_platform)" and na = "the (s_netlink silent_platform)" and
        now = "\<lambda>x. (STATUS_OK, 8, x)" and rcv = "\<lambda>h b d x. (STATUS_TIMEOUT, b, x)"])
    (simp_all add: silent_platform_def sample_channel_def sample_msgchannel_def)

end
