(* ===== verification/Dual_Receive.thy ===== *)
theory Dual_Receive
  imports Dual_Channel
begin

text \<open>
  The receive side of the redundant links: what \<^verbatim>\<open>rte_dual_channel_receive\<close> hands to its caller is
  compared with a specification that only collects the DATA frames the links accept during the
  sweep, in their order.
\<close>

section \<open>Specification\<close>

text \<open>The application bytes of a DATA frame, nothing for any other outcome of a link's receive.\<close>

definition data_of :: "rte_status \<Rightarrow> bytes option \<Rightarrow> u8 option \<Rightarrow> bytes list" where
  "data_of st raw sz =
    (case (raw, sz) of
       (Some b, Some z) \<Rightarrow>
         if st = STATUS_OK \<and> 4 \<le> z \<and> hd b = KIND_DATA then [take (unat (z - 4)) (drop 4 b)] else []
     | _ \<Rightarrow> [])"

definition link_data :: "nat \<Rightarrow> duration_ms \<Rightarrow> 'x dual_channel \<Rightarrow> 'x rte \<Rightarrow> bytes list" where
  "link_data i t ch s =
    (let (st, raw, sz, _) = rte_dual_msgchannel_receive (Some (dc_links ch ! i))
           (Some (replicate MSGCHANNEL_MAX_PAYLOAD 0)) 248 t (Some 0) s
     in data_of st raw sz)"

fun swept_data :: "nat list \<Rightarrow> duration_ms \<Rightarrow> 'x dual_channel \<Rightarrow> 'x rte \<Rightarrow> bytes list" where
  "swept_data [] t ch s = []"
| "swept_data (i # is) t ch s =
    (let (_, _, ch1, s1) = dual_channel_poll_link_once i t ch s
     in link_data i t ch s @ swept_data is t ch1 s1)"

text \<open>What is staged for the caller, and the capacity of the stage.\<close>

definition staged :: "'x dual_channel \<Rightarrow> bytes option" where
  "staged ch = (if dc_pending_data_valid ch
     then Some (take (unat (dc_pending_data_size ch)) (dc_pending_data ch)) else None)"

definition wf_stage :: "'x dual_channel \<Rightarrow> bool" where
  "wf_stage ch \<longleftrightarrow> length (dc_pending_data ch) = DUAL_MAX_PAYLOAD \<and>
     (dc_pending_data_valid ch \<longrightarrow> unat (dc_pending_data_size ch) \<le> DUAL_MAX_PAYLOAD)"

definition same_stage :: "'x dual_channel \<Rightarrow> 'x dual_channel \<Rightarrow> bool" where
  "same_stage ch ch' \<longleftrightarrow> dc_pending_data ch' = dc_pending_data ch \<and>
     dc_pending_data_size ch' = dc_pending_data_size ch \<and>
     dc_pending_data_valid ch' = dc_pending_data_valid ch"

lemma same_stage_staged: "same_stage ch ch' \<Longrightarrow> staged ch' = staged ch \<and> wf_stage ch' = wf_stage ch"
  by (simp add: same_stage_def staged_def wf_stage_def)

section \<open>One link\<close>

lemma link_send_stage: "link_send i pl n ch s = (st, q, ch', s') \<Longrightarrow> same_stage ch ch'"
  by (auto simp: link_send_def same_stage_def split: prod.splits option.splits)

lemma verify_fits:
  assumes "rte_checksum_vital_message_verify (Some m) e (Some buf) k (Some z) cm = (STATUS_OK, out, sz, cm')"
    and "length buf = k"
  shows "\<exists>b w. out = Some b \<and> sz = Some w \<and> length b = k \<and> unat w \<le> k"
  using assms by (auto simp: rte_checksum_vital_message_verify_def Let_def split: prod.splits if_splits)

lemma receive_fits:
  assumes run: "rte_dual_msgchannel_receive (Some c) (Some buf) k t (Some z) s = (STATUS_OK, out, sz, q, c', s')"
    and len: "length buf = unat k"
  shows "\<exists>b w x. out = Some b \<and> sz = Some w \<and> q = Some x \<and> length b = unat k \<and> w \<le> k"
proof -
  have q: "q = Some (mc_expected_sequence c)" using receive_step [OF run] by auto
  obtain st1 raw s1 where rcv: "rte_netlink_receive (mc_link c) (Some (replicate 272 0)) 272 t s =
      (st1, raw, s1)" by (metis prod_cases3)
  let ?f = "vital_message_of_bytes (case raw of None \<Rightarrow> [] | Some b \<Rightarrow> b)"
  obtain st2 b2 z2 cm2 where ver: "rte_checksum_vital_message_verify (Some ?f)
      (mc_expected_sequence c) (Some buf) (unat k) (Some z) (g_checksum s1) = (st2, b2, z2, cm2)"
    by (metis prod_cases4)
  have "st2 = STATUS_OK \<and> out = b2 \<and> sz = z2"
    using run
    by (auto simp: rte_dual_msgchannel_receive_def rcv ver with_checksum_def Let_def
        split: if_splits prod.splits)
  with verify_fits [of ?f "mc_expected_sequence c" buf "unat k" z "g_checksum s1"] ver len q
  show ?thesis by (auto simp: word_le_nat_alt)
qed

text \<open>A frame that was accepted is staged whole when it is a DATA frame and changes nothing otherwise.\<close>

lemma handle_stage:
  assumes run: "dual_channel_handle_frame i b z q ch s = (st, r, ch', s')"
    and fit: "length b = 248" "4 \<le> z" "z \<le> 248" and wf: "wf_stage ch"
  shows "wf_stage ch' \<and> staged ch' = (if hd b = KIND_DATA then Some (take (unat (z - 4)) (drop 4 b))
    else staged ch)"
proof (cases "hd b = KIND_DATA")
  case True
  let ?d = "take (unat (z - 4)) (drop 4 b)"
  have z: "unat (z - 4) \<le> 244"
    using fit(2,3) by (simp add: unat_sub word_le_nat_alt)
  then have d: "length ?d = unat (z - 4)" using fit(1) by simp
  let ?ch = "ch\<lparr>dc_pending_data := copy_at 0 ?d (dc_pending_data ch),
     dc_pending_data_size := z - 4, dc_pending_data_valid := True\<rparr>"
  obtain st2 q2 ch2 s2 where send: "link_send i (ack_for q) 8 ?ch s = (st2, q2, ch2, s2)"
    by (metis prod_cases4)
  have "ch' = ch2"
    using run True z by (simp add: dual_channel_handle_frame_def DUAL_MAX_PAYLOAD_def Let_def send)
  moreover have "wf_stage ?ch"
    using wf z d by (simp add: wf_stage_def DUAL_MAX_PAYLOAD_def)
  moreover have "staged ?ch = Some ?d"
    using take_copy_at_0 [of ?d] d by (simp add: staged_def)
  ultimately show ?thesis using same_stage_staged [OF link_send_stage [OF send]] True by simp
next
  case False
  obtain st2 q2 ch2 s2 where send: "link_send i (ack_for q) 8 ch s = (st2, q2, ch2, s2)"
    by (metis prod_cases4)
  have "same_stage ch ch' \<or> ch' = ch2"
    using run False by (auto simp: dual_channel_handle_frame_def send same_stage_def Let_def split: if_splits)
  with link_send_stage [OF send] have "same_stage ch ch'" by blast
  from same_stage_staged [OF this] False wf show ?thesis by simp
qed

lemma poll_stage:
  assumes run: "dual_channel_poll_link_once i t ch s = (st, r, ch', s')" and wf: "wf_stage ch"
  shows "wf_stage ch' \<and> staged ch' = (if link_data i t ch s = [] then staged ch
    else Some (last (link_data i t ch s)))"
proof -
  obtain st1 raw sz q c s1 where rcv: "rte_dual_msgchannel_receive (Some (dc_links ch ! i))
      (Some (replicate MSGCHANNEL_MAX_PAYLOAD 0)) 248 t (Some 0) s = (st1, raw, sz, q, c, s1)"
    by (metis prod_cases6)
  let ?ch = "case c of None \<Rightarrow> ch | Some c' \<Rightarrow> ch\<lparr>dc_links := (dc_links ch)[i := c']\<rparr>"
  have same: "same_stage ch ?ch" by (simp add: same_stage_def split: option.split)
  have data: "link_data i t ch s = data_of st1 raw sz" by (simp add: link_data_def rcv)
  show ?thesis
  proof (cases "st1 = STATUS_OK")
    case False
    then have "ch' = ?ch" "data_of st1 raw sz = []"
      using run unfolding dual_channel_poll_link_once_def rcv Let_def data_of_def
      by (cases raw; cases sz; cases q; auto)+
    with same_stage_staged [OF same] data wf show ?thesis by simp
  next
    case True
    with receive_fits [OF rcv [unfolded True]] obtain b z x where io: "raw = Some b" "sz = Some z"
      "q = Some x" "length b = 248" "z \<le> 248" by (auto simp: MSGCHANNEL_MAX_PAYLOAD_def)
    show ?thesis
    proof (cases "z < 4")
      case True
      then have "ch' = ?ch" "data_of st1 raw sz = []"
        using run \<open>st1 = STATUS_OK\<close> unfolding dual_channel_poll_link_once_def rcv Let_def data_of_def io
        by auto
      with same_stage_staged [OF same] data wf show ?thesis by simp
    next
      case False
      then have "dual_channel_handle_frame i b z x ?ch s1 = (st, r, ch', s')"
        using run \<open>st1 = STATUS_OK\<close> unfolding dual_channel_poll_link_once_def rcv Let_def io by simp
      from handle_stage [OF this io(4) _ io(5)] False wf same_stage_staged [OF same] data
      show ?thesis by (simp add: data_of_def io \<open>st1 = STATUS_OK\<close> not_less)
    qed
  qed
qed

section \<open>The sweep\<close>

lemma sweep_stage:
  assumes "poll_links is t fault ch s = (fault', ch', s')" "wf_stage ch"
  shows "wf_stage ch' \<and> staged ch' = (if swept_data is t ch s = [] then staged ch
    else Some (last (swept_data is t ch s)))"
  using assms
proof (induction "is" arbitrary: fault ch s)
  case (Cons i "is")
  obtain st r ch1 s1 where poll: "dual_channel_poll_link_once i t ch s = (st, r, ch1, s1)"
    by (metis prod_cases4)
  have "poll_links is t (note_fault fault st) ch1 s1 = (fault', ch', s')"
    using Cons.prems(1) by (simp add: poll)
  note rest = Cons.IH [OF this]
  from poll_stage [OF poll Cons.prems(2)] rest show ?case by (auto simp: poll)
qed simp

lemma sweep_fault:
  "fault \<in> {None, Some STATUS_HARDWARE_FAULT} \<Longrightarrow>
    fst (poll_links is t fault ch s) \<in> {None, Some STATUS_HARDWARE_FAULT}"
  by (induction "is" arbitrary: fault ch s) (auto simp: note_fault_def Let_def split: prod.split)

text \<open>The frame a receive works on: the staged one, or else the last one of its sweep.\<close>

definition frame_on_offer :: "duration_ms \<Rightarrow> 'x dual_channel \<Rightarrow> 'x rte \<Rightarrow> bytes option" where
  "frame_on_offer t ch s =
    (case staged ch of
       Some d \<Rightarrow> Some d
     | None \<Rightarrow>
         let ds = swept_data [0..<dc_link_count ch] (per_link_timeout t ch) ch s
         in if ds = [] then None else Some (last ds))"

lemma receive_stage:
  assumes "(if \<not> dc_pending_data_valid ch
      then poll_links [0..<dc_link_count ch] (per_link_timeout t ch) None ch s
      else (None, ch, s)) = (fault, ch1, s1)" "wf_stage ch"
  shows "wf_stage ch1 \<and> staged ch1 = frame_on_offer t ch s"
proof (cases "dc_pending_data_valid ch")
  case True
  with assms show ?thesis by (simp add: frame_on_offer_def staged_def)
next
  case False
  then have "poll_links [0..<dc_link_count ch] (per_link_timeout t ch) None ch s = (fault, ch1, s1)"
    using assms(1) by simp
  from sweep_stage [OF this assms(2)] False show ?thesis
    by (simp add: frame_on_offer_def staged_def Let_def)
qed

lemma stage_length: "wf_stage ch \<Longrightarrow> staged ch = Some d \<Longrightarrow> length d = unat (dc_pending_data_size ch)"
  by (auto simp: staged_def wf_stage_def split: if_splits)

lemma receive_platform:
  assumes "rte_dual_channel_receive (Some ch) (Some buf) m t (Some z) s = (st, out, sz, ch', s')"
    and "0 < m" "\<not> dc_pending_data_valid ch"
  shows "s' = snd (snd (poll_links [0..<dc_link_count ch] (per_link_timeout t ch) None ch s))"
  using assms by (auto simp: rte_dual_channel_receive_def Let_def split: prod.splits if_splits)

section \<open>Two links, two frames\<close>

text \<open>
  Two links on which different DATA frames wait, and an adapter that counts what is sent: the sweep
  accepts and acknowledges both frames, and only the second reaches the caller.
\<close>

definition data_message :: "u8 \<Rightarrow> rte_vital_message" where
  "data_message b = sealed (zero_message\<lparr>vm_payload_size := 5, vm_payload := [0, 0, 0, 0, b] @ replicate 243 0\<rparr>)"

definition two_frames :: "nat \<Rightarrow> rte_checksum_manager \<Rightarrow> nat rte" where
  "two_frames n cm = (initial_rte n)
     \<lparr>s_netlink := Some \<lparr>netlink_open = None, netlink_send = Some (\<lambda>h b t x. (STATUS_OK, x + 1)),
        netlink_receive = Some (\<lambda>h b t x. (STATUS_OK, vital_message_bytes (data_message (of_nat h)), x)),
        netlink_close = None\<rparr>, g_checksum := cm\<rparr>"

definition data_link :: "handle \<Rightarrow> dual_msgchannel" where
  "data_link h = sample_msgchannel\<lparr>mc_link := Some h\<rparr>"

definition two_link_channel :: "'x dual_channel" where
  "two_link_channel = sample_channel\<lparr>dc_links := [data_link 1, data_link 2, data_link 3, data_link 4]\<rparr>"

lemma data_message_facts:
  "wf_message (data_message b)" "vm_sender_id (data_message b) = 0"
  "vm_sequence_number (data_message b) = 0" "vm_payload_size (data_message b) = 5"
  "take 5 (vm_payload (data_message b)) = [0, 0, 0, 0, b]"
  "vm_crc64 (data_message b) = crc64_bits (crc_poly RTE_CRC64_ERTMS) (vital_message_covered (data_message b))"
  by (simp_all add: data_message_def sealed_def zero_message_def wf_message_def vital_message_covered_def)

lemma data_link_receive:
  assumes "cm_ready RTE_CRC64_ERTMS cm"
  shows "\<exists>cm'. cm_ready RTE_CRC64_ERTMS cm' \<and>
    rte_dual_msgchannel_receive (Some (data_link h)) (Some (replicate 248 0)) 248 t (Some 0) (two_frames n cm) =
    (STATUS_OK, Some ([0, 0, 0, 0, of_nat h] @ replicate 243 0), Some 5, Some 0,
     Some ((data_link h)\<lparr>mc_expected_sequence := 1\<rparr>), two_frames n cm')"
proof -
  have dlv: "link_delivers (data_link h) t (vital_message_bytes (data_message (of_nat h)))
      (two_frames n cm) (two_frames n cm)"
    using vital.length_enc [OF data_message_facts(1)]
    by (simp add: link_delivers_def rte_netlink_receive_def data_link_def two_frames_def initial_rte_def)
  have "cm_ready RTE_CRC64_ERTMS (g_checksum (two_frames n cm))" using assms by (simp add: two_frames_def)
  from frame_accepted [OF dlv this data_message_facts(1), where k = 248 and buf = "replicate 248 0" and z = 0]
    data_message_facts show ?thesis
    by (auto simp: data_link_def sample_msgchannel_def copy_at_def two_frames_def)
qed

lemma data_link_send:
  assumes "cm_ready RTE_CRC64_ERTMS cm" "dc_links ch ! i = (data_link h)\<lparr>mc_expected_sequence := 1\<rparr>"
  shows "\<exists>cm'. cm_ready RTE_CRC64_ERTMS cm' \<and> link_send i (ack_for q) 8 ch (two_frames n cm) =
    (STATUS_OK, Some 0, ch\<lparr>dc_links := (dc_links ch)[i := (data_link h)\<lparr>mc_expected_sequence := 1,
       mc_next_sequence := 1\<rparr>]\<rparr>, two_frames (n + 1) cm')"
proof -
  obtain crc cm' where crc: "rte_checksum_crc64 (Some (vital_message_covered (zero_message
      \<lparr>vm_payload_size := 8, vm_payload := copy_at 0 (take 8 (ack_for q)) (replicate 248 0)\<rparr>))) 264 cm = (crc, cm')"
    by fastforce
  have "cm_initialized cm \<noteq> 0" using assms(1) by (simp add: cm_ready_def)
  with crc assms(2) have "link_send i (ack_for q) 8 ch (two_frames n cm) =
     (STATUS_OK, Some 0, ch\<lparr>dc_links := (dc_links ch)[i := (data_link h)\<lparr>mc_expected_sequence := 1,
       mc_next_sequence := 1\<rparr>]\<rparr>, two_frames (n + 1) cm')"
    by (simp add: link_send_def rte_dual_msgchannel_send_def rte_checksum_vital_message_create_def
        rte_timer_now_def rte_netlink_send_def two_frames_def initial_rte_def data_link_def
        sample_msgchannel_def zero_message_def with_checksum_def Let_def)
  moreover have "cm_ready RTE_CRC64_ERTMS cm'"
    using cm_ready_crc64 assms(1) crc by (metis snd_conv)
  ultimately show ?thesis by blast
qed

text \<open>One poll takes the frame, stages it and acknowledges it.\<close>

lemma data_link_poll:
  assumes "cm_ready RTE_CRC64_ERTMS cm" "dc_links ch ! i = data_link h" "i < length (dc_links ch)"
  shows "\<exists>cm' ch'. cm_ready RTE_CRC64_ERTMS cm' \<and>
    dual_channel_poll_link_once i t ch (two_frames n cm) = (STATUS_OK, POLL_DATA, ch', two_frames (n + 1) cm') \<and>
    link_data i t ch (two_frames n cm) = [[of_nat h]] \<and>
    length (dc_links ch') = length (dc_links ch) \<and> (\<forall>j. j \<noteq> i \<longrightarrow> dc_links ch' ! j = dc_links ch ! j)"
proof -
  let ?b = "[0, 0, 0, 0, of_nat h] @ replicate 243 0 :: bytes"
  obtain cm1 where cm1: "cm_ready RTE_CRC64_ERTMS cm1" and rcv: "rte_dual_msgchannel_receive
      (Some (data_link h)) (Some (replicate 248 0)) 248 t (Some 0) (two_frames n cm) =
    (STATUS_OK, Some ?b, Some 5, Some 0, Some ((data_link h)\<lparr>mc_expected_sequence := 1\<rparr>), two_frames n cm1)"
    using data_link_receive [OF assms(1)] by blast
  let ?ch = "ch\<lparr>dc_links := (dc_links ch)[i := (data_link h)\<lparr>mc_expected_sequence := 1\<rparr>],
     dc_pending_data := copy_at 0 [of_nat h] (dc_pending_data ch), dc_pending_data_size := 1,
     dc_pending_data_valid := True\<rparr>"
  have "dc_links ?ch ! i = (data_link h)\<lparr>mc_expected_sequence := 1\<rparr>" using assms(3) by simp
  from data_link_send [OF cm1 this, where q = 0 and n = n] obtain cm2 where cm2: "cm_ready RTE_CRC64_ERTMS cm2"
    and send: "link_send i (ack_for 0) 8 ?ch (two_frames n cm1) = (STATUS_OK, Some 0,
      ?ch\<lparr>dc_links := (dc_links ?ch)[i := (data_link h)\<lparr>mc_expected_sequence := 1,
        mc_next_sequence := 1\<rparr>]\<rparr>, two_frames (n + 1) cm2)" by blast
  have "hd ?b = KIND_DATA" by (simp add: frame_kinds KIND_DATA_def)
  then have "dual_channel_poll_link_once i t ch (two_frames n cm) = (STATUS_OK, POLL_DATA,
      ?ch\<lparr>dc_links := (dc_links ?ch)[i := (data_link h)\<lparr>mc_expected_sequence := 1,
        mc_next_sequence := 1\<rparr>]\<rparr>, two_frames (n + 1) cm2)"
    using send by (simp add: dual_channel_poll_link_once_def assms(2) rcv MSGCHANNEL_MAX_PAYLOAD_def
        dual_channel_handle_frame_def DUAL_MAX_PAYLOAD_def Let_def)
  moreover have "link_data i t ch (two_frames n cm) = [[of_nat h]]"
    by (simp add: link_data_def assms(2) rcv MSGCHANNEL_MAX_PAYLOAD_def data_of_def KIND_DATA_def)
  ultimately show ?thesis using cm2 by (intro exI conjI) (assumption | simp)+
qed

lemma two_frames_swept:
  "\<exists>cm. swept_data [0, 1] t two_link_channel (two_frames 0 ertms_manager) = [[1], [2]] \<and>
    snd (snd (poll_links [0, 1] t fault two_link_channel (two_frames 0 ertms_manager))) = two_frames 2 cm"
proof -
  let ?ch = "two_link_channel :: nat dual_channel"
  have l0: "dc_links ?ch ! 0 = data_link 1" "0 < length (dc_links ?ch)"
    by (simp_all add: two_link_channel_def)
  obtain cm1 ch1 where p: "cm_ready RTE_CRC64_ERTMS cm1"
    "dual_channel_poll_link_once 0 t ?ch (two_frames 0 ertms_manager) = (STATUS_OK, POLL_DATA, ch1, two_frames (0 + 1) cm1)"
    "link_data 0 t ?ch (two_frames 0 ertms_manager) = [[of_nat 1]]"
    "length (dc_links ch1) = length (dc_links ?ch)" "\<forall>j. j \<noteq> 0 \<longrightarrow> dc_links ch1 ! j = dc_links ?ch ! j"
    using data_link_poll [OF ertms_manager_ready l0] by blast
  have l1: "dc_links ch1 ! 1 = data_link 2" "1 < length (dc_links ch1)"
    using p(4,5) by (simp_all add: two_link_channel_def)
  obtain cm2 ch2 where "dual_channel_poll_link_once 1 t ch1 (two_frames 1 cm1) = (STATUS_OK, POLL_DATA, ch2, two_frames (1 + 1) cm2)"
    "link_data 1 t ch1 (two_frames 1 cm1) = [[of_nat 2]]"
    using data_link_poll [OF p(1) l1] by blast
  with p(2,3) show ?thesis by (auto simp: numeral_2_eq_2 intro: exI [of _ cm2])
qed

lemma receive_outcome:
  assumes "rte_dual_channel_receive (Some ch) (Some buf) m t (Some z) s = (st, out, sz, ch', s')"
    and "0 < m" "wf_stage ch"
  shows "\<exists>c. ch' = Some c \<and> wf_stage c \<and>
    (case frame_on_offer t ch s of
       None \<Rightarrow> st \<in> {STATUS_TIMEOUT, STATUS_HARDWARE_FAULT} \<and> out = Some buf \<and> sz = Some z \<and> staged c = None
     | Some d \<Rightarrow>
         if length d \<le> unat m
         then st = STATUS_OK \<and> out = Some (copy_at 0 d buf) \<and> sz = Some (of_nat (length d)) \<and>
           staged c = None
         else st = STATUS_INVALID_PARAM \<and> out = Some buf \<and> sz = Some z \<and> staged c = Some d)"
proof -
  obtain fault ch1 s1 where sweep: "(if \<not> dc_pending_data_valid ch
      then poll_links [0..<dc_link_count ch] (per_link_timeout t ch) None ch s
      else (None, ch, s)) = (fault, ch1, s1)" by (metis prod_cases3)
  note stage = receive_stage [OF sweep assms(3)]
  have fault: "fault \<in> {None, Some STATUS_HARDWARE_FAULT}"
    using sweep sweep_fault [of None "[0..<dc_link_count ch]" "per_link_timeout t ch" ch s]
    by (auto split: if_splits)
  show ?thesis
  proof (cases "dc_pending_data_valid ch1")
    case False
    then have none: "frame_on_offer t ch s = None" using stage by (simp add: staged_def)
    have "st = (case fault of None \<Rightarrow> STATUS_TIMEOUT | Some x \<Rightarrow> x) \<and> out = Some buf \<and> sz = Some z \<and>
        ch' = Some ch1"
      using assms(1,2) sweep False unfolding rte_dual_channel_receive_def by (auto simp: word_gt_0)
    with none stage fault show ?thesis by auto
  next
    case True
    let ?n = "dc_pending_data_size ch1"
    obtain d where d: "staged ch1 = Some d" "d = take (unat ?n) (dc_pending_data ch1)"
      using True by (simp add: staged_def)
    have len: "length d = unat ?n" using stage d(1) stage_length by blast
    have "(st, out, sz, ch') = (if ?n > m then (STATUS_INVALID_PARAM, Some buf, Some z, Some ch1)
        else (STATUS_OK, Some (copy_at 0 d buf), Some ?n, Some (ch1\<lparr>dc_pending_data_valid := False\<rparr>)))"
      using assms(1,2) sweep True d(2) unfolding rte_dual_channel_receive_def
      by (auto simp: word_gt_0 Let_def split: if_splits)
    moreover have "wf_stage (ch1\<lparr>dc_pending_data_valid := False\<rparr>)"
      "staged (ch1\<lparr>dc_pending_data_valid := False\<rparr>) = None"
      using stage by (simp_all add: wf_stage_def staged_def)
    moreover have "frame_on_offer t ch s = Some d" "wf_stage ch1" using stage d(1) by simp_all
    ultimately show ?thesis using d(1) len
      by (auto simp: word_le_nat_alt word_less_nat_alt not_less split: if_splits)
  qed
qed

section \<open>Across a link\<close>

lemma poll_links_append:
  "poll_links (is @ js) t fault ch s =
    (let (fault1, ch1, s1) = poll_links is t fault ch s in poll_links js t fault1 ch1 s1)"
  by (induction "is" arbitrary: fault ch s) (simp_all add: Let_def split: prod.split)

lemma swept_data_append:
  "poll_links is t fault ch s = (fault1, ch1, s1) \<Longrightarrow>
    swept_data (is @ js) t ch s = swept_data is t ch s @ swept_data js t ch1 s1"
  by (induction "is" arbitrary: fault ch s) (auto split: prod.splits)

text \<open>A DATA frame that a link accepts, as the message channel of the peer sealed it.\<close>

lemma accepted_data:
  assumes "link_delivers (dc_links ch ! i) t (vital_message_bytes m) s s'" "cm_ready p (g_checksum s)"
    and "wf_message m" "vm_sender_id m = mc_expected_peer_id (dc_links ch ! i)"
    and "vm_sequence_number m = mc_expected_sequence (dc_links ch ! i)"
    and "vm_crc64 m = crc64_bits (crc_poly p) (vital_message_covered m)"
    and "vm_payload_size m = 4 + n" "unat n \<le> 244" "length d = unat n"
    and "take (4 + unat n) (vm_payload m) = frame_header KIND_DATA @ d"
  shows "link_data i t ch s = [d]"
proof -
  have size: "unat (vm_payload_size m) = 4 + unat n"
    using assms(7,8) by (simp add: unat_word_ariths)
  then have fits: "vm_payload_size m \<le> 248" "unat (vm_payload_size m) \<le> 248" "4 \<le> vm_payload_size m"
    using assms(8) by (simp_all add: word_le_nat_alt)
  let ?b = "copy_at 0 (frame_header KIND_DATA @ d) (replicate 248 0)"
  obtain q c s'' where "rte_dual_msgchannel_receive (Some (dc_links ch ! i)) (Some (replicate 248 0)) 248 t
      (Some 0) s = (STATUS_OK, Some ?b, Some (vm_payload_size m), q, c, s'')"
    using frame_accepted [OF assms(1-6), where k = 248 and buf = "replicate 248 0" and z = 0] fits
    unfolding size assms(10) by auto
  moreover have "hd ?b = KIND_DATA" "take (unat n) (drop 4 ?b) = d"
    using assms(9) by (simp_all add: copy_at_def frame_header_def)
  moreover have "unat (vm_payload_size m - 4) = unat n" using assms(7) by simp
  ultimately show ?thesis using fits(3)
    by (simp add: link_data_def MSGCHANNEL_MAX_PAYLOAD_def data_of_def)
qed

text \<open>A platform whose links share one frame: what is sent on one is received on the other.\<close>

lemma crossing_send:
  "\<exists>F cm a'. cm_ready RTE_CRC64_ERTMS cm \<and> link_send 0 (frame_header KIND_DATA @ [9]) (4 + 1) sample_channel
      (sample_platform []) = (STATUS_OK, Some 0, a', (sample_platform F)\<lparr>g_checksum := cm\<rparr>)"
proof -
  obtain crc cm where crc: "rte_checksum_crc64 (Some (vital_message_covered (zero_message
      \<lparr>vm_payload_size := 5, vm_payload := copy_at 0 [0, 0, 0, 0, 9] (replicate 248 0)\<rparr>))) 264
      ertms_manager = (crc, cm)" by fastforce
  have "cm_initialized ertms_manager \<noteq> 0" using ertms_manager_ready by (simp add: cm_ready_def)
  with crc have "\<exists>F a'. link_send 0 (frame_header KIND_DATA @ [9]) (4 + 1) sample_channel (sample_platform []) =
     (STATUS_OK, Some 0, a', (sample_platform F)\<lparr>g_checksum := cm\<rparr>)"
    by (simp add: frame_header_def KIND_DATA_def link_send_def rte_dual_msgchannel_send_def
        rte_checksum_vital_message_create_def rte_timer_now_def rte_netlink_send_def sample_platform_def
        one_frame_link_def initial_rte_def sample_channel_def sample_msgchannel_def zero_message_def
        with_checksum_def Let_def)
  moreover have "cm_ready RTE_CRC64_ERTMS cm"
    using cm_ready_crc64 ertms_manager_ready crc by (metis snd_conv)
  ultimately show ?thesis by blast
qed

section \<open>Properties\<close>

text \<open>C13. What the receive over the redundant links hands out: the frame already staged or, when there is
  none, the application bytes of the last DATA frame accepted in the sweep over all links, whole
  and only if the buffer has room. Without one nothing is written; a frame that does not fit stays
  staged; DATA frames accepted earlier in the same sweep are gone, although they were
  acknowledged.\<close>

theorem receive_gives_the_last_data:
  assumes "rte_dual_channel_receive (Some ch) (Some buf) m t (Some z) s = (st, out, sz, ch', s')"
    and "0 < m" "wf_stage ch"
  shows "\<exists>c. ch' = Some c \<and> wf_stage c \<and>
    (case frame_on_offer t ch s of
       None \<Rightarrow> st \<in> {STATUS_TIMEOUT, STATUS_HARDWARE_FAULT} \<and> out = Some buf \<and> sz = Some z \<and> staged c = None
     | Some d \<Rightarrow>
         if length d \<le> unat m
         then st = STATUS_OK \<and> out = Some (copy_at 0 d buf) \<and> sz = Some (of_nat (length d)) \<and>
           staged c = None
         else st = STATUS_INVALID_PARAM \<and> out = Some buf \<and> sz = Some z \<and> staged c = Some d)"
  by (rule receive_outcome [OF assms])

theorem receive_gives_the_last_data_witness:
  "\<exists>sz ch' cm. rte_dual_channel_receive (Some two_link_channel) (Some [0]) 1 6 (Some 0)
      (two_frames 0 ertms_manager) = (STATUS_OK, Some [2], sz, ch', two_frames 2 cm) \<and>
    swept_data [0, 1] 3 two_link_channel (two_frames 0 ertms_manager) = [[1], [2]]"
proof -
  let ?ch = "two_link_channel :: nat dual_channel"
  let ?s = "two_frames 0 ertms_manager"
  have ch: "dc_link_count ?ch = 2" "\<not> dc_pending_data_valid ?ch" "wf_stage ?ch"
    by (simp_all add: two_link_channel_def sample_channel_def wf_stage_def DUAL_MAX_PAYLOAD_def)
  have upt: "[0..<dc_link_count ?ch] = [0, 1]" "per_link_timeout 6 ?ch = 3"
    unfolding per_link_timeout_def ch(1) by (simp_all add: upt_rec)
  obtain cm where swept: "swept_data [0, 1] 3 ?ch ?s = [[1], [2]]"
    "snd (snd (poll_links [0, 1] 3 None ?ch ?s)) = two_frames 2 cm"
    using two_frames_swept by blast
  obtain st out sz ch' s' where run: "rte_dual_channel_receive (Some ?ch) (Some [0]) 1 6 (Some 0) ?s =
      (st, out, sz, ch', s')" by (metis prod_cases5)
  have s': "s' = two_frames 2 cm"
    using receive_platform [OF run _ ch(2)] swept(2) unfolding upt by simp
  have "frame_on_offer 6 ?ch ?s = Some [2]"
    unfolding frame_on_offer_def upt using swept(1) ch(2) by (simp add: staged_def)
  with receive_gives_the_last_data [OF run _ ch(3)] have "st = STATUS_OK" "out = Some (copy_at 0 [2] [0])"
    by auto
  with run s' swept(1) show ?thesis by (auto simp: copy_at_def)
qed

text \<open>C14. Application data crosses a link: the frame that a node hands to one of its links while it
  sends makes the peer's receive return OK with exactly the bytes that were sent, when the frame
  arrives on the link the peer polls last, whatever its other links deliver or report.\<close>

theorem data_crosses_a_link:
  assumes "link_send i (frame_header KIND_DATA @ d) (4 + n) a s = (STATUS_OK, q, a', s')"
    and "length d = unat n" "unat n \<le> DUAL_MAX_PAYLOAD"
    and "s_netlink s = Some ad" "netlink_send ad = Some f" "mc_link (dc_links a ! i) = Some h"
    and "cm_ready p (g_checksum s)"
  shows "\<exists>frame x. f h frame (dc_ack_timeout_ms a) x = (STATUS_OK, ext s') \<and>
    (\<forall>b k t buf m z r fault b1 r1 r'.
      wf_stage b \<and> staged b = None \<and> dc_link_count b = Suc k \<and> n \<le> m \<and> 0 < m \<and>
      poll_links [0..<k] (per_link_timeout t b) None b r = (fault, b1, r1) \<and>
      link_delivers (dc_links b1 ! k) (per_link_timeout t b) frame r1 r' \<and> cm_ready p (g_checksum r1) \<and>
      mc_expected_peer_id (dc_links b1 ! k) = mc_sender_id (dc_links a ! i) \<and>
      mc_expected_sequence (dc_links b1 ! k) = mc_next_sequence (dc_links a ! i) \<longrightarrow>
      (\<exists>b2 r2. rte_dual_channel_receive (Some b) (Some buf) m t (Some z) r =
        (STATUS_OK, Some (copy_at 0 d buf), Some n, Some b2, r2)))"
proof -
  obtain c where snd: "rte_dual_msgchannel_send (Some (dc_links a ! i)) (Some (frame_header KIND_DATA @ d)) (4 + n)
      (dc_ack_timeout_ms a) s = (STATUS_OK, q, c, s')"
    using assms(1) by (auto simp: link_send_def split: prod.splits)
  have n: "unat (4 + n) = 4 + unat n" using assms(3) by (simp add: unat_word_ariths DUAL_MAX_PAYLOAD_def)
  have "unat (4 + n) \<le> length (frame_header KIND_DATA @ d)"
    unfolding n using assms(2) by (simp add: frame_header_def)
  from send_frame [OF snd assms(4-7) this] obtain m x where m:
    "f h (vital_message_bytes m) (dc_ack_timeout_ms a) x = (STATUS_OK, ext s')" "wf_message m"
    "vm_sequence_number m = mc_next_sequence (dc_links a ! i)" "vm_sender_id m = mc_sender_id (dc_links a ! i)"
    "vm_payload_size m = 4 + n" "take (4 + unat n) (vm_payload m) = frame_header KIND_DATA @ d"
    "vm_crc64 m = crc64_bits (crc_poly p) (vital_message_covered m)"
    using assms(2) unfolding n by (auto simp: frame_header_def)
  have "\<exists>b2 r2. rte_dual_channel_receive (Some b) (Some buf) sz t (Some z) r =
      (STATUS_OK, Some (copy_at 0 d buf), Some n, Some b2, r2)"
    if b: "wf_stage b" "staged b = None" "dc_link_count b = Suc k" "n \<le> sz" "0 < sz"
      "poll_links [0..<k] (per_link_timeout t b) None b r = (fault, b1, r1)"
      "link_delivers (dc_links b1 ! k) (per_link_timeout t b) (vital_message_bytes m) r1 r'"
      "cm_ready p (g_checksum r1)"
      "mc_expected_peer_id (dc_links b1 ! k) = mc_sender_id (dc_links a ! i)"
      "mc_expected_sequence (dc_links b1 ! k) = mc_next_sequence (dc_links a ! i)"
    for b b1 k t buf sz z fault and r r1 r' :: "'b rte"
  proof -
    have "link_data k (per_link_timeout t b) b1 r1 = [d]"
      by (rule accepted_data [OF b(7,8) m(2) _ _ m(7,5) _ assms(2) m(6)])
        (use m b assms(3) in \<open>simp_all add: DUAL_MAX_PAYLOAD_def\<close>)
    then have "swept_data [k] (per_link_timeout t b) b1 r1 = [d]" by (simp split: prod.split)
    then have "frame_on_offer t b r = Some d"
      using swept_data_append [OF b(6), of "[k]"] b(2,3) by (simp add: frame_on_offer_def)
    moreover obtain st out w b2 r2 where run: "rte_dual_channel_receive (Some b) (Some buf) sz t (Some z) r =
        (st, out, w, b2, r2)" by (metis prod_cases5)
    ultimately have "st = STATUS_OK \<and> out = Some (copy_at 0 d buf) \<and> w = Some n \<and> (\<exists>c. b2 = Some c)"
      using receive_outcome [OF run b(5,1)] assms(2) b(4) by (auto simp: word_le_nat_alt)
    with run show ?thesis by auto
  qed
  with m(1) show ?thesis by (intro exI [of _ "vital_message_bytes m"] exI [of _ x]) blast
qed

theorem data_crosses_a_link_witness:
  "\<exists>a' s' b2 r2. link_send 0 (frame_header KIND_DATA @ [9]) (4 + 1) sample_channel (sample_platform []) =
      (STATUS_OK, Some 0, a', s') \<and>
    rte_dual_channel_receive (Some (sample_channel\<lparr>dc_link_count := 1\<rparr>)) (Some [0, 0]) 2 5 (Some 0) s' =
      (STATUS_OK, Some [9, 0], Some 1, Some b2, r2)"
proof -
  let ?b = "sample_channel\<lparr>dc_link_count := 1\<rparr> :: bytes dual_channel"
  obtain F cm a' where cm: "cm_ready RTE_CRC64_ERTMS cm" and send: "link_send 0 (frame_header KIND_DATA @ [9])
      (4 + 1) sample_channel (sample_platform []) = (STATUS_OK, Some 0, a', (sample_platform F)\<lparr>g_checksum := cm\<rparr>)"
    using crossing_send by blast
  let ?s = "(sample_platform F)\<lparr>g_checksum := cm\<rparr>"
  have link: "netlink_send one_frame_link = Some (\<lambda>h b t x. (STATUS_OK, b))"
    "mc_link (dc_links (sample_channel :: bytes dual_channel) ! 0) = Some 0"
    by (simp_all add: one_frame_link_def sample_channel_def sample_msgchannel_def)
  have one: "length [9 :: u8] = unat (1 :: u8)" "unat (1 :: u8) \<le> DUAL_MAX_PAYLOAD"
    by (simp_all add: DUAL_MAX_PAYLOAD_def)
  have F: "length F = 272"
  proof -
    obtain c where "rte_dual_msgchannel_send (Some (dc_links (sample_channel :: bytes dual_channel) ! 0))
        (Some (frame_header KIND_DATA @ [9])) (4 + 1) (dc_ack_timeout_ms (sample_channel :: bytes dual_channel))
        (sample_platform []) = (STATUS_OK, Some 0, c, ?s)"
      using send by (auto simp: link_send_def split: prod.splits)
    from send_frame [OF this sample_platform_facts(2) link sample_platform_facts(1)]
    show ?thesis using vital.length_enc by (auto simp: frame_header_def sample_platform_def initial_rte_def)
  qed
  have b: "wf_stage ?b" "staged ?b = None" "dc_link_count ?b = Suc 0"
    "poll_links [0..<0] (per_link_timeout 5 ?b) None ?b ?s = (None, ?b, ?s)"
    by (simp_all add: sample_channel_def wf_stage_def staged_def DUAL_MAX_PAYLOAD_def)
  have dlv: "link_delivers (dc_links ?b ! 0) (per_link_timeout 5 ?b) F ?s ?s"
    using F by (simp add: link_delivers_def rte_netlink_receive_def sample_channel_def sample_msgchannel_def
        one_frame_link_def sample_platform_def initial_rte_def)
  have peers: "mc_expected_peer_id (dc_links ?b ! 0) = mc_sender_id (dc_links (sample_channel :: bytes dual_channel) ! 0)"
    "mc_expected_sequence (dc_links ?b ! 0) = mc_next_sequence (dc_links (sample_channel :: bytes dual_channel) ! 0)"
    by (simp_all add: sample_channel_def sample_msgchannel_def)
  have "ext ?s = F" by (simp add: sample_platform_def initial_rte_def)
  with data_crosses_a_link [OF send one sample_platform_facts(2) link sample_platform_facts(1)]
  obtain frame where "frame = F" and all: "\<And>b k t buf m z r fault b1 r1 r'.
      wf_stage b \<and> staged b = None \<and> dc_link_count b = Suc k \<and> 1 \<le> m \<and> 0 < m \<and>
      poll_links [0..<k] (per_link_timeout t b) None b (r :: bytes rte) = (fault, b1, r1) \<and>
      link_delivers (dc_links b1 ! k) (per_link_timeout t b) frame r1 r' \<and> cm_ready RTE_CRC64_ERTMS (g_checksum r1) \<and>
      mc_expected_peer_id (dc_links b1 ! k) = mc_sender_id (dc_links (sample_channel :: bytes dual_channel) ! 0) \<and>
      mc_expected_sequence (dc_links b1 ! k) = mc_next_sequence (dc_links (sample_channel :: bytes dual_channel) ! 0) \<Longrightarrow>
      \<exists>b2 r2. rte_dual_channel_receive (Some b) (Some buf) m t (Some z) r =
        (STATUS_OK, Some (copy_at 0 [9] buf), Some 1, Some b2, r2)"
    by (elim exE conjE) (simp only: prod.inject, blast)
  from all [of ?b 0 2 5 ?s None ?b ?s ?s "[0, 0]" 0] b dlv peers cm \<open>frame = F\<close>
  have "\<exists>b2 r2. rte_dual_channel_receive (Some ?b) (Some [0, 0]) 2 5 (Some 0) ?s =
      (STATUS_OK, Some (copy_at 0 [9] [0, 0]), Some 1, Some b2, r2)" by simp
  with send show ?thesis by (auto simp: copy_at_def)
qed

end
