(* ===== verification/Dual_Negotiator.thy ===== *)
theory Dual_Negotiator
  imports Dual_Channel
begin

text \<open>
  The negotiation of the dual states, \<^verbatim>\<open>src/redundancy/dual/rte_dual_negotiator.c\<close>. The
  channel belongs to the caller and is shared with the application: it is an argument of an
  operation, not a part of the negotiator, whose \<open>ng_channel\<close> only names it.
\<close>

section \<open>Data\<close>

type_synonym 'x state_change_callback =
  "rte_dual_state \<Rightarrow> rte_dual_state \<Rightarrow> rte_dual_state \<Rightarrow> rte_dual_state \<Rightarrow> nat option \<Rightarrow> 'x \<Rightarrow> 'x"

record 'x dual_negotiator =
  ng_channel :: "handle option"
  ng_own_id :: u32
  ng_peer_id :: u32
  ng_peer_lost_timeout_ms :: duration_ms
  ng_state_change_callback :: "'x state_change_callback option"
  ng_state_change_callback_ctx :: "nat option"
  ng_own_startup_timestamp_ms :: u64
  ng_own_channel_degraded :: bool
  ng_have_peer_startup_timestamp :: bool
  ng_peer_startup_timestamp_ms :: u64
  ng_peer_channel_degraded :: bool
  ng_own_state :: rte_dual_state
  ng_peer_state :: rte_dual_state
  ng_have_last_peer_seen :: bool
  ng_last_peer_seen_ms :: timestamp_ms

record 'x dual_negotiator_config =
  ngc_channel :: "handle option"
  ngc_own_id :: u32
  ngc_peer_id :: u32
  ngc_peer_lost_timeout_ms :: duration_ms
  ngc_state_change_callback :: "'x state_change_callback option"
  ngc_state_change_callback_ctx :: "nat option"
  ngc_resume_own_state :: rte_dual_state
  ngc_resume_own_startup_timestamp_ms :: u64

section \<open>The decision\<close>

definition negotiator_decide_online :: "u32 \<Rightarrow> u64 \<Rightarrow> u32 \<Rightarrow> u64 \<Rightarrow> bool" where
  "negotiator_decide_online own_id own_ts peer_id peer_ts =
    (if own_ts \<noteq> peer_ts then own_ts < peer_ts else own_id < peer_id)"

definition negotiator_process_peer_frame ::
  "'x dual_negotiator \<Rightarrow> dual_state_frame \<Rightarrow> 'x rte \<Rightarrow> 'x dual_negotiator \<times> 'x rte" where
  "negotiator_process_peer_frame n frame s =
    (let n1 = n\<lparr>ng_peer_channel_degraded := sf_channel_degraded frame \<noteq> 0,
                ng_peer_startup_timestamp_ms := sf_timestamp_ms frame,
                ng_have_peer_startup_timestamp := True\<rparr>;
         (_, now_ms, s1) = rte_timer_now s
     in (n1\<lparr>ng_last_peer_seen_ms := now_ms, ng_have_last_peer_seen := True\<rparr>, s1))"

definition standby_of :: "bool \<Rightarrow> rte_dual_state" where
  "standby_of degraded = (if degraded then DUAL_COLDSTANDBY else DUAL_HOTSTANDBY)"

definition peer_contact_recent :: "'x dual_negotiator \<Rightarrow> 'x rte \<Rightarrow> bool \<times> 'x rte" where
  "peer_contact_recent n s =
    (if ng_have_last_peer_seen n
     then
       let (_, now_ms, s1) = rte_timer_now s
       in (if now_ms \<ge> ng_last_peer_seen_ms n
           then now_ms - ng_last_peer_seen_ms n < ucast (ng_peer_lost_timeout_ms n)
           else False, s1)
     else (False, s))"

text \<open>The cascade of the state changes, given whether contact is recent.\<close>

definition next_states :: "'x dual_negotiator \<Rightarrow> bool \<Rightarrow> 'x dual_negotiator" where
  "next_states n recent =
    (if \<not> ng_have_last_peer_seen n then n\<lparr>ng_peer_state := DUAL_IDLE\<rparr>
     else if \<not> recent
     then
       let n1 = n\<lparr>ng_peer_state := DUAL_UNKNOWN\<rparr>
       in if ng_own_state n1 \<noteq> DUAL_ONLINE then n1\<lparr>ng_own_state := DUAL_UNKNOWN\<rparr> else n1
     else if ng_own_state n = DUAL_IDLE \<or> ng_own_state n = DUAL_UNKNOWN
     then
       if negotiator_decide_online (ng_own_id n) (ng_own_startup_timestamp_ms n)
            (ng_peer_id n) (ng_peer_startup_timestamp_ms n)
       then n\<lparr>ng_own_state := DUAL_ONLINE, ng_peer_state := standby_of (ng_own_channel_degraded n)\<rparr>
       else n\<lparr>ng_own_state := standby_of (ng_peer_channel_degraded n), ng_peer_state := DUAL_ONLINE\<rparr>
     else if ng_own_state n = DUAL_ONLINE
     then n\<lparr>ng_peer_state := standby_of (ng_own_channel_degraded n)\<rparr>
     else n\<lparr>ng_own_state := standby_of (ng_peer_channel_degraded n), ng_peer_state := DUAL_ONLINE\<rparr>)"

definition negotiator_update_states ::
  "'x dual_negotiator \<Rightarrow> 'x rte \<Rightarrow> 'x dual_negotiator \<times> 'x rte" where
  "negotiator_update_states n s =
    (let old_own = ng_own_state n;
         old_peer = ng_peer_state n;
         (recent, s1) = peer_contact_recent n s;
         n1 = next_states n recent
     in (n1,
         if ng_own_state n1 \<noteq> old_own \<or> ng_peer_state n1 \<noteq> old_peer
         then (case ng_state_change_callback n1 of None \<Rightarrow> s1
               | Some f \<Rightarrow> s1\<lparr>ext := f (ng_own_state n1) old_own (ng_peer_state n1) old_peer
                   (ng_state_change_callback_ctx n1) (ext s1)\<rparr>)
         else s1))"

section \<open>Operations\<close>

definition rte_dual_negotiator_init ::
  "'x dual_negotiator option \<Rightarrow> 'x dual_negotiator_config option \<Rightarrow> 'x rte \<Rightarrow>
    rte_status \<times> 'x dual_negotiator option \<times> 'x rte" where
  "rte_dual_negotiator_init negotiator config s =
    (case (negotiator, config) of
       (Some _, Some cfg) \<Rightarrow>
         if ngc_channel cfg = None then (STATUS_INVALID_PARAM, negotiator, s)
         else
           let (_, now_ms, s1) = rte_timer_now s
           in (STATUS_OK, Some \<lparr>ng_channel = ngc_channel cfg, ng_own_id = ngc_own_id cfg,
                 ng_peer_id = ngc_peer_id cfg, ng_peer_lost_timeout_ms = ngc_peer_lost_timeout_ms cfg,
                 ng_state_change_callback = ngc_state_change_callback cfg,
                 ng_state_change_callback_ctx = ngc_state_change_callback_ctx cfg,
                 ng_own_startup_timestamp_ms =
                   (if ngc_resume_own_startup_timestamp_ms cfg \<noteq> 0
                    then ngc_resume_own_startup_timestamp_ms cfg else now_ms),
                 ng_own_channel_degraded = False, ng_have_peer_startup_timestamp = False,
                 ng_peer_startup_timestamp_ms = 0, ng_peer_channel_degraded = False,
                 ng_own_state = ngc_resume_own_state cfg, ng_peer_state = DUAL_IDLE,
                 ng_have_last_peer_seen = False, ng_last_peer_seen_ms = 0\<rparr>, s1)
     | _ \<Rightarrow> (STATUS_INVALID_PARAM, negotiator, s))"

text \<open>The loop over the frames that are pending; \<open>None\<close> when it does not end.\<close>

partial_function (option) drain_frames ::
  "'x dual_negotiator \<Rightarrow> dual_state_frame \<Rightarrow> 'x dual_channel option \<Rightarrow> 'x rte \<Rightarrow>
    ('x dual_negotiator \<times> 'x dual_channel option \<times> 'x rte) option" where
  "drain_frames n frame ch s =
    (case rte_dual_channel_receive_state_frame ch 0 (Some frame) s of
       (STATUS_OK, Some frame1, ch1, s1) \<Rightarrow>
         let (n1, s2) = negotiator_process_peer_frame n frame1 s1 in drain_frames n1 frame1 ch1 s2
     | (_, _, ch1, s1) \<Rightarrow> Some (n, ch1, s1))"

definition rte_dual_negotiator_execute ::
  "'x dual_negotiator option \<Rightarrow> duration_ms \<Rightarrow> 'x dual_channel option \<Rightarrow> 'x rte \<Rightarrow>
    (rte_status \<times> 'x dual_negotiator option \<times> 'x dual_channel option \<times> 'x rte) option" where
  "rte_dual_negotiator_execute negotiator receive_timeout_ms ch s =
    (case negotiator of
       None \<Rightarrow> Some (STATUS_INVALID_PARAM, None, ch, s)
     | Some n \<Rightarrow>
         let n0 = n\<lparr>ng_own_channel_degraded := rte_dual_channel_get_status ch \<noteq> CHANNEL_FULL\<rparr>;
             (_, ch1, s1) = rte_dual_channel_send_state_frame ch (ng_own_state n0)
               (ng_own_channel_degraded n0) (ng_own_startup_timestamp_ms n0) s;
             (status, frame, ch2, s2) = rte_dual_channel_receive_state_frame ch1 receive_timeout_ms
               (Some (state_frame_of_bytes (replicate 16 0))) s1;
             frame1 = (case frame of None \<Rightarrow> state_frame_of_bytes (replicate 16 0) | Some f \<Rightarrow> f);
             (n1, s3) = (if status = STATUS_OK then negotiator_process_peer_frame n0 frame1 s2
                         else (n0, s2))
         in do {
              (n2, ch3, s4) \<leftarrow> drain_frames n1 frame1 ch2 s3;
              let (n3, s5) = negotiator_update_states n2 s4;
              Some (STATUS_OK, Some n3, ch3, s5)
            })"

section \<open>Queries\<close>

definition rte_dual_negotiator_get_own_state :: "'x dual_negotiator option \<Rightarrow> rte_dual_state" where
  "rte_dual_negotiator_get_own_state n = (case n of None \<Rightarrow> DUAL_IDLE | Some n \<Rightarrow> ng_own_state n)"

definition rte_dual_negotiator_get_peer_state :: "'x dual_negotiator option \<Rightarrow> rte_dual_state" where
  "rte_dual_negotiator_get_peer_state n = (case n of None \<Rightarrow> DUAL_IDLE | Some n \<Rightarrow> ng_peer_state n)"

definition rte_dual_negotiator_get_own_startup_timestamp_ms :: "'x dual_negotiator option \<Rightarrow> u64" where
  "rte_dual_negotiator_get_own_startup_timestamp_ms n =
    (case n of None \<Rightarrow> 0 | Some n \<Rightarrow> ng_own_startup_timestamp_ms n)"

definition rte_dual_negotiator_get_peer_startup_timestamp_ms :: "'x dual_negotiator option \<Rightarrow> u64" where
  "rte_dual_negotiator_get_peer_startup_timestamp_ms n =
    (case n of None \<Rightarrow> 0 | Some n \<Rightarrow> ng_peer_startup_timestamp_ms n)"

definition rte_dual_negotiator_get_own_id :: "'x dual_negotiator option \<Rightarrow> u32" where
  "rte_dual_negotiator_get_own_id n = (case n of None \<Rightarrow> 0 | Some n \<Rightarrow> ng_own_id n)"

definition rte_dual_negotiator_get_peer_id :: "'x dual_negotiator option \<Rightarrow> u32" where
  "rte_dual_negotiator_get_peer_id n = (case n of None \<Rightarrow> 0 | Some n \<Rightarrow> ng_peer_id n)"

section \<open>Runs of a negotiator\<close>

text \<open>
  What a negotiator does in any number of executes, whatever the channel and the platform do in
  between: its degradation flag changes, it processes a STATE frame, it updates its states. The
  list collects the time stamps of the frames.
\<close>

inductive negotiator_run :: "'x dual_negotiator \<Rightarrow> u64 list \<Rightarrow> 'x dual_negotiator \<Rightarrow> bool" for n0 where
  start: "negotiator_run n0 [] n0"
| beacon: "negotiator_run n0 ts n \<Longrightarrow> negotiator_run n0 ts (n\<lparr>ng_own_channel_degraded := d\<rparr>)"
| frame: "negotiator_run n0 ts n \<Longrightarrow> negotiator_process_peer_frame n f s = (n1, s1) \<Longrightarrow>
    negotiator_run n0 (ts @ [sf_timestamp_ms f]) n1"
| update: "negotiator_run n0 ts n \<Longrightarrow> negotiator_update_states n s = (n1, s1) \<Longrightarrow>
    negotiator_run n0 ts n1"

lemma process_result:
  "negotiator_process_peer_frame n f s = (n1, s1) \<Longrightarrow>
    \<exists>now. n1 = n\<lparr>ng_peer_channel_degraded := sf_channel_degraded f \<noteq> 0,
      ng_peer_startup_timestamp_ms := sf_timestamp_ms f, ng_have_peer_startup_timestamp := True,
      ng_last_peer_seen_ms := now, ng_have_last_peer_seen := True\<rparr>"
  by (auto simp: negotiator_process_peer_frame_def Let_def split: prod.splits)

lemma update_result:
  "negotiator_update_states n s = (n1, s1) \<Longrightarrow> n1 = next_states n (fst (peer_contact_recent n s))"
  by (auto simp: negotiator_update_states_def Let_def split: prod.splits)

lemma next_states_frame [simp]:
  "ng_own_id (next_states n r) = ng_own_id n" "ng_peer_id (next_states n r) = ng_peer_id n"
  "ng_own_startup_timestamp_ms (next_states n r) = ng_own_startup_timestamp_ms n"
  "ng_peer_startup_timestamp_ms (next_states n r) = ng_peer_startup_timestamp_ms n"
  "ng_have_last_peer_seen (next_states n r) = ng_have_last_peer_seen n"
  "ng_last_peer_seen_ms (next_states n r) = ng_last_peer_seen_ms n"
  "ng_peer_channel_degraded (next_states n r) = ng_peer_channel_degraded n"
  by (simp_all add: next_states_def Let_def)

text \<open>When an update makes a node ONLINE, and what it leaves of a standby.\<close>

lemma next_online:
  "ng_own_state (next_states n r) = DUAL_ONLINE \<longleftrightarrow>
     ng_own_state n = DUAL_ONLINE \<or>
     (ng_have_last_peer_seen n \<and> r \<and> ng_own_state n \<in> {DUAL_IDLE, DUAL_UNKNOWN} \<and>
      negotiator_decide_online (ng_own_id n) (ng_own_startup_timestamp_ms n)
        (ng_peer_id n) (ng_peer_startup_timestamp_ms n))"
  by (auto simp: next_states_def Let_def standby_of_def)

lemma next_undecided:
  "ng_own_state n \<in> {DUAL_IDLE, DUAL_UNKNOWN} \<Longrightarrow> ng_have_last_peer_seen n \<Longrightarrow> next_states n True =
    (if negotiator_decide_online (ng_own_id n) (ng_own_startup_timestamp_ms n) (ng_peer_id n)
          (ng_peer_startup_timestamp_ms n)
     then n\<lparr>ng_own_state := DUAL_ONLINE, ng_peer_state := standby_of (ng_own_channel_degraded n)\<rparr>
     else n\<lparr>ng_own_state := standby_of (ng_peer_channel_degraded n), ng_peer_state := DUAL_ONLINE\<rparr>)"
  by (auto simp: next_states_def)

lemma next_stays_standby:
  assumes "ng_have_last_peer_seen n" "ng_own_state n \<notin> {DUAL_UNKNOWN, DUAL_ONLINE}"
    and "ng_own_state n = DUAL_IDLE \<Longrightarrow> \<not> negotiator_decide_online (ng_own_id n)
      (ng_own_startup_timestamp_ms n) (ng_peer_id n) (ng_peer_startup_timestamp_ms n)"
  shows "next_states n True =
    n\<lparr>ng_own_state := standby_of (ng_peer_channel_degraded n), ng_peer_state := DUAL_ONLINE\<rparr>"
  using assms by (cases "ng_own_state n = DUAL_IDLE") (simp_all add: next_states_def)

lemma standby_of_states [simp]:
  "standby_of d \<noteq> DUAL_ONLINE" "standby_of d = DUAL_HOTSTANDBY \<or> standby_of d = DUAL_COLDSTANDBY"
  by (simp_all add: standby_of_def)

lemma decide_complementary:
  "i \<noteq> j \<Longrightarrow> negotiator_decide_online i t j u \<longleftrightarrow> \<not> negotiator_decide_online j u i t"
  by (auto simp: negotiator_decide_online_def)

lemma run_keeps:
  assumes "negotiator_run n0 ts n"
  shows "ng_own_id n = ng_own_id n0 \<and> ng_peer_id n = ng_peer_id n0 \<and>
    ng_own_startup_timestamp_ms n = ng_own_startup_timestamp_ms n0 \<and>
    (ng_own_state n0 = DUAL_ONLINE \<longrightarrow> ng_own_state n = DUAL_ONLINE)"
  using assms
  by (induction rule: negotiator_run.induct)
    (auto dest!: process_result update_result simp: next_online)

text \<open>The invariant of a node whose peer always names the same start-up time.\<close>

definition decided_by :: "u64 \<Rightarrow> 'x dual_negotiator \<Rightarrow> bool" where
  "decided_by t n \<longleftrightarrow> (ng_have_last_peer_seen n \<longrightarrow> ng_peer_startup_timestamp_ms n = t) \<and>
     (ng_own_state n = DUAL_ONLINE \<longrightarrow>
        negotiator_decide_online (ng_own_id n) (ng_own_startup_timestamp_ms n) (ng_peer_id n) t)"

lemma run_decided:
  assumes "negotiator_run n0 ts n" "list_all ((=) t) ts" "decided_by t n0"
  shows "decided_by t n"
  using assms
  by (induction rule: negotiator_run.induct)
    (auto dest!: process_result update_result simp: decided_by_def next_online)

lemma drain_step:
  assumes "rte_dual_channel_receive_state_frame ch 0 (Some frame) s = (st, fr, ch1, s1)"
  shows "drain_frames n frame ch s =
    (if st = STATUS_OK \<and> fr \<noteq> None
     then let (n1, s2) = negotiator_process_peer_frame n (the fr) s1 in drain_frames n1 (the fr) ch1 s2
     else Some (n, ch1, s1))"
  by (subst drain_frames.simps) (cases st; cases fr; simp add: assms)

lemma drain_induct [consumes 1, case_names stop more]:
  fixes s :: "'x rte"
  assumes run: "drain_frames n frame ch s = Some y"
    and stop: "\<And>n frame ch s st fr ch1 s1.
      rte_dual_channel_receive_state_frame ch 0 (Some frame) s = (st, fr, ch1, s1) \<Longrightarrow>
      P n frame ch s (n, ch1, s1)"
    and more: "\<And>n frame ch s frame1 ch1 s1 n1 s2 y.
      rte_dual_channel_receive_state_frame ch 0 (Some frame) s = (STATUS_OK, Some frame1, ch1, s1) \<Longrightarrow>
      negotiator_process_peer_frame n frame1 s1 = (n1, s2) \<Longrightarrow> P n1 frame1 ch1 s2 y \<Longrightarrow>
      P n frame ch s y"
  shows "P n frame ch s y"
proof (rule drain_frames.raw_induct [OF _ run, where P = P])
  fix rec n frame ch and s :: "'x rte" and y
  assume hyp: "\<And>n frame ch s y. rec n frame ch s = Some y \<Longrightarrow> P n frame ch s y"
    and body: "(case rte_dual_channel_receive_state_frame ch 0 (Some frame) s of
       (STATUS_OK, None, ch1, s1) \<Rightarrow> Some (n, ch1, s1)
     | (STATUS_OK, Some frame1, ch1, s1) \<Rightarrow>
         let (n1, s2) = negotiator_process_peer_frame n frame1 s1 in rec n1 frame1 ch1 s2
     | (_, _, ch1, s1) \<Rightarrow> Some (n, ch1, s1)) = Some y"
  obtain st fr ch1 s1 where rcv: "rte_dual_channel_receive_state_frame ch 0 (Some frame) s =
      (st, fr, ch1, s1)" by (metis prod_cases4)
  show "P n frame ch s y"
  proof (cases "st = STATUS_OK \<and> fr \<noteq> None")
    case True
    then obtain f where f: "st = STATUS_OK" "fr = Some f" by blast
    obtain n1 s2 where proc: "negotiator_process_peer_frame n f s1 = (n1, s2)" by fastforce
    have "rec n1 f ch1 s2 = Some y" using body by (simp add: rcv f proc)
    from more [OF rcv [unfolded f] proc hyp [OF this]] show ?thesis .
  next
    case False
    then have "y = (n, ch1, s1)" using body by (cases st; cases fr; simp add: rcv)
    with stop [OF rcv] show ?thesis by simp
  qed
qed

lemma drain_run:
  "drain_frames n frame ch s = Some y \<Longrightarrow> negotiator_run n0 ts n \<Longrightarrow> \<exists>us. negotiator_run n0 us (fst y)"
proof (induction arbitrary: ts rule: drain_induct)
  case (more n frame ch s frame1 ch1 s1 n1 s2 y)
  from more.IH [OF negotiator_run.frame [OF more.prems more.hyps(2)]] show ?case .
qed auto

lemma drain_keeps: "drain_frames n frame ch s = Some y \<Longrightarrow> ng_own_state (fst y) = ng_own_state n"
proof (induction rule: drain_induct)
  case (more n frame ch s frame1 ch1 s1 n1 s2 y)
  with process_result [OF more.hyps(2)] show ?case by auto
qed simp

text \<open>An execute in its steps.\<close>

lemma execute_steps:
  assumes "rte_dual_negotiator_execute (Some n) t ch s = Some (st, n', ch', s')"
  obtains us n2 s4 n3 s5 where "st = STATUS_OK" "n' = Some n3" "negotiator_run n us n2"
    "negotiator_update_states n2 s4 = (n3, s5)" "s' = s5" "ng_own_state n2 = ng_own_state n"
proof -
  let ?n0 = "n\<lparr>ng_own_channel_degraded := rte_dual_channel_get_status ch \<noteq> CHANNEL_FULL\<rparr>"
  let ?zero = "state_frame_of_bytes (replicate 16 0)"
  obtain st1 ch1 s1 where snd: "rte_dual_channel_send_state_frame ch (ng_own_state n)
      (rte_dual_channel_get_status ch \<noteq> CHANNEL_FULL) (ng_own_startup_timestamp_ms n) s = (st1, ch1, s1)"
    by (metis prod_cases3)
  obtain st2 fr ch2 s2 where rcv: "rte_dual_channel_receive_state_frame ch1 t (Some ?zero) s1 =
      (st2, fr, ch2, s2)" by (metis prod_cases4)
  let ?f = "case fr of None \<Rightarrow> ?zero | Some f \<Rightarrow> f"
  obtain n1 s3 where first: "(if st2 = STATUS_OK then negotiator_process_peer_frame ?n0 ?f s2
      else (?n0, s2)) = (n1, s3)" by fastforce
  have run0: "negotiator_run n [] ?n0" by (intro negotiator_run.intros)
  have own1: "ng_own_state n1 = ng_own_state n"
    using first by (auto dest!: process_result split: if_splits)
  have run1: "\<exists>us. negotiator_run n us n1"
  proof (cases "st2 = STATUS_OK")
    case True
    with first have "negotiator_process_peer_frame ?n0 ?f s2 = (n1, s3)" by simp
    from negotiator_run.frame [OF run0 this] show ?thesis by blast
  next
    case False
    with first run0 show ?thesis by auto
  qed
  obtain n2 ch3 s4 where drain: "drain_frames n1 ?f ch2 s3 = Some (n2, ch3, s4)"
    and rest: "(st, n', ch', s') = (let (n3, s5) = negotiator_update_states n2 s4 in
      (STATUS_OK, Some n3, ch3, s5))"
    using assms unfolding rte_dual_negotiator_execute_def
    by (auto simp: snd rcv first split: Option.bind_splits prod.splits)
  obtain n3 s5 where upd: "negotiator_update_states n2 s4 = (n3, s5)" by fastforce
  from run1 obtain us where "negotiator_run n us n1" ..
  from drain_run [OF drain this] obtain vs where "negotiator_run n vs n2" by auto
  moreover have "ng_own_state n2 = ng_own_state n" using drain_keeps [OF drain] own1 by simp
  ultimately show thesis using that upd rest by simp
qed

section \<open>The loop over the pending frames ends\<close>

lemma poll_links_advances:
  assumes "paced p c s" "links_open ch" "\<forall>i \<in> set is. i < dc_link_count ch"
    and "poll_links is t fault ch s = (fault', ch', s')"
  shows "advances p c s s' \<and> same_setup ch ch' \<and>
    (dc_pending_state_valid ch' \<longrightarrow> dc_pending_state_valid ch \<or> p (ext s') < p (ext s))"
  using assms
proof (induction "is" arbitrary: fault ch s)
  case (Cons i "is")
  obtain st r ch1 s1 where poll: "dual_channel_poll_link_once i t ch s = (st, r, ch1, s1)"
    by (metis prod_cases4)
  have one: "advances p c s s1" "same_setup ch ch1"
    "dc_pending_state_valid ch1 \<longrightarrow> dc_pending_state_valid ch \<or> p (ext s1) < p (ext s)"
    using poll_advances [OF Cons.prems(1,2) _ poll] Cons.prems(3) by auto
  have "advances p c s1 s' \<and> same_setup ch1 ch' \<and>
      (dc_pending_state_valid ch' \<longrightarrow> dc_pending_state_valid ch1 \<or> p (ext s') < p (ext s1))"
  proof (rule Cons.IH)
    show "paced p c s1" using Cons.prems(1) advances_paced [OF one(1)] by simp
    show "links_open ch1" using Cons.prems(2) same_setup_open [OF one(2)] by simp
    show "\<forall>i \<in> set is. i < dc_link_count ch1" using Cons.prems(3) one(2) by (simp add: same_setup_def)
    show "poll_links is t (note_fault fault st) ch1 s1 = (fault', ch', s')"
      using Cons.prems(4) by (simp add: poll)
  qed
  with one show ?case
    by (auto intro: advances_trans same_setup_trans simp: advances_def)
qed simp

lemma send_state_advances:
  assumes "paced p c s" "links_open ch"
    and "send_state_to_links is frame k ch s = (k', ch', s')"
  shows "advances p c s s' \<and> links_open ch'"
  using assms
proof (induction "is" arbitrary: k ch s)
  case (Cons i "is")
  obtain st q ch1 s1 where send: "link_send i frame 16 ch s = (st, q, ch1, s1)" by (metis prod_cases4)
  note one = link_send_advances [OF Cons.prems(1) send]
  have "advances p c s1 s' \<and> links_open ch'"
  proof (rule Cons.IH)
    show "paced p c s1" using Cons.prems(1) advances_paced [OF one] by simp
    show "links_open ch1" using Cons.prems(2) same_setup_open [OF link_send_setup [OF send]] by simp
    show "send_state_to_links is frame (if st = STATUS_OK then k + 1 else k) ch1 s1 = (k', ch', s')"
      using Cons.prems(3) by (simp add: send)
  qed
  with one show ?case by (blast intro: advances_trans)
qed simp

lemma receive_state_advances:
  assumes "paced p c s" "links_open ch"
    and "rte_dual_channel_receive_state_frame (Some ch) t (Some f) s = (st, fr, ch', s')"
  shows "\<exists>ch2. ch' = Some ch2 \<and> links_open ch2 \<and> advances p c s s' \<and>
    (st = STATUS_OK \<longrightarrow> \<not> dc_pending_state_valid ch2 \<and>
      (dc_pending_state_valid ch \<or> p (ext s') < p (ext s)))"
proof -
  obtain fault ch1 s1 where got: "(if \<not> dc_pending_state_valid ch
      then poll_links [0..<dc_link_count ch] (per_link_timeout t ch) None ch s
      else (None, ch, s)) = (fault, ch1, s1)" by (metis prod_cases3)
  have res: "advances p c s s1 \<and> same_setup ch ch1 \<and>
      (dc_pending_state_valid ch1 \<longrightarrow> dc_pending_state_valid ch \<or> p (ext s1) < p (ext s))"
  proof (cases "dc_pending_state_valid ch")
    case True
    with got show ?thesis by simp
  next
    case False
    with got have "poll_links [0..<dc_link_count ch] (per_link_timeout t ch) None ch s =
        (fault, ch1, s1)" by simp
    from poll_links_advances [OF assms(1,2) _ this] show ?thesis by simp
  qed
  have "links_open ch1" using res assms(2) same_setup_open by blast
  moreover have "links_open (ch1\<lparr>dc_pending_state_valid := False\<rparr>) = links_open ch1"
    by (simp add: links_open_def)
  ultimately show ?thesis
    using assms(3) res unfolding rte_dual_channel_receive_state_frame_def option.case prod.case got Let_def
    by (auto split: if_splits)
qed

lemma drain_returns:
  assumes "paced p c s" "links_open ch"
  shows "drain_frames n frame (Some ch) s \<noteq> None"
  using assms
proof (induction "2 * p (ext s) + (if dc_pending_state_valid ch then 1 else 0)"
    arbitrary: n frame ch s rule: less_induct)
  case less
  obtain st fr ch1 s1 where rcv: "rte_dual_channel_receive_state_frame (Some ch) 0 (Some frame) s =
      (st, fr, ch1, s1)" by (metis prod_cases4)
  from receive_state_advances [OF less.prems rcv] obtain ch2 where ch2: "ch1 = Some ch2"
    "links_open ch2" "advances p c s s1"
    "st = STATUS_OK \<longrightarrow> \<not> dc_pending_state_valid ch2 \<and>
      (dc_pending_state_valid ch \<or> p (ext s1) < p (ext s))" by blast
  obtain n1 s2 where proc: "negotiator_process_peer_frame n (the fr) s1 = (n1, s2)" by fastforce
  have paced1: "paced p c s1" using less.prems(1) advances_paced [OF ch2(3)] by simp
  have adv: "advances p c s1 s2"
    using proc now_advances [OF paced1]
    by (auto simp: negotiator_process_peer_frame_def Let_def split: prod.splits)
  have "drain_frames n1 (the fr) (Some ch2) s2 \<noteq> None" if "st = STATUS_OK"
  proof (rule less.hyps)
    show "2 * p (ext s2) + (if dc_pending_state_valid ch2 then 1 else 0) <
        2 * p (ext s) + (if dc_pending_state_valid ch then 1 else 0)"
      using ch2(3,4) adv that by (auto simp: advances_def)
    show "paced p c s2" using paced1 advances_paced [OF adv] by simp
    show "links_open ch2" by (rule ch2(2))
  qed
  with drain_step [OF rcv] proc ch2(1) show ?case by simp
qed

lemma execute_returns:
  assumes "paced p c s" "links_open ch"
  shows "rte_dual_negotiator_execute (Some n) t (Some ch) s \<noteq> None"
proof -
  let ?n0 = "n\<lparr>ng_own_channel_degraded := rte_dual_channel_get_status (Some ch) \<noteq> CHANNEL_FULL\<rparr>"
  let ?zero = "state_frame_of_bytes (replicate 16 0)"
  obtain st1 c1 s1 where snd: "rte_dual_channel_send_state_frame (Some ch) (ng_own_state n)
      (rte_dual_channel_get_status (Some ch) \<noteq> CHANNEL_FULL) (ng_own_startup_timestamp_ms n) s =
      (st1, c1, s1)" by (metis prod_cases3)
  then obtain ch1 where ch1: "c1 = Some ch1" "advances p c s s1" "links_open ch1"
    using send_state_advances [OF assms]
    by (auto simp: rte_dual_channel_send_state_frame_def Let_def split: prod.splits)
  have p1: "paced p c s1" using assms(1) advances_paced [OF ch1(2)] by simp
  obtain st2 fr c2 s2 where rcv: "rte_dual_channel_receive_state_frame (Some ch1) t (Some ?zero) s1 =
      (st2, fr, c2, s2)" by (metis prod_cases4)
  from receive_state_advances [OF p1 ch1(3) rcv] obtain ch2 where ch2: "c2 = Some ch2"
    "links_open ch2" "advances p c s1 s2" by blast
  have p2: "paced p c s2" using p1 advances_paced [OF ch2(3)] by simp
  let ?f = "case fr of None \<Rightarrow> ?zero | Some f \<Rightarrow> f"
  obtain n1 s3 where first: "(if st2 = STATUS_OK then negotiator_process_peer_frame ?n0 ?f s2
      else (?n0, s2)) = (n1, s3)" by fastforce
  then have "advances p c s2 s3"
    using now_advances [OF p2]
    by (auto simp: negotiator_process_peer_frame_def Let_def split: prod.splits if_splits)
  then have p3: "paced p c s3" using p2 advances_paced by blast
  obtain y where y: "drain_frames n1 ?f (Some ch2) s3 = Some y"
    using drain_returns [OF p3 ch2(2)] by blast
  show ?thesis unfolding rte_dual_negotiator_execute_def
    by (cases y) (simp add: snd ch1(1) rcv ch2(1) first y split: prod.split)
qed

section \<open>Two nodes\<close>

text \<open>A negotiator as initialisation leaves it, unless it resumes as ONLINE.\<close>

lemma init_result:
  assumes "rte_dual_negotiator_init (Some x) (Some cfg) s = (STATUS_OK, Some n, s')"
  shows "ng_own_id n = ngc_own_id cfg \<and> ng_peer_id n = ngc_peer_id cfg \<and>
    ng_own_state n = ngc_resume_own_state cfg \<and> \<not> ng_have_last_peer_seen n"
  using assms by (auto simp: rte_dual_negotiator_init_def Let_def split: prod.splits if_splits)

definition sample_config :: "u32 \<Rightarrow> u32 \<Rightarrow> u64 \<Rightarrow> 'x dual_negotiator_config" where
  "sample_config own peer ts = \<lparr>ngc_channel = Some 0, ngc_own_id = own, ngc_peer_id = peer,
     ngc_peer_lost_timeout_ms = 1000, ngc_state_change_callback = None,
     ngc_state_change_callback_ctx = None, ngc_resume_own_state = DUAL_IDLE,
     ngc_resume_own_startup_timestamp_ms = ts\<rparr>"

definition sample_node :: "u32 \<Rightarrow> u32 \<Rightarrow> u64 \<Rightarrow> 'x dual_negotiator" where
  "sample_node own peer ts = \<lparr>ng_channel = Some 0, ng_own_id = own, ng_peer_id = peer,
     ng_peer_lost_timeout_ms = 1000, ng_state_change_callback = None,
     ng_state_change_callback_ctx = None, ng_own_startup_timestamp_ms = ts,
     ng_own_channel_degraded = False, ng_have_peer_startup_timestamp = False,
     ng_peer_startup_timestamp_ms = 0, ng_peer_channel_degraded = False, ng_own_state = DUAL_IDLE,
     ng_peer_state = DUAL_IDLE, ng_have_last_peer_seen = False, ng_last_peer_seen_ms = 0\<rparr>"

lemma sample_init:
  "ts \<noteq> 0 \<Longrightarrow> rte_dual_negotiator_init (Some x) (Some (sample_config own peer ts)) (initial_rte ()) =
    (STATUS_OK, Some (sample_node own peer ts), initial_rte ())"
  by (simp add: rte_dual_negotiator_init_def sample_config_def sample_node_def rte_timer_now_def
      initial_rte_def)

definition heard :: "unit dual_negotiator \<Rightarrow> u64 \<Rightarrow> unit dual_negotiator" where
  "heard n ts = fst (negotiator_process_peer_frame n \<lparr>sf_kind = KIND_STATE,
     sf_header_reserved = [0, 0, 0], sf_state = 0, sf_channel_degraded = 0, sf_reserved = 0,
     sf_timestamp_ms = ts\<rparr> (initial_rte ()))"

lemma heard_run: "negotiator_run n [ts] (heard n ts)"
  using negotiator_run.frame [OF negotiator_run.start, of n "\<lparr>sf_kind = KIND_STATE,
     sf_header_reserved = [0, 0, 0], sf_state = 0, sf_channel_degraded = 0, sf_reserved = 0,
     sf_timestamp_ms = ts\<rparr>" "initial_rte ()"]
  by (simp add: heard_def prod_eq_iff)

lemma heard_sample [simp]:
  "ng_own_state (heard (sample_node i j t) u) = DUAL_IDLE" "ng_own_id (heard (sample_node i j t) u) = i"
  "ng_peer_id (heard (sample_node i j t) u) = j" "ng_have_last_peer_seen (heard (sample_node i j t) u)"
  "ng_own_startup_timestamp_ms (heard (sample_node i j t) u) = t"
  "ng_peer_startup_timestamp_ms (heard (sample_node i j t) u) = u"
  "ng_own_channel_degraded (heard (sample_node i j t) u) = False"
  "ng_peer_channel_degraded (heard (sample_node i j t) u) = False"
  by (simp_all add: heard_def negotiator_process_peer_frame_def rte_timer_now_def initial_rte_def
      sample_node_def)

lemma heard_now [simp]:
  "fst (peer_contact_recent (heard (sample_node i j t) u) (initial_rte ()))"
  by (simp add: heard_def negotiator_process_peer_frame_def peer_contact_recent_def
      rte_timer_now_def initial_rte_def sample_node_def)

section \<open>Properties\<close>

text \<open>C1. Two negotiators that name each other, with different ids, are never both ONLINE, whatever
  frames are lost, delayed or repeated and whatever the clocks say, as long as every STATE frame
  carries its sender's start-up time and neither node resumes as ONLINE.\<close>

theorem never_both_online:
  assumes "rte_dual_negotiator_init (Some xa) (Some ca) sa = (STATUS_OK, Some a0, sa')"
    and "rte_dual_negotiator_init (Some xb) (Some cb) sb = (STATUS_OK, Some b0, sb')"
    and "ngc_peer_id ca = ngc_own_id cb" "ngc_peer_id cb = ngc_own_id ca" "ngc_own_id ca \<noteq> ngc_own_id cb"
    and "ngc_resume_own_state ca \<noteq> DUAL_ONLINE" "ngc_resume_own_state cb \<noteq> DUAL_ONLINE"
    and "negotiator_run a0 ts a" "list_all ((=) (ng_own_startup_timestamp_ms b0)) ts"
    and "negotiator_run b0 us b" "list_all ((=) (ng_own_startup_timestamp_ms a0)) us"
  shows "\<not> (ng_own_state a = DUAL_ONLINE \<and> ng_own_state b = DUAL_ONLINE)"
proof
  note ia = init_result [OF assms(1)] and ib = init_result [OF assms(2)]
  note ka = run_keeps [OF assms(8)] and kb = run_keeps [OF assms(10)]
  assume "ng_own_state a = DUAL_ONLINE \<and> ng_own_state b = DUAL_ONLINE"
  moreover have "decided_by (ng_own_startup_timestamp_ms b0) a"
    using run_decided [OF assms(8,9)] ia assms(6) by (simp add: decided_by_def)
  moreover have "decided_by (ng_own_startup_timestamp_ms a0) b"
    using run_decided [OF assms(10,11)] ib assms(7) by (simp add: decided_by_def)
  ultimately have
    "negotiator_decide_online (ngc_own_id ca) (ng_own_startup_timestamp_ms a0)
       (ngc_own_id cb) (ng_own_startup_timestamp_ms b0)"
    "negotiator_decide_online (ngc_own_id cb) (ng_own_startup_timestamp_ms b0)
       (ngc_own_id ca) (ng_own_startup_timestamp_ms a0)"
    using ka kb ia ib assms(3,4) by (simp_all add: decided_by_def)
  with decide_complementary [OF assms(5)] show False by blast
qed

theorem never_both_online_witness:
  "\<exists>(a :: unit dual_negotiator) (b :: unit dual_negotiator). negotiator_run (sample_node 1 2 10) [20] a \<and> negotiator_run (sample_node 2 1 20) [10] b \<and>
     \<not> (ng_own_state a = DUAL_ONLINE \<and> ng_own_state b = DUAL_ONLINE)"
proof -
  have "\<not> (ng_own_state (heard (sample_node 1 2 10) 20) = DUAL_ONLINE \<and>
      ng_own_state (heard (sample_node 2 1 20) 10) = DUAL_ONLINE)"
    by (rule never_both_online [OF sample_init [of 10 undefined 1 2] sample_init [of 20 undefined 2 1]
          _ _ _ _ _ heard_run _ heard_run])
      (simp_all add: sample_config_def sample_node_def)
  with heard_run show ?thesis by blast
qed

text \<open>C2. Two undecided nodes that have heard each other agree: exactly one becomes ONLINE, the one
  that started first or, on a tie, has the smaller id; the other is its standby; and each node's
  view of the other is right.\<close>

theorem negotiation_elects_one:
  assumes "ng_own_state a \<in> {DUAL_IDLE, DUAL_UNKNOWN}" "ng_own_state b \<in> {DUAL_IDLE, DUAL_UNKNOWN}"
    and "ng_have_last_peer_seen a" "fst (peer_contact_recent a sa)"
    and "ng_have_last_peer_seen b" "fst (peer_contact_recent b sb)"
    and "ng_peer_id a = ng_own_id b" "ng_peer_id b = ng_own_id a" "ng_own_id a \<noteq> ng_own_id b"
    and "ng_peer_startup_timestamp_ms a = ng_own_startup_timestamp_ms b"
    and "ng_peer_startup_timestamp_ms b = ng_own_startup_timestamp_ms a"
    and "ng_peer_channel_degraded a = ng_own_channel_degraded b"
    and "ng_peer_channel_degraded b = ng_own_channel_degraded a"
    and "negotiator_update_states a sa = (a', sa')" "negotiator_update_states b sb = (b', sb')"
  shows "(ng_own_state a' = DUAL_ONLINE \<longleftrightarrow> negotiator_decide_online (ng_own_id a)
      (ng_own_startup_timestamp_ms a) (ng_own_id b) (ng_own_startup_timestamp_ms b)) \<and>
    (ng_own_state a' = DUAL_ONLINE \<longleftrightarrow> ng_own_state b' \<noteq> DUAL_ONLINE) \<and>
    ng_own_state a' \<in> {DUAL_ONLINE, DUAL_HOTSTANDBY, DUAL_COLDSTANDBY} \<and>
    ng_peer_state a' = ng_own_state b' \<and> ng_peer_state b' = ng_own_state a'"
proof -
  let ?d = "negotiator_decide_online (ng_own_id a) (ng_own_startup_timestamp_ms a) (ng_own_id b)
    (ng_own_startup_timestamp_ms b)"
  have a': "a' = (if ?d
     then a\<lparr>ng_own_state := DUAL_ONLINE, ng_peer_state := standby_of (ng_own_channel_degraded a)\<rparr>
     else a\<lparr>ng_own_state := standby_of (ng_own_channel_degraded b), ng_peer_state := DUAL_ONLINE\<rparr>)"
    using update_result [OF assms(14)] next_undecided [OF assms(1,3)] assms(4,7,10,12) by simp
  have b': "b' = (if ?d
     then b\<lparr>ng_own_state := standby_of (ng_own_channel_degraded a), ng_peer_state := DUAL_ONLINE\<rparr>
     else b\<lparr>ng_own_state := DUAL_ONLINE, ng_peer_state := standby_of (ng_own_channel_degraded b)\<rparr>)"
    using update_result [OF assms(15)] next_undecided [OF assms(2,5)] assms(6,8,11,13)
      decide_complementary [OF assms(9), of "ng_own_startup_timestamp_ms a" "ng_own_startup_timestamp_ms b"]
    by simp
  show ?thesis by (cases ?d) (simp_all add: a' b')
qed

theorem negotiation_elects_one_witness:
  "\<exists>a' b' sa' sb'. negotiator_update_states (heard (sample_node 1 2 10) 20) (initial_rte ()) = (a', sa') \<and>
    negotiator_update_states (heard (sample_node 2 1 20) 10) (initial_rte ()) = (b', sb') \<and>
    ng_own_state a' = DUAL_ONLINE \<and> ng_peer_state b' = DUAL_ONLINE"
proof -
  obtain a' sa' where a: "negotiator_update_states (heard (sample_node 1 2 10) 20) (initial_rte ()) =
      (a', sa')" by fastforce
  obtain b' sb' where b: "negotiator_update_states (heard (sample_node 2 1 20) 10) (initial_rte ()) =
      (b', sb')" by fastforce
  have "ng_own_state a' = DUAL_ONLINE" "ng_peer_state b' = ng_own_state a'"
    using negotiation_elects_one [OF _ _ _ heard_now _ heard_now _ _ _ _ _ _ _ a b]
    by (simp_all add: negotiator_decide_online_def)
  with a b show ?thesis by simp
qed

text \<open>A node that is ONLINE stays ONLINE; no other becomes ONLINE in an execute unless it was
  undecided, has heard its peer, and wins against the start-up time the peer reported.\<close>

theorem online_only_by_decision:
  assumes "rte_dual_negotiator_execute (Some n) t ch s = Some (st, Some n', ch', s')"
  shows "ng_own_state n' = DUAL_ONLINE \<longleftrightarrow> ng_own_state n = DUAL_ONLINE \<or>
      (ng_own_state n \<in> {DUAL_IDLE, DUAL_UNKNOWN} \<and> ng_own_state n' = DUAL_ONLINE \<and>
       ng_have_last_peer_seen n' \<and>
       negotiator_decide_online (ng_own_id n') (ng_own_startup_timestamp_ms n')
         (ng_peer_id n') (ng_peer_startup_timestamp_ms n'))"
proof -
  from execute_steps [OF assms] obtain n2 s4 s5 where "negotiator_update_states n2 s4 = (n', s5)"
    "ng_own_state n2 = ng_own_state n" by blast
  with update_result [OF this(1)] show ?thesis by (auto simp: next_online)
qed

theorem online_only_by_decision_witness:
  "\<exists>n' ch' s'. rte_dual_negotiator_execute (Some (sample_node 1 2 10)) 5 (Some sample_channel)
      quiet_platform = Some (STATUS_OK, Some n', ch', s') \<and>
    (ng_own_state n' = DUAL_ONLINE \<longrightarrow> ng_have_last_peer_seen n')"
proof -
  obtain st x ch' s' where run: "rte_dual_negotiator_execute (Some (sample_node 1 2 10)) 5
      (Some sample_channel) quiet_platform = Some (st, x, ch', s')"
    using execute_returns [OF quiet_paced sample_channel_open] by (metis option.exhaust prod_cases4)
  then obtain n' where n': "st = STATUS_OK" "x = Some n'" using execute_steps by metis
  from online_only_by_decision [OF run [unfolded n']] run n' show ?thesis
    by (auto simp: sample_node_def)
qed

text \<open>An execute returns when the OSAdapters keep their word, as a send does.\<close>

theorem execute_ends:
  assumes "paced p c s" "links_open ch"
  shows "\<exists>n' ch' s'. rte_dual_negotiator_execute (Some n) t (Some ch) s =
    Some (STATUS_OK, Some n', ch', s')"
proof -
  obtain st n' ch' s' where run: "rte_dual_negotiator_execute (Some n) t (Some ch) s =
      Some (st, n', ch', s')" using execute_returns [OF assms] by (metis option.exhaust prod_cases4)
  from execute_steps [OF run] run show ?thesis by metis
qed

theorem execute_ends_witness:
  "\<exists>n' ch' s'. rte_dual_negotiator_execute (Some (sample_node 1 2 10)) 5 (Some sample_channel)
    quiet_platform = Some (STATUS_OK, Some n', ch', s')"
  by (rule execute_ends [OF quiet_paced sample_channel_open])

text \<open>C17. A standby node never takes over while it hears its peer, whatever the peer's frames say: when
  the ONLINE node restarts with a new start-up time before the contact is lost, both nodes end up
  as standby, each with the other as ONLINE, and further rounds leave it at that.\<close>

theorem fast_restart_leaves_two_standbys:
  assumes "ng_own_state b \<in> {DUAL_HOTSTANDBY, DUAL_COLDSTANDBY}"
    and "ng_have_last_peer_seen b" "fst (peer_contact_recent b sb)"
    and "ng_own_state a \<in> {DUAL_IDLE, DUAL_HOTSTANDBY, DUAL_COLDSTANDBY}"
    and "ng_have_last_peer_seen a" "fst (peer_contact_recent a sa)"
    and "ng_peer_startup_timestamp_ms a < ng_own_startup_timestamp_ms a"
    and "negotiator_update_states a sa = (a', sa')" "negotiator_update_states b sb = (b', sb')"
  shows "list_all (\<lambda>x. x = DUAL_HOTSTANDBY \<or> x = DUAL_COLDSTANDBY) [ng_own_state a', ng_own_state b'] \<and>
    ng_peer_state a' = DUAL_ONLINE \<and> ng_peer_state b' = DUAL_ONLINE"
proof -
  have lost: "\<not> negotiator_decide_online (ng_own_id a) (ng_own_startup_timestamp_ms a) (ng_peer_id a)
      (ng_peer_startup_timestamp_ms a)"
    using assms(7) by (auto simp: negotiator_decide_online_def)
  have "a' = a\<lparr>ng_own_state := standby_of (ng_peer_channel_degraded a), ng_peer_state := DUAL_ONLINE\<rparr>"
    using update_result [OF assms(8)] next_stays_standby [OF assms(5) _ lost] assms(4,6) by auto
  moreover have "b' = b\<lparr>ng_own_state := standby_of (ng_peer_channel_degraded b), ng_peer_state := DUAL_ONLINE\<rparr>"
    using update_result [OF assms(9)] next_stays_standby [OF assms(2)] assms(1,3) by auto
  ultimately show ?thesis by simp
qed

theorem fast_restart_leaves_two_standbys_witness:
  "\<exists>a' b' sa' sb'. negotiator_update_states (heard (sample_node 1 2 90) 20) (initial_rte ()) = (a', sa') \<and>
    negotiator_update_states ((heard (sample_node 2 1 20) 90)\<lparr>ng_own_state := DUAL_HOTSTANDBY\<rparr>)
      (initial_rte ()) = (b', sb') \<and>
    ng_peer_state a' = DUAL_ONLINE \<and> ng_peer_state b' = DUAL_ONLINE"
proof -
  let ?b = "(heard (sample_node 2 1 20) 90)\<lparr>ng_own_state := DUAL_HOTSTANDBY\<rparr>"
  obtain a' sa' where a: "negotiator_update_states (heard (sample_node 1 2 90) 20) (initial_rte ()) =
      (a', sa')" by fastforce
  obtain b' sb' where b: "negotiator_update_states ?b (initial_rte ()) = (b', sb')" by fastforce
  have "fst (peer_contact_recent ?b (initial_rte ()))"
    by (simp add: heard_def negotiator_process_peer_frame_def peer_contact_recent_def
        rte_timer_now_def initial_rte_def sample_node_def)
  from fast_restart_leaves_two_standbys [OF _ _ this _ _ heard_now _ a b] a b show ?thesis by simp
qed

end
