(* ===== verification/Buffer.thy ===== *)
theory Buffer
  imports Wire Rte_Types
begin

unbundle bit_operations_syntax

text \<open>
  The data buffer of \<^verbatim>\<open>src/utils/buffer/rte_buffer.c\<close>: caller-owned storage with a length,
  and the typed reads and writes in both byte orders. \<open>bf_data\<close> is the content of the storage
  behind the pointer, \<open>None\<close> for NULL; sizes are natural numbers.
\<close>

section \<open>Data\<close>

record rte_buffer =
  bf_data :: "bytes option"
  bf_capacity :: nat
  bf_length :: nat

record rte_const_buffer =
  cb_data :: "bytes option"
  cb_length :: nat

section \<open>Operations\<close>

definition rte_buffer_init ::
  "rte_buffer option \<Rightarrow> bytes option \<Rightarrow> nat \<Rightarrow> rte_status \<times> rte_buffer option" where
  "rte_buffer_init buf storage capacity =
    (if buf = None \<or> storage = None \<or> capacity = 0 then (STATUS_INVALID_PARAM, buf)
     else (STATUS_OK, Some \<lparr>bf_data = storage, bf_capacity = capacity, bf_length = 0\<rparr>))"

definition rte_buffer_is_valid :: "rte_buffer option \<Rightarrow> bool" where
  "rte_buffer_is_valid buf =
    (case buf of None \<Rightarrow> False
     | Some b \<Rightarrow> if bf_data b = None then False else bf_length b \<le> bf_capacity b)"

definition rte_buffer_clear :: "rte_buffer option \<Rightarrow> rte_status \<times> rte_buffer option" where
  "rte_buffer_clear buf =
    (if buf = None \<or> \<not> rte_buffer_is_valid buf then (STATUS_INVALID_PARAM, buf)
     else (STATUS_OK, map_option (bf_length_update (\<lambda>_. 0)) buf))"

definition rte_buffer_set_length :: "rte_buffer option \<Rightarrow> nat \<Rightarrow> rte_status \<times> rte_buffer option" where
  "rte_buffer_set_length buf len =
    (case buf of None \<Rightarrow> (STATUS_INVALID_PARAM, buf)
     | Some b \<Rightarrow>
         if bf_data b = None then (STATUS_INVALID_PARAM, buf)
         else if len > bf_capacity b then (STATUS_RESOURCE_EXHAUSTED, buf)
         else (STATUS_OK, Some (b\<lparr>bf_length := len\<rparr>)))"

definition rte_buffer_copy_in ::
  "rte_buffer option \<Rightarrow> bytes option \<Rightarrow> nat \<Rightarrow> rte_status \<times> rte_buffer option" where
  "rte_buffer_copy_in buf src src_len =
    (case (buf, src) of
       (Some b, Some s) \<Rightarrow>
         (case bf_data b of None \<Rightarrow> (STATUS_INVALID_PARAM, buf)
          | Some d \<Rightarrow>
              if src_len > bf_capacity b then (STATUS_RESOURCE_EXHAUSTED, buf)
              else (STATUS_OK, Some (b\<lparr>bf_data := Some (copy_at 0 (take src_len s) d),
                      bf_length := src_len\<rparr>)))
     | _ \<Rightarrow> (STATUS_INVALID_PARAM, buf))"

text \<open>The results hold the destination and the number of bytes copied.\<close>

definition rte_buffer_copy_out ::
  "rte_buffer option \<Rightarrow> bytes option \<Rightarrow> nat \<Rightarrow> nat option \<Rightarrow> rte_status \<times> bytes option \<times> nat option" where
  "rte_buffer_copy_out buf dest dest_capacity out_copied =
    (case (buf, dest, out_copied) of
       (Some b, Some to, Some _) \<Rightarrow>
         (case bf_data b of None \<Rightarrow> (STATUS_INVALID_PARAM, dest, out_copied)
          | Some d \<Rightarrow>
              if bf_length b > dest_capacity then (STATUS_RESOURCE_EXHAUSTED, dest, Some 0)
              else (STATUS_OK, Some (copy_at 0 (take (bf_length b) d) to), Some (bf_length b)))
     | _ \<Rightarrow> (STATUS_INVALID_PARAM, dest, out_copied))"

definition rte_buffer_as_const ::
  "rte_buffer option \<Rightarrow> rte_const_buffer option \<Rightarrow> rte_status \<times> rte_const_buffer option" where
  "rte_buffer_as_const buf out_view =
    (case (buf, out_view) of
       (Some b, Some _) \<Rightarrow>
         if bf_data b = None then (STATUS_INVALID_PARAM, out_view)
         else if bf_length b > bf_capacity b then (STATUS_INTERNAL_ERROR, out_view)
         else (STATUS_OK, Some \<lparr>cb_data = bf_data b, cb_length = bf_length b\<rparr>)
     | _ \<Rightarrow> (STATUS_INVALID_PARAM, out_view))"

definition rte_buffer_append_bytes ::
  "rte_buffer option \<Rightarrow> bytes \<Rightarrow> nat \<Rightarrow> rte_status \<times> rte_buffer option" where
  "rte_buffer_append_bytes buf bs n =
    (case buf of None \<Rightarrow> (STATUS_INVALID_PARAM, buf)
     | Some b \<Rightarrow>
         if \<not> rte_buffer_is_valid buf then (STATUS_INVALID_PARAM, buf)
         else if bf_capacity b - bf_length b < n then (STATUS_RESOURCE_EXHAUSTED, buf)
         else (STATUS_OK, Some (b\<lparr>bf_data := map_option (copy_at (bf_length b) (take n bs)) (bf_data b),
                 bf_length := bf_length b + n\<rparr>)))"

text \<open>On success the bytes read, \<open>None\<close> where \<^verbatim>\<open>out_bytes\<close> stays untouched.\<close>

definition rte_buffer_peek_bytes :: "rte_buffer option \<Rightarrow> nat \<Rightarrow> nat \<Rightarrow> rte_status \<times> bytes option" where
  "rte_buffer_peek_bytes buf off n =
    (case buf of None \<Rightarrow> (STATUS_INVALID_PARAM, None)
     | Some b \<Rightarrow>
         (case bf_data b of None \<Rightarrow> (STATUS_INVALID_PARAM, None)
          | Some d \<Rightarrow>
              if off > bf_length b \<or> bf_length b - off < n then (STATUS_RESOURCE_EXHAUSTED, None)
              else (STATUS_OK, Some (take n (drop off d)))))"

section \<open>Typed writes\<close>

definition rte_buffer_write_u16_le :: "rte_buffer option \<Rightarrow> u16 \<Rightarrow> rte_status \<times> rte_buffer option" where
  "rte_buffer_write_u16_le buf v = rte_buffer_append_bytes buf
     [ucast (v AND 0xFF), ucast (drop_bit 8 v AND 0xFF)] 2"

definition rte_buffer_write_u16_be :: "rte_buffer option \<Rightarrow> u16 \<Rightarrow> rte_status \<times> rte_buffer option" where
  "rte_buffer_write_u16_be buf v = rte_buffer_append_bytes buf
     [ucast (drop_bit 8 v AND 0xFF), ucast (v AND 0xFF)] 2"

definition rte_buffer_write_u32_le :: "rte_buffer option \<Rightarrow> u32 \<Rightarrow> rte_status \<times> rte_buffer option" where
  "rte_buffer_write_u32_le buf v = rte_buffer_append_bytes buf
     [ucast (v AND 0xFF), ucast (drop_bit 8 v AND 0xFF), ucast (drop_bit 16 v AND 0xFF),
      ucast (drop_bit 24 v AND 0xFF)] 4"

definition rte_buffer_write_u32_be :: "rte_buffer option \<Rightarrow> u32 \<Rightarrow> rte_status \<times> rte_buffer option" where
  "rte_buffer_write_u32_be buf v = rte_buffer_append_bytes buf
     [ucast (drop_bit 24 v AND 0xFF), ucast (drop_bit 16 v AND 0xFF), ucast (drop_bit 8 v AND 0xFF),
      ucast (v AND 0xFF)] 4"

definition rte_buffer_write_u64_le :: "rte_buffer option \<Rightarrow> u64 \<Rightarrow> rte_status \<times> rte_buffer option" where
  "rte_buffer_write_u64_le buf v = rte_buffer_append_bytes buf
     (map (\<lambda>i. ucast (drop_bit (8 * i) v AND 0xFF)) [0..<8]) 8"

definition rte_buffer_write_u64_be :: "rte_buffer option \<Rightarrow> u64 \<Rightarrow> rte_status \<times> rte_buffer option" where
  "rte_buffer_write_u64_be buf v = rte_buffer_append_bytes buf
     (map (\<lambda>i. ucast (drop_bit ((8 - 1 - i) * 8) v AND 0xFF)) [0..<8]) 8"

section \<open>Typed reads\<close>

text \<open>The common frame: a NULL result pointer, a failed peek, the decoded value.\<close>

definition read_value ::
  "nat \<Rightarrow> (bytes \<Rightarrow> 'a) \<Rightarrow> rte_buffer option \<Rightarrow> nat \<Rightarrow> 'a option \<Rightarrow> rte_status \<times> 'a option" where
  "read_value n decode buf off out_value =
    (case out_value of None \<Rightarrow> (STATUS_INVALID_PARAM, out_value)
     | Some _ \<Rightarrow>
         (case rte_buffer_peek_bytes buf off n of
            (st, Some bs) \<Rightarrow> if st \<noteq> STATUS_OK then (st, out_value) else (STATUS_OK, Some (decode bs))
          | (st, None) \<Rightarrow> (st, out_value)))"

definition rte_buffer_read_u16_le ::
  "rte_buffer option \<Rightarrow> nat \<Rightarrow> u16 option \<Rightarrow> rte_status \<times> u16 option" where
  "rte_buffer_read_u16_le = read_value 2 (\<lambda>bs.
     let v = (ucast (bs ! 0) :: u32) OR push_bit 8 (ucast (bs ! 1)) in ucast v)"

definition rte_buffer_read_u16_be ::
  "rte_buffer option \<Rightarrow> nat \<Rightarrow> u16 option \<Rightarrow> rte_status \<times> u16 option" where
  "rte_buffer_read_u16_be = read_value 2 (\<lambda>bs.
     let v = (push_bit 8 (ucast (bs ! 0)) :: u32) OR ucast (bs ! 1) in ucast v)"

definition rte_buffer_read_u32_le ::
  "rte_buffer option \<Rightarrow> nat \<Rightarrow> u32 option \<Rightarrow> rte_status \<times> u32 option" where
  "rte_buffer_read_u32_le = read_value 4 (\<lambda>bs.
     ucast (bs ! 0) OR push_bit 8 (ucast (bs ! 1)) OR push_bit 16 (ucast (bs ! 2)) OR
     push_bit 24 (ucast (bs ! 3)))"

definition rte_buffer_read_u32_be ::
  "rte_buffer option \<Rightarrow> nat \<Rightarrow> u32 option \<Rightarrow> rte_status \<times> u32 option" where
  "rte_buffer_read_u32_be = read_value 4 (\<lambda>bs.
     push_bit 24 (ucast (bs ! 0)) OR push_bit 16 (ucast (bs ! 1)) OR push_bit 8 (ucast (bs ! 2)) OR
     ucast (bs ! 3))"

definition rte_buffer_read_u64_le ::
  "rte_buffer option \<Rightarrow> nat \<Rightarrow> u64 option \<Rightarrow> rte_status \<times> u64 option" where
  "rte_buffer_read_u64_le = read_value 8 (\<lambda>bs.
     foldl (\<lambda>v i. v OR push_bit (8 * i) (ucast (bs ! i))) 0 [0..<8])"

definition rte_buffer_read_u64_be ::
  "rte_buffer option \<Rightarrow> nat \<Rightarrow> u64 option \<Rightarrow> rte_status \<times> u64 option" where
  "rte_buffer_read_u64_be = read_value 8 (\<lambda>bs.
     foldl (\<lambda>v i. v OR push_bit ((8 - 1 - i) * 8) (ucast (bs ! i))) 0 [0..<8])"

section \<open>The invariant\<close>

text \<open>The storage has its stated size and the length stays inside it.\<close>

definition wf_buffer :: "rte_buffer \<Rightarrow> bool" where
  "wf_buffer b \<longleftrightarrow> (case bf_data b of None \<Rightarrow> False | Some d \<Rightarrow> length d = bf_capacity b) \<and>
     bf_length b \<le> bf_capacity b"

lemma wf_buffer_valid: "wf_buffer b \<Longrightarrow> rte_buffer_is_valid (Some b)"
  by (auto simp: wf_buffer_def rte_buffer_is_valid_def split: option.splits)

lemma append_fits:
  assumes "wf_buffer b" "length bs = n" "bf_length b + n \<le> bf_capacity b"
  obtains d where "bf_data b = Some d" "length d = bf_capacity b"
    "rte_buffer_append_bytes (Some b) bs n =
       (STATUS_OK, Some (b\<lparr>bf_data := Some (copy_at (bf_length b) bs d), bf_length := bf_length b + n\<rparr>))"
  using assms wf_buffer_valid [OF assms(1)]
  by (auto simp: rte_buffer_append_bytes_def wf_buffer_def split: option.splits)

lemma append_keeps_wf:
  assumes "wf_buffer b" "length bs = n" "rte_buffer_append_bytes (Some b) bs n = (st, b')"
  shows "\<exists>b2. b' = Some b2 \<and> wf_buffer b2 \<and> bf_capacity b2 = bf_capacity b \<and> (st \<noteq> STATUS_OK \<longrightarrow> b2 = b)"
proof (cases "bf_length b + n \<le> bf_capacity b")
  case True
  from append_fits [OF assms(1,2) this] obtain d where "bf_data b = Some d" "length d = bf_capacity b"
    "rte_buffer_append_bytes (Some b) bs n =
       (STATUS_OK, Some (b\<lparr>bf_data := Some (copy_at (bf_length b) bs d), bf_length := bf_length b + n\<rparr>))" .
  with True assms(2,3) show ?thesis by (auto simp: wf_buffer_def)
next
  case False
  then have "bf_capacity b - bf_length b < n" using assms(1) by (auto simp: wf_buffer_def)
  with assms wf_buffer_valid [OF assms(1)] show ?thesis
    by (auto simp: rte_buffer_append_bytes_def)
qed

section \<open>The interface of a typed write and its read\<close>

locale int_codec =
  fixes wr :: "rte_buffer option \<Rightarrow> 'v \<Rightarrow> rte_status \<times> rte_buffer option"
    and rd :: "rte_buffer option \<Rightarrow> nat \<Rightarrow> 'v option \<Rightarrow> rte_status \<times> 'v option"
    and enc :: "'v \<Rightarrow> bytes" and dec :: "bytes \<Rightarrow> 'v" and width :: nat
  assumes wr_appends: "wr buf v = rte_buffer_append_bytes buf (enc v) width"
    and rd_decodes: "rd buf off out = read_value width dec buf off out"
    and length_enc: "length (enc v) = width"
    and dec_enc: "dec (enc v) = v"
begin

lemma wr_full:
  "wf_buffer b \<Longrightarrow> bf_capacity b < bf_length b + width \<Longrightarrow> wr (Some b) v = (STATUS_RESOURCE_EXHAUSTED, Some b)"
  using wf_buffer_valid by (simp add: wr_appends rte_buffer_append_bytes_def less_diff_conv2 wf_buffer_def)

lemma wr_keeps_wf:
  "wf_buffer b \<Longrightarrow> wr (Some b) v = (st, b') \<Longrightarrow>
    \<exists>b2. b' = Some b2 \<and> wf_buffer b2 \<and> bf_capacity b2 = bf_capacity b \<and> (st \<noteq> STATUS_OK \<longrightarrow> b2 = b)"
  using append_keeps_wf [OF _ length_enc] by (simp add: wr_appends)

text \<open>What was written is read back, and what was there before is still there.\<close>

lemma wr_rd:
  assumes "wf_buffer b" "bf_length b + width \<le> bf_capacity b"
  shows "\<exists>b'. wr (Some b) v = (STATUS_OK, Some b') \<and> wf_buffer b' \<and>
    bf_length b' = bf_length b + width \<and> rd (Some b') (bf_length b) (Some z) = (STATUS_OK, Some v) \<and>
    (\<forall>off k. off + k \<le> bf_length b \<longrightarrow>
       rte_buffer_peek_bytes (Some b') off k = rte_buffer_peek_bytes (Some b) off k)"
proof -
  from append_fits [OF assms(1) length_enc assms(2)] obtain d where d: "bf_data b = Some d"
    "length d = bf_capacity b" and run: "wr (Some b) v = (STATUS_OK, Some (b\<lparr>bf_data :=
       Some (copy_at (bf_length b) (enc v) d), bf_length := bf_length b + width\<rparr>))"
    unfolding wr_appends by blast
  let ?b = "b\<lparr>bf_data := Some (copy_at (bf_length b) (enc v) d), bf_length := bf_length b + width\<rparr>"
  have "take width (drop (bf_length b) (copy_at (bf_length b) (enc v) d)) = enc v"
    using slice_copy_at [of "bf_length b" d "enc v"] assms(2) d(2) by (simp add: length_enc)
  then have "rd (Some ?b) (bf_length b) (Some z) = (STATUS_OK, Some v)"
    by (simp add: rd_decodes read_value_def rte_buffer_peek_bytes_def dec_enc)
  moreover have "wf_buffer ?b" using assms(2) d(2) by (simp add: wf_buffer_def length_enc)
  moreover have "rte_buffer_peek_bytes (Some ?b) off k = rte_buffer_peek_bytes (Some b) off k"
    if "off + k \<le> bf_length b" for off k
  proof -
    have "take k (drop off (take (bf_length b) d)) = take k (drop off d)"
      using that by (simp add: drop_take min_def)
    then show ?thesis using that d assms(2)
      by (simp add: rte_buffer_peek_bytes_def copy_at_def min_def)
  qed
  ultimately show ?thesis using run by (intro exI [of _ ?b]) simp
qed

end

section \<open>The six codecs\<close>

lemma ucast_and_byte: "ucast (v AND 0xFF) = (ucast (v :: 'a::len word) :: u8)"
proof (rule bit_word_eqI)
  have mask: "(0xFF :: 'a word) = mask 8" by (simp add: mask_numeral)
  fix i assume "i < LENGTH(8)"
  then show "bit (ucast (v AND 0xFF) :: u8) i = bit (ucast v :: u8) i"
    unfolding mask by (auto simp: bit_simps dest: bit_imp_le_length)
qed

lemma le_word_2: "le_word [a, b] = (ucast a OR push_bit 8 (ucast b) :: 'a::len word)"
  by simp

lemma le_word_4:
  "le_word [a, b, c, d] = (ucast a OR push_bit 8 (ucast b) OR push_bit 16 (ucast c) OR
     push_bit 24 (ucast d) :: 'a::len word)"
  by (simp add: push_bit_or push_bit_push_bit)

lemma le_word_8:
  "length bs = 8 \<Longrightarrow> le_word bs =
    foldl (\<lambda>v i. v OR push_bit (8 * i) (ucast (bs ! i))) (0 :: 'a::len word) [0..<8]"
  by (auto simp: length_Suc_conv eval_nat_numeral push_bit_or push_bit_push_bit upt_rec ac_simps)

lemma foldl_be_le:
  "foldl (\<lambda>v i. v OR push_bit ((8 - 1 - i) * 8) (ucast (bs ! i))) 0 [0..<8] =
   (foldl (\<lambda>v i. v OR push_bit (8 * i) (ucast (rev bs ! i))) 0 [0..<8] :: u64)" if "length bs = 8"
  using that by (auto simp: length_Suc_conv eval_nat_numeral upt_rec ac_simps)

lemma le_bytes_2: "le_bytes 2 v = [ucast v, ucast (drop_bit 8 v)]"
  by (simp add: le_bytes_def upt_rec)

lemma le_bytes_4: "le_bytes 4 v = [ucast v, ucast (drop_bit 8 v), ucast (drop_bit 16 v), ucast (drop_bit 24 v)]"
  by (simp add: le_bytes_def upt_rec)

lemma le_word_8_enc: "le_word (le_bytes 8 v) = (v :: u64)"
  by (rule le_word_le_bytes) simp

lemma u16_through_u32:
  "ucast (ucast (a :: u8) OR push_bit 8 (ucast (b :: u8)) :: u32) = (le_word [a, b] :: u16)"
  by (rule bit_word_eqI) (auto simp: bit_simps)

lemma u16_through_u32_be:
  "ucast (push_bit 8 (ucast (b :: u8)) OR ucast (a :: u8) :: u32) = (le_word [a, b] :: u16)"
  by (subst or.commute) (rule u16_through_u32)

lemma le_word_2_enc: "le_word [ucast v, ucast (drop_bit 8 v)] = (v :: u16)"
  using le_word_le_bytes [of 2 v] by (simp add: le_bytes_2 del: le_word.simps)

lemma le_word_4_enc:
  "le_word [ucast v, ucast (drop_bit 8 v), ucast (drop_bit 16 v), ucast (drop_bit 24 v)] = (v :: u32)"
  using le_word_le_bytes [of 4 v] by (simp add: le_bytes_4 del: le_word.simps)

interpretation u16_le: int_codec rte_buffer_write_u16_le rte_buffer_read_u16_le "le_bytes 2"
  "\<lambda>bs. let v = (ucast (bs ! 0) :: u32) OR push_bit 8 (ucast (bs ! 1)) in ucast v" 2
  by unfold_locales (simp_all add: rte_buffer_write_u16_le_def rte_buffer_read_u16_le_def
      ucast_and_byte le_bytes_2 u16_through_u32 le_word_2_enc del: le_word.simps)

interpretation u16_be: int_codec rte_buffer_write_u16_be rte_buffer_read_u16_be "\<lambda>v. rev (le_bytes 2 v)"
  "\<lambda>bs. let v = (push_bit 8 (ucast (bs ! 0)) :: u32) OR ucast (bs ! 1) in ucast v" 2
  by unfold_locales (simp_all add: rte_buffer_write_u16_be_def rte_buffer_read_u16_be_def
      ucast_and_byte le_bytes_2 u16_through_u32_be le_word_2_enc del: le_word.simps)

interpretation u32_le: int_codec rte_buffer_write_u32_le rte_buffer_read_u32_le "le_bytes 4"
  "\<lambda>bs. ucast (bs ! 0) OR push_bit 8 (ucast (bs ! 1)) OR push_bit 16 (ucast (bs ! 2)) OR
     push_bit 24 (ucast (bs ! 3))" 4
  by unfold_locales (simp_all add: rte_buffer_write_u32_le_def rte_buffer_read_u32_le_def
      ucast_and_byte le_bytes_4 le_word_4_enc [unfolded le_word_4])

interpretation u32_be: int_codec rte_buffer_write_u32_be rte_buffer_read_u32_be "\<lambda>v. rev (le_bytes 4 v)"
  "\<lambda>bs. push_bit 24 (ucast (bs ! 0)) OR push_bit 16 (ucast (bs ! 1)) OR push_bit 8 (ucast (bs ! 2)) OR
     ucast (bs ! 3)" 4
proof
  fix v :: u32
  show "push_bit 24 (ucast (rev (le_bytes 4 v) ! 0)) OR push_bit 16 (ucast (rev (le_bytes 4 v) ! 1)) OR
      push_bit 8 (ucast (rev (le_bytes 4 v) ! 2)) OR ucast (rev (le_bytes 4 v) ! 3) = v"
    using le_word_4_enc [of v] unfolding le_word_4 by (simp add: le_bytes_4 ac_simps)
qed (simp_all add: rte_buffer_write_u32_be_def rte_buffer_read_u32_be_def ucast_and_byte le_bytes_4)

interpretation u64_le: int_codec rte_buffer_write_u64_le rte_buffer_read_u64_le "le_bytes 8"
  "\<lambda>bs. foldl (\<lambda>v i. v OR push_bit (8 * i) (ucast (bs ! i))) 0 [0..<8]" 8
  by unfold_locales (simp_all only: rte_buffer_write_u64_le_def rte_buffer_read_u64_le_def
      ucast_and_byte le_bytes_def [symmetric] length_le_bytes le_word_8 [symmetric]
      le_word_8_enc)

interpretation u64_be: int_codec rte_buffer_write_u64_be rte_buffer_read_u64_be "\<lambda>v. rev (le_bytes 8 v)"
  "\<lambda>bs. foldl (\<lambda>v i. v OR push_bit ((8 - 1 - i) * 8) (ucast (bs ! i))) 0 [0..<8]" 8
proof
  fix v :: u64 and buf
  have "map (\<lambda>i. ucast (drop_bit ((8 - 1 - i) * 8) v)) [0..<8] = rev (le_bytes 8 v)"
    by (simp add: le_bytes_def upt_rec)
  then show "rte_buffer_write_u64_be buf v = rte_buffer_append_bytes buf (rev (le_bytes 8 v)) 8"
    by (simp only: rte_buffer_write_u64_be_def ucast_and_byte)
  show "foldl (\<lambda>w i. w OR push_bit ((8 - 1 - i) * 8) (ucast (rev (le_bytes 8 v) ! i))) 0 [0..<8] = v"
    by (subst foldl_be_le) (simp_all only: length_rev length_le_bytes rev_rev_ident
        le_word_8 [symmetric] le_word_8_enc)
qed (simp_all add: rte_buffer_read_u64_be_def)

section \<open>Properties\<close>

text \<open>A value written to a buffer with room for it is read back at the place it was written, the
  buffer stays well formed, and the bytes before it are as they were.\<close>

definition reads_back ::
  "(rte_buffer option \<Rightarrow> 'v \<Rightarrow> rte_status \<times> rte_buffer option) \<Rightarrow>
    (rte_buffer option \<Rightarrow> nat \<Rightarrow> 'v option \<Rightarrow> rte_status \<times> 'v option) \<Rightarrow> nat \<Rightarrow> rte_buffer \<Rightarrow> bool" where
  "reads_back wr rd n b \<longleftrightarrow> (\<forall>v z. \<exists>b'. wr (Some b) v = (STATUS_OK, Some b') \<and> wf_buffer b' \<and>
     bf_length b' = bf_length b + n \<and> rd (Some b') (bf_length b) (Some z) = (STATUS_OK, Some v) \<and>
     (\<forall>off k. off + k \<le> bf_length b \<longrightarrow>
        rte_buffer_peek_bytes (Some b') off k = rte_buffer_peek_bytes (Some b) off k))"

text \<open>Round trips of all six typed writes: with room for the value, what is written is what is read
  at that place, in either byte order, and nothing written before changes.\<close>

theorem buffer_round_trips:
  assumes "wf_buffer b" "bf_length b + 8 \<le> bf_capacity b"
  shows "reads_back rte_buffer_write_u16_le rte_buffer_read_u16_le 2 b \<and>
    reads_back rte_buffer_write_u16_be rte_buffer_read_u16_be 2 b \<and>
    reads_back rte_buffer_write_u32_le rte_buffer_read_u32_le 4 b \<and>
    reads_back rte_buffer_write_u32_be rte_buffer_read_u32_be 4 b \<and>
    reads_back rte_buffer_write_u64_le rte_buffer_read_u64_le 8 b \<and>
    reads_back rte_buffer_write_u64_be rte_buffer_read_u64_be 8 b"
  unfolding reads_back_def using assms
  by (intro conjI allI u16_le.wr_rd u16_be.wr_rd u32_le.wr_rd u32_be.wr_rd u64_le.wr_rd u64_be.wr_rd)
    simp_all

definition sample_buffer :: rte_buffer where
  "sample_buffer = \<lparr>bf_data = Some (replicate 12 7), bf_capacity = 12, bf_length = 3\<rparr>"

theorem buffer_round_trips_witness:
  "reads_back rte_buffer_write_u32_be rte_buffer_read_u32_be 4 sample_buffer"
  using buffer_round_trips [of sample_buffer] by (simp add: sample_buffer_def wf_buffer_def)

end
