(* ===== verification/Site_Role.thy ===== *)
theory Site_Role
  imports Dual_Negotiator Site_Role_Policy Buffer
begin

text \<open>
  The site-role service, \<^verbatim>\<open>src/redundancy/site_role/rte_site_role.c\<close>: the link to the counterpart
  site, the exchange of frames, the facts the policy decides on, the role changes and the takeover
  confirmation.

  The application's callbacks are functions on the state \<open>'x\<close> of the platform (their \<^verbatim>\<open>user\<close>
  pointer is part of it). The console lines and log events a step writes are not modelled: no step
  reads them back. \<open>None\<close> is a call that does not return; it comes from the waits of the dual
  channel and from the loops at start-up.
\<close>

section \<open>Data\<close>

definition FRAME_OVERHEAD :: nat where "FRAME_OVERHEAD = 7"
definition FRAME_STATE_OFFSET :: nat where "FRAME_STATE_OFFSET = 6"
definition VALID_MARKER :: u8 where "VALID_MARKER = 0xA5"
definition SINGLE_MODE_DUAL :: u8 where "SINGLE_MODE_DUAL = 0"
definition SINGLE_MODE_SINGLE :: u8 where "SINGLE_MODE_SINGLE = 1"
definition TOKEN_MSG_LEN :: nat where "TOKEN_MSG_LEN = 16"
definition TOKEN_MAC_LEN :: nat where "TOKEN_MAC_LEN = 8"
definition TOKEN_LEN :: nat where "TOKEN_LEN = TOKEN_MSG_LEN + TOKEN_MAC_LEN"
definition TOKEN_VERSION :: u8 where "TOKEN_VERSION = 1"
definition CHALLENGE_LIFETIME_DEFAULT_CYCLES :: u32 where "CHALLENGE_LIFETIME_DEFAULT_CYCLES = 240"
definition SIBLING_MISMATCH_LIMIT :: u8 where "SIBLING_MISMATCH_LIMIT = 3"
definition SIBLING_REACH_DEFAULT_CYCLES :: u32 where "SIBLING_REACH_DEFAULT_CYCLES = 3"
definition SERVICE_DRAIN :: nat where "SERVICE_DRAIN = 4"

lemmas frame_constants = FRAME_OVERHEAD_def FRAME_STATE_OFFSET_def VALID_MARKER_def

record site_role_local =
  lo_faulted :: bool
  lo_single_mode :: bool
  lo_own_ready :: bool
  lo_sibling_online :: bool
  lo_sibling_ready :: bool
  lo_sibling_reachable :: bool

datatype site_role_change_kind = CHANGE_PROMOTED | CHANGE_DEMOTED | CHANGE_RENEGOTIATED

record site_role_change =
  ch_kind :: site_role_change_kind
  ch_reason :: site_role_reason
  ch_online :: bool
  ch_apply_state :: bool
  ch_snapshot_valid :: bool
  ch_snapshot_cycle :: u32

record site_role_sibling =
  sib_known :: bool
  sib_online :: bool
  sib_single_mode :: bool
  sib_ready :: bool

datatype token_result =
    TOKEN_ACCEPTED
  | TOKEN_IGNORED_ONLINE
  | TOKEN_NOT_CONFIGURED
  | TOKEN_NO_CHALLENGE
  | TOKEN_BAD_FORMAT
  | TOKEN_BAD_MAC
  | TOKEN_STALE_CHALLENGE

datatype sibling_verdict = SIBLING_UNKNOWN | SIBLING_AGREE | SIBLING_PENDING | SIBLING_FAULT

text \<open>
  \<open>cf_encode_state\<close> is given the zeroed state region, its size and the live flag and returns the
  region; \<open>cf_sibling_source\<close> is given the last sibling state and returns it updated.
\<close>

record 'x site_role_config =
  cf_own_id :: u32
  cf_peer_id :: u32
  cf_is_west :: bool
  cf_listen :: bool
  cf_peer_host :: "string option"
  cf_port :: u16
  cf_link_message_size :: nat
  cf_ack_timeout_ms :: duration_ms
  cf_peer_lost_timeout_ms :: duration_ms
  cf_reconnect_attempt_ms :: duration_ms
  cf_startup_timeout_ms :: duration_ms
  cf_link_poll_ms :: duration_ms
  cf_connect_retry_ms :: u32
  cf_connect_timeout_ms :: duration_ms
  cf_send_miss_threshold :: u8
  cf_standby_sync :: bool
  cf_startup_timestamp_ms :: timestamp_ms
  cf_frame_size :: nat
  cf_tx_buf :: "bytes option"
  cf_rx_buf :: "bytes option"
  cf_role_tag :: "string option"
  cf_peer_tag :: "string option"
  cf_site_name :: "string option"
  cf_sibling_tag :: "string option"
  cf_encode_state :: "(bytes \<Rightarrow> nat \<Rightarrow> bool \<Rightarrow> 'x \<Rightarrow> rte_status \<times> bytes \<times> 'x) option"
  cf_receive_state :: "(bytes \<Rightarrow> nat \<Rightarrow> bool \<Rightarrow> 'x \<Rightarrow> bool \<times> 'x) option"
  cf_on_change :: "(site_role_change \<Rightarrow> 'x \<Rightarrow> 'x) option"
  cf_delay :: "(u32 \<Rightarrow> 'x \<Rightarrow> 'x) option"
  cf_verify_mac :: "(bytes \<Rightarrow> nat \<Rightarrow> bytes \<Rightarrow> 'x \<Rightarrow> bool \<times> 'x) option"
  cf_channel_id :: u8
  cf_challenge_lifetime_cycles :: u32
  cf_sibling_source :: "(site_role_sibling \<Rightarrow> 'x \<Rightarrow> bool \<times> site_role_sibling \<times> 'x) option"
  cf_sibling_reach_cycles :: u32

record site_role_status =
  st_online :: bool
  st_link_up :: bool
  st_peer_answering :: bool
  st_peer_online_now :: bool
  st_peer_unresponsive :: bool
  st_standby_warm :: bool
  st_standby_healthy :: bool
  st_last_reason :: site_role_reason

text \<open>The frame buffers belong to the caller; \<open>sr_tx\<close> and \<open>sr_rx\<close> are their contents.\<close>

record 'x site_role =
  sr_cfg :: "'x site_role_config"
  sr_tx :: bytes
  sr_rx :: bytes
  sr_link :: "handle option"
  sr_dual_channel :: "'x dual_channel"
  sr_negotiator :: "'x dual_negotiator"
  sr_startup_timestamp_ms :: timestamp_ms
  sr_send_miss :: u8
  sr_online :: bool
  sr_local_faulted :: bool
  sr_local_single_mode :: bool
  sr_peer_faulted :: bool
  sr_peer_single_mode :: u8
  sr_peer_online_now :: bool
  sr_peer_last_rx_cycle :: u32
  sr_peer_snapshot_valid :: bool
  sr_peer_snapshot_cycle :: u32
  sr_peer_unresponsive :: bool
  sr_lost_peer_while_online :: bool
  sr_takeover_confirmed :: bool
  sr_takeover_confirm_cycle :: u32
  sr_both_standby_cycles :: u32
  sr_last_reason :: site_role_reason
  sr_last_reason_set :: bool
  sr_standby_healthy :: bool
  sr_standby_last_try_cycle :: u32
  sr_standby_rx_cycle :: u32
  sr_standby_warm :: bool
  sr_cycle :: u32
  sr_sibling_mismatch :: u8
  sr_challenge_valid :: bool
  sr_challenge :: u32
  sr_challenge_cycle :: u32
  sr_challenge_fail_reported :: bool
  sr_sibling :: site_role_sibling
  sr_sibling_rx_cycle :: u32
  sr_sibling_verdict :: sibling_verdict

section \<open>Frames\<close>

definition state_size :: "'x site_role \<Rightarrow> nat" where
  "state_size rs = cf_frame_size (sr_cfg rs) - FRAME_OVERHEAD"

definition encode_frame ::
  "'x site_role \<Rightarrow> bool \<Rightarrow> bool \<Rightarrow> u32 \<Rightarrow> bool \<Rightarrow> 'x rte \<Rightarrow> 'x site_role \<times> 'x rte" where
  "encode_frame rs faulted single_mode cycle live s =
    (let fs = cf_frame_size (sr_cfg rs);
         out = (sr_tx rs)[0 := if faulted then 1 else 0,
                          1 := if single_mode then SINGLE_MODE_SINGLE else SINGLE_MODE_DUAL];
         buf = snd (rte_buffer_init (Some \<lparr>bf_data = None, bf_capacity = 0, bf_length = 0\<rparr>) (Some out) fs);
         buf = snd (rte_buffer_set_length buf 2);
         buf = snd (rte_buffer_write_u32_le buf (if live then cycle else 0));
         out = (case buf of None \<Rightarrow> out
                | Some b \<Rightarrow> (case bf_data b of None \<Rightarrow> out | Some d \<Rightarrow> d));
         out = copy_at FRAME_STATE_OFFSET (replicate (state_size rs) 0) out;
         (out, x) = (case cf_encode_state (sr_cfg rs) of
              None \<Rightarrow> (out, ext s)
            | Some f \<Rightarrow>
                let (_, region, x) = f (take (state_size rs) (drop FRAME_STATE_OFFSET out))
                      (state_size rs) live (ext s)
                in (copy_at FRAME_STATE_OFFSET region out, x));
         out = out[fs - 1 := if live then VALID_MARKER else 0]
     in (rs\<lparr>sr_tx := out\<rparr>, s\<lparr>ext := x\<rparr>))"

section \<open>Role changes\<close>

definition report_change ::
  "'x site_role \<Rightarrow> site_role_change_kind \<Rightarrow> site_role_reason \<Rightarrow> bool \<Rightarrow> 'x rte \<Rightarrow>
    'x site_role \<times> 'x rte" where
  "report_change rs kind reason apply_state s =
    (let change = \<lparr>ch_kind = kind, ch_reason = reason, ch_online = sr_online rs,
           ch_apply_state = apply_state, ch_snapshot_valid = sr_peer_snapshot_valid rs,
           ch_snapshot_cycle = sr_peer_snapshot_cycle rs\<rparr>;
         s1 = (case cf_on_change (sr_cfg rs) of None \<Rightarrow> s | Some f \<Rightarrow> s\<lparr>ext := f change (ext s)\<rparr>)
     in if apply_state \<and> sr_peer_snapshot_valid rs
        then (rs\<lparr>sr_peer_last_rx_cycle := 0, sr_standby_rx_cycle := 0, sr_standby_last_try_cycle := 0\<rparr>, s1)
        else (rs, s1))"

definition promote_to_online ::
  "'x site_role \<Rightarrow> site_role_reason \<Rightarrow> 'x rte \<Rightarrow> 'x site_role \<times> 'x rte" where
  "promote_to_online rs reason s =
    report_change (rs\<lparr>sr_online := True, sr_peer_unresponsive := False, sr_takeover_confirmed := False\<rparr>)
      CHANGE_PROMOTED reason True s"

definition demote_to_standby ::
  "'x site_role \<Rightarrow> site_role_reason \<Rightarrow> 'x rte \<Rightarrow> 'x site_role \<times> 'x rte" where
  "demote_to_standby rs reason s =
    report_change (rs\<lparr>sr_online := False, sr_lost_peer_while_online := False\<rparr>) CHANGE_DEMOTED reason False s"

definition renegotiate_from_deadlock ::
  "'x site_role \<Rightarrow> site_role_reason \<Rightarrow> 'x rte \<Rightarrow> 'x site_role \<times> 'x rte" where
  "renegotiate_from_deadlock rs reason s =
    (let rs1 = rs\<lparr>sr_online := cf_is_west (sr_cfg rs)\<rparr>
     in report_change rs1 CHANGE_RENEGOTIATED reason (sr_online rs1) s)"

section \<open>Link\<close>

text \<open>The callback only writes a console line and a log event.\<close>

definition on_negotiator_state_change :: "'x state_change_callback" where
  "on_negotiator_state_change new_own old_own new_peer old_peer ctx x = x"

definition open_link_once ::
  "'x site_role \<Rightarrow> duration_ms \<Rightarrow> 'x rte \<Rightarrow> rte_status \<times> 'x site_role \<times> 'x rte" where
  "open_link_once rs timeout_ms s =
    (let cfg = sr_cfg rs;
         link_cfg = \<lparr>nc_role = (if cf_listen cfg then NETLINK_LISTEN else NETLINK_CONNECT),
           nc_host = (if cf_listen cfg then None else cf_peer_host cfg), nc_port = cf_port cfg,
           nc_message_size = cf_link_message_size cfg, nc_connect_timeout_ms = timeout_ms,
           nc_rcvbuf_bytes = 0, nc_sndbuf_bytes = 0\<rparr>;
         (status, h, s1) = rte_netlink_open (Some 0) (Some link_cfg) (Some (sr_link rs)) s
     in (status, case h of None \<Rightarrow> rs | Some l \<Rightarrow> rs\<lparr>sr_link := l\<rparr>, s1))"

partial_function (option) connect_retries ::
  "u32 \<Rightarrow> 'x site_role \<Rightarrow> 'x rte \<Rightarrow> (rte_status \<times> 'x site_role \<times> 'x rte) option" where
  "connect_retries waited_ms rs s =
    (if waited_ms < cf_startup_timeout_ms (sr_cfg rs)
     then
       let (status, rs1, s1) = open_link_once rs (cf_connect_timeout_ms (sr_cfg rs)) s
       in if status = STATUS_OK then Some (STATUS_OK, rs1, s1)
          else
            let s2 = (case cf_delay (sr_cfg rs1) of None \<Rightarrow> s1
                      | Some f \<Rightarrow> s1\<lparr>ext := f (cf_connect_retry_ms (sr_cfg rs1)) (ext s1)\<rparr>)
            in connect_retries (waited_ms + cf_connect_retry_ms (sr_cfg rs1)) rs1 s2
     else Some (STATUS_TIMEOUT, rs, s))"

definition open_link_blocking ::
  "'x site_role \<Rightarrow> 'x rte \<Rightarrow> (rte_status \<times> 'x site_role \<times> 'x rte) option" where
  "open_link_blocking rs s =
    (if cf_listen (sr_cfg rs) then Some (open_link_once rs (cf_startup_timeout_ms (sr_cfg rs)) s)
     else connect_retries 0 rs s)"

definition init_channel_and_negotiator ::
  "'x site_role \<Rightarrow> bool \<Rightarrow> 'x rte \<Rightarrow> rte_status \<times> 'x site_role \<times> 'x rte" where
  "init_channel_and_negotiator rs resume_standby s =
    (let cfg = sr_cfg rs;
         dual_cfg = \<lparr>dcc_links = [sr_link rs, None, None, None], dcc_link_count = 1,
           dcc_sender_id = cf_own_id cfg, dcc_expected_peer_id = cf_peer_id cfg,
           dcc_ack_timeout_ms = cf_ack_timeout_ms cfg, dcc_status_callback = None,
           dcc_status_callback_ctx = None\<rparr>;
         (status, dc) = rte_dual_channel_init (Some (sr_dual_channel rs)) (Some dual_cfg);
         rs1 = (case dc of None \<Rightarrow> rs | Some d \<Rightarrow> rs\<lparr>sr_dual_channel := d\<rparr>)
     in if status \<noteq> STATUS_OK then (status, rs1, s)
        else
          let (_, dc2) = rte_dual_channel_set_resync_on_sequence_error (Some (sr_dual_channel rs1)) True;
              rs2 = (case dc2 of None \<Rightarrow> rs1 | Some d \<Rightarrow> rs1\<lparr>sr_dual_channel := d\<rparr>)\<lparr>sr_send_miss := 0\<rparr>;
              ncfg = \<lparr>ngc_channel = Some 0, ngc_own_id = cf_own_id cfg, ngc_peer_id = cf_peer_id cfg,
                ngc_peer_lost_timeout_ms = cf_peer_lost_timeout_ms cfg,
                ngc_state_change_callback = Some on_negotiator_state_change,
                ngc_state_change_callback_ctx = Some 0,
                ngc_resume_own_state = (if sr_online rs2 then DUAL_ONLINE
                  else if resume_standby then DUAL_HOTSTANDBY else DUAL_IDLE),
                ngc_resume_own_startup_timestamp_ms = sr_startup_timestamp_ms rs2\<rparr>;
              (status2, ng, s1) = rte_dual_negotiator_init (Some (sr_negotiator rs2)) (Some ncfg) s;
              rs3 = (case ng of None \<Rightarrow> rs2 | Some n \<Rightarrow> rs2\<lparr>sr_negotiator := n\<rparr>)
          in if status2 \<noteq> STATUS_OK then (status2, rs3, s1)
             else (STATUS_OK,
                   if sr_startup_timestamp_ms rs3 = 0
                   then rs3\<lparr>sr_startup_timestamp_ms :=
                          rte_dual_negotiator_get_own_startup_timestamp_ms (Some (sr_negotiator rs3))\<rparr>
                   else rs3, s1))"

definition close_link :: "'x site_role \<Rightarrow> 'x rte \<Rightarrow> 'x site_role \<times> 'x rte" where
  "close_link rs s =
    (if sr_link rs \<noteq> None
     then let (_, s1) = rte_netlink_close (sr_link rs) s in (rs\<lparr>sr_link := None\<rparr>, s1)
     else (rs, s))"

definition reconnect :: "'x site_role \<Rightarrow> 'x rte \<Rightarrow> rte_status \<times> 'x site_role \<times> 'x rte" where
  "reconnect rs s =
    (let (status, rs1, s1) = open_link_once rs (cf_reconnect_attempt_ms (sr_cfg rs)) s
     in if status \<noteq> STATUS_OK then (status, rs1, s1)
        else
          let (status2, rs2, s2) = init_channel_and_negotiator rs1 False s1
          in if status2 \<noteq> STATUS_OK
             then let (rs3, s3) = close_link rs2 s2 in (status2, rs3, s3)
             else (STATUS_OK, rs2, s2))"

section \<open>Per cycle\<close>

definition send_frame ::
  "'x site_role \<Rightarrow> 'x rte \<Rightarrow> (bool \<times> 'x site_role \<times> 'x rte) option" where
  "send_frame rs s =
    (let (rs1, s1) = encode_frame rs (sr_local_faulted rs) (sr_local_single_mode rs) (sr_cycle rs)
           (sr_online rs) s
     in do {
          (status, _, dc, s2) \<leftarrow> rte_dual_channel_send (Some (sr_dual_channel rs1)) (Some (sr_tx rs1))
            (of_nat (cf_frame_size (sr_cfg rs1))) s1;
          Some (status = STATUS_OK,
                case dc of None \<Rightarrow> rs1 | Some d \<Rightarrow> rs1\<lparr>sr_dual_channel := d\<rparr>, s2)
        })"

text \<open>What a received frame changes, once the dual channel has put it into the buffer.\<close>

definition take_frame :: "'x site_role \<Rightarrow> 'x rte \<Rightarrow> 'x site_role \<times> 'x rte" where
  "take_frame rs s =
    (let fs = cf_frame_size (sr_cfg rs);
         rx = sr_rx rs;
         valid = (rx ! (fs - 1) = VALID_MARKER);
         (st, buf) = rte_buffer_init (Some \<lparr>bf_data = None, bf_capacity = 0, bf_length = 0\<rparr>) (Some rx) fs;
         (decoded, peer_cycle, s1) =
           (if st = STATUS_OK
            then
              let (_, buf1) = rte_buffer_set_length buf fs;
                  (st2, pc) = rte_buffer_read_u32_le buf1 2 (Some 0)
              in if st2 = STATUS_OK
                 then (case cf_receive_state (sr_cfg rs) of
                         None \<Rightarrow> (False, pc, s)
                       | Some f \<Rightarrow>
                           let (ok, x) = f (take (state_size rs) (drop FRAME_STATE_OFFSET rx))
                                 (state_size rs) valid (ext s)
                           in (ok, pc, s\<lparr>ext := x\<rparr>))
                 else (False, pc, s)
            else (False, Some 0, s))
     in if decoded
        then
          let peer_faulted = (rx ! 0 \<noteq> 0);
              rs1 = rs\<lparr>sr_peer_faulted := peer_faulted, sr_peer_single_mode := rx ! 1,
                sr_peer_unresponsive := False, sr_takeover_confirmed := False,
                sr_peer_last_rx_cycle := sr_cycle rs, sr_peer_online_now := (valid \<and> \<not> peer_faulted)\<rparr>
          in (if valid
              then rs1\<lparr>sr_peer_snapshot_cycle := (case peer_cycle of None \<Rightarrow> 0 | Some c \<Rightarrow> c),
                     sr_peer_snapshot_valid := True, sr_standby_rx_cycle := sr_cycle rs1\<rparr>
              else rs1, s1)
        else (rs, s1))"

definition receive_frame :: "'x site_role \<Rightarrow> 'x rte \<Rightarrow> rte_status \<times> 'x site_role \<times> 'x rte" where
  "receive_frame rs s =
    (let (status, rx, _, dc, s1) = rte_dual_channel_receive (Some (sr_dual_channel rs)) (Some (sr_rx rs))
           (of_nat (cf_frame_size (sr_cfg rs))) 0 (Some 0) s;
         rs1 = (case dc of None \<Rightarrow> rs | Some d \<Rightarrow> rs\<lparr>sr_dual_channel := d\<rparr>)
                 \<lparr>sr_rx := (case rx of None \<Rightarrow> sr_rx rs | Some b \<Rightarrow> b)\<rparr>
     in if status = STATUS_OK
        then let (rs2, s2) = take_frame rs1 s1 in (status, rs2, s2)
        else (status, rs1, s1))"

definition handle_send_miss_and_link_teardown ::
  "'x site_role \<Rightarrow> bool \<Rightarrow> rte_status \<Rightarrow> 'x rte \<Rightarrow> 'x site_role \<times> 'x rte" where
  "handle_send_miss_and_link_teardown rs send_ok receive_status s =
    (let rs1 = (if send_ok then rs\<lparr>sr_send_miss := 0\<rparr>
                else if sr_send_miss rs < 255 then rs\<lparr>sr_send_miss := sr_send_miss rs + 1\<rparr>
                else rs)
     in if sr_send_miss rs1 \<ge> cf_send_miss_threshold (sr_cfg rs1) \<or>
           (receive_status \<noteq> STATUS_OK \<and> receive_status \<noteq> STATUS_TIMEOUT)
        then
          let rs2 = (if sr_online rs1 then rs1\<lparr>sr_lost_peer_while_online := True\<rparr> else rs1);
              rs3 = (if \<not> sr_online rs2 \<and> \<not> sr_local_faulted rs2 \<and> \<not> sr_peer_unresponsive rs2
                     then rs2\<lparr>sr_peer_unresponsive := True\<rparr> else rs2);
              (rs4, s1) = close_link rs3 s
          in (rs4\<lparr>sr_send_miss := 0\<rparr>, s1)
        else (rs1, s))"

definition update_standby_warmth :: "'x site_role \<Rightarrow> 'x site_role" where
  "update_standby_warmth rs =
    (let rs1 = (if rte_site_role_standby_data_stale (cf_standby_sync (sr_cfg rs)) (sr_online rs)
                     (sr_peer_snapshot_valid rs) (sr_cycle rs) (sr_standby_rx_cycle rs)
                then rs\<lparr>sr_peer_snapshot_valid := False\<rparr> else rs)
     in if cf_standby_sync (sr_cfg rs1) \<and> \<not> sr_online rs1
        then rs1\<lparr>sr_standby_warm := sr_peer_snapshot_valid rs1\<rparr>
        else rs1\<lparr>sr_standby_warm := False\<rparr>)"

section \<open>The A/B sibling\<close>

definition poll_sibling_source :: "'x site_role \<Rightarrow> u32 \<Rightarrow> 'x rte \<Rightarrow> 'x site_role \<times> 'x rte" where
  "poll_sibling_source rs cycle s =
    (case cf_sibling_source (sr_cfg rs) of None \<Rightarrow> (rs, s)
     | Some f \<Rightarrow>
         let (fresh, sib, x) = f (sr_sibling rs) (ext s);
             rs1 = rs\<lparr>sr_sibling := sib\<rparr>
         in (if fresh then rs1\<lparr>sr_sibling_rx_cycle := cycle\<rparr> else rs1, s\<lparr>ext := x\<rparr>))"

definition sibling_reachable :: "'x site_role \<Rightarrow> bool" where
  "sibling_reachable rs \<longleftrightarrow> sib_known (sr_sibling rs) \<and> sr_cycle rs \<ge> sr_sibling_rx_cycle rs \<and>
     sr_cycle rs - sr_sibling_rx_cycle rs \<le> cf_sibling_reach_cycles (sr_cfg rs)"

definition fill_sibling_facts ::
  "'x site_role \<Rightarrow> site_role_local \<Rightarrow> site_role_input \<Rightarrow> site_role_input" where
  "fill_sibling_facts rs local i =
    (if cf_sibling_source (sr_cfg rs) \<noteq> None
     then i\<lparr>in_sibling_online := (sib_known (sr_sibling rs) \<and> sib_online (sr_sibling rs)),
            in_sibling_ready := (sib_known (sr_sibling rs) \<and> sib_ready (sr_sibling rs)),
            in_sibling_reachable := sibling_reachable rs\<rparr>
     else i\<lparr>in_sibling_online := lo_sibling_online local, in_sibling_ready := lo_sibling_ready local,
            in_sibling_reachable := lo_sibling_reachable local\<rparr>)"

definition rte_site_role_check_sibling ::
  "'x site_role option \<Rightarrow> bool \<Rightarrow> site_role_sibling option \<Rightarrow> sibling_verdict \<times> 'x site_role option" where
  "rte_site_role_check_sibling role own_single_mode sibling =
    (case (role, sibling) of
       (Some rs, Some sib) \<Rightarrow>
         if \<not> sib_known sib then (SIBLING_UNKNOWN, role)
         else if sib_online sib = sr_online rs \<and> sib_single_mode sib = own_single_mode
         then (SIBLING_AGREE, Some (rs\<lparr>sr_sibling_mismatch := 0\<rparr>))
         else
           let rs1 = (if sr_sibling_mismatch rs < 255
                      then rs\<lparr>sr_sibling_mismatch := sr_sibling_mismatch rs + 1\<rparr> else rs)
           in if sr_sibling_mismatch rs1 < SIBLING_MISMATCH_LIMIT then (SIBLING_PENDING, Some rs1)
              else (SIBLING_FAULT, Some rs1)
     | _ \<Rightarrow> (SIBLING_UNKNOWN, role))"

definition check_sibling_after_decision :: "'x site_role \<Rightarrow> site_role_local \<Rightarrow> 'x site_role" where
  "check_sibling_after_decision rs local =
    (if cf_sibling_source (sr_cfg rs) \<noteq> None
     then
       let (v, r) = rte_site_role_check_sibling (Some rs) (lo_single_mode local) (Some (sr_sibling rs))
       in (case r of None \<Rightarrow> rs | Some rs1 \<Rightarrow> rs1)\<lparr>sr_sibling_verdict := v\<rparr>
     else rs)"

text \<open>The new service state and \<^verbatim>\<open>resume_standby\<close>.\<close>

definition startup_role_from_sibling :: "'x site_role \<Rightarrow> 'x site_role \<times> bool" where
  "startup_role_from_sibling rs =
    (if cf_sibling_source (sr_cfg rs) = None then (rs, False)
     else if sib_known (sr_sibling rs)
     then (rs\<lparr>sr_online := sib_online (sr_sibling rs)\<rparr>, \<not> sib_online (sr_sibling rs))
     else (rs, False))"

section \<open>The decision\<close>

definition build_decision_input :: "'x site_role \<Rightarrow> site_role_local \<Rightarrow> site_role_input" where
  "build_decision_input rs local = fill_sibling_facts rs local
    \<lparr>in_is_online = sr_online rs, in_own_faulted = sr_local_faulted rs,
     in_is_west = cf_is_west (sr_cfg rs), in_link_up = (sr_link rs \<noteq> None),
     in_peer_unresponsive = sr_peer_unresponsive rs, in_cycle = sr_cycle rs,
     in_peer_last_rx_cycle = sr_peer_last_rx_cycle rs, in_peer_online_now = sr_peer_online_now rs,
     in_peer_faulted = sr_peer_faulted rs, in_peer_snapshot_valid = sr_peer_snapshot_valid rs,
     in_sibling_online = False, in_takeover_confirmed = sr_takeover_confirmed rs,
     in_takeover_confirm_cycle = sr_takeover_confirm_cycle rs,
     in_lost_peer_while_online = sr_lost_peer_while_online rs,
     in_both_standby_cycles = sr_both_standby_cycles rs, in_own_ready = lo_own_ready local,
     in_sibling_ready = False, in_sibling_reachable = False\<rparr>"

definition reason_changed :: "'x site_role \<Rightarrow> site_role_reason \<Rightarrow> bool" where
  "reason_changed rs reason \<longleftrightarrow> \<not> sr_last_reason_set rs \<or> sr_last_reason rs \<noteq> reason"

definition set_reason :: "'x site_role \<Rightarrow> site_role_reason \<Rightarrow> 'x site_role" where
  "set_reason rs reason = rs\<lparr>sr_last_reason := reason, sr_last_reason_set := True\<rparr>"

definition run_site_role_decision ::
  "'x site_role \<Rightarrow> site_role_local \<Rightarrow> 'x rte \<Rightarrow> 'x site_role \<times> 'x rte" where
  "run_site_role_decision rs local s =
    (let d = rte_site_role_decide (build_decision_input rs local);
         rs1 = rs\<lparr>sr_both_standby_cycles := d_both_standby_cycles d\<rparr>
     in case d_action d of
          ACTION_PROMOTE \<Rightarrow>
            let (rs2, s1) = promote_to_online rs1 (d_reason d) s in (set_reason rs2 (d_reason d), s1)
        | ACTION_DEMOTE \<Rightarrow>
            let (rs2, s1) = demote_to_standby rs1 (d_reason d) s in (set_reason rs2 (d_reason d), s1)
        | ACTION_RENEGOTIATE \<Rightarrow>
            let (rs2, s1) = renegotiate_from_deadlock rs1 (d_reason d) s in (set_reason rs2 (d_reason d), s1)
        | ACTION_ALARM \<Rightarrow> (if reason_changed rs1 (d_reason d) then set_reason rs1 (d_reason d) else rs1, s)
        | ACTION_WAIT \<Rightarrow> (if reason_changed rs1 (d_reason d) then set_reason rs1 (d_reason d) else rs1, s)
        | ACTION_NONE \<Rightarrow> (rs1, s))"

definition take_local :: "'x site_role \<Rightarrow> site_role_local \<Rightarrow> 'x site_role" where
  "take_local rs local =
    rs\<lparr>sr_local_faulted := lo_faulted local, sr_local_single_mode := lo_single_mode local\<rparr>"

section \<open>Takeover confirmation\<close>

definition read_u32_le :: "bytes \<Rightarrow> nat \<Rightarrow> u32" where
  "read_u32_le b i = ucast (b ! i) OR push_bit 8 (ucast (b ! (i + 1))) OR
     push_bit 16 (ucast (b ! (i + 2))) OR push_bit 24 (ucast (b ! (i + 3)))"

definition challenge_lifetime :: "'x site_role \<Rightarrow> u32" where
  "challenge_lifetime rs =
    (if cf_challenge_lifetime_cycles (sr_cfg rs) \<noteq> 0 then cf_challenge_lifetime_cycles (sr_cfg rs)
     else CHALLENGE_LIFETIME_DEFAULT_CYCLES)"

definition draw_challenge :: "'x site_role \<Rightarrow> u32 \<Rightarrow> 'x rte \<Rightarrow> 'x site_role \<times> 'x rte" where
  "draw_challenge rs cycle s =
    (let rs1 = rs\<lparr>sr_challenge_cycle := cycle\<rparr>;
         (status, b, s1) = rte_random_fill (Some [0, 0, 0, 0]) 4 s
     in if status \<noteq> STATUS_OK
        then (rs1\<lparr>sr_challenge_valid := False, sr_challenge_fail_reported := True\<rparr>, s1)
        else (rs1\<lparr>sr_challenge := read_u32_le (case b of None \<Rightarrow> [0, 0, 0, 0] | Some c \<Rightarrow> c) 0,
                sr_challenge_valid := True, sr_challenge_fail_reported := False\<rparr>, s1))"

definition refresh_challenge :: "'x site_role \<Rightarrow> u32 \<Rightarrow> 'x rte \<Rightarrow> 'x site_role \<times> 'x rte" where
  "refresh_challenge rs cycle s =
    (if cf_verify_mac (sr_cfg rs) = None then (rs, s)
     else if \<not> sr_challenge_valid rs \<or> cycle < sr_challenge_cycle rs \<or>
             cycle - sr_challenge_cycle rs \<ge> challenge_lifetime rs
     then draw_challenge rs cycle s
     else (rs, s))"

definition record_takeover_confirmation :: "'x site_role \<Rightarrow> u32 \<Rightarrow> 'x site_role" where
  "record_takeover_confirmation rs cycle =
    rs\<lparr>sr_takeover_confirmed := True, sr_takeover_confirm_cycle := cycle\<rparr>"

definition check_token ::
  "'x site_role \<Rightarrow> bytes option \<Rightarrow> nat \<Rightarrow> 'x rte \<Rightarrow> token_result \<times> 'x rte" where
  "check_token rs token token_len s =
    (case cf_verify_mac (sr_cfg rs) of
       None \<Rightarrow> (TOKEN_NOT_CONFIGURED, s)
     | Some verify \<Rightarrow>
         (case token of
            None \<Rightarrow> (TOKEN_BAD_FORMAT, s)
          | Some t \<Rightarrow>
              if token_len \<noteq> TOKEN_LEN \<or> t ! 0 \<noteq> TOKEN_VERSION \<or>
                 t ! 1 \<noteq> ucast (cf_own_id (sr_cfg rs) AND 0xFF) \<or> t ! 2 \<noteq> cf_channel_id (sr_cfg rs) \<or>
                 t ! 3 \<noteq> 0 \<or> read_u32_le t 12 \<noteq> 0
              then (TOKEN_BAD_FORMAT, s)
              else if \<not> sr_challenge_valid rs then (TOKEN_NO_CHALLENGE, s)
              else
                let (good, x) = verify t TOKEN_MSG_LEN (drop TOKEN_MSG_LEN t) (ext s);
                    s1 = s\<lparr>ext := x\<rparr>
                in if \<not> good then (TOKEN_BAD_MAC, s1)
                   else if read_u32_le t 4 \<noteq> sr_challenge rs then (TOKEN_STALE_CHALLENGE, s1)
                   else (TOKEN_ACCEPTED, s1)))"

fun token_result_text :: "token_result \<Rightarrow> string" where
  "token_result_text TOKEN_ACCEPTED = ''accepted''"
| "token_result_text TOKEN_IGNORED_ONLINE = ''ignored, already ONLINE''"
| "token_result_text TOKEN_NOT_CONFIGURED = ''no takeover key configured''"
| "token_result_text TOKEN_NO_CHALLENGE = ''no challenge held''"
| "token_result_text TOKEN_BAD_FORMAT = ''bad format''"
| "token_result_text TOKEN_BAD_MAC = ''bad MAC''"
| "token_result_text TOKEN_STALE_CHALLENGE = ''stale challenge''"

section \<open>Operations\<close>

text \<open>The cleared object that \<^verbatim>\<open>rte_mem_set()\<close> leaves.\<close>

definition cleared_negotiator :: "'x dual_negotiator" where
  "cleared_negotiator = \<lparr>ng_channel = None, ng_own_id = 0, ng_peer_id = 0, ng_peer_lost_timeout_ms = 0,
     ng_state_change_callback = None, ng_state_change_callback_ctx = None,
     ng_own_startup_timestamp_ms = 0, ng_own_channel_degraded = False,
     ng_have_peer_startup_timestamp = False, ng_peer_startup_timestamp_ms = 0,
     ng_peer_channel_degraded = False, ng_own_state = DUAL_IDLE, ng_peer_state = DUAL_IDLE,
     ng_have_last_peer_seen = False, ng_last_peer_seen_ms = 0\<rparr>"

definition cleared_site_role :: "'x site_role_config \<Rightarrow> bytes \<Rightarrow> bytes \<Rightarrow> 'x site_role" where
  "cleared_site_role cfg tx rx = \<lparr>sr_cfg = cfg, sr_tx = tx, sr_rx = rx, sr_link = None,
     sr_dual_channel = cleared_channel, sr_negotiator = cleared_negotiator,
     sr_startup_timestamp_ms = 0, sr_send_miss = 0, sr_online = False, sr_local_faulted = False,
     sr_local_single_mode = False, sr_peer_faulted = False, sr_peer_single_mode = 0,
     sr_peer_online_now = False, sr_peer_last_rx_cycle = 0, sr_peer_snapshot_valid = False,
     sr_peer_snapshot_cycle = 0, sr_peer_unresponsive = False, sr_lost_peer_while_online = False,
     sr_takeover_confirmed = False, sr_takeover_confirm_cycle = 0, sr_both_standby_cycles = 0,
     sr_last_reason = REASON_NONE, sr_last_reason_set = False, sr_standby_healthy = False,
     sr_standby_last_try_cycle = 0, sr_standby_rx_cycle = 0, sr_standby_warm = False, sr_cycle = 0,
     sr_sibling_mismatch = 0, sr_challenge_valid = False, sr_challenge = 0, sr_challenge_cycle = 0,
     sr_challenge_fail_reported = False,
     sr_sibling = \<lparr>sib_known = False, sib_online = False, sib_single_mode = False, sib_ready = False\<rparr>,
     sr_sibling_rx_cycle = 0, sr_sibling_verdict = SIBLING_UNKNOWN\<rparr>"

definition config_valid :: "'x site_role_config \<Rightarrow> bool" where
  "config_valid cfg \<longleftrightarrow> cf_tx_buf cfg \<noteq> None \<and> cf_rx_buf cfg \<noteq> None \<and> cf_encode_state cfg \<noteq> None \<and>
     cf_receive_state cfg \<noteq> None \<and> cf_on_change cfg \<noteq> None \<and> cf_frame_size cfg > FRAME_OVERHEAD \<and>
     cf_frame_size cfg \<le> 255 \<and> cf_role_tag cfg \<noteq> None \<and> cf_peer_tag cfg \<noteq> None \<and>
     cf_site_name cfg \<noteq> None \<and> (cf_listen cfg \<or> cf_peer_host cfg \<noteq> None)"

definition rte_site_role_init ::
  "'x site_role option \<Rightarrow> 'x site_role_config option \<Rightarrow> rte_status \<times> 'x site_role option" where
  "rte_site_role_init role config =
    (case (role, config) of
       (Some _, Some cfg) \<Rightarrow>
         if \<not> config_valid cfg then (STATUS_INVALID_PARAM, role)
         else
           let tx = (case cf_tx_buf cfg of None \<Rightarrow> [] | Some b \<Rightarrow> b);
               rx = (case cf_rx_buf cfg of None \<Rightarrow> [] | Some b \<Rightarrow> b);
               rs = (cleared_site_role cfg tx rx)\<lparr>sr_startup_timestamp_ms := cf_startup_timestamp_ms cfg,
                      sr_standby_healthy := True, sr_last_reason_set := True\<rparr>
           in (STATUS_OK, Some
                (if cf_sibling_reach_cycles cfg = 0
                 then rs\<lparr>sr_cfg := cfg\<lparr>cf_sibling_reach_cycles := SIBLING_REACH_DEFAULT_CYCLES\<rparr>\<rparr>
                 else rs))
     | _ \<Rightarrow> (STATUS_INVALID_PARAM, role))"

text \<open>The negotiation at start-up, \<^verbatim>\<open>do ... while\<close>: the last own state and the service.\<close>

definition execute_negotiator ::
  "'x site_role \<Rightarrow> duration_ms \<Rightarrow> 'x rte \<Rightarrow> (rte_status \<times> 'x site_role \<times> 'x rte) option" where
  "execute_negotiator rs t s = do {
     (status, ng, dc, s1) \<leftarrow> rte_dual_negotiator_execute (Some (sr_negotiator rs)) t
       (Some (sr_dual_channel rs)) s;
     let rs1 = (case ng of None \<Rightarrow> rs | Some n \<Rightarrow> rs\<lparr>sr_negotiator := n\<rparr>);
     let rs2 = (case dc of None \<Rightarrow> rs1 | Some d \<Rightarrow> rs1\<lparr>sr_dual_channel := d\<rparr>);
     Some (status, rs2, s1)
   }"

partial_function (option) negotiate_start ::
  "u32 \<Rightarrow> 'x site_role \<Rightarrow> 'x rte \<Rightarrow> (rte_dual_state \<times> 'x site_role \<times> 'x rte) option" where
  "negotiate_start waited_ms rs s =
    Option.bind (execute_negotiator rs (cf_link_poll_ms (sr_cfg rs)) s) (\<lambda>(status, rs1, s1).
      let own_state = rte_dual_negotiator_get_own_state (Some (sr_negotiator rs1));
          waited_ms1 = (if status \<noteq> STATUS_OK \<or> own_state = DUAL_IDLE
                        then waited_ms + cf_link_poll_ms (sr_cfg rs1) else waited_ms)
      in if own_state = DUAL_IDLE \<and> waited_ms1 < cf_startup_timeout_ms (sr_cfg rs1)
         then negotiate_start waited_ms1 rs1 s1
         else Some (own_state, rs1, s1))"

text \<open>Start-up up to the link, which also gives \<^verbatim>\<open>resume_standby\<close>, and from the open link on.\<close>

definition start_prepare :: "'x site_role \<Rightarrow> 'x rte \<Rightarrow> 'x site_role \<times> bool \<times> 'x rte" where
  "start_prepare rs0 s =
    (let rs = rs0\<lparr>sr_standby_healthy := True, sr_standby_last_try_cycle := 0, sr_standby_rx_cycle := 0,
           sr_standby_warm := False\<rparr>;
         (rs1, s1) = (if sr_startup_timestamp_ms rs = 0
           then let (_, now, s1) = rte_timer_now s in (rs\<lparr>sr_startup_timestamp_ms := now\<rparr>, s1)
           else (rs, s));
         (rs2, s2) = poll_sibling_source rs1 0 s1;
         (rs3, resume_standby) = startup_role_from_sibling rs2
     in (rs3, resume_standby, s2))"

definition start_negotiation ::
  "'x site_role \<Rightarrow> bool \<Rightarrow> 'x rte \<Rightarrow> (rte_status \<times> 'x site_role \<times> 'x rte) option" where
  "start_negotiation rs resume_standby s =
    (let (status, rs1, s1) = init_channel_and_negotiator rs resume_standby s
     in if status \<noteq> STATUS_OK
        then let (rs2, s2) = close_link rs1 s1 in Some (status, rs2, s2)
        else do {
          (own_state, rs2, s2) \<leftarrow> negotiate_start 0 rs1 s1;
          if own_state = DUAL_IDLE
          then let (rs3, s3) = close_link rs2 s2 in Some (STATUS_TIMEOUT, rs3, s3)
          else Some (STATUS_OK, rs2\<lparr>sr_online := (own_state = DUAL_ONLINE)\<rparr>, s2)
        })"

definition rte_site_role_start ::
  "'x site_role option \<Rightarrow> 'x rte \<Rightarrow> (rte_status \<times> 'x site_role option \<times> 'x rte) option" where
  "rte_site_role_start role s =
    (case role of None \<Rightarrow> Some (STATUS_INVALID_PARAM, None, s)
     | Some rs \<Rightarrow>
         let (rs1, resume_standby, s1) = start_prepare rs s
         in do {
              (status, rs2, s2) \<leftarrow> open_link_blocking rs1 s1;
              if status \<noteq> STATUS_OK then Some (status, Some rs2, s2)
              else do {
                (status2, rs3, s3) \<leftarrow> start_negotiation rs2 resume_standby s2;
                Some (status2, Some rs3, s3)
              }
            })"

text \<open>The end of a cycle, with and without a link.\<close>

definition decide_and_check :: "'x site_role \<Rightarrow> site_role_local \<Rightarrow> 'x rte \<Rightarrow> 'x site_role \<times> 'x rte" where
  "decide_and_check rs local s =
    (let (rs1, s1) = run_site_role_decision rs local s in (check_sibling_after_decision rs1 local, s1))"

definition rte_site_role_execute ::
  "'x site_role option \<Rightarrow> u32 \<Rightarrow> site_role_local option \<Rightarrow> 'x rte \<Rightarrow>
    ('x site_role option \<times> 'x rte) option" where
  "rte_site_role_execute role cycle local s =
    (case (role, local) of
       (Some rs0, Some lo) \<Rightarrow>
         let rs1 = take_local (rs0\<lparr>sr_cycle := cycle\<rparr>) lo;
             (rs2, s2) = poll_sibling_source rs1 cycle s;
             (rs3, s3) = refresh_challenge rs2 cycle s2;
             (status, rs4, s4) = (if sr_link rs3 = None then reconnect rs3 s3 else (STATUS_OK, rs3, s3))
         in if status \<noteq> STATUS_OK
            then let (rs5, s5) = decide_and_check rs4 lo s4 in Some (Some rs5, s5)
            else do {
              (_, rs5, s5) \<leftarrow> execute_negotiator rs4 0 s4;
              (send_ok, rs6, s6) \<leftarrow> send_frame rs5 s5;
              let (receive_status, rs7, s7) = receive_frame rs6 s6;
              let (rs8, s8) = decide_and_check (update_standby_warmth rs7) lo s7;
              let (rs9, s9) = handle_send_miss_and_link_teardown rs8 send_ok receive_status s8;
              Some (Some rs9, s9)
            }
     | _ \<Rightarrow> Some (role, s))"

fun service_drain :: "nat \<Rightarrow> 'x site_role \<Rightarrow> 'x rte \<Rightarrow> 'x site_role \<times> 'x rte" where
  "service_drain 0 rs s = (rs, s)"
| "service_drain (Suc n) rs s =
    (let (status, rs1, s1) = receive_frame rs s
     in if status \<noteq> STATUS_OK then (rs1, s1) else service_drain n rs1 s1)"

definition rte_site_role_service_link ::
  "'x site_role option \<Rightarrow> u32 \<Rightarrow> 'x rte \<Rightarrow> 'x site_role option \<times> 'x rte" where
  "rte_site_role_service_link role cycle s =
    (case role of None \<Rightarrow> (role, s)
     | Some rs \<Rightarrow>
         if sr_link rs = None then (role, s)
         else let (rs1, s1) = service_drain SERVICE_DRAIN (rs\<lparr>sr_cycle := cycle\<rparr>) s in (Some rs1, s1))"

definition rte_site_role_sync_standby ::
  "'x site_role option \<Rightarrow> u32 \<Rightarrow> site_role_local option \<Rightarrow> 'x rte \<Rightarrow>
    ('x site_role option \<times> 'x rte) option" where
  "rte_site_role_sync_standby role cycle local s =
    (case (role, local) of
       (Some rs0, Some lo) \<Rightarrow>
         let rs1 = take_local rs0 lo;
             link_up = (sr_link rs1 \<noteq> None);
             rs2 = (if cf_standby_sync (sr_cfg rs1) \<and> sr_online rs1 \<and> \<not> link_up
                    then rs1\<lparr>sr_standby_healthy := False\<rparr> else rs1)
         in if \<not> rte_site_role_standby_sync_due (cf_standby_sync (sr_cfg rs2)) (sr_online rs2) link_up
                  (sr_standby_healthy rs2) cycle (sr_standby_last_try_cycle rs2)
            then Some (Some rs2, s)
            else do {
              (ok, rs3, s1) \<leftarrow> send_frame rs2 s;
              Some (Some (if ok then rs3\<lparr>sr_standby_healthy := True\<rparr>
                          else rs3\<lparr>sr_standby_healthy := False, sr_standby_last_try_cycle := cycle\<rparr>), s1)
            }
     | _ \<Rightarrow> Some (role, s))"

definition rte_site_role_on_takeover_confirm :: "'x site_role option \<Rightarrow> u32 \<Rightarrow> 'x site_role option" where
  "rte_site_role_on_takeover_confirm role cycle =
    (case role of None \<Rightarrow> role
     | Some rs \<Rightarrow>
         if cf_verify_mac (sr_cfg rs) \<noteq> None then role
         else if sr_online rs then role
         else Some (record_takeover_confirmation rs cycle))"

definition rte_site_role_on_takeover_token ::
  "'x site_role option \<Rightarrow> u32 \<Rightarrow> bytes option \<Rightarrow> nat \<Rightarrow> 'x rte \<Rightarrow>
    token_result \<times> 'x site_role option \<times> 'x rte" where
  "rte_site_role_on_takeover_token role cycle token token_len s =
    (case role of None \<Rightarrow> (TOKEN_NOT_CONFIGURED, role, s)
     | Some rs \<Rightarrow>
         if cf_verify_mac (sr_cfg rs) \<noteq> None \<and> sr_online rs then (TOKEN_IGNORED_ONLINE, role, s)
         else
           let (result, s1) = check_token rs token token_len s
           in if result = TOKEN_ACCEPTED
              then let (rs1, s2) = draw_challenge (record_takeover_confirmation rs cycle) cycle s1
                   in (result, Some rs1, s2)
              else (result, role, s1))"

definition rte_site_role_takeover_challenge ::
  "'x site_role option \<Rightarrow> u32 option \<Rightarrow> bool \<times> u32 option" where
  "rte_site_role_takeover_challenge role out =
    (case (role, out) of
       (Some rs, Some _) \<Rightarrow> if \<not> sr_challenge_valid rs then (False, out) else (True, Some (sr_challenge rs))
     | _ \<Rightarrow> (False, out))"

definition rte_site_role_note_lost_contact :: "'x site_role option \<Rightarrow> 'x site_role option" where
  "rte_site_role_note_lost_contact role = map_option (sr_lost_peer_while_online_update (\<lambda>_. True)) role"

definition rte_site_role_flush_faulted ::
  "'x site_role option \<Rightarrow> bool \<Rightarrow> 'x rte \<Rightarrow> ('x site_role option \<times> 'x rte) option" where
  "rte_site_role_flush_faulted role single_mode s =
    (case role of None \<Rightarrow> Some (role, s)
     | Some rs \<Rightarrow>
         if sr_link rs = None then Some (role, s)
         else
           let (rs1, s1) = encode_frame rs True single_mode 0 False s
           in do {
                (_, _, dc, s2) \<leftarrow> rte_dual_channel_send (Some (sr_dual_channel rs1)) (Some (sr_tx rs1))
                  (of_nat (cf_frame_size (sr_cfg rs1))) s1;
                Some (Some (case dc of None \<Rightarrow> rs1 | Some d \<Rightarrow> rs1\<lparr>sr_dual_channel := d\<rparr>), s2)
              })"

definition rte_site_role_sibling_verdict :: "'x site_role option \<Rightarrow> sibling_verdict" where
  "rte_site_role_sibling_verdict role =
    (case role of None \<Rightarrow> SIBLING_UNKNOWN | Some rs \<Rightarrow> sr_sibling_verdict rs)"

definition rte_site_role_shutdown :: "'x site_role option \<Rightarrow> 'x rte \<Rightarrow> 'x site_role option \<times> 'x rte" where
  "rte_site_role_shutdown role s =
    (case role of None \<Rightarrow> (role, s) | Some rs \<Rightarrow> let (rs1, s1) = close_link rs s in (Some rs1, s1))"

definition rte_site_role_is_online :: "'x site_role option \<Rightarrow> bool" where
  "rte_site_role_is_online role = (case role of None \<Rightarrow> False | Some rs \<Rightarrow> sr_online rs)"

definition rte_site_role_get_status ::
  "'x site_role option \<Rightarrow> site_role_status option \<Rightarrow> site_role_status option" where
  "rte_site_role_get_status role out =
    (case (role, out) of
       (Some rs, Some _) \<Rightarrow> Some \<lparr>st_online = sr_online rs, st_link_up = (sr_link rs \<noteq> None),
          st_peer_answering = (sr_cycle rs \<ge> sr_peer_last_rx_cycle rs \<and>
            sr_cycle rs - sr_peer_last_rx_cycle rs \<le> 2),
          st_peer_online_now = sr_peer_online_now rs, st_peer_unresponsive = sr_peer_unresponsive rs,
          st_standby_warm = sr_standby_warm rs, st_standby_healthy = sr_standby_healthy rs,
          st_last_reason = sr_last_reason rs\<rparr>
     | _ \<Rightarrow> out)"

definition rte_site_role_get_negotiator_states ::
  "'x site_role option \<Rightarrow> rte_dual_state option \<Rightarrow> rte_dual_state option \<Rightarrow>
    rte_dual_state option \<times> rte_dual_state option" where
  "rte_site_role_get_negotiator_states role own peer =
    (case (role, own, peer) of
       (Some rs, Some _, Some _) \<Rightarrow>
         (Some (rte_dual_negotiator_get_own_state (Some (sr_negotiator rs))),
          Some (rte_dual_negotiator_get_peer_state (Some (sr_negotiator rs))))
     | _ \<Rightarrow> (own, peer))"

end
