(* ===== verification/Site_Role_Safety.thy ===== *)
theory Site_Role_Safety
  imports Site_Role
begin

text \<open>
  What the site-role service guarantees over its operations: who may set the role, what a takeover
  confirmation needs, what start-up next to a sibling gives, and what a frame carries.
\<close>

section \<open>What the steps leave alone\<close>

text \<open>A step that neither confirms a takeover nor changes the configuration.\<close>

definition no_confirmation :: "'x site_role \<Rightarrow> 'x site_role \<Rightarrow> bool" where
  "no_confirmation rs rs' \<longleftrightarrow> sr_cfg rs' = sr_cfg rs \<and>
     (sr_takeover_confirmed rs' \<longrightarrow> sr_takeover_confirmed rs) \<and>
     (sr_last_reason rs' = REASON_DISPATCHER_CONFIRMED \<longrightarrow>
        sr_last_reason rs = REASON_DISPATCHER_CONFIRMED \<or> sr_takeover_confirmed rs)"

text \<open>A step below the decision: it keeps the role as well.\<close>

definition same_role :: "'x site_role \<Rightarrow> 'x site_role \<Rightarrow> bool" where
  "same_role rs rs' \<longleftrightarrow> no_confirmation rs rs' \<and> sr_online rs' = sr_online rs \<and>
     sr_last_reason rs' = sr_last_reason rs"

named_theorems role_steps "what a step of the service keeps"

lemma no_confirmation_refl [simp]: "no_confirmation rs rs"
  by (simp add: no_confirmation_def)

lemma no_confirmation_trans: "no_confirmation a b \<Longrightarrow> no_confirmation b c \<Longrightarrow> no_confirmation a c"
  by (auto simp: no_confirmation_def)

lemma same_role_refl [simp]: "same_role rs rs"
  by (simp add: same_role_def)

lemma same_role_trans: "same_role a b \<Longrightarrow> same_role b c \<Longrightarrow> same_role a c"
  by (simp add: same_role_def no_confirmation_def)

lemma same_role_confirmation: "same_role a b \<Longrightarrow> no_confirmation a b"
  by (simp add: same_role_def)

lemmas role_defs = same_role_def no_confirmation_def

lemma encode_same [role_steps]: "encode_frame rs f m c l s = (rs', s') \<Longrightarrow> same_role rs rs'"
  by (auto simp: encode_frame_def Let_def role_defs split: prod.splits)

lemma open_link_same [role_steps]: "open_link_once rs t s = (st, rs', s') \<Longrightarrow> same_role rs rs'"
  by (auto simp: open_link_once_def Let_def role_defs split: prod.splits option.splits)

lemma close_link_same [role_steps]: "close_link rs s = (rs', s') \<Longrightarrow> same_role rs rs'"
  by (auto simp: close_link_def role_defs split: prod.splits if_splits)

lemma init_channel_same [role_steps]:
  "init_channel_and_negotiator rs r s = (st, rs', s') \<Longrightarrow> same_role rs rs'"
  by (auto simp: init_channel_and_negotiator_def Let_def role_defs
      split: prod.splits option.splits if_splits)

lemma reconnect_same [role_steps]: "reconnect rs s = (st, rs', s') \<Longrightarrow> same_role rs rs'"
  by (auto simp: reconnect_def dest!: open_link_same init_channel_same close_link_same
      split: prod.splits if_splits intro: same_role_trans)

lemma send_same [role_steps]: "send_frame rs s = Some (ok, rs', s') \<Longrightarrow> same_role rs rs'"
  by (auto simp: send_frame_def Let_def role_defs dest!: encode_same
      split: prod.splits option.splits Option.bind_splits)

lemma take_frame_same [role_steps]: "take_frame rs s = (rs', s') \<Longrightarrow> same_role rs rs'"
  by (auto simp: take_frame_def Let_def role_defs split: prod.splits if_splits)

lemma receive_same [role_steps]: "receive_frame rs s = (st, rs', s') \<Longrightarrow> same_role rs rs'"
  by (auto simp: receive_frame_def Let_def role_defs dest!: take_frame_same
      split: prod.splits if_splits option.splits)

lemma teardown_same [role_steps]:
  "handle_send_miss_and_link_teardown rs ok st s = (rs', s') \<Longrightarrow> same_role rs rs'"
  by (auto simp: handle_send_miss_and_link_teardown_def Let_def role_defs dest!: close_link_same
      split: prod.splits if_splits)

lemma warmth_same [role_steps]: "same_role rs (update_standby_warmth rs)"
  by (simp add: update_standby_warmth_def Let_def role_defs)

lemma poll_same [role_steps]: "poll_sibling_source rs c s = (rs', s') \<Longrightarrow> same_role rs rs'"
  by (auto simp: poll_sibling_source_def Let_def role_defs split: prod.splits option.splits if_splits)

lemma draw_same [role_steps]: "draw_challenge rs c s = (rs', s') \<Longrightarrow> same_role rs rs'"
  by (auto simp: draw_challenge_def Let_def role_defs split: prod.splits if_splits)

lemma refresh_same [role_steps]: "refresh_challenge rs c s = (rs', s') \<Longrightarrow> same_role rs rs'"
  by (auto simp: refresh_challenge_def dest: draw_same split: if_splits)

lemma negotiator_same [role_steps]:
  "execute_negotiator rs t s = Some (st, rs', s') \<Longrightarrow> same_role rs rs'"
  by (auto simp: execute_negotiator_def Let_def role_defs split: prod.splits option.splits Option.bind_splits)

lemma take_local_same [role_steps]: "same_role rs (take_local rs lo)"
  by (simp add: take_local_def role_defs)

lemma check_sibling_same: "same_role rs (check_sibling_after_decision rs lo)"
  by (auto simp: check_sibling_after_decision_def rte_site_role_check_sibling_def Let_def role_defs)

lemma service_drain_same: "service_drain n rs s = (rs', s') \<Longrightarrow> same_role rs rs'"
proof (induction n arbitrary: rs s)
  case (Suc n)
  obtain st rs1 s1 where rcv: "receive_frame rs s = (st, rs1, s1)" by (metis prod_cases3)
  with Suc receive_same [OF rcv] show ?case by (auto split: if_splits intro: same_role_trans)
qed simp

section \<open>The decision\<close>

lemma decision_input_simps [simp]:
  "in_is_online (build_decision_input rs lo) = sr_online rs"
  "in_own_faulted (build_decision_input rs lo) = sr_local_faulted rs"
  "in_is_west (build_decision_input rs lo) = cf_is_west (sr_cfg rs)"
  "in_link_up (build_decision_input rs lo) = (sr_link rs \<noteq> None)"
  "in_peer_unresponsive (build_decision_input rs lo) = sr_peer_unresponsive rs"
  "in_cycle (build_decision_input rs lo) = sr_cycle rs"
  "in_peer_faulted (build_decision_input rs lo) = sr_peer_faulted rs"
  "in_takeover_confirmed (build_decision_input rs lo) = sr_takeover_confirmed rs"
  "in_takeover_confirm_cycle (build_decision_input rs lo) = sr_takeover_confirm_cycle rs"
  "in_own_ready (build_decision_input rs lo) = lo_own_ready lo"
  by (simp_all add: build_decision_input_def fill_sibling_facts_def)

lemma dispatcher_reason_confirmed:
  "d_reason (rte_site_role_decide i) = REASON_DISPATCHER_CONFIRMED \<Longrightarrow> in_takeover_confirmed i"
  by (auto simp: decide_unfold rte_site_role_takeover_allowed_def split: if_splits)

lemma report_change_keeps:
  "report_change rs k r a s = (rs', s') \<Longrightarrow> sr_online rs' = sr_online rs \<and> sr_cfg rs' = sr_cfg rs \<and>
    sr_takeover_confirmed rs' = sr_takeover_confirmed rs \<and> sr_last_reason rs' = sr_last_reason rs"
  by (auto simp: report_change_def Let_def split: if_splits)

lemma decision_result:
  assumes "run_site_role_decision rs lo s = (rs', s')"
  shows "no_confirmation rs rs' \<and> sr_online rs' =
    (case d_action (rte_site_role_decide (build_decision_input rs lo)) of
       ACTION_PROMOTE \<Rightarrow> True | ACTION_DEMOTE \<Rightarrow> False | ACTION_RENEGOTIATE \<Rightarrow> cf_is_west (sr_cfg rs)
     | _ \<Rightarrow> sr_online rs)"
  using assms dispatcher_reason_confirmed [of "build_decision_input rs lo"]
  by (cases "d_action (rte_site_role_decide (build_decision_input rs lo))")
    (auto simp: run_site_role_decision_def Let_def set_reason_def no_confirmation_def
      promote_to_online_def demote_to_standby_def renegotiate_from_deadlock_def
      dest!: report_change_keeps split: prod.splits if_splits)

lemma decide_and_check_result:
  assumes "decide_and_check rs lo s = (rs', s')"
  shows "no_confirmation rs rs' \<and> sr_online rs' =
    (case d_action (rte_site_role_decide (build_decision_input rs lo)) of
       ACTION_PROMOTE \<Rightarrow> True | ACTION_DEMOTE \<Rightarrow> False | ACTION_RENEGOTIATE \<Rightarrow> cf_is_west (sr_cfg rs)
     | _ \<Rightarrow> sr_online rs)"
proof -
  obtain rs1 s1 where run: "run_site_role_decision rs lo s = (rs1, s1)" by fastforce
  with assms have "rs' = check_sibling_after_decision rs1 lo" by (simp add: decide_and_check_def)
  with decision_result [OF run] check_sibling_same [of rs1 lo] show ?thesis
    by (auto simp: role_defs)
qed

section \<open>The operations\<close>

text \<open>A cycle up to the decision, and the decision.\<close>

lemma execute_cases:
  assumes "rte_site_role_execute (Some rs) c (Some lo) s = Some (role', s')"
  obtains rs1 s1 rs2 s2 rs3 where "same_role rs rs1" "decide_and_check rs1 lo s1 = (rs2, s2)"
    "same_role rs2 rs3" "role' = Some rs3"
proof -
  obtain rs2 s2 where poll: "poll_sibling_source (take_local (rs\<lparr>sr_cycle := c\<rparr>) lo) c s = (rs2, s2)"
    by fastforce
  obtain rs3 s3 where refr: "refresh_challenge rs2 c s2 = (rs3, s3)" by fastforce
  obtain st rs4 s4 where link: "(if sr_link rs3 = None then reconnect rs3 s3 else (STATUS_OK, rs3, s3)) =
      (st, rs4, s4)" by (metis prod_cases3)
  have "same_role rs (take_local (rs\<lparr>sr_cycle := c\<rparr>) lo)" by (simp add: take_local_def role_defs)
  with poll_same [OF poll] refresh_same [OF refr] have "same_role rs rs3" by (blast intro: same_role_trans)
  moreover have "same_role rs3 rs4" using link by (auto dest: reconnect_same split: if_splits)
  ultimately have same4: "same_role rs rs4" by (rule same_role_trans)
  show thesis
  proof (cases "st = STATUS_OK")
    case False
    obtain rs5 s5 where dec: "decide_and_check rs4 lo s4 = (rs5, s5)" by fastforce
    with assms False have "role' = Some rs5"
      by (simp add: rte_site_role_execute_def poll refr link)
    with that same4 dec show ?thesis by (metis same_role_refl)
  next
    case True
    obtain st5 rs5 s5 where neg: "execute_negotiator rs4 0 s4 = Some (st5, rs5, s5)"
      using assms True by (auto simp: rte_site_role_execute_def poll refr link split: Option.bind_splits)
    obtain ok rs6 s6 where snd: "send_frame rs5 s5 = Some (ok, rs6, s6)"
      using assms True by (auto simp: rte_site_role_execute_def poll refr link neg split: Option.bind_splits)
    obtain st7 rs7 s7 where rcv: "receive_frame rs6 s6 = (st7, rs7, s7)" by (metis prod_cases3)
    obtain rs8 s8 where dec: "decide_and_check (update_standby_warmth rs7) lo s7 = (rs8, s8)" by fastforce
    obtain rs9 s9 where tear: "handle_send_miss_and_link_teardown rs8 ok st7 s8 = (rs9, s9)" by fastforce
    have "role' = Some rs9"
      using assms True by (simp add: rte_site_role_execute_def poll refr link neg snd rcv dec tear)
    moreover have "same_role rs (update_standby_warmth rs7)"
      using same4 negotiator_same [OF neg] send_same [OF snd] receive_same [OF rcv] warmth_same
      by (metis same_role_trans)
    ultimately show ?thesis using that dec teardown_same [OF tear] by blast
  qed
qed

lemma execute_confirmation:
  "rte_site_role_execute (Some rs) c (Some lo) s = Some (Some rs', s') \<Longrightarrow> no_confirmation rs rs'"
  by (erule execute_cases) (auto dest!: decide_and_check_result same_role_confirmation
      intro: no_confirmation_trans)

text \<open>What the two start loops keep is what one round of them keeps.\<close>

lemma negotiate_start_keeps:
  assumes "negotiate_start w rs s = Some y"
    and trans: "\<And>a b c. P a b \<Longrightarrow> P b c \<Longrightarrow> P a c"
    and step: "\<And>rs t s st rs' s'. execute_negotiator rs t s = Some (st, rs', s') \<Longrightarrow> P rs rs'"
  shows "P rs (fst (snd y))"
proof (rule negotiate_start.raw_induct [OF _ assms(1), where P = "\<lambda>w rs s y. P rs (fst (snd y))"])
  fix rec w rs s y
  assume hyp: "\<And>w rs s y. rec w rs s = Some y \<Longrightarrow> P rs (fst (snd y))"
    and body: "Option.bind (execute_negotiator rs (cf_link_poll_ms (sr_cfg rs)) s) (\<lambda>(status, rs1, s1).
      let own_state = rte_dual_negotiator_get_own_state (Some (sr_negotiator rs1));
          waited_ms1 = (if status \<noteq> STATUS_OK \<or> own_state = DUAL_IDLE
                        then w + cf_link_poll_ms (sr_cfg rs1) else w)
      in if own_state = DUAL_IDLE \<and> waited_ms1 < cf_startup_timeout_ms (sr_cfg rs1)
         then rec waited_ms1 rs1 s1
         else Some (own_state, rs1, s1)) = Some y"
  obtain st rs1 s1 where neg: "execute_negotiator rs (cf_link_poll_ms (sr_cfg rs)) s = Some (st, rs1, s1)"
    using body by (auto split: Option.bind_splits)
  note same = step [OF neg]
  from body neg consider w1 where "rec w1 rs1 s1 = Some y" | "fst (snd y) = rs1"
    by (auto simp: Let_def split: if_splits)
  then show "P rs (fst (snd y))"
  proof cases
    case 1
    from trans [OF same hyp [OF 1]] show ?thesis .
  qed (use same in simp_all)
qed

lemma connect_retries_keeps:
  assumes "connect_retries w rs s = Some y"
    and refl: "\<And>a. P a a" and trans: "\<And>a b c. P a b \<Longrightarrow> P b c \<Longrightarrow> P a c"
    and step: "\<And>rs t s st rs' s'. open_link_once rs t s = (st, rs', s') \<Longrightarrow> P rs rs'"
  shows "P rs (fst (snd y))"
proof (rule connect_retries.raw_induct [OF _ assms(1), where P = "\<lambda>w rs s y. P rs (fst (snd y))"])
  fix rec w rs s y
  assume hyp: "\<And>w rs s y. rec w rs s = Some y \<Longrightarrow> P rs (fst (snd y))"
    and body: "(if w < cf_startup_timeout_ms (sr_cfg rs)
     then
       let (status, rs1, s1) = open_link_once rs (cf_connect_timeout_ms (sr_cfg rs)) s
       in if status = STATUS_OK then Some (STATUS_OK, rs1, s1)
          else
            let s2 = (case cf_delay (sr_cfg rs1) of None \<Rightarrow> s1
                      | Some f \<Rightarrow> s1\<lparr>ext := f (cf_connect_retry_ms (sr_cfg rs1)) (ext s1)\<rparr>)
            in rec (w + cf_connect_retry_ms (sr_cfg rs1)) rs1 s2
     else Some (STATUS_TIMEOUT, rs, s)) = Some y"
  obtain st rs1 s1 where opn: "open_link_once rs (cf_connect_timeout_ms (sr_cfg rs)) s = (st, rs1, s1)"
    by (metis prod_cases3)
  note same = step [OF opn]
  consider w1 s2 where "rec w1 rs1 s2 = Some y" | "fst (snd y) = rs1" | "fst (snd y) = rs"
    using body unfolding opn Let_def split_conv by (auto split: if_splits)
  then show "P rs (fst (snd y))"
  proof cases
    case 1
    from trans [OF same hyp [OF 1]] show ?thesis .
  qed (use same refl in simp_all)
qed

lemma negotiate_start_same: "negotiate_start w rs s = Some y \<Longrightarrow> same_role rs (fst (snd y))"
  by (rule negotiate_start_keeps) (auto intro: negotiator_same same_role_trans)

lemma connect_retries_same: "connect_retries w rs s = Some y \<Longrightarrow> same_role rs (fst (snd y))"
  by (rule connect_retries_keeps) (auto intro: open_link_same same_role_trans)

lemma open_blocking_same: "open_link_blocking rs s = Some (st, rs', s') \<Longrightarrow> same_role rs rs'"
  by (auto simp: open_link_blocking_def dest: open_link_same connect_retries_same split: if_splits)

lemma prepare_confirmation:
  "start_prepare rs s = (rs', r, s') \<Longrightarrow> no_confirmation rs rs'"
  by (auto simp: start_prepare_def Let_def startup_role_from_sibling_def role_defs dest!: poll_same
      split: prod.splits if_splits)

lemma start_negotiation_confirmation:
  assumes "start_negotiation rs r s = Some (st, rs', s')"
  shows "no_confirmation rs rs'"
proof -
  obtain st1 rs1 s1 where ini: "init_channel_and_negotiator rs r s = (st1, rs1, s1)" by (metis prod_cases3)
  note c1 = same_role_confirmation [OF init_channel_same [OF ini]]
  have "no_confirmation rs1 rs'"
  proof (cases "st1 = STATUS_OK")
    case False
    with assms show ?thesis
      by (auto simp: start_negotiation_def ini dest: close_link_same same_role_confirmation split: prod.splits)
  next
    case True
    then obtain own rs2 s2 where neg: "negotiate_start 0 rs1 s1 = Some (own, rs2, s2)"
      using assms by (auto simp: start_negotiation_def ini split: Option.bind_splits)
    have "no_confirmation rs2 rs'"
      using assms True
      by (auto simp: start_negotiation_def ini neg role_defs dest!: close_link_same
          split: prod.splits if_splits)
    with negotiate_start_same [OF neg] show ?thesis
      by (auto dest: same_role_confirmation intro: no_confirmation_trans)
  qed
  with c1 show ?thesis by (rule no_confirmation_trans)
qed

lemma start_confirmation:
  assumes "rte_site_role_start (Some rs) s = Some (st, Some rs', s')"
  shows "no_confirmation rs rs'"
proof -
  obtain rs1 r s1 where prep: "start_prepare rs s = (rs1, r, s1)" by (metis prod_cases3)
  obtain st2 rs2 s2 where opn: "open_link_blocking rs1 s1 = Some (st2, rs2, s2)"
    using assms by (auto simp: rte_site_role_start_def prep split: Option.bind_splits)
  have "no_confirmation rs2 rs'"
    using assms by (auto simp: rte_site_role_start_def prep opn dest: start_negotiation_confirmation
        split: Option.bind_splits if_splits)
  with prepare_confirmation [OF prep] same_role_confirmation [OF open_blocking_same [OF opn]]
  show ?thesis by (blast intro: no_confirmation_trans)
qed

lemma service_confirmation:
  "rte_site_role_service_link (Some rs) c s = (Some rs', s') \<Longrightarrow> no_confirmation rs rs'"
  by (auto simp: rte_site_role_service_link_def role_defs dest!: service_drain_same
      split: prod.splits if_splits)

lemma sync_confirmation:
  assumes "rte_site_role_sync_standby (Some rs) c (Some lo) s = Some (Some rs', s')"
  shows "no_confirmation rs rs'"
proof -
  let ?rs1 = "take_local rs lo"
  let ?rs2 = "if cf_standby_sync (sr_cfg ?rs1) \<and> sr_online ?rs1 \<and> sr_link ?rs1 = None
    then ?rs1\<lparr>sr_standby_healthy := False\<rparr> else ?rs1"
  have "same_role rs ?rs2" by (simp add: take_local_def role_defs)
  moreover have "no_confirmation ?rs2 rs'"
    using assms
    by (auto simp: rte_site_role_sync_standby_def Let_def role_defs dest!: send_same
        split: if_splits Option.bind_splits)
  ultimately show ?thesis by (blast intro: no_confirmation_trans same_role_confirmation)
qed

lemma flush_confirmation:
  "rte_site_role_flush_faulted (Some rs) m s = Some (Some rs', s') \<Longrightarrow> no_confirmation rs rs'"
  by (auto simp: rte_site_role_flush_faulted_def role_defs dest!: encode_same
      split: prod.splits if_splits Option.bind_splits option.splits)

lemma token_confirmation:
  assumes "rte_site_role_on_takeover_token (Some rs) c t n s = (res, Some rs', s')"
  shows "sr_cfg rs' = sr_cfg rs \<and> (res \<noteq> TOKEN_ACCEPTED \<longrightarrow> rs' = rs)"
  using assms
  by (auto simp: rte_site_role_on_takeover_token_def record_takeover_confirmation_def role_defs
      dest!: draw_same split: prod.splits if_splits)

section \<open>Runs of the service\<close>

text \<open>
  Any sequence of the operations of the service, the platform and the application doing anything in
  between. The number counts the accepted tokens.
\<close>

inductive site_role_run :: "'x site_role \<Rightarrow> nat \<Rightarrow> 'x site_role \<Rightarrow> bool" for rs where
  init: "site_role_run rs 0 rs"
| start: "site_role_run rs n r \<Longrightarrow> rte_site_role_start (Some r) s = Some (st, Some r', s') \<Longrightarrow>
    site_role_run rs n r'"
| execute: "site_role_run rs n r \<Longrightarrow>
    rte_site_role_execute (Some r) c (Some lo) s = Some (Some r', s') \<Longrightarrow> site_role_run rs n r'"
| service: "site_role_run rs n r \<Longrightarrow> rte_site_role_service_link (Some r) c s = (Some r', s') \<Longrightarrow>
    site_role_run rs n r'"
| sync: "site_role_run rs n r \<Longrightarrow>
    rte_site_role_sync_standby (Some r) c (Some lo) s = Some (Some r', s') \<Longrightarrow> site_role_run rs n r'"
| confirm: "site_role_run rs n r \<Longrightarrow> rte_site_role_on_takeover_confirm (Some r) c = Some r' \<Longrightarrow>
    site_role_run rs n r'"
| token: "site_role_run rs n r \<Longrightarrow>
    rte_site_role_on_takeover_token (Some r) c t k s = (res, Some r', s') \<Longrightarrow>
    site_role_run rs (if res = TOKEN_ACCEPTED then Suc n else n) r'"
| note_lost: "site_role_run rs n r \<Longrightarrow> rte_site_role_note_lost_contact (Some r) = Some r' \<Longrightarrow>
    site_role_run rs n r'"
| flush: "site_role_run rs n r \<Longrightarrow> rte_site_role_flush_faulted (Some r) m s = Some (Some r', s') \<Longrightarrow>
    site_role_run rs n r'"
| check: "site_role_run rs n r \<Longrightarrow> rte_site_role_check_sibling (Some r) m sib = (v, Some r') \<Longrightarrow>
    site_role_run rs n r'"
| shutdown: "site_role_run rs n r \<Longrightarrow> rte_site_role_shutdown (Some r) s = (Some r', s') \<Longrightarrow>
    site_role_run rs n r'"

lemma run_unconfirmed:
  assumes "site_role_run rs n rs'" "cf_verify_mac (sr_cfg rs) \<noteq> None" "\<not> sr_takeover_confirmed rs"
  shows "sr_cfg rs' = sr_cfg rs \<and> (n = 0 \<longrightarrow> \<not> sr_takeover_confirmed rs' \<and>
    (sr_last_reason rs' = REASON_DISPATCHER_CONFIRMED \<longrightarrow>
       sr_last_reason rs = REASON_DISPATCHER_CONFIRMED))"
  using assms
proof (induction rule: site_role_run.induct)
  case (confirm n r c r')
  then show ?case by (auto simp: rte_site_role_on_takeover_confirm_def split: if_splits)
next
  case (token n r c t k s res r' s')
  then show ?case using token_confirmation [OF token.hyps(2)] by auto
next
  case (check n r m sib v r')
  then show ?case
    by (auto simp: rte_site_role_check_sibling_def Let_def split: option.splits if_splits)
next
  case (shutdown n r s r' s')
  then show ?case
    by (auto simp: rte_site_role_shutdown_def role_defs dest!: close_link_same split: prod.splits)
next
  case (note_lost n r r')
  then show ?case by (auto simp: rte_site_role_note_lost_contact_def)
qed (auto simp: no_confirmation_def dest!: start_confirmation execute_confirmation
      service_confirmation sync_confirmation flush_confirmation)

section \<open>Facts for the decision\<close>

text \<open>What a STANDBY site without a link decides.\<close>

lemma linkless_promotion:
  assumes "\<not> in_link_up i" "\<not> in_is_online i"
  shows "d_action (rte_site_role_decide i) = ACTION_PROMOTE \<longleftrightarrow>
      \<not> in_own_faulted i \<and>
      (in_peer_faulted i \<or> takeover_due i \<or> in_sibling_online i \<and> 2 \<le> in_both_standby_cycles i + 1 \<and>
        \<not> (in_peer_online_now i \<and> peer_answering i)) \<and> pair_ready_to_promote i"
    and "d_action (rte_site_role_decide i) = ACTION_RENEGOTIATE \<longleftrightarrow> in_own_faulted i \<and> in_peer_faulted i"
    and "takeover_due i \<longleftrightarrow> \<not> in_own_faulted i \<and> in_takeover_confirmed i \<and> in_peer_unresponsive i \<and>
      unat (in_takeover_confirm_cycle i) \<le> unat (in_cycle i) \<and>
      unat (in_cycle i) \<le> unat (in_takeover_confirm_cycle i) + 120"
proof -
  have due: "takeover_due i \<Longrightarrow> \<not> in_own_faulted i" by (simp add: takeover_due_iff)
  show "d_action (rte_site_role_decide i) = ACTION_PROMOTE \<longleftrightarrow>
      \<not> in_own_faulted i \<and>
      (in_peer_faulted i \<or> takeover_due i \<or> in_sibling_online i \<and> 2 \<le> in_both_standby_cycles i + 1 \<and>
        \<not> (in_peer_online_now i \<and> peer_answering i)) \<and> pair_ready_to_promote i"
    using assms due
    by (auto simp: rte_site_role_decide_def decide_rules_promote_iff both_standby_def sibling_ahead_def Let_def)
  show "d_action (rte_site_role_decide i) = ACTION_RENEGOTIATE \<longleftrightarrow> in_own_faulted i \<and> in_peer_faulted i"
    using assms by (auto simp: rte_site_role_decide_def decide_rules_eq both_standby_def Let_def)
  show "takeover_due i \<longleftrightarrow> \<not> in_own_faulted i \<and> in_takeover_confirmed i \<and> in_peer_unresponsive i \<and>
      unat (in_takeover_confirm_cycle i) \<le> unat (in_cycle i) \<and>
      unat (in_cycle i) \<le> unat (in_takeover_confirm_cycle i) + 120"
    using assms by (auto simp: takeover_due_iff)
qed

end
