(* ===== verification/Site_Role_Challenge.thy ===== *)
theory Site_Role_Challenge
  imports Site_Role_Safety
begin

text \<open>
  The challenge of the takeover protocol: only \<^verbatim>\<open>refresh_challenge()\<close> and an accepted token replace it, both
  by a draw from the platform's random source, and a run whose draws avoid a number never holds that
  number as its challenge again.
\<close>

section \<open>What keeps the challenge\<close>

definition same_challenge :: "'x site_role \<Rightarrow> 'x site_role \<Rightarrow> bool" where
  "same_challenge rs rs' \<longleftrightarrow> sr_challenge_valid rs' = sr_challenge_valid rs \<and>
     sr_challenge rs' = sr_challenge rs"

lemma same_challenge_refl [simp]: "same_challenge rs rs"
  by (simp add: same_challenge_def)

lemma same_challenge_trans: "same_challenge a b \<Longrightarrow> same_challenge b c \<Longrightarrow> same_challenge a c"
  by (simp add: same_challenge_def)

lemma encode_challenge: "encode_frame rs f m c l s = (rs', s') \<Longrightarrow> same_challenge rs rs'"
  by (auto simp: encode_frame_def Let_def same_challenge_def split: prod.splits)

lemma open_link_challenge: "open_link_once rs t s = (st, rs', s') \<Longrightarrow> same_challenge rs rs'"
  by (auto simp: open_link_once_def Let_def same_challenge_def split: prod.splits option.splits)

lemma close_link_challenge: "close_link rs s = (rs', s') \<Longrightarrow> same_challenge rs rs'"
  by (auto simp: close_link_def same_challenge_def split: prod.splits if_splits)

lemma init_channel_challenge:
  "init_channel_and_negotiator rs r s = (st, rs', s') \<Longrightarrow> same_challenge rs rs'"
  by (auto simp: init_channel_and_negotiator_def Let_def same_challenge_def
      split: prod.splits option.splits if_splits)

lemma reconnect_challenge: "reconnect rs s = (st, rs', s') \<Longrightarrow> same_challenge rs rs'"
  by (auto simp: reconnect_def
      dest!: open_link_challenge init_channel_challenge close_link_challenge
      split: prod.splits if_splits intro: same_challenge_trans)

lemma send_challenge: "send_frame rs s = Some (ok, rs', s') \<Longrightarrow> same_challenge rs rs'"
  by (auto simp: send_frame_def Let_def same_challenge_def dest!: encode_challenge
      split: prod.splits option.splits Option.bind_splits)

lemma take_frame_challenge: "take_frame rs s = (rs', s') \<Longrightarrow> same_challenge rs rs'"
  by (auto simp: take_frame_def Let_def same_challenge_def split: prod.splits if_splits)

lemma receive_challenge: "receive_frame rs s = (st, rs', s') \<Longrightarrow> same_challenge rs rs'"
  by (auto simp: receive_frame_def Let_def same_challenge_def dest!: take_frame_challenge
      split: prod.splits if_splits option.splits)

lemma teardown_challenge:
  "handle_send_miss_and_link_teardown rs ok st s = (rs', s') \<Longrightarrow> same_challenge rs rs'"
  by (auto simp: handle_send_miss_and_link_teardown_def Let_def same_challenge_def
      dest!: close_link_challenge split: prod.splits if_splits)

lemma warmth_challenge: "same_challenge rs (update_standby_warmth rs)"
  by (simp add: update_standby_warmth_def Let_def same_challenge_def)

lemma poll_challenge: "poll_sibling_source rs c s = (rs', s') \<Longrightarrow> same_challenge rs rs'"
  by (auto simp: poll_sibling_source_def Let_def same_challenge_def
      split: prod.splits option.splits if_splits)

lemma negotiator_challenge:
  "execute_negotiator rs t s = Some (st, rs', s') \<Longrightarrow> same_challenge rs rs'"
  by (auto simp: execute_negotiator_def Let_def same_challenge_def
      split: prod.splits option.splits Option.bind_splits)

lemma take_local_challenge: "same_challenge rs (take_local rs lo)"
  by (simp add: take_local_def same_challenge_def)

lemma check_sibling_challenge: "same_challenge rs (check_sibling_after_decision rs lo)"
  by (auto simp: check_sibling_after_decision_def rte_site_role_check_sibling_def Let_def
      same_challenge_def)

lemma service_drain_challenge: "service_drain n rs s = (rs', s') \<Longrightarrow> same_challenge rs rs'"
proof (induction n arbitrary: rs s)
  case (Suc n)
  obtain st rs1 s1 where rcv: "receive_frame rs s = (st, rs1, s1)" by (metis prod_cases3)
  with Suc receive_challenge [OF rcv] show ?case
    by (auto split: if_splits intro: same_challenge_trans)
qed simp

lemma report_change_challenge: "report_change rs k r a s = (rs', s') \<Longrightarrow> same_challenge rs rs'"
  by (auto simp: report_change_def Let_def same_challenge_def split: if_splits)

lemma decide_challenge:
  assumes "decide_and_check rs lo s = (rs', s')"
  shows "same_challenge rs rs'"
proof -
  obtain rs1 s1 where run: "run_site_role_decision rs lo s = (rs1, s1)" by fastforce
  then have "same_challenge rs rs1"
    by (auto simp: run_site_role_decision_def Let_def set_reason_def same_challenge_def
        promote_to_online_def demote_to_standby_def renegotiate_from_deadlock_def
        dest!: report_change_challenge split: prod.splits if_splits site_role_action.splits)
  with assms run check_sibling_challenge [of rs1 lo] show ?thesis
    by (auto simp: decide_and_check_def intro: same_challenge_trans)
qed

section \<open>The start\<close>

lemma negotiate_start_challenge:
  "negotiate_start w rs s = Some y \<Longrightarrow> same_challenge rs (fst (snd y))"
  by (rule negotiate_start_keeps) (auto intro: negotiator_challenge same_challenge_trans)

lemma connect_retries_challenge:
  "connect_retries w rs s = Some y \<Longrightarrow> same_challenge rs (fst (snd y))"
  by (rule connect_retries_keeps) (auto intro: open_link_challenge same_challenge_trans)

lemma open_blocking_challenge: "open_link_blocking rs s = Some (st, rs', s') \<Longrightarrow> same_challenge rs rs'"
  by (auto simp: open_link_blocking_def dest: open_link_challenge connect_retries_challenge
      split: if_splits)

lemma prepare_challenge: "start_prepare rs s = (rs', r, s') \<Longrightarrow> same_challenge rs rs'"
  by (auto simp: start_prepare_def Let_def startup_role_from_sibling_def same_challenge_def
      dest!: poll_challenge split: prod.splits if_splits)

lemma start_negotiation_challenge:
  assumes "start_negotiation rs r s = Some (st, rs', s')"
  shows "same_challenge rs rs'"
proof -
  obtain st1 rs1 s1 where ini: "init_channel_and_negotiator rs r s = (st1, rs1, s1)" by (metis prod_cases3)
  have "same_challenge rs1 rs'"
  proof (cases "st1 = STATUS_OK")
    case False
    with assms show ?thesis
      by (auto simp: start_negotiation_def ini dest: close_link_challenge split: prod.splits)
  next
    case True
    then obtain own rs2 s2 where neg: "negotiate_start 0 rs1 s1 = Some (own, rs2, s2)"
      using assms by (auto simp: start_negotiation_def ini split: Option.bind_splits)
    have "same_challenge rs2 rs'"
      using assms True
      by (auto simp: start_negotiation_def ini neg same_challenge_def dest!: close_link_challenge
          split: prod.splits if_splits)
    with negotiate_start_challenge [OF neg] show ?thesis by (auto intro: same_challenge_trans)
  qed
  with init_channel_challenge [OF ini] show ?thesis by (rule same_challenge_trans)
qed

lemma start_challenge:
  assumes "rte_site_role_start (Some rs) s = Some (st, Some rs', s')"
  shows "same_challenge rs rs'"
proof -
  obtain rs1 r s1 where prep: "start_prepare rs s = (rs1, r, s1)" by (metis prod_cases3)
  obtain st2 rs2 s2 where opn: "open_link_blocking rs1 s1 = Some (st2, rs2, s2)"
    using assms by (auto simp: rte_site_role_start_def prep split: Option.bind_splits)
  have "same_challenge rs2 rs'"
    using assms by (auto simp: rte_site_role_start_def prep opn dest: start_negotiation_challenge
        split: Option.bind_splits if_splits)
  with prepare_challenge [OF prep] open_blocking_challenge [OF opn]
  show ?thesis by (blast intro: same_challenge_trans)
qed

section \<open>The draws\<close>

text \<open>The next draw from this platform fails or gives another number.\<close>

definition draws_other :: "u32 \<Rightarrow> 'x rte \<Rightarrow> bool" where
  "draws_other n s = (case rte_random_fill (Some [0, 0, 0, 0]) 4 s of
     (status, b, _) \<Rightarrow> status = STATUS_OK \<longrightarrow> read_u32_le (the b) 0 \<noteq> n)"

definition avoids :: "u32 \<Rightarrow> 'x site_role \<Rightarrow> bool" where
  "avoids n rs \<longleftrightarrow> (sr_challenge_valid rs \<longrightarrow> sr_challenge rs \<noteq> n)"

lemma same_challenge_avoids: "same_challenge rs rs' \<Longrightarrow> avoids n rs \<Longrightarrow> avoids n rs'"
  by (simp add: same_challenge_def avoids_def)

lemma random_gives: "rte_random_fill (Some b0) n s = (st, b, s') \<Longrightarrow> \<exists>b1. b = Some b1"
  by (auto simp: rte_random_fill_def split: if_splits option.splits prod.splits)

text \<open>What a draw leaves: the number drawn, in force from this cycle on, or no challenge at all.\<close>

lemma draw_result:
  assumes "draw_challenge rs c s = (rs', s')" "rte_random_fill (Some [0, 0, 0, 0]) 4 s = (st, Some b, s1)"
  shows "s' = s1 \<and> sr_challenge_cycle rs' = c \<and> (sr_challenge_valid rs' \<longleftrightarrow> st = STATUS_OK) \<and>
    (st = STATUS_OK \<longrightarrow> sr_challenge rs' = read_u32_le b 0)"
  using assms by (auto simp: draw_challenge_def Let_def split: if_splits)

lemma draw_avoids:
  assumes "draw_challenge rs c s = (rs', s')" "draws_other n s"
  shows "avoids n rs'"
proof -
  obtain st b s1 where rnd: "rte_random_fill (Some [0, 0, 0, 0]) 4 s = (st, b, s1)" by (metis prod_cases3)
  then obtain b1 where "b = Some b1" using random_gives by blast
  with rnd draw_result [OF assms(1)] assms(2) show ?thesis by (auto simp: avoids_def draws_other_def)
qed

lemma refresh_avoids:
  "refresh_challenge rs c s = (rs', s') \<Longrightarrow> draws_other n s \<Longrightarrow> avoids n rs \<Longrightarrow> avoids n rs'"
  by (auto simp: refresh_challenge_def dest: draw_avoids split: if_splits)

text \<open>A cycle draws after it has asked its sibling source, and nothing else in it touches the challenge.\<close>

lemma execute_avoids:
  assumes "rte_site_role_execute (Some rs) c (Some lo) s = Some (Some rs', s')"
    and "draws_other n (snd (poll_sibling_source (take_local (rs\<lparr>sr_cycle := c\<rparr>) lo) c s))" "avoids n rs"
  shows "avoids n rs'"
proof -
  obtain rs2 s2 where poll: "poll_sibling_source (take_local (rs\<lparr>sr_cycle := c\<rparr>) lo) c s = (rs2, s2)"
    by fastforce
  obtain rs3 s3 where refr: "refresh_challenge rs2 c s2 = (rs3, s3)" by fastforce
  obtain st rs4 s4 where link: "(if sr_link rs3 = None then reconnect rs3 s3 else (STATUS_OK, rs3, s3)) =
      (st, rs4, s4)" by (metis prod_cases3)
  have "same_challenge rs (take_local (rs\<lparr>sr_cycle := c\<rparr>) lo)"
    by (simp add: take_local_def same_challenge_def)
  with poll_challenge [OF poll] assms(3) have "avoids n rs2"
    by (blast intro: same_challenge_avoids)
  with refr assms(2) poll have av3: "avoids n rs3" by (auto intro: refresh_avoids)
  have "same_challenge rs3 rs4" using link by (auto dest: reconnect_challenge split: if_splits)
  with av3 have av4: "avoids n rs4" by (rule same_challenge_avoids [rotated])
  have "same_challenge rs4 rs'"
  proof (cases "st = STATUS_OK")
    case False
    with assms(1) show ?thesis
      by (auto simp: rte_site_role_execute_def poll refr link dest: decide_challenge split: prod.splits)
  next
    case True
    obtain st5 rs5 s5 where neg: "execute_negotiator rs4 0 s4 = Some (st5, rs5, s5)"
      using assms True by (auto simp: rte_site_role_execute_def poll refr link split: Option.bind_splits)
    obtain ok rs6 s6 where snd: "send_frame rs5 s5 = Some (ok, rs6, s6)"
      using assms True by (auto simp: rte_site_role_execute_def poll refr link neg split: Option.bind_splits)
    obtain st7 rs7 s7 where rcv: "receive_frame rs6 s6 = (st7, rs7, s7)" by (metis prod_cases3)
    obtain rs8 s8 where dec: "decide_and_check (update_standby_warmth rs7) lo s7 = (rs8, s8)" by fastforce
    obtain rs9 s9 where tear: "handle_send_miss_and_link_teardown rs8 ok st7 s8 = (rs9, s9)" by fastforce
    have "rs' = rs9"
      using assms True by (simp add: rte_site_role_execute_def poll refr link neg snd rcv dec tear)
    with negotiator_challenge [OF neg] send_challenge [OF snd] receive_challenge [OF rcv]
      warmth_challenge [of rs7] decide_challenge [OF dec] teardown_challenge [OF tear]
    show ?thesis by (metis same_challenge_trans)
  qed
  with av4 show ?thesis by (rule same_challenge_avoids [rotated])
qed

lemma token_avoids:
  assumes "rte_site_role_on_takeover_token (Some rs) c t k s = (res, Some rs', s')"
    and "draws_other n (snd (check_token rs t k s))" "avoids n rs"
  shows "avoids n rs'"
  using assms by (auto simp: rte_site_role_on_takeover_token_def dest: draw_avoids
      split: prod.splits if_splits)

section \<open>Runs that draw other numbers\<close>

text \<open>
  Any sequence of the operations of the service, with anything else in between, in which no draw of the
  service gives the number \<^verbatim>\<open>n\<close>; the service may also be initialised anew.
\<close>

inductive renewed_run :: "u32 \<Rightarrow> 'x site_role \<Rightarrow> 'x site_role \<Rightarrow> bool" for n rs where
  none: "renewed_run n rs rs"
| reinit: "renewed_run n rs r \<Longrightarrow> rte_site_role_init (Some r) (Some cfg) = (st, Some r') \<Longrightarrow>
    renewed_run n rs r'"
| start: "renewed_run n rs r \<Longrightarrow> rte_site_role_start (Some r) s = Some (st, Some r', s') \<Longrightarrow>
    renewed_run n rs r'"
| execute: "renewed_run n rs r \<Longrightarrow>
    draws_other n (snd (poll_sibling_source (take_local (r\<lparr>sr_cycle := c\<rparr>) lo) c s)) \<Longrightarrow>
    rte_site_role_execute (Some r) c (Some lo) s = Some (Some r', s') \<Longrightarrow> renewed_run n rs r'"
| service: "renewed_run n rs r \<Longrightarrow> rte_site_role_service_link (Some r) c s = (Some r', s') \<Longrightarrow>
    renewed_run n rs r'"
| sync: "renewed_run n rs r \<Longrightarrow>
    rte_site_role_sync_standby (Some r) c (Some lo) s = Some (Some r', s') \<Longrightarrow> renewed_run n rs r'"
| confirm: "renewed_run n rs r \<Longrightarrow> rte_site_role_on_takeover_confirm (Some r) c = Some r' \<Longrightarrow>
    renewed_run n rs r'"
| token: "renewed_run n rs r \<Longrightarrow> draws_other n (snd (check_token r t k s)) \<Longrightarrow>
    rte_site_role_on_takeover_token (Some r) c t k s = (res, Some r', s') \<Longrightarrow> renewed_run n rs r'"
| note_lost: "renewed_run n rs r \<Longrightarrow> rte_site_role_note_lost_contact (Some r) = Some r' \<Longrightarrow>
    renewed_run n rs r'"
| flush: "renewed_run n rs r \<Longrightarrow> rte_site_role_flush_faulted (Some r) m s = Some (Some r', s') \<Longrightarrow>
    renewed_run n rs r'"
| check: "renewed_run n rs r \<Longrightarrow> rte_site_role_check_sibling (Some r) m sib = (v, Some r') \<Longrightarrow>
    renewed_run n rs r'"
| shutdown: "renewed_run n rs r \<Longrightarrow> rte_site_role_shutdown (Some r) s = (Some r', s') \<Longrightarrow>
    renewed_run n rs r'"

lemma init_avoids:
  "rte_site_role_init (Some r) (Some cfg) = (st, Some r') \<Longrightarrow> avoids n r \<Longrightarrow> avoids n r'"
  by (auto simp: rte_site_role_init_def cleared_site_role_def avoids_def Let_def split: if_splits)

lemma service_challenge:
  "rte_site_role_service_link (Some rs) c s = (Some rs', s') \<Longrightarrow> same_challenge rs rs'"
  by (auto simp: rte_site_role_service_link_def same_challenge_def dest!: service_drain_challenge
      split: prod.splits if_splits)

lemma sync_challenge:
  assumes "rte_site_role_sync_standby (Some rs) c (Some lo) s = Some (Some rs', s')"
  shows "same_challenge rs rs'"
proof -
  let ?rs1 = "take_local rs lo"
  let ?rs2 = "if cf_standby_sync (sr_cfg ?rs1) \<and> sr_online ?rs1 \<and> sr_link ?rs1 = None
    then ?rs1\<lparr>sr_standby_healthy := False\<rparr> else ?rs1"
  have "same_challenge rs ?rs2" by (simp add: take_local_def same_challenge_def)
  moreover have "same_challenge ?rs2 rs'"
    using assms
    by (auto simp: rte_site_role_sync_standby_def Let_def same_challenge_def dest!: send_challenge
        split: if_splits Option.bind_splits)
  ultimately show ?thesis by (rule same_challenge_trans)
qed

lemma flush_challenge:
  "rte_site_role_flush_faulted (Some rs) m s = Some (Some rs', s') \<Longrightarrow> same_challenge rs rs'"
  by (auto simp: rte_site_role_flush_faulted_def same_challenge_def dest!: encode_challenge
      split: prod.splits if_splits Option.bind_splits option.splits)

lemma confirm_challenge:
  "rte_site_role_on_takeover_confirm (Some rs) c = Some rs' \<Longrightarrow> same_challenge rs rs'"
  by (auto simp: rte_site_role_on_takeover_confirm_def record_takeover_confirmation_def
      same_challenge_def split: if_splits)

lemma note_lost_challenge:
  "rte_site_role_note_lost_contact (Some rs) = Some rs' \<Longrightarrow> same_challenge rs rs'"
  by (auto simp: rte_site_role_note_lost_contact_def same_challenge_def)

lemma check_challenge:
  "rte_site_role_check_sibling (Some rs) m sib = (v, Some rs') \<Longrightarrow> same_challenge rs rs'"
  by (auto simp: rte_site_role_check_sibling_def Let_def same_challenge_def
      split: option.splits if_splits)

lemma shutdown_challenge:
  "rte_site_role_shutdown (Some rs) s = (Some rs', s') \<Longrightarrow> same_challenge rs rs'"
  by (auto simp: rte_site_role_shutdown_def dest!: close_link_challenge split: prod.splits)

lemma renewed_run_avoids: "renewed_run n rs r \<Longrightarrow> avoids n rs \<Longrightarrow> avoids n r"
proof (induction rule: renewed_run.induct)
  case (reinit r cfg st r')
  then show ?case by (auto intro: init_avoids)
next
  case (execute r c lo s r' s')
  then show ?case by (auto intro: execute_avoids)
next
  case (token r t k s c res r' s')
  then show ?case by (auto intro: token_avoids)
qed (auto intro: same_challenge_avoids dest: start_challenge service_challenge sync_challenge
      confirm_challenge note_lost_challenge flush_challenge check_challenge shutdown_challenge)

text \<open>A token for a number the challenge avoids is refused.\<close>

lemma avoided_token_refused:
  assumes "avoids (read_u32_le t 4) rs"
  shows "fst (rte_site_role_on_takeover_token (Some rs) c (Some t) k s) \<noteq> TOKEN_ACCEPTED"
proof -
  have "fst (check_token rs (Some t) k s) \<noteq> TOKEN_ACCEPTED"
    using assms by (auto simp: check_token_def avoids_def Let_def split: prod.splits option.splits)
  then show ?thesis by (auto simp: rte_site_role_on_takeover_token_def split: prod.splits)
qed

end
