(* ===== verification/Site_Role_Frames.thy ===== *)
theory Site_Role_Frames
  imports Site_Role_Safety
begin

text \<open>
  The frame the site-role service exchanges: its layout on the wire, and what the receiver of a frame
  takes over.
\<close>

section \<open>A sample configuration\<close>

definition sample_role_config :: "'x site_role_config" where
  "sample_role_config = \<lparr>cf_own_id = 0x1A2, cf_peer_id = 7, cf_is_west = True, cf_listen = True,
     cf_peer_host = None, cf_port = 5000, cf_link_message_size = 280, cf_ack_timeout_ms = 50,
     cf_peer_lost_timeout_ms = 1000, cf_reconnect_attempt_ms = 5, cf_startup_timeout_ms = 1000,
     cf_link_poll_ms = 10, cf_connect_retry_ms = 10, cf_connect_timeout_ms = 10,
     cf_send_miss_threshold = 3, cf_standby_sync = True, cf_startup_timestamp_ms = 1,
     cf_frame_size = 16, cf_tx_buf = Some (replicate 16 0), cf_rx_buf = Some (replicate 16 0),
     cf_role_tag = Some ''W'', cf_peer_tag = Some ''E'', cf_site_name = Some ''WEST'',
     cf_sibling_tag = None, cf_encode_state = Some (\<lambda>b n l x. (STATUS_OK, b, x)),
     cf_receive_state = Some (\<lambda>b n v x. (True, x)), cf_on_change = Some (\<lambda>c x. x),
     cf_delay = None, cf_verify_mac = Some (\<lambda>m n mac x. (mac ! 0 = 7, x)), cf_channel_id = 1,
     cf_challenge_lifetime_cycles = 0, cf_sibling_source = None, cf_sibling_reach_cycles = 3\<rparr>"

definition sample_role :: "'x site_role" where
  "sample_role = (cleared_site_role sample_role_config (replicate 16 0) (replicate 16 0))
     \<lparr>sr_startup_timestamp_ms := 1, sr_standby_healthy := True, sr_last_reason_set := True\<rparr>"

lemma sample_role_init:
  "rte_site_role_init (Some r0) (Some sample_role_config) = (STATUS_OK, Some sample_role)"
  by (simp add: rte_site_role_init_def config_valid_def sample_role_def sample_role_config_def
      FRAME_OVERHEAD_def)

section \<open>Frames\<close>

lemma u32_at_2:
  assumes "8 \<le> length out"
  shows "read_value 4 (\<lambda>bs. ucast (bs ! 0) OR push_bit 8 (ucast (bs ! 1)) OR
      push_bit 16 (ucast (bs ! 2)) OR push_bit 24 (ucast (bs ! 3)))
    (Some \<lparr>bf_data = Some (copy_at 2 (le_bytes 4 v) out), bf_capacity = length out,
      bf_length = length out\<rparr>) 2 (Some z) = (STATUS_OK, Some (v :: u32))"
proof -
  have "take 4 (drop 2 (copy_at 2 (le_bytes 4 v) out)) = le_bytes 4 v"
    using slice_copy_at [of 2 out "le_bytes 4 v"] assms by simp
  then show ?thesis using assms u32_le.dec_enc [of v]
    by (simp add: read_value_def rte_buffer_peek_bytes_def)
qed

text \<open>The frame on the wire: header, cycle, state region, marker.\<close>

definition frame_image :: "bool \<Rightarrow> bool \<Rightarrow> u32 \<Rightarrow> bool \<Rightarrow> bytes \<Rightarrow> bytes" where
  "frame_image faulted single_mode cycle live region =
    [if faulted then 1 else 0, if single_mode then SINGLE_MODE_SINGLE else SINGLE_MODE_DUAL] @
    le_bytes 4 (if live then cycle else 0) @ region @ [if live then VALID_MARKER else 0]"

lemma write_cycle:
  assumes "8 \<le> length out"
  shows "snd (rte_buffer_write_u32_le
      (snd (rte_buffer_set_length
        (snd (rte_buffer_init (Some \<lparr>bf_data = None, bf_capacity = 0, bf_length = 0\<rparr>) (Some out)
          (length out))) 2)) v) =
    Some \<lparr>bf_data = Some (copy_at 2 (le_bytes 4 v) out), bf_capacity = length out, bf_length = 6\<rparr>"
proof -
  let ?b = "\<lparr>bf_data = Some out, bf_capacity = length out, bf_length = 2\<rparr>"
  have "wf_buffer ?b" "bf_length ?b + 4 \<le> bf_capacity ?b" using assms by (simp_all add: wf_buffer_def)
  from append_fits [OF this(1) _ this(2), of "le_bytes 4 v"] have
    "rte_buffer_write_u32_le (Some ?b) v = (STATUS_OK, Some (?b\<lparr>bf_data :=
       Some (copy_at 2 (le_bytes 4 v) out), bf_length := 6\<rparr>))"
    unfolding u32_le.wr_appends by auto
  moreover have "rte_buffer_init (Some \<lparr>bf_data = None, bf_capacity = 0, bf_length = 0\<rparr>) (Some out)
      (length out) = (STATUS_OK, Some \<lparr>bf_data = Some out, bf_capacity = length out, bf_length = 0\<rparr>)"
    using assms by (auto simp: rte_buffer_init_def)
  ultimately show ?thesis using assms by (simp add: rte_buffer_set_length_def)
qed

lemma frame_pieces:
  assumes "length tx = n" "7 < n" "length hdr = 2" "length cy = 4" "length region = n - 7"
    and zeros: "length zeros = n - 7"
  shows "(copy_at 6 region (copy_at 6 zeros (copy_at 2 cy (tx[0 := hdr ! 0, 1 := hdr ! 1]))))[n - 1 := m] =
    hdr @ cy @ region @ [m]"
proof -
  obtain a b where hdr: "hdr = [a, b]" using assms(3) by (auto simp: length_Suc_conv numeral_2_eq_2)
  have tx: "tx[0 := hdr ! 0, 1 := hdr ! 1] = hdr @ drop 2 tx"
    using assms(1,2) by (cases tx; cases "tl tx") (auto simp: hdr)
  have c2: "copy_at 2 cy (hdr @ drop 2 tx) = hdr @ cy @ drop 6 tx"
    using assms by (simp add: copy_at_def)
  have last: "drop (n - 1) tx = [tx ! (n - 1)]"
    using assms(1,2) by (metis Cons_nth_drop_Suc One_nat_def Suc_diff_1 diff_less drop_all
        le_refl less_imp_diff_less zero_less_one less_trans zero_less_numeral)
  have z: "copy_at 6 r (hdr @ cy @ drop 6 tx) = hdr @ cy @ r @ [tx ! (n - 1)]" if "length r = n - 7" for r
    using assms that by (simp add: copy_at_def last [simplified])
  have z2: "copy_at 6 region (hdr @ cy @ zeros @ [tx ! (n - 1)]) = hdr @ cy @ region @ [tx ! (n - 1)]"
    using assms zeros by (simp add: copy_at_def)
  have "(hdr @ cy @ region @ [tx ! (n - 1)])[n - 1 := m] = hdr @ cy @ region @ [m]"
  proof -
    have "n - 1 = length (hdr @ cy @ region)" using assms by simp
    then show ?thesis by (metis append.assoc list_update_length)
  qed
  with tx c2 z [OF zeros] z2 show ?thesis by (simp only:)
qed

lemma encode_frame_image:
  assumes "encode_frame rs f m c l s = (rs1, s1)" "length (sr_tx rs) = n" "cf_frame_size (sr_cfg rs) = n"
    and "7 < n" "cf_encode_state (sr_cfg rs) = Some enc"
    and run: "enc (replicate (n - 7) 0) (n - 7) l (ext s) = (st, region, x)" "length region = n - 7"
  shows "rs1 = rs\<lparr>sr_tx := frame_image f m c l region\<rparr> \<and> s1 = s\<lparr>ext := x\<rparr>"
proof -
  let ?h = "[if f then 1 else 0, if m then SINGLE_MODE_SINGLE else SINGLE_MODE_DUAL]"
  let ?c = "le_bytes 4 (if l then c else 0)"
  let ?o = "(sr_tx rs)[0 := ?h ! 0, 1 := ?h ! 1]"
  let ?z = "copy_at 6 (replicate (n - 7) 0) (copy_at 2 ?c ?o)"
  have size: "state_size rs = n - 7" by (simp add: state_size_def FRAME_OVERHEAD_def assms(3))
  have zeroed: "take (n - 7) (drop 6 ?z) = replicate (n - 7) 0"
    using slice_copy_at [of 6 "copy_at 2 ?c ?o" "replicate (n - 7) 0"] assms(2-4) by simp
  have "rs1 = rs\<lparr>sr_tx := (copy_at 6 region ?z)[n - 1 := if l then VALID_MARKER else 0]\<rparr> \<and>
      s1 = s\<lparr>ext := x\<rparr>"
    using assms(1) write_cycle [of ?o "if l then c else 0"] assms(2-5) run zeroed
    by (simp add: encode_frame_def Let_def FRAME_STATE_OFFSET_def size)
  moreover have "(copy_at 6 region ?z)[n - 1 := if l then VALID_MARKER else 0] = frame_image f m c l region"
    using frame_pieces [of "sr_tx rs" n ?h ?c region "replicate (n - 7) 0"
        "if l then VALID_MARKER else 0"] assms(2-4) run(2)
    by (simp add: frame_image_def)
  ultimately show ?thesis by simp
qed

lemma frame_image_fields:
  assumes "length region = n - 7" "7 < n"
  shows "length (frame_image f m c l region) = n"
    "frame_image f m c l region ! 0 = (if f then 1 else 0)"
    "frame_image f m c l region ! 1 = (if m then SINGLE_MODE_SINGLE else SINGLE_MODE_DUAL)"
    "take 4 (drop 2 (frame_image f m c l region)) = le_bytes 4 (if l then c else 0)"
    "take (n - 7) (drop 6 (frame_image f m c l region)) = region"
    "frame_image f m c l region ! (n - 1) = (if l then VALID_MARKER else 0)"
proof -
  show "length (frame_image f m c l region) = n" using assms by (simp add: frame_image_def)
  let ?h = "[if f then 1 else 0, if m then SINGLE_MODE_SINGLE else SINGLE_MODE_DUAL] @
      le_bytes 4 (if l then c else 0) @ region"
  have "frame_image f m c l region = ?h @ [if l then VALID_MARKER else 0]" by (simp add: frame_image_def)
  moreover have "n - 1 = length ?h" using assms by simp
  ultimately show "frame_image f m c l region ! (n - 1) = (if l then VALID_MARKER else 0)"
    by (simp only: nth_append_length)
  show "take (n - 7) (drop 6 (frame_image f m c l region)) = region"
    using assms by (simp add: frame_image_def)
qed (simp_all add: frame_image_def)

lemma take_accepted:
  assumes "sr_rx rs = img" "length img = n" "7 < n" "cf_frame_size (sr_cfg rs) = n"
    and "cf_receive_state (sr_cfg rs) = Some rcv" "take 4 (drop 2 img) = le_bytes 4 v"
    and "(img ! (n - 1) = VALID_MARKER) = l"
    and "rcv (take (n - 7) (drop 6 img)) (n - 7) l (ext s) = (True, x)"
  shows "take_frame rs s =
    (let rs1 = rs\<lparr>sr_peer_faulted := img ! 0 \<noteq> 0, sr_peer_single_mode := img ! 1,
         sr_peer_unresponsive := False, sr_takeover_confirmed := False,
         sr_peer_last_rx_cycle := sr_cycle rs, sr_peer_online_now := l \<and> img ! 0 = 0\<rparr>
     in if l then rs1\<lparr>sr_peer_snapshot_cycle := v, sr_peer_snapshot_valid := True,
          sr_standby_rx_cycle := sr_cycle rs\<rparr> else rs1, s\<lparr>ext := x\<rparr>)"
proof -
  have buf: "rte_buffer_init (Some \<lparr>bf_data = None, bf_capacity = 0, bf_length = 0\<rparr>) (Some img) n =
      (STATUS_OK, Some \<lparr>bf_data = Some img, bf_capacity = n, bf_length = 0\<rparr>)"
    using assms(3) by (simp add: rte_buffer_init_def)
  have read: "rte_buffer_read_u32_le (Some \<lparr>bf_data = Some img, bf_capacity = n, bf_length = n\<rparr>) 2 (Some 0) =
      (STATUS_OK, Some v)"
    using assms(3,6) u32_le.dec_enc [of v]
    by (simp add: u32_le.rd_decodes read_value_def rte_buffer_peek_bytes_def)
  have size: "state_size rs = n - 7" by (simp add: state_size_def FRAME_OVERHEAD_def assms(4))
  show ?thesis
    by (simp add: take_frame_def Let_def assms(1,4,5,7,8) buf read size
        FRAME_STATE_OFFSET_def rte_buffer_set_length_def assms(7) [simplified])
qed

section \<open>Properties\<close>

text \<open>C7. A frame carries what its sender encoded: the receiver takes over the sender's FAULTED and mode
  flags, hands the application exactly the bytes the sender's application wrote into the zeroed state
  region, and takes the sender's cycle as the snapshot's when the sender is ONLINE; any frame it
  accepts ends the suspicion that the counterpart is silent and voids a confirmed takeover.\<close>

theorem frame_round_trip:
  assumes "encode_frame a f m c l s = (a1, s1)" "length (sr_tx a) = n" "cf_frame_size (sr_cfg a) = n"
    and "cf_encode_state (sr_cfg a) = Some enc" "cf_frame_size (sr_cfg b) = n" "7 < n"
    and "enc (replicate (n - 7) 0) (n - 7) l (ext s) = (st, region, x)" "length region = n - 7"
    and "sr_rx b = sr_tx a1" "cf_receive_state (sr_cfg b) = Some rcv"
    and "rcv region (n - 7) l (ext t) = (True, y)" "take_frame b t = (b1, t1)"
  shows "s1 = s\<lparr>ext := x\<rparr> \<and> t1 = t\<lparr>ext := y\<rparr> \<and> sr_peer_faulted b1 = f \<and>
    sr_peer_single_mode b1 = (if m then SINGLE_MODE_SINGLE else SINGLE_MODE_DUAL) \<and>
    sr_peer_online_now b1 = (l \<and> \<not> f) \<and> sr_peer_last_rx_cycle b1 = sr_cycle b \<and>
    \<not> sr_peer_unresponsive b1 \<and> \<not> sr_takeover_confirmed b1 \<and> sr_online b1 = sr_online b \<and>
    sr_peer_snapshot_valid b1 = (l \<or> sr_peer_snapshot_valid b) \<and>
    sr_peer_snapshot_cycle b1 = (if l then c else sr_peer_snapshot_cycle b)"
proof -
  note image = encode_frame_image [OF assms(1-3,6,4,7,8)]
  note fields = frame_image_fields [OF assms(8,6), of f m c l]
  have rx: "sr_rx b = frame_image f m c l region" using assms(9) image by simp
  have "(frame_image f m c l region ! (n - 1) = VALID_MARKER) = l"
    unfolding fields(6) by (simp add: VALID_MARKER_def)
  moreover have "rcv (take (n - 7) (drop 6 (frame_image f m c l region))) (n - 7) l (ext t) = (True, y)"
    unfolding fields(5) by (rule assms(11))
  ultimately have "take_frame b t =
    (let rs1 = b\<lparr>sr_peer_faulted := f, sr_peer_single_mode :=
           if m then SINGLE_MODE_SINGLE else SINGLE_MODE_DUAL,
         sr_peer_unresponsive := False, sr_takeover_confirmed := False,
         sr_peer_last_rx_cycle := sr_cycle b, sr_peer_online_now := l \<and> \<not> f\<rparr>
     in if l then rs1\<lparr>sr_peer_snapshot_cycle := if l then c else 0, sr_peer_snapshot_valid := True,
          sr_standby_rx_cycle := sr_cycle b\<rparr> else rs1, t\<lparr>ext := y\<rparr>)"
    using take_accepted [OF rx fields(1) assms(6,5,10) fields(4), of l t y]
    unfolding fields(2,3) by simp
  with assms(12) image show ?thesis by (cases l) auto
qed

theorem frame_round_trip_witness:
  "sr_peer_online_now (fst (take_frame (sample_role\<lparr>sr_rx := sr_tx (fst (encode_frame sample_role False True 5
    True (initial_rte ())))\<rparr>) (initial_rte ())))"
proof -
  obtain a1 s1 where enc: "encode_frame sample_role False True 5 True (initial_rte ()) = (a1, s1)" by fastforce
  let ?b = "sample_role\<lparr>sr_rx := sr_tx a1\<rparr> :: unit site_role"
  obtain b1 t1 where take: "take_frame ?b (initial_rte ()) = (b1, t1)" by fastforce
  have "sr_peer_online_now b1 = (True \<and> \<not> False)"
    using frame_round_trip [OF enc, where b = ?b and n = 16 and t = "initial_rte ()" and y = "()" and
        region = "replicate 9 0" and st = STATUS_OK and x = "()"] take
    by (simp add: sample_role_def cleared_site_role_def sample_role_config_def)
  with enc take show ?thesis by simp
qed

end
