(* ===== verification/Site_Role_Takeover.thy ===== *)
theory Site_Role_Takeover
  imports Site_Role_Frames Site_Role_Challenge
begin

text \<open>
  The properties of the site-role service: what an operator's takeover needs, what a site with a
  silent counterpart does, what start-up next to a sibling gives, and what a frame carries.
\<close>

section \<open>Takeover\<close>

lemma init_unconfirmed:
  "rte_site_role_init (Some r0) (Some cfg) = (STATUS_OK, Some rs) \<Longrightarrow> \<not> sr_takeover_confirmed rs \<and>
    sr_last_reason rs = REASON_NONE \<and> cf_verify_mac (sr_cfg rs) = cf_verify_mac cfg"
  by (auto simp: rte_site_role_init_def cleared_site_role_def Let_def split: if_splits)

text \<open>C3. With a key configured, a confirmation can only come from an accepted token: whatever the
  operations and their order since the initialisation, as long as no token was accepted no takeover
  is confirmed, the service has never named the dispatcher as the reason of a decision, and its next
  decision cannot do so either. The plain operator request alone changes nothing.\<close>

theorem takeover_needs_token:
  assumes "rte_site_role_init (Some r0) (Some cfg) = (STATUS_OK, Some rs)" "cf_verify_mac cfg \<noteq> None"
    and "site_role_run rs 0 rs'"
  shows "\<not> sr_takeover_confirmed rs' \<and> sr_last_reason rs' \<noteq> REASON_DISPATCHER_CONFIRMED \<and>
    d_reason (rte_site_role_decide (build_decision_input rs' lo)) \<noteq> REASON_DISPATCHER_CONFIRMED"
  using run_unconfirmed [OF assms(3)] init_unconfirmed [OF assms(1)] assms(2)
    dispatcher_reason_confirmed [of "build_decision_input rs' lo"] by auto

theorem takeover_needs_token_witness:
  "\<not> sr_takeover_confirmed (the (rte_site_role_on_takeover_confirm
    (Some (sample_role :: unit site_role)) 5))"
proof -
  have same: "rte_site_role_on_takeover_confirm (Some (sample_role :: unit site_role)) 5 = Some sample_role"
    by (simp add: rte_site_role_on_takeover_confirm_def sample_role_def cleared_site_role_def
        sample_role_config_def)
  have "cf_verify_mac (sample_role_config :: unit site_role_config) \<noteq> None"
    by (simp add: sample_role_config_def)
  from takeover_needs_token [OF sample_role_init this
      site_role_run.confirm [OF site_role_run.init same]]
  show ?thesis unfolding same by simp
qed

text \<open>The checks an accepted token has passed, and what its acceptance leaves: the confirmation and a draw.\<close>

lemma accepted_token:
  assumes "rte_site_role_on_takeover_token (Some rs) c (Some t) k s = (TOKEN_ACCEPTED, Some rs', s')"
    and "cf_verify_mac (sr_cfg rs) = Some verify"
    and "verify t TOKEN_MSG_LEN (drop TOKEN_MSG_LEN t) (ext s) = (good, x)"
  shows "k = TOKEN_LEN \<and> \<not> sr_online rs \<and> t ! 0 = TOKEN_VERSION \<and>
    t ! 1 = ucast (cf_own_id (sr_cfg rs) AND 0xFF) \<and> t ! 2 = cf_channel_id (sr_cfg rs) \<and>
    sr_challenge_valid rs \<and> read_u32_le t 4 = sr_challenge rs \<and> good"
    and "draw_challenge (record_takeover_confirmation rs c) c (s\<lparr>ext := x\<rparr>) = (rs', s')"
proof -
  obtain res s1 where chk: "check_token rs (Some t) k s = (res, s1)" by fastforce
  have res: "res = TOKEN_ACCEPTED" and off: "\<not> sr_online rs"
    and draw: "draw_challenge (record_takeover_confirmation rs c) c s1 = (rs', s')"
    using assms(1,2) chk by (auto simp: rte_site_role_on_takeover_token_def split: if_splits prod.splits)
  show "k = TOKEN_LEN \<and> \<not> sr_online rs \<and> t ! 0 = TOKEN_VERSION \<and>
      t ! 1 = ucast (cf_own_id (sr_cfg rs) AND 0xFF) \<and> t ! 2 = cf_channel_id (sr_cfg rs) \<and>
      sr_challenge_valid rs \<and> read_u32_le t 4 = sr_challenge rs \<and> good"
    using chk res off by (auto simp: check_token_def assms(2,3) Let_def split: if_splits)
  have "s1 = s\<lparr>ext := x\<rparr>" using chk res by (auto simp: check_token_def assms(2,3) Let_def split: if_splits)
  with draw show "draw_challenge (record_takeover_confirmation rs c) c (s\<lparr>ext := x\<rparr>) = (rs', s')" by simp
qed

lemma accepted_token_key:
  "rte_site_role_on_takeover_token (Some rs) c (Some t) k s = (TOKEN_ACCEPTED, Some rs', s') \<Longrightarrow>
    \<exists>verify. cf_verify_mac (sr_cfg rs) = Some verify"
  by (auto simp: rte_site_role_on_takeover_token_def check_token_def split: option.splits if_splits)

lemma draw_keeps_confirmation:
  "draw_challenge rs c s = (rs', s') \<Longrightarrow> sr_takeover_confirmed rs' = sr_takeover_confirmed rs \<and>
    sr_takeover_confirm_cycle rs' = sr_takeover_confirm_cycle rs"
  by (auto simp: draw_challenge_def Let_def split: prod.splits if_splits)

text \<open>C4. What an accepted token has shown: the service is not ONLINE, the token names this site and
  channel, carries the challenge in force and a MAC over its first 16 bytes that the key accepts. The
  acceptance records the confirmation for this cycle and spends the challenge: the service asks the
  random source for four bytes, the little-endian number they form is the challenge from this cycle on,
  and if the source fails there is no challenge at all. So the token is good once. If that draw failed
  or gave another number than the token's, the same bytes are refused ever after, whatever operations
  of the service follow and in whatever order, for any cycle and platform, as long as no later draw
  gives the token's number.\<close>

theorem token_bound_and_single_use:
  assumes "rte_site_role_on_takeover_token (Some rs) c (Some t) k s = (TOKEN_ACCEPTED, Some rs', s')"
  shows "\<exists>verify x status b. cf_verify_mac (sr_cfg rs) = Some verify \<and> k = TOKEN_LEN \<and>
    \<not> sr_online rs \<and> t ! 0 = TOKEN_VERSION \<and> t ! 1 = ucast (cf_own_id (sr_cfg rs) AND 0xFF) \<and>
    t ! 2 = cf_channel_id (sr_cfg rs) \<and> sr_challenge_valid rs \<and> read_u32_le t 4 = sr_challenge rs \<and>
    verify t TOKEN_MSG_LEN (drop TOKEN_MSG_LEN t) (ext s) = (True, x) \<and>
    sr_takeover_confirmed rs' \<and> sr_takeover_confirm_cycle rs' = c \<and>
    rte_random_fill (Some [0, 0, 0, 0]) 4 (s\<lparr>ext := x\<rparr>) = (status, Some b, s') \<and>
    sr_challenge_cycle rs' = c \<and> sr_challenge_valid rs' = (status = STATUS_OK) \<and>
    (status = STATUS_OK \<longrightarrow> sr_challenge rs' = read_u32_le b 0) \<and>
    (status \<noteq> STATUS_OK \<or> read_u32_le b 0 \<noteq> read_u32_le t 4 \<longrightarrow>
      (\<forall>r c2 k2 s2. renewed_run (read_u32_le t 4) rs' r \<longrightarrow>
        fst (rte_site_role_on_takeover_token (Some r) c2 (Some t) k2 s2) \<noteq> TOKEN_ACCEPTED))"
proof -
  obtain verify where v: "cf_verify_mac (sr_cfg rs) = Some verify" using accepted_token_key [OF assms] by blast
  obtain good x where mac: "verify t TOKEN_MSG_LEN (drop TOKEN_MSG_LEN t) (ext s) = (good, x)" by fastforce
  note facts = accepted_token(1) [OF assms v mac] and draw = accepted_token(2) [OF assms v mac]
  obtain st b0 s1 where rnd: "rte_random_fill (Some [0, 0, 0, 0]) 4 (s\<lparr>ext := x\<rparr>) = (st, b0, s1)"
    by (metis prod_cases3)
  obtain b where b: "b0 = Some b" using random_gives [OF rnd] by blast
  note new = draw_result [OF draw rnd [unfolded b]]
  have used: "fst (rte_site_role_on_takeover_token (Some r) c2 (Some t) k2 s2) \<noteq> TOKEN_ACCEPTED"
    if "st \<noteq> STATUS_OK \<or> read_u32_le b 0 \<noteq> read_u32_le t 4" "renewed_run (read_u32_le t 4) rs' r"
    for r c2 k2 s2
  proof (rule avoided_token_refused [OF renewed_run_avoids [OF that(2)]])
    show "avoids (read_u32_le t 4) rs'" using that(1) new by (auto simp: avoids_def)
  qed
  from facts have "good" by blast
  with v mac facts new used rnd b draw_keeps_confirmation [OF draw] show ?thesis
    by (intro exI [of _ verify] exI [of _ x] exI [of _ st] exI [of _ b])
      (simp add: record_takeover_confirmation_def)
qed

definition sample_token :: bytes where
  "sample_token = [1, 0xA2, 1, 0, 1, 2, 3, 4, 0, 0, 0, 0, 0, 0, 0, 0, 7, 0, 0, 0, 0, 0, 0, 0]"

definition challenged_role :: "'x site_role" where
  "challenged_role = sample_role\<lparr>sr_challenge_valid := True, sr_challenge := 0x04030201\<rparr>"

text \<open>No link to the counterpart can be opened.\<close>

definition link_refused :: "'x rte \<Rightarrow> bool" where
  "link_refused s \<longleftrightarrow> (\<forall>a f st cfg x. s_netlink s = Some a \<longrightarrow> netlink_open a = Some f \<longrightarrow>
     fst (f st cfg x) \<noteq> STATUS_OK \<and> fst (snd (f st cfg x)) = None)"

lemma open_refused:
  assumes "link_refused s" "sr_link rs = None" "open_link_once rs t s = (st, rs', s')"
  shows "st \<noteq> STATUS_OK \<and> rs' = rs"
proof -
  obtain st1 h s1 where opn: "rte_netlink_open (Some 0) (Some
      \<lparr>nc_role = (if cf_listen (sr_cfg rs) then NETLINK_LISTEN else NETLINK_CONNECT),
       nc_host = (if cf_listen (sr_cfg rs) then None else cf_peer_host (sr_cfg rs)),
       nc_port = cf_port (sr_cfg rs), nc_message_size = cf_link_message_size (sr_cfg rs),
       nc_connect_timeout_ms = t, nc_rcvbuf_bytes = 0, nc_sndbuf_bytes = 0\<rparr>) (Some (sr_link rs)) s =
      (st1, h, s1)" by (metis prod_cases3)
  then have "st1 \<noteq> STATUS_OK \<and> h = Some None"
    using assms(1,2)
    by (auto simp: rte_netlink_open_def link_refused_def Let_def
        split: option.splits if_splits prod.splits) (metis fst_conv snd_conv)+
  moreover have "rs\<lparr>sr_link := None\<rparr> = rs" using assms(2) by simp
  ultimately show ?thesis using assms(3) opn by (simp add: open_link_once_def Let_def)
qed

text \<open>A platform whose random source counts.\<close>

definition counting_platform :: "nat rte" where
  "counting_platform = (initial_rte 5)
     \<lparr>s_random := Some \<lparr>random_fill = Some (\<lambda>n x. (STATUS_OK, replicate n (of_nat x), Suc x))\<rparr>\<rparr>"

definition ready_local :: site_role_local where
  "ready_local = \<lparr>lo_faulted = False, lo_single_mode = False, lo_own_ready = True,
     lo_sibling_online = False, lo_sibling_ready = True, lo_sibling_reachable = True\<rparr>"

definition spent_role :: "nat site_role" where
  "spent_role = challenged_role\<lparr>sr_takeover_confirmed := True, sr_takeover_confirm_cycle := 9,
     sr_challenge_cycle := 9, sr_challenge := 0x05050505\<rparr>"

lemmas sample_role_facts = challenged_role_def sample_role_def cleared_site_role_def
  sample_role_config_def initial_rte_def

lemma counting_random:
  "rte_random_fill (Some [0, 0, 0, 0]) 4 (counting_platform\<lparr>ext := n\<rparr>) =
    (STATUS_OK, Some (replicate 4 (of_nat n)), counting_platform\<lparr>ext := Suc n\<rparr>)"
  by (simp add: rte_random_fill_def counting_platform_def initial_rte_def RANDOM_MAX_REQUEST_def
      copy_at_def numeral_eq_Suc)

lemma counting_start: "counting_platform\<lparr>ext := 5\<rparr> = counting_platform"
  by (simp add: counting_platform_def initial_rte_def)

lemma counted_number:
  "read_u32_le (replicate 4 5) 0 = 0x05050505" "read_u32_le (replicate 4 6) 0 = 0x06060606"
  by (simp_all add: read_u32_le_def)

lemma sample_token_accepted:
  "rte_site_role_on_takeover_token (Some challenged_role) 9 (Some sample_token) 24 counting_platform =
    (TOKEN_ACCEPTED, Some spent_role, counting_platform\<lparr>ext := 6\<rparr>)"
proof -
  have "check_token challenged_role (Some sample_token) 24 counting_platform =
      (TOKEN_ACCEPTED, counting_platform)"
    by (simp add: check_token_def sample_role_facts sample_token_def TOKEN_LEN_def TOKEN_MSG_LEN_def
        TOKEN_MAC_LEN_def TOKEN_VERSION_def read_u32_le_def Let_def counting_platform_def)
  moreover have "draw_challenge (record_takeover_confirmation challenged_role 9) 9 counting_platform =
      (spent_role, counting_platform\<lparr>ext := 6\<rparr>)"
    using counting_random [of 5, unfolded counting_start]
    by (simp add: draw_challenge_def record_takeover_confirmation_def spent_role_def sample_role_facts
        counted_number)
  ultimately show ?thesis
    by (simp add: rte_site_role_on_takeover_token_def sample_role_facts)
qed

lemma spent_role_cycle:
  "\<exists>r s. rte_site_role_execute (Some spent_role) 300 (Some ready_local) (counting_platform\<lparr>ext := 6\<rparr>) =
    Some (Some r, s) \<and> sr_challenge r = 0x06060606"
proof -
  let ?s = "counting_platform\<lparr>ext := 6\<rparr>"
  let ?r = "take_local (spent_role\<lparr>sr_cycle := 300\<rparr>) ready_local"
  have poll: "poll_sibling_source ?r 300 ?s = (?r, ?s)"
    by (simp add: poll_sibling_source_def take_local_def spent_role_def sample_role_facts)
  obtain r3 s3 where refr: "refresh_challenge ?r 300 ?s = (r3, s3)" and facts: "sr_link r3 = None"
      "sr_challenge r3 = 0x06060606" and net: "s_netlink s3 = None"
    using counting_random [of 6]
    by (simp add: refresh_challenge_def draw_challenge_def spent_role_def sample_role_facts take_local_def
        challenge_lifetime_def CHALLENGE_LIFETIME_DEFAULT_CYCLES_def counted_number counting_platform_def)
  obtain st r4 s4 where opn: "open_link_once r3 (cf_reconnect_attempt_ms (sr_cfg r3)) s3 = (st, r4, s4)"
    by (metis prod_cases3)
  have "link_refused s3" using net by (simp add: link_refused_def)
  note closed = open_refused [OF this facts(1) opn]
  obtain r5 s5 where dec: "decide_and_check r3 ready_local s4 = (r5, s5)" by fastforce
  have "rte_site_role_execute (Some spent_role) 300 (Some ready_local) ?s = Some (Some r5, s5)"
    using closed opn facts(1) dec by (simp add: rte_site_role_execute_def poll refr reconnect_def)
  with decide_challenge [OF dec] facts(2) show ?thesis by (simp add: same_challenge_def)
qed

theorem token_bound_and_single_use_witness:
  "sr_challenge spent_role = 0x05050505 \<and> sr_challenge_valid spent_role \<and>
    (\<exists>r s. rte_site_role_execute (Some spent_role) 300 (Some ready_local)
       (counting_platform\<lparr>ext := 6\<rparr>) = Some (Some r, s) \<and> sr_challenge r = 0x06060606 \<and>
     fst (rte_site_role_on_takeover_token (Some spent_role) 10 (Some sample_token) 24 s)
       \<noteq> TOKEN_ACCEPTED \<and>
     fst (rte_site_role_on_takeover_token (Some r) 301 (Some sample_token) 24 s) \<noteq> TOKEN_ACCEPTED)"
proof -
  let ?s = "counting_platform\<lparr>ext := 6\<rparr>"
  have "poll_sibling_source (take_local (spent_role\<lparr>sr_cycle := 300\<rparr>) ready_local) 300 ?s =
      (take_local (spent_role\<lparr>sr_cycle := 300\<rparr>) ready_local, ?s)"
    by (simp add: poll_sibling_source_def take_local_def spent_role_def sample_role_facts)
  then have other: "draws_other 0x04030201
      (snd (poll_sibling_source (take_local (spent_role\<lparr>sr_cycle := 300\<rparr>) ready_local) 300 ?s))"
    using counting_random [of 6] by (simp add: draws_other_def counted_number)
  obtain r s where run: "rte_site_role_execute (Some spent_role) 300 (Some ready_local) ?s =
      Some (Some r, s)" and new: "sr_challenge r = 0x06060606"
    using spent_role_cycle by blast
  have token: "read_u32_le sample_token 4 = 0x04030201"
    by (simp add: read_u32_le_def sample_token_def)
  obtain verify x status b where v: "cf_verify_mac (sr_cfg (challenged_role :: nat site_role)) = Some verify"
      and mac: "verify sample_token TOKEN_MSG_LEN (drop TOKEN_MSG_LEN sample_token)
        (ext counting_platform) = (True, x)"
      and rnd: "rte_random_fill (Some [0, 0, 0, 0]) 4 (counting_platform\<lparr>ext := x\<rparr>) =
        (status, Some b, counting_platform\<lparr>ext := 6\<rparr>)"
      and refused: "status \<noteq> STATUS_OK \<or> read_u32_le b 0 \<noteq> read_u32_le sample_token 4 \<longrightarrow>
        (\<forall>r c2 k2 s2. renewed_run (read_u32_le sample_token 4) spent_role r \<longrightarrow>
          fst (rte_site_role_on_takeover_token (Some r) c2 (Some sample_token) k2 s2) \<noteq> TOKEN_ACCEPTED)"
    using token_bound_and_single_use [OF sample_token_accepted] by metis
  have "x = 5" using v mac by (auto simp: sample_role_facts counting_platform_def)
  with rnd counting_random [of 5] have "read_u32_le b 0 = 0x05050505"
    by (auto simp: counted_number)
  with refused token have refused: "fst (rte_site_role_on_takeover_token (Some r) c2 (Some sample_token)
      k2 s2) \<noteq> TOKEN_ACCEPTED" if "renewed_run 0x04030201 spent_role r" for r c2 k2 s2
    using that by simp
  from refused [OF renewed_run.none] refused [OF renewed_run.execute [OF renewed_run.none other run]]
  have "fst (rte_site_role_on_takeover_token (Some spent_role) 10 (Some sample_token) 24 s) \<noteq> TOKEN_ACCEPTED"
    "fst (rte_site_role_on_takeover_token (Some r) 301 (Some sample_token) 24 s) \<noteq> TOKEN_ACCEPTED"
    by blast+
  moreover have "sr_challenge spent_role = 0x05050505 \<and> sr_challenge_valid spent_role"
    by (simp add: spent_role_def sample_role_facts)
  ultimately show ?thesis using run new by blast
qed

section \<open>A silent counterpart\<close>

lemma random_keeps_netlink: "rte_random_fill out n s = (st, b, s') \<Longrightarrow> s_netlink s' = s_netlink s"
  by (auto simp: rte_random_fill_def split: option.splits if_splits prod.splits)

lemma challenge_no_fact:
  "build_decision_input (rs\<lparr>sr_challenge_cycle := a\<rparr>) lo = build_decision_input rs lo"
  "build_decision_input (rs\<lparr>sr_challenge_valid := v\<rparr>) lo = build_decision_input rs lo"
  "build_decision_input (rs\<lparr>sr_challenge := n\<rparr>) lo = build_decision_input rs lo"
  "build_decision_input (rs\<lparr>sr_challenge_fail_reported := r\<rparr>) lo = build_decision_input rs lo"
  by (simp_all add: build_decision_input_def fill_sibling_facts_def sibling_reachable_def)

lemma draw_keeps_facts:
  assumes "draw_challenge rs c s = (rs', s')"
  shows "build_decision_input rs' lo = build_decision_input rs lo \<and> sr_link rs' = sr_link rs \<and>
    s_netlink s' = s_netlink s"
proof -
  obtain st b s1 where rnd: "rte_random_fill (Some [0, 0, 0, 0]) 4 s = (st, b, s1)" by (metis prod_cases3)
  from assms show ?thesis
    unfolding draw_challenge_def rnd Let_def split_conv
    by (cases "st = STATUS_OK") (use random_keeps_netlink [OF rnd] in \<open>auto simp: challenge_no_fact\<close>)
qed

lemma refresh_keeps_facts:
  "refresh_challenge rs c s = (rs', s') \<Longrightarrow> build_decision_input rs' lo = build_decision_input rs lo \<and>
    sr_link rs' = sr_link rs \<and> s_netlink s' = s_netlink s"
  by (auto simp: refresh_challenge_def dest: draw_keeps_facts split: if_splits)

text \<open>The facts about the sibling that a cycle decides on: from the sibling source when there is one,
  from the caller's local state otherwise.\<close>

definition cycle_input :: "'x site_role \<Rightarrow> u32 \<Rightarrow> site_role_local \<Rightarrow> 'x rte \<Rightarrow> site_role_input" where
  "cycle_input rs c lo s = build_decision_input
     (fst (poll_sibling_source (take_local (rs\<lparr>sr_cycle := c\<rparr>) lo) c s)) lo"

lemma cycle_input_facts:
  "in_is_online (cycle_input rs c lo s) = sr_online rs"
  "in_own_faulted (cycle_input rs c lo s) = lo_faulted lo"
  "in_is_west (cycle_input rs c lo s) = cf_is_west (sr_cfg rs)"
  "in_link_up (cycle_input rs c lo s) = (sr_link rs \<noteq> None)"
  "in_peer_unresponsive (cycle_input rs c lo s) = sr_peer_unresponsive rs"
  "in_cycle (cycle_input rs c lo s) = c"
  "in_peer_faulted (cycle_input rs c lo s) = sr_peer_faulted rs"
  "in_peer_online_now (cycle_input rs c lo s) = sr_peer_online_now rs"
  "in_peer_last_rx_cycle (cycle_input rs c lo s) = sr_peer_last_rx_cycle rs"
  "in_both_standby_cycles (cycle_input rs c lo s) = sr_both_standby_cycles rs"
  "in_takeover_confirmed (cycle_input rs c lo s) = sr_takeover_confirmed rs"
  "in_takeover_confirm_cycle (cycle_input rs c lo s) = sr_takeover_confirm_cycle rs"
  "in_own_ready (cycle_input rs c lo s) = lo_own_ready lo"
  by (auto simp: cycle_input_def poll_sibling_source_def take_local_def build_decision_input_def
      fill_sibling_facts_def Let_def split: option.splits prod.splits)

text \<open>A cycle that finds no link decides on \<^verbatim>\<open>cycle_input\<close>.\<close>

lemma linkless_cycle:
  assumes "rte_site_role_execute (Some rs) c (Some lo) s = Some (Some rs', s')"
    and "sr_link rs = None" "link_refused s"
  shows "sr_online rs' = (case d_action (rte_site_role_decide (cycle_input rs c lo s)) of
    ACTION_PROMOTE \<Rightarrow> True | ACTION_DEMOTE \<Rightarrow> False | ACTION_RENEGOTIATE \<Rightarrow> cf_is_west (sr_cfg rs)
  | _ \<Rightarrow> sr_online rs)"
proof -
  obtain rs2 s2 where poll: "poll_sibling_source (take_local (rs\<lparr>sr_cycle := c\<rparr>) lo) c s = (rs2, s2)"
    by fastforce
  have same2: "sr_link rs2 = None \<and> s_netlink s2 = s_netlink s \<and> sr_online rs2 = sr_online rs \<and>
      sr_cfg rs2 = sr_cfg rs"
    using poll assms(2) by (auto simp: poll_sibling_source_def take_local_def Let_def
        split: option.splits prod.splits if_splits)
  obtain rs3 s3 where refr: "refresh_challenge rs2 c s2 = (rs3, s3)" by fastforce
  note facts = refresh_keeps_facts [OF refr, of lo]
  have link: "sr_link rs3 = None" using facts same2 by simp
  have refused: "link_refused s3" using facts same2 assms(3) by (simp add: link_refused_def)
  obtain st rs4 s4 where opn: "open_link_once rs3 (cf_reconnect_attempt_ms (sr_cfg rs3)) s3 = (st, rs4, s4)"
    by (metis prod_cases3)
  then have "reconnect rs3 s3 = (st, rs3, s4)" "st \<noteq> STATUS_OK"
    using open_refused [OF refused link opn] by (simp_all add: reconnect_def)
  moreover obtain rs5 s5 where dec: "decide_and_check rs3 lo s4 = (rs5, s5)" by fastforce
  ultimately have "rs' = rs5"
    using assms(1) by (simp add: rte_site_role_execute_def poll refr link)
  then show ?thesis
    using decide_and_check_result [OF dec] facts same2 refresh_same [OF refr]
    by (simp add: cycle_input_def poll role_defs split: site_role_action.splits)
qed

text \<open>C5. Exactly when a STANDBY site that finds no link to its counterpart becomes ONLINE in a cycle,
  with no other assumption. A FAULTED site does so only when the counterpart was last heard FAULTED too
  and this is the WEST site. A site that is not FAULTED does so when one of three things holds and the
  pair is ready. The three: the counterpart's last frame said FAULTED; the counterpart has been declared
  silent and the operator's confirmation is on record, no older than 120 cycles; or the A/B sibling is
  ONLINE, the counterpart is not answering as ONLINE, and an earlier cycle has been counted. Ready means:
  this channel is, and so is the sibling unless it is ONLINE already or cannot be reached. So where the
  sibling is not ONLINE and nobody is FAULTED, the silence of the counterpart alone promotes nobody.\<close>

theorem promotion_without_link:
  assumes "rte_site_role_execute (Some rs) c (Some lo) s = Some (Some rs', s')"
    and "sr_link rs = None" "link_refused s" "\<not> sr_online rs"
  shows "sr_online rs' \<longleftrightarrow>
    (if lo_faulted lo then sr_peer_faulted rs \<and> cf_is_west (sr_cfg rs)
     else (sr_peer_faulted rs \<or>
         (sr_takeover_confirmed rs \<and> sr_peer_unresponsive rs \<and>
          unat (sr_takeover_confirm_cycle rs) \<le> unat c \<and>
          unat c \<le> unat (sr_takeover_confirm_cycle rs) + 120) \<or>
         (in_sibling_online (cycle_input rs c lo s) \<and> 2 \<le> sr_both_standby_cycles rs + 1 \<and>
          \<not> (sr_peer_online_now rs \<and> sr_peer_last_rx_cycle rs \<le> c \<and> c - sr_peer_last_rx_cycle rs \<le> 2))) \<and>
       lo_own_ready lo \<and> (in_sibling_online (cycle_input rs c lo s) \<or>
         in_sibling_ready (cycle_input rs c lo s) \<or> \<not> in_sibling_reachable (cycle_input rs c lo s)))"
proof -
  let ?i = "cycle_input rs c lo s"
  have "sr_online rs' = (case d_action (rte_site_role_decide ?i) of
      ACTION_PROMOTE \<Rightarrow> True | ACTION_RENEGOTIATE \<Rightarrow> cf_is_west (sr_cfg rs) | _ \<Rightarrow> False)"
    using linkless_cycle [OF assms(1-3)] assms(4) by (simp split: site_role_action.splits)
  also have "\<dots> \<longleftrightarrow> d_action (rte_site_role_decide ?i) = ACTION_PROMOTE \<or>
      d_action (rte_site_role_decide ?i) = ACTION_RENEGOTIATE \<and> cf_is_west (sr_cfg rs)"
    by (simp split: site_role_action.splits)
  finally show ?thesis
    using linkless_promotion [of ?i] assms(2,4)
    by (simp add: cycle_input_facts pair_ready_to_promote_def peer_answering_def)
qed

theorem promotion_without_link_witness:
  "\<exists>rs' s'. rte_site_role_execute (Some (sample_role\<lparr>sr_peer_unresponsive := True,
      sr_takeover_confirmed := True, sr_takeover_confirm_cycle := 40\<rparr>)) 50
      (Some ready_local) (initial_rte ()) = Some (Some rs', s') \<and> sr_online rs'"
proof -
  let ?r = "sample_role\<lparr>sr_peer_unresponsive := True, sr_takeover_confirmed := True,
    sr_takeover_confirm_cycle := 40\<rparr> :: unit site_role"
  obtain rs' s' where run: "rte_site_role_execute (Some ?r) 50 (Some ready_local) (initial_rte ()) =
      Some (Some rs', s')"
    by (simp add: rte_site_role_execute_def take_local_def sample_role_def cleared_site_role_def
        sample_role_config_def poll_sibling_source_def refresh_challenge_def draw_challenge_def
        rte_random_fill_def RANDOM_MAX_REQUEST_def initial_rte_def reconnect_def open_link_once_def
        rte_netlink_open_def Let_def case_prod_unfold ready_local_def)
  have "link_refused (initial_rte ())" by (simp add: link_refused_def initial_rte_def)
  with run promotion_without_link [OF run] show ?thesis
    by (simp add: sample_role_def cleared_site_role_def sample_role_config_def ready_local_def
        cycle_input_def build_decision_input_def fill_sibling_facts_def poll_sibling_source_def
        take_local_def)
qed

section \<open>Frames too long for the dual channel\<close>

text \<open>Initialisation accepts frames of up to 255 bytes, but the dual channel carries at most 244: with
  a frame size between the two the service starts and can never send a single frame.\<close>

theorem oversized_frame_never_sent:
  assumes "rte_site_role_init (Some r0) (Some cfg) = (STATUS_OK, Some rs)" "244 < cf_frame_size cfg"
    and "sr_cfg rs' = sr_cfg rs"
  shows "send_frame rs' s = Some (False, encode_frame rs' (sr_local_faulted rs') (sr_local_single_mode rs')
    (sr_cycle rs') (sr_online rs') s)"
proof -
  have size: "cf_frame_size (sr_cfg rs') = cf_frame_size cfg" "cf_frame_size cfg \<le> 255"
    using assms(1,3) by (auto simp: rte_site_role_init_def config_valid_def cleared_site_role_def Let_def
        split: if_splits)
  then have wide: "unat (of_nat (cf_frame_size cfg) :: u8) = cf_frame_size cfg"
    by (simp add: unat_of_nat)
  obtain rs1 s1 where enc: "encode_frame rs' (sr_local_faulted rs') (sr_local_single_mode rs')
    (sr_cycle rs') (sr_online rs') s = (rs1, s1)" by fastforce
  have "sr_cfg rs1 = sr_cfg rs'" using encode_same [OF enc] by (simp add: role_defs)
  then have "rte_dual_channel_send (Some (sr_dual_channel rs1)) (Some (sr_tx rs1))
      (of_nat (cf_frame_size (sr_cfg rs1))) s1 =
      Some (STATUS_INVALID_PARAM, None, Some (sr_dual_channel rs1), s1)"
    using wide size assms(2) by (simp add: rte_dual_channel_send_def DUAL_MAX_PAYLOAD_def)
  then show ?thesis by (simp add: send_frame_def enc)
qed

theorem oversized_frame_never_sent_witness:
  "\<exists>y. send_frame ((sample_role :: unit site_role)\<lparr>sr_cfg := sample_role_config\<lparr>cf_frame_size := 250\<rparr>\<rparr>)
    (initial_rte ()) = Some (False, y)"
proof -
  have "rte_site_role_init (Some sample_role)
      (Some ((sample_role_config :: unit site_role_config)\<lparr>cf_frame_size := 250\<rparr>)) =
      (STATUS_OK, Some (sample_role\<lparr>sr_cfg := sample_role_config\<lparr>cf_frame_size := 250\<rparr>\<rparr>))"
    by (simp add: rte_site_role_init_def config_valid_def sample_role_def sample_role_config_def
        FRAME_OVERHEAD_def cleared_site_role_def)
  from oversized_frame_never_sent [OF this] show ?thesis by simp
qed

end
