(* ===== verification/Site_Role_Start.thy ===== *)
theory Site_Role_Start
  imports Site_Role_Frames
begin

text \<open>
  Start-up of the site-role service: when the loop over connection attempts ends, and the role a
  channel takes next to a sibling that already has one.
\<close>

section \<open>Connection attempts\<close>

lemma connect_step:
  assumes "open_link_once rs (cf_connect_timeout_ms (sr_cfg rs)) s = (st, rs1, s1)"
  obtains s2 where "connect_retries w rs s =
    (if w < cf_startup_timeout_ms (sr_cfg rs)
     then if st = STATUS_OK then Some (STATUS_OK, rs1, s1)
          else connect_retries (w + cf_connect_retry_ms (sr_cfg rs)) rs1 s2
     else Some (STATUS_TIMEOUT, rs, s))"
proof -
  have "sr_cfg rs1 = sr_cfg rs" using open_link_same [OF assms] by (simp add: role_defs)
  then show thesis
    by (intro that [of "case cf_delay (sr_cfg rs1) of None \<Rightarrow> s1
          | Some f \<Rightarrow> s1\<lparr>ext := f (cf_connect_retry_ms (sr_cfg rs1)) (ext s1)\<rparr>"],
        subst connect_retries.simps) (simp add: assms Let_def)
qed

text \<open>The loop over connection attempts ends, whatever the attempts give, when the retry interval is
  positive and the start-up timeout leaves room for one more interval in 32 bits: the 32-bit sum
  of the waits then passes the timeout before it can wrap.\<close>

theorem connect_attempts_end:
  assumes "0 < cf_connect_retry_ms (sr_cfg rs)"
    and "unat (cf_startup_timeout_ms (sr_cfg rs)) + unat (cf_connect_retry_ms (sr_cfg rs)) \<le> 2 ^ 32"
  shows "open_link_blocking rs s \<noteq> None"
proof -
  have "connect_retries w rs s \<noteq> None" for w
    using assms
  proof (induction "unat (cf_startup_timeout_ms (sr_cfg rs)) - unat w" arbitrary: w rs s rule: less_induct)
    case less
    let ?t = "cf_startup_timeout_ms (sr_cfg rs)" and ?r = "cf_connect_retry_ms (sr_cfg rs)"
    obtain st rs1 s1 where opn: "open_link_once rs (cf_connect_timeout_ms (sr_cfg rs)) s = (st, rs1, s1)"
      by (metis prod_cases3)
    have cfg: "sr_cfg rs1 = sr_cfg rs" using open_link_same [OF opn] by (simp add: role_defs)
    obtain s2 where step: "connect_retries w rs s = (if w < ?t then if st = STATUS_OK
        then Some (STATUS_OK, rs1, s1) else connect_retries (w + ?r) rs1 s2
        else Some (STATUS_TIMEOUT, rs, s))" by (rule connect_step [OF opn])
    have "connect_retries (w + ?r) rs1 s2 \<noteq> None" if "w < ?t"
    proof (rule less.hyps)
      have "unat w + unat ?r < 2 ^ 32" using that less.prems(2) by (simp add: word_less_nat_alt)
      then have "unat (w + ?r) = unat w + unat ?r" by (simp add: unat_plus_if_size word_size)
      moreover have "0 < unat ?r" using less.prems(1) by (simp add: word_less_nat_alt)
      ultimately show "unat (cf_startup_timeout_ms (sr_cfg rs1)) - unat (w + ?r) < unat ?t - unat w"
        using that by (simp add: cfg word_less_nat_alt)
    qed (use less.prems cfg in simp_all)
    with step show ?case by simp
  qed
  then show ?thesis unfolding open_link_blocking_def by (simp del: not_None_eq)
qed

theorem connect_attempts_end_witness:
  "open_link_blocking ((sample_role :: unit site_role)\<lparr>sr_cfg := sample_role_config\<lparr>cf_listen := False\<rparr>\<rparr>)
    (initial_rte ()) \<noteq> None"
  by (rule connect_attempts_end) (simp_all add: sample_role_config_def)

section \<open>The role next to a sibling\<close>

lemma negotiator_init_state:
  assumes "rte_dual_negotiator_init (Some n) (Some cfg) s = (STATUS_OK, ng, s')"
  shows "ng \<noteq> None \<and> ng_own_state (the ng) = ngc_resume_own_state cfg"
proof -
  obtain st now s1 where "rte_timer_now s = (st, now, s1)" by (metis prod_cases3)
  with assms show ?thesis by (cases "ngc_channel cfg") (auto simp: rte_dual_negotiator_init_def)
qed

lemma init_channel_own_state:
  assumes "init_channel_and_negotiator rs r s = (STATUS_OK, rs', s')"
  shows "ng_own_state (sr_negotiator rs') =
    (if sr_online rs then DUAL_ONLINE else if r then DUAL_HOTSTANDBY else DUAL_IDLE)"
proof -
  let ?cfg = "sr_cfg rs"
  let ?dual = "\<lparr>dcc_links = [sr_link rs, None, None, None], dcc_link_count = 1,
       dcc_sender_id = cf_own_id ?cfg, dcc_expected_peer_id = cf_peer_id ?cfg,
       dcc_ack_timeout_ms = cf_ack_timeout_ms ?cfg, dcc_status_callback = None,
       dcc_status_callback_ctx = None\<rparr>"
  obtain st dc where dual: "rte_dual_channel_init (Some (sr_dual_channel rs)) (Some ?dual) = (st, dc)"
    by fastforce
  define rs1 where "rs1 = (case dc of None \<Rightarrow> rs | Some d \<Rightarrow> rs\<lparr>sr_dual_channel := d\<rparr>)"
  obtain st2 dc2 where res: "rte_dual_channel_set_resync_on_sequence_error (Some (sr_dual_channel rs1)) True =
      (st2, dc2)" by fastforce
  define rs2 where "rs2 = (case dc2 of None \<Rightarrow> rs1 | Some d \<Rightarrow> rs1\<lparr>sr_dual_channel := d\<rparr>)\<lparr>sr_send_miss := 0\<rparr>"
  let ?ng = "\<lparr>ngc_channel = Some 0, ngc_own_id = cf_own_id ?cfg, ngc_peer_id = cf_peer_id ?cfg,
      ngc_peer_lost_timeout_ms = cf_peer_lost_timeout_ms ?cfg,
      ngc_state_change_callback = Some on_negotiator_state_change,
      ngc_state_change_callback_ctx = Some 0,
      ngc_resume_own_state = (if sr_online rs2 then DUAL_ONLINE
        else if r then DUAL_HOTSTANDBY else DUAL_IDLE),
      ngc_resume_own_startup_timestamp_ms = sr_startup_timestamp_ms rs2\<rparr>"
  obtain st3 ng s3 where neg: "rte_dual_negotiator_init (Some (sr_negotiator rs2)) (Some ?ng) s =
      (st3, ng, s3)" by (metis prod_cases3)
  note run = assms [unfolded init_channel_and_negotiator_def Let_def dual split_conv, folded rs1_def,
      unfolded res split_conv, folded rs2_def, unfolded neg split_conv]
  have ok: "st = STATUS_OK" "st3 = STATUS_OK" using run by (auto split: if_splits)
  obtain n where n: "ng = Some n" "ng_own_state n = ngc_resume_own_state ?ng"
    using negotiator_init_state [OF neg [unfolded ok(2)]] by auto
  have "sr_negotiator rs' = n" using run ok n(1) by (auto split: if_splits)
  moreover have "sr_online rs2 = sr_online rs"
    by (simp add: rs2_def rs1_def split: option.splits)
  ultimately show ?thesis using n(2) by simp
qed

lemma next_states_not_idle:
  "ng_own_state n \<noteq> DUAL_IDLE \<Longrightarrow> ng_own_state (next_states n r) \<noteq> DUAL_IDLE"
  by (auto simp: next_states_def Let_def standby_of_def)

lemma negotiator_decided:
  assumes "execute_negotiator rs t s = Some (st, rs', s')"
    and "ng_own_state (sr_negotiator rs) \<in> {DUAL_ONLINE, DUAL_HOTSTANDBY}"
  shows "ng_own_state (sr_negotiator rs') \<noteq> DUAL_IDLE \<and>
    (ng_own_state (sr_negotiator rs') = DUAL_ONLINE \<longleftrightarrow> ng_own_state (sr_negotiator rs) = DUAL_ONLINE)"
proof -
  obtain st1 ng ch s1 where run: "rte_dual_negotiator_execute (Some (sr_negotiator rs)) t
      (Some (sr_dual_channel rs)) s = Some (st1, ng, ch, s1)"
  proof (cases "rte_dual_negotiator_execute (Some (sr_negotiator rs)) t (Some (sr_dual_channel rs)) s")
    case None
    with assms(1) show ?thesis by (simp add: execute_negotiator_def)
  next
    case (Some y)
    with that show ?thesis by (cases y) auto
  qed
  from execute_steps [OF run] obtain us n2 s4 n3 s5 where n3: "st1 = STATUS_OK" "ng = Some n3"
    "negotiator_run (sr_negotiator rs) us n2" "negotiator_update_states n2 s4 = (n3, s5)" "s1 = s5"
    "ng_own_state n2 = ng_own_state (sr_negotiator rs)" .
  have "sr_negotiator rs' = n3"
    using assms(1) by (cases ch) (auto simp: execute_negotiator_def run n3(2))
  moreover note update_result [OF n3(4)]
  ultimately show ?thesis using assms(2) n3(6) next_states_not_idle [of n2] by (auto simp: next_online)
qed

lemma negotiate_decided:
  assumes "negotiate_start w rs s = Some (own, rs', s')"
    and "ng_own_state (sr_negotiator rs) \<in> {DUAL_ONLINE, DUAL_HOTSTANDBY}"
  shows "own \<noteq> DUAL_IDLE \<and> (own = DUAL_ONLINE \<longleftrightarrow> ng_own_state (sr_negotiator rs) = DUAL_ONLINE)"
proof -
  obtain st rs1 s1 where neg: "execute_negotiator rs (cf_link_poll_ms (sr_cfg rs)) s = Some (st, rs1, s1)"
    using assms(1) by (subst (asm) negotiate_start.simps) (auto split: Option.bind_splits)
  note decided = negotiator_decided [OF neg assms(2)]
  with assms(1) neg have "own = ng_own_state (sr_negotiator rs1)"
    by (subst (asm) negotiate_start.simps)
      (auto simp: rte_dual_negotiator_get_own_state_def Let_def)
  with decided show ?thesis by simp
qed

lemma prepare_with_sibling:
  assumes "start_prepare rs s = (rs', r, s')" "cf_sibling_source (sr_cfg rs) = Some f"
    and "\<And>sb x. fst (snd (f sb x)) = sib" "sib_known sib"
  shows "sr_online rs' = sib_online sib \<and> r = (\<not> sib_online sib) \<and> sr_cfg rs' = sr_cfg rs"
proof -
  have "f sb x = (a, b, c) \<Longrightarrow> b = sib" for sb x a b c using assms(3) [of sb x] by simp
  with assms(1,2,4) show ?thesis
    by (auto simp: start_prepare_def Let_def poll_sibling_source_def startup_role_from_sibling_def
        split: prod.splits if_splits)
qed

text \<open>C6. A channel that starts next to a sibling of known role takes that role: when start-up succeeds the
  channel is ONLINE exactly when its sibling is, whatever the counterpart announces and whatever the
  start-up times are. The pair A/B of a site cannot come up divided.\<close>

theorem start_joins_sibling:
  assumes "rte_site_role_start (Some rs) s = Some (STATUS_OK, Some rs', s')"
    and "cf_sibling_source (sr_cfg rs) = Some f" "\<And>sb x. fst (snd (f sb x)) = sib" "sib_known sib"
  shows "sr_online rs' = sib_online sib"
proof -
  obtain rs1 r s1 where prep: "start_prepare rs s = (rs1, r, s1)" by (metis prod_cases3)
  note role = prepare_with_sibling [OF prep assms(2-4)]
  obtain st2 rs2 s2 where opn: "open_link_blocking rs1 s1 = Some (st2, rs2, s2)"
    using assms(1) by (auto simp: rte_site_role_start_def prep split: Option.bind_splits)
  have neg: "start_negotiation rs2 r s2 = Some (STATUS_OK, rs', s')" and st2: "st2 = STATUS_OK"
    using assms(1) by (auto simp: rte_site_role_start_def prep opn split: if_splits Option.bind_splits)
  obtain st3 rs3 s3 where ini: "init_channel_and_negotiator rs2 r s2 = (st3, rs3, s3)" by (metis prod_cases3)
  with neg have st3: "st3 = STATUS_OK"
    by (auto simp: start_negotiation_def split: if_splits prod.splits)
  have "sr_online rs2 = sib_online sib" using open_blocking_same [OF opn] role by (simp add: role_defs)
  with init_channel_own_state [OF ini [unfolded st3]] role
  have own: "ng_own_state (sr_negotiator rs3) = (if sib_online sib then DUAL_ONLINE else DUAL_HOTSTANDBY)"
    by simp
  obtain own rs4 s4 where start: "negotiate_start 0 rs3 s3 = Some (own, rs4, s4)"
    using neg by (auto simp: start_negotiation_def ini st3 split: Option.bind_splits)
  from negotiate_decided [OF start] own have "own \<noteq> DUAL_IDLE" "own = DUAL_ONLINE \<longleftrightarrow> sib_online sib"
    by (cases "sib_online sib"; simp)+
  with neg show ?thesis by (auto simp: start_negotiation_def ini st3 start)
qed


text \<open>A platform whose link opens and stays silent, and a sibling that is ONLINE.\<close>

definition online_sibling :: site_role_sibling where
  "online_sibling = \<lparr>sib_known = True, sib_online = True, sib_single_mode = False, sib_ready = True\<rparr>"

definition start_role :: "u64 site_role" where
  "start_role = sample_role\<lparr>sr_cfg := sample_role_config
     \<lparr>cf_sibling_source := Some (\<lambda>sb x. (True, online_sibling, x))\<rparr>\<rparr>"

definition start_platform :: "u64 rte" where
  "start_platform = quiet_platform\<lparr>s_netlink := Some (quiet_link
     \<lparr>netlink_open := Some (\<lambda>st cfg x. (STATUS_OK, Some 3, x))\<rparr>)\<rparr>"

lemma start_paced: "paced (\<lambda>_. 0) unat start_platform"
  using quiet_paced by (simp add: paced_def start_platform_def quiet_platform_def)

definition opened_role :: "u64 site_role" where
  "opened_role = start_role\<lparr>sr_sibling := online_sibling, sr_online := True, sr_link := Some 3\<rparr>"

lemma start_opens:
  "start_prepare start_role start_platform = (opened_role\<lparr>sr_link := None\<rparr>, False, start_platform)"
  "open_link_blocking (opened_role\<lparr>sr_link := None\<rparr>) start_platform =
    Some (STATUS_OK, opened_role, start_platform)"
  by (simp_all add: start_prepare_def start_role_def sample_role_def cleared_site_role_def
      poll_sibling_source_def startup_role_from_sibling_def online_sibling_def opened_role_def
      open_link_blocking_def open_link_once_def rte_netlink_open_def start_platform_def
      quiet_platform_def quiet_link_def initial_rte_def sample_role_config_def Let_def)

lemma start_initialises:
  "\<exists>rs3. init_channel_and_negotiator opened_role False start_platform = (STATUS_OK, rs3, start_platform) \<and>
    links_open (sr_dual_channel rs3)"
  by (simp add: init_channel_and_negotiator_def opened_role_def start_role_def sample_role_def
      cleared_site_role_def cleared_channel_def rte_dual_channel_init_def rte_dual_msgchannel_init_def
      rte_dual_channel_set_resync_on_sequence_error_def rte_dual_msgchannel_set_resync_on_sequence_error_def
      rte_dual_negotiator_init_def rte_timer_now_def start_platform_def quiet_platform_def plain_clock_def
      initial_rte_def sample_role_config_def links_open_def DUAL_MAX_LINKS_def Let_def)

lemma start_ends:
  "\<exists>rs' s'. rte_site_role_start (Some start_role) start_platform = Some (STATUS_OK, Some rs', s')"
proof -
  obtain rs3 where ini: "init_channel_and_negotiator opened_role False start_platform =
      (STATUS_OK, rs3, start_platform)" and links: "links_open (sr_dual_channel rs3)"
    using start_initialises by blast
  have own: "ng_own_state (sr_negotiator rs3) = DUAL_ONLINE"
    using init_channel_own_state [OF ini] by (simp add: opened_role_def)
  obtain st rs4 s4 where neg: "execute_negotiator rs3 (cf_link_poll_ms (sr_cfg rs3)) start_platform =
      Some (st, rs4, s4)"
    using execute_returns [OF start_paced links, of "sr_negotiator rs3" "cf_link_poll_ms (sr_cfg rs3)"]
    by (auto simp: execute_negotiator_def Let_def)
  have "ng_own_state (sr_negotiator rs4) = DUAL_ONLINE" using negotiator_decided [OF neg] own by simp
  then have "negotiate_start 0 rs3 start_platform = Some (DUAL_ONLINE, rs4, s4)"
    using neg by (subst negotiate_start.simps) (simp add: rte_dual_negotiator_get_own_state_def)
  then show ?thesis
    by (simp add: rte_site_role_start_def start_opens start_negotiation_def ini)
qed

theorem start_joins_sibling_witness:
  "\<exists>rs' s'. rte_site_role_start (Some start_role) start_platform = Some (STATUS_OK, Some rs', s') \<and>
    sr_online rs'"
proof -
  obtain rs' s' where run: "rte_site_role_start (Some start_role) start_platform =
      Some (STATUS_OK, Some rs', s')" using start_ends by blast
  have "cf_sibling_source (sr_cfg start_role) = Some (\<lambda>sb x. (True, online_sibling, x))"
    by (simp add: start_role_def)
  from start_joins_sibling [OF run this, of online_sibling] run show ?thesis
    by (simp add: online_sibling_def)
qed

end
