(* ===== verification/Watchdog.thy ===== *)
theory Watchdog
  imports Oal_Services
begin

text \<open>
  The watchdog pool, \<^verbatim>\<open>src/redundancy/watchdog/rte_watchdog.c\<close>. The module's static data, the
  pool of eight slots and the flag of the manager, is a record that the operations hand on; a handle
  is the index of a slot, \<open>Some i\<close> with \<open>i\<close> outside the pool standing for any other pointer. A
  custom action acts on the platform and does not call the watchdog module.
\<close>

section \<open>Data\<close>

datatype rte_watchdog_type = WATCHDOG_SYSTEM | WATCHDOG_TASK | WATCHDOG_CHANNEL | WATCHDOG_CHECKPOINT

datatype rte_watchdog_action =
    WATCHDOG_ACTION_LOG
  | WATCHDOG_ACTION_SAFESTATE
  | WATCHDOG_ACTION_REBOOT
  | WATCHDOG_ACTION_FAILOVER
  | WATCHDOG_ACTION_CUSTOM
  | WATCHDOG_ACTION_UNRECOGNIZED nat

record 'x rte_watchdog_config =
  wc_type :: rte_watchdog_type
  wc_name :: "string option"
  wc_timeout_ms :: duration_ms
  wc_action :: rte_watchdog_action
  wc_custom_action :: "(nat option \<Rightarrow> 'x \<Rightarrow> 'x) option"
  wc_context :: "nat option"

record rte_watchdog_status =
  ws_active :: bool
  ws_kicks :: u32
  ws_fires :: u32
  ws_recoveries :: u32
  ws_time_since_last_kick :: duration_ms
  ws_time_until_fire :: duration_ms

definition WATCHDOG_MAX_COUNT :: nat where "WATCHDOG_MAX_COUNT = 8"

record 'x watchdog =
  wd_in_use :: bool
  wd_active :: bool
  wd_fired :: bool
  wd_config :: "'x rte_watchdog_config"
  wd_deadline_ms :: timestamp_ms
  wd_last_kick_ms :: timestamp_ms
  wd_kicks :: u32
  wd_fires :: u32
  wd_recoveries :: u32

record 'x watchdog_manager =
  wm_pool :: "'x watchdog list"
  wm_initialized :: bool

text \<open>A slot of zero bytes, and the static data at program start.\<close>

definition zero_watchdog :: "'x watchdog" where
  "zero_watchdog = \<lparr>wd_in_use = False, wd_active = False, wd_fired = False,
     wd_config = \<lparr>wc_type = WATCHDOG_SYSTEM, wc_name = None, wc_timeout_ms = 0,
       wc_action = WATCHDOG_ACTION_LOG, wc_custom_action = None, wc_context = None\<rparr>,
     wd_deadline_ms = 0, wd_last_kick_ms = 0, wd_kicks = 0, wd_fires = 0, wd_recoveries = 0\<rparr>"

definition initial_watchdogs :: "'x watchdog_manager" where
  "initial_watchdogs = \<lparr>wm_pool = replicate WATCHDOG_MAX_COUNT zero_watchdog, wm_initialized = False\<rparr>"

section \<open>Local functions\<close>

definition is_valid_handle :: "nat option \<Rightarrow> 'x watchdog_manager \<Rightarrow> bool" where
  "is_valid_handle watchdog m \<longleftrightarrow>
    (case watchdog of None \<Rightarrow> False
     | Some i \<Rightarrow> i < WATCHDOG_MAX_COUNT \<and> wd_in_use (wm_pool m ! i))"

definition is_valid_action :: "rte_watchdog_action \<Rightarrow> bool" where
  "is_valid_action action \<longleftrightarrow>
    (case action of
       WATCHDOG_ACTION_LOG \<Rightarrow> True
     | WATCHDOG_ACTION_SAFESTATE \<Rightarrow> True
     | WATCHDOG_ACTION_REBOOT \<Rightarrow> True
     | WATCHDOG_ACTION_FAILOVER \<Rightarrow> True
     | WATCHDOG_ACTION_CUSTOM \<Rightarrow> True
     | WATCHDOG_ACTION_UNRECOGNIZED _ \<Rightarrow> False)"

definition is_supervising :: "'x watchdog \<Rightarrow> bool" where
  "is_supervising slot \<longleftrightarrow> wd_in_use slot \<and> wd_active slot \<and> \<not> wd_fired slot"

definition first_supervising_index :: "'x watchdog_manager \<Rightarrow> nat" where
  "first_supervising_index m =
    (case List.find (\<lambda>i. is_supervising (wm_pool m ! i)) [0..<WATCHDOG_MAX_COUNT] of
       None \<Rightarrow> WATCHDOG_MAX_COUNT
     | Some i \<Rightarrow> i)"

definition upd_slot ::
  "nat \<Rightarrow> ('x watchdog \<Rightarrow> 'x watchdog) \<Rightarrow> 'x watchdog_manager \<Rightarrow> 'x watchdog_manager" where
  "upd_slot i f m = m\<lparr>wm_pool := (wm_pool m)[i := f (wm_pool m ! i)]\<rparr>"

section \<open>The manager\<close>

definition rte_watchdog_manager_initialize ::
  "'x watchdog_manager \<Rightarrow> 'x rte \<Rightarrow> rte_status \<times> 'x watchdog_manager \<times> 'x rte" where
  "rte_watchdog_manager_initialize m s =
    (if \<not> wm_initialized m
     then (STATUS_OK, \<lparr>wm_pool = replicate WATCHDOG_MAX_COUNT zero_watchdog, wm_initialized = True\<rparr>,
       rte_log_write LOG_INFO (Some ''watchdog'') ''manager initialized'' s)
     else (STATUS_OK, m, s))"

definition rte_watchdog_manager_shutdown ::
  "'x watchdog_manager \<Rightarrow> 'x rte \<Rightarrow> rte_status \<times> 'x watchdog_manager \<times> 'x rte" where
  "rte_watchdog_manager_shutdown m s =
    (STATUS_OK, \<lparr>wm_pool = map (\<lambda>w. w\<lparr>wd_active := False\<rparr>) (wm_pool m), wm_initialized = False\<rparr>,
     rte_log_write LOG_INFO (Some ''watchdog'') ''manager shut down'' s)"

section \<open>Operations\<close>

text \<open>\<open>handle_out\<close> is the caller's handle variable, \<open>None\<close> for a NULL pointer to it.\<close>

definition rte_watchdog_create ::
  "nat option option \<Rightarrow> 'x rte_watchdog_config option \<Rightarrow> 'x watchdog_manager \<Rightarrow> 'x rte \<Rightarrow>
    rte_status \<times> nat option option \<times> 'x watchdog_manager \<times> 'x rte" where
  "rte_watchdog_create handle_out config m s =
    (case (handle_out, config) of
       (Some _, Some cfg) \<Rightarrow>
         if wc_timeout_ms cfg = 0 \<or> \<not> is_valid_action (wc_action cfg)
         then (STATUS_INVALID_PARAM, handle_out, m, s)
         else if (wc_action cfg = WATCHDOG_ACTION_CUSTOM \<or> wc_action cfg = WATCHDOG_ACTION_FAILOVER) \<and>
                 wc_custom_action cfg = None
         then (STATUS_INVALID_PARAM, handle_out, m, s)
         else if \<not> wm_initialized m then (STATUS_NOT_INITIALIZED, handle_out, m, s)
         else
           let (lifecycle_status, s1) = rte_lifecycle_check_setup_allowed s
           in if lifecycle_status \<noteq> STATUS_OK then (lifecycle_status, handle_out, m, s1)
              else (case List.find (\<lambda>i. \<not> wd_in_use (wm_pool m ! i)) [0..<WATCHDOG_MAX_COUNT] of
                      None \<Rightarrow> (STATUS_RESOURCE_EXHAUSTED, handle_out, m, s1)
                    | Some i \<Rightarrow> (STATUS_OK, Some (Some i),
                        upd_slot i (\<lambda>_. zero_watchdog\<lparr>wd_in_use := True, wd_config := cfg\<rparr>) m,
                        rte_log_write LOG_INFO (wc_name cfg) ''watchdog created'' s1))
     | _ \<Rightarrow> (STATUS_INVALID_PARAM, handle_out, m, s))"

definition rte_watchdog_start ::
  "nat option \<Rightarrow> 'x watchdog_manager \<Rightarrow> 'x rte \<Rightarrow> rte_status \<times> 'x watchdog_manager \<times> 'x rte" where
  "rte_watchdog_start watchdog m s =
    (case watchdog of None \<Rightarrow> (STATUS_INVALID_PARAM, m, s)
     | Some i \<Rightarrow>
         if \<not> is_valid_handle watchdog m then (STATUS_INVALID_PARAM, m, s)
         else
           let (status, now_ms, s1) = rte_timer_now s
           in (status,
               if status = STATUS_OK
               then upd_slot i (\<lambda>w. w\<lparr>wd_active := True, wd_fired := False,
                 wd_deadline_ms := now_ms + ucast (wc_timeout_ms (wd_config w)),
                 wd_last_kick_ms := now_ms\<rparr>) m
               else m, s1))"

definition rte_watchdog_stop ::
  "nat option \<Rightarrow> 'x watchdog_manager \<Rightarrow> rte_status \<times> 'x watchdog_manager" where
  "rte_watchdog_stop watchdog m =
    (case watchdog of None \<Rightarrow> (STATUS_INVALID_PARAM, m)
     | Some i \<Rightarrow>
         if \<not> is_valid_handle watchdog m then (STATUS_INVALID_PARAM, m)
         else (STATUS_OK, upd_slot i (wd_active_update (\<lambda>_. False)) m))"

definition rte_watchdog_kick ::
  "nat option \<Rightarrow> 'x watchdog_manager \<Rightarrow> 'x rte \<Rightarrow> rte_status \<times> 'x watchdog_manager \<times> 'x rte" where
  "rte_watchdog_kick watchdog m s =
    (case watchdog of None \<Rightarrow> (STATUS_INVALID_PARAM, m, s)
     | Some i \<Rightarrow>
         if \<not> is_valid_handle watchdog m then (STATUS_INVALID_PARAM, m, s)
         else if \<not> wd_active (wm_pool m ! i) \<or> wd_fired (wm_pool m ! i)
         then (STATUS_INTERNAL_ERROR, m, s)
         else
           let (status, now_ms, s1) = rte_timer_now s
           in (status,
               if status = STATUS_OK
               then upd_slot i (\<lambda>w. w\<lparr>wd_deadline_ms := now_ms + ucast (wc_timeout_ms (wd_config w)),
                 wd_last_kick_ms := now_ms, wd_kicks := wd_kicks w + 1\<rparr>) m
               else m, s1))"

definition rte_watchdog_get_status ::
  "nat option \<Rightarrow> rte_watchdog_status option \<Rightarrow> 'x watchdog_manager \<Rightarrow> 'x rte \<Rightarrow>
    rte_status \<times> rte_watchdog_status option \<times> 'x rte" where
  "rte_watchdog_get_status watchdog status_out m s =
    (case (watchdog, status_out) of
       (Some i, Some _) \<Rightarrow>
         if \<not> is_valid_handle watchdog m then (STATUS_INVALID_PARAM, status_out, s)
         else
           let (status, now_ms, s1) = rte_timer_now s;
               w = wm_pool m ! i
           in (status,
               if status = STATUS_OK
               then Some \<lparr>ws_active = wd_active w, ws_kicks = wd_kicks w, ws_fires = wd_fires w,
                 ws_recoveries = wd_recoveries w,
                 ws_time_since_last_kick =
                   ucast (if now_ms \<ge> wd_last_kick_ms w then now_ms - wd_last_kick_ms w else 0),
                 ws_time_until_fire =
                   ucast (if wd_deadline_ms w > now_ms then wd_deadline_ms w - now_ms else 0)\<rparr>
               else status_out, s1)
     | _ \<Rightarrow> (STATUS_INVALID_PARAM, status_out, s))"

definition rte_watchdog_destroy ::
  "nat option \<Rightarrow> 'x watchdog_manager \<Rightarrow> rte_status \<times> 'x watchdog_manager" where
  "rte_watchdog_destroy watchdog m =
    (case watchdog of None \<Rightarrow> (STATUS_INVALID_PARAM, m)
     | Some i \<Rightarrow>
         if \<not> is_valid_handle watchdog m then (STATUS_INVALID_PARAM, m)
         else (STATUS_OK, upd_slot i (\<lambda>w. w\<lparr>wd_active := False, wd_in_use := False\<rparr>) m))"

section \<open>Timeouts\<close>

definition call_action :: "'x rte_watchdog_config \<Rightarrow> 'x rte \<Rightarrow> 'x rte" where
  "call_action cfg s =
    (case wc_custom_action cfg of None \<Rightarrow> s | Some f \<Rightarrow> s\<lparr>ext := f (wc_context cfg) (ext s)\<rparr>)"

text \<open>The state of a call that may enter a safe state is the pool together with the platform.\<close>

definition enter_safestate ::
  "rte_safestate_level \<Rightarrow> safestate_reason \<Rightarrow> string option \<Rightarrow> 'x watchdog_manager \<Rightarrow> 'x rte \<Rightarrow>
    (unit, 'x watchdog_manager \<times> 'x rte) run" where
  "enter_safestate level reason name m s =
    (case rte_safestate_enter level reason name s of
       Returned _ s1 \<Rightarrow> Returned () (m, s1)
     | Halted s1 \<Rightarrow> Halted (m, s1))"

definition rte_watchdog_timeout_handler ::
  "nat \<Rightarrow> 'x watchdog_manager \<Rightarrow> 'x rte \<Rightarrow> (unit, 'x watchdog_manager \<times> 'x rte) run" where
  "rte_watchdog_timeout_handler watchdog_id m s =
    (if watchdog_id \<ge> WATCHDOG_MAX_COUNT then Returned () (m, s)
     else if \<not> is_supervising (wm_pool m ! watchdog_id) then Returned () (m, s)
     else
       let m1 = upd_slot watchdog_id (\<lambda>w. w\<lparr>wd_fired := True, wd_fires := wd_fires w + 1\<rparr>) m;
           cfg = wd_config (wm_pool m1 ! watchdog_id);
           m2 = upd_slot watchdog_id (\<lambda>w. w\<lparr>wd_recoveries := wd_recoveries w + 1\<rparr>) m1
       in case wc_action cfg of
            WATCHDOG_ACTION_LOG \<Rightarrow>
              Returned () (m1, rte_log_write LOG_ERROR (wc_name cfg) ''watchdog timeout'' s)
          | WATCHDOG_ACTION_SAFESTATE \<Rightarrow>
              enter_safestate LEVEL_SAFE REASON_UNSPECIFIED (wc_name cfg) m2
                (rte_log_write LOG_ERROR (wc_name cfg) ''watchdog timeout - entering SAFE state'' s)
          | WATCHDOG_ACTION_REBOOT \<Rightarrow>
              enter_safestate LEVEL_REBOOT REASON_UNSPECIFIED (wc_name cfg) m2
                (rte_log_write LOG_ERROR (wc_name cfg) ''watchdog timeout - requesting reboot'' s)
          | WATCHDOG_ACTION_FAILOVER \<Rightarrow>
              Returned () (m2, call_action cfg
                (rte_log_write LOG_ERROR (wc_name cfg) ''watchdog timeout - failover requested'' s))
          | WATCHDOG_ACTION_CUSTOM \<Rightarrow> Returned () (m2, call_action cfg s)
          | WATCHDOG_ACTION_UNRECOGNIZED _ \<Rightarrow>
              Returned () (m1,
                rte_log_write LOG_ERROR (wc_name cfg) ''watchdog timeout - unrecognized action'' s))"

fun tick_slots ::
  "nat list \<Rightarrow> timestamp_ms \<Rightarrow> 'x watchdog_manager \<Rightarrow> 'x rte \<Rightarrow>
    (unit, 'x watchdog_manager \<times> 'x rte) run" where
  "tick_slots [] now_ms m s = Returned () (m, s)"
| "tick_slots (i # is) now_ms m s =
    (if is_supervising (wm_pool m ! i) \<and> now_ms \<ge> wd_deadline_ms (wm_pool m ! i)
     then (case rte_watchdog_timeout_handler i m s of
             Returned _ (m1, s1) \<Rightarrow> tick_slots is now_ms m1 s1
           | Halted y \<Rightarrow> Halted y)
     else tick_slots is now_ms m s)"

definition rte_watchdog_timer_tick ::
  "'x watchdog_manager \<Rightarrow> 'x rte \<Rightarrow> (unit, 'x watchdog_manager \<times> 'x rte) run" where
  "rte_watchdog_timer_tick m s =
    (if wm_initialized m
     then
       let (status, now_ms, s1) = rte_timer_now s
       in if status \<noteq> STATUS_OK
          then
            let supervising = first_supervising_index m
            in if supervising < WATCHDOG_MAX_COUNT
               then
                 let name = (case wc_name (wd_config (wm_pool m ! supervising)) of
                        None \<Rightarrow> Some ''(unnamed)'' | Some n \<Rightarrow> Some n)
                 in enter_safestate LEVEL_SAFE REASON_CLOCK_FAILED name m
                      (rte_log_write LOG_ERROR name ''watchdog clock failed - entering SAFE state'' s1)
               else Returned () (m, s1)
          else tick_slots [0..<WATCHDOG_MAX_COUNT] now_ms m s1
     else Returned () (m, s))"

section \<open>What a tick does\<close>

definition expired :: "'x watchdog_manager \<Rightarrow> timestamp_ms \<Rightarrow> nat \<Rightarrow> bool" where
  "expired m now_ms i \<longleftrightarrow> is_supervising (wm_pool m ! i) \<and> wd_deadline_ms (wm_pool m ! i) \<le> now_ms"

text \<open>The actions that end in a safe state, and what firing leaves of a slot.\<close>

definition stops :: "'x watchdog \<Rightarrow> bool" where
  "stops w \<longleftrightarrow> wc_action (wd_config w) \<in> {WATCHDOG_ACTION_SAFESTATE, WATCHDOG_ACTION_REBOOT}"

definition recovers :: "'x watchdog \<Rightarrow> bool" where
  "recovers w \<longleftrightarrow> wc_action (wd_config w) \<in> {WATCHDOG_ACTION_SAFESTATE, WATCHDOG_ACTION_REBOOT,
     WATCHDOG_ACTION_FAILOVER, WATCHDOG_ACTION_CUSTOM}"

definition fire_slot :: "'x watchdog \<Rightarrow> 'x watchdog" where
  "fire_slot w = w\<lparr>wd_fired := True, wd_fires := wd_fires w + 1,
     wd_recoveries := wd_recoveries w + (if recovers w then 1 else 0)\<rparr>"

lemma upd_slot_simps [simp]:
  "wm_initialized (upd_slot i f m) = wm_initialized m"
  "length (wm_pool (upd_slot i f m)) = length (wm_pool m)"
  "j \<noteq> i \<Longrightarrow> wm_pool (upd_slot i f m) ! j = wm_pool m ! j"
  "i < length (wm_pool m) \<Longrightarrow> wm_pool (upd_slot i f m) ! i = f (wm_pool m ! i)"
  by (simp_all add: upd_slot_def)

lemma upd_slot_nth:
  "j < length (wm_pool m) \<Longrightarrow> wm_pool (upd_slot i f m) ! j = (if j = i then f (wm_pool m ! j) else wm_pool m ! j)"
  by (simp add: upd_slot_def nth_list_update)

lemma fire_slot_simps [simp]:
  "wd_config (fire_slot w) = wd_config w" "wd_in_use (fire_slot w) = wd_in_use w"
  "wd_active (fire_slot w) = wd_active w" "wd_fired (fire_slot w)"
  "wd_deadline_ms (fire_slot w) = wd_deadline_ms w" "wd_last_kick_ms (fire_slot w) = wd_last_kick_ms w"
  by (simp_all add: fire_slot_def)

lemma enter_halts:
  assumes "level = LEVEL_SAFE \<or> level = LEVEL_REBOOT"
  shows "enter_safestate level reason name m s =
    Halted (m, run_state (rte_safestate_enter level reason name s))"
  using assms by (auto simp: enter_safestate_def rte_safestate_enter_def Let_def)

lemma handler_result:
  assumes "length (wm_pool m) = WATCHDOG_MAX_COUNT" "i < WATCHDOG_MAX_COUNT" "is_supervising (wm_pool m ! i)"
  obtains s' where "rte_watchdog_timeout_handler i m s =
    (if stops (wm_pool m ! i) then Halted (upd_slot i fire_slot m, s')
     else Returned () (upd_slot i fire_slot m, s'))"
proof -
  have once: "upd_slot i (\<lambda>w. w\<lparr>wd_fired := True, wd_fires := wd_fires w + 1\<rparr>) m = upd_slot i fire_slot m"
    if "\<not> recovers (wm_pool m ! i)"
    using that by (simp add: upd_slot_def fire_slot_def)
  have twice: "upd_slot i (\<lambda>w. w\<lparr>wd_recoveries := wd_recoveries w + 1\<rparr>)
      (upd_slot i (\<lambda>w. w\<lparr>wd_fired := True, wd_fires := wd_fires w + 1\<rparr>) m) = upd_slot i fire_slot m"
    if "recovers (wm_pool m ! i)"
    using that assms(1,2) by (simp add: upd_slot_def fire_slot_def)
  show thesis
    using assms that once twice
    by (cases "wc_action (wd_config (wm_pool m ! i))")
      (simp_all add: rte_watchdog_timeout_handler_def Let_def stops_def recovers_def enter_halts)
qed

lemma tick_slots_result:
  assumes "distinct is" "set is \<subseteq> {..<WATCHDOG_MAX_COUNT}" "length (wm_pool m) = WATCHDOG_MAX_COUNT"
  shows "case tick_slots is now_ms m s of
      Returned _ (m', s') \<Rightarrow> wm_initialized m' = wm_initialized m \<and>
        length (wm_pool m') = WATCHDOG_MAX_COUNT \<and>
        (\<forall>i < WATCHDOG_MAX_COUNT. wm_pool m' ! i =
           (if i \<in> set is \<and> expired m now_ms i then fire_slot (wm_pool m ! i) else wm_pool m ! i)) \<and>
        (\<forall>i \<in> set is. expired m now_ms i \<longrightarrow> \<not> stops (wm_pool m ! i))
    | Halted (m', s') \<Rightarrow> \<exists>i \<in> set is. expired m now_ms i \<and> stops (wm_pool m ! i) \<and>
        wm_pool m' ! i = fire_slot (wm_pool m ! i)"
  using assms
proof (induction "is" arbitrary: m s)
  case (Cons i "is")
  show ?case
  proof (cases "expired m now_ms i")
    case False
    from Cons.IH [of m s] Cons.prems have "case tick_slots is now_ms m s of
      Returned _ (m', s') \<Rightarrow> wm_initialized m' = wm_initialized m \<and>
        length (wm_pool m') = WATCHDOG_MAX_COUNT \<and>
        (\<forall>i < WATCHDOG_MAX_COUNT. wm_pool m' ! i =
           (if i \<in> set is \<and> expired m now_ms i then fire_slot (wm_pool m ! i) else wm_pool m ! i)) \<and>
        (\<forall>i \<in> set is. expired m now_ms i \<longrightarrow> \<not> stops (wm_pool m ! i))
    | Halted (m', s') \<Rightarrow> \<exists>i \<in> set is. expired m now_ms i \<and> stops (wm_pool m ! i) \<and>
        wm_pool m' ! i = fire_slot (wm_pool m ! i)" by simp
    moreover have "tick_slots (i # is) now_ms m s = tick_slots is now_ms m s"
      using False by (auto simp: expired_def)
    ultimately show ?thesis using False by (auto split: run.splits)
  next
    case True
    then have sup: "is_supervising (wm_pool m ! i)" "wd_deadline_ms (wm_pool m ! i) \<le> now_ms"
      by (simp_all add: expired_def)
    have i: "i < WATCHDOG_MAX_COUNT" "i \<notin> set is" using Cons.prems by auto
    obtain s1 where run: "rte_watchdog_timeout_handler i m s =
      (if stops (wm_pool m ! i) then Halted (upd_slot i fire_slot m, s1)
       else Returned () (upd_slot i fire_slot m, s1))"
      by (rule handler_result [OF Cons.prems(3) i(1) sup(1)])
    let ?m = "upd_slot i fire_slot m"
    have rest: "expired ?m now_ms j = expired m now_ms j" "wm_pool ?m ! j = wm_pool m ! j"
      if "j \<in> set is" for j
    proof -
      from that i(2) have "j \<noteq> i" by blast
      then show "expired ?m now_ms j = expired m now_ms j" "wm_pool ?m ! j = wm_pool m ! j"
        by (simp_all add: expired_def)
    qed
    have slot: "wm_pool ?m ! i = fire_slot (wm_pool m ! i)" using i(1) Cons.prems(3) by simp
    show ?thesis
    proof (cases "stops (wm_pool m ! i)")
      case stop: True
      then show ?thesis using run sup True slot by simp
    next
      case go: False
      then have step: "tick_slots (i # is) now_ms m s = tick_slots is now_ms ?m s1"
        using run sup by simp
      from Cons.IH [of ?m s1] Cons.prems have ih: "case tick_slots is now_ms ?m s1 of
        Returned _ (m', s') \<Rightarrow> wm_initialized m' = wm_initialized ?m \<and>
          length (wm_pool m') = WATCHDOG_MAX_COUNT \<and>
          (\<forall>i < WATCHDOG_MAX_COUNT. wm_pool m' ! i =
             (if i \<in> set is \<and> expired ?m now_ms i then fire_slot (wm_pool ?m ! i) else wm_pool ?m ! i)) \<and>
          (\<forall>i \<in> set is. expired ?m now_ms i \<longrightarrow> \<not> stops (wm_pool ?m ! i))
      | Halted (m', s') \<Rightarrow> \<exists>i \<in> set is. expired ?m now_ms i \<and> stops (wm_pool ?m ! i) \<and>
          wm_pool m' ! i = fire_slot (wm_pool ?m ! i)" by simp
      show ?thesis
      proof (cases "tick_slots is now_ms ?m s1")
        case (Returned u y)
        with ih step rest slot i go True show ?thesis by (cases y) (auto simp: upd_slot_nth Cons.prems(3))
      next
        case (Halted y)
        with ih step rest show ?thesis by (cases y) auto
      qed
    qed
  qed
qed simp

section \<open>Runs of the module\<close>

text \<open>Any sequence of the operations since program start that return, on any platform states.\<close>

inductive watchdog_run :: "'x watchdog_manager \<Rightarrow> bool" where
  start_up: "watchdog_run initial_watchdogs"
| initialize: "watchdog_run m \<Longrightarrow> rte_watchdog_manager_initialize m s = (st, m', s') \<Longrightarrow> watchdog_run m'"
| shutdown: "watchdog_run m \<Longrightarrow> rte_watchdog_manager_shutdown m s = (st, m', s') \<Longrightarrow> watchdog_run m'"
| create: "watchdog_run m \<Longrightarrow> rte_watchdog_create h cfg m s = (st, h', m', s') \<Longrightarrow> watchdog_run m'"
| start: "watchdog_run m \<Longrightarrow> rte_watchdog_start h m s = (st, m', s') \<Longrightarrow> watchdog_run m'"
| stop: "watchdog_run m \<Longrightarrow> rte_watchdog_stop h m = (st, m') \<Longrightarrow> watchdog_run m'"
| kick: "watchdog_run m \<Longrightarrow> rte_watchdog_kick h m s = (st, m', s') \<Longrightarrow> watchdog_run m'"
| destroy: "watchdog_run m \<Longrightarrow> rte_watchdog_destroy h m = (st, m') \<Longrightarrow> watchdog_run m'"
| tick: "watchdog_run m \<Longrightarrow> rte_watchdog_timer_tick m s = Returned () (m', s') \<Longrightarrow> watchdog_run m'"
| timeout: "watchdog_run m \<Longrightarrow> rte_watchdog_timeout_handler i m s = Returned () (m', s') \<Longrightarrow>
    watchdog_run m'"

text \<open>A live slot has a usable configuration, and a running one a deadline one timeout after its last kick.\<close>

definition good_config :: "'x rte_watchdog_config \<Rightarrow> bool" where
  "good_config cfg \<longleftrightarrow> wc_timeout_ms cfg \<noteq> 0 \<and> is_valid_action (wc_action cfg) \<and>
     (wc_action cfg \<in> {WATCHDOG_ACTION_FAILOVER, WATCHDOG_ACTION_CUSTOM} \<longrightarrow> wc_custom_action cfg \<noteq> None)"

definition good_slot :: "'x watchdog \<Rightarrow> bool" where
  "good_slot w \<longleftrightarrow> (wd_in_use w \<longrightarrow> good_config (wd_config w)) \<and>
     (wd_active w \<longrightarrow> wd_in_use w \<and>
        wd_deadline_ms w = wd_last_kick_ms w + ucast (wc_timeout_ms (wd_config w)))"

definition wf_watchdogs :: "'x watchdog_manager \<Rightarrow> bool" where
  "wf_watchdogs m \<longleftrightarrow> length (wm_pool m) = WATCHDOG_MAX_COUNT \<and>
     (\<forall>i < WATCHDOG_MAX_COUNT. good_slot (wm_pool m ! i))"

lemma good_zero [simp]: "good_slot zero_watchdog"
  by (simp add: good_slot_def zero_watchdog_def)

lemma good_fire [simp]: "good_slot (fire_slot w) = good_slot w"
  by (simp add: good_slot_def)

lemma wf_upd_slot:
  "wf_watchdogs m \<Longrightarrow> (good_slot (wm_pool m ! i) \<Longrightarrow> good_slot (f (wm_pool m ! i))) \<Longrightarrow>
    wf_watchdogs (upd_slot i f m)"
  by (simp add: wf_watchdogs_def upd_slot_nth)

lemma handler_wf:
  assumes "wf_watchdogs m" "rte_watchdog_timeout_handler i m s = Returned () (m', s')"
  shows "wf_watchdogs m'"
proof (cases "i < WATCHDOG_MAX_COUNT \<and> is_supervising (wm_pool m ! i)")
  case True
  moreover have "length (wm_pool m) = WATCHDOG_MAX_COUNT" using assms(1) by (simp add: wf_watchdogs_def)
  ultimately obtain s1 where "rte_watchdog_timeout_handler i m s =
      (if stops (wm_pool m ! i) then Halted (upd_slot i fire_slot m, s1)
       else Returned () (upd_slot i fire_slot m, s1))" using handler_result by blast
  with assms wf_upd_slot [OF assms(1), of i fire_slot] show ?thesis by (simp split: if_splits)
next
  case False
  then have "rte_watchdog_timeout_handler i m s = Returned () (m, s)"
    by (cases "i < WATCHDOG_MAX_COUNT") (simp_all add: rte_watchdog_timeout_handler_def)
  with assms show ?thesis by simp
qed

lemma tick_result:
  assumes "wm_initialized m" "length (wm_pool m) = WATCHDOG_MAX_COUNT"
    and "rte_timer_now s = (STATUS_OK, now_ms, s1)"
  shows "case rte_watchdog_timer_tick m s of
      Returned _ (m', s') \<Rightarrow> wm_initialized m' \<and> length (wm_pool m') = WATCHDOG_MAX_COUNT \<and>
        (\<forall>i < WATCHDOG_MAX_COUNT. wm_pool m' ! i =
           (if expired m now_ms i then fire_slot (wm_pool m ! i) else wm_pool m ! i)) \<and>
        (\<forall>i < WATCHDOG_MAX_COUNT. expired m now_ms i \<longrightarrow> \<not> stops (wm_pool m ! i))
    | Halted (m', s') \<Rightarrow> \<exists>i < WATCHDOG_MAX_COUNT. expired m now_ms i \<and> stops (wm_pool m ! i) \<and>
        wm_pool m' ! i = fire_slot (wm_pool m ! i)"
proof -
  have "rte_watchdog_timer_tick m s = tick_slots [0..<WATCHDOG_MAX_COUNT] now_ms m s1"
    using assms(1,3) by (simp add: rte_watchdog_timer_tick_def)
  moreover have "set [0..<WATCHDOG_MAX_COUNT] \<subseteq> {..<WATCHDOG_MAX_COUNT}" by auto
  moreover note tick_slots_result [OF distinct_upt this assms(2), of now_ms s1]
  ultimately show ?thesis using assms(1,2)
    by (cases "tick_slots [0..<WATCHDOG_MAX_COUNT] now_ms m s1") auto
qed

lemma tick_wf:
  assumes "wf_watchdogs m" "rte_watchdog_timer_tick m s = Returned () (m', s')"
  shows "wf_watchdogs m'"
proof -
  have len: "length (wm_pool m) = WATCHDOG_MAX_COUNT" using assms(1) by (simp add: wf_watchdogs_def)
  obtain st now s1 where now: "rte_timer_now s = (st, now, s1)" by (metis prod_cases3)
  show ?thesis
  proof (cases "wm_initialized m \<and> st = STATUS_OK")
    case True
    with tick_result [OF _ len, of s now s1] now assms show ?thesis by (auto simp: wf_watchdogs_def)
  next
    case False
    with assms now show ?thesis
      by (auto simp: rte_watchdog_timer_tick_def enter_halts Let_def split: if_splits)
  qed
qed

lemma run_wf:
  assumes "watchdog_run m"
  shows "wf_watchdogs m"
  using assms
proof (induction rule: watchdog_run.induct)
  case start_up
  then show ?case by (simp add: wf_watchdogs_def initial_watchdogs_def)
next
  case (initialize m s st m' s')
  then show ?case
    by (auto simp: rte_watchdog_manager_initialize_def wf_watchdogs_def split: if_splits)
next
  case (shutdown m s st m' s')
  then show ?case
    by (auto simp: rte_watchdog_manager_shutdown_def wf_watchdogs_def good_slot_def)
next
  case (create m h cfg s st h' m' s')
  have "good_slot (zero_watchdog\<lparr>wd_in_use := True, wd_config := c\<rparr>)"
    if "good_config c" for c :: "'a rte_watchdog_config"
    using that by (simp add: good_slot_def zero_watchdog_def)
  with create show ?case
    by (auto simp: rte_watchdog_create_def Let_def good_config_def
        split: option.splits prod.splits if_splits intro!: wf_upd_slot)
next
  case (start m h s st m' s')
  then show ?case
    by (auto simp: rte_watchdog_start_def is_valid_handle_def Let_def good_slot_def
        split: option.splits prod.splits if_splits intro!: wf_upd_slot)
next
  case (stop m h st m')
  then show ?case
    by (auto simp: rte_watchdog_stop_def good_slot_def split: option.splits if_splits intro!: wf_upd_slot)
next
  case (kick m h s st m' s')
  then show ?case
    by (auto simp: rte_watchdog_kick_def Let_def good_slot_def
        split: option.splits prod.splits if_splits intro!: wf_upd_slot)
next
  case (destroy m h st m')
  then show ?case
    by (auto simp: rte_watchdog_destroy_def good_slot_def split: option.splits if_splits intro!: wf_upd_slot)
next
  case (tick m s m' s')
  then show ?case by (blast intro: tick_wf)
next
  case (timeout m i s m' s')
  then show ?case by (blast intro: handler_wf)
qed

text \<open>C38. Over any history of the module every live watchdog has a positive timeout, one of the five
  defined actions, and a handler where its action calls one, so the reaction to a timeout is never the
  undefined-action branch nor a missing handler; and a running watchdog's deadline lies exactly one
  timeout after its last kick or start.\<close>

theorem watchdogs_stay_armed:
  assumes "watchdog_run m" "i < WATCHDOG_MAX_COUNT" "wd_in_use (wm_pool m ! i)"
  shows "wc_timeout_ms (wd_config (wm_pool m ! i)) \<noteq> 0 \<and> is_valid_action (wc_action (wd_config (wm_pool m ! i))) \<and>
    (wc_action (wd_config (wm_pool m ! i)) \<in> {WATCHDOG_ACTION_FAILOVER, WATCHDOG_ACTION_CUSTOM} \<longrightarrow>
       wc_custom_action (wd_config (wm_pool m ! i)) \<noteq> None) \<and>
    (wd_active (wm_pool m ! i) \<longrightarrow> wd_deadline_ms (wm_pool m ! i) =
       wd_last_kick_ms (wm_pool m ! i) + ucast (wc_timeout_ms (wd_config (wm_pool m ! i))))"
  using run_wf [OF assms(1)] assms(2,3) by (simp add: wf_watchdogs_def good_slot_def good_config_def)

text \<open>A manager with one running watchdog that asks for a safe state.\<close>

definition sample_watchdog_config :: "unit rte_watchdog_config" where
  "sample_watchdog_config = \<lparr>wc_type = WATCHDOG_SYSTEM, wc_name = None, wc_timeout_ms = 100,
     wc_action = WATCHDOG_ACTION_SAFESTATE, wc_custom_action = None, wc_context = None\<rparr>"

definition armed :: "unit watchdog_manager" where
  "armed = \<lparr>wm_pool = (replicate 8 zero_watchdog)[0 := zero_watchdog\<lparr>wd_in_use := True, wd_active := True,
     wd_config := sample_watchdog_config, wd_deadline_ms := 150, wd_last_kick_ms := 50\<rparr>],
     wm_initialized = True\<rparr>"

definition clock_at :: "rte_status \<Rightarrow> u64 \<Rightarrow> unit rte" where
  "clock_at st t = (initial_rte ())\<lparr>s_timer := Some \<lparr>timer_create = None, timer_start = None,
     timer_stop = None, timer_destroy = None, timer_now = Some (\<lambda>x. (st, t, x))\<rparr>\<rparr>"

lemma clock_now [simp]: "rte_timer_now (clock_at st t) = (st, t, clock_at st t)"
  by (simp add: rte_timer_now_def clock_at_def initial_rte_def)

lemma armed_run: "watchdog_run armed"
proof -
  have create: "rte_watchdog_create (Some None) (Some sample_watchdog_config)
      \<lparr>wm_pool = replicate WATCHDOG_MAX_COUNT zero_watchdog, wm_initialized = True\<rparr> (clock_at STATUS_OK 50) =
      (STATUS_OK, Some (Some 0), \<lparr>wm_pool = (replicate 8 zero_watchdog)[0 := zero_watchdog\<lparr>wd_in_use := True,
        wd_config := sample_watchdog_config\<rparr>], wm_initialized = True\<rparr>, clock_at STATUS_OK 50)"
    by (simp add: rte_watchdog_create_def sample_watchdog_config_def is_valid_action_def
        rte_lifecycle_check_setup_allowed_def clock_at_def initial_rte_def WATCHDOG_MAX_COUNT_def upt_rec
        zero_watchdog_def upd_slot_def rte_log_write_def)
  have start: "rte_watchdog_start (Some 0) \<lparr>wm_pool = (replicate 8 zero_watchdog)[0 := zero_watchdog
        \<lparr>wd_in_use := True, wd_config := sample_watchdog_config\<rparr>], wm_initialized = True\<rparr>
      (clock_at STATUS_OK 50) = (STATUS_OK, armed, clock_at STATUS_OK 50)"
    by (simp add: rte_watchdog_start_def is_valid_handle_def WATCHDOG_MAX_COUNT_def upd_slot_def armed_def
        sample_watchdog_config_def zero_watchdog_def)
  have "watchdog_run (\<lparr>wm_pool = replicate WATCHDOG_MAX_COUNT zero_watchdog, wm_initialized = True\<rparr>
      :: unit watchdog_manager)"
    by (rule watchdog_run.initialize [OF watchdog_run.start_up, where s = "clock_at STATUS_OK 0"])
      (simp add: rte_watchdog_manager_initialize_def initial_watchdogs_def)
  from watchdog_run.start [OF watchdog_run.create [OF this create] start] show ?thesis .
qed

theorem watchdogs_stay_armed_witness:
  "wd_deadline_ms (wm_pool armed ! 0) = wd_last_kick_ms (wm_pool armed ! 0) + 100"
  using watchdogs_stay_armed [OF armed_run, of 0]
  by (simp add: armed_def WATCHDOG_MAX_COUNT_def sample_watchdog_config_def)

text \<open>C22. A tick with a working clock fires exactly the running watchdogs whose deadline has come, each once,
  and leaves every other slot as it is; it returns exactly when none of them asks for a safe state or a
  reboot, and otherwise stops in the safe state with such a watchdog fired.\<close>

theorem tick_fires_the_expired:
  assumes "watchdog_run m" "wm_initialized m" "rte_timer_now s = (STATUS_OK, now_ms, s1)"
  shows "case rte_watchdog_timer_tick m s of
      Returned _ (m', s') \<Rightarrow>
        (\<forall>i < WATCHDOG_MAX_COUNT. wm_pool m' ! i =
           (if expired m now_ms i then fire_slot (wm_pool m ! i) else wm_pool m ! i)) \<and>
        (\<forall>i < WATCHDOG_MAX_COUNT. expired m now_ms i \<longrightarrow> \<not> stops (wm_pool m ! i))
    | Halted (m', s') \<Rightarrow> \<exists>i < WATCHDOG_MAX_COUNT. expired m now_ms i \<and> stops (wm_pool m ! i) \<and>
        wm_pool m' ! i = fire_slot (wm_pool m ! i)"
proof -
  have "length (wm_pool m) = WATCHDOG_MAX_COUNT" using run_wf [OF assms(1)] by (simp add: wf_watchdogs_def)
  from tick_result [OF assms(2) this assms(3)] show ?thesis by (auto split: run.splits)
qed

theorem tick_fires_the_expired_witness:
  "\<not> returns (rte_watchdog_timer_tick armed (clock_at STATUS_OK 150)) \<and>
    returns (rte_watchdog_timer_tick armed (clock_at STATUS_OK 149))"
proof -
  have slot: "wm_pool armed ! 0 = zero_watchdog\<lparr>wd_in_use := True, wd_active := True,
      wd_config := sample_watchdog_config, wd_deadline_ms := 150, wd_last_kick_ms := 50\<rparr>"
    and rest: "0 < i \<Longrightarrow> i < 8 \<Longrightarrow> wm_pool armed ! i = zero_watchdog" for i
    by (simp_all add: armed_def)
  have on: "wm_initialized armed" by (simp add: armed_def)
  have late: "expired armed 150 0" "stops (wm_pool armed ! 0)"
    by (simp_all add: expired_def slot is_supervising_def zero_watchdog_def stops_def sample_watchdog_config_def)
  have early: "\<not> expired armed 149 i" if "i < 8" for i
    using that rest [of i] slot
    by (cases "i = 0") (simp_all add: expired_def is_supervising_def zero_watchdog_def)
  from tick_fires_the_expired [OF armed_run on clock_now, of 150] late
  have "\<not> returns (rte_watchdog_timer_tick armed (clock_at STATUS_OK 150))"
    by (cases "rte_watchdog_timer_tick armed (clock_at STATUS_OK 150)")
      (auto simp: WATCHDOG_MAX_COUNT_def)
  moreover from tick_fires_the_expired [OF armed_run on clock_now, of 149] early
  have "returns (rte_watchdog_timer_tick armed (clock_at STATUS_OK 149))"
    by (cases "rte_watchdog_timer_tick armed (clock_at STATUS_OK 149)")
      (auto simp: WATCHDOG_MAX_COUNT_def)
  ultimately show ?thesis ..
qed

text \<open>A clock that fails does not blind the watchdogs: while any of them is supervising, the next tick
  enters the safe state with the reason of a failed clock and does not return; with none supervising the
  tick changes nothing.\<close>

theorem clock_failure_stops_supervision:
  assumes "wm_initialized m" "rte_timer_now s = (st, t, s1)" "st \<noteq> STATUS_OK"
  shows "if \<exists>i < WATCHDOG_MAX_COUNT. is_supervising (wm_pool m ! i)
    then \<exists>name s2. rte_watchdog_timer_tick m s =
      Halted (m, run_state (rte_safestate_enter LEVEL_SAFE REASON_CLOCK_FAILED name s2))
    else rte_watchdog_timer_tick m s = Returned () (m, s1)"
proof (cases "\<exists>i < WATCHDOG_MAX_COUNT. is_supervising (wm_pool m ! i)")
  case True
  then have "List.find (\<lambda>i. is_supervising (wm_pool m ! i)) [0..<WATCHDOG_MAX_COUNT] \<noteq> None"
    by (auto simp: find_None_iff_all simp del: not_None_eq)
  then obtain i where "List.find (\<lambda>i. is_supervising (wm_pool m ! i)) [0..<WATCHDOG_MAX_COUNT] = Some i"
    by blast
  moreover from find_SomeD [OF this] have "i < WATCHDOG_MAX_COUNT" by simp
  ultimately show ?thesis using assms True
    by (auto simp: rte_watchdog_timer_tick_def first_supervising_index_def enter_halts Let_def)
next
  case False
  then have "List.find (\<lambda>i. is_supervising (wm_pool m ! i)) [0..<WATCHDOG_MAX_COUNT] = None"
    by (simp add: find_None_iff_all)
  with assms False show ?thesis
    by (simp add: rte_watchdog_timer_tick_def first_supervising_index_def)
qed

theorem clock_failure_stops_supervision_witness:
  "\<not> returns (rte_watchdog_timer_tick armed (clock_at STATUS_HARDWARE_FAULT 0))"
proof -
  have "wm_initialized armed" "is_supervising (wm_pool armed ! 0)"
    by (simp_all add: armed_def is_supervising_def zero_watchdog_def)
  then show ?thesis
    using clock_failure_stops_supervision [OF _ clock_now, of armed STATUS_HARDWARE_FAULT 0]
    by (auto simp: WATCHDOG_MAX_COUNT_def split: if_splits)
qed

end
