(* ===== verification/Checkpoint.thy ===== *)
theory Checkpoint
  imports Voter Vital_Message Buffer Watchdog Dual_Msgchannel
begin

text \<open>
  The bounded rendezvous of redundant channels, \<^verbatim>\<open>src/redundancy/checkpoint/rte_checkpoint.c\<close>:
  rounds of sending a marker and waiting for the peers' markers, over the channels of a voter. The
  variables of the loop, with the channel store, the watchdog pool and the platform, are a record.
  \<open>stack r i\<close> is what the local reply buffer holds before channel \<open>i\<close> is read in a round with \<open>r\<close>
  rounds left.
\<close>

section \<open>Data\<close>

definition CHECKPOINT_SENDER_ID :: u32 where "CHECKPOINT_SENDER_ID = 0xC4EC0001"
definition CHECKPOINT_RETRY_ROUND_MS :: duration_ms where "CHECKPOINT_RETRY_ROUND_MS = 250"
definition CHECKPOINT_MIN_ROUNDS_PER_BUDGET :: duration_ms where "CHECKPOINT_MIN_ROUNDS_PER_BUDGET = 3"
definition CHECKPOINT_MAX_ROUNDS :: nat where "CHECKPOINT_MAX_ROUNDS = 64"

record rte_checkpoint_config =
  cp_checkpoint_id :: u32
  cp_max_delay_ms :: duration_ms
  cp_expected_node_count :: u32
  cp_watchdog :: "nat option"

record 'x checkpoint_loop =
  cl_confirmed :: "bool list"
  cl_count :: nat
  cl_now_ms :: timestamp_ms
  cl_last_send :: rte_status
  cl_last_recv :: rte_status
  cl_mem :: "'x chan_mem"
  cl_dogs :: "'x watchdog_manager"
  cl_rte :: "'x rte"

section \<open>Messages\<close>

text \<open>Of the local message nothing is left after creation.\<close>

definition build_arrival_message :: "u32 \<Rightarrow> 'x rte \<Rightarrow> rte_status \<times> rte_vital_message option \<times> 'x rte" where
  "build_arrival_message checkpoint_id s =
    (let (status, buf) = rte_buffer_init (Some \<lparr>bf_data = None, bf_capacity = 0, bf_length = 0\<rparr>)
           (Some (replicate 4 0)) 4;
         (status1, buf1) = (if status = STATUS_OK then rte_buffer_write_u32_le buf checkpoint_id
           else (status, buf))
     in if status1 = STATUS_OK
        then rte_checksum_vital_message_create (Some zero_message) CHECKPOINT_SENDER_ID checkpoint_id
               (case buf1 of None \<Rightarrow> None | Some b \<Rightarrow> bf_data b) 4 s
        else (status1, Some zero_message, s))"

definition reply_confirms_checkpoint :: "rte_vital_message \<Rightarrow> u32 \<Rightarrow> 'x rte \<Rightarrow> bool \<times> 'x rte" where
  "reply_confirms_checkpoint reply checkpoint_id s =
    (let (verify_status, payload_out, payload_size_out, cm) =
           rte_checksum_vital_message_verify (Some reply) checkpoint_id (Some (replicate 4 0)) 4 (Some 0)
             (g_checksum s);
         confirmed =
           (if verify_status = STATUS_OK \<and> payload_size_out = Some 4
            then
              let (st, buf) = rte_buffer_init (Some \<lparr>bf_data = None, bf_capacity = 0, bf_length = 0\<rparr>)
                    payload_out 4
              in if st = STATUS_OK
                 then
                   let (_, buf1) = rte_buffer_set_length buf 4;
                       (st2, decoded_id) = rte_buffer_read_u32_le buf1 0 (Some 0)
                   in st2 = STATUS_OK \<and> decoded_id = Some checkpoint_id
                 else False
            else False)
     in (confirmed, s\<lparr>g_checksum := cm\<rparr>))"

definition remaining_budget_ms :: "timestamp_ms \<Rightarrow> timestamp_ms \<Rightarrow> duration_ms \<Rightarrow> duration_ms" where
  "remaining_budget_ms start_ms now_ms max_delay_ms =
    (let elapsed_ms = now_ms - start_ms
     in if elapsed_ms \<ge> ucast max_delay_ms then 0 else max_delay_ms - ucast elapsed_ms)"

section \<open>Rounds\<close>

definition checkpoint_try_channel ::
  "'x rte_voter option \<Rightarrow> nat \<Rightarrow> rte_vital_message \<Rightarrow> u32 \<Rightarrow> timestamp_ms \<Rightarrow> duration_ms \<Rightarrow> duration_ms \<Rightarrow>
    bytes \<Rightarrow> 'x checkpoint_loop \<Rightarrow> bool \<times> 'x checkpoint_loop" where
  "checkpoint_try_channel voter i arrival_msg checkpoint_id start_ms max_delay_ms round_cap_ms reply l =
    (let channel = rte_voter_get_channel voter i;
         (send_status, mem1, s1) = rte_channel_send channel (Some (vital_message_bytes arrival_msg)) 272
           (cl_mem l) (cl_rte l);
         l1 = l\<lparr>cl_last_send := send_status, cl_mem := mem1, cl_rte := s1\<rparr>
     in if send_status = STATUS_OK
        then
          let (_, now_ms, s2) = rte_timer_now s1;
              budget = remaining_budget_ms start_ms now_ms max_delay_ms;
              sub_budget_ms = (if budget > round_cap_ms then round_cap_ms else budget);
              (recv_status, raw, mem2, s3) = rte_channel_receive channel (Some reply) 272 sub_budget_ms mem1 s2;
              l2 = l1\<lparr>cl_now_ms := now_ms, cl_last_recv := recv_status, cl_mem := mem2, cl_rte := s3\<rparr>
          in if recv_status = STATUS_OK
             then
               let (confirmed, s4) = reply_confirms_checkpoint
                     (vital_message_of_bytes (case raw of None \<Rightarrow> reply | Some b \<Rightarrow> b)) checkpoint_id s3
               in (confirmed, l2\<lparr>cl_rte := s4\<rparr>)
             else (False, l2)
        else (False, l1))"

text \<open>One round over the remaining channels.\<close>

fun checkpoint_round ::
  "nat list \<Rightarrow> 'x rte_voter option \<Rightarrow> rte_vital_message \<Rightarrow> u32 \<Rightarrow> timestamp_ms \<Rightarrow> duration_ms \<Rightarrow>
    duration_ms \<Rightarrow> (nat \<Rightarrow> bytes) \<Rightarrow> 'x checkpoint_loop \<Rightarrow> 'x checkpoint_loop" where
  "checkpoint_round [] voter msg cid start_ms max_delay_ms cap stack l = l"
| "checkpoint_round (i # is) voter msg cid start_ms max_delay_ms cap stack l =
    (if i < VOTER_MAX_CHANNELS \<and> cl_confirmed l ! i
     then checkpoint_round is voter msg cid start_ms max_delay_ms cap stack l
     else
       let (ok, l1) = checkpoint_try_channel voter i msg cid start_ms max_delay_ms cap (stack i) l
       in checkpoint_round is voter msg cid start_ms max_delay_ms cap stack
            (if ok
             then l1\<lparr>cl_confirmed := (if i < VOTER_MAX_CHANNELS then (cl_confirmed l1)[i := True]
                        else cl_confirmed l1),
                     cl_count := cl_count l1 + 1\<rparr>
             else l1))"

definition kick_watchdog :: "nat option \<Rightarrow> 'x checkpoint_loop \<Rightarrow> 'x checkpoint_loop" where
  "kick_watchdog watchdog l =
    (case watchdog of None \<Rightarrow> l
     | Some _ \<Rightarrow>
         let (_, dogs, s1) = rte_watchdog_kick watchdog (cl_dogs l) (cl_rte l)
         in l\<lparr>cl_dogs := dogs, cl_rte := s1\<rparr>)"

text \<open>The loop, with the number of rounds that are left.\<close>

fun checkpoint_rounds ::
  "nat \<Rightarrow> 'x rte_voter option \<Rightarrow> rte_vital_message \<Rightarrow> rte_checkpoint_config \<Rightarrow> timestamp_ms \<Rightarrow> duration_ms \<Rightarrow>
    (nat \<Rightarrow> nat \<Rightarrow> bytes) \<Rightarrow> 'x checkpoint_loop \<Rightarrow> 'x checkpoint_loop" where
  "checkpoint_rounds 0 voter msg config start_ms cap stack l = l"
| "checkpoint_rounds (Suc n) voter msg config start_ms cap stack l =
    (if cl_count l < unat (cp_expected_node_count config) \<and>
        remaining_budget_ms start_ms (cl_now_ms l) (cp_max_delay_ms config) > 0
     then
       let l1 = checkpoint_round [0..<rte_voter_get_channel_count voter] voter msg
             (cp_checkpoint_id config) start_ms (cp_max_delay_ms config) cap (stack (Suc n)) l;
           (_, now_ms, s1) = rte_timer_now (cl_rte l1);
           l2 = kick_watchdog (cp_watchdog config) (l1\<lparr>cl_now_ms := now_ms, cl_rte := s1\<rparr>)
       in checkpoint_rounds n voter msg config start_ms cap stack l2
     else l)"

section \<open>The rendezvous\<close>

fun decimal :: "nat \<Rightarrow> string" where
  "decimal n = (if n < 10 then [char_of (48 + n)] else decimal (n div 10) @ [char_of (48 + n mod 10)])"

declare decimal.simps [simp del]

fun status_code :: "rte_status \<Rightarrow> nat" where
  "status_code STATUS_OK = 0"
| "status_code STATUS_INVALID_PARAM = 1"
| "status_code STATUS_NOT_INITIALIZED = 2"
| "status_code STATUS_ALREADY_INITIALIZED = 3"
| "status_code STATUS_TIMEOUT = 4"
| "status_code STATUS_RESOURCE_EXHAUSTED = 5"
| "status_code STATUS_NOT_SUPPORTED = 6"
| "status_code STATUS_NOT_IMPLEMENTED = 7"
| "status_code STATUS_HARDWARE_FAULT = 8"
| "status_code STATUS_DATA_CORRUPTION = 9"
| "status_code STATUS_INTERNAL_ERROR = 10"
| "status_code STATUS_VALUE_OUT_OF_RANGE = 11"
| "status_code STATUS_INVALID_STATE = 12"
| "status_code STATUS_NOT_CONNECTED = 13"
| "status_code (STATUS_UNKNOWN n) = n"

definition diag_message :: "nat \<Rightarrow> nat \<Rightarrow> nat \<Rightarrow> rte_status \<Rightarrow> rte_status \<Rightarrow> string" where
  "diag_message confirmed expected channels last_send last_recv =
    take 95 (''checkpoint confirmed='' @ decimal confirmed @ '' expected='' @ decimal expected @
      '' channels='' @ decimal channels @ '' last_send='' @ decimal (status_code last_send) @
      '' last_recv='' @ decimal (status_code last_recv))"

definition round_cap :: "duration_ms \<Rightarrow> duration_ms" where
  "round_cap max_delay_ms =
    (let budget_based_round_cap_ms = max_delay_ms div CHECKPOINT_MIN_ROUNDS_PER_BUDGET
     in if budget_based_round_cap_ms > 0 \<and> budget_based_round_cap_ms < CHECKPOINT_RETRY_ROUND_MS
        then budget_based_round_cap_ms else CHECKPOINT_RETRY_ROUND_MS)"

definition rte_channel_checkpoint ::
  "'x rte_voter option \<Rightarrow> rte_checkpoint_config option \<Rightarrow> (nat \<Rightarrow> nat \<Rightarrow> bytes) \<Rightarrow> 'x chan_mem \<Rightarrow>
    'x watchdog_manager \<Rightarrow> 'x rte \<Rightarrow>
    (rte_status, 'x chan_mem \<times> 'x watchdog_manager \<times> 'x rte) run" where
  "rte_channel_checkpoint voter config stack mem dogs s =
    (case (voter, config) of
       (Some _, Some cfg) \<Rightarrow>
         let channel_count = rte_voter_get_channel_count voter
         in if cp_expected_node_count cfg = 0 \<or> unat (cp_expected_node_count cfg) > channel_count
            then Returned STATUS_INVALID_PARAM (mem, dogs, s)
            else
              let (status, arrival, s1) = build_arrival_message (cp_checkpoint_id cfg) s
              in (case arrival of
                    None \<Rightarrow> Returned status (mem, dogs, s1)
                  | Some msg \<Rightarrow>
                      if status \<noteq> STATUS_OK then Returned status (mem, dogs, s1)
                      else
                        let (_, start_ms, s2) = rte_timer_now s1;
                            l = checkpoint_rounds CHECKPOINT_MAX_ROUNDS voter msg cfg start_ms
                              (round_cap (cp_max_delay_ms cfg)) stack
                              \<lparr>cl_confirmed = replicate VOTER_MAX_CHANNELS False, cl_count = 0,
                               cl_now_ms = start_ms, cl_last_send = STATUS_OK, cl_last_recv = STATUS_OK,
                               cl_mem = mem, cl_dogs = dogs, cl_rte = s2\<rparr>
                        in if cl_count l \<ge> unat (cp_expected_node_count cfg)
                           then
                             let l1 = kick_watchdog (cp_watchdog cfg) l
                             in Returned STATUS_OK (cl_mem l1, cl_dogs l1, cl_rte l1)
                           else (case rte_safestate_enter LEVEL_SAFE REASON_CHECKPOINT_TIMEOUT
                                   (Some (diag_message (cl_count l) (unat (cp_expected_node_count cfg))
                                      channel_count (cl_last_send l) (cl_last_recv l))) (cl_rte l) of
                                   Returned _ s3 \<Rightarrow> Returned STATUS_TIMEOUT (cl_mem l, cl_dogs l, s3)
                                 | Halted s3 \<Rightarrow> Halted (cl_mem l, cl_dogs l, s3)))
     | _ \<Rightarrow> Returned STATUS_INVALID_PARAM (mem, dogs, s))"

section \<open>What counts as a confirmation\<close>

definition confirming :: "rte_crc64_polynomial \<Rightarrow> u32 \<Rightarrow> rte_vital_message \<Rightarrow> bool" where
  "confirming p cid m \<longleftrightarrow> vm_crc64 m = crc64_bits (crc_poly p) (vital_message_covered m) \<and>
     vm_sequence_number m = cid \<and> vm_payload_size m = 4 \<and> take 4 (vm_payload m) = le_bytes 4 cid"

lemma length_4_cases: "length xs = 4 \<Longrightarrow> \<exists>a b c d. xs = [a, b, c, d]"
  by (auto simp: length_Suc_conv eval_nat_numeral)

lemma reply_confirms:
  assumes "reply_confirms_checkpoint m cid s = (True, s')" "cm_ready p (g_checksum s)" "wf_message m"
  shows "confirming p cid m"
proof -
  obtain st out sz cm where ver: "rte_checksum_vital_message_verify (Some m) cid (Some (replicate 4 0)) 4
      (Some 0) (g_checksum s) = (st, out, sz, cm)" by (metis prod_cases4)
  have st: "st = STATUS_OK" "sz = Some 4"
    using assms(1) by (auto simp: reply_confirms_checkpoint_def ver split: if_splits)
  note acc = message_verify_accepts [OF ver [unfolded st(1)] assms(2,3)]
  then have size: "vm_payload_size m = 4" using st(2) by simp
  obtain cm2 where "rte_checksum_vital_message_verify (Some m) cid (Some (replicate 4 0)) 4
      (Some 0) (g_checksum s) = (STATUS_OK, Some (copy_at 0 (take 4 (vm_payload m)) (replicate 4 0)),
      Some (vm_payload_size m), cm2)"
    using message_verify_ok [OF assms(2,3), of cid 4 "replicate 4 0" 0] acc size by auto
  moreover have "length (vm_payload m) = 248" using assms(3) by (simp add: wf_message_def)
  ultimately have out: "out = Some (take 4 (vm_payload m))" using ver by (simp add: copy_at_def)
  have len: "length (take 4 (vm_payload m)) = 4" using \<open>length (vm_payload m) = 248\<close> by simp
  have "rte_buffer_read_u32_le (Some \<lparr>bf_data = Some (take 4 (vm_payload m)), bf_capacity = 4, bf_length = 4\<rparr>) 0
      (Some 0) = (STATUS_OK, Some cid)"
    using assms(1) by (auto simp: reply_confirms_checkpoint_def ver st out rte_buffer_init_def
        rte_buffer_set_length_def prod_eq_iff split: prod.splits)
  moreover obtain a b c d where "take 4 (vm_payload m) = [a, b, c, d]"
    using length_4_cases [OF len] by blast
  ultimately have "le_word (take 4 (vm_payload m)) = cid"
    by (simp add: u32_le.rd_decodes read_value_def rte_buffer_peek_bytes_def le_word_4 del: le_word.simps)
  then have "take 4 (vm_payload m) = le_bytes 4 cid"
    using le_bytes_le_word [of "take 4 (vm_payload m)", where 'a = 32] len by simp
  with acc size show ?thesis by (simp add: confirming_def)
qed

section \<open>The channels of a rendezvous\<close>

text \<open>
  \<open>J\<close> is what is known of the platform, throughout: a running checksum manager, kept by the clock, by
  checksum computations and by the channels' callbacks, which fill the buffer they are given. A
  channel can confirm when in some such state its receive callback delivers a confirming reply.
\<close>

definition rendezvous_platform ::
  "('x rte \<Rightarrow> bool) \<Rightarrow> rte_crc64_polynomial \<Rightarrow> 'x rte_voter \<Rightarrow> 'x chan_mem \<Rightarrow> bool" where
  "rendezvous_platform J p v mem \<longleftrightarrow> (\<forall>s. J s \<longrightarrow> cm_ready p (g_checksum s)) \<and>
     (\<forall>s cm. J s \<longrightarrow> cm_ready p cm \<longrightarrow> J (s\<lparr>g_checksum := cm\<rparr>)) \<and>
     (\<forall>s st t s'. J s \<longrightarrow> rte_timer_now s = (st, t, s') \<longrightarrow> J s') \<and>
     (\<forall>q \<in> set (vo_channels v). \<forall>h b s st s'. J s \<longrightarrow> ch_send (mem q) h b s = (st, s') \<longrightarrow> J s') \<and>
     (\<forall>q \<in> set (vo_channels v). \<forall>h b t s st b' s'. J s \<longrightarrow> ch_recv (mem q) h b t s = (st, b', s') \<longrightarrow>
        J s' \<and> length b' = length b)"

definition can_confirm ::
  "('x rte \<Rightarrow> bool) \<Rightarrow> rte_crc64_polynomial \<Rightarrow> u32 \<Rightarrow> 'x rte_channel \<Rightarrow> bool" where
  "can_confirm J p cid c \<longleftrightarrow> (\<exists>b t s b' s'. J s \<and> ch_recv c (ch_handle c) b t s = (STATUS_OK, b', s') \<and>
     confirming p cid (vital_message_of_bytes b'))"

text \<open>The invariant of the rounds.\<close>

definition rendezvous_inv ::
  "('x rte \<Rightarrow> bool) \<Rightarrow> rte_crc64_polynomial \<Rightarrow> 'x rte_voter \<Rightarrow> 'x chan_mem \<Rightarrow> u32 \<Rightarrow> 'x checkpoint_loop \<Rightarrow> bool" where
  "rendezvous_inv J p v mem cid l \<longleftrightarrow> J (cl_rte l) \<and> length (cl_confirmed l) = VOTER_MAX_CHANNELS \<and>
     (\<forall>q. ch_send (cl_mem l q) = ch_send (mem q) \<and> ch_recv (cl_mem l q) = ch_recv (mem q) \<and>
        ch_handle (cl_mem l q) = ch_handle (mem q)) \<and>
     cl_count l = card {i. i < VOTER_MAX_CHANNELS \<and> cl_confirmed l ! i} \<and>
     (\<forall>i < VOTER_MAX_CHANNELS. cl_confirmed l ! i \<longrightarrow> i < length (vo_channels v) \<and>
        can_confirm J p cid (mem (vo_channels v ! i)))"

lemma inv_cong:
  "rendezvous_inv J p v mem cid l \<Longrightarrow> cl_confirmed l' = cl_confirmed l \<Longrightarrow> cl_count l' = cl_count l \<Longrightarrow>
    cl_mem l' = cl_mem l \<Longrightarrow> J (cl_rte l') \<Longrightarrow> rendezvous_inv J p v mem cid l'"
  by (simp add: rendezvous_inv_def)

lemma channel_send_J:
  assumes "rte_channel_send (Some q) d n mem s = (st, mem', s')" "J s"
    and "\<And>h b s st s'. J s \<Longrightarrow> ch_send (mem q) h b s = (st, s') \<Longrightarrow> J s'"
  shows "J s' \<and> (\<forall>q. ch_send (mem' q) = ch_send (mem q) \<and> ch_recv (mem' q) = ch_recv (mem q) \<and>
    ch_handle (mem' q) = ch_handle (mem q))"
  using assms by (auto simp: rte_channel_send_def split: option.splits prod.splits if_splits)

lemma channel_receive_J:
  assumes "rte_channel_receive (Some q) (Some d) n t mem s = (st, d', mem', s')" "J s" "length d = n"
    and "\<And>h b t s st b' s'. J s \<Longrightarrow> ch_recv (mem q) h b t s = (st, b', s') \<Longrightarrow> J s' \<and> length b' = length b"
  shows "J s' \<and> (\<forall>q. ch_send (mem' q) = ch_send (mem q) \<and> ch_recv (mem' q) = ch_recv (mem q) \<and>
      ch_handle (mem' q) = ch_handle (mem q)) \<and>
    (st = STATUS_OK \<longrightarrow> (\<exists>b'. d' = Some b' \<and> length b' = n \<and>
       ch_recv (mem q) (ch_handle (mem q)) d t s = (STATUS_OK, b', s')))"
proof -
  obtain st1 b1 s1 where rcv: "ch_recv (mem q) (ch_handle (mem q)) (take n d) t s = (st1, b1, s1)"
    by (metis prod_cases3)
  from assms(4) [OF assms(2) rcv] assms(3) have "J s1" "length b1 = n" by simp_all
  then show ?thesis
    using assms(1-3) rcv by (auto simp: rte_channel_receive_def split: if_splits)
qed

lemma reply_confirms_J:
  assumes "reply_confirms_checkpoint m cid s = (r, s')" "rendezvous_platform J p v mem" "J s"
  shows "J s'"
proof -
  obtain st out sz cm where ver: "rte_checksum_vital_message_verify (Some m) cid (Some (replicate 4 0)) 4
      (Some 0) (g_checksum s) = (st, out, sz, cm)" by (metis prod_cases4)
  have "cm_ready p cm"
    using cm_ready_message_verify [OF ver, of p] assms(2,3) by (simp add: rendezvous_platform_def)
  moreover have "s' = s\<lparr>g_checksum := cm\<rparr>"
    using assms(1) by (simp add: reply_confirms_checkpoint_def ver Let_def split: prod.splits)
  ultimately show ?thesis using assms(2,3) by (simp add: rendezvous_platform_def)
qed

lemma try_channel_inv:
  assumes "checkpoint_try_channel (Some v) i msg cid start mx cap reply l = (ok, l')"
    and "rendezvous_platform J p v mem" "rendezvous_inv J p v mem cid l"
    and "i < length (vo_channels v)" "length reply = 272"
  shows "rendezvous_inv J p v mem cid l' \<and> cl_confirmed l' = cl_confirmed l \<and> cl_count l' = cl_count l \<and>
    (ok \<longrightarrow> can_confirm J p cid (mem (vo_channels v ! i)))"
proof -
  let ?q = "vo_channels v ! i"
  have q: "?q \<in> set (vo_channels v)" "rte_voter_get_channel (Some v) i = Some ?q"
    using assms(4) by (simp_all add: rte_voter_get_channel_def)
  have same: "ch_send (cl_mem l q) = ch_send (mem q) \<and> ch_recv (cl_mem l q) = ch_recv (mem q) \<and>
      ch_handle (cl_mem l q) = ch_handle (mem q)" for q
    using assms(3) by (simp add: rendezvous_inv_def)
  note pf = assms(2) [unfolded rendezvous_platform_def]
  have J: "J (cl_rte l)" using assms(3) by (simp add: rendezvous_inv_def)
  obtain st mem1 s1 where snd: "rte_channel_send (Some ?q) (Some (vital_message_bytes msg)) 272 (cl_mem l)
      (cl_rte l) = (st, mem1, s1)" by (metis prod_cases3)
  have keep: "J s \<Longrightarrow> ch_send (cl_mem l ?q) h b s = (st, s') \<Longrightarrow> J s'" for h b s st s'
    using pf same q(1) by metis
  have "J s1 \<and> (\<forall>q. ch_send (mem1 q) = ch_send (cl_mem l q) \<and> ch_recv (mem1 q) = ch_recv (cl_mem l q) \<and>
      ch_handle (mem1 q) = ch_handle (cl_mem l q))"
    by (rule channel_send_J [where J = J, OF snd J]) (rule keep)
  then have s1: "J s1" and same1: "\<And>q. ch_send (mem1 q) = ch_send (mem q) \<and>
      ch_recv (mem1 q) = ch_recv (mem q) \<and> ch_handle (mem1 q) = ch_handle (mem q)"
    using same by auto
  let ?l1 = "l\<lparr>cl_last_send := st, cl_mem := mem1, cl_rte := s1\<rparr>"
  have inv1: "rendezvous_inv J p v mem cid ?l1" using assms(3) s1 same1 by (simp add: rendezvous_inv_def)
  show ?thesis
  proof (cases "st = STATUS_OK")
    case False
    then have "ok = False \<and> l' = ?l1"
      using assms(1) by (simp add: checkpoint_try_channel_def q snd)
    with inv1 show ?thesis by simp
  next
    case True
    obtain ts now s2 where now: "rte_timer_now s1 = (ts, now, s2)" by (metis prod_cases3)
    have s2: "J s2" using pf s1 now by metis
    define t where "t = (if remaining_budget_ms start now mx > cap then cap else remaining_budget_ms start now mx)"
    obtain rs raw mem2 s3 where rcv: "rte_channel_receive (Some ?q) (Some reply) 272 t mem1 s2 =
        (rs, raw, mem2, s3)" by (metis prod_cases4)
    have keep: "J s \<Longrightarrow> ch_recv (mem1 ?q) h b t s = (st, b', s') \<Longrightarrow> J s' \<and> length b' = length b"
      for h b t s st b' s'
      using pf same1 q(1) by metis
    have got: "J s3 \<and> (\<forall>q. ch_send (mem2 q) = ch_send (mem1 q) \<and> ch_recv (mem2 q) = ch_recv (mem1 q) \<and>
        ch_handle (mem2 q) = ch_handle (mem1 q)) \<and> (rs = STATUS_OK \<longrightarrow> (\<exists>b'. raw = Some b' \<and> length b' = 272 \<and>
        ch_recv (mem1 ?q) (ch_handle (mem1 ?q)) reply t s2 = (STATUS_OK, b', s3)))"
      by (rule channel_receive_J [where J = J, OF rcv s2 assms(5)]) (rule keep)
    let ?l2 = "?l1\<lparr>cl_now_ms := now, cl_last_recv := rs, cl_mem := mem2, cl_rte := s3\<rparr>"
    have inv2: "rendezvous_inv J p v mem cid ?l2" using inv1 got same1 by (simp add: rendezvous_inv_def)
    note run = assms(1) [unfolded checkpoint_try_channel_def q(2) snd Let_def split_conv now,
        folded t_def, unfolded rcv split_conv]
    show ?thesis
    proof (cases "rs = STATUS_OK")
      case False
      then have "ok = False \<and> l' = ?l2" using run True by simp
      with inv2 show ?thesis by simp
    next
      case ok: True
      then obtain b where b: "raw = Some b" "length b = 272"
        "ch_recv (mem1 ?q) (ch_handle (mem1 ?q)) reply t s2 = (STATUS_OK, b, s3)" using got by blast
      obtain conf s4 where rep: "reply_confirms_checkpoint (vital_message_of_bytes b) cid s3 = (conf, s4)"
        by fastforce
      have res: "ok = conf \<and> l' = ?l2\<lparr>cl_rte := s4\<rparr>" using run True ok b(1) rep by simp
      have "J s4" using reply_confirms_J [where J = J, OF rep assms(2)] got by simp
      then have "rendezvous_inv J p v mem cid (?l2\<lparr>cl_rte := s4\<rparr>)"
        using inv2 by (simp add: rendezvous_inv_def)
      moreover have "can_confirm J p cid (mem ?q)" if conf
      proof -
        have "cm_ready p (g_checksum s3)" using conjunct1 [OF pf] got by simp
        moreover have "wf_message (vital_message_of_bytes b)" by (rule vital.wf_dec [OF b(2)])
        ultimately have "confirming p cid (vital_message_of_bytes b)"
          using reply_confirms [of "vital_message_of_bytes b" cid s3 s4 p] rep that by simp
        moreover have "ch_recv (mem ?q) (ch_handle (mem ?q)) reply t s2 = (STATUS_OK, b, s3)"
          using b(3) same1 by simp
        ultimately show ?thesis using s2 unfolding can_confirm_def by blast
      qed
      ultimately show ?thesis using res by simp
    qed
  qed
qed

lemma confirm_counts:
  assumes "rendezvous_inv J p v mem cid l" "i < VOTER_MAX_CHANNELS" "\<not> cl_confirmed l ! i"
    and "i < length (vo_channels v)" "can_confirm J p cid (mem (vo_channels v ! i))"
  shows "rendezvous_inv J p v mem cid
    (l\<lparr>cl_confirmed := (cl_confirmed l)[i := True], cl_count := cl_count l + 1\<rparr>)"
proof -
  have len: "length (cl_confirmed l) = VOTER_MAX_CHANNELS" using assms(1) by (simp add: rendezvous_inv_def)
  let ?C = "\<lambda>c. {j. j < VOTER_MAX_CHANNELS \<and> c ! j}"
  have "?C ((cl_confirmed l)[i := True]) = insert i (?C (cl_confirmed l))"
    using assms(2) len by (auto simp: nth_list_update)
  moreover have "finite (?C (cl_confirmed l))" by simp
  ultimately have "card (?C ((cl_confirmed l)[i := True])) = Suc (card (?C (cl_confirmed l)))"
    using assms(3) by simp
  then show ?thesis
    using assms len by (auto simp: rendezvous_inv_def nth_list_update)
qed

lemma round_inv:
  assumes "rendezvous_platform J p v mem" "rendezvous_inv J p v mem cid l"
    and "length (vo_channels v) \<le> VOTER_MAX_CHANNELS" "\<And>i. length (stack i) = 272"
    and "set is \<subseteq> {..<length (vo_channels v)}"
  shows "rendezvous_inv J p v mem cid (checkpoint_round is (Some v) msg cid start mx cap stack l)"
  using assms(2,5)
proof (induction "is" arbitrary: l)
  case (Cons i "is")
  have i: "i < length (vo_channels v)" "i < VOTER_MAX_CHANNELS" using Cons.prems assms(3) by auto
  show ?case
  proof (cases "cl_confirmed l ! i")
    case True
    with Cons i show ?thesis by simp
  next
    case False
    obtain ok l1 where attempt: "checkpoint_try_channel (Some v) i msg cid start mx cap (stack i) l = (ok, l1)"
      by fastforce
    note t = try_channel_inv [OF attempt assms(1) Cons.prems(1) i(1) assms(4)]
    have "rendezvous_inv J p v mem cid
        (l1\<lparr>cl_confirmed := (cl_confirmed l1)[i := True], cl_count := cl_count l1 + 1\<rparr>)" if ok
      using confirm_counts [of J p v mem cid l1 i] t i False that by simp
    with Cons.IH Cons.prems t False i attempt show ?thesis by simp
  qed
qed simp

lemma kick_keeps:
  "kick_watchdog w l = l' \<Longrightarrow> rendezvous_platform J p v mem \<Longrightarrow> rendezvous_inv J p v mem cid l \<Longrightarrow>
    rendezvous_inv J p v mem cid l'"
proof -
  assume a: "kick_watchdog w l = l'" "rendezvous_platform J p v mem" "rendezvous_inv J p v mem cid l"
  obtain st dogs s1 where kick: "rte_watchdog_kick w (cl_dogs l) (cl_rte l) = (st, dogs, s1)"
    by (metis prod_cases3)
  have J: "J (cl_rte l)" using a(3) by (simp add: rendezvous_inv_def)
  obtain ts now s2 where now: "rte_timer_now (cl_rte l) = (ts, now, s2)" by (metis prod_cases3)
  have "J s2" using a(2) J now unfolding rendezvous_platform_def by metis
  with J kick have "J s1"
    by (auto simp: rte_watchdog_kick_def now Let_def split: option.splits if_splits)
  with a(3) J show ?thesis
    using a(1) kick by (cases w) (auto simp: kick_watchdog_def rendezvous_inv_def)
qed

lemma rounds_inv:
  assumes "rendezvous_platform J p v mem" "rendezvous_inv J p v mem (cp_checkpoint_id cfg) l"
    and "length (vo_channels v) \<le> VOTER_MAX_CHANNELS" "\<And>r i. length (stack r i) = 272"
  shows "rendezvous_inv J p v mem (cp_checkpoint_id cfg)
    (checkpoint_rounds n (Some v) msg cfg start cap stack l)"
  using assms(2)
proof (induction n arbitrary: l)
  case (Suc n)
  let ?cid = "cp_checkpoint_id cfg"
  let ?l1 = "checkpoint_round [0..<rte_voter_get_channel_count (Some v)] (Some v) msg ?cid start
      (cp_max_delay_ms cfg) cap (stack (Suc n)) l"
  have inv1: "rendezvous_inv J p v mem ?cid ?l1"
    by (rule round_inv [OF assms(1) Suc.prems assms(3) assms(4)])
      (auto simp: rte_voter_get_channel_count_def)
  obtain ts now s1 where now: "rte_timer_now (cl_rte ?l1) = (ts, now, s1)" by (metis prod_cases3)
  have "J s1" using assms(1) inv1 now unfolding rendezvous_platform_def rendezvous_inv_def by metis
  then have "rendezvous_inv J p v mem ?cid (?l1\<lparr>cl_now_ms := now, cl_rte := s1\<rparr>)"
    using inv1 by (simp add: rendezvous_inv_def)
  from Suc.IH [OF kick_keeps [OF refl assms(1) this]] Suc.prems show ?case
    by (simp add: now Let_def)
qed simp

lemma build_Some: "build_arrival_message cid s = (st, m, s') \<Longrightarrow> m \<noteq> None"
  by (auto simp: build_arrival_message_def rte_checksum_vital_message_create_def Let_def
      split: prod.splits if_splits)

lemma build_J:
  assumes "build_arrival_message cid s = (st, m, s')" "rendezvous_platform J p v mem" "J s"
  shows "J s'"
proof -
  obtain ts now s1 where now: "rte_timer_now s = (ts, now, s1)" by (metis prod_cases3)
  have J1: "J s1" using assms(2,3) now unfolding rendezvous_platform_def by metis
  have ready: "J r \<Longrightarrow> cm_ready p (g_checksum r)" "J r \<Longrightarrow> cm_ready p cm \<Longrightarrow> J (r\<lparr>g_checksum := cm\<rparr>)" for r cm
    using assms(2) by (simp_all add: rendezvous_platform_def)
  have create: "J s2" if "rte_checksum_vital_message_create mo a q pl n s = (st2, m2, s2)" for mo a q pl n st2 m2 s2
    using that J1 assms(3) ready
    by (auto simp: rte_checksum_vital_message_create_def now with_checksum_def Let_def
        cm_ready_crc64_result split: option.splits if_splits prod.splits)
  show ?thesis using assms(1,3) create
    by (auto simp: build_arrival_message_def Let_def split: prod.splits if_splits)
qed

lemma marker_confirms:
  assumes "build_arrival_message cid s = (STATUS_OK, Some m, s')" "cm_ready p (g_checksum s)"
    and "cm_ready p (g_checksum t)"
  shows "fst (reply_confirms_checkpoint (vital_message_of_bytes (vital_message_bytes m)) cid' t) \<longleftrightarrow> cid' = cid"
    and "wf_message m"
proof -
  have init: "rte_buffer_init (Some \<lparr>bf_data = None, bf_capacity = 0, bf_length = 0\<rparr>) (Some (replicate 4 0)) 4 =
      (STATUS_OK, Some \<lparr>bf_data = Some (replicate 4 0), bf_capacity = 4, bf_length = 0\<rparr>)"
    by (simp add: rte_buffer_init_def)
  have "rte_buffer_write_u32_le (Some \<lparr>bf_data = Some (replicate 4 0), bf_capacity = 4, bf_length = 0\<rparr>) cid =
      (STATUS_OK, Some \<lparr>bf_data = Some (le_bytes 4 cid), bf_capacity = 4, bf_length = 4\<rparr>)"
    by (simp add: u32_le.wr_appends rte_buffer_append_bytes_def rte_buffer_is_valid_def copy_at_def)
  then have "rte_checksum_vital_message_create (Some zero_message) CHECKPOINT_SENDER_ID cid
      (Some (le_bytes 4 cid)) 4 s = (STATUS_OK, Some m, s')"
    using assms(1) by (simp add: build_arrival_message_def init)
  from create_ok [OF this assms(2)] have m: "wf_message m" "vm_sequence_number m = cid"
    "vm_payload_size m = 4" "vm_payload m = le_bytes 4 cid @ replicate 244 0"
    "vm_crc64 m = crc64_bits (crc_poly p) (vital_message_covered m)" by simp_all
  have dec: "vital_message_of_bytes (vital_message_bytes m) = m" by (rule vital.dec_enc [OF m(1)])
  have "cid' = cid" if "fst (reply_confirms_checkpoint m cid' t)"
  proof -
    obtain r t' where rep: "reply_confirms_checkpoint m cid' t = (r, t')" by fastforce
    with that have "confirming p cid' m" using reply_confirms [OF _ assms(3) m(1), of cid' t'] by simp
    with m(2) show ?thesis by (simp add: confirming_def)
  qed
  moreover have "fst (reply_confirms_checkpoint m cid t)"
  proof -
    obtain cm where ver: "rte_checksum_vital_message_verify (Some m) cid (Some (replicate 4 0)) 4 (Some 0)
        (g_checksum t) = (STATUS_OK, Some (le_bytes 4 cid), Some 4, cm)"
      using message_verify_ok [OF assms(3) m(1) m(5,2), of 4 "replicate 4 0" 0] m(3,4)
      by (auto simp: copy_at_def)
    have "rte_buffer_read_u32_le (Some \<lparr>bf_data = Some (le_bytes 4 cid), bf_capacity = 4, bf_length = 4\<rparr>) 0
        (Some 0) = (STATUS_OK, Some cid)"
      using u32_le.dec_enc [of cid] by (simp add: u32_le.rd_decodes read_value_def rte_buffer_peek_bytes_def)
    then show ?thesis
      by (simp add: reply_confirms_checkpoint_def ver rte_buffer_init_def rte_buffer_set_length_def)
  qed
  ultimately show "fst (reply_confirms_checkpoint (vital_message_of_bytes (vital_message_bytes m)) cid' t) \<longleftrightarrow>
      cid' = cid" unfolding dec by blast
  show "wf_message m" by (rule m(1))
qed

text \<open>The variables of the rendezvous when its loop ends.\<close>

definition rendezvous_end ::
  "'x rte_voter \<Rightarrow> rte_checkpoint_config \<Rightarrow> (nat \<Rightarrow> nat \<Rightarrow> bytes) \<Rightarrow> 'x chan_mem \<Rightarrow>
    'x watchdog_manager \<Rightarrow> 'x rte \<Rightarrow> 'x checkpoint_loop" where
  "rendezvous_end v cfg stack mem dogs s =
    (let (_, arrival, s1) = build_arrival_message (cp_checkpoint_id cfg) s;
         (_, start_ms, s2) = rte_timer_now s1
     in checkpoint_rounds CHECKPOINT_MAX_ROUNDS (Some v) (the arrival) cfg start_ms
          (round_cap (cp_max_delay_ms cfg)) stack
          \<lparr>cl_confirmed = replicate VOTER_MAX_CHANNELS False, cl_count = 0, cl_now_ms = start_ms,
           cl_last_send = STATUS_OK, cl_last_recv = STATUS_OK, cl_mem = mem, cl_dogs = dogs, cl_rte = s2\<rparr>)"

text \<open>With a running checksum manager the marker is always built.\<close>

lemma build_ok:
  assumes "cm_ready p (g_checksum s)"
  shows "\<exists>m s1. build_arrival_message cid s = (STATUS_OK, Some m, s1)"
proof -
  obtain st m s1 where arr: "build_arrival_message cid s = (st, m, s1)" by (metis prod_cases3)
  have "cm_initialized (g_checksum s) \<noteq> 0" using assms by (simp add: cm_ready_def)
  then have "st = STATUS_OK"
    using arr by (auto simp: build_arrival_message_def rte_buffer_init_def u32_le.wr_appends
        rte_buffer_append_bytes_def rte_buffer_is_valid_def rte_checksum_vital_message_create_def
        Let_def split: prod.splits)
  with build_Some [OF arr] arr show ?thesis by auto
qed

text \<open>At the end of the loop the count is the number of channels that are marked, and each of these can
  confirm.\<close>

lemma rendezvous_end_inv:
  assumes "rendezvous_platform J p v mem" "J s" "length (vo_channels v) \<le> VOTER_MAX_CHANNELS"
    and "\<And>r i. length (stack r i) = 272"
  shows "rendezvous_inv J p v mem (cp_checkpoint_id cfg) (rendezvous_end v cfg stack mem dogs s)"
proof -
  obtain st arr s1 where arr: "build_arrival_message (cp_checkpoint_id cfg) s = (st, arr, s1)"
    by (metis prod_cases3)
  obtain ts start s2 where now: "rte_timer_now s1 = (ts, start, s2)" by (metis prod_cases3)
  have "J s1" by (rule build_J [OF arr assms(1,2)])
  with assms(1) now have "J s2" unfolding rendezvous_platform_def by metis
  then have "rendezvous_inv J p v mem (cp_checkpoint_id cfg)
      \<lparr>cl_confirmed = replicate VOTER_MAX_CHANNELS False, cl_count = 0, cl_now_ms = start,
       cl_last_send = STATUS_OK, cl_last_recv = STATUS_OK, cl_mem = mem, cl_dogs = dogs, cl_rte = s2\<rparr>"
    by (simp add: rendezvous_inv_def)
  from rounds_inv [OF assms(1) this assms(3,4)] show ?thesis
    by (simp add: rendezvous_end_def arr now)
qed

lemma rendezvous_end_count:
  assumes "rendezvous_inv J p v mem cid l"
  shows "cl_count l \<le> card {i. i < length (vo_channels v) \<and> can_confirm J p cid (mem (vo_channels v ! i))}"
proof -
  have "cl_count l = card {i. i < VOTER_MAX_CHANNELS \<and> cl_confirmed l ! i}"
    using assms unfolding rendezvous_inv_def by blast
  also have "\<dots> \<le> card {i. i < length (vo_channels v) \<and> can_confirm J p cid (mem (vo_channels v ! i))}"
  proof (rule card_mono)
    show "{i. i < VOTER_MAX_CHANNELS \<and> cl_confirmed l ! i} \<subseteq>
        {i. i < length (vo_channels v) \<and> can_confirm J p cid (mem (vo_channels v ! i))}"
      using assms unfolding rendezvous_inv_def by blast
  qed simp
  finally show ?thesis .
qed

text \<open>What the rendezvous makes of the end of its loop.\<close>

lemma rendezvous_result:
  assumes "cm_ready p (g_checksum s)" "cp_expected_node_count cfg \<noteq> 0"
    and "unat (cp_expected_node_count cfg) \<le> length (vo_channels v)"
    and "l = rendezvous_end v cfg stack mem dogs s"
  shows "rte_channel_checkpoint (Some v) (Some cfg) stack mem dogs s =
    (if unat (cp_expected_node_count cfg) \<le> cl_count l
     then Returned STATUS_OK (cl_mem (kick_watchdog (cp_watchdog cfg) l),
       cl_dogs (kick_watchdog (cp_watchdog cfg) l), cl_rte (kick_watchdog (cp_watchdog cfg) l))
     else Halted (cl_mem l, cl_dogs l, case s_handlers (cl_rte l) 1 of None \<Rightarrow> cl_rte l
       | Some h \<Rightarrow> (cl_rte l)\<lparr>ext := h LEVEL_SAFE REASON_CHECKPOINT_TIMEOUT
           (Some (diag_message (cl_count l) (unat (cp_expected_node_count cfg)) (length (vo_channels v))
             (cl_last_send l) (cl_last_recv l))) (ext (cl_rte l))\<rparr>))"
proof -
  obtain m s1 where arr: "build_arrival_message (cp_checkpoint_id cfg) s = (STATUS_OK, Some m, s1)"
    using build_ok [OF assms(1)] by blast
  obtain ts start s2 where now: "rte_timer_now s1 = (ts, start, s2)" by (metis prod_cases3)
  have l: "l = checkpoint_rounds CHECKPOINT_MAX_ROUNDS (Some v) m cfg start
      (round_cap (cp_max_delay_ms cfg)) stack
      \<lparr>cl_confirmed = replicate VOTER_MAX_CHANNELS False, cl_count = 0, cl_now_ms = start,
       cl_last_send = STATUS_OK, cl_last_recv = STATUS_OK, cl_mem = mem, cl_dogs = dogs, cl_rte = s2\<rparr>"
    by (simp add: assms(4) rendezvous_end_def arr now)
  have count: "rte_voter_get_channel_count (Some v) = length (vo_channels v)"
    by (simp add: rte_voter_get_channel_count_def)
  show ?thesis
    using assms(2,3)
    by (simp add: rte_channel_checkpoint_def count arr now Let_def flip: l)
      (auto simp: rte_safestate_enter_def Let_def simp flip: l split: option.splits)
qed

lemma rendezvous_confirmed:
  assumes "rte_channel_checkpoint (Some v) (Some cfg) stack mem dogs s = Returned STATUS_OK y"
    and "rendezvous_platform J p v mem" "J s" "length (vo_channels v) \<le> VOTER_MAX_CHANNELS"
    and "\<And>r i. length (stack r i) = 272"
  shows "unat (cp_expected_node_count cfg) \<le> card {i. i < length (vo_channels v) \<and>
    can_confirm J p (cp_checkpoint_id cfg) (mem (vo_channels v ! i))}"
proof -
  let ?l = "rendezvous_end v cfg stack mem dogs s"
  have ready: "cm_ready p (g_checksum s)" using assms(2,3) by (simp add: rendezvous_platform_def)
  have "cp_expected_node_count cfg \<noteq> 0 \<and> unat (cp_expected_node_count cfg) \<le> length (vo_channels v)"
    using assms(1)
    by (auto simp: rte_channel_checkpoint_def rte_voter_get_channel_count_def Let_def split: if_splits)
  with rendezvous_result [OF ready, of cfg v ?l] assms(1)
  have "unat (cp_expected_node_count cfg) \<le> cl_count ?l" by (auto split: if_splits)
  also have "\<dots> \<le> card {i. i < length (vo_channels v) \<and>
      can_confirm J p (cp_checkpoint_id cfg) (mem (vo_channels v ! i))}"
    by (rule rendezvous_end_count, rule rendezvous_end_inv [OF assms(2-4)]) (rule assms(5))
  finally show ?thesis .
qed

section \<open>What a rendezvous keeps\<close>

text \<open>A fact about the platform that neither a checksum nor a reading of the clock changes, and that no
  callback of a channel changes, holds after every rendezvous that returns.\<close>

definition platform_keeps :: "('x rte \<Rightarrow> bool) \<Rightarrow> bool" where
  "platform_keeps I \<longleftrightarrow> (\<forall>s cm. I s \<longrightarrow> I (s\<lparr>g_checksum := cm\<rparr>)) \<and>
     (\<forall>s st t s'. I s \<longrightarrow> rte_timer_now s = (st, t, s') \<longrightarrow> I s')"

definition channels_keep :: "('x rte \<Rightarrow> bool) \<Rightarrow> 'x chan_mem \<Rightarrow> bool" where
  "channels_keep I mem \<longleftrightarrow> (\<forall>q h b s st s'. I s \<longrightarrow> ch_send (mem q) h b s = (st, s') \<longrightarrow> I s') \<and>
     (\<forall>q h b t s st b' s'. I s \<longrightarrow> ch_recv (mem q) h b t s = (st, b', s') \<longrightarrow> I s')"

definition same_callbacks :: "'x chan_mem \<Rightarrow> 'x chan_mem \<Rightarrow> bool" where
  "same_callbacks mem mem' \<longleftrightarrow>
     (\<forall>q. ch_send (mem' q) = ch_send (mem q) \<and> ch_recv (mem' q) = ch_recv (mem q))"

definition loop_keeps :: "('x rte \<Rightarrow> bool) \<Rightarrow> 'x chan_mem \<Rightarrow> 'x checkpoint_loop \<Rightarrow> bool" where
  "loop_keeps I mem l \<longleftrightarrow> I (cl_rte l) \<and> same_callbacks mem (cl_mem l)"

lemma same_callbacks_keep: "same_callbacks mem mem' \<Longrightarrow> channels_keep I mem' = channels_keep I mem"
  by (simp add: same_callbacks_def channels_keep_def)

lemma same_callbacks_trans: "same_callbacks a b \<Longrightarrow> same_callbacks b c \<Longrightarrow> same_callbacks a c"
  by (simp add: same_callbacks_def)

lemma send_keeps:
  assumes "rte_channel_send q d n mem s = (st, mem', s')" "channels_keep I mem" "I s"
  shows "I s' \<and> same_callbacks mem mem'"
proof
  show "same_callbacks mem mem'"
    using assms(1) by (auto simp: rte_channel_send_def same_callbacks_def note_send_def Let_def
        split: option.splits prod.splits if_splits)
  have "s' = s \<or> (\<exists>p b. (st, s') = ch_send (mem p) (ch_handle (mem p)) b s)"
    using assms(1) by (auto simp: rte_channel_send_def split: option.splits prod.splits if_splits) metis
  then show "I s'" using assms(2,3) unfolding channels_keep_def by metis
qed

lemma receive_keeps:
  assumes "rte_channel_receive q d n t mem s = (st, d', mem', s')" "channels_keep I mem" "I s"
  shows "I s' \<and> same_callbacks mem mem'"
proof
  show "same_callbacks mem mem'"
    using assms(1) by (auto simp: rte_channel_receive_def same_callbacks_def note_receive_def Let_def
        split: option.splits prod.splits if_splits)
  have "s' = s \<or> (\<exists>p b b'. (st, b', s') = ch_recv (mem p) (ch_handle (mem p)) b t s)"
    using assms(1) by (auto simp: rte_channel_receive_def split: option.splits prod.splits if_splits) metis
  then show "I s'" using assms(2,3) unfolding channels_keep_def by metis
qed

lemma reply_keeps: "reply_confirms_checkpoint m cid s = (r, s') \<Longrightarrow> platform_keeps I \<Longrightarrow> I s \<Longrightarrow> I s'"
  by (auto simp: reply_confirms_checkpoint_def platform_keeps_def Let_def split: prod.splits)

lemma try_keeps:
  assumes "checkpoint_try_channel v i msg cid start mx cap reply l = (ok, l')"
    and "platform_keeps I" "channels_keep I mem" "loop_keeps I mem l"
  shows "loop_keeps I mem l'"
proof -
  let ?q = "rte_voter_get_channel v i"
  have keep: "channels_keep I m" if "same_callbacks mem m" for m
    using assms(3) same_callbacks_keep [OF that] by simp
  have start: "I (cl_rte l)" "same_callbacks mem (cl_mem l)" using assms(4) by (simp_all add: loop_keeps_def)
  obtain st mem1 s1 where snd: "rte_channel_send ?q (Some (vital_message_bytes msg)) 272 (cl_mem l)
      (cl_rte l) = (st, mem1, s1)" by (metis prod_cases3)
  have k1: "I s1" "same_callbacks mem mem1"
    using send_keeps [OF snd keep [OF start(2)] start(1)] start(2) same_callbacks_trans by blast+
  obtain ts now s2 where now: "rte_timer_now s1 = (ts, now, s2)" by (metis prod_cases3)
  have "I s2" using assms(2) k1(1) now unfolding platform_keeps_def by metis
  define t where "t = (if remaining_budget_ms start now mx > cap then cap else remaining_budget_ms start now mx)"
  obtain rs raw mem2 s3 where rcv: "rte_channel_receive ?q (Some reply) 272 t mem1 s2 = (rs, raw, mem2, s3)"
    by (metis prod_cases4)
  have k3: "I s3" "same_callbacks mem mem2"
    using receive_keeps [OF rcv keep [OF k1(2)] \<open>I s2\<close>] k1(2) same_callbacks_trans by blast+
  note run = assms(1) [unfolded checkpoint_try_channel_def snd Let_def split_conv now, folded t_def,
      unfolded rcv split_conv]
  obtain conf s4 where rep: "reply_confirms_checkpoint
      (vital_message_of_bytes (case raw of None \<Rightarrow> reply | Some b \<Rightarrow> b)) cid s3 = (conf, s4)" by fastforce
  have "I s4" by (rule reply_keeps [OF rep assms(2) k3(1)])
  then show ?thesis
    using run [unfolded rep split_conv] k1 k3
    by (cases "st = STATUS_OK"; cases "rs = STATUS_OK") (auto simp: loop_keeps_def)
qed

lemma round_keeps:
  assumes "platform_keeps I" "channels_keep I mem" "loop_keeps I mem l"
  shows "loop_keeps I mem (checkpoint_round is v msg cid start mx cap stack l)"
  using assms(3)
proof (induction "is" arbitrary: l)
  case (Cons i "is")
  obtain ok l1 where attempt: "checkpoint_try_channel v i msg cid start mx cap (stack i) l = (ok, l1)"
    by fastforce
  have "loop_keeps I mem l1" by (rule try_keeps [OF attempt assms(1,2) Cons.prems])
  with Cons attempt show ?case by (simp add: loop_keeps_def)
qed simp

lemma kick_loop_keeps:
  assumes "platform_keeps I" "loop_keeps I mem l"
  shows "loop_keeps I mem (kick_watchdog w l)"
proof -
  obtain st dogs s1 where kick: "rte_watchdog_kick w (cl_dogs l) (cl_rte l) = (st, dogs, s1)"
    by (metis prod_cases3)
  obtain ts now s2 where now: "rte_timer_now (cl_rte l) = (ts, now, s2)" by (metis prod_cases3)
  have "I s2" using assms now unfolding platform_keeps_def loop_keeps_def by metis
  with kick now assms(2) have "I s1"
    by (auto simp: rte_watchdog_kick_def loop_keeps_def split: option.splits if_splits)
  with assms(2) kick show ?thesis by (cases w) (simp_all add: kick_watchdog_def loop_keeps_def)
qed

lemma rounds_keep:
  assumes "platform_keeps I" "channels_keep I mem" "loop_keeps I mem l"
  shows "loop_keeps I mem (checkpoint_rounds n v msg cfg start cap stack l)"
  using assms(3)
proof (induction n arbitrary: l)
  case (Suc n)
  let ?l1 = "checkpoint_round [0..<rte_voter_get_channel_count v] v msg (cp_checkpoint_id cfg) start
      (cp_max_delay_ms cfg) cap (stack (Suc n)) l"
  have k1: "loop_keeps I mem ?l1" by (rule round_keeps [OF assms(1,2) Suc.prems])
  obtain ts now s1 where now: "rte_timer_now (cl_rte ?l1) = (ts, now, s1)" by (metis prod_cases3)
  have "I s1" using assms(1) k1 now unfolding platform_keeps_def loop_keeps_def by metis
  with k1 have "loop_keeps I mem (?l1\<lparr>cl_now_ms := now, cl_rte := s1\<rparr>)" by (simp add: loop_keeps_def)
  from Suc.IH [OF kick_loop_keeps [OF assms(1) this]] Suc.prems show ?case by (simp add: now Let_def)
qed simp

lemma build_keeps:
  assumes "build_arrival_message cid s = (st, m, s')" "platform_keeps I" "I s"
  shows "I s'"
proof -
  obtain ts now s1 where now: "rte_timer_now s = (ts, now, s1)" by (metis prod_cases3)
  have I1: "I s1" using assms(2,3) now unfolding platform_keeps_def by metis
  have "I (r\<lparr>g_checksum := cm\<rparr>)" if "I r" for r cm using assms(2) that by (simp add: platform_keeps_def)
  then have create: "I s2" if "rte_checksum_vital_message_create mo a q pl n s = (st2, m2, s2)"
    for mo a q pl n st2 m2 s2
    using that I1 assms(3)
    by (auto simp: rte_checksum_vital_message_create_def now with_checksum_def Let_def
        split: option.splits if_splits prod.splits)
  show ?thesis using assms(1,3) create
    by (auto simp: build_arrival_message_def Let_def split: prod.splits if_splits)
qed

lemma checkpoint_keeps:
  assumes "rte_channel_checkpoint voter config stack mem dogs s = Returned st (mem', dogs', s')"
    and "platform_keeps I" "channels_keep I mem" "I s"
  shows "I s'" "same_callbacks mem mem'"
proof -
  have refl: "same_callbacks mem mem" by (simp add: same_callbacks_def)
  consider "s' = s" "mem' = mem" | v cfg where "voter = Some v" "config = Some cfg"
      "cp_expected_node_count cfg \<noteq> 0" "unat (cp_expected_node_count cfg) \<le> rte_voter_get_channel_count voter"
    using assms(1) by (auto simp: rte_channel_checkpoint_def Let_def split: option.splits if_splits)
  then have "I s' \<and> same_callbacks mem mem'"
  proof cases
    case 2
    obtain st1 arr s1 where arr: "build_arrival_message (cp_checkpoint_id cfg) s = (st1, arr, s1)"
      by (metis prod_cases3)
    have k1: "I s1" by (rule build_keeps [OF arr assms(2,4)])
    obtain ts start s2 where now: "rte_timer_now s1 = (ts, start, s2)" by (metis prod_cases3)
    have "I s2" using assms(2) k1 now unfolding platform_keeps_def by metis
    then have "loop_keeps I mem \<lparr>cl_confirmed = replicate VOTER_MAX_CHANNELS False, cl_count = 0,
        cl_now_ms = start, cl_last_send = STATUS_OK, cl_last_recv = STATUS_OK, cl_mem = mem, cl_dogs = dogs,
        cl_rte = s2\<rparr>" by (simp add: loop_keeps_def refl)
    note rounds = rounds_keep [OF assms(2,3) this]
    show ?thesis
      using assms(1) 2 k1 refl kick_loop_keeps [OF assms(2) rounds]
      by (auto simp: rte_channel_checkpoint_def arr now Let_def rte_safestate_enter_def loop_keeps_def
          split: option.splits if_splits)
  qed (use refl assms(4) in simp)
  then show "I s'" "same_callbacks mem mem'" by blast+
qed

section \<open>Properties\<close>

text \<open>A rendezvous that succeeds had enough peers: at least the expected number of different channels
  could deliver, in a state the platform can reach, a marker of this very checkpoint with a right
  checksum. Stale, corrupted or repeated replies, and replies of one channel in several rounds, do
  not add up to a quorum.\<close>

theorem checkpoint_needs_its_peers:
  assumes "rte_channel_checkpoint (Some v) (Some cfg) stack mem dogs s = Returned STATUS_OK y"
    and "rendezvous_platform J p v mem" "J s" "length (vo_channels v) \<le> VOTER_MAX_CHANNELS"
    and "\<And>r i. length (stack r i) = 272"
  shows "unat (cp_expected_node_count cfg) \<le> card {i. i < length (vo_channels v) \<and>
    can_confirm J p (cp_checkpoint_id cfg) (mem (vo_channels v ! i))}"
  by (rule rendezvous_confirmed [OF assms])

text \<open>C23. A rendezvous whose peers do not all arrive in time never returns. Take any rendezvous with a
  possible number of expected peers, on a platform with a running checksum manager, and the state at the
  end of its rounds: the count is the number of channels marked as confirmed, and no more than the
  number of channels that can deliver a marker of this checkpoint with a right checksum. If the count
  has reached the expected number the call returns the status for success and the watchdog has been
  kicked; otherwise it does not return at all, it has entered the SAFE state, where the handler
  registered for that level has been called with the reason for a checkpoint timeout and a message with
  the count. So when fewer peers than expected can confirm, no caller goes on, and none is ever handed
  the timeout status that the documentation of the interface lists among the results.\<close>

theorem missed_checkpoint_enters_safe:
  assumes "rendezvous_platform J p v mem" "J s" "length (vo_channels v) \<le> VOTER_MAX_CHANNELS"
    and "\<And>r i. length (stack r i) = 272" "cp_expected_node_count cfg \<noteq> 0"
    and "unat (cp_expected_node_count cfg) \<le> length (vo_channels v)"
  shows "let l = rendezvous_end v cfg stack mem dogs s; expected = unat (cp_expected_node_count cfg) in
    cl_count l = card {i. i < VOTER_MAX_CHANNELS \<and> cl_confirmed l ! i} \<and> J (cl_rte l) \<and>
    cl_count l \<le> card {i. i < length (vo_channels v) \<and>
      can_confirm J p (cp_checkpoint_id cfg) (mem (vo_channels v ! i))} \<and>
    (case rte_channel_checkpoint (Some v) (Some cfg) stack mem dogs s of
       Returned status (mem', dogs', s') \<Rightarrow> status = STATUS_OK \<and> expected \<le> cl_count l \<and>
         cl_dogs (kick_watchdog (cp_watchdog cfg) l) = dogs' \<and> cl_rte (kick_watchdog (cp_watchdog cfg) l) = s'
     | Halted (mem', dogs', s') \<Rightarrow> cl_count l < expected \<and> mem' = cl_mem l \<and> dogs' = cl_dogs l \<and>
         s' = (case s_handlers (cl_rte l) 1 of None \<Rightarrow> cl_rte l
           | Some h \<Rightarrow> (cl_rte l)\<lparr>ext := h LEVEL_SAFE REASON_CHECKPOINT_TIMEOUT
               (Some (diag_message (cl_count l) expected (length (vo_channels v)) (cl_last_send l)
                 (cl_last_recv l))) (ext (cl_rte l))\<rparr>))"
proof -
  let ?l = "rendezvous_end v cfg stack mem dogs s"
  have ready: "cm_ready p (g_checksum s)" using assms(1,2) by (simp add: rendezvous_platform_def)
  have inv: "rendezvous_inv J p v mem (cp_checkpoint_id cfg) ?l"
    by (rule rendezvous_end_inv [OF assms(1-3)]) (rule assms(4))
  have count: "cl_count ?l = card {i. i < VOTER_MAX_CHANNELS \<and> cl_confirmed ?l ! i}" and kept: "J (cl_rte ?l)"
    using inv unfolding rendezvous_inv_def by blast+
  show ?thesis
    unfolding Let_def rendezvous_result [OF ready assms(5,6) refl, where stack = stack and mem = mem and dogs = dogs]
    by (intro conjI count kept rendezvous_end_count [OF inv]) simp
qed

text \<open>The marker a node builds is accepted by every node that waits at the same checkpoint and by none
  that waits at another one. Nothing in it tells the nodes apart, so a link that echoes what is sent on
  it counts as a peer that has arrived.\<close>

theorem marker_accepted_at_its_checkpoint:
  assumes "build_arrival_message cid s = (STATUS_OK, Some m, s')" "cm_ready p (g_checksum s)"
    and "cm_ready p (g_checksum t)"
  shows "fst (reply_confirms_checkpoint (vital_message_of_bytes (vital_message_bytes m)) cid' t) \<longleftrightarrow> cid' = cid"
  using marker_confirms [OF assms] by blast

text \<open>One channel that delivers the marker of a checkpoint, on a platform without a clock.\<close>

definition echo_platform :: "'x \<Rightarrow> 'x rte" where
  "echo_platform x = (initial_rte x)\<lparr>g_checksum := ertms_manager\<rparr>"

definition echo_marker :: "u32 \<Rightarrow> rte_vital_message" where
  "echo_marker cid = the (fst (snd (build_arrival_message cid (echo_platform ()))))"

definition echo_channel :: "u32 \<Rightarrow> 'x rte_channel" where
  "echo_channel cid = \<lparr>ch_handle = None, ch_send = (\<lambda>h b s. (STATUS_OK, s)),
     ch_recv = (\<lambda>h b t s. (STATUS_OK, if length b = 272 then vital_message_bytes (echo_marker cid) else b, s)),
     ch_name = None, ch_health = \<lparr>ch_send_count = 0, ch_send_error_count = 0, ch_receive_count = 0,
       ch_receive_error_count = 0, ch_is_healthy = True, ch_last_error = STATUS_OK\<rparr>, ch_initialized = True\<rparr>"

definition echo_voter :: "'x rte_voter" where
  "echo_voter = \<lparr>vo_config = \<lparr>vc_voting_strategy = VOTING_NMR, vc_quorum_size = 1,
       vc_channel_timeout_ms = 10, vc_compare = None, vc_compare_context = None,
       vc_log_disagreements = True, vc_safestate_level = LEVEL_SAFE, vc_safestate_reason = 7,
       vc_on_disagreement = None, vc_disagreement_context = None\<rparr>,
     vo_channels = [0], vo_total_disagreements = 0, vo_initialized = True\<rparr>"

definition echo_config :: "u32 \<Rightarrow> rte_checkpoint_config" where
  "echo_config cid = \<lparr>cp_checkpoint_id = cid, cp_max_delay_ms = 100, cp_expected_node_count = 1,
     cp_watchdog = None\<rparr>"

definition echo_known :: "'x rte \<Rightarrow> bool" where
  "echo_known s \<longleftrightarrow> cm_ready RTE_CRC64_ERTMS (g_checksum s) \<and> s_timer s = None"

lemma echo_start: "echo_known (echo_platform x)"
  using ertms_manager_ready by (simp add: echo_known_def echo_platform_def initial_rte_def)

lemma echo_build:
  "\<exists>s1. build_arrival_message cid (echo_platform ()) = (STATUS_OK, Some (echo_marker cid), s1)"
  using build_ok [of RTE_CRC64_ERTMS "echo_platform ()" cid] echo_start [of "()"]
  by (auto simp: echo_known_def echo_marker_def)

lemma echo_confirms:
  assumes "echo_known s"
  shows "fst (reply_confirms_checkpoint (vital_message_of_bytes (vital_message_bytes (echo_marker cid))) cid' s) \<longleftrightarrow>
      cid' = cid" and "wf_message (echo_marker cid)"
proof -
  obtain s1 where b: "build_arrival_message cid (echo_platform ()) = (STATUS_OK, Some (echo_marker cid), s1)"
    using echo_build by blast
  have "cm_ready RTE_CRC64_ERTMS (g_checksum (echo_platform ()))" "cm_ready RTE_CRC64_ERTMS (g_checksum s)"
    using echo_start [of "()"] assms by (simp_all add: echo_known_def)
  from marker_confirms [OF b this]
  show "fst (reply_confirms_checkpoint (vital_message_of_bytes (vital_message_bytes (echo_marker cid))) cid' s) \<longleftrightarrow>
      cid' = cid" and "wf_message (echo_marker cid)" by blast+
qed

lemma echo_wf: "wf_message (echo_marker cid)"
  by (rule echo_confirms(2) [OF echo_start])

lemma echo_platform_rendezvous:
  "rendezvous_platform echo_known RTE_CRC64_ERTMS echo_voter (\<lambda>_. echo_channel cid)"
  by (auto simp: rendezvous_platform_def echo_known_def echo_channel_def rte_timer_now_def
      vital.length_enc [OF echo_wf])

lemma rounds_done:
  "unat (cp_expected_node_count cfg) \<le> cl_count l \<Longrightarrow> checkpoint_rounds n v msg cfg start cap stack l = l"
  by (cases n) simp_all

lemma rounds_64: "CHECKPOINT_MAX_ROUNDS = Suc 63"
  by (simp add: CHECKPOINT_MAX_ROUNDS_def)

lemma echo_try:
  assumes "echo_known (cl_rte l)" "cl_mem l 0 = echo_channel cid" "length reply = 272"
  shows "\<exists>l'. checkpoint_try_channel (Some echo_voter) 0 msg cid start mx cap reply l = (True, l') \<and>
    cl_count l' = cl_count l"
proof -
  obtain r s4 where rep: "reply_confirms_checkpoint
      (vital_message_of_bytes (vital_message_bytes (echo_marker cid))) cid (cl_rte l) = (r, s4)" by fastforce
  then have r using echo_confirms(1) [OF assms(1), of cid cid] by simp
  with rep assms show ?thesis
    by (simp add: checkpoint_try_channel_def rte_voter_get_channel_def echo_voter_def rte_channel_send_def
        rte_channel_receive_def echo_channel_def rte_timer_now_def echo_known_def note_send_def Let_def)
qed

lemma echo_rendezvous:
  fixes s :: "'x rte"
  assumes "echo_known s" "mem 0 = echo_channel cid" "\<And>r i. length (stack r i) = 272"
  shows "\<exists>y. rte_channel_checkpoint (Some echo_voter) (Some (echo_config cid)) stack mem dogs s =
    Returned STATUS_OK y"
proof -
  have ready: "cm_ready RTE_CRC64_ERTMS (g_checksum s)" using assms(1) by (simp add: echo_known_def)
  obtain msg s1 where b: "build_arrival_message cid s = (STATUS_OK, Some msg, s1)"
    using build_ok [OF ready] by blast
  have J: "echo_known s1" by (rule build_J [OF b echo_platform_rendezvous assms(1)])
  then have now: "rte_timer_now s1 = (STATUS_NOT_INITIALIZED, 0, s1)"
    by (simp add: echo_known_def rte_timer_now_def)
  let ?first = "\<lparr>cl_confirmed = replicate VOTER_MAX_CHANNELS False, cl_count = 0, cl_now_ms = 0,
    cl_last_send = STATUS_OK, cl_last_recv = STATUS_OK, cl_mem = mem, cl_dogs = dogs, cl_rte = s1\<rparr>"
  obtain l1 where "checkpoint_try_channel (Some echo_voter) 0 msg cid 0 100 (round_cap 100)
      (stack (Suc 63) 0) ?first = (True, l1)" "cl_count l1 = 0"
    using echo_try [of ?first cid "stack (Suc 63) 0" msg 0 100 "round_cap 100"] J assms(2,3) by auto
  then have "cl_count (checkpoint_round [0..<rte_voter_get_channel_count (Some (echo_voter :: 'x rte_voter))]
      (Some echo_voter) msg cid 0 100 (round_cap 100) (stack (Suc 63)) ?first) = 1"
    by (simp add: rte_voter_get_channel_count_def echo_voter_def VOTER_MAX_CHANNELS_def)
  then have "cl_count (checkpoint_rounds CHECKPOINT_MAX_ROUNDS (Some echo_voter) msg (echo_config cid) 0
      (round_cap 100) stack ?first) = 1"
    unfolding rounds_64 checkpoint_rounds.simps(2)
    by (simp add: echo_config_def remaining_budget_ms_def rounds_done kick_watchdog_def Let_def split: prod.splits)
  then show ?thesis
    by (simp add: rte_channel_checkpoint_def rte_voter_get_channel_count_def echo_config_def b now
        echo_voter_def Let_def)
qed

theorem checkpoint_needs_its_peers_witness:
  "1 \<le> card {i. i < length (vo_channels (echo_voter :: unit rte_voter)) \<and>
    can_confirm echo_known RTE_CRC64_ERTMS 5 (echo_channel 5 :: unit rte_channel)}"
proof -
  have "length ((\<lambda>_ _. replicate 272 0) r i :: bytes) = 272" for r i :: nat by simp
  note stack = this
  obtain y where run: "rte_channel_checkpoint (Some echo_voter) (Some (echo_config 5)) (\<lambda>_ _. replicate 272 0)
     (\<lambda>_. echo_channel 5) initial_watchdogs (echo_platform ()) = Returned STATUS_OK y"
    using echo_rendezvous [OF echo_start [of "()"], of "\<lambda>_. echo_channel 5", OF refl stack, of initial_watchdogs]
    by blast
  have "length (vo_channels (echo_voter :: unit rte_voter)) \<le> VOTER_MAX_CHANNELS"
    by (simp add: echo_voter_def VOTER_MAX_CHANNELS_def)
  from checkpoint_needs_its_peers [OF run echo_platform_rendezvous echo_start this] show ?thesis
    by (simp add: echo_config_def)
qed

text \<open>One channel that sends and never delivers, and a handler for the SAFE state that counts its calls.\<close>

definition silent_channel :: "nat rte_channel" where
  "silent_channel = \<lparr>ch_handle = None, ch_send = (\<lambda>h b s. (STATUS_OK, s)),
     ch_recv = (\<lambda>h b t s. (STATUS_TIMEOUT, b, s)),
     ch_name = None, ch_health = \<lparr>ch_send_count = 0, ch_send_error_count = 0, ch_receive_count = 0,
       ch_receive_error_count = 0, ch_is_healthy = True, ch_last_error = STATUS_OK\<rparr>, ch_initialized = True\<rparr>"

definition silent_platform :: "nat rte" where
  "silent_platform = (initial_rte 0)\<lparr>g_checksum := ertms_manager,
     s_handlers := (\<lambda>_. None)(1 := Some (\<lambda>level reason message n.
       if level = LEVEL_SAFE \<and> reason = REASON_CHECKPOINT_TIMEOUT then n + 1 else n))\<rparr>"

definition silent_known :: "nat rte \<Rightarrow> bool" where
  "silent_known s \<longleftrightarrow> cm_ready RTE_CRC64_ERTMS (g_checksum s) \<and> s_timer s = None \<and> ext s = 0 \<and>
     s_handlers s = s_handlers silent_platform"

theorem missed_checkpoint_enters_safe_witness:
  "\<exists>mem dogs s. rte_channel_checkpoint (Some echo_voter) (Some (echo_config 5)) (\<lambda>_ _. replicate 272 0)
     (\<lambda>_. silent_channel) initial_watchdogs silent_platform = Halted (mem, dogs, s) \<and> ext s = 1"
proof -
  have known: "rendezvous_platform silent_known RTE_CRC64_ERTMS echo_voter (\<lambda>_. silent_channel)"
    by (auto simp: rendezvous_platform_def silent_known_def silent_channel_def rte_timer_now_def)
  have start: "silent_known silent_platform"
    using ertms_manager_ready by (simp add: silent_known_def silent_platform_def initial_rte_def)
  have small: "length (vo_channels (echo_voter :: nat rte_voter)) \<le> VOTER_MAX_CHANNELS" "cp_expected_node_count (echo_config 5) \<noteq> 0"
    "unat (cp_expected_node_count (echo_config 5)) \<le> length (vo_channels (echo_voter :: nat rte_voter))"
    by (simp_all add: echo_voter_def echo_config_def VOTER_MAX_CHANNELS_def)
  have none: "\<not> can_confirm silent_known RTE_CRC64_ERTMS c silent_channel" for c
    by (simp add: can_confirm_def silent_channel_def)
  let ?run = "rte_channel_checkpoint (Some echo_voter) (Some (echo_config 5)) (\<lambda>_ _. replicate 272 0)
     (\<lambda>_. silent_channel) initial_watchdogs silent_platform"
  have "length ((\<lambda>_ _. replicate 272 0) r i :: bytes) = 272" for r i :: nat by simp
  note missed = missed_checkpoint_enters_safe [OF known start small(1) this small(2,3),
      where dogs = initial_watchdogs, unfolded Let_def]
  show ?thesis
  proof (cases ?run)
    case (Returned st y)
    with missed none show ?thesis by (cases y) (auto simp: echo_config_def)
  next
    case (Halted y)
    with missed show ?thesis
      by (cases y) (auto simp: silent_known_def silent_platform_def)
  qed
qed

theorem marker_accepted_at_its_checkpoint_witness:
  "fst (reply_confirms_checkpoint (vital_message_of_bytes (vital_message_bytes (echo_marker 5))) 5
      (echo_platform ())) \<and>
    \<not> fst (reply_confirms_checkpoint (vital_message_of_bytes (vital_message_bytes (echo_marker 5))) 6
      (echo_platform ()))"
proof -
  obtain s1 where b: "build_arrival_message 5 (echo_platform ()) = (STATUS_OK, Some (echo_marker 5), s1)"
    using echo_build by blast
  have "cm_ready RTE_CRC64_ERTMS (g_checksum (echo_platform ()))"
    using echo_start [of "()"] by (simp add: echo_known_def)
  from marker_accepted_at_its_checkpoint [OF b this this] show ?thesis by simp
qed

end
