(* ===== verification/State_Transfer.thy ===== *)
theory State_Transfer
  imports Wire Rte_Types
begin

text \<open>
  The field registry that packs application state for the standby,
  \<^verbatim>\<open>src/redundancy/state_transfer/rte_state_transfer.c\<close>. The live data is a store from addresses
  to the bytes of the objects there; a codec reads and writes the object it is given. Two fields may
  point to the same object.
\<close>

section \<open>Data\<close>

type_synonym store = "nat \<Rightarrow> bytes"

definition STATE_TRANSFER_MAX_FIELDS :: nat where "STATE_TRANSFER_MAX_FIELDS = 8"

text \<open>
  An encoder is given the object and the size and returns the bytes it has written; a decoder is given
  the object, the bytes and the size and returns the object.
\<close>

record rte_state_field =
  fd_name :: "string option"
  fd_data :: "nat option"
  fd_size :: nat
  fd_encode_fn :: "(bytes \<Rightarrow> nat \<Rightarrow> rte_status \<times> bytes) option"
  fd_decode_fn :: "(bytes \<Rightarrow> bytes \<Rightarrow> nat \<Rightarrow> rte_status \<times> bytes) option"

record rte_state_transfer_registry =
  rg_fields :: "rte_state_field list"
  rg_field_count :: nat

definition zero_field :: rte_state_field where
  "zero_field = \<lparr>fd_name = None, fd_data = None, fd_size = 0, fd_encode_fn = None, fd_decode_fn = None\<rparr>"

section \<open>Registration\<close>

definition rte_state_transfer_registry_init ::
  "rte_state_transfer_registry option \<Rightarrow> rte_status \<times> rte_state_transfer_registry option" where
  "rte_state_transfer_registry_init registry =
    (case registry of None \<Rightarrow> (STATUS_INVALID_PARAM, None)
     | Some _ \<Rightarrow> (STATUS_OK, Some \<lparr>rg_fields = replicate STATE_TRANSFER_MAX_FIELDS zero_field,
                     rg_field_count = 0\<rparr>))"

definition rte_state_transfer_register_field_ex ::
  "rte_state_transfer_registry option \<Rightarrow> string option \<Rightarrow> nat option \<Rightarrow> nat \<Rightarrow>
    (bytes \<Rightarrow> nat \<Rightarrow> rte_status \<times> bytes) option \<Rightarrow>
    (bytes \<Rightarrow> bytes \<Rightarrow> nat \<Rightarrow> rte_status \<times> bytes) option \<Rightarrow>
    rte_status \<times> rte_state_transfer_registry option" where
  "rte_state_transfer_register_field_ex registry name data field_size encode_fn decode_fn =
    (case registry of None \<Rightarrow> (STATUS_INVALID_PARAM, None)
     | Some r \<Rightarrow>
         if data = None \<or> field_size = 0 then (STATUS_INVALID_PARAM, registry)
         else if (encode_fn = None) \<noteq> (decode_fn = None) then (STATUS_INVALID_PARAM, registry)
         else if rg_field_count r \<ge> STATE_TRANSFER_MAX_FIELDS then (STATUS_RESOURCE_EXHAUSTED, registry)
         else (STATUS_OK, Some (r\<lparr>rg_fields := (rg_fields r)[rg_field_count r :=
                  \<lparr>fd_name = name, fd_data = data, fd_size = field_size, fd_encode_fn = encode_fn,
                   fd_decode_fn = decode_fn\<rparr>],
                rg_field_count := rg_field_count r + 1\<rparr>)))"

definition rte_state_transfer_register_field ::
  "rte_state_transfer_registry option \<Rightarrow> string option \<Rightarrow> nat option \<Rightarrow> nat \<Rightarrow>
    rte_status \<times> rte_state_transfer_registry option" where
  "rte_state_transfer_register_field registry name data field_size =
    rte_state_transfer_register_field_ex registry name data field_size None None"

section \<open>Encoding and decoding\<close>

definition registered :: "rte_state_transfer_registry \<Rightarrow> rte_state_field list" where
  "registered r = take (rg_field_count r) (rg_fields r)"

definition rte_state_transfer_encoded_size :: "rte_state_transfer_registry option \<Rightarrow> nat" where
  "rte_state_transfer_encoded_size registry =
    (case registry of None \<Rightarrow> 0 | Some r \<Rightarrow> foldl (\<lambda>total f. total + fd_size f) 0 (registered r))"

text \<open>The object a field points to.\<close>

definition object :: "store \<Rightarrow> rte_state_field \<Rightarrow> bytes" where
  "object m f = (case fd_data f of None \<Rightarrow> [] | Some p \<Rightarrow> m p)"

definition set_object :: "store \<Rightarrow> rte_state_field \<Rightarrow> bytes \<Rightarrow> store" where
  "set_object m f b = (case fd_data f of None \<Rightarrow> m | Some p \<Rightarrow> m(p := b))"

definition encode_field :: "store \<Rightarrow> rte_state_field \<Rightarrow> rte_status \<times> bytes" where
  "encode_field m f =
    (case fd_encode_fn f of
       Some enc \<Rightarrow> enc (object m f) (fd_size f)
     | None \<Rightarrow> (STATUS_OK, take (fd_size f) (object m f)))"

text \<open>The loop, with the offset; the result is the status, the offset and the output buffer.\<close>

fun encode_fields ::
  "rte_state_field list \<Rightarrow> store \<Rightarrow> nat \<Rightarrow> bytes \<Rightarrow> rte_status \<times> nat \<times> bytes" where
  "encode_fields [] m offset out = (STATUS_OK, offset, out)"
| "encode_fields (f # fs) m offset out =
    (let (status, b) = encode_field m f;
         out1 = copy_at offset b out
     in if status \<noteq> STATUS_OK then (status, offset, out1)
        else encode_fields fs m (offset + fd_size f) out1)"

definition rte_state_transfer_encode ::
  "rte_state_transfer_registry option \<Rightarrow> store \<Rightarrow> bytes option \<Rightarrow> nat \<Rightarrow> nat option \<Rightarrow>
    rte_status \<times> bytes option \<times> nat option" where
  "rte_state_transfer_encode registry m out out_size out_len =
    (case (registry, out) of
       (Some r, Some buf) \<Rightarrow>
         if out_size < rte_state_transfer_encoded_size registry
         then (STATUS_RESOURCE_EXHAUSTED, out, out_len)
         else
           let (status, offset, buf1) = encode_fields (registered r) m 0 buf
           in if status \<noteq> STATUS_OK then (status, Some buf1, out_len)
              else (STATUS_OK, Some buf1, case out_len of None \<Rightarrow> None | Some _ \<Rightarrow> Some offset)
     | _ \<Rightarrow> (STATUS_INVALID_PARAM, out, out_len))"

definition decode_field :: "store \<Rightarrow> rte_state_field \<Rightarrow> bytes \<Rightarrow> rte_status \<times> store" where
  "decode_field m f b =
    (case fd_decode_fn f of
       Some dec \<Rightarrow> let (status, obj) = dec (object m f) b (fd_size f) in (status, set_object m f obj)
     | None \<Rightarrow> (STATUS_OK, set_object m f (copy_at 0 (take (fd_size f) b) (object m f))))"

fun decode_fields ::
  "rte_state_field list \<Rightarrow> store \<Rightarrow> nat \<Rightarrow> bytes \<Rightarrow> rte_status \<times> store" where
  "decode_fields [] m offset inp = (STATUS_OK, m)"
| "decode_fields (f # fs) m offset inp =
    (let (status, m1) = decode_field m f (drop offset inp)
     in if status \<noteq> STATUS_OK then (status, m1)
        else decode_fields fs m1 (offset + fd_size f) inp)"

definition rte_state_transfer_decode ::
  "rte_state_transfer_registry option \<Rightarrow> store \<Rightarrow> bytes option \<Rightarrow> nat \<Rightarrow> rte_status \<times> store" where
  "rte_state_transfer_decode registry m inp in_len =
    (case (registry, inp) of
       (Some r, Some buf) \<Rightarrow>
         if in_len < rte_state_transfer_encoded_size registry then (STATUS_RESOURCE_EXHAUSTED, m)
         else decode_fields (registered r) m 0 buf
     | _ \<Rightarrow> (STATUS_INVALID_PARAM, m))"

section \<open>The interface of a field's codec\<close>

text \<open>
  What a registered pair of functions promises: \<open>value\<close> is what the two sites have to agree on, on
  the objects that are \<open>sound\<close>. The encoder fills exactly \<open>n\<close> bytes, and decoding them into any
  sound object, whatever follows them in the buffer, gives the encoded value.
\<close>

locale field_codec =
  fixes enc :: "bytes \<Rightarrow> rte_status \<times> bytes" and dec :: "bytes \<Rightarrow> bytes \<Rightarrow> rte_status \<times> bytes"
    and sound :: "bytes \<Rightarrow> bool" and val :: "bytes \<Rightarrow> 'v" and n :: nat
  assumes encodes: "sound x \<Longrightarrow> \<exists>b. enc x = (STATUS_OK, b) \<and> length b = n"
    and decodes: "sound x \<Longrightarrow> sound y \<Longrightarrow> enc x = (STATUS_OK, b) \<Longrightarrow>
      \<exists>z. dec y (b @ rest) = (STATUS_OK, z) \<and> sound z \<and> val z = val x"
begin

lemma transfers:
  assumes "sound x" "sound y"
  shows "fst (enc x) = STATUS_OK \<and> length (snd (enc x)) = n \<and>
    fst (dec y (snd (enc x) @ rest)) = STATUS_OK \<and> sound (snd (dec y (snd (enc x) @ rest))) \<and>
    val (snd (dec y (snd (enc x) @ rest))) = val x"
proof -
  obtain b where b: "enc x = (STATUS_OK, b)" "length b = n" using encodes [OF assms(1)] by blast
  with decodes [OF assms b(1), of rest] show ?thesis by auto
qed

end

text \<open>The default codec: \<open>memcpy\<close> of the first \<open>n\<close> bytes of an object.\<close>

interpretation raw: field_codec "\<lambda>x. (STATUS_OK, take n x)" "\<lambda>y b. (STATUS_OK, copy_at 0 (take n b) y)"
  "\<lambda>x. n \<le> length x" "take n" n for n
  by unfold_locales (auto simp: copy_at_def)

section \<open>Packing and unpacking\<close>

definition encoder :: "rte_state_field \<Rightarrow> bytes \<Rightarrow> rte_status \<times> bytes" where
  "encoder f x = (case fd_encode_fn f of Some enc \<Rightarrow> enc x (fd_size f)
     | None \<Rightarrow> (STATUS_OK, take (fd_size f) x))"

definition decoder :: "rte_state_field \<Rightarrow> bytes \<Rightarrow> bytes \<Rightarrow> rte_status \<times> bytes" where
  "decoder f y b = (case fd_decode_fn f of Some dec \<Rightarrow> dec y b (fd_size f)
     | None \<Rightarrow> (STATUS_OK, copy_at 0 (take (fd_size f) b) y))"

lemma encode_field_eq: "encode_field m f = encoder f (object m f)"
  by (simp add: encode_field_def encoder_def split: option.split)

lemma decode_field_eq:
  "decode_field m f b = (fst (decoder f (object m f) b), set_object m f (snd (decoder f (object m f) b)))"
  by (simp add: decode_field_def decoder_def case_prod_unfold Let_def split: option.split)

lemma copy_at_copy_at:
  "off + length b \<le> length out \<Longrightarrow> copy_at (off + length b) c (copy_at off b out) = copy_at off (b @ c) out"
  by (auto simp: copy_at_def ac_simps)

lemma copy_at_Nil [simp]: "copy_at off [] out = out"
  by (simp add: copy_at_def)

lemma encoded_size_sum: "foldl (\<lambda>total f. total + fd_size f) k fs = k + sum_list (map fd_size fs)"
  by (induction fs arbitrary: k) simp_all

lemma encode_fields_ok:
  assumes "\<And>f. f \<in> set fs \<Longrightarrow> fst (encoder f (object m f)) = STATUS_OK"
    and "\<And>f. f \<in> set fs \<Longrightarrow> length (snd (encoder f (object m f))) = fd_size f"
    and "off + sum_list (map fd_size fs) \<le> length out"
  shows "encode_fields fs m off out = (STATUS_OK, off + sum_list (map fd_size fs),
    copy_at off (concat (map (\<lambda>f. snd (encoder f (object m f))) fs)) out)"
  using assms
proof (induction fs arbitrary: off out)
  case (Cons f fs)
  obtain b where b: "encoder f (object m f) = (STATUS_OK, b)" "length b = fd_size f"
    using Cons.prems(1,2) [of f] by (metis list.set_intros(1) prod.collapse)
  have "encode_fields (f # fs) m off out = encode_fields fs m (off + fd_size f) (copy_at off b out)"
    using b(1) by (simp add: encode_field_eq)
  also have "\<dots> = (STATUS_OK, off + fd_size f + sum_list (map fd_size fs),
      copy_at (off + fd_size f) (concat (map (\<lambda>f. snd (encoder f (object m f))) fs)) (copy_at off b out))"
    by (rule Cons.IH) (use Cons.prems b(2) in simp_all)
  finally show ?case
    using copy_at_copy_at [of off b out] b Cons.prems(3) by (simp add: add.assoc)
qed simp

text \<open>The fields of the two sites: the same sizes and functions, at addresses of their own.\<close>

definition same_shape :: "rte_state_field \<Rightarrow> rte_state_field \<Rightarrow> bool" where
  "same_shape f g \<longleftrightarrow> fd_size f = fd_size g \<and> fd_encode_fn f = fd_encode_fn g \<and>
     fd_decode_fn f = fd_decode_fn g \<and> fd_data f \<noteq> None \<and> fd_data g \<noteq> None"

lemma same_shape_codec: "same_shape f g \<Longrightarrow> encoder f = encoder g \<and> decoder f = decoder g"
  by (auto simp: same_shape_def encoder_def decoder_def fun_eq_iff split: option.splits)

definition good_pair ::
  "(rte_state_field \<Rightarrow> bytes \<Rightarrow> bool) \<Rightarrow> (rte_state_field \<Rightarrow> bytes \<Rightarrow> 'v) \<Rightarrow> store \<Rightarrow> store \<Rightarrow>
    rte_state_field \<Rightarrow> rte_state_field \<Rightarrow> bool" where
  "good_pair sound val a b f g \<longleftrightarrow> same_shape f g \<and>
     field_codec (encoder g) (decoder g) (sound g) (val g) (fd_size g) \<and>
     sound g (object a f) \<and> sound g (object b g)"

lemma object_set [simp]:
  "fd_data g \<noteq> None \<Longrightarrow> object (set_object m g x) g = x"
  "fd_data g \<noteq> fd_data f \<Longrightarrow> object (set_object m g x) f = object m f"
  by (auto simp: object_def set_object_def split: option.splits)

lemma decode_fields_ok:
  assumes "list_all2 (good_pair sound val a m) fs gs" "distinct (map fd_data gs)" "length pre = off"
    and "inp = pre @ concat (map (\<lambda>f. snd (encoder f (object a f))) fs) @ rest"
  shows "\<exists>m'. decode_fields gs m off inp = (STATUS_OK, m') \<and>
    list_all2 (\<lambda>f g. val g (object m' g) = val g (object a f)) fs gs \<and>
    (\<forall>p. Some p \<notin> fd_data ` set gs \<longrightarrow> m' p = m p)"
  using assms
proof (induction fs arbitrary: gs m pre off)
  case (Cons f fs)
  then obtain g gs' where gs: "gs = g # gs'" and g: "good_pair sound val a m f g"
    and rest: "list_all2 (good_pair sound val a m) fs gs'"
    by (auto simp: list_all2_Cons1)
  let ?b = "snd (encoder f (object a f))"
  let ?more = "concat (map (\<lambda>f. snd (encoder f (object a f))) fs) @ rest"
  have eqs: "encoder f = encoder g" "fd_size f = fd_size g"
    using g same_shape_codec [of f g] by (simp_all add: good_pair_def same_shape_def)
  have t: "length ?b = fd_size g" "fst (decoder g (object m g) (?b @ ?more)) = STATUS_OK"
    "val g (snd (decoder g (object m g) (?b @ ?more))) = val g (object a f)"
    using field_codec.transfers [of "encoder g" "decoder g" "sound g" "val g" "fd_size g" "object a f"
        "object m g" ?more] g eqs(1)
    by (simp_all add: good_pair_def)
  let ?m1 = "set_object m g (snd (decoder g (object m g) (?b @ ?more)))"
  have inp: "drop off inp = ?b @ ?more" using Cons.prems(3,4) by simp
  have step: "decode_fields gs m off inp = decode_fields gs' ?m1 (off + fd_size g) inp"
    using t(2) by (simp add: gs decode_field_eq inp)
  have data: "fd_data g \<noteq> None" using g by (simp add: good_pair_def same_shape_def)
  have other: "object ?m1 h = object m h" if "h \<in> set gs'" for h
    using that Cons.prems(2) gs by (intro object_set(2)) auto
  have "list_all2 (good_pair sound val a ?m1) fs gs'"
    using rest by (rule list.rel_mono_strong) (auto simp: good_pair_def other)
  from Cons.IH [OF this, where pre = "pre @ ?b" and off = "off + fd_size g"] Cons.prems t(1) gs
  obtain m' where m': "decode_fields gs' ?m1 (off + fd_size g) inp = (STATUS_OK, m')"
    "list_all2 (\<lambda>f g. val g (object m' g) = val g (object a f)) fs gs'"
    "\<forall>p. Some p \<notin> fd_data ` set gs' \<longrightarrow> m' p = ?m1 p" by auto
  obtain q where q: "fd_data g = Some q" using data by blast
  have "Some q \<notin> fd_data ` set gs'" using Cons.prems(2) gs q by auto
  then have "m' q = ?m1 q" using m'(3) by blast
  then have "object m' g = snd (decoder g (object m g) (?b @ ?more))"
    by (simp add: object_def set_object_def q)
  with m' t(3) step gs q show ?case by (auto simp: set_object_def)
qed simp

section \<open>Properties\<close>

lemma plain_codec:
  assumes "fd_encode_fn g = None" "fd_decode_fn g = None"
  shows "field_codec (encoder g) (decoder g) (\<lambda>x. fd_size g \<le> length x) (take (fd_size g)) (fd_size g)"
proof -
  have "encoder g = (\<lambda>x. (STATUS_OK, take (fd_size g) x))"
    and "decoder g = (\<lambda>y b. (STATUS_OK, copy_at 0 (take (fd_size g) b) y))"
    using assms by (simp_all add: encoder_def decoder_def fun_eq_iff)
  then show ?thesis using raw.field_codec_axioms [of "fd_size g"] by simp
qed

text \<open>C34. State transfer carries the state across: when both sites register the same fields, the fields of
  the receiver do not share an object, and every custom codec keeps its contract, encoding into a
  buffer of the announced size and decoding it on the other site both succeed, every field there
  gets the sender's value, and nothing else in the receiver's memory changes.\<close>

theorem state_transfer_round_trip:
  assumes "list_all2 (good_pair sound val a b) (registered r) (registered q)"
    and "distinct (map fd_data (registered q))"
    and "rte_state_transfer_encoded_size (Some r) \<le> n" "n \<le> length buf"
  shows "\<exists>wire b'. rte_state_transfer_encode (Some r) a (Some buf) n (Some z) =
      (STATUS_OK, Some wire, Some (rte_state_transfer_encoded_size (Some r))) \<and>
    rte_state_transfer_decode (Some q) b (Some wire) (rte_state_transfer_encoded_size (Some r)) =
      (STATUS_OK, b') \<and>
    list_all2 (\<lambda>f g. val g (object b' g) = val g (object a f)) (registered r) (registered q) \<and>
    (\<forall>p. Some p \<notin> fd_data ` set (registered q) \<longrightarrow> b' p = b p)"
proof -
  let ?fs = "registered r"
  have size: "rte_state_transfer_encoded_size (Some r) = sum_list (map fd_size ?fs)"
    by (simp add: rte_state_transfer_encoded_size_def encoded_size_sum)
  have "map fd_size ?fs = map fd_size (registered q)"
    using assms(1) by (induction rule: list_all2_induct) (simp_all add: good_pair_def same_shape_def)
  then have size2: "rte_state_transfer_encoded_size (Some q) = sum_list (map fd_size ?fs)"
    by (simp add: rte_state_transfer_encoded_size_def encoded_size_sum)
  have each: "fst (encoder f (object a f)) = STATUS_OK \<and> length (snd (encoder f (object a f))) = fd_size f"
    if "f \<in> set ?fs" for f
  proof -
    from assms(1) that obtain g where g: "good_pair sound val a b f g"
      by (auto simp: list_all2_conv_all_nth in_set_conv_nth)
    then have "encoder f = encoder g" "fd_size f = fd_size g"
      using same_shape_codec [of f g] by (simp_all add: good_pair_def same_shape_def)
    with g field_codec.transfers [of "encoder g" "decoder g" "sound g" "val g" "fd_size g" "object a f"
        "object b g"] show ?thesis by (simp add: good_pair_def)
  qed
  let ?w = "concat (map (\<lambda>f. snd (encoder f (object a f))) ?fs)"
  have enc: "encode_fields ?fs a 0 buf = (STATUS_OK, sum_list (map fd_size ?fs), copy_at 0 ?w buf)"
    using encode_fields_ok [of ?fs a 0 buf] each assms(3,4) size by simp
  obtain b' where b': "decode_fields (registered q) b 0 (copy_at 0 ?w buf) = (STATUS_OK, b')"
    "list_all2 (\<lambda>f g. val g (object b' g) = val g (object a f)) ?fs (registered q)"
    "\<forall>p. Some p \<notin> fd_data ` set (registered q) \<longrightarrow> b' p = b p"
    using decode_fields_ok [OF assms(1,2), of "[]" 0 "copy_at 0 ?w buf" "drop (length ?w) buf"]
    by (auto simp: copy_at_def)
  have "rte_state_transfer_encode (Some r) a (Some buf) n (Some z) =
      (STATUS_OK, Some (copy_at 0 ?w buf), Some (rte_state_transfer_encoded_size (Some r)))"
    using enc assms(3) size by (simp add: rte_state_transfer_encode_def)
  moreover have "rte_state_transfer_decode (Some q) b (Some (copy_at 0 ?w buf))
      (rte_state_transfer_encoded_size (Some r)) = (STATUS_OK, b')"
    using b'(1) size size2 by (simp add: rte_state_transfer_decode_def)
  ultimately show ?thesis using b'(2,3) by blast
qed

definition one_field :: "nat \<Rightarrow> rte_state_transfer_registry" where
  "one_field p = the (snd (rte_state_transfer_register_field
     (snd (rte_state_transfer_registry_init (Some \<lparr>rg_fields = [], rg_field_count = 0\<rparr>)))
     (Some ''db'') (Some p) 2))"

theorem state_transfer_round_trip_witness:
  "\<exists>wire b'. rte_state_transfer_encode (Some (one_field 3)) (\<lambda>_. [7, 8, 9]) (Some [0, 0, 0]) 3 (Some 0) =
      (STATUS_OK, Some wire, Some 2) \<and>
    rte_state_transfer_decode (Some (one_field 4)) (\<lambda>_. [1, 1, 1]) (Some wire) 2 = (STATUS_OK, b') \<and>
    take 2 (b' 4) = [7, 8]"
proof -
  let ?f = "\<lambda>p. \<lparr>fd_name = Some ''db'', fd_data = Some p, fd_size = 2, fd_encode_fn = None,
    fd_decode_fn = None\<rparr>"
  have reg: "registered (one_field p) = [?f p]" for p
    by (simp add: one_field_def rte_state_transfer_register_field_def
        rte_state_transfer_register_field_ex_def rte_state_transfer_registry_init_def
        STATE_TRANSFER_MAX_FIELDS_def registered_def take_Cons' numeral_eq_Suc)
  have size: "rte_state_transfer_encoded_size (Some (one_field p)) = 2" for p
    by (simp add: rte_state_transfer_encoded_size_def reg)
  have "list_all2 (good_pair (\<lambda>g x. fd_size g \<le> length x) (\<lambda>g. take (fd_size g)) (\<lambda>_. [7, 8, 9])
      (\<lambda>_. [1, 1, 1])) (registered (one_field 3)) (registered (one_field 4))"
    using plain_codec [of "?f 4"]
    by (simp add: reg good_pair_def same_shape_def object_def)
  from state_transfer_round_trip [OF this, of 3 "[0, 0, 0]" 0] show ?thesis
    by (simp add: reg size object_def) blast
qed

end
