(* ===== verification/Safechannel.thy ===== *)
theory Safechannel
  imports Dual_Channel Voter
begin

text \<open>
  The channel factory, \<^verbatim>\<open>src/redundancy/safechannel/rte_safechannel.c\<close>: it opens its own
  network links and wraps a dual channel or a voter over them. The embedded link storages and
  channel objects have addresses of their own (\<open>sc_links_at\<close>, \<open>sc_channels_at\<close>), which clearing
  the object leaves; the two members of the union are two fields of which only the one the type
  selects is used, and likewise for the configuration.
\<close>

section \<open>Data\<close>

definition SAFECHANNEL_MAX_LINKS :: nat where "SAFECHANNEL_MAX_LINKS = 4"

datatype rte_safechannel_type =
    SAFECHANNEL_DUAL_REDUNDANT
  | SAFECHANNEL_VITAL_VOTED
  | SAFECHANNEL_TYPE_OTHER nat

datatype rte_safechannel_link_status = LINK_DOWN | LINK_DEGRADED | LINK_FULL

record rte_safechannel_endpoint =
  ep_role :: rte_netlink_role
  ep_host :: "string option"
  ep_port :: u16

record 'x rte_safechannel_dual_config =
  sd_endpoints :: "rte_safechannel_endpoint list"
  sd_link_count :: nat
  sd_sender_id :: u32
  sd_expected_peer_id :: u32
  sd_connect_timeout_ms :: duration_ms
  sd_ack_timeout_ms :: duration_ms
  sd_status_callback :: "'x status_callback option"
  sd_status_callback_ctx :: "nat option"

record 'x rte_safechannel_vital_config =
  sv_endpoints :: "rte_safechannel_endpoint list"
  sv_link_count :: nat
  sv_message_size :: nat
  sv_voting_strategy :: rte_voting_strategy
  sv_quorum_size :: u32
  sv_connect_timeout_ms :: duration_ms
  sv_channel_timeout_ms :: duration_ms
  sv_log_disagreements :: bool
  sv_on_disagreement :: "'x disagreement_fn option"
  sv_context :: "nat option"

record 'x rte_safechannel_config =
  sf_type :: rte_safechannel_type
  sf_dual :: "'x rte_safechannel_dual_config"
  sf_vital :: "'x rte_safechannel_vital_config"

record 'x rte_safechannel =
  sc_links_at :: "nat list"
  sc_channels_at :: "nat list"
  sc_type :: rte_safechannel_type
  sc_is_open :: bool
  sc_link_handles :: "handle option list"
  sc_link_count :: nat
  sc_dual :: "'x dual_channel"
  sc_voter :: "'x rte_voter"

section \<open>Links\<close>

text \<open>The loop of \<^verbatim>\<open>safechannel_close_links()\<close> over the given indices.\<close>

fun close_each :: "nat list \<Rightarrow> 'x rte_safechannel \<Rightarrow> 'x rte \<Rightarrow> 'x rte_safechannel \<times> 'x rte" where
  "close_each [] ch s = (ch, s)"
| "close_each (i # is) ch s =
    (if sc_link_handles ch ! i \<noteq> None
     then close_each is (ch\<lparr>sc_link_handles := (sc_link_handles ch)[i := None]\<rparr>)
            (snd (rte_netlink_close (sc_link_handles ch ! i) s))
     else close_each is ch s)"

definition safechannel_close_links ::
  "nat \<Rightarrow> 'x rte_safechannel \<Rightarrow> 'x rte \<Rightarrow> 'x rte_safechannel \<times> 'x rte" where
  "safechannel_close_links count ch s = close_each [0..<count] ch s"

definition safechannel_open_one_endpoint ::
  "nat \<Rightarrow> rte_safechannel_endpoint \<Rightarrow> nat \<Rightarrow> duration_ms \<Rightarrow> handle option \<Rightarrow> 'x rte \<Rightarrow>
    rte_status \<times> handle option \<times> 'x rte" where
  "safechannel_open_one_endpoint storage endpoint message_size connect_timeout_ms handle s =
    (let (status, out, s1) = rte_netlink_open (Some storage)
       (Some \<lparr>nc_role = ep_role endpoint, nc_host = ep_host endpoint, nc_port = ep_port endpoint,
          nc_message_size = message_size, nc_connect_timeout_ms = connect_timeout_ms,
          nc_rcvbuf_bytes = 0, nc_sndbuf_bytes = 0\<rparr>) (Some handle) s
     in (status, the_default handle out, s1))"

text \<open>The loop that opens the endpoints; a failure closes those opened before.\<close>

fun open_endpoints ::
  "nat list \<Rightarrow> rte_safechannel_endpoint list \<Rightarrow> nat \<Rightarrow> duration_ms \<Rightarrow> 'x rte_safechannel \<Rightarrow> 'x rte \<Rightarrow>
    rte_status \<times> 'x rte_safechannel \<times> 'x rte" where
  "open_endpoints [] endpoints message_size connect_timeout_ms ch s = (STATUS_OK, ch, s)"
| "open_endpoints (i # is) endpoints message_size connect_timeout_ms ch s =
    (let (status, h, s1) = safechannel_open_one_endpoint (sc_links_at ch ! i) (endpoints ! i)
           message_size connect_timeout_ms (sc_link_handles ch ! i) s;
         ch1 = ch\<lparr>sc_link_handles := (sc_link_handles ch)[i := h]\<rparr>
     in if status \<noteq> STATUS_OK
        then let (ch2, s2) = safechannel_close_links i ch1 s1 in (status, ch2, s2)
        else open_endpoints is endpoints message_size connect_timeout_ms ch1 s1)"

text \<open>The clean-up that every later failure of an open runs.\<close>

definition abandon :: "'x rte_safechannel \<Rightarrow> 'x rte \<Rightarrow> 'x rte_safechannel \<times> 'x rte" where
  "abandon ch s =
    (let (ch1, s1) = safechannel_close_links (sc_link_count ch) ch s
     in (ch1\<lparr>sc_link_count := 0\<rparr>, s1))"

definition usable_endpoint :: "rte_safechannel_endpoint \<Rightarrow> bool" where
  "usable_endpoint e \<longleftrightarrow> \<not> (ep_role e = NETLINK_CONNECT \<and> ep_host e = None)"

section \<open>Opening a dual channel\<close>

definition safechannel_open_dual ::
  "'x rte_safechannel \<Rightarrow> 'x rte_safechannel_dual_config \<Rightarrow> 'x rte \<Rightarrow>
    rte_status \<times> 'x rte_safechannel \<times> 'x rte" where
  "safechannel_open_dual ch cfg s =
    (if sd_link_count cfg = 0 \<or> sd_link_count cfg > SAFECHANNEL_MAX_LINKS
     then (STATUS_INVALID_PARAM, ch, s)
     else if \<exists>i \<in> set [0..<sd_link_count cfg]. \<not> usable_endpoint (sd_endpoints cfg ! i)
     then (STATUS_INVALID_PARAM, ch, s)
     else
       let (status, ch1, s1) = open_endpoints [0..<sd_link_count cfg] (sd_endpoints cfg) 272
             (sd_connect_timeout_ms cfg) ch s
       in if status \<noteq> STATUS_OK then (status, ch1, s1)
          else
            let ch2 = ch1\<lparr>sc_link_count := sd_link_count cfg\<rparr>;
                dual_cfg = \<lparr>dcc_links = take (sd_link_count cfg) (sc_link_handles ch2) @
                    replicate (DUAL_MAX_LINKS - sd_link_count cfg) None,
                  dcc_link_count = sd_link_count cfg, dcc_sender_id = sd_sender_id cfg,
                  dcc_expected_peer_id = sd_expected_peer_id cfg,
                  dcc_ack_timeout_ms = sd_ack_timeout_ms cfg,
                  dcc_status_callback = sd_status_callback cfg,
                  dcc_status_callback_ctx = sd_status_callback_ctx cfg\<rparr>;
                (status, dual) = rte_dual_channel_init (Some (sc_dual ch2)) (Some dual_cfg);
                ch3 = ch2\<lparr>sc_dual := the_default (sc_dual ch2) dual\<rparr>
            in if status \<noteq> STATUS_OK
               then let (ch4, s2) = abandon ch3 s1 in (status, ch4, s2)
               else (STATUS_OK, ch3, s1))"

section \<open>Opening a voted channel\<close>

text \<open>The callbacks wired into every channel of the voter; the handle is the link's.\<close>

definition safechannel_vital_backend_send :: "'x channel_send_fn" where
  "safechannel_vital_backend_send channel_handle data s =
    rte_netlink_send channel_handle (Some data) (length data) 5000 s"

definition safechannel_vital_backend_recv :: "'x channel_recv_fn" where
  "safechannel_vital_backend_recv channel_handle data timeout_ms s =
    (let (status, out, s1) = rte_netlink_receive channel_handle (Some data) (length data) timeout_ms s
     in (status, the_default data out, s1))"

text \<open>The loop that makes one channel per link and registers it.\<close>

fun attach_channels ::
  "nat list \<Rightarrow> 'x rte_safechannel \<Rightarrow> 'x chan_mem \<Rightarrow> 'x rte \<Rightarrow>
    rte_status \<times> 'x rte_safechannel \<times> 'x chan_mem \<times> 'x rte" where
  "attach_channels [] ch mem s = (STATUS_OK, ch, mem, s)"
| "attach_channels (i # is) ch mem s =
    (let (status, mem1, s1) = rte_channel_init (Some (sc_channels_at ch ! i))
           (Some \<lparr>cc_channel_handle = sc_link_handles ch ! i,
              cc_send = Some safechannel_vital_backend_send,
              cc_recv = Some safechannel_vital_backend_recv, cc_name = None\<rparr>) mem s;
         (status, voter, s2) =
           (if status = STATUS_OK
            then rte_voter_register_channel (Some (sc_voter ch)) (Some (sc_channels_at ch ! i)) s1
            else (status, Some (sc_voter ch), s1));
         ch1 = ch\<lparr>sc_voter := the_default (sc_voter ch) voter\<rparr>
     in if status \<noteq> STATUS_OK
        then let (ch2, s3) = abandon ch1 s2 in (status, ch2, mem1, s3)
        else attach_channels is ch1 mem1 s2)"

definition vital_voter_config :: "'x rte_safechannel_vital_config \<Rightarrow> 'x rte_voter_config" where
  "vital_voter_config cfg = \<lparr>vc_voting_strategy = sv_voting_strategy cfg,
     vc_quorum_size = sv_quorum_size cfg, vc_channel_timeout_ms = sv_channel_timeout_ms cfg,
     vc_compare = None, vc_compare_context = None, vc_log_disagreements = sv_log_disagreements cfg,
     vc_safestate_level = LEVEL_SAFE, vc_safestate_reason = REASON_UNSPECIFIED,
     vc_on_disagreement = sv_on_disagreement cfg, vc_disagreement_context = sv_context cfg\<rparr>"

definition safechannel_open_vital ::
  "'x rte_safechannel \<Rightarrow> 'x rte_safechannel_vital_config \<Rightarrow> 'x chan_mem \<Rightarrow> 'x rte \<Rightarrow>
    rte_status \<times> 'x rte_safechannel \<times> 'x chan_mem \<times> 'x rte" where
  "safechannel_open_vital ch cfg mem s =
    (if sv_link_count cfg = 0 \<or> sv_link_count cfg > SAFECHANNEL_MAX_LINKS \<or> sv_message_size cfg = 0
     then (STATUS_INVALID_PARAM, ch, mem, s)
     else if \<exists>i \<in> set [0..<sv_link_count cfg]. \<not> usable_endpoint (sv_endpoints cfg ! i)
     then (STATUS_INVALID_PARAM, ch, mem, s)
     else
       let (status, ch1, s1) = open_endpoints [0..<sv_link_count cfg] (sv_endpoints cfg)
             (sv_message_size cfg) (sv_connect_timeout_ms cfg) ch s
       in if status \<noteq> STATUS_OK then (status, ch1, mem, s1)
          else
            let ch2 = ch1\<lparr>sc_link_count := sv_link_count cfg\<rparr>;
                (status, voter, s2) =
                  rte_voter_init (Some (sc_voter ch2)) (Some (vital_voter_config cfg)) s1;
                ch3 = ch2\<lparr>sc_voter := the_default (sc_voter ch2) voter\<rparr>
            in if status \<noteq> STATUS_OK
               then let (ch4, s3) = abandon ch3 s2 in (status, ch4, mem, s3)
               else attach_channels [0..<sv_link_count cfg] ch3 mem s2)"

section \<open>The interface\<close>

definition zero_voter :: "'x rte_voter" where
  "zero_voter = \<lparr>vo_config = \<lparr>vc_voting_strategy = VOTING_2OO2, vc_quorum_size = 0,
       vc_channel_timeout_ms = 0, vc_compare = None, vc_compare_context = None,
       vc_log_disagreements = False, vc_safestate_level = LEVEL_DEGRADED, vc_safestate_reason = 0,
       vc_on_disagreement = None, vc_disagreement_context = None\<rparr>,
     vo_channels = [], vo_total_disagreements = 0, vo_initialized = False\<rparr>"

text \<open>
  Clearing the object clears the embedded channel objects too. Their callbacks, which nothing
  calls on an uninitialised channel, have no \<^verbatim>\<open>NULL\<close> value in the model and stay.
\<close>

definition clear_channels :: "nat list \<Rightarrow> 'x chan_mem \<Rightarrow> 'x chan_mem" where
  "clear_channels ps mem = (\<lambda>p. if p \<in> set ps
     then (mem p)\<lparr>ch_handle := None, ch_name := None,
       ch_health := \<lparr>ch_send_count = 0, ch_send_error_count = 0, ch_receive_count = 0,
         ch_receive_error_count = 0, ch_is_healthy = False, ch_last_error = STATUS_OK\<rparr>,
       ch_initialized := False\<rparr>
     else mem p)"

definition cleared_safechannel :: "rte_safechannel_type \<Rightarrow> 'x rte_safechannel \<Rightarrow> 'x rte_safechannel" where
  "cleared_safechannel type ch = ch\<lparr>sc_type := type, sc_is_open := False,
     sc_link_handles := replicate SAFECHANNEL_MAX_LINKS None, sc_link_count := 0,
     sc_dual := cleared_channel, sc_voter := zero_voter\<rparr>"

definition rte_safechannel_open ::
  "'x rte_safechannel option \<Rightarrow> 'x rte_safechannel_config option \<Rightarrow> 'x chan_mem \<Rightarrow> 'x rte \<Rightarrow>
    rte_status \<times> 'x rte_safechannel option \<times> 'x chan_mem \<times> 'x rte" where
  "rte_safechannel_open channel config mem s =
    (case (channel, config) of
       (Some old, Some cfg) \<Rightarrow>
         let ch = cleared_safechannel (sf_type cfg) old;
             mem0 = clear_channels (sc_channels_at old) mem;
             (status, ch1, mem1, s1) =
               (case sf_type cfg of
                  SAFECHANNEL_DUAL_REDUNDANT \<Rightarrow>
                    let (status, ch1, s1) = safechannel_open_dual ch (sf_dual cfg) s
                    in (status, ch1, mem0, s1)
                | SAFECHANNEL_VITAL_VOTED \<Rightarrow> safechannel_open_vital ch (sf_vital cfg) mem0 s
                | SAFECHANNEL_TYPE_OTHER _ \<Rightarrow> (STATUS_INVALID_PARAM, ch, mem0, s))
         in (status, Some (ch1\<lparr>sc_is_open := (status = STATUS_OK)\<rparr>), mem1, s1)
     | _ \<Rightarrow> (STATUS_INVALID_PARAM, channel, mem, s))"

text \<open>The wait for the acknowledgements of a dual channel may not return.\<close>

definition rte_safechannel_send ::
  "'x rte_safechannel option \<Rightarrow> bytes option \<Rightarrow> nat \<Rightarrow> 'x chan_mem \<Rightarrow> 'x rte \<Rightarrow>
    (rte_status \<times> 'x rte_safechannel option \<times> 'x chan_mem \<times> 'x rte) option" where
  "rte_safechannel_send channel payload payload_size mem s =
    (case channel of
       None \<Rightarrow> Some (STATUS_INVALID_PARAM, channel, mem, s)
     | Some ch \<Rightarrow>
         if \<not> sc_is_open ch then Some (STATUS_INVALID_PARAM, channel, mem, s)
         else if sc_type ch = SAFECHANNEL_DUAL_REDUNDANT
         then
           if payload_size > 255 then Some (STATUS_INVALID_PARAM, channel, mem, s)
           else map_option (\<lambda>(status, _, dual, s1).
                  (status, Some (ch\<lparr>sc_dual := the_default (sc_dual ch) dual\<rparr>), mem, s1))
                (rte_dual_channel_send (Some (sc_dual ch)) payload (of_nat payload_size) s)
         else
           let (status, mem1, s1) = rte_voter_send (Some (sc_voter ch)) payload payload_size mem s
           in Some (status, channel, mem1, s1))"

text \<open>
  \<open>out_size\<close> is the caller's variable, \<open>None\<close> for a \<^verbatim>\<open>NULL\<close> pointer; \<open>stack\<close> is what the
  voter's local buffers hold before they are used.
\<close>

definition rte_safechannel_receive ::
  "(nat \<Rightarrow> bytes) \<Rightarrow> 'x rte_safechannel option \<Rightarrow> bytes option \<Rightarrow> nat \<Rightarrow> duration_ms \<Rightarrow> nat option \<Rightarrow>
    'x chan_mem \<Rightarrow> 'x rte \<Rightarrow>
    (rte_status \<times> bytes option \<times> nat option, 'x rte_safechannel option \<times> 'x chan_mem \<times> 'x rte) run" where
  "rte_safechannel_receive stack channel out_payload max_size timeout_ms out_size mem s =
    (case (channel, out_size) of
       (Some ch, Some sz) \<Rightarrow>
         if \<not> sc_is_open ch
         then Returned (STATUS_INVALID_PARAM, out_payload, out_size) (channel, mem, s)
         else if sc_type ch = SAFECHANNEL_DUAL_REDUNDANT
         then
           let (status, out, received, dual, s1) =
             rte_dual_channel_receive (Some (sc_dual ch)) out_payload
               (of_nat (if max_size > 255 then 255 else max_size)) timeout_ms (Some 0) s
           in Returned (status, out, Some (case received of None \<Rightarrow> 0 | Some n \<Rightarrow> unat n))
                (Some (ch\<lparr>sc_dual := the_default (sc_dual ch) dual\<rparr>), mem, s1)
         else
           (case rte_voter_receive stack (Some (sc_voter ch)) out_payload max_size mem s of
              Returned (status, out, _, written) (voter, mem1, s1) \<Rightarrow>
                Returned (status, out, Some (the_default sz written))
                  (Some (ch\<lparr>sc_voter := the_default (sc_voter ch) voter\<rparr>), mem1, s1)
            | Halted (voter, mem1, s1) \<Rightarrow>
                Halted (Some (ch\<lparr>sc_voter := the_default (sc_voter ch) voter\<rparr>), mem1, s1))
     | _ \<Rightarrow> Returned (STATUS_INVALID_PARAM, out_payload, out_size) (channel, mem, s))"

definition rte_safechannel_get_status ::
  "'x rte_safechannel option \<Rightarrow> 'x chan_mem \<Rightarrow> rte_safechannel_link_status" where
  "rte_safechannel_get_status channel mem =
    (case channel of None \<Rightarrow> LINK_DOWN
     | Some ch \<Rightarrow>
         if \<not> sc_is_open ch then LINK_DOWN
         else if sc_type ch = SAFECHANNEL_DUAL_REDUNDANT
         then (case rte_dual_channel_get_status (Some (sc_dual ch)) of
                 CHANNEL_FULL \<Rightarrow> LINK_FULL
               | CHANNEL_DEGRADED \<Rightarrow> LINK_DEGRADED
               | _ \<Rightarrow> LINK_DOWN)
         else
           let healthy_count =
             (case snd (rte_voter_get_aggregated_health (Some (sc_voter ch)) mem) of
                None \<Rightarrow> 0 | Some (n, _) \<Rightarrow> n)
           in if healthy_count = 0 then LINK_DOWN
              else if healthy_count < sc_link_count ch then LINK_DEGRADED
              else LINK_FULL)"

definition rte_safechannel_close ::
  "'x rte_safechannel option \<Rightarrow> 'x chan_mem \<Rightarrow> 'x rte \<Rightarrow>
    rte_status \<times> 'x rte_safechannel option \<times> 'x chan_mem \<times> 'x rte" where
  "rte_safechannel_close channel mem s =
    (case channel of None \<Rightarrow> (STATUS_OK, channel, mem, s)
     | Some ch \<Rightarrow>
         if \<not> sc_is_open ch then (STATUS_OK, channel, mem, s)
         else
           let (ch1, mem1) =
                 (if sc_type ch = SAFECHANNEL_VITAL_VOTED
                  then (ch\<lparr>sc_voter := the_default (sc_voter ch)
                          (snd (rte_voter_destroy (Some (sc_voter ch))))\<rparr>,
                        foldl (\<lambda>m i. snd (rte_channel_destroy (Some (sc_channels_at ch ! i)) m)) mem
                          [0..<sc_link_count ch])
                  else (ch, mem));
               (ch2, s1) = safechannel_close_links (sc_link_count ch1) ch1 s
           in (STATUS_OK, Some (ch2\<lparr>sc_link_count := 0, sc_is_open := False\<rparr>), mem1, s1))"

section \<open>The links a channel holds\<close>

text \<open>
  What the code relies on in the OSAdapter: \<open>held\<close> reads from the outside world which handles
  are open; a successful open adds a new one, a failed open none, a close removes its handle. A
  registered handler for the level DEGRADED, which a refused setup call reports to, opens and
  closes nothing.
\<close>

definition open_law ::
  "('x \<Rightarrow> handle set) \<Rightarrow> (nat \<Rightarrow> rte_netlink_config \<Rightarrow> 'x \<Rightarrow> rte_status \<times> handle option \<times> 'x) \<Rightarrow> bool" where
  "open_law held f \<longleftrightarrow> (\<forall>st cfg x status h x'. f st cfg x = (status, h, x') \<longrightarrow>
     (if status = STATUS_OK then \<exists>k. h = Some k \<and> k \<notin> held x \<and> held x' = insert k (held x)
      else held x' = held x))"

definition close_law :: "('x \<Rightarrow> handle set) \<Rightarrow> (handle \<Rightarrow> 'x \<Rightarrow> rte_status \<times> 'x) \<Rightarrow> bool" where
  "close_law held f \<longleftrightarrow> (\<forall>h x status x'. f h x = (status, x') \<longrightarrow> held x' = held x - {h})"

definition handler_law :: "('x \<Rightarrow> handle set) \<Rightarrow> 'x safestate_handler option \<Rightarrow> bool" where
  "handler_law held handler \<longleftrightarrow>
     (\<forall>f level reason message x. handler = Some f \<longrightarrow> held (f level reason message x) = held x)"

definition links_tracked :: "('x \<Rightarrow> handle set) \<Rightarrow> 'x rte \<Rightarrow> bool" where
  "links_tracked held s \<longleftrightarrow> handler_law held (s_handlers s 0) \<and>
     (\<exists>a f g. s_netlink s = Some a \<and> netlink_open a = Some f \<and> netlink_close a = Some g \<and>
        open_law held f \<and> close_law held g)"

definition handles_below :: "nat \<Rightarrow> 'x rte_safechannel \<Rightarrow> handle set" where
  "handles_below n ch = {h. \<exists>i < n. sc_link_handles ch ! i = Some h}"

lemma links_tracked_ext [simp]: "links_tracked held (s\<lparr>ext := x\<rparr>) = links_tracked held s"
proof -
  have same: "s_netlink (s\<lparr>ext := x\<rparr>) = s_netlink s" "s_handlers (s\<lparr>ext := x\<rparr>) = s_handlers s" by simp_all
  show ?thesis unfolding links_tracked_def same by (rule refl)
qed

lemma netlink_close_held:
  assumes "links_tracked held s"
  shows "links_tracked held (snd (rte_netlink_close (Some h) s)) \<and>
    held (ext (snd (rte_netlink_close (Some h) s))) = held (ext s) - {h}"
proof -
  obtain a close_fn where a: "s_netlink s = Some a" "netlink_close a = Some close_fn"
    and law: "close_law held close_fn"
    using assms by (auto simp: links_tracked_def)
  obtain st x' where q: "close_fn h (ext s) = (st, x')" by fastforce
  then have "snd (rte_netlink_close (Some h) s) = s\<lparr>ext := x'\<rparr>"
    by (simp add: rte_netlink_close_def dispatch_def a)
  then show ?thesis using assms law q by (simp add: close_law_def)
qed

lemma open_one_held:
  assumes "links_tracked held s"
    and "safechannel_open_one_endpoint st e n t h0 s = (status, h, s')"
    and "usable_endpoint e" "n \<noteq> 0"
  shows "links_tracked held s'"
    and "status = STATUS_OK \<Longrightarrow>
      \<exists>k. h = Some k \<and> k \<notin> held (ext s) \<and> held (ext s') = insert k (held (ext s))"
    and "status \<noteq> STATUS_OK \<Longrightarrow> held (ext s') = held (ext s)"
proof -
  obtain a open_fn where a: "s_netlink s = Some a" "netlink_open a = Some open_fn"
    and law: "open_law held open_fn"
    using assms(1) by (auto simp: links_tracked_def)
  define cfg where "cfg = \<lparr>nc_role = ep_role e, nc_host = ep_host e, nc_port = ep_port e,
    nc_message_size = n, nc_connect_timeout_ms = t, nc_rcvbuf_bytes = 0, nc_sndbuf_bytes = 0\<rparr>"
  obtain x' where q: "open_fn st cfg (ext s) = (status, h, x')" and s': "s' = s\<lparr>ext := x'\<rparr>"
    using assms(2-4)
    by (auto simp: safechannel_open_one_endpoint_def rte_netlink_open_def a usable_endpoint_def
        cfg_def split: prod.splits)
  show "links_tracked held s'" using assms(1) by (simp add: s')
  show "status = STATUS_OK \<Longrightarrow>
      \<exists>k. h = Some k \<and> k \<notin> held (ext s) \<and> held (ext s') = insert k (held (ext s))"
    using law q by (simp add: s' open_law_def)
  show "status \<noteq> STATUS_OK \<Longrightarrow> held (ext s') = held (ext s)"
    using law q by (auto simp: s' open_law_def split: if_splits)
qed

lemma same_handles [simp]: "\<exists>hs. ch = ch\<lparr>sc_link_handles := hs\<rparr>"
  by (rule exI [of _ "sc_link_handles ch"]) simp

lemma close_each_held:
  assumes "links_tracked held s" "close_each is ch s = (ch', s')"
    "\<forall>i \<in> set is. i < length (sc_link_handles ch)" "distinct is"
  shows "links_tracked held s' \<and> (\<exists>hs. ch' = ch\<lparr>sc_link_handles := hs\<rparr>) \<and>
    held (ext s') = held (ext s) - {h. \<exists>i \<in> set is. sc_link_handles ch ! i = Some h}"
  using assms
proof (induction "is" arbitrary: ch s)
  case (Cons i "is")
  show ?case
  proof (cases "sc_link_handles ch ! i")
    case None
    with Cons show ?thesis by auto
  next
    case (Some h)
    note step = netlink_close_held [OF Cons.prems(1), of h]
    have run: "close_each is (ch\<lparr>sc_link_handles := (sc_link_handles ch)[i := None]\<rparr>)
        (snd (rte_netlink_close (Some h) s)) = (ch', s')"
      using Cons.prems(2) by (simp add: Some)
    have same: "(\<exists>j \<in> set is. (sc_link_handles ch)[i := None] ! j = Some k) \<longleftrightarrow>
        (\<exists>j \<in> set is. sc_link_handles ch ! j = Some k)" for k
      using Cons.prems(4) by (metis distinct.simps(2) nth_list_update_neq)
    from Cons.IH [OF conjunct1 [OF step] run] Cons.prems(3,4) show ?thesis
      using step by (auto simp: same Some)
  qed
qed auto

lemma close_links_held:
  assumes "links_tracked held s" "safechannel_close_links n ch s = (ch', s')"
    "n \<le> length (sc_link_handles ch)"
  shows "links_tracked held s'" "held (ext s') = held (ext s) - handles_below n ch"
    and "\<exists>hs. ch' = ch\<lparr>sc_link_handles := hs\<rparr>"
  using close_each_held [OF assms(1) assms(2) [unfolded safechannel_close_links_def]] assms(3)
  by (auto simp: handles_below_def)

text \<open>What holds between the steps of an open: \<open>H\<close> is what was open before it began.\<close>

definition holding :: "('x \<Rightarrow> handle set) \<Rightarrow> handle set \<Rightarrow> nat \<Rightarrow> 'x rte_safechannel \<Rightarrow> 'x rte \<Rightarrow> bool" where
  "holding held H n ch s \<longleftrightarrow> links_tracked held s \<and> n \<le> length (sc_link_handles ch) \<and>
     length (sc_link_handles ch) = SAFECHANNEL_MAX_LINKS \<and>
     held (ext s) = H \<union> handles_below n ch \<and> handles_below n ch \<inter> H = {} \<and>
     (\<forall>i < n. sc_link_handles ch ! i \<noteq> None)"

lemma holding_closed:
  assumes "holding held H n ch s" "safechannel_close_links n ch s = (ch', s')"
  shows "links_tracked held s'" "held (ext s') = H"
proof -
  have keep: "links_tracked held s" "n \<le> length (sc_link_handles ch)"
    using assms(1) by (simp_all add: holding_def)
  note closed = close_links_held [OF keep(1) assms(2) keep(2)]
  show "links_tracked held s'" by (rule closed(1))
  show "held (ext s') = H" using closed(2) assms(1) by (auto simp: holding_def)
qed

lemma handles_below_grow:
  assumes "n < length (sc_link_handles ch)"
  shows "handles_below (Suc n) (ch\<lparr>sc_link_handles := (sc_link_handles ch)[n := Some k]\<rparr>) =
    insert k (handles_below n ch)"
  using assms by (auto simp: handles_below_def less_Suc_eq nth_list_update)

lemma handles_below_update:
  "handles_below n (ch\<lparr>sc_link_handles := (sc_link_handles ch)[n := h]\<rparr>) = handles_below n ch"
  by (auto simp: handles_below_def nth_list_update)

lemma open_endpoints_held:
  assumes "open_endpoints [k..<n] eps m t ch s = (status, ch', s')"
    and "holding held H k ch s" "k \<le> n" "n \<le> SAFECHANNEL_MAX_LINKS" "m \<noteq> 0"
    and "\<forall>i < n. usable_endpoint (eps ! i)"
  shows "(\<exists>hs. ch' = ch\<lparr>sc_link_handles := hs\<rparr>) \<and> links_tracked held s' \<and>
    (if status = STATUS_OK then holding held H n ch' s' else held (ext s') = H)"
  using assms
proof (induction "n - k" arbitrary: k ch s)
  case 0
  then show ?case by (auto simp: holding_def)
next
  case (Suc d)
  then have k: "k < n" and list: "[k..<n] = k # [Suc k..<n]" by (simp_all add: upt_conv_Cons)
  have tracked: "links_tracked held s" and len: "k < length (sc_link_handles ch)"
    using Suc.prems(2,4) k by (simp_all add: holding_def)
  obtain st h s1 where one: "safechannel_open_one_endpoint (sc_links_at ch ! k) (eps ! k) m t
      (sc_link_handles ch ! k) s = (st, h, s1)" by (metis prod_cases3)
  have ok: "usable_endpoint (eps ! k)" using Suc.prems(6) k by simp
  note opened = open_one_held [OF tracked one ok Suc.prems(5)]
  let ?ch = "ch\<lparr>sc_link_handles := (sc_link_handles ch)[k := h]\<rparr>"
  show ?case
  proof (cases "st = STATUS_OK")
    case False
    have open_k: "holding held H k ?ch s1"
      using Suc.prems(2) opened(1,3) False
      by (auto simp: holding_def handles_below_update nth_list_update)
    obtain ch2 s2 where c: "safechannel_close_links k ?ch s1 = (ch2, s2)" by fastforce
    have "\<exists>hs. ch2 = ?ch\<lparr>sc_link_handles := hs\<rparr>"
      using close_links_held(3) [OF opened(1) c] len by simp
    then show ?thesis using Suc.prems(1) holding_closed [OF open_k c] False
      by (auto simp: list one c)
  next
    case True
    obtain j where j: "h = Some j" "j \<notin> held (ext s)" "held (ext s1) = insert j (held (ext s))"
      using opened(2) [OF True] by blast
    note grow = handles_below_grow [OF len, of j]
    have next_open: "holding held H (Suc k) ?ch s1"
      using Suc.prems(2) opened(1) j len
      by (auto simp: holding_def grow less_Suc_eq nth_list_update)
    have run: "open_endpoints [Suc k..<n] eps m t ?ch s1 = (status, ch', s')"
      using Suc.prems(1) True by (simp add: list one)
    have "d = n - Suc k" "Suc k \<le> n" using Suc.hyps(2) k by simp_all
    from Suc.hyps(1) [OF this(1) run next_open this(2) Suc.prems(4,5,6)] show ?thesis by auto
  qed
qed

lemma holding_cong:
  assumes "holding held H n ch s" "sc_link_handles ch' = sc_link_handles ch"
    and "links_tracked held s'" "held (ext s') = held (ext s)"
  shows "holding held H n ch' s'"
  using assms by (simp add: holding_def handles_below_def)

text \<open>A set-up operation changes the outside world only through the handler for DEGRADED.\<close>

definition world_kept :: "('x \<Rightarrow> handle set) \<Rightarrow> 'x rte \<Rightarrow> 'x rte \<Rightarrow> bool" where
  "world_kept held s s' \<longleftrightarrow> (links_tracked held s \<longrightarrow> links_tracked held s' \<and> held (ext s') = held (ext s)) \<and>
     g_setup_locked s' = g_setup_locked s"

lemma world_kept_refl [simp]: "world_kept held s s"
  by (simp add: world_kept_def)

lemma world_kept_trans: "world_kept held s t \<Longrightarrow> world_kept held t u \<Longrightarrow> world_kept held s u"
  by (simp add: world_kept_def)

lemma check_setup_kept: "world_kept held s (snd (rte_lifecycle_check_setup_allowed s))"
proof (cases "g_setup_locked s \<and> s_handlers s 0 \<noteq> None")
  case False
  then have "snd (rte_lifecycle_check_setup_allowed s) = s"
    by (auto simp: rte_lifecycle_check_setup_allowed_def rte_safestate_enter_def Let_def)
  then show ?thesis by simp
next
  case True
  then obtain f where f: "s_handlers s 0 = Some f" by auto
  from True f have "\<exists>x. snd (rte_lifecycle_check_setup_allowed s) = s\<lparr>ext := x\<rparr> \<and>
      (handler_law held (Some f) \<longrightarrow> held x = held (ext s))"
    by (auto simp: rte_lifecycle_check_setup_allowed_def rte_safestate_enter_def Let_def handler_law_def)
  then obtain x where x: "snd (rte_lifecycle_check_setup_allowed s) = s\<lparr>ext := x\<rparr>"
    "handler_law held (Some f) \<longrightarrow> held x = held (ext s)" by blast
  have "links_tracked held s \<longrightarrow> handler_law held (Some f)" by (simp add: links_tracked_def f)
  then show ?thesis unfolding x(1) world_kept_def using x(2) by simp
qed

lemma setup_steps_kept:
  "rte_voter_init v vcfg s = (st, v', s') \<Longrightarrow> world_kept held s s'"
  "rte_voter_register_channel v p s = (st, v', s') \<Longrightarrow> world_kept held s s'"
  "rte_channel_init p ccfg mem s = (st, mem', s') \<Longrightarrow> world_kept held s s'"
  using check_setup_kept [of held s]
  by (auto simp: rte_voter_init_def rte_voter_register_channel_def rte_channel_init_def Let_def
      split: option.splits prod.splits if_splits rte_voting_strategy.splits)

lemma abandon_held:
  assumes "holding held H n ch s" "sc_link_count ch = n" "abandon ch s = (ch', s')"
  shows "links_tracked held s' \<and> held (ext s') = H"
proof -
  obtain ch1 s1 where c: "safechannel_close_links n ch s = (ch1, s1)" by fastforce
  have "s' = s1" using assms(2,3) c by (auto simp: abandon_def Let_def)
  then show ?thesis using holding_closed [OF assms(1) c] by simp
qed

lemma attach_channels_held:
  assumes "attach_channels is ch mem s = (status, ch', mem', s')"
    and "holding held H n ch s" "sc_link_count ch = n"
  shows "links_tracked held s' \<and>
    (if status = STATUS_OK then holding held H n ch' s' \<and> sc_link_count ch' = n else held (ext s') = H)"
  using assms
proof (induction "is" arbitrary: ch mem s)
  case Nil
  then show ?case by (auto simp: holding_def)
next
  case (Cons i "is")
  obtain st mem1 s1 where ci: "rte_channel_init (Some (sc_channels_at ch ! i))
      (Some \<lparr>cc_channel_handle = sc_link_handles ch ! i,
         cc_send = Some safechannel_vital_backend_send,
         cc_recv = Some safechannel_vital_backend_recv, cc_name = None\<rparr>) mem s = (st, mem1, s1)"
    by (metis prod_cases3)
  obtain st2 v s2 where rg: "(if st = STATUS_OK
      then rte_voter_register_channel (Some (sc_voter ch)) (Some (sc_channels_at ch ! i)) s1
      else (st, Some (sc_voter ch), s1)) = (st2, v, s2)" by (metis prod_cases3)
  let ?ch = "ch\<lparr>sc_voter := the_default (sc_voter ch) v\<rparr>"
  have kept: "world_kept held s s2"
    using setup_steps_kept(3) [OF ci, of held] setup_steps_kept(2) [of _ _ s1 st2 v s2 held] rg
    by (auto intro: world_kept_trans split: if_splits)
  have still: "holding held H n ?ch s2"
    using holding_cong [OF Cons.prems(2), of ?ch s2] kept Cons.prems(2)
    by (simp add: world_kept_def holding_def)
  show ?case
  proof (cases "st2 = STATUS_OK")
    case True
    with Cons.prems(1) have "attach_channels is ?ch mem1 s2 = (status, ch', mem', s')"
      by (simp add: ci rg)
    from Cons.IH [OF this still] Cons.prems(3) show ?thesis by simp
  next
    case False
    obtain ch2 s3 where ab: "abandon ?ch s2 = (ch2, s3)" by fastforce
    have "status = st2 \<and> s' = s3" using Cons.prems(1) False by (simp add: ci rg ab)
    then show ?thesis using abandon_held [OF still _ ab] Cons.prems(3) False by simp
  qed
qed

lemma holding_start:
  assumes "links_tracked held s" "sc_link_handles ch = replicate SAFECHANNEL_MAX_LINKS None"
  shows "holding held (held (ext s)) 0 ch s"
  using assms by (simp add: holding_def handles_below_def)

text \<open>The common outcome of the two ways to open.\<close>

definition opened_or_clean ::
  "('x \<Rightarrow> handle set) \<Rightarrow> handle set \<Rightarrow> rte_status \<Rightarrow> 'x rte_safechannel \<Rightarrow> 'x rte \<Rightarrow> bool" where
  "opened_or_clean held H status ch s \<longleftrightarrow> links_tracked held s \<and>
     (if status = STATUS_OK then holding held H (sc_link_count ch) ch s else held (ext s) = H)"

lemma open_dual_held:
  assumes "safechannel_open_dual ch cfg s = (status, ch', s')"
    and "links_tracked held s" "sc_link_handles ch = replicate SAFECHANNEL_MAX_LINKS None"
  shows "opened_or_clean held (held (ext s)) status ch' s'"
proof (cases "(sd_link_count cfg = 0 \<or> sd_link_count cfg > SAFECHANNEL_MAX_LINKS) \<or>
    (\<exists>i \<in> set [0..<sd_link_count cfg]. \<not> usable_endpoint (sd_endpoints cfg ! i))")
  case True
  with assms show ?thesis
    by (auto simp: safechannel_open_dual_def opened_or_clean_def split: if_splits)
next
  case False
  let ?n = "sd_link_count cfg"
  obtain st ch1 s1 where op: "open_endpoints [0..<?n] (sd_endpoints cfg) 272
      (sd_connect_timeout_ms cfg) ch s = (st, ch1, s1)" by (metis prod_cases3)
  have opened: "links_tracked held s1"
    "if st = STATUS_OK then holding held (held (ext s)) ?n ch1 s1 else held (ext s1) = held (ext s)"
    using open_endpoints_held [OF op holding_start [OF assms(2,3)]] False by simp_all
  show ?thesis
  proof (cases "st = STATUS_OK")
    case err: False
    with assms(1) False op opened show ?thesis
      by (simp add: safechannel_open_dual_def opened_or_clean_def)
  next
    case True
    let ?ch2 = "ch1\<lparr>sc_link_count := ?n\<rparr>"
    obtain st2 d where di: "rte_dual_channel_init (Some (sc_dual ?ch2))
       (Some \<lparr>dcc_links = take ?n (sc_link_handles ?ch2) @ replicate (DUAL_MAX_LINKS - ?n) None,
                  dcc_link_count = ?n, dcc_sender_id = sd_sender_id cfg,
                  dcc_expected_peer_id = sd_expected_peer_id cfg,
                  dcc_ack_timeout_ms = sd_ack_timeout_ms cfg,
                  dcc_status_callback = sd_status_callback cfg,
                  dcc_status_callback_ctx = sd_status_callback_ctx cfg\<rparr>) = (st2, d)"
      by fastforce
    let ?ch3 = "?ch2\<lparr>sc_dual := the_default (sc_dual ?ch2) d\<rparr>"
    have still: "holding held (held (ext s)) ?n ?ch3 s1"
      using holding_cong [of held "held (ext s)" ?n ch1 s1 ?ch3 s1] opened True by simp
    obtain ch4 s4 where ab: "abandon ?ch3 s1 = (ch4, s4)" by fastforce
    have "(status, ch', s') = (if st2 \<noteq> STATUS_OK then (st2, ch4, s4) else (STATUS_OK, ?ch3, s1))"
      using assms(1) False True unfolding safechannel_open_dual_def op Let_def
      using di ab by (auto split: if_splits)
    then show ?thesis using abandon_held [OF still _ ab] still opened(1)
      by (auto simp: opened_or_clean_def split: if_splits)
  qed
qed

lemma open_vital_held:
  assumes "safechannel_open_vital ch cfg mem s = (status, ch', mem', s')"
    and "links_tracked held s" "sc_link_handles ch = replicate SAFECHANNEL_MAX_LINKS None"
  shows "opened_or_clean held (held (ext s)) status ch' s'"
proof (cases "(sv_link_count cfg = 0 \<or> sv_link_count cfg > SAFECHANNEL_MAX_LINKS \<or>
      sv_message_size cfg = 0) \<or>
    (\<exists>i \<in> set [0..<sv_link_count cfg]. \<not> usable_endpoint (sv_endpoints cfg ! i))")
  case True
  with assms show ?thesis
    by (auto simp: safechannel_open_vital_def opened_or_clean_def split: if_splits)
next
  case False
  let ?n = "sv_link_count cfg"
  obtain st ch1 s1 where op: "open_endpoints [0..<?n] (sv_endpoints cfg) (sv_message_size cfg)
      (sv_connect_timeout_ms cfg) ch s = (st, ch1, s1)" by (metis prod_cases3)
  have opened: "links_tracked held s1"
    "if st = STATUS_OK then holding held (held (ext s)) ?n ch1 s1 else held (ext s1) = held (ext s)"
    using open_endpoints_held [OF op holding_start [OF assms(2,3)]] False by simp_all
  show ?thesis
  proof (cases "st = STATUS_OK")
    case err: False
    with assms(1) False op opened show ?thesis
      by (simp add: safechannel_open_vital_def opened_or_clean_def)
  next
    case True
    let ?ch2 = "ch1\<lparr>sc_link_count := ?n\<rparr>"
    obtain st2 v s2 where vi: "rte_voter_init (Some (sc_voter ?ch2)) (Some (vital_voter_config cfg)) s1 =
        (st2, v, s2)" by (metis prod_cases3)
    let ?ch3 = "?ch2\<lparr>sc_voter := the_default (sc_voter ?ch2) v\<rparr>"
    have still: "holding held (held (ext s)) ?n ?ch3 s2"
      using holding_cong [of held "held (ext s)" ?n ch1 s1 ?ch3 s2] opened True
        setup_steps_kept(1) [OF vi, of held] by (simp add: world_kept_def holding_def)
    obtain ch4 s4 where ab: "abandon ?ch3 s2 = (ch4, s4)" by fastforce
    show ?thesis
    proof (cases "st2 = STATUS_OK")
      case bad: False
      have "(status, ch', s') = (st2, ch4, s4)"
        using assms(1) False True bad unfolding safechannel_open_vital_def op Let_def
        using vi ab by (auto split: if_splits)
      then show ?thesis using abandon_held [OF still _ ab] bad by (auto simp: opened_or_clean_def)
    next
      case good: True
      have "attach_channels [0..<?n] ?ch3 mem s2 = (status, ch', mem', s')"
        using assms(1) False True good unfolding safechannel_open_vital_def op Let_def
        using vi by (auto split: if_splits)
      from attach_channels_held [OF this still] show ?thesis by (auto simp: opened_or_clean_def)
    qed
  qed
qed

lemma safechannel_open_held:
  assumes "rte_safechannel_open (Some old) (Some cfg) mem s = (status, Some ch, mem', s')"
    and "links_tracked held s"
  shows "opened_or_clean held (held (ext s)) status ch s'"
    and "sc_is_open ch \<longleftrightarrow> status = STATUS_OK"
proof -
  let ?ch = "cleared_safechannel (sf_type cfg) old" and ?mem = "clear_channels (sc_channels_at old) mem"
  have none: "sc_link_handles ?ch = replicate SAFECHANNEL_MAX_LINKS None"
    by (simp add: cleared_safechannel_def)
  have "\<exists>ch1. opened_or_clean held (held (ext s)) status ch1 s' \<and> ch = ch1\<lparr>sc_is_open := (status = STATUS_OK)\<rparr>"
  proof (cases "sf_type cfg")
    case SAFECHANNEL_DUAL_REDUNDANT
    obtain st ch1 s1 where o: "safechannel_open_dual ?ch (sf_dual cfg) s = (st, ch1, s1)"
      by (metis prod_cases3)
    from open_dual_held [OF o assms(2) none] show ?thesis
      using assms(1) o SAFECHANNEL_DUAL_REDUNDANT by (auto simp: rte_safechannel_open_def)
  next
    case SAFECHANNEL_VITAL_VOTED
    obtain st ch1 mem1 s1 where o: "safechannel_open_vital ?ch (sf_vital cfg) ?mem s = (st, ch1, mem1, s1)"
      by (metis prod_cases4)
    from open_vital_held [OF o assms(2) none] show ?thesis
      using assms(1) o SAFECHANNEL_VITAL_VOTED by (auto simp: rte_safechannel_open_def)
  next
    case (SAFECHANNEL_TYPE_OTHER n)
    with assms show ?thesis by (auto simp: rte_safechannel_open_def opened_or_clean_def)
  qed
  then obtain ch1 where c: "opened_or_clean held (held (ext s)) status ch1 s'"
    "ch = ch1\<lparr>sc_is_open := (status = STATUS_OK)\<rparr>" by blast
  have below: "handles_below n (ch1\<lparr>sc_is_open := b\<rparr>) = handles_below n ch1" for n b
    by (simp add: handles_below_def)
  show "opened_or_clean held (held (ext s)) status ch s'"
    using c(1) by (simp add: opened_or_clean_def holding_def below c(2) split: if_splits)
  show "sc_is_open ch \<longleftrightarrow> status = STATUS_OK" by (simp add: c(2))
qed

lemma safechannel_close_held:
  assumes "rte_safechannel_close (Some ch) mem s = (status, Some ch', mem', s')"
    and "sc_is_open ch" "links_tracked held s" "sc_link_count ch \<le> length (sc_link_handles ch)"
  shows "held (ext s') = held (ext s) - handles_below (sc_link_count ch) ch" and "\<not> sc_is_open ch'"
proof -
  obtain v where "(\<exists>c s1. safechannel_close_links (sc_link_count ch) (ch\<lparr>sc_voter := v\<rparr>) s = (c, s1) \<and>
      s' = s1 \<and> ch' = c\<lparr>sc_link_count := 0, sc_is_open := False\<rparr>) \<and> True"
  proof (cases "sc_type ch = SAFECHANNEL_VITAL_VOTED")
    case True
    obtain c s1 where c: "safechannel_close_links (sc_link_count ch)
      (ch\<lparr>sc_voter := the_default (sc_voter ch) (snd (rte_voter_destroy (Some (sc_voter ch))))\<rparr>) s = (c, s1)"
      by fastforce
    show thesis by (rule that [of "the_default (sc_voter ch) (snd (rte_voter_destroy (Some (sc_voter ch))))"])
      (use assms(1,2) True c in \<open>auto simp: rte_safechannel_close_def Let_def\<close>)
  next
    case False
    obtain c s1 where c: "safechannel_close_links (sc_link_count ch) (ch\<lparr>sc_voter := sc_voter ch\<rparr>) s = (c, s1)"
      by fastforce
    show thesis by (rule that [of "sc_voter ch"])
      (use assms(1,2) False c in \<open>auto simp: rte_safechannel_close_def Let_def\<close>)
  qed
  then obtain c s1 where c: "safechannel_close_links (sc_link_count ch) (ch\<lparr>sc_voter := v\<rparr>) s = (c, s1)"
    "s' = s1" "ch' = c\<lparr>sc_link_count := 0, sc_is_open := False\<rparr>" by blast
  show "held (ext s') = held (ext s) - handles_below (sc_link_count ch) ch"
    using close_links_held(2) [OF assms(3) c(1)] assms(4) by (simp add: c(2) handles_below_def)
  show "\<not> sc_is_open ch'" by (simp add: c(3))
qed

section \<open>What a voted channel is made of\<close>

definition link_channel :: "handle option \<Rightarrow> 'x rte_channel" where
  "link_channel h = \<lparr>ch_handle = h, ch_send = safechannel_vital_backend_send,
     ch_recv = safechannel_vital_backend_recv, ch_name = None,
     ch_health = \<lparr>ch_send_count = 0, ch_send_error_count = 0, ch_receive_count = 0,
       ch_receive_error_count = 0, ch_is_healthy = True, ch_last_error = STATUS_OK\<rparr>,
     ch_initialized = True\<rparr>"

lemma attach_one:
  assumes "rte_channel_init (Some p) (Some \<lparr>cc_channel_handle = h,
      cc_send = Some safechannel_vital_backend_send, cc_recv = Some safechannel_vital_backend_recv,
      cc_name = None\<rparr>) mem s = (STATUS_OK, mem1, s1)"
    and "rte_voter_register_channel (Some v) (Some p) s1 = (STATUS_OK, v', s2)"
  shows "mem1 = mem(p := link_channel h)" "v' = Some (v\<lparr>vo_channels := vo_channels v @ [p]\<rparr>)"
    and "vo_initialized v"
  using assms
  by (auto simp: rte_channel_init_def rte_voter_register_channel_def Let_def link_channel_def
      split: prod.splits if_splits)

lemma attach_channels_ok:
  assumes "attach_channels [k..<n] ch mem s = (STATUS_OK, ch', mem', s')"
    and "k \<le> n" "n \<le> length (sc_channels_at ch)" "distinct (sc_channels_at ch)"
  shows "ch' = ch\<lparr>sc_voter := (sc_voter ch)\<lparr>vo_channels :=
      vo_channels (sc_voter ch) @ map ((!) (sc_channels_at ch)) [k..<n]\<rparr>\<rparr> \<and>
    (\<forall>i. k \<le> i \<and> i < n \<longrightarrow> mem' (sc_channels_at ch ! i) = link_channel (sc_link_handles ch ! i)) \<and>
    (\<forall>i. i < k \<longrightarrow> mem' (sc_channels_at ch ! i) = mem (sc_channels_at ch ! i)) \<and>
    (k < n \<longrightarrow> vo_initialized (sc_voter ch))"
  using assms
proof (induction "n - k" arbitrary: k ch mem s)
  case 0
  then show ?case by auto
next
  case (Suc d)
  then have k: "k < n" and list: "[k..<n] = k # [Suc k..<n]" by (simp_all add: upt_conv_Cons)
  let ?p = "sc_channels_at ch ! k"
  obtain st mem1 s1 where ci: "rte_channel_init (Some ?p)
      (Some \<lparr>cc_channel_handle = sc_link_handles ch ! k,
         cc_send = Some safechannel_vital_backend_send,
         cc_recv = Some safechannel_vital_backend_recv, cc_name = None\<rparr>) mem s = (st, mem1, s1)"
    by (metis prod_cases3)
  obtain st2 v s2 where rg: "(if st = STATUS_OK
      then rte_voter_register_channel (Some (sc_voter ch)) (Some ?p) s1
      else (st, Some (sc_voter ch), s1)) = (st2, v, s2)" by (metis prod_cases3)
  obtain ch2 s3 where ab: "abandon (ch\<lparr>sc_voter := the_default (sc_voter ch) v\<rparr>) s2 = (ch2, s3)" by fastforce
  have ok: "st2 = STATUS_OK" using Suc.prems(1) by (cases "st2 = STATUS_OK") (simp_all add: list ci rg ab)
  then have ok1: "st = STATUS_OK" using rg by (cases "st = STATUS_OK") simp_all
  have reg: "rte_voter_register_channel (Some (sc_voter ch)) (Some ?p) s1 = (STATUS_OK, v, s2)"
    using rg ok ok1 by simp
  note one = attach_one [OF ci [unfolded ok1] reg]
  let ?ch = "ch\<lparr>sc_voter := the_default (sc_voter ch) v\<rparr>"
  have run: "attach_channels [Suc k..<n] ?ch mem1 s2 = (STATUS_OK, ch', mem', s')"
    using Suc.prems(1) ok by (simp add: list ci rg)
  have "d = n - Suc k" "Suc k \<le> n" using Suc.hyps(2) k by simp_all
  from Suc.hyps(1) [OF this(1) run this(2)] Suc.prems(3,4)
  have IH: "ch' = ?ch\<lparr>sc_voter := (sc_voter ?ch)\<lparr>vo_channels :=
      vo_channels (sc_voter ?ch) @ map ((!) (sc_channels_at ch)) [Suc k..<n]\<rparr>\<rparr>"
    "\<forall>i. Suc k \<le> i \<and> i < n \<longrightarrow> mem' (sc_channels_at ch ! i) = link_channel (sc_link_handles ch ! i)"
    "\<forall>i. i < Suc k \<longrightarrow> mem' (sc_channels_at ch ! i) = mem1 (sc_channels_at ch ! i)"
    by simp_all
  have apart: "i < k \<Longrightarrow> sc_channels_at ch ! i \<noteq> ?p" for i
    using Suc.prems(3,4) k by (simp add: nth_eq_iff_index_eq)
  have head: "mem' ?p = link_channel (sc_link_handles ch ! k)" using IH(3) by (simp add: one(1))
  show ?case
  proof (intro conjI allI impI)
    show "ch' = ch\<lparr>sc_voter := (sc_voter ch)\<lparr>vo_channels :=
      vo_channels (sc_voter ch) @ map ((!) (sc_channels_at ch)) [k..<n]\<rparr>\<rparr>"
      using IH(1) by (simp add: one(2) list)
    fix i
    show "k \<le> i \<and> i < n \<Longrightarrow> mem' (sc_channels_at ch ! i) = link_channel (sc_link_handles ch ! i)"
      using IH(2) head by (cases "i = k") auto
    show "i < k \<Longrightarrow> mem' (sc_channels_at ch ! i) = mem (sc_channels_at ch ! i)"
      using IH(3) apart by (simp add: one(1))
  qed (rule one(3))
qed

lemma map_nth_upt0: "n \<le> length xs \<Longrightarrow> map ((!) xs) [0..<n] = take n xs"
  by (simp add: list_eq_iff_nth_eq)

lemma close_each_shape: "close_each is ch s = (ch', s') \<Longrightarrow> \<exists>hs. ch' = ch\<lparr>sc_link_handles := hs\<rparr>"
proof (induction "is" arbitrary: ch s)
  case (Cons i "is")
  then show ?case by (fastforce split: if_splits)
qed auto

lemma open_endpoints_shape:
  "open_endpoints is eps m t ch s = (status, ch', s') \<Longrightarrow> \<exists>hs. ch' = ch\<lparr>sc_link_handles := hs\<rparr>"
proof (induction "is" arbitrary: ch s)
  case (Cons i "is")
  obtain st h s1 where one: "safechannel_open_one_endpoint (sc_links_at ch ! i) (eps ! i) m t
      (sc_link_handles ch ! i) s = (st, h, s1)" by (metis prod_cases3)
  let ?ch = "ch\<lparr>sc_link_handles := (sc_link_handles ch)[i := h]\<rparr>"
  obtain ch2 s2 where c: "safechannel_close_links i ?ch s1 = (ch2, s2)" by fastforce
  have "\<exists>hs. ch2 = ?ch\<lparr>sc_link_handles := hs\<rparr>"
    using close_each_shape c unfolding safechannel_close_links_def by blast
  then show ?case using Cons.prems Cons.IH [of ?ch s1]
    by (cases "st = STATUS_OK") (auto simp: one c)
qed auto

lemma voter_init_ok:
  assumes "rte_voter_init (Some v) (Some cfg) s = (STATUS_OK, v', s')"
  shows "v' = Some (v\<lparr>vo_config := cfg, vo_channels := [], vo_total_disagreements := 0, vo_initialized := True\<rparr>)"
    and "\<not> g_setup_locked s"
  using assms
  by (auto simp: rte_voter_init_def rte_lifecycle_check_setup_allowed_def Let_def
      split: prod.splits if_splits rte_voting_strategy.splits)

text \<open>What a successful open of a voted channel leaves.\<close>

lemma open_vital_ok:
  assumes "safechannel_open_vital ch cfg mem s = (STATUS_OK, ch', mem', s')"
    and "length (sc_channels_at ch) = SAFECHANNEL_MAX_LINKS" "distinct (sc_channels_at ch)"
    and "sc_link_handles ch = replicate SAFECHANNEL_MAX_LINKS None"
  shows "sc_link_count ch' = sv_link_count cfg"
    and "0 < sv_link_count cfg" "sv_link_count cfg \<le> SAFECHANNEL_MAX_LINKS" "sv_message_size cfg \<noteq> 0"
    and "vo_config (sc_voter ch') = vital_voter_config cfg" "vo_initialized (sc_voter ch')"
    and "vo_channels (sc_voter ch') = take (sv_link_count cfg) (sc_channels_at ch)"
    and "i < sv_link_count cfg \<Longrightarrow>
      mem' (sc_channels_at ch ! i) = link_channel (sc_link_handles ch' ! i)"
    and "sc_channels_at ch' = sc_channels_at ch" "sc_type ch' = sc_type ch"
proof -
  let ?n = "sv_link_count cfg"
  have ok: "\<not> (?n = 0 \<or> ?n > SAFECHANNEL_MAX_LINKS \<or> sv_message_size cfg = 0)"
    "\<not> (\<exists>i \<in> set [0..<?n]. \<not> usable_endpoint (sv_endpoints cfg ! i))"
    using assms(1) by (auto simp: safechannel_open_vital_def split: if_splits)
  then show n: "0 < ?n" "?n \<le> SAFECHANNEL_MAX_LINKS" "sv_message_size cfg \<noteq> 0" by simp_all
  obtain st ch1 s1 where op: "open_endpoints [0..<?n] (sv_endpoints cfg) (sv_message_size cfg)
      (sv_connect_timeout_ms cfg) ch s = (st, ch1, s1)" by (metis prod_cases3)
  have st: "st = STATUS_OK" using assms(1) ok by (auto simp: safechannel_open_vital_def op split: if_splits)
  let ?ch2 = "ch1\<lparr>sc_link_count := ?n\<rparr>"
  obtain st2 v s2 where vi: "rte_voter_init (Some (sc_voter ?ch2)) (Some (vital_voter_config cfg)) s1 =
      (st2, v, s2)" by (metis prod_cases3)
  let ?ch3 = "?ch2\<lparr>sc_voter := the_default (sc_voter ?ch2) v\<rparr>"
  obtain ch4 s4 where ab: "abandon ?ch3 s2 = (ch4, s4)" by fastforce
  have st2: "st2 = STATUS_OK"
    using assms(1) ok st unfolding safechannel_open_vital_def op Let_def
    using vi ab by (auto split: if_splits)
  have at: "attach_channels [0..<?n] ?ch3 mem s2 = (STATUS_OK, ch', mem', s')"
    using assms(1) ok st st2 unfolding safechannel_open_vital_def op Let_def
    using vi by (auto split: if_splits)
  obtain hs where hs: "ch1 = ch\<lparr>sc_link_handles := hs\<rparr>"
    using open_endpoints_shape [OF op] by blast
  have at_ch: "sc_channels_at ?ch3 = sc_channels_at ch" by (simp add: hs)
  note vi_ok = voter_init_ok(1) [OF vi [unfolded st2]]
  from attach_channels_ok [OF at] assms(2,3) n
  have end_ch: "ch' = ?ch3\<lparr>sc_voter := (sc_voter ?ch3)\<lparr>vo_channels :=
      vo_channels (sc_voter ?ch3) @ map ((!) (sc_channels_at ch)) [0..<?n]\<rparr>\<rparr>"
    and end_mem: "\<forall>i. i < ?n \<longrightarrow> mem' (sc_channels_at ch ! i) = link_channel (sc_link_handles ?ch3 ! i)"
    unfolding at_ch by simp_all
  show "sc_link_count ch' = ?n" "sc_channels_at ch' = sc_channels_at ch" "sc_type ch' = sc_type ch"
    by (simp_all add: end_ch hs)
  show "vo_config (sc_voter ch') = vital_voter_config cfg" "vo_initialized (sc_voter ch')"
    by (simp_all add: end_ch vi_ok)
  show "vo_channels (sc_voter ch') = take ?n (sc_channels_at ch)"
    using assms(2) n by (simp add: end_ch vi_ok map_nth_upt0)
  show "i < ?n \<Longrightarrow> mem' (sc_channels_at ch ! i) = link_channel (sc_link_handles ch' ! i)"
    using end_mem by (simp add: end_ch)
qed

lemma safechannel_open_vital_ok:
  assumes "rte_safechannel_open (Some old) (Some cfg) mem s = (STATUS_OK, Some ch, mem', s')"
    and "sf_type cfg = SAFECHANNEL_VITAL_VOTED"
    and "length (sc_channels_at old) = SAFECHANNEL_MAX_LINKS" "distinct (sc_channels_at old)"
  shows "sc_link_count ch = sv_link_count (sf_vital cfg)" "0 < sv_link_count (sf_vital cfg)"
    and "sv_link_count (sf_vital cfg) \<le> SAFECHANNEL_MAX_LINKS"
    and "vo_config (sc_voter ch) = vital_voter_config (sf_vital cfg)" "vo_initialized (sc_voter ch)"
    and "vo_channels (sc_voter ch) = take (sv_link_count (sf_vital cfg)) (sc_channels_at old)"
    and "i < sv_link_count (sf_vital cfg) \<Longrightarrow>
      mem' (sc_channels_at old ! i) = link_channel (sc_link_handles ch ! i)"
    and "sc_is_open ch" "sc_type ch = SAFECHANNEL_VITAL_VOTED"
proof -
  let ?ch = "cleared_safechannel (sf_type cfg) old"
  obtain st ch1 mem1 s1 where o: "safechannel_open_vital ?ch (sf_vital cfg)
      (clear_channels (sc_channels_at old) mem) s = (st, ch1, mem1, s1)" by (metis prod_cases4)
  from assms(1) o have eq: "st = STATUS_OK" "ch = ch1\<lparr>sc_is_open := True\<rparr>" "mem' = mem1"
    by (auto simp: rte_safechannel_open_def assms(2))
  note ok = open_vital_ok [OF o [unfolded eq(1)]]
  have same: "sc_channels_at ?ch = sc_channels_at old" "sc_type ?ch = SAFECHANNEL_VITAL_VOTED"
    "sc_link_handles ?ch = replicate SAFECHANNEL_MAX_LINKS None"
    by (simp_all add: cleared_safechannel_def assms(2))
  show "sc_link_count ch = sv_link_count (sf_vital cfg)" "0 < sv_link_count (sf_vital cfg)"
    "sv_link_count (sf_vital cfg) \<le> SAFECHANNEL_MAX_LINKS"
    "vo_config (sc_voter ch) = vital_voter_config (sf_vital cfg)" "vo_initialized (sc_voter ch)"
    "vo_channels (sc_voter ch) = take (sv_link_count (sf_vital cfg)) (sc_channels_at old)"
    "sc_is_open ch" "sc_type ch = SAFECHANNEL_VITAL_VOTED"
    using ok(1-7,9,10) assms(3,4) by (simp_all add: same eq)
  show "i < sv_link_count (sf_vital cfg) \<Longrightarrow>
      mem' (sc_channels_at old ! i) = link_channel (sc_link_handles ch ! i)"
    using ok(8) [of i] assms(3,4) by (simp add: same eq)
qed

lemma open_vital_status:
  assumes "rte_safechannel_open (Some old) (Some cfg) mem s = (STATUS_OK, Some ch, mem', s')"
    and "sf_type cfg = SAFECHANNEL_VITAL_VOTED"
    and "length (sc_channels_at old) = SAFECHANNEL_MAX_LINKS" "distinct (sc_channels_at old)"
  shows "rte_safechannel_get_status (Some ch) mem' = LINK_FULL"
proof -
  note ok = safechannel_open_vital_ok [OF assms]
  let ?n = "sv_link_count (sf_vital cfg)"
  have "ch_is_healthy (ch_health (mem' p))" if "p \<in> set (vo_channels (sc_voter ch))" for p
  proof -
    from that obtain i where "i < ?n" "p = sc_channels_at old ! i"
      using ok(3) assms(3) by (auto simp: ok(6) in_set_conv_nth)
    then show ?thesis by (simp add: ok(7) link_channel_def)
  qed
  then have "filter (channel_healthy mem') (vo_channels (sc_voter ch)) = vo_channels (sc_voter ch)"
    by (simp add: filter_id_conv)
  then have "voter_count_healthy (sc_voter ch) mem' = ?n"
    using ok(3) assms(3) by (simp add: voter_count_healthy_def ok(6))
  then show ?thesis using ok(2)
    by (simp add: rte_safechannel_get_status_def ok(1,8,9) rte_voter_get_aggregated_health_def Let_def)
qed

section \<open>Properties\<close>

text \<open>C35. A safe channel leaks no network link: an open that fails, at whatever point, has closed every
  link it had opened; one that succeeds holds a new link for every endpoint, and its close, whenever
  it comes, gives back exactly these.\<close>

theorem safechannel_leaks_no_link:
  assumes "rte_safechannel_open (Some old) (Some cfg) mem s = (status, Some ch, mem', s')"
    and "links_tracked held s"
  shows "(status \<noteq> STATUS_OK \<longrightarrow> held (ext s') = held (ext s)) \<and>
    (status = STATUS_OK \<longrightarrow>
       (\<forall>i < sc_link_count ch. \<exists>h. sc_link_handles ch ! i = Some h \<and> h \<notin> held (ext s)) \<and>
       (\<forall>mem1 s1 ch2 mem2 s2. links_tracked held s1 \<longrightarrow> held (ext s1) = held (ext s') \<longrightarrow>
          rte_safechannel_close (Some ch) mem1 s1 = (STATUS_OK, Some ch2, mem2, s2) \<longrightarrow>
          held (ext s2) = held (ext s)))"
proof -
  note opened = safechannel_open_held [OF assms]
  show ?thesis
  proof (cases "status = STATUS_OK")
    case False
    with opened(1) show ?thesis by (simp add: opened_or_clean_def)
  next
    case True
    with opened have h: "holding held (held (ext s)) (sc_link_count ch) ch s'" and is_open: "sc_is_open ch"
      by (simp_all add: opened_or_clean_def)
    from h have "\<forall>i < sc_link_count ch. \<exists>h. sc_link_handles ch ! i = Some h \<and> h \<notin> held (ext s)"
      by (fastforce simp: holding_def handles_below_def)
    moreover have "held (ext s2) = held (ext s)"
      if "links_tracked held s1" "held (ext s1) = held (ext s')"
        "rte_safechannel_close (Some ch) mem1 s1 = (STATUS_OK, Some ch2, mem2, s2)" for mem1 s1 ch2 mem2 s2
      using safechannel_close_held(1) [OF that(3) is_open that(1)] h that(2)
      by (auto simp: holding_def)
    ultimately show ?thesis using True by blast
  qed
qed

text \<open>The outside world of the witnesses: the next handle and the open ones; port 9 never answers.\<close>

definition counting_adapter :: "(nat \<times> nat list) osadapter_netlink" where
  "counting_adapter = \<lparr>
     netlink_open = Some (\<lambda>_ cfg (n, hs). if nc_port cfg = 9 then (STATUS_TIMEOUT, None, (n, hs))
       else (STATUS_OK, Some n, (n + 1, n # hs))),
     netlink_send = None, netlink_receive = None,
     netlink_close = Some (\<lambda>h (n, hs). (STATUS_OK, (n, removeAll h hs)))\<rparr>"

definition counting_platform :: "(nat \<times> nat list) rte" where
  "counting_platform = (initial_rte (0, []))\<lparr>s_netlink := Some counting_adapter\<rparr>"

definition open_handles :: "nat \<times> nat list \<Rightarrow> handle set" where
  "open_handles x = {h \<in> set (snd x). h < fst x}"

lemma counting_tracked: "links_tracked open_handles counting_platform"
proof -
  have "open_law open_handles (the (netlink_open counting_adapter))"
    by (auto simp: open_law_def counting_adapter_def open_handles_def split: if_splits)
  moreover have "close_law open_handles (the (netlink_close counting_adapter))"
    by (auto simp: close_law_def counting_adapter_def open_handles_def)
  ultimately show ?thesis
    by (simp add: links_tracked_def counting_platform_def handler_law_def initial_rte_def)
      (simp add: counting_adapter_def)
qed

definition sample_endpoint :: "u16 \<Rightarrow> rte_safechannel_endpoint" where
  "sample_endpoint port = \<lparr>ep_role = NETLINK_LISTEN, ep_host = None, ep_port = port\<rparr>"

definition sample_safechannel_config ::
  "rte_safechannel_type \<Rightarrow> u16 list \<Rightarrow> (nat \<times> nat list) rte_safechannel_config" where
  "sample_safechannel_config type ports = \<lparr>sf_type = type,
     sf_dual = \<lparr>sd_endpoints = map sample_endpoint ports, sd_link_count = length ports,
       sd_sender_id = 1, sd_expected_peer_id = 2, sd_connect_timeout_ms = 100,
       sd_ack_timeout_ms = 100, sd_status_callback = None, sd_status_callback_ctx = None\<rparr>,
     sf_vital = \<lparr>sv_endpoints = map sample_endpoint ports, sv_link_count = length ports,
       sv_message_size = 16, sv_voting_strategy = VOTING_2OO3, sv_quorum_size = 0,
       sv_connect_timeout_ms = 100, sv_channel_timeout_ms = 100, sv_log_disagreements = False,
       sv_on_disagreement = None, sv_context = None\<rparr>\<rparr>"

definition blank_safechannel :: "(nat \<times> nat list) rte_safechannel" where
  "blank_safechannel = cleared_safechannel SAFECHANNEL_DUAL_REDUNDANT
     \<lparr>sc_links_at = [0, 1, 2, 3], sc_channels_at = [4, 5, 6, 7], sc_type = SAFECHANNEL_DUAL_REDUNDANT,
      sc_is_open = False, sc_link_handles = [], sc_link_count = 0, sc_dual = cleared_channel,
      sc_voter = zero_voter\<rparr>"

lemmas safechannel_run = rte_safechannel_open_def safechannel_open_dual_def safechannel_open_vital_def
  safechannel_open_one_endpoint_def rte_netlink_open_def safechannel_close_links_def abandon_def
  rte_netlink_close_def dispatch_def usable_endpoint_def SAFECHANNEL_MAX_LINKS_def
  blank_safechannel_def sample_safechannel_config_def sample_endpoint_def cleared_safechannel_def
  counting_platform_def counting_adapter_def initial_rte_def

theorem safechannel_leaks_no_link_witness:
  "\<exists>ch mem' s'. rte_safechannel_open (Some blank_safechannel)
      (Some (sample_safechannel_config SAFECHANNEL_DUAL_REDUNDANT [7, 8, 9])) (\<lambda>_. link_channel None) counting_platform =
      (STATUS_TIMEOUT, Some ch, mem', s') \<and> open_handles (ext s') = open_handles (ext counting_platform)"
proof -
  have "\<exists>ch mem' s'. rte_safechannel_open (Some blank_safechannel)
      (Some (sample_safechannel_config SAFECHANNEL_DUAL_REDUNDANT [7, 8, 9])) (\<lambda>_. link_channel None) counting_platform =
      (STATUS_TIMEOUT, Some ch, mem', s')"
    by (simp add: safechannel_run)
  then obtain ch mem' s' where run: "rte_safechannel_open (Some blank_safechannel)
      (Some (sample_safechannel_config SAFECHANNEL_DUAL_REDUNDANT [7, 8, 9])) (\<lambda>_. link_channel None) counting_platform =
      (STATUS_TIMEOUT, Some ch, mem', s')" by blast
  with safechannel_leaks_no_link [OF run counting_tracked] show ?thesis by blast
qed

text \<open>A voted safe channel that opens is wired one to one: each channel of its voter is a healthy
  channel on the handle of the link with the same number, in the order of the endpoints, a disagreement of its voter enters
  the SAFE state, and the channel reports FULL.\<close>

theorem opened_voted_channel:
  assumes "rte_safechannel_open (Some old) (Some cfg) mem s = (STATUS_OK, Some ch, mem', s')"
    and "sf_type cfg = SAFECHANNEL_VITAL_VOTED"
    and "length (sc_channels_at old) = SAFECHANNEL_MAX_LINKS" "distinct (sc_channels_at old)"
  shows "length (vo_channels (sc_voter ch)) = sv_link_count (sf_vital cfg) \<and>
    vo_initialized (sc_voter ch) \<and> vc_safestate_level (vo_config (sc_voter ch)) = LEVEL_SAFE \<and>
    (\<forall>i < sv_link_count (sf_vital cfg).
       mem' (vo_channels (sc_voter ch) ! i) = link_channel (sc_link_handles ch ! i)) \<and>
    rte_safechannel_get_status (Some ch) mem' = LINK_FULL"
proof -
  note ok = safechannel_open_vital_ok [OF assms]
  show ?thesis
    using open_vital_status [OF assms] ok(3,5) assms(3)
    by (simp add: ok(4,6,7) vital_voter_config_def)
qed

text \<open>An open does not check the number of links against the voting strategy: a 2-out-of-3 channel over
  other than three links, or a 2-out-of-2 channel over other than two, opens, reports FULL, and then
  refuses every send and every receive.\<close>

theorem mismatched_strategy_carries_nothing:
  assumes "rte_safechannel_open (Some old) (Some cfg) mem s = (STATUS_OK, Some ch, mem', s')"
    and "sf_type cfg = SAFECHANNEL_VITAL_VOTED"
    and "length (sc_channels_at old) = SAFECHANNEL_MAX_LINKS" "distinct (sc_channels_at old)"
    and "(sv_voting_strategy (sf_vital cfg), sv_link_count (sf_vital cfg)) \<in>
      {(VOTING_2OO3, 1), (VOTING_2OO3, 2), (VOTING_2OO3, 4), (VOTING_2OO2, 1), (VOTING_2OO2, 3), (VOTING_2OO2, 4)}"
  shows "rte_safechannel_get_status (Some ch) mem' = LINK_FULL \<and>
    (\<exists>status. status \<noteq> STATUS_OK \<and>
       rte_safechannel_send (Some ch) payload n mem1 s1 = Some (status, Some ch, mem1, s1)) \<and>
    (\<exists>status written. status \<noteq> STATUS_OK \<and>
       rte_safechannel_receive stack (Some ch) buf n t (Some z) mem1 s1 =
         Returned (status, buf, Some written) (Some ch, mem1, s1))"
proof -
  note ok = safechannel_open_vital_ok [OF assms(1-4)]
  have "\<not> voter_channel_count_matches_strategy (sc_voter ch) (length (vo_channels (sc_voter ch)))"
    using assms(3,5) by (auto simp: ok(4,6) vital_voter_config_def SAFECHANNEL_MAX_LINKS_def)
  then show ?thesis
    using open_vital_status [OF assms(1-4)] ok(5,8,9)
    by (auto simp: rte_safechannel_send_def rte_safechannel_receive_def rte_voter_send_def
        rte_voter_receive_def Let_def split: option.splits)
qed

lemma counting_open_voted:
  assumes "length ports \<in> {2, 3}" "9 \<notin> set ports"
  shows "\<exists>ch mem' s'. rte_safechannel_open (Some blank_safechannel)
      (Some (sample_safechannel_config SAFECHANNEL_VITAL_VOTED ports)) mem counting_platform =
      (STATUS_OK, Some ch, mem', s')"
proof -
  from assms consider a b where "ports = [a, b]" "a \<noteq> 9" "b \<noteq> 9"
    | a b c where "ports = [a, b, c]" "a \<noteq> 9" "b \<noteq> 9" "c \<noteq> 9"
    by (auto simp: numeral_eq_Suc length_Suc_conv)
  then show ?thesis
    by cases (simp_all add: safechannel_run rte_voter_init_def vital_voter_config_def
        rte_channel_init_def rte_voter_register_channel_def rte_lifecycle_check_setup_allowed_def
        VOTER_MAX_CHANNELS_def zero_voter_def)
qed

theorem opened_voted_channel_witness:
  "\<exists>ch mem' s'. rte_safechannel_open (Some blank_safechannel)
      (Some (sample_safechannel_config SAFECHANNEL_VITAL_VOTED [6, 7, 8])) (\<lambda>_. link_channel None) counting_platform =
      (STATUS_OK, Some ch, mem', s') \<and> length (vo_channels (sc_voter ch)) = 3 \<and>
      rte_safechannel_get_status (Some ch) mem' = LINK_FULL"
proof -
  obtain ch mem' s' where run: "rte_safechannel_open (Some blank_safechannel)
      (Some (sample_safechannel_config SAFECHANNEL_VITAL_VOTED [6, 7, 8])) (\<lambda>_. link_channel None) counting_platform =
      (STATUS_OK, Some ch, mem', s')" using counting_open_voted [of "[6, 7, 8]" "\<lambda>_. link_channel None"] by auto
  from opened_voted_channel [OF run] show ?thesis using run
    by (simp add: sample_safechannel_config_def blank_safechannel_def cleared_safechannel_def
        SAFECHANNEL_MAX_LINKS_def)
qed

theorem mismatched_strategy_carries_nothing_witness:
  "\<exists>ch mem' s'. rte_safechannel_open (Some blank_safechannel)
      (Some (sample_safechannel_config SAFECHANNEL_VITAL_VOTED [7, 8])) (\<lambda>_. link_channel None) counting_platform =
      (STATUS_OK, Some ch, mem', s') \<and> rte_safechannel_get_status (Some ch) mem' = LINK_FULL \<and>
      (\<exists>status. status \<noteq> STATUS_OK \<and>
        rte_safechannel_send (Some ch) (Some [1]) 1 mem' s' = Some (status, Some ch, mem', s'))"
proof -
  obtain ch mem' s' where run: "rte_safechannel_open (Some blank_safechannel)
      (Some (sample_safechannel_config SAFECHANNEL_VITAL_VOTED [7, 8])) (\<lambda>_. link_channel None) counting_platform =
      (STATUS_OK, Some ch, mem', s')" using counting_open_voted [of "[7, 8]" "\<lambda>_. link_channel None"] by auto
  from mismatched_strategy_carries_nothing [OF run, of "Some [1]" 1 mem' s' "\<lambda>_. []" None 0 0]
  show ?thesis using run
    by (simp add: sample_safechannel_config_def blank_safechannel_def cleared_safechannel_def
        SAFECHANNEL_MAX_LINKS_def)
qed

end
