(* ===== verification/Safechannel_Vote.thy ===== *)
theory Safechannel_Vote
  imports Safechannel
begin

text \<open>
  A voted safe channel end to end: the factory of \<^verbatim>\<open>rte_safechannel.c\<close>, the channel objects of
  \<^verbatim>\<open>rte_channel.c\<close>, the voter of \<^verbatim>\<open>rte_voter.c\<close> and the netlink service together. The
  definitions are those of the theories below; here they are run one after the other.
\<close>

section \<open>Links\<close>

text \<open>The registered netlink adapter reads with \<open>f\<close>.\<close>

definition reads_with :: "(handle \<Rightarrow> bytes \<Rightarrow> duration_ms \<Rightarrow> 'x \<Rightarrow> rte_status \<times> bytes \<times> 'x) \<Rightarrow> 'x rte \<Rightarrow> bool" where
  "reads_with f s \<longleftrightarrow> (\<exists>a. s_netlink s = Some a \<and> netlink_receive a = Some f)"

text \<open>A link whose reads of \<open>n\<close> bytes always give the message \<open>b\<close>.\<close>

definition link_gives ::
  "(handle \<Rightarrow> bytes \<Rightarrow> duration_ms \<Rightarrow> 'x \<Rightarrow> rte_status \<times> bytes \<times> 'x) \<Rightarrow> handle \<Rightarrow> nat \<Rightarrow> bytes \<Rightarrow> bool" where
  "link_gives f h n b \<longleftrightarrow> length b = n \<and>
     (\<forall>buf t x. length buf = n \<longrightarrow> (\<exists>x'. f h buf t x = (STATUS_OK, b, x')))"

lemma reads_with_ext [simp]: "reads_with f (s\<lparr>ext := x\<rparr>) = reads_with f s"
  by (simp add: reads_with_def)

lemma netlink_receive_shape:
  "rte_netlink_receive h m n t s = (st, out, s') \<Longrightarrow> \<exists>x. s' = s\<lparr>ext := x\<rparr>"
  by (auto simp: rte_netlink_receive_def split: option.splits if_splits prod.splits
      intro: exI [of _ "ext s"])

text \<open>Every channel the factory makes leaves the registered adapter in place.\<close>

lemma link_channel_keeps: "keeps_state (reads_with f) (link_channel h)"
proof -
  have "reads_with f s'"
    if "reads_with f s" "safechannel_vital_backend_recv h buf t s = (st, d, s')" for buf t s st d s'
  proof -
    obtain st1 out s1 where r: "rte_netlink_receive h (Some buf) (length buf) t s = (st1, out, s1)"
      by (metis prod_cases3)
    then have "s' = s1" using that(2) by (simp add: safechannel_vital_backend_recv_def)
    with netlink_receive_shape [OF r] that(1) show ?thesis by auto
  qed
  then show ?thesis unfolding keeps_state_def by (simp add: link_channel_def)
qed

lemma link_channel_delivers:
  assumes "link_gives f h n b" "0 < n"
  shows "delivers_in (reads_with f) (\<lambda>buf. length buf = n) (link_channel (Some h)) n b"
proof -
  have "\<exists>s'. safechannel_vital_backend_recv (Some h) buf t s = (STATUS_OK, b, s')"
    if r: "reads_with f s" and l: "length buf = n" for buf t s
  proof -
    obtain a where a: "s_netlink s = Some a" "netlink_receive a = Some f"
      using r by (auto simp: reads_with_def)
    obtain x where "f h buf t (ext s) = (STATUS_OK, b, x)"
      using assms(1) l unfolding link_gives_def by blast
    then show ?thesis using assms(2) l
      by (simp add: safechannel_vital_backend_recv_def rte_netlink_receive_def a)
  qed
  moreover have "length b = n" using assms(1) by (simp add: link_gives_def)
  ultimately show ?thesis by (simp add: delivers_in_def link_channel_def)
qed

section \<open>One faulty link is masked\<close>

text \<open>C19.
  A voted safe channel masks one faulty link: when a 2-out-of-3 channel over three links has opened
  and two of the links deliver the same message, a receive of the safe channel returns OK with that
  message and its size, whatever the third link delivers or reports and whatever the local buffers
  held before.
\<close>

theorem voted_channel_masks_one_link:
  assumes opened: "rte_safechannel_open (Some old) (Some cfg) mem s = (STATUS_OK, Some ch, mem1, s1)"
    and voted: "sf_type cfg = SAFECHANNEL_VITAL_VOTED" "sv_link_count (sf_vital cfg) = 3"
      "sv_voting_strategy (sf_vital cfg) = VOTING_2OO3"
    and objects: "length (sc_channels_at old) = SAFECHANNEL_MAX_LINKS" "distinct (sc_channels_at old)"
    and adapter: "reads_with f s2"
    and links: "i < 3" "j < 3" "i \<noteq> j" "sc_link_handles ch ! i = Some h" "sc_link_handles ch ! j = Some h'"
      "link_gives f h n b" "link_gives f h' n b"
    and sizes: "0 < n" "n \<le> VOTER_MAX_MESSAGE_SIZE" "\<And>k. n \<le> length (stack k)"
  shows "\<exists>mem2 s3. rte_safechannel_receive stack (Some ch) (Some d) n t (Some k) mem1 s2 =
    Returned (STATUS_OK, Some (copy_at 0 b d), Some n) (Some ch, mem2, s3)"
proof -
  note ok = safechannel_open_vital_ok [OF opened voted(1) objects, unfolded voted(2)]
  let ?v = "sc_voter ch"
  have three: "length (vo_channels ?v) = 3"
    using objects(1) by (simp add: ok(6) SAFECHANNEL_MAX_LINKS_def)
  have at: "mem1 (vo_channels ?v ! m) = link_channel (sc_link_handles ch ! m)" if "m < 3" for m
    using ok(7) [OF that] that objects(1) by (simp add: ok(6))
  have keep: "\<forall>p \<in> set (vo_channels ?v). keeps_state (reads_with f) (mem1 p)"
  proof
    fix p assume "p \<in> set (vo_channels ?v)"
    then obtain m where "m < 3" "p = vo_channels ?v ! m" using three by (metis in_set_conv_nth)
    then show "keeps_state (reads_with f) (mem1 p)" using at link_channel_keeps by simp
  qed
  have "\<exists>mem2 s3. rte_voter_receive stack (Some ?v) (Some d) n mem1 s2 =
      Returned (STATUS_OK, Some (copy_at 0 b d), Some VOTING_AGREED, Some n) (Some ?v, mem2, s3)"
  proof (rule two_of_three_in [where P = "reads_with f" and B = "\<lambda>buf. length buf = n" and i = i and j = j])
    show "vc_voting_strategy (vo_config ?v) = VOTING_2OO3" "vc_compare (vo_config ?v) = None"
      using voted(3) by (simp_all add: ok(4) vital_voter_config_def)
    show "delivers_in (reads_with f) (\<lambda>buf. length buf = n) (mem1 (vo_channels ?v ! i)) n b"
      using link_channel_delivers [OF links(6) sizes(1)] by (simp add: at [OF links(1)] links(4))
    show "delivers_in (reads_with f) (\<lambda>buf. length buf = n) (mem1 (vo_channels ?v ! j)) n b"
      using link_channel_delivers [OF links(7) sizes(1)] by (simp add: at [OF links(2)] links(5))
    show "length (take n (stack m)) = n" for m using sizes(3) [of m] by simp
  qed (use ok(5) three links adapter sizes keep in simp_all)
  then obtain mem2 s3 where "rte_voter_receive stack (Some ?v) (Some d) n mem1 s2 =
      Returned (STATUS_OK, Some (copy_at 0 b d), Some VOTING_AGREED, Some n) (Some ?v, mem2, s3)"
    by blast
  then show ?thesis by (simp add: rte_safechannel_receive_def ok(8,9))
qed

text \<open>The witness: links 0 and 2 deliver the message, link 1 delivers garbage.\<close>

definition reading_adapter :: "(nat \<times> nat list) osadapter_netlink" where
  "reading_adapter = counting_adapter\<lparr>netlink_receive :=
     Some (\<lambda>h buf t x. (STATUS_OK, if h = 1 then [9, 9] else [1, 2], x))\<rparr>"

definition reading_platform :: "(nat \<times> nat list) rte" where
  "reading_platform = (initial_rte (0, []))\<lparr>s_netlink := Some reading_adapter\<rparr>"

lemma reading_open:
  "\<exists>ch mem1 s1. rte_safechannel_open (Some blank_safechannel)
      (Some (sample_safechannel_config SAFECHANNEL_VITAL_VOTED [7, 8, 10])) (\<lambda>_. link_channel None)
      reading_platform = (STATUS_OK, Some ch, mem1, s1) \<and>
    sc_link_handles ch = [Some 0, Some 1, Some 2, None] \<and> s_netlink s1 = Some reading_adapter"
  by (simp add: safechannel_run reading_platform_def reading_adapter_def rte_voter_init_def
      vital_voter_config_def rte_channel_init_def rte_voter_register_channel_def
      rte_lifecycle_check_setup_allowed_def VOTER_MAX_CHANNELS_def zero_voter_def numeral_eq_Suc)

lemma voted_channel_masks_one_link_witness:
  "\<exists>ch mem1 s1 mem2 s3.
    rte_safechannel_open (Some blank_safechannel)
      (Some (sample_safechannel_config SAFECHANNEL_VITAL_VOTED [7, 8, 10])) (\<lambda>_. link_channel None)
      reading_platform = (STATUS_OK, Some ch, mem1, s1) \<and>
    rte_safechannel_receive (\<lambda>_. [0, 0]) (Some ch) (Some [0, 0]) 2 5 (Some 0) mem1 s1 =
      Returned (STATUS_OK, Some (copy_at 0 [1, 2] [0, 0]), Some 2) (Some ch, mem2, s3)"
proof -
  obtain ch mem1 s1 where o: "rte_safechannel_open (Some blank_safechannel)
      (Some (sample_safechannel_config SAFECHANNEL_VITAL_VOTED [7, 8, 10])) (\<lambda>_. link_channel None)
      reading_platform = (STATUS_OK, Some ch, mem1, s1)"
    and h: "sc_link_handles ch = [Some 0, Some 1, Some 2, None]" "s_netlink s1 = Some reading_adapter"
    using reading_open by blast
  let ?f = "\<lambda>h buf t x. (STATUS_OK, if h = 1 then [9, 9] else [1, 2 :: u8], x :: nat \<times> nat list)"
  have "\<exists>mem2 s3. rte_safechannel_receive (\<lambda>_. [0, 0]) (Some ch) (Some [0, 0]) 2 5 (Some 0) mem1 s1 =
      Returned (STATUS_OK, Some (copy_at 0 [1, 2] [0, 0]), Some 2) (Some ch, mem2, s3)"
    by (rule voted_channel_masks_one_link [OF o, where f = ?f and i = 0 and j = 2 and h = 0 and h' = 2])
      (simp_all add: sample_safechannel_config_def blank_safechannel_def cleared_safechannel_def
        SAFECHANNEL_MAX_LINKS_def reads_with_def reading_adapter_def h link_gives_def
        VOTER_MAX_MESSAGE_SIZE_def)
  with o show ?thesis by blast
qed

end
