(* ===== verification/Cast.thy ===== *)
theory Cast
  imports Platform_State
begin

text \<open>
  Checked integer conversion, \<^verbatim>\<open>src/utils/cast/rte_cast.c\<close>: a conversion function for every
  ordered pair of the eight fixed-width types and \<^verbatim>\<open>size_t\<close>, and checked arithmetic. The
  variable \<^verbatim>\<open>out\<close> of the caller is an option, \<open>None\<close> for a \<^verbatim>\<open>NULL\<close> pointer. A signed
  type is a word that \<open>sint\<close> reads; a conversion in C is \<open>scast\<close> or \<open>ucast\<close>. The type
  \<^verbatim>\<open>size_t\<close> has 64 bits, so the sections for smaller ones are compiled out. The checked
  functions are followed by their common specification: an exact conversion.
\<close>

section \<open>Conversions\<close>

type_synonym i8 = "8 word"
type_synonym i16 = "16 word"
type_synonym i32 = "32 word"
type_synonym i64 = "64 word"
type_synonym size_t = "64 word"

text \<open>The limits of \<^verbatim>\<open>stdint.h\<close>.\<close>

abbreviation INT8_MIN :: int where "INT8_MIN \<equiv> - 128"
abbreviation INT16_MIN :: int where "INT16_MIN \<equiv> - 32768"
abbreviation INT32_MIN :: int where "INT32_MIN \<equiv> - 2147483648"
abbreviation INT8_MAX :: int where "INT8_MAX \<equiv> 127"
abbreviation INT16_MAX :: int where "INT16_MAX \<equiv> 32767"
abbreviation INT32_MAX :: int where "INT32_MAX \<equiv> 2147483647"
abbreviation INT64_MAX :: int where "INT64_MAX \<equiv> 9223372036854775807"
abbreviation UINT8_MAX :: int where "UINT8_MAX \<equiv> 255"
abbreviation UINT16_MAX :: int where "UINT16_MAX \<equiv> 65535"
abbreviation UINT32_MAX :: int where "UINT32_MAX \<equiv> 4294967295"

text \<open>A value widened to 64 bits is an integer; this is its conversion to \<^verbatim>\<open>uint64_t\<close>.\<close>

definition to_uint64 :: "int \<Rightarrow> int" where
  "to_uint64 widened = uint (word_of_int widened :: u64)"

definition rte_cast_i8_to_i16 :: "i8 \<Rightarrow> i16 option \<Rightarrow> rte_status \<times> i16 option" where
  "rte_cast_i8_to_i16 n out =
    (case out of None \<Rightarrow> (STATUS_INVALID_PARAM, out)
     | Some _ \<Rightarrow>
         (STATUS_OK, Some (scast n)))"

definition rte_cast_i8_to_i32 :: "i8 \<Rightarrow> i32 option \<Rightarrow> rte_status \<times> i32 option" where
  "rte_cast_i8_to_i32 n out =
    (case out of None \<Rightarrow> (STATUS_INVALID_PARAM, out)
     | Some _ \<Rightarrow>
         (STATUS_OK, Some (scast n)))"

definition rte_cast_i8_to_i64 :: "i8 \<Rightarrow> i64 option \<Rightarrow> rte_status \<times> i64 option" where
  "rte_cast_i8_to_i64 n out =
    (case out of None \<Rightarrow> (STATUS_INVALID_PARAM, out)
     | Some _ \<Rightarrow>
         (STATUS_OK, Some (scast n)))"

definition rte_cast_i8_to_u8 :: "i8 \<Rightarrow> u8 option \<Rightarrow> rte_status \<times> u8 option" where
  "rte_cast_i8_to_u8 n out =
    (case out of None \<Rightarrow> (STATUS_INVALID_PARAM, out)
     | Some _ \<Rightarrow>
         let widened = sint n in
         if widened < 0 then (STATUS_VALUE_OUT_OF_RANGE, out) else
         (STATUS_OK, Some (scast n)))"

definition rte_cast_i8_to_u16 :: "i8 \<Rightarrow> u16 option \<Rightarrow> rte_status \<times> u16 option" where
  "rte_cast_i8_to_u16 n out =
    (case out of None \<Rightarrow> (STATUS_INVALID_PARAM, out)
     | Some _ \<Rightarrow>
         let widened = sint n in
         if widened < 0 then (STATUS_VALUE_OUT_OF_RANGE, out) else
         (STATUS_OK, Some (scast n)))"

definition rte_cast_i8_to_u32 :: "i8 \<Rightarrow> u32 option \<Rightarrow> rte_status \<times> u32 option" where
  "rte_cast_i8_to_u32 n out =
    (case out of None \<Rightarrow> (STATUS_INVALID_PARAM, out)
     | Some _ \<Rightarrow>
         let widened = sint n in
         if widened < 0 then (STATUS_VALUE_OUT_OF_RANGE, out) else
         (STATUS_OK, Some (scast n)))"

definition rte_cast_i8_to_u64 :: "i8 \<Rightarrow> u64 option \<Rightarrow> rte_status \<times> u64 option" where
  "rte_cast_i8_to_u64 n out =
    (case out of None \<Rightarrow> (STATUS_INVALID_PARAM, out)
     | Some _ \<Rightarrow>
         let widened = sint n in
         if widened < 0 then (STATUS_VALUE_OUT_OF_RANGE, out) else
         (STATUS_OK, Some (scast n)))"

definition rte_cast_i8_to_size :: "i8 \<Rightarrow> size_t option \<Rightarrow> rte_status \<times> size_t option" where
  "rte_cast_i8_to_size n out =
    (case out of None \<Rightarrow> (STATUS_INVALID_PARAM, out)
     | Some _ \<Rightarrow>
         let widened = sint n in
         if widened < 0 then (STATUS_VALUE_OUT_OF_RANGE, out) else
         (STATUS_OK, Some (scast n)))"

definition rte_cast_i16_to_i8 :: "i16 \<Rightarrow> i8 option \<Rightarrow> rte_status \<times> i8 option" where
  "rte_cast_i16_to_i8 n out =
    (case out of None \<Rightarrow> (STATUS_INVALID_PARAM, out)
     | Some _ \<Rightarrow>
         let widened = sint n in
         if widened < INT8_MIN then (STATUS_VALUE_OUT_OF_RANGE, out) else
         if widened > INT8_MAX then (STATUS_VALUE_OUT_OF_RANGE, out) else
         (STATUS_OK, Some (scast n)))"

definition rte_cast_i16_to_i32 :: "i16 \<Rightarrow> i32 option \<Rightarrow> rte_status \<times> i32 option" where
  "rte_cast_i16_to_i32 n out =
    (case out of None \<Rightarrow> (STATUS_INVALID_PARAM, out)
     | Some _ \<Rightarrow>
         (STATUS_OK, Some (scast n)))"

definition rte_cast_i16_to_i64 :: "i16 \<Rightarrow> i64 option \<Rightarrow> rte_status \<times> i64 option" where
  "rte_cast_i16_to_i64 n out =
    (case out of None \<Rightarrow> (STATUS_INVALID_PARAM, out)
     | Some _ \<Rightarrow>
         (STATUS_OK, Some (scast n)))"

definition rte_cast_i16_to_u8 :: "i16 \<Rightarrow> u8 option \<Rightarrow> rte_status \<times> u8 option" where
  "rte_cast_i16_to_u8 n out =
    (case out of None \<Rightarrow> (STATUS_INVALID_PARAM, out)
     | Some _ \<Rightarrow>
         let widened = sint n in
         if widened < 0 then (STATUS_VALUE_OUT_OF_RANGE, out) else
         if to_uint64 widened > UINT8_MAX then (STATUS_VALUE_OUT_OF_RANGE, out) else
         (STATUS_OK, Some (scast n)))"

definition rte_cast_i16_to_u16 :: "i16 \<Rightarrow> u16 option \<Rightarrow> rte_status \<times> u16 option" where
  "rte_cast_i16_to_u16 n out =
    (case out of None \<Rightarrow> (STATUS_INVALID_PARAM, out)
     | Some _ \<Rightarrow>
         let widened = sint n in
         if widened < 0 then (STATUS_VALUE_OUT_OF_RANGE, out) else
         (STATUS_OK, Some (scast n)))"

definition rte_cast_i16_to_u32 :: "i16 \<Rightarrow> u32 option \<Rightarrow> rte_status \<times> u32 option" where
  "rte_cast_i16_to_u32 n out =
    (case out of None \<Rightarrow> (STATUS_INVALID_PARAM, out)
     | Some _ \<Rightarrow>
         let widened = sint n in
         if widened < 0 then (STATUS_VALUE_OUT_OF_RANGE, out) else
         (STATUS_OK, Some (scast n)))"

definition rte_cast_i16_to_u64 :: "i16 \<Rightarrow> u64 option \<Rightarrow> rte_status \<times> u64 option" where
  "rte_cast_i16_to_u64 n out =
    (case out of None \<Rightarrow> (STATUS_INVALID_PARAM, out)
     | Some _ \<Rightarrow>
         let widened = sint n in
         if widened < 0 then (STATUS_VALUE_OUT_OF_RANGE, out) else
         (STATUS_OK, Some (scast n)))"

definition rte_cast_i16_to_size :: "i16 \<Rightarrow> size_t option \<Rightarrow> rte_status \<times> size_t option" where
  "rte_cast_i16_to_size n out =
    (case out of None \<Rightarrow> (STATUS_INVALID_PARAM, out)
     | Some _ \<Rightarrow>
         let widened = sint n in
         if widened < 0 then (STATUS_VALUE_OUT_OF_RANGE, out) else
         (STATUS_OK, Some (scast n)))"

definition rte_cast_i32_to_i8 :: "i32 \<Rightarrow> i8 option \<Rightarrow> rte_status \<times> i8 option" where
  "rte_cast_i32_to_i8 n out =
    (case out of None \<Rightarrow> (STATUS_INVALID_PARAM, out)
     | Some _ \<Rightarrow>
         let widened = sint n in
         if widened < INT8_MIN then (STATUS_VALUE_OUT_OF_RANGE, out) else
         if widened > INT8_MAX then (STATUS_VALUE_OUT_OF_RANGE, out) else
         (STATUS_OK, Some (scast n)))"

definition rte_cast_i32_to_i16 :: "i32 \<Rightarrow> i16 option \<Rightarrow> rte_status \<times> i16 option" where
  "rte_cast_i32_to_i16 n out =
    (case out of None \<Rightarrow> (STATUS_INVALID_PARAM, out)
     | Some _ \<Rightarrow>
         let widened = sint n in
         if widened < INT16_MIN then (STATUS_VALUE_OUT_OF_RANGE, out) else
         if widened > INT16_MAX then (STATUS_VALUE_OUT_OF_RANGE, out) else
         (STATUS_OK, Some (scast n)))"

definition rte_cast_i32_to_i64 :: "i32 \<Rightarrow> i64 option \<Rightarrow> rte_status \<times> i64 option" where
  "rte_cast_i32_to_i64 n out =
    (case out of None \<Rightarrow> (STATUS_INVALID_PARAM, out)
     | Some _ \<Rightarrow>
         (STATUS_OK, Some (scast n)))"

definition rte_cast_i32_to_u8 :: "i32 \<Rightarrow> u8 option \<Rightarrow> rte_status \<times> u8 option" where
  "rte_cast_i32_to_u8 n out =
    (case out of None \<Rightarrow> (STATUS_INVALID_PARAM, out)
     | Some _ \<Rightarrow>
         let widened = sint n in
         if widened < 0 then (STATUS_VALUE_OUT_OF_RANGE, out) else
         if to_uint64 widened > UINT8_MAX then (STATUS_VALUE_OUT_OF_RANGE, out) else
         (STATUS_OK, Some (scast n)))"

definition rte_cast_i32_to_u16 :: "i32 \<Rightarrow> u16 option \<Rightarrow> rte_status \<times> u16 option" where
  "rte_cast_i32_to_u16 n out =
    (case out of None \<Rightarrow> (STATUS_INVALID_PARAM, out)
     | Some _ \<Rightarrow>
         let widened = sint n in
         if widened < 0 then (STATUS_VALUE_OUT_OF_RANGE, out) else
         if to_uint64 widened > UINT16_MAX then (STATUS_VALUE_OUT_OF_RANGE, out) else
         (STATUS_OK, Some (scast n)))"

definition rte_cast_i32_to_u32 :: "i32 \<Rightarrow> u32 option \<Rightarrow> rte_status \<times> u32 option" where
  "rte_cast_i32_to_u32 n out =
    (case out of None \<Rightarrow> (STATUS_INVALID_PARAM, out)
     | Some _ \<Rightarrow>
         let widened = sint n in
         if widened < 0 then (STATUS_VALUE_OUT_OF_RANGE, out) else
         (STATUS_OK, Some (scast n)))"

definition rte_cast_i32_to_u64 :: "i32 \<Rightarrow> u64 option \<Rightarrow> rte_status \<times> u64 option" where
  "rte_cast_i32_to_u64 n out =
    (case out of None \<Rightarrow> (STATUS_INVALID_PARAM, out)
     | Some _ \<Rightarrow>
         let widened = sint n in
         if widened < 0 then (STATUS_VALUE_OUT_OF_RANGE, out) else
         (STATUS_OK, Some (scast n)))"

definition rte_cast_i32_to_size :: "i32 \<Rightarrow> size_t option \<Rightarrow> rte_status \<times> size_t option" where
  "rte_cast_i32_to_size n out =
    (case out of None \<Rightarrow> (STATUS_INVALID_PARAM, out)
     | Some _ \<Rightarrow>
         let widened = sint n in
         if widened < 0 then (STATUS_VALUE_OUT_OF_RANGE, out) else
         (STATUS_OK, Some (scast n)))"

definition rte_cast_i64_to_i8 :: "i64 \<Rightarrow> i8 option \<Rightarrow> rte_status \<times> i8 option" where
  "rte_cast_i64_to_i8 n out =
    (case out of None \<Rightarrow> (STATUS_INVALID_PARAM, out)
     | Some _ \<Rightarrow>
         let widened = sint n in
         if widened < INT8_MIN then (STATUS_VALUE_OUT_OF_RANGE, out) else
         if widened > INT8_MAX then (STATUS_VALUE_OUT_OF_RANGE, out) else
         (STATUS_OK, Some (scast n)))"

definition rte_cast_i64_to_i16 :: "i64 \<Rightarrow> i16 option \<Rightarrow> rte_status \<times> i16 option" where
  "rte_cast_i64_to_i16 n out =
    (case out of None \<Rightarrow> (STATUS_INVALID_PARAM, out)
     | Some _ \<Rightarrow>
         let widened = sint n in
         if widened < INT16_MIN then (STATUS_VALUE_OUT_OF_RANGE, out) else
         if widened > INT16_MAX then (STATUS_VALUE_OUT_OF_RANGE, out) else
         (STATUS_OK, Some (scast n)))"

definition rte_cast_i64_to_i32 :: "i64 \<Rightarrow> i32 option \<Rightarrow> rte_status \<times> i32 option" where
  "rte_cast_i64_to_i32 n out =
    (case out of None \<Rightarrow> (STATUS_INVALID_PARAM, out)
     | Some _ \<Rightarrow>
         let widened = sint n in
         if widened < INT32_MIN then (STATUS_VALUE_OUT_OF_RANGE, out) else
         if widened > INT32_MAX then (STATUS_VALUE_OUT_OF_RANGE, out) else
         (STATUS_OK, Some (scast n)))"

definition rte_cast_i64_to_u8 :: "i64 \<Rightarrow> u8 option \<Rightarrow> rte_status \<times> u8 option" where
  "rte_cast_i64_to_u8 n out =
    (case out of None \<Rightarrow> (STATUS_INVALID_PARAM, out)
     | Some _ \<Rightarrow>
         let widened = sint n in
         if widened < 0 then (STATUS_VALUE_OUT_OF_RANGE, out) else
         if to_uint64 widened > UINT8_MAX then (STATUS_VALUE_OUT_OF_RANGE, out) else
         (STATUS_OK, Some (scast n)))"

definition rte_cast_i64_to_u16 :: "i64 \<Rightarrow> u16 option \<Rightarrow> rte_status \<times> u16 option" where
  "rte_cast_i64_to_u16 n out =
    (case out of None \<Rightarrow> (STATUS_INVALID_PARAM, out)
     | Some _ \<Rightarrow>
         let widened = sint n in
         if widened < 0 then (STATUS_VALUE_OUT_OF_RANGE, out) else
         if to_uint64 widened > UINT16_MAX then (STATUS_VALUE_OUT_OF_RANGE, out) else
         (STATUS_OK, Some (scast n)))"

definition rte_cast_i64_to_u32 :: "i64 \<Rightarrow> u32 option \<Rightarrow> rte_status \<times> u32 option" where
  "rte_cast_i64_to_u32 n out =
    (case out of None \<Rightarrow> (STATUS_INVALID_PARAM, out)
     | Some _ \<Rightarrow>
         let widened = sint n in
         if widened < 0 then (STATUS_VALUE_OUT_OF_RANGE, out) else
         if to_uint64 widened > UINT32_MAX then (STATUS_VALUE_OUT_OF_RANGE, out) else
         (STATUS_OK, Some (scast n)))"

definition rte_cast_i64_to_u64 :: "i64 \<Rightarrow> u64 option \<Rightarrow> rte_status \<times> u64 option" where
  "rte_cast_i64_to_u64 n out =
    (case out of None \<Rightarrow> (STATUS_INVALID_PARAM, out)
     | Some _ \<Rightarrow>
         let widened = sint n in
         if widened < 0 then (STATUS_VALUE_OUT_OF_RANGE, out) else
         (STATUS_OK, Some (scast n)))"

definition rte_cast_i64_to_size :: "i64 \<Rightarrow> size_t option \<Rightarrow> rte_status \<times> size_t option" where
  "rte_cast_i64_to_size n out =
    (case out of None \<Rightarrow> (STATUS_INVALID_PARAM, out)
     | Some _ \<Rightarrow>
         let widened = sint n in
         if widened < 0 then (STATUS_VALUE_OUT_OF_RANGE, out) else
         (STATUS_OK, Some (scast n)))"

definition rte_cast_u8_to_i8 :: "u8 \<Rightarrow> i8 option \<Rightarrow> rte_status \<times> i8 option" where
  "rte_cast_u8_to_i8 n out =
    (case out of None \<Rightarrow> (STATUS_INVALID_PARAM, out)
     | Some _ \<Rightarrow>
         let widened = uint n in
         if widened > INT8_MAX then (STATUS_VALUE_OUT_OF_RANGE, out) else
         (STATUS_OK, Some (ucast n)))"

definition rte_cast_u8_to_i16 :: "u8 \<Rightarrow> i16 option \<Rightarrow> rte_status \<times> i16 option" where
  "rte_cast_u8_to_i16 n out =
    (case out of None \<Rightarrow> (STATUS_INVALID_PARAM, out)
     | Some _ \<Rightarrow>
         (STATUS_OK, Some (ucast n)))"

definition rte_cast_u8_to_i32 :: "u8 \<Rightarrow> i32 option \<Rightarrow> rte_status \<times> i32 option" where
  "rte_cast_u8_to_i32 n out =
    (case out of None \<Rightarrow> (STATUS_INVALID_PARAM, out)
     | Some _ \<Rightarrow>
         (STATUS_OK, Some (ucast n)))"

definition rte_cast_u8_to_i64 :: "u8 \<Rightarrow> i64 option \<Rightarrow> rte_status \<times> i64 option" where
  "rte_cast_u8_to_i64 n out =
    (case out of None \<Rightarrow> (STATUS_INVALID_PARAM, out)
     | Some _ \<Rightarrow>
         (STATUS_OK, Some (ucast n)))"

definition rte_cast_u8_to_u16 :: "u8 \<Rightarrow> u16 option \<Rightarrow> rte_status \<times> u16 option" where
  "rte_cast_u8_to_u16 n out =
    (case out of None \<Rightarrow> (STATUS_INVALID_PARAM, out)
     | Some _ \<Rightarrow>
         (STATUS_OK, Some (ucast n)))"

definition rte_cast_u8_to_u32 :: "u8 \<Rightarrow> u32 option \<Rightarrow> rte_status \<times> u32 option" where
  "rte_cast_u8_to_u32 n out =
    (case out of None \<Rightarrow> (STATUS_INVALID_PARAM, out)
     | Some _ \<Rightarrow>
         (STATUS_OK, Some (ucast n)))"

definition rte_cast_u8_to_u64 :: "u8 \<Rightarrow> u64 option \<Rightarrow> rte_status \<times> u64 option" where
  "rte_cast_u8_to_u64 n out =
    (case out of None \<Rightarrow> (STATUS_INVALID_PARAM, out)
     | Some _ \<Rightarrow>
         (STATUS_OK, Some (ucast n)))"

definition rte_cast_u8_to_size :: "u8 \<Rightarrow> size_t option \<Rightarrow> rte_status \<times> size_t option" where
  "rte_cast_u8_to_size n out =
    (case out of None \<Rightarrow> (STATUS_INVALID_PARAM, out)
     | Some _ \<Rightarrow>
         (STATUS_OK, Some (ucast n)))"

definition rte_cast_u16_to_i8 :: "u16 \<Rightarrow> i8 option \<Rightarrow> rte_status \<times> i8 option" where
  "rte_cast_u16_to_i8 n out =
    (case out of None \<Rightarrow> (STATUS_INVALID_PARAM, out)
     | Some _ \<Rightarrow>
         let widened = uint n in
         if widened > INT8_MAX then (STATUS_VALUE_OUT_OF_RANGE, out) else
         (STATUS_OK, Some (ucast n)))"

definition rte_cast_u16_to_i16 :: "u16 \<Rightarrow> i16 option \<Rightarrow> rte_status \<times> i16 option" where
  "rte_cast_u16_to_i16 n out =
    (case out of None \<Rightarrow> (STATUS_INVALID_PARAM, out)
     | Some _ \<Rightarrow>
         let widened = uint n in
         if widened > INT16_MAX then (STATUS_VALUE_OUT_OF_RANGE, out) else
         (STATUS_OK, Some (ucast n)))"

definition rte_cast_u16_to_i32 :: "u16 \<Rightarrow> i32 option \<Rightarrow> rte_status \<times> i32 option" where
  "rte_cast_u16_to_i32 n out =
    (case out of None \<Rightarrow> (STATUS_INVALID_PARAM, out)
     | Some _ \<Rightarrow>
         (STATUS_OK, Some (ucast n)))"

definition rte_cast_u16_to_i64 :: "u16 \<Rightarrow> i64 option \<Rightarrow> rte_status \<times> i64 option" where
  "rte_cast_u16_to_i64 n out =
    (case out of None \<Rightarrow> (STATUS_INVALID_PARAM, out)
     | Some _ \<Rightarrow>
         (STATUS_OK, Some (ucast n)))"

definition rte_cast_u16_to_u8 :: "u16 \<Rightarrow> u8 option \<Rightarrow> rte_status \<times> u8 option" where
  "rte_cast_u16_to_u8 n out =
    (case out of None \<Rightarrow> (STATUS_INVALID_PARAM, out)
     | Some _ \<Rightarrow>
         let widened = uint n in
         if widened > UINT8_MAX then (STATUS_VALUE_OUT_OF_RANGE, out) else
         (STATUS_OK, Some (ucast n)))"

definition rte_cast_u16_to_u32 :: "u16 \<Rightarrow> u32 option \<Rightarrow> rte_status \<times> u32 option" where
  "rte_cast_u16_to_u32 n out =
    (case out of None \<Rightarrow> (STATUS_INVALID_PARAM, out)
     | Some _ \<Rightarrow>
         (STATUS_OK, Some (ucast n)))"

definition rte_cast_u16_to_u64 :: "u16 \<Rightarrow> u64 option \<Rightarrow> rte_status \<times> u64 option" where
  "rte_cast_u16_to_u64 n out =
    (case out of None \<Rightarrow> (STATUS_INVALID_PARAM, out)
     | Some _ \<Rightarrow>
         (STATUS_OK, Some (ucast n)))"

definition rte_cast_u16_to_size :: "u16 \<Rightarrow> size_t option \<Rightarrow> rte_status \<times> size_t option" where
  "rte_cast_u16_to_size n out =
    (case out of None \<Rightarrow> (STATUS_INVALID_PARAM, out)
     | Some _ \<Rightarrow>
         (STATUS_OK, Some (ucast n)))"

definition rte_cast_u32_to_i8 :: "u32 \<Rightarrow> i8 option \<Rightarrow> rte_status \<times> i8 option" where
  "rte_cast_u32_to_i8 n out =
    (case out of None \<Rightarrow> (STATUS_INVALID_PARAM, out)
     | Some _ \<Rightarrow>
         let widened = uint n in
         if widened > INT8_MAX then (STATUS_VALUE_OUT_OF_RANGE, out) else
         (STATUS_OK, Some (ucast n)))"

definition rte_cast_u32_to_i16 :: "u32 \<Rightarrow> i16 option \<Rightarrow> rte_status \<times> i16 option" where
  "rte_cast_u32_to_i16 n out =
    (case out of None \<Rightarrow> (STATUS_INVALID_PARAM, out)
     | Some _ \<Rightarrow>
         let widened = uint n in
         if widened > INT16_MAX then (STATUS_VALUE_OUT_OF_RANGE, out) else
         (STATUS_OK, Some (ucast n)))"

definition rte_cast_u32_to_i32 :: "u32 \<Rightarrow> i32 option \<Rightarrow> rte_status \<times> i32 option" where
  "rte_cast_u32_to_i32 n out =
    (case out of None \<Rightarrow> (STATUS_INVALID_PARAM, out)
     | Some _ \<Rightarrow>
         let widened = uint n in
         if widened > INT32_MAX then (STATUS_VALUE_OUT_OF_RANGE, out) else
         (STATUS_OK, Some (ucast n)))"

definition rte_cast_u32_to_i64 :: "u32 \<Rightarrow> i64 option \<Rightarrow> rte_status \<times> i64 option" where
  "rte_cast_u32_to_i64 n out =
    (case out of None \<Rightarrow> (STATUS_INVALID_PARAM, out)
     | Some _ \<Rightarrow>
         (STATUS_OK, Some (ucast n)))"

definition rte_cast_u32_to_u8 :: "u32 \<Rightarrow> u8 option \<Rightarrow> rte_status \<times> u8 option" where
  "rte_cast_u32_to_u8 n out =
    (case out of None \<Rightarrow> (STATUS_INVALID_PARAM, out)
     | Some _ \<Rightarrow>
         let widened = uint n in
         if widened > UINT8_MAX then (STATUS_VALUE_OUT_OF_RANGE, out) else
         (STATUS_OK, Some (ucast n)))"

definition rte_cast_u32_to_u16 :: "u32 \<Rightarrow> u16 option \<Rightarrow> rte_status \<times> u16 option" where
  "rte_cast_u32_to_u16 n out =
    (case out of None \<Rightarrow> (STATUS_INVALID_PARAM, out)
     | Some _ \<Rightarrow>
         let widened = uint n in
         if widened > UINT16_MAX then (STATUS_VALUE_OUT_OF_RANGE, out) else
         (STATUS_OK, Some (ucast n)))"

definition rte_cast_u32_to_u64 :: "u32 \<Rightarrow> u64 option \<Rightarrow> rte_status \<times> u64 option" where
  "rte_cast_u32_to_u64 n out =
    (case out of None \<Rightarrow> (STATUS_INVALID_PARAM, out)
     | Some _ \<Rightarrow>
         (STATUS_OK, Some (ucast n)))"

definition rte_cast_u32_to_size :: "u32 \<Rightarrow> size_t option \<Rightarrow> rte_status \<times> size_t option" where
  "rte_cast_u32_to_size n out =
    (case out of None \<Rightarrow> (STATUS_INVALID_PARAM, out)
     | Some _ \<Rightarrow>
         (STATUS_OK, Some (ucast n)))"

definition rte_cast_u64_to_i8 :: "u64 \<Rightarrow> i8 option \<Rightarrow> rte_status \<times> i8 option" where
  "rte_cast_u64_to_i8 n out =
    (case out of None \<Rightarrow> (STATUS_INVALID_PARAM, out)
     | Some _ \<Rightarrow>
         let widened = uint n in
         if widened > INT8_MAX then (STATUS_VALUE_OUT_OF_RANGE, out) else
         (STATUS_OK, Some (ucast n)))"

definition rte_cast_u64_to_i16 :: "u64 \<Rightarrow> i16 option \<Rightarrow> rte_status \<times> i16 option" where
  "rte_cast_u64_to_i16 n out =
    (case out of None \<Rightarrow> (STATUS_INVALID_PARAM, out)
     | Some _ \<Rightarrow>
         let widened = uint n in
         if widened > INT16_MAX then (STATUS_VALUE_OUT_OF_RANGE, out) else
         (STATUS_OK, Some (ucast n)))"

definition rte_cast_u64_to_i32 :: "u64 \<Rightarrow> i32 option \<Rightarrow> rte_status \<times> i32 option" where
  "rte_cast_u64_to_i32 n out =
    (case out of None \<Rightarrow> (STATUS_INVALID_PARAM, out)
     | Some _ \<Rightarrow>
         let widened = uint n in
         if widened > INT32_MAX then (STATUS_VALUE_OUT_OF_RANGE, out) else
         (STATUS_OK, Some (ucast n)))"

definition rte_cast_u64_to_i64 :: "u64 \<Rightarrow> i64 option \<Rightarrow> rte_status \<times> i64 option" where
  "rte_cast_u64_to_i64 n out =
    (case out of None \<Rightarrow> (STATUS_INVALID_PARAM, out)
     | Some _ \<Rightarrow>
         let widened = uint n in
         if widened > INT64_MAX then (STATUS_VALUE_OUT_OF_RANGE, out) else
         (STATUS_OK, Some (ucast n)))"

definition rte_cast_u64_to_u8 :: "u64 \<Rightarrow> u8 option \<Rightarrow> rte_status \<times> u8 option" where
  "rte_cast_u64_to_u8 n out =
    (case out of None \<Rightarrow> (STATUS_INVALID_PARAM, out)
     | Some _ \<Rightarrow>
         let widened = uint n in
         if widened > UINT8_MAX then (STATUS_VALUE_OUT_OF_RANGE, out) else
         (STATUS_OK, Some (ucast n)))"

definition rte_cast_u64_to_u16 :: "u64 \<Rightarrow> u16 option \<Rightarrow> rte_status \<times> u16 option" where
  "rte_cast_u64_to_u16 n out =
    (case out of None \<Rightarrow> (STATUS_INVALID_PARAM, out)
     | Some _ \<Rightarrow>
         let widened = uint n in
         if widened > UINT16_MAX then (STATUS_VALUE_OUT_OF_RANGE, out) else
         (STATUS_OK, Some (ucast n)))"

definition rte_cast_u64_to_u32 :: "u64 \<Rightarrow> u32 option \<Rightarrow> rte_status \<times> u32 option" where
  "rte_cast_u64_to_u32 n out =
    (case out of None \<Rightarrow> (STATUS_INVALID_PARAM, out)
     | Some _ \<Rightarrow>
         let widened = uint n in
         if widened > UINT32_MAX then (STATUS_VALUE_OUT_OF_RANGE, out) else
         (STATUS_OK, Some (ucast n)))"

definition rte_cast_u64_to_size :: "u64 \<Rightarrow> size_t option \<Rightarrow> rte_status \<times> size_t option" where
  "rte_cast_u64_to_size n out =
    (case out of None \<Rightarrow> (STATUS_INVALID_PARAM, out)
     | Some _ \<Rightarrow>
         (STATUS_OK, Some (ucast n)))"

definition rte_cast_size_to_i8 :: "size_t \<Rightarrow> i8 option \<Rightarrow> rte_status \<times> i8 option" where
  "rte_cast_size_to_i8 n out =
    (case out of None \<Rightarrow> (STATUS_INVALID_PARAM, out)
     | Some _ \<Rightarrow>
         let widened = uint n in
         if widened > INT8_MAX then (STATUS_VALUE_OUT_OF_RANGE, out) else
         (STATUS_OK, Some (ucast n)))"

definition rte_cast_size_to_i16 :: "size_t \<Rightarrow> i16 option \<Rightarrow> rte_status \<times> i16 option" where
  "rte_cast_size_to_i16 n out =
    (case out of None \<Rightarrow> (STATUS_INVALID_PARAM, out)
     | Some _ \<Rightarrow>
         let widened = uint n in
         if widened > INT16_MAX then (STATUS_VALUE_OUT_OF_RANGE, out) else
         (STATUS_OK, Some (ucast n)))"

definition rte_cast_size_to_i32 :: "size_t \<Rightarrow> i32 option \<Rightarrow> rte_status \<times> i32 option" where
  "rte_cast_size_to_i32 n out =
    (case out of None \<Rightarrow> (STATUS_INVALID_PARAM, out)
     | Some _ \<Rightarrow>
         let widened = uint n in
         if widened > INT32_MAX then (STATUS_VALUE_OUT_OF_RANGE, out) else
         (STATUS_OK, Some (ucast n)))"

definition rte_cast_size_to_i64 :: "size_t \<Rightarrow> i64 option \<Rightarrow> rte_status \<times> i64 option" where
  "rte_cast_size_to_i64 n out =
    (case out of None \<Rightarrow> (STATUS_INVALID_PARAM, out)
     | Some _ \<Rightarrow>
         let widened = uint n in
         if widened > INT64_MAX then (STATUS_VALUE_OUT_OF_RANGE, out) else
         (STATUS_OK, Some (ucast n)))"

definition rte_cast_size_to_u8 :: "size_t \<Rightarrow> u8 option \<Rightarrow> rte_status \<times> u8 option" where
  "rte_cast_size_to_u8 n out =
    (case out of None \<Rightarrow> (STATUS_INVALID_PARAM, out)
     | Some _ \<Rightarrow>
         let widened = uint n in
         if widened > UINT8_MAX then (STATUS_VALUE_OUT_OF_RANGE, out) else
         (STATUS_OK, Some (ucast n)))"

definition rte_cast_size_to_u16 :: "size_t \<Rightarrow> u16 option \<Rightarrow> rte_status \<times> u16 option" where
  "rte_cast_size_to_u16 n out =
    (case out of None \<Rightarrow> (STATUS_INVALID_PARAM, out)
     | Some _ \<Rightarrow>
         let widened = uint n in
         if widened > UINT16_MAX then (STATUS_VALUE_OUT_OF_RANGE, out) else
         (STATUS_OK, Some (ucast n)))"

definition rte_cast_size_to_u32 :: "size_t \<Rightarrow> u32 option \<Rightarrow> rte_status \<times> u32 option" where
  "rte_cast_size_to_u32 n out =
    (case out of None \<Rightarrow> (STATUS_INVALID_PARAM, out)
     | Some _ \<Rightarrow>
         let widened = uint n in
         if widened > UINT32_MAX then (STATUS_VALUE_OUT_OF_RANGE, out) else
         (STATUS_OK, Some (ucast n)))"

definition rte_cast_size_to_u64 :: "size_t \<Rightarrow> u64 option \<Rightarrow> rte_status \<times> u64 option" where
  "rte_cast_size_to_u64 n out =
    (case out of None \<Rightarrow> (STATUS_INVALID_PARAM, out)
     | Some _ \<Rightarrow>
         (STATUS_OK, Some (ucast n)))"

section \<open>Checked arithmetic\<close>

definition rte_cast_checked_add_u32 ::
  "u32 \<Rightarrow> u32 \<Rightarrow> u32 option \<Rightarrow> 'x rte \<Rightarrow> rte_status \<times> u32 option \<times> 'x rte" where
  "rte_cast_checked_add_u32 a b out s =
    (case out of None \<Rightarrow> (STATUS_INVALID_PARAM, out, s)
     | Some _ \<Rightarrow>
         let widened = (ucast a :: u64) + ucast b
         in if widened > 0xFFFFFFFF
            then (STATUS_VALUE_OUT_OF_RANGE, out,
              rte_safety_violation_report VIOLATION_OVERFLOW
                (Some ''rte_cast_checked_add_u32: addition overflowed uint32_t'') s)
            else (STATUS_OK, Some (ucast widened), s))"

definition rte_cast_checked_sub_u32 ::
  "u32 \<Rightarrow> u32 \<Rightarrow> u32 option \<Rightarrow> 'x rte \<Rightarrow> rte_status \<times> u32 option \<times> 'x rte" where
  "rte_cast_checked_sub_u32 a b out s =
    (case out of None \<Rightarrow> (STATUS_INVALID_PARAM, out, s)
     | Some _ \<Rightarrow>
         if b > a
         then (STATUS_VALUE_OUT_OF_RANGE, out,
           rte_safety_violation_report VIOLATION_OVERFLOW
             (Some ''rte_cast_checked_sub_u32: subtraction underflowed uint32_t'') s)
         else (STATUS_OK, Some (a - b), s))"

definition rte_cast_checked_mul_u32 ::
  "u32 \<Rightarrow> u32 \<Rightarrow> u32 option \<Rightarrow> 'x rte \<Rightarrow> rte_status \<times> u32 option \<times> 'x rte" where
  "rte_cast_checked_mul_u32 a b out s =
    (case out of None \<Rightarrow> (STATUS_INVALID_PARAM, out, s)
     | Some _ \<Rightarrow>
         let widened = (ucast a :: u64) * ucast b
         in if widened > 0xFFFFFFFF
            then (STATUS_VALUE_OUT_OF_RANGE, out,
              rte_safety_violation_report VIOLATION_OVERFLOW
                (Some ''rte_cast_checked_mul_u32: multiplication overflowed uint32_t'') s)
            else (STATUS_OK, Some (ucast widened), s))"

text \<open>\<^verbatim>\<open>SIZE_MAX\<close> is \<open>- 1\<close> as a word.\<close>

definition rte_cast_checked_add_size ::
  "size_t \<Rightarrow> size_t \<Rightarrow> size_t option \<Rightarrow> 'x rte \<Rightarrow> rte_status \<times> size_t option \<times> 'x rte" where
  "rte_cast_checked_add_size a b out s =
    (case out of None \<Rightarrow> (STATUS_INVALID_PARAM, out, s)
     | Some _ \<Rightarrow>
         if b > - 1 - a
         then (STATUS_VALUE_OUT_OF_RANGE, out,
           rte_safety_violation_report VIOLATION_OVERFLOW
             (Some ''rte_cast_checked_add_size: addition overflowed size_t'') s)
         else (STATUS_OK, Some (a + b), s))"

definition rte_cast_checked_sub_size ::
  "size_t \<Rightarrow> size_t \<Rightarrow> size_t option \<Rightarrow> 'x rte \<Rightarrow> rte_status \<times> size_t option \<times> 'x rte" where
  "rte_cast_checked_sub_size a b out s =
    (case out of None \<Rightarrow> (STATUS_INVALID_PARAM, out, s)
     | Some _ \<Rightarrow>
         if b > a
         then (STATUS_VALUE_OUT_OF_RANGE, out,
           rte_safety_violation_report VIOLATION_OVERFLOW
             (Some ''rte_cast_checked_sub_size: subtraction underflowed size_t'') s)
         else (STATUS_OK, Some (a - b), s))"

definition rte_cast_checked_mul_size ::
  "size_t \<Rightarrow> size_t \<Rightarrow> size_t option \<Rightarrow> 'x rte \<Rightarrow> rte_status \<times> size_t option \<times> 'x rte" where
  "rte_cast_checked_mul_size a b out s =
    (case out of None \<Rightarrow> (STATUS_INVALID_PARAM, out, s)
     | Some _ \<Rightarrow>
         if a \<noteq> 0 \<and> b > - 1 div a
         then (STATUS_VALUE_OUT_OF_RANGE, out,
           rte_safety_violation_report VIOLATION_OVERFLOW
             (Some ''rte_cast_checked_mul_size: multiplication overflowed size_t'') s)
         else (STATUS_OK, Some (a * b), s))"

definition rte_cast_bounds_check :: "size_t \<Rightarrow> size_t \<Rightarrow> 'x rte \<Rightarrow> rte_status \<times> 'x rte" where
  "rte_cast_bounds_check index count s =
    (if index \<ge> count
     then (STATUS_VALUE_OUT_OF_RANGE,
       rte_safety_violation_report VIOLATION_OUT_OF_RANGE
         (Some ''rte_cast_bounds_check: index out of range'') s)
     else (STATUS_OK, s))"

section \<open>Exact conversions\<close>

text \<open>
  The specification: with \<open>src\<close> and \<open>dst\<close> the readings of the two types, a conversion succeeds
  exactly when the value is one of the destination type and then preserves it; otherwise the
  caller's variable stays.
\<close>

definition exact_cast ::
  "('a::len word \<Rightarrow> int) \<Rightarrow> ('b::len word \<Rightarrow> int) \<Rightarrow>
    ('a word \<Rightarrow> 'b word option \<Rightarrow> rte_status \<times> 'b word option) \<Rightarrow> bool" where
  "exact_cast src dst f \<longleftrightarrow>
    (\<forall>n. f n None = (STATUS_INVALID_PARAM, None)) \<and>
    (\<forall>n old. (\<exists>m. dst m = src n \<and> f n (Some old) = (STATUS_OK, Some m)) \<or>
       (\<forall>m. dst m \<noteq> src n) \<and> f n (Some old) = (STATUS_VALUE_OUT_OF_RANGE, Some old))"

text \<open>The range of a type, and a sufficient condition by ranges.\<close>

lemma uint_values:
  fixes v :: int
  shows "(\<exists>m :: 'b::len word. uint m = v) \<longleftrightarrow> 0 \<le> v \<and> v < 2 ^ LENGTH('b)"
    and "0 \<le> v \<Longrightarrow> v < 2 ^ LENGTH('b) \<Longrightarrow> uint (word_of_int v :: 'b word) = v"
  by (metis uint_bounded uint_ge_0 take_bit_int_eq_self uint_word_of_int_eq)
    (simp add: uint_word_of_int take_bit_int_eq_self)

lemma sint_values:
  fixes v :: int
  shows "- (2 ^ (LENGTH('b) - 1)) \<le> v \<Longrightarrow> v < 2 ^ (LENGTH('b) - 1) \<Longrightarrow>
      sint (word_of_int v :: 'b::len word) = v"
    and "(\<exists>m :: 'b::len word. sint m = v) \<longleftrightarrow> - (2 ^ (LENGTH('b) - 1)) \<le> v \<and> v < 2 ^ (LENGTH('b) - 1)"
proof -
  have val: "sint (word_of_int u :: 'b::len word) = u"
    if "- (2 ^ (LENGTH('b) - 1)) \<le> u" "u < 2 ^ (LENGTH('b) - 1)" for u
    using that by (simp add: signed_take_bit_int_eq_self sint_sbintrunc')
  then show "- (2 ^ (LENGTH('b) - 1)) \<le> v \<Longrightarrow> v < 2 ^ (LENGTH('b) - 1) \<Longrightarrow>
      sint (word_of_int v :: 'b::len word) = v" .
  show "(\<exists>m :: 'b::len word. sint m = v) \<longleftrightarrow> - (2 ^ (LENGTH('b) - 1)) \<le> v \<and> v < 2 ^ (LENGTH('b) - 1)"
  proof
    assume "\<exists>m :: 'b::len word. sint m = v"
    then obtain m :: "'b word" where m: "v = sint m" by blast
    show "- (2 ^ (LENGTH('b) - 1)) \<le> v \<and> v < 2 ^ (LENGTH('b) - 1)"
      using sint_greater_eq [of m] sint_less [of m] by (simp add: m)
  next
    assume "- (2 ^ (LENGTH('b) - 1)) \<le> v \<and> v < 2 ^ (LENGTH('b) - 1)"
    then show "\<exists>m :: 'b::len word. sint m = v" using val [of v] by blast
  qed
qed

lemma exact_to_uintI:
  assumes "\<And>n. f n None = (STATUS_INVALID_PARAM, None)"
    and "\<And>n old. f n (Some old) = (if 0 \<le> src n \<and> src n < 2 ^ LENGTH('b)
      then (STATUS_OK, Some (word_of_int (src n))) else (STATUS_VALUE_OUT_OF_RANGE, Some old))"
  shows "exact_cast src uint (f :: 'a::len word \<Rightarrow> 'b::len word option \<Rightarrow> _)"
  unfolding exact_cast_def using uint_values [where 'b = 'b]
  by (metis assms)

lemma exact_to_sintI:
  assumes "\<And>n. f n None = (STATUS_INVALID_PARAM, None)"
    and "\<And>n old. f n (Some old) = (if - (2 ^ (LENGTH('b) - 1)) \<le> src n \<and> src n < 2 ^ (LENGTH('b) - 1)
      then (STATUS_OK, Some (word_of_int (src n))) else (STATUS_VALUE_OUT_OF_RANGE, Some old))"
  shows "exact_cast src sint (f :: 'a::len word \<Rightarrow> 'b::len word option \<Rightarrow> _)"
  unfolding exact_cast_def using sint_values [where 'b = 'b]
  by (metis assms)

text \<open>Reducing a conversion in C to the value it takes, and the ranges of the sources.\<close>

lemma to_uint64_small: "0 \<le> v \<Longrightarrow> v < 2 ^ 63 \<Longrightarrow> to_uint64 v = v"
  by (simp add: to_uint64_def uint_word_of_int)

lemma exact_ssI:
  assumes "\<And>n. f n None = (STATUS_INVALID_PARAM, None)"
    and "\<And>n old. - (2 ^ (LENGTH('a) - 1)) \<le> sint n \<Longrightarrow> sint n < 2 ^ (LENGTH('a) - 1) \<Longrightarrow>
      f n (Some old) = (if - (2 ^ (LENGTH('b) - 1)) \<le> sint n \<and> sint n < 2 ^ (LENGTH('b) - 1)
      then (STATUS_OK, Some (word_of_int (sint n))) else (STATUS_VALUE_OUT_OF_RANGE, Some old))"
  shows "exact_cast sint sint (f :: 'a::len word \<Rightarrow> 'b::len word option \<Rightarrow> _)"
proof (rule exact_to_sintI)
  fix n :: "'a word" and old
  show "f n (Some old) = (if - (2 ^ (LENGTH('b) - 1)) \<le> sint n \<and> sint n < 2 ^ (LENGTH('b) - 1)
      then (STATUS_OK, Some (word_of_int (sint n))) else (STATUS_VALUE_OUT_OF_RANGE, Some old))"
    by (rule assms(2)) (use sint_greater_eq [of n] sint_less [of n] in simp_all)
qed (rule assms(1))

lemma exact_usI:
  assumes "\<And>n. f n None = (STATUS_INVALID_PARAM, None)"
    and "\<And>n old. 0 \<le> uint n \<Longrightarrow> uint n < 2 ^ LENGTH('a) \<Longrightarrow>
      f n (Some old) = (if uint n < 2 ^ (LENGTH('b) - 1)
      then (STATUS_OK, Some (word_of_int (uint n))) else (STATUS_VALUE_OUT_OF_RANGE, Some old))"
  shows "exact_cast uint sint (f :: 'a::len word \<Rightarrow> 'b::len word option \<Rightarrow> _)"
proof (rule exact_to_sintI)
  fix n :: "'a word" and old
  have "- (2 ^ (LENGTH('b) - 1)) \<le> uint n" by (rule order_trans [of _ 0]) simp_all
  then show "f n (Some old) = (if - (2 ^ (LENGTH('b) - 1)) \<le> uint n \<and> uint n < 2 ^ (LENGTH('b) - 1)
      then (STATUS_OK, Some (word_of_int (uint n))) else (STATUS_VALUE_OUT_OF_RANGE, Some old))"
    using assms(2) [of n old] uint_bounded [of n] by simp
qed (rule assms(1))

lemma exact_suI:
  assumes "\<And>n. f n None = (STATUS_INVALID_PARAM, None)"
    and "\<And>n old. - (2 ^ (LENGTH('a) - 1)) \<le> sint n \<Longrightarrow> sint n < 2 ^ (LENGTH('a) - 1) \<Longrightarrow>
      f n (Some old) = (if 0 \<le> sint n \<and> sint n < 2 ^ LENGTH('b)
      then (STATUS_OK, Some (word_of_int (sint n))) else (STATUS_VALUE_OUT_OF_RANGE, Some old))"
  shows "exact_cast sint uint (f :: 'a::len word \<Rightarrow> 'b::len word option \<Rightarrow> _)"
proof (rule exact_to_uintI)
  fix n :: "'a word" and old
  show "f n (Some old) = (if 0 \<le> sint n \<and> sint n < 2 ^ LENGTH('b)
      then (STATUS_OK, Some (word_of_int (sint n))) else (STATUS_VALUE_OUT_OF_RANGE, Some old))"
    by (rule assms(2)) (use sint_greater_eq [of n] sint_less [of n] in simp_all)
qed (rule assms(1))

lemma exact_uuI:
  assumes "\<And>n. f n None = (STATUS_INVALID_PARAM, None)"
    and "\<And>n old. 0 \<le> uint n \<Longrightarrow> uint n < 2 ^ LENGTH('a) \<Longrightarrow>
      f n (Some old) = (if uint n < 2 ^ LENGTH('b)
      then (STATUS_OK, Some (word_of_int (uint n))) else (STATUS_VALUE_OUT_OF_RANGE, Some old))"
  shows "exact_cast uint uint (f :: 'a::len word \<Rightarrow> 'b::len word option \<Rightarrow> _)"
proof (rule exact_to_uintI)
  fix n :: "'a word" and old
  show "f n (Some old) = (if 0 \<le> uint n \<and> uint n < 2 ^ LENGTH('b)
      then (STATUS_OK, Some (word_of_int (uint n))) else (STATUS_VALUE_OUT_OF_RANGE, Some old))"
    using assms(2) [of n old] uint_bounded [of n] by simp
qed (rule assms(1))

lemma exact_i8_to_i16: "exact_cast sint sint rte_cast_i8_to_i16"
  by (rule exact_ssI) (simp_all add: rte_cast_i8_to_i16_def Let_def to_uint64_small)

lemma exact_i8_to_i32: "exact_cast sint sint rte_cast_i8_to_i32"
  by (rule exact_ssI) (simp_all add: rte_cast_i8_to_i32_def Let_def to_uint64_small)

lemma exact_i8_to_i64: "exact_cast sint sint rte_cast_i8_to_i64"
  by (rule exact_ssI) (simp_all add: rte_cast_i8_to_i64_def Let_def to_uint64_small)

lemma exact_i8_to_u8: "exact_cast sint uint rte_cast_i8_to_u8"
  by (rule exact_suI) (simp_all add: rte_cast_i8_to_u8_def Let_def to_uint64_small)

lemma exact_i8_to_u16: "exact_cast sint uint rte_cast_i8_to_u16"
  by (rule exact_suI) (simp_all add: rte_cast_i8_to_u16_def Let_def to_uint64_small)

lemma exact_i8_to_u32: "exact_cast sint uint rte_cast_i8_to_u32"
  by (rule exact_suI) (simp_all add: rte_cast_i8_to_u32_def Let_def to_uint64_small)

lemma exact_i8_to_u64: "exact_cast sint uint rte_cast_i8_to_u64"
  by (rule exact_suI) (simp_all add: rte_cast_i8_to_u64_def Let_def to_uint64_small)

lemma exact_i8_to_size: "exact_cast sint uint rte_cast_i8_to_size"
  by (rule exact_suI) (simp_all add: rte_cast_i8_to_size_def Let_def to_uint64_small)

lemma exact_i16_to_i8: "exact_cast sint sint rte_cast_i16_to_i8"
  by (rule exact_ssI) (simp_all add: rte_cast_i16_to_i8_def Let_def to_uint64_small)

lemma exact_i16_to_i32: "exact_cast sint sint rte_cast_i16_to_i32"
  by (rule exact_ssI) (simp_all add: rte_cast_i16_to_i32_def Let_def to_uint64_small)

lemma exact_i16_to_i64: "exact_cast sint sint rte_cast_i16_to_i64"
  by (rule exact_ssI) (simp_all add: rte_cast_i16_to_i64_def Let_def to_uint64_small)

lemma exact_i16_to_u8: "exact_cast sint uint rte_cast_i16_to_u8"
  by (rule exact_suI) (simp_all add: rte_cast_i16_to_u8_def Let_def to_uint64_small)

lemma exact_i16_to_u16: "exact_cast sint uint rte_cast_i16_to_u16"
  by (rule exact_suI) (simp_all add: rte_cast_i16_to_u16_def Let_def to_uint64_small)

lemma exact_i16_to_u32: "exact_cast sint uint rte_cast_i16_to_u32"
  by (rule exact_suI) (simp_all add: rte_cast_i16_to_u32_def Let_def to_uint64_small)

lemma exact_i16_to_u64: "exact_cast sint uint rte_cast_i16_to_u64"
  by (rule exact_suI) (simp_all add: rte_cast_i16_to_u64_def Let_def to_uint64_small)

lemma exact_i16_to_size: "exact_cast sint uint rte_cast_i16_to_size"
  by (rule exact_suI) (simp_all add: rte_cast_i16_to_size_def Let_def to_uint64_small)

lemma exact_i32_to_i8: "exact_cast sint sint rte_cast_i32_to_i8"
  by (rule exact_ssI) (simp_all add: rte_cast_i32_to_i8_def Let_def to_uint64_small)

lemma exact_i32_to_i16: "exact_cast sint sint rte_cast_i32_to_i16"
  by (rule exact_ssI) (simp_all add: rte_cast_i32_to_i16_def Let_def to_uint64_small)

lemma exact_i32_to_i64: "exact_cast sint sint rte_cast_i32_to_i64"
  by (rule exact_ssI) (simp_all add: rte_cast_i32_to_i64_def Let_def to_uint64_small)

lemma exact_i32_to_u8: "exact_cast sint uint rte_cast_i32_to_u8"
  by (rule exact_suI) (simp_all add: rte_cast_i32_to_u8_def Let_def to_uint64_small)

lemma exact_i32_to_u16: "exact_cast sint uint rte_cast_i32_to_u16"
  by (rule exact_suI) (simp_all add: rte_cast_i32_to_u16_def Let_def to_uint64_small)

lemma exact_i32_to_u32: "exact_cast sint uint rte_cast_i32_to_u32"
  by (rule exact_suI) (simp_all add: rte_cast_i32_to_u32_def Let_def to_uint64_small)

lemma exact_i32_to_u64: "exact_cast sint uint rte_cast_i32_to_u64"
  by (rule exact_suI) (simp_all add: rte_cast_i32_to_u64_def Let_def to_uint64_small)

lemma exact_i32_to_size: "exact_cast sint uint rte_cast_i32_to_size"
  by (rule exact_suI) (simp_all add: rte_cast_i32_to_size_def Let_def to_uint64_small)

lemma exact_i64_to_i8: "exact_cast sint sint rte_cast_i64_to_i8"
  by (rule exact_ssI) (simp_all add: rte_cast_i64_to_i8_def Let_def to_uint64_small)

lemma exact_i64_to_i16: "exact_cast sint sint rte_cast_i64_to_i16"
  by (rule exact_ssI) (simp_all add: rte_cast_i64_to_i16_def Let_def to_uint64_small)

lemma exact_i64_to_i32: "exact_cast sint sint rte_cast_i64_to_i32"
  by (rule exact_ssI) (simp_all add: rte_cast_i64_to_i32_def Let_def to_uint64_small)

lemma exact_i64_to_u8: "exact_cast sint uint rte_cast_i64_to_u8"
  by (rule exact_suI) (simp_all add: rte_cast_i64_to_u8_def Let_def to_uint64_small)

lemma exact_i64_to_u16: "exact_cast sint uint rte_cast_i64_to_u16"
  by (rule exact_suI) (simp_all add: rte_cast_i64_to_u16_def Let_def to_uint64_small)

lemma exact_i64_to_u32: "exact_cast sint uint rte_cast_i64_to_u32"
  by (rule exact_suI) (simp_all add: rte_cast_i64_to_u32_def Let_def to_uint64_small)

lemma exact_i64_to_u64: "exact_cast sint uint rte_cast_i64_to_u64"
  by (rule exact_suI) (simp_all add: rte_cast_i64_to_u64_def Let_def to_uint64_small)

lemma exact_i64_to_size: "exact_cast sint uint rte_cast_i64_to_size"
  by (rule exact_suI) (simp_all add: rte_cast_i64_to_size_def Let_def to_uint64_small)

lemma exact_u8_to_i8: "exact_cast uint sint rte_cast_u8_to_i8"
  by (rule exact_usI) (simp_all add: rte_cast_u8_to_i8_def Let_def to_uint64_small)

lemma exact_u8_to_i16: "exact_cast uint sint rte_cast_u8_to_i16"
  by (rule exact_usI) (simp_all add: rte_cast_u8_to_i16_def Let_def to_uint64_small)

lemma exact_u8_to_i32: "exact_cast uint sint rte_cast_u8_to_i32"
  by (rule exact_usI) (simp_all add: rte_cast_u8_to_i32_def Let_def to_uint64_small)

lemma exact_u8_to_i64: "exact_cast uint sint rte_cast_u8_to_i64"
  by (rule exact_usI) (simp_all add: rte_cast_u8_to_i64_def Let_def to_uint64_small)

lemma exact_u8_to_u16: "exact_cast uint uint rte_cast_u8_to_u16"
  by (rule exact_uuI) (simp_all add: rte_cast_u8_to_u16_def Let_def to_uint64_small)

lemma exact_u8_to_u32: "exact_cast uint uint rte_cast_u8_to_u32"
  by (rule exact_uuI) (simp_all add: rte_cast_u8_to_u32_def Let_def to_uint64_small)

lemma exact_u8_to_u64: "exact_cast uint uint rte_cast_u8_to_u64"
  by (rule exact_uuI) (simp_all add: rte_cast_u8_to_u64_def Let_def to_uint64_small)

lemma exact_u8_to_size: "exact_cast uint uint rte_cast_u8_to_size"
  by (rule exact_uuI) (simp_all add: rte_cast_u8_to_size_def Let_def to_uint64_small)

lemma exact_u16_to_i8: "exact_cast uint sint rte_cast_u16_to_i8"
  by (rule exact_usI) (simp_all add: rte_cast_u16_to_i8_def Let_def to_uint64_small)

lemma exact_u16_to_i16: "exact_cast uint sint rte_cast_u16_to_i16"
  by (rule exact_usI) (simp_all add: rte_cast_u16_to_i16_def Let_def to_uint64_small)

lemma exact_u16_to_i32: "exact_cast uint sint rte_cast_u16_to_i32"
  by (rule exact_usI) (simp_all add: rte_cast_u16_to_i32_def Let_def to_uint64_small)

lemma exact_u16_to_i64: "exact_cast uint sint rte_cast_u16_to_i64"
  by (rule exact_usI) (simp_all add: rte_cast_u16_to_i64_def Let_def to_uint64_small)

lemma exact_u16_to_u8: "exact_cast uint uint rte_cast_u16_to_u8"
  by (rule exact_uuI) (simp_all add: rte_cast_u16_to_u8_def Let_def to_uint64_small)

lemma exact_u16_to_u32: "exact_cast uint uint rte_cast_u16_to_u32"
  by (rule exact_uuI) (simp_all add: rte_cast_u16_to_u32_def Let_def to_uint64_small)

lemma exact_u16_to_u64: "exact_cast uint uint rte_cast_u16_to_u64"
  by (rule exact_uuI) (simp_all add: rte_cast_u16_to_u64_def Let_def to_uint64_small)

lemma exact_u16_to_size: "exact_cast uint uint rte_cast_u16_to_size"
  by (rule exact_uuI) (simp_all add: rte_cast_u16_to_size_def Let_def to_uint64_small)

lemma exact_u32_to_i8: "exact_cast uint sint rte_cast_u32_to_i8"
  by (rule exact_usI) (simp_all add: rte_cast_u32_to_i8_def Let_def to_uint64_small)

lemma exact_u32_to_i16: "exact_cast uint sint rte_cast_u32_to_i16"
  by (rule exact_usI) (simp_all add: rte_cast_u32_to_i16_def Let_def to_uint64_small)

lemma exact_u32_to_i32: "exact_cast uint sint rte_cast_u32_to_i32"
  by (rule exact_usI) (simp_all add: rte_cast_u32_to_i32_def Let_def to_uint64_small)

lemma exact_u32_to_i64: "exact_cast uint sint rte_cast_u32_to_i64"
  by (rule exact_usI) (simp_all add: rte_cast_u32_to_i64_def Let_def to_uint64_small)

lemma exact_u32_to_u8: "exact_cast uint uint rte_cast_u32_to_u8"
  by (rule exact_uuI) (simp_all add: rte_cast_u32_to_u8_def Let_def to_uint64_small)

lemma exact_u32_to_u16: "exact_cast uint uint rte_cast_u32_to_u16"
  by (rule exact_uuI) (simp_all add: rte_cast_u32_to_u16_def Let_def to_uint64_small)

lemma exact_u32_to_u64: "exact_cast uint uint rte_cast_u32_to_u64"
  by (rule exact_uuI) (simp_all add: rte_cast_u32_to_u64_def Let_def to_uint64_small)

lemma exact_u32_to_size: "exact_cast uint uint rte_cast_u32_to_size"
  by (rule exact_uuI) (simp_all add: rte_cast_u32_to_size_def Let_def to_uint64_small)

lemma exact_u64_to_i8: "exact_cast uint sint rte_cast_u64_to_i8"
  by (rule exact_usI) (simp_all add: rte_cast_u64_to_i8_def Let_def to_uint64_small)

lemma exact_u64_to_i16: "exact_cast uint sint rte_cast_u64_to_i16"
  by (rule exact_usI) (simp_all add: rte_cast_u64_to_i16_def Let_def to_uint64_small)

lemma exact_u64_to_i32: "exact_cast uint sint rte_cast_u64_to_i32"
  by (rule exact_usI) (simp_all add: rte_cast_u64_to_i32_def Let_def to_uint64_small)

lemma exact_u64_to_i64: "exact_cast uint sint rte_cast_u64_to_i64"
  by (rule exact_usI) (simp_all add: rte_cast_u64_to_i64_def Let_def to_uint64_small)

lemma exact_u64_to_u8: "exact_cast uint uint rte_cast_u64_to_u8"
  by (rule exact_uuI) (simp_all add: rte_cast_u64_to_u8_def Let_def to_uint64_small)

lemma exact_u64_to_u16: "exact_cast uint uint rte_cast_u64_to_u16"
  by (rule exact_uuI) (simp_all add: rte_cast_u64_to_u16_def Let_def to_uint64_small)

lemma exact_u64_to_u32: "exact_cast uint uint rte_cast_u64_to_u32"
  by (rule exact_uuI) (simp_all add: rte_cast_u64_to_u32_def Let_def to_uint64_small)

lemma exact_u64_to_size: "exact_cast uint uint rte_cast_u64_to_size"
  by (rule exact_uuI) (simp_all add: rte_cast_u64_to_size_def Let_def to_uint64_small)

lemma exact_size_to_i8: "exact_cast uint sint rte_cast_size_to_i8"
  by (rule exact_usI) (simp_all add: rte_cast_size_to_i8_def Let_def to_uint64_small)

lemma exact_size_to_i16: "exact_cast uint sint rte_cast_size_to_i16"
  by (rule exact_usI) (simp_all add: rte_cast_size_to_i16_def Let_def to_uint64_small)

lemma exact_size_to_i32: "exact_cast uint sint rte_cast_size_to_i32"
  by (rule exact_usI) (simp_all add: rte_cast_size_to_i32_def Let_def to_uint64_small)

lemma exact_size_to_i64: "exact_cast uint sint rte_cast_size_to_i64"
  by (rule exact_usI) (simp_all add: rte_cast_size_to_i64_def Let_def to_uint64_small)

lemma exact_size_to_u8: "exact_cast uint uint rte_cast_size_to_u8"
  by (rule exact_uuI) (simp_all add: rte_cast_size_to_u8_def Let_def to_uint64_small)

lemma exact_size_to_u16: "exact_cast uint uint rte_cast_size_to_u16"
  by (rule exact_uuI) (simp_all add: rte_cast_size_to_u16_def Let_def to_uint64_small)

lemma exact_size_to_u32: "exact_cast uint uint rte_cast_size_to_u32"
  by (rule exact_uuI) (simp_all add: rte_cast_size_to_u32_def Let_def to_uint64_small)

lemma exact_size_to_u64: "exact_cast uint uint rte_cast_size_to_u64"
  by (rule exact_uuI) (simp_all add: rte_cast_size_to_u64_def Let_def to_uint64_small)

section \<open>Exact arithmetic\<close>

definition exact_arith ::
  "(int \<Rightarrow> int \<Rightarrow> int) \<Rightarrow>
    ('a::len word \<Rightarrow> 'a word \<Rightarrow> 'a word option \<Rightarrow> 'x rte \<Rightarrow> rte_status \<times> 'a word option \<times> 'x rte) \<Rightarrow> bool" where
  "exact_arith op f \<longleftrightarrow>
    (\<forall>a b s. f a b None s = (STATUS_INVALID_PARAM, None, s)) \<and>
    (\<forall>a b old s. (\<exists>c. uint c = op (uint a) (uint b) \<and> f a b (Some old) s = (STATUS_OK, Some c, s)) \<or>
       (\<forall>c :: 'a word. uint c \<noteq> op (uint a) (uint b)) \<and>
       (\<exists>message. f a b (Some old) s = (STATUS_VALUE_OUT_OF_RANGE, Some old,
          rte_safety_violation_report VIOLATION_OVERFLOW message s)))"

lemma exact_arithI:
  assumes "\<And>a b s. f a b None s = (STATUS_INVALID_PARAM, None, s)"
    and "\<And>a b old s. f a b (Some old) s =
      (if 0 \<le> op (uint a) (uint b) \<and> op (uint a) (uint b) < 2 ^ LENGTH('a)
       then (STATUS_OK, Some (word_of_int (op (uint a) (uint b))), s)
       else (STATUS_VALUE_OUT_OF_RANGE, Some old,
         rte_safety_violation_report VIOLATION_OVERFLOW message s))"
  shows "exact_arith op (f :: 'a::len word \<Rightarrow> _ \<Rightarrow> _ \<Rightarrow> 'x rte \<Rightarrow> _)"
  unfolding exact_arith_def using uint_values [where 'b = 'a]
  by (metis assms)

lemma uint_values_u64: "uint (word_of_int v :: u64) = v" if "0 \<le> v" "v < 2 ^ 64"
  using uint_values(2) [where 'b = 64, of v] that by simp

lemma uint_u32_bound: "0 \<le> uint (a :: u32)" "uint (a :: u32) \<le> 4294967295"
  using uint_bounded [of a] by simp_all

lemma uint_u64_bound: "0 \<le> uint (a :: u64)" "uint (a :: u64) \<le> 18446744073709551615"
  using uint_bounded [of a] by simp_all

lemma uint_max_u64: "uint (- 1 :: u64) = 18446744073709551615"
  by (simp add: unsigned_minus_1_eq_mask mask_eq_exp_minus_1)

lemma exact_add_u32: "exact_arith (+) (rte_cast_checked_add_u32 :: _ \<Rightarrow> _ \<Rightarrow> _ \<Rightarrow> 'x rte \<Rightarrow> _)"
proof (rule exact_arithI)
  fix a b old :: u32 and s :: "'x rte"
  have w: "uint ((ucast a :: u64) + ucast b) = uint a + uint b"
    using uint_u32_bound [of a] uint_u32_bound [of b]
    by (simp add: uint_word_ariths(1) uint_up_ucast is_up)
  have c: "(ucast ((ucast a :: u64) + ucast b) :: u32) = word_of_int (uint a + uint b)"
    by (simp only: ucast_eq [of "(ucast a :: u64) + ucast b"] w)
  show "rte_cast_checked_add_u32 a b (Some old) s =
      (if 0 \<le> uint a + uint b \<and> uint a + uint b < 2 ^ LENGTH(32)
       then (STATUS_OK, Some (word_of_int (uint a + uint b)), s)
       else (STATUS_VALUE_OUT_OF_RANGE, Some old, rte_safety_violation_report VIOLATION_OVERFLOW
         (Some ''rte_cast_checked_add_u32: addition overflowed uint32_t'') s))"
    using uint_u32_bound [of a] uint_u32_bound [of b]
    by (simp add: rte_cast_checked_add_u32_def Let_def c word_less_def w del: of_int_add)
qed (simp add: rte_cast_checked_add_u32_def)

lemma exact_mul_u32: "exact_arith (*) (rte_cast_checked_mul_u32 :: _ \<Rightarrow> _ \<Rightarrow> _ \<Rightarrow> 'x rte \<Rightarrow> _)"
proof (rule exact_arithI)
  fix a b old :: u32 and s :: "'x rte"
  have m: "0 \<le> uint a * uint b" "uint a * uint b \<le> 4294967295 * 4294967295"
    using uint_u32_bound [of a] uint_u32_bound [of b] by (simp, intro mult_mono) simp_all
  have w: "uint ((ucast a :: u64) * ucast b) = uint a * uint b"
    using m by (simp add: uint_word_ariths(3) uint_up_ucast is_up)
  have c: "(ucast ((ucast a :: u64) * ucast b) :: u32) = word_of_int (uint a * uint b)"
    by (simp only: ucast_eq [of "(ucast a :: u64) * ucast b"] w)
  show "rte_cast_checked_mul_u32 a b (Some old) s =
      (if 0 \<le> uint a * uint b \<and> uint a * uint b < 2 ^ LENGTH(32)
       then (STATUS_OK, Some (word_of_int (uint a * uint b)), s)
       else (STATUS_VALUE_OUT_OF_RANGE, Some old, rte_safety_violation_report VIOLATION_OVERFLOW
         (Some ''rte_cast_checked_mul_u32: multiplication overflowed uint32_t'') s))"
    using m by (auto simp: rte_cast_checked_mul_u32_def Let_def c word_less_def w simp del: of_int_mult)
qed (simp add: rte_cast_checked_mul_u32_def)

lemma sub_word:
  fixes a b :: "'a::len word"
  shows "a < b \<longleftrightarrow> uint a - uint b < 0"
  by (simp add: word_less_def)

lemma exact_sub_u32: "exact_arith (-) (rte_cast_checked_sub_u32 :: _ \<Rightarrow> _ \<Rightarrow> _ \<Rightarrow> 'x rte \<Rightarrow> _)"
proof (rule exact_arithI)
  fix a b old :: u32 and s :: "'x rte"
  have d: "uint a - uint b < 4294967296"
    using uint_u32_bound [of a] uint_u32_bound [of b] by linarith
  show "rte_cast_checked_sub_u32 a b (Some old) s =
      (if 0 \<le> uint a - uint b \<and> uint a - uint b < 2 ^ LENGTH(32)
       then (STATUS_OK, Some (word_of_int (uint a - uint b)), s)
       else (STATUS_VALUE_OUT_OF_RANGE, Some old, rte_safety_violation_report VIOLATION_OVERFLOW
         (Some ''rte_cast_checked_sub_u32: subtraction underflowed uint32_t'') s))"
    using d by (simp add: rte_cast_checked_sub_u32_def sub_word)
qed (simp add: rte_cast_checked_sub_u32_def)

lemma exact_sub_size: "exact_arith (-) (rte_cast_checked_sub_size :: _ \<Rightarrow> _ \<Rightarrow> _ \<Rightarrow> 'x rte \<Rightarrow> _)"
proof (rule exact_arithI)
  fix a b old :: size_t and s :: "'x rte"
  have d: "uint a - uint b < 18446744073709551616"
    using uint_u64_bound [of a] uint_u64_bound [of b] by linarith
  show "rte_cast_checked_sub_size a b (Some old) s =
      (if 0 \<le> uint a - uint b \<and> uint a - uint b < 2 ^ LENGTH(64)
       then (STATUS_OK, Some (word_of_int (uint a - uint b)), s)
       else (STATUS_VALUE_OUT_OF_RANGE, Some old, rte_safety_violation_report VIOLATION_OVERFLOW
         (Some ''rte_cast_checked_sub_size: subtraction underflowed size_t'') s))"
    using d by (simp add: rte_cast_checked_sub_size_def sub_word)
qed (simp add: rte_cast_checked_sub_size_def)

lemma exact_add_size: "exact_arith (+) (rte_cast_checked_add_size :: _ \<Rightarrow> _ \<Rightarrow> _ \<Rightarrow> 'x rte \<Rightarrow> _)"
proof (rule exact_arithI)
  fix a b old :: size_t and s :: "'x rte"
  have m: "uint (- 1 - a) = 18446744073709551615 - uint a"
  proof -
    have "0 \<le> 18446744073709551615 - uint a" "18446744073709551615 - uint a < 18446744073709551616"
      using uint_u64_bound [of a] by linarith+
    then show ?thesis by (simp add: uint_word_ariths(2) uint_max_u64)
  qed
  show "rte_cast_checked_add_size a b (Some old) s =
      (if 0 \<le> uint a + uint b \<and> uint a + uint b < 2 ^ LENGTH(64)
       then (STATUS_OK, Some (word_of_int (uint a + uint b)), s)
       else (STATUS_VALUE_OUT_OF_RANGE, Some old, rte_safety_violation_report VIOLATION_OVERFLOW
         (Some ''rte_cast_checked_add_size: addition overflowed size_t'') s))"
    using uint_u64_bound [of a] uint_u64_bound [of b]
    by (auto simp: rte_cast_checked_add_size_def word_less_def m)
qed (simp add: rte_cast_checked_add_size_def)

lemma le_div_int:
  fixes k m n :: int
  assumes "0 < m"
  shows "k \<le> n div m \<longleftrightarrow> k * m \<le> n"
proof
  assume "k \<le> n div m"
  then have "k * m \<le> n div m * m" using assms by (intro mult_right_mono) simp_all
  also have "\<dots> \<le> n" using assms by (metis div_mult_mod_eq le_add_same_cancel1 pos_mod_sign)
  finally show "k * m \<le> n" .
next
  assume "k * m \<le> n"
  then have "k * m div m \<le> n div m" using assms by (intro zdiv_mono1)
  then show "k \<le> n div m" using assms by simp
qed

lemma exact_mul_size: "exact_arith (*) (rte_cast_checked_mul_size :: _ \<Rightarrow> _ \<Rightarrow> _ \<Rightarrow> 'x rte \<Rightarrow> _)"
proof (rule exact_arithI)
  fix a b old :: size_t and s :: "'x rte"
  have over: "a \<noteq> 0 \<and> b > - 1 div a \<longleftrightarrow> \<not> uint a * uint b \<le> 18446744073709551615"
  proof (cases "a = 0")
    case False
    then have pos: "0 < uint a" using uint_u64_bound [of a] unsigned_eq_0_iff [of a] by (metis less_le uint_0_iff)
    have "b \<le> - 1 div a \<longleftrightarrow> uint b \<le> 18446744073709551615 div uint a"
      by (simp add: word_le_def uint_div uint_max_u64)
    also have "\<dots> \<longleftrightarrow> uint b * uint a \<le> 18446744073709551615"
      using le_div_int [OF pos] .
    finally show ?thesis using False by (simp add: mult.commute not_le flip: not_less)
  qed simp
  show "rte_cast_checked_mul_size a b (Some old) s =
      (if 0 \<le> uint a * uint b \<and> uint a * uint b < 2 ^ LENGTH(64)
       then (STATUS_OK, Some (word_of_int (uint a * uint b)), s)
       else (STATUS_VALUE_OUT_OF_RANGE, Some old, rte_safety_violation_report VIOLATION_OVERFLOW
         (Some ''rte_cast_checked_mul_size: multiplication overflowed size_t'') s))"
    by (auto simp: rte_cast_checked_mul_size_def over)
qed (simp add: rte_cast_checked_mul_size_def)

section \<open>Properties\<close>

text \<open>Conversions that succeed there and back are the identity.\<close>

lemma cast_round_trip:
  assumes "exact_cast src dst f" "exact_cast dst src g" "inj src"
    and "f n (Some x) = (STATUS_OK, Some m)"
  shows "g m (Some y) = (STATUS_OK, Some n)"
proof -
  have "(\<exists>m. dst m = src n \<and> f n (Some x) = (STATUS_OK, Some m)) \<or>
      f n (Some x) = (STATUS_VALUE_OUT_OF_RANGE, Some x)"
    using assms(1) unfolding exact_cast_def by blast
  with assms(4) have m: "dst m = src n" by auto
  consider k where "src k = dst m" "g m (Some y) = (STATUS_OK, Some k)" | "\<forall>k. src k \<noteq> dst m"
    using assms(2) unfolding exact_cast_def by blast
  then show ?thesis using m assms(3) by cases (auto dest: injD)
qed

text \<open>C39. Every one of the 72 conversions is exact: it succeeds exactly when the value is one of the
  destination type, then with the same value, and otherwise reports the range error and leaves the
  caller's variable; without a variable it reports an invalid parameter.\<close>

theorem conversions_exact:
  "exact_cast sint sint rte_cast_i8_to_i16 \<and>
   exact_cast sint sint rte_cast_i8_to_i32 \<and>
   exact_cast sint sint rte_cast_i8_to_i64 \<and>
   exact_cast sint uint rte_cast_i8_to_u8 \<and>
   exact_cast sint uint rte_cast_i8_to_u16 \<and>
   exact_cast sint uint rte_cast_i8_to_u32 \<and>
   exact_cast sint uint rte_cast_i8_to_u64 \<and>
   exact_cast sint uint rte_cast_i8_to_size \<and>
   exact_cast sint sint rte_cast_i16_to_i8 \<and>
   exact_cast sint sint rte_cast_i16_to_i32 \<and>
   exact_cast sint sint rte_cast_i16_to_i64 \<and>
   exact_cast sint uint rte_cast_i16_to_u8 \<and>
   exact_cast sint uint rte_cast_i16_to_u16 \<and>
   exact_cast sint uint rte_cast_i16_to_u32 \<and>
   exact_cast sint uint rte_cast_i16_to_u64 \<and>
   exact_cast sint uint rte_cast_i16_to_size \<and>
   exact_cast sint sint rte_cast_i32_to_i8 \<and>
   exact_cast sint sint rte_cast_i32_to_i16 \<and>
   exact_cast sint sint rte_cast_i32_to_i64 \<and>
   exact_cast sint uint rte_cast_i32_to_u8 \<and>
   exact_cast sint uint rte_cast_i32_to_u16 \<and>
   exact_cast sint uint rte_cast_i32_to_u32 \<and>
   exact_cast sint uint rte_cast_i32_to_u64 \<and>
   exact_cast sint uint rte_cast_i32_to_size \<and>
   exact_cast sint sint rte_cast_i64_to_i8 \<and>
   exact_cast sint sint rte_cast_i64_to_i16 \<and>
   exact_cast sint sint rte_cast_i64_to_i32 \<and>
   exact_cast sint uint rte_cast_i64_to_u8 \<and>
   exact_cast sint uint rte_cast_i64_to_u16 \<and>
   exact_cast sint uint rte_cast_i64_to_u32 \<and>
   exact_cast sint uint rte_cast_i64_to_u64 \<and>
   exact_cast sint uint rte_cast_i64_to_size \<and>
   exact_cast uint sint rte_cast_u8_to_i8 \<and>
   exact_cast uint sint rte_cast_u8_to_i16 \<and>
   exact_cast uint sint rte_cast_u8_to_i32 \<and>
   exact_cast uint sint rte_cast_u8_to_i64 \<and>
   exact_cast uint uint rte_cast_u8_to_u16 \<and>
   exact_cast uint uint rte_cast_u8_to_u32 \<and>
   exact_cast uint uint rte_cast_u8_to_u64 \<and>
   exact_cast uint uint rte_cast_u8_to_size \<and>
   exact_cast uint sint rte_cast_u16_to_i8 \<and>
   exact_cast uint sint rte_cast_u16_to_i16 \<and>
   exact_cast uint sint rte_cast_u16_to_i32 \<and>
   exact_cast uint sint rte_cast_u16_to_i64 \<and>
   exact_cast uint uint rte_cast_u16_to_u8 \<and>
   exact_cast uint uint rte_cast_u16_to_u32 \<and>
   exact_cast uint uint rte_cast_u16_to_u64 \<and>
   exact_cast uint uint rte_cast_u16_to_size \<and>
   exact_cast uint sint rte_cast_u32_to_i8 \<and>
   exact_cast uint sint rte_cast_u32_to_i16 \<and>
   exact_cast uint sint rte_cast_u32_to_i32 \<and>
   exact_cast uint sint rte_cast_u32_to_i64 \<and>
   exact_cast uint uint rte_cast_u32_to_u8 \<and>
   exact_cast uint uint rte_cast_u32_to_u16 \<and>
   exact_cast uint uint rte_cast_u32_to_u64 \<and>
   exact_cast uint uint rte_cast_u32_to_size \<and>
   exact_cast uint sint rte_cast_u64_to_i8 \<and>
   exact_cast uint sint rte_cast_u64_to_i16 \<and>
   exact_cast uint sint rte_cast_u64_to_i32 \<and>
   exact_cast uint sint rte_cast_u64_to_i64 \<and>
   exact_cast uint uint rte_cast_u64_to_u8 \<and>
   exact_cast uint uint rte_cast_u64_to_u16 \<and>
   exact_cast uint uint rte_cast_u64_to_u32 \<and>
   exact_cast uint uint rte_cast_u64_to_size \<and>
   exact_cast uint sint rte_cast_size_to_i8 \<and>
   exact_cast uint sint rte_cast_size_to_i16 \<and>
   exact_cast uint sint rte_cast_size_to_i32 \<and>
   exact_cast uint sint rte_cast_size_to_i64 \<and>
   exact_cast uint uint rte_cast_size_to_u8 \<and>
   exact_cast uint uint rte_cast_size_to_u16 \<and>
   exact_cast uint uint rte_cast_size_to_u32 \<and>
   exact_cast uint uint rte_cast_size_to_u64"
  by (intro conjI exact_i8_to_i16
      exact_i8_to_i32
      exact_i8_to_i64
      exact_i8_to_u8
      exact_i8_to_u16
      exact_i8_to_u32
      exact_i8_to_u64
      exact_i8_to_size
      exact_i16_to_i8
      exact_i16_to_i32
      exact_i16_to_i64
      exact_i16_to_u8
      exact_i16_to_u16
      exact_i16_to_u32
      exact_i16_to_u64
      exact_i16_to_size
      exact_i32_to_i8
      exact_i32_to_i16
      exact_i32_to_i64
      exact_i32_to_u8
      exact_i32_to_u16
      exact_i32_to_u32
      exact_i32_to_u64
      exact_i32_to_size
      exact_i64_to_i8
      exact_i64_to_i16
      exact_i64_to_i32
      exact_i64_to_u8
      exact_i64_to_u16
      exact_i64_to_u32
      exact_i64_to_u64
      exact_i64_to_size
      exact_u8_to_i8
      exact_u8_to_i16
      exact_u8_to_i32
      exact_u8_to_i64
      exact_u8_to_u16
      exact_u8_to_u32
      exact_u8_to_u64
      exact_u8_to_size
      exact_u16_to_i8
      exact_u16_to_i16
      exact_u16_to_i32
      exact_u16_to_i64
      exact_u16_to_u8
      exact_u16_to_u32
      exact_u16_to_u64
      exact_u16_to_size
      exact_u32_to_i8
      exact_u32_to_i16
      exact_u32_to_i32
      exact_u32_to_i64
      exact_u32_to_u8
      exact_u32_to_u16
      exact_u32_to_u64
      exact_u32_to_size
      exact_u64_to_i8
      exact_u64_to_i16
      exact_u64_to_i32
      exact_u64_to_i64
      exact_u64_to_u8
      exact_u64_to_u16
      exact_u64_to_u32
      exact_u64_to_size
      exact_size_to_i8
      exact_size_to_i16
      exact_size_to_i32
      exact_size_to_i64
      exact_size_to_u8
      exact_size_to_u16
      exact_size_to_u32
      exact_size_to_u64)

text \<open>The checked arithmetic never wraps: a sum, difference or product is returned exactly when it
  is a value of the type, and otherwise the caller's variable stays and the overflow is reported; an
  index check accepts exactly the indices below the count.\<close>

theorem checked_arithmetic_exact:
  "exact_arith (+) (rte_cast_checked_add_u32 :: _ \<Rightarrow> _ \<Rightarrow> _ \<Rightarrow> 'x rte \<Rightarrow> _) \<and>
   exact_arith (-) (rte_cast_checked_sub_u32 :: _ \<Rightarrow> _ \<Rightarrow> _ \<Rightarrow> 'x rte \<Rightarrow> _) \<and>
   exact_arith (*) (rte_cast_checked_mul_u32 :: _ \<Rightarrow> _ \<Rightarrow> _ \<Rightarrow> 'x rte \<Rightarrow> _) \<and>
   exact_arith (+) (rte_cast_checked_add_size :: _ \<Rightarrow> _ \<Rightarrow> _ \<Rightarrow> 'x rte \<Rightarrow> _) \<and>
   exact_arith (-) (rte_cast_checked_sub_size :: _ \<Rightarrow> _ \<Rightarrow> _ \<Rightarrow> 'x rte \<Rightarrow> _) \<and>
   exact_arith (*) (rte_cast_checked_mul_size :: _ \<Rightarrow> _ \<Rightarrow> _ \<Rightarrow> 'x rte \<Rightarrow> _) \<and>
   (fst (rte_cast_bounds_check i n (s :: 'x rte)) = STATUS_OK \<longleftrightarrow> unat i < unat n)"
  by (intro conjI exact_add_u32 exact_sub_u32 exact_mul_u32 exact_add_size exact_sub_size
      exact_mul_size) (auto simp: rte_cast_bounds_check_def word_le_nat_alt)

end
