(* ===== verification/Rte_String.thy ===== *)
theory Rte_String
  imports Buffer Cast
begin

unbundle bit_operations_syntax

text \<open>
  The bounded strings of \<^verbatim>\<open>src/utils/string/rte_string.c\<close>: a string is a buffer whose length
  does not count a NUL. Characters are bytes; a comparison with the digits gives the same answer
  whether \<^verbatim>\<open>char\<close> is signed or not. A NUL-terminated source is the byte list of its array;
  the scans never look further than the code does. Decimal conversion is followed by the theory of
  its round trips.
\<close>

section \<open>Strings\<close>

record rte_string =
  str_buf :: rte_buffer

text \<open>The result of a buffer operation on the string's buffer.\<close>

fun on_buffer :: "rte_string \<Rightarrow> rte_status \<times> rte_buffer option \<Rightarrow> rte_status \<times> rte_string option" where
  "on_buffer s (status, b) = (status, Some (s\<lparr>str_buf := the_default (str_buf s) b\<rparr>))"

definition rte_string_init ::
  "rte_string option \<Rightarrow> bytes option \<Rightarrow> nat \<Rightarrow> rte_status \<times> rte_string option" where
  "rte_string_init str storage capacity =
    (case str of None \<Rightarrow> (STATUS_INVALID_PARAM, None)
     | Some s \<Rightarrow> on_buffer s (rte_buffer_init (Some (str_buf s)) storage capacity))"

definition rte_string_clear :: "rte_string option \<Rightarrow> rte_status \<times> rte_string option" where
  "rte_string_clear str =
    (case str of None \<Rightarrow> (STATUS_INVALID_PARAM, None)
     | Some s \<Rightarrow> on_buffer s (rte_buffer_clear (Some (str_buf s))))"

definition rte_string_length :: "rte_string option \<Rightarrow> nat" where
  "rte_string_length str = (case str of None \<Rightarrow> 0 | Some s \<Rightarrow> bf_length (str_buf s))"

text \<open>The storage of a string, and the characters in it.\<close>

definition str_data :: "rte_string \<Rightarrow> bytes" where
  "str_data s = (case bf_data (str_buf s) of None \<Rightarrow> [] | Some d \<Rightarrow> d)"

definition str_content :: "rte_string \<Rightarrow> bytes" where
  "str_content s = take (bf_length (str_buf s)) (str_data s)"

text \<open>The pointer handed out is the storage, \<open>None\<close> where it stays unset.\<close>

definition rte_string_c_str ::
  "rte_string option \<Rightarrow> bool \<Rightarrow> rte_status \<times> bytes option \<times> rte_string option" where
  "rte_string_c_str str out_given =
    (case str of None \<Rightarrow> (STATUS_INVALID_PARAM, None, str)
     | Some s \<Rightarrow>
         if \<not> out_given then (STATUS_INVALID_PARAM, None, str)
         else if \<not> rte_buffer_is_valid (Some (str_buf s)) then (STATUS_INVALID_PARAM, None, str)
         else if bf_length (str_buf s) \<ge> bf_capacity (str_buf s)
         then (STATUS_RESOURCE_EXHAUSTED, None, str)
         else
           let d = (str_data s)[bf_length (str_buf s) := 0]
           in (STATUS_OK, Some d, Some (s\<lparr>str_buf := (str_buf s)\<lparr>bf_data := Some d\<rparr>\<rparr>)))"

section \<open>Copying and appending\<close>

definition rte_string_copy_n ::
  "rte_string option \<Rightarrow> bytes option \<Rightarrow> nat \<Rightarrow> rte_status \<times> rte_string option" where
  "rte_string_copy_n dest src src_len =
    (case (dest, src) of
       (Some s, Some _) \<Rightarrow> on_buffer s (rte_buffer_copy_in (Some (str_buf s)) src src_len)
     | _ \<Rightarrow> (STATUS_INVALID_PARAM, dest))"

text \<open>The scan for a NUL in the positions 0 to \<open>limit\<close>.\<close>

definition scan_nul :: "nat \<Rightarrow> bytes \<Rightarrow> nat option" where
  "scan_nul limit src =
    (let window = take (Suc limit) src; i = length (takeWhile (\<lambda>c. c \<noteq> 0) window)
     in if i < length window then Some i else None)"

definition rte_string_copy :: "rte_string option \<Rightarrow> bytes option \<Rightarrow> rte_status \<times> rte_string option" where
  "rte_string_copy dest src =
    (case (dest, src) of
       (Some s, Some d) \<Rightarrow>
         if \<not> rte_buffer_is_valid (Some (str_buf s)) then (STATUS_INVALID_PARAM, dest)
         else (case scan_nul (bf_capacity (str_buf s)) d of
                 None \<Rightarrow> (STATUS_RESOURCE_EXHAUSTED, dest)
               | Some i \<Rightarrow> rte_string_copy_n dest src i)
     | _ \<Rightarrow> (STATUS_INVALID_PARAM, dest))"

text \<open>The bytes put behind the content.\<close>

definition put_behind :: "rte_string \<Rightarrow> bytes \<Rightarrow> nat \<Rightarrow> rte_string" where
  "put_behind s src n = s\<lparr>str_buf := (str_buf s)\<lparr>
     bf_data := map_option (copy_at (bf_length (str_buf s)) (take n src)) (bf_data (str_buf s)),
     bf_length := bf_length (str_buf s) + n\<rparr>\<rparr>"

definition rte_string_concat :: "rte_string option \<Rightarrow> bytes option \<Rightarrow> rte_status \<times> rte_string option" where
  "rte_string_concat dest src =
    (case (dest, src) of
       (Some s, Some d) \<Rightarrow>
         if \<not> rte_buffer_is_valid (Some (str_buf s)) then (STATUS_INVALID_PARAM, dest)
         else
           let remaining = bf_capacity (str_buf s) - bf_length (str_buf s)
           in (case scan_nul remaining d of
                 None \<Rightarrow> (STATUS_RESOURCE_EXHAUSTED, dest)
               | Some i \<Rightarrow> (STATUS_OK, Some (put_behind s d i)))
     | _ \<Rightarrow> (STATUS_INVALID_PARAM, dest))"

definition rte_string_append_bytes ::
  "rte_string option \<Rightarrow> bytes \<Rightarrow> nat \<Rightarrow> rte_status \<times> rte_string option" where
  "rte_string_append_bytes dest src n =
    (case dest of None \<Rightarrow> (STATUS_INVALID_PARAM, dest)
     | Some s \<Rightarrow>
         if \<not> rte_buffer_is_valid (Some (str_buf s)) then (STATUS_INVALID_PARAM, dest)
         else if n > bf_capacity (str_buf s) - bf_length (str_buf s)
         then (STATUS_RESOURCE_EXHAUSTED, dest)
         else if n > 0 then (STATUS_OK, Some (put_behind s src n))
         else (STATUS_OK, dest))"

section \<open>Comparing and searching\<close>

text \<open>The loop over the common length: the first difference decides.\<close>

fun first_difference :: "bytes \<Rightarrow> bytes \<Rightarrow> int" where
  "first_difference (a # as) (b # bs) =
    (if a \<noteq> b then (if a < b then - 1 else 1) else first_difference as bs)"
| "first_difference _ _ = 0"

definition rte_string_compare ::
  "rte_string option \<Rightarrow> rte_string option \<Rightarrow> int option \<Rightarrow> rte_status \<times> int option" where
  "rte_string_compare a b out_cmp =
    (case (a, b, out_cmp) of
       (Some sa, Some sb, Some _) \<Rightarrow>
         if \<not> rte_buffer_is_valid (Some (str_buf sa)) \<or> \<not> rte_buffer_is_valid (Some (str_buf sb))
         then (STATUS_INVALID_PARAM, out_cmp)
         else
           let la = bf_length (str_buf sa); lb = bf_length (str_buf sb);
               min_len = (if la < lb then la else lb);
               result = first_difference (take min_len (str_data sa)) (take min_len (str_data sb));
               result = (if result = 0 then (if la < lb then - 1 else if la > lb then 1 else 0)
                         else result)
           in (STATUS_OK, Some result)
     | _ \<Rightarrow> (STATUS_INVALID_PARAM, out_cmp))"

definition rte_string_find_char ::
  "rte_string option \<Rightarrow> u8 \<Rightarrow> bool option \<Rightarrow> nat option \<Rightarrow> rte_status \<times> bool option \<times> nat option" where
  "rte_string_find_char str c out_found out_index =
    (case (str, out_found, out_index) of
       (Some s, Some _, Some _) \<Rightarrow>
         if \<not> rte_buffer_is_valid (Some (str_buf s)) then (STATUS_INVALID_PARAM, out_found, out_index)
         else (case List.find (\<lambda>i. str_data s ! i = c) [0..<bf_length (str_buf s)] of
                 Some i \<Rightarrow> (STATUS_OK, Some True, Some i)
               | None \<Rightarrow> (STATUS_OK, Some False, out_index))
     | _ \<Rightarrow> (STATUS_INVALID_PARAM, out_found, out_index))"

definition rte_string_find_substr ::
  "rte_string option \<Rightarrow> rte_string option \<Rightarrow> bool option \<Rightarrow> nat option \<Rightarrow>
    rte_status \<times> bool option \<times> nat option" where
  "rte_string_find_substr haystack needle out_found out_index =
    (case (haystack, needle, out_found, out_index) of
       (Some h, Some n, Some _, Some _) \<Rightarrow>
         if \<not> rte_buffer_is_valid (Some (str_buf h)) \<or> \<not> rte_buffer_is_valid (Some (str_buf n))
         then (STATUS_INVALID_PARAM, out_found, out_index)
         else
           let lh = bf_length (str_buf h); ln = bf_length (str_buf n)
           in if ln = 0 then (STATUS_OK, Some True, Some 0)
              else if ln > lh then (STATUS_OK, Some False, out_index)
              else (case List.find (\<lambda>i. take ln (drop i (str_data h)) = take ln (str_data n))
                           [0..<Suc (lh - ln)] of
                      Some i \<Rightarrow> (STATUS_OK, Some True, Some i)
                    | None \<Rightarrow> (STATUS_OK, Some False, out_index))
     | _ \<Rightarrow> (STATUS_INVALID_PARAM, out_found, out_index))"

text \<open>The token is a view into the storage: the bytes from its start on, and its length.\<close>

definition rte_string_split_next ::
  "rte_string option \<Rightarrow> u8 \<Rightarrow> nat option \<Rightarrow> rte_const_buffer option \<Rightarrow> bool option \<Rightarrow>
    rte_status \<times> nat option \<times> rte_const_buffer option \<times> bool option" where
  "rte_string_split_next str delimiter io_cursor out_token out_has_token =
    (case (str, io_cursor, out_token, out_has_token) of
       (Some s, Some start, Some _, Some _) \<Rightarrow>
         if \<not> rte_buffer_is_valid (Some (str_buf s))
         then (STATUS_INVALID_PARAM, io_cursor, out_token, out_has_token)
         else if start > bf_length (str_buf s)
         then (STATUS_INVALID_PARAM, io_cursor, out_token, out_has_token)
         else if start = bf_length (str_buf s)
         then (STATUS_OK, io_cursor, out_token, Some False)
         else
           let i = start + length (takeWhile (\<lambda>c. c \<noteq> delimiter) (drop start (str_content s)))
           in (STATUS_OK, Some (if i < bf_length (str_buf s) then i + 1 else i),
               Some \<lparr>cb_data = Some (drop start (str_data s)), cb_length = i - start\<rparr>, Some True)
     | _ \<Rightarrow> (STATUS_INVALID_PARAM, io_cursor, out_token, out_has_token))"

section \<open>Printing numbers\<close>

lemma div10_less: "v \<noteq> 0 \<Longrightarrow> unat (v div 10) < unat (v :: u64)"
  by (simp add: unat_div unat_gt_0)

text \<open>The digits in the order the loop finds them, least significant first.\<close>

function digits_rev :: "u64 \<Rightarrow> bytes" where
  "digits_rev v = (if v > 0 then (0x30 + ucast (v mod 10)) # digits_rev (v div 10) else [])"
  by pat_completeness auto
termination
  by (relation "measure unat") (simp_all add: div10_less word_gt_0)

declare digits_rev.simps [simp del]

definition rte_string_format_u64_digits :: "u64 \<Rightarrow> bytes" where
  "rte_string_format_u64_digits value = (if value = 0 then [0x30] else rev (digits_rev value))"

definition rte_string_from_u64 :: "rte_string option \<Rightarrow> u64 \<Rightarrow> rte_status \<times> rte_string option" where
  "rte_string_from_u64 dest value =
    (if dest = None then (STATUS_INVALID_PARAM, dest)
     else let digits = rte_string_format_u64_digits value
          in rte_string_copy_n dest (Some digits) (length digits))"

definition magnitude_i64 :: "i64 \<Rightarrow> u64" where
  "magnitude_i64 value = (if sint value < 0 then - (value + 1) + 1 else value)"

definition signed_digits :: "i64 \<Rightarrow> bytes" where
  "signed_digits value =
    (if sint value < 0 then 0x2D # rte_string_format_u64_digits (magnitude_i64 value)
     else rte_string_format_u64_digits (magnitude_i64 value))"

definition rte_string_from_i64 :: "rte_string option \<Rightarrow> i64 \<Rightarrow> rte_status \<times> rte_string option" where
  "rte_string_from_i64 dest value =
    (if dest = None then (STATUS_INVALID_PARAM, dest)
     else rte_string_copy_n dest (Some (signed_digits value)) (length (signed_digits value)))"

definition rte_string_from_u32 :: "rte_string option \<Rightarrow> u32 \<Rightarrow> rte_status \<times> rte_string option" where
  "rte_string_from_u32 dest value =
    (if dest = None then (STATUS_INVALID_PARAM, dest)
     else
       let (st, widened) = rte_cast_u32_to_u64 value (Some 0)
       in if st \<noteq> STATUS_OK then (st, dest) else rte_string_from_u64 dest (the_default 0 widened))"

definition rte_string_from_i32 :: "rte_string option \<Rightarrow> i32 \<Rightarrow> rte_status \<times> rte_string option" where
  "rte_string_from_i32 dest value =
    (if dest = None then (STATUS_INVALID_PARAM, dest)
     else
       let (st, widened) = rte_cast_i32_to_i64 value (Some 0)
       in if st \<noteq> STATUS_OK then (st, dest) else rte_string_from_i64 dest (the_default 0 widened))"

definition rte_string_append_u64 :: "rte_string option \<Rightarrow> u64 \<Rightarrow> rte_status \<times> rte_string option" where
  "rte_string_append_u64 dest value =
    (if dest = None then (STATUS_INVALID_PARAM, dest)
     else let digits = rte_string_format_u64_digits value
          in rte_string_append_bytes dest digits (length digits))"

definition rte_string_append_i64 :: "rte_string option \<Rightarrow> i64 \<Rightarrow> rte_status \<times> rte_string option" where
  "rte_string_append_i64 dest value =
    (if dest = None then (STATUS_INVALID_PARAM, dest)
     else rte_string_append_bytes dest (signed_digits value) (length (signed_digits value)))"

definition rte_string_append_u32 :: "rte_string option \<Rightarrow> u32 \<Rightarrow> rte_status \<times> rte_string option" where
  "rte_string_append_u32 dest value =
    (if dest = None then (STATUS_INVALID_PARAM, dest)
     else
       let (st, widened) = rte_cast_u32_to_u64 value (Some 0)
       in if st \<noteq> STATUS_OK then (st, dest) else rte_string_append_u64 dest (the_default 0 widened))"

definition rte_string_append_i32 :: "rte_string option \<Rightarrow> i32 \<Rightarrow> rte_status \<times> rte_string option" where
  "rte_string_append_i32 dest value =
    (if dest = None then (STATUS_INVALID_PARAM, dest)
     else
       let (st, widened) = rte_cast_i32_to_i64 value (Some 0)
       in if st \<noteq> STATUS_OK then (st, dest) else rte_string_append_i64 dest (the_default 0 widened))"

text \<open>The number of hexadecimal digits, counted by the loop that shifts by four.\<close>

function real_digits :: "u32 \<Rightarrow> nat" where
  "real_digits w = (if w > 0x0F then Suc (real_digits (drop_bit 4 w)) else 1)"
  by pat_completeness auto
termination
proof (relation "measure unat")
  fix w :: u32
  assume "w > 0x0F"
  then have "unat w > 15" by (simp add: word_less_nat_alt)
  then have "unat w div 16 < unat w" by simp
  then show "(drop_bit 4 w, w) \<in> measure unat"
    by (simp add: drop_bit_eq_div unat_div)
qed simp

declare real_digits.simps [simp del]

definition hex_lc :: bytes where
  "hex_lc = [0x30, 0x31, 0x32, 0x33, 0x34, 0x35, 0x36, 0x37, 0x38, 0x39, 0x61, 0x62, 0x63, 0x64, 0x65, 0x66]"

definition rte_string_append_hex_u32 ::
  "rte_string option \<Rightarrow> u32 \<Rightarrow> u8 \<Rightarrow> rte_status \<times> rte_string option" where
  "rte_string_append_hex_u32 dest value min_digits =
    (if dest = None then (STATUS_INVALID_PARAM, dest)
     else
       let width = unat min_digits;
           width = (if width < 1 then 1 else width);
           width = (if width > 8 then 8 else width);
           n = (if real_digits value > width then real_digits value else width);
           digit = (\<lambda>i. let shift = n - 1 - i
                        in if shift \<ge> real_digits value then 0x30
                           else hex_lc ! unat (drop_bit (4 * shift) value AND 0x0F))
       in rte_string_append_bytes dest (map digit [0..<n]) n)"

section \<open>Parsing numbers\<close>

text \<open>The loop over the digits with its accumulator.\<close>

fun parse_digits :: "bytes \<Rightarrow> u64 \<Rightarrow> rte_status + u64" where
  "parse_digits [] acc = Inr acc"
| "parse_digits (c # cs) acc =
    (if c < 0x30 \<or> c > 0x39 then Inl STATUS_INVALID_PARAM
     else
       let digit = ucast (c - 0x30)
       in if acc > (- 1 - digit) div 10 then Inl STATUS_VALUE_OUT_OF_RANGE
          else parse_digits cs (acc * 10 + digit))"

definition rte_string_to_u64 :: "rte_string option \<Rightarrow> u64 option \<Rightarrow> rte_status \<times> u64 option" where
  "rte_string_to_u64 str out_value =
    (case (str, out_value) of
       (Some s, Some _) \<Rightarrow>
         if \<not> rte_buffer_is_valid (Some (str_buf s)) then (STATUS_INVALID_PARAM, out_value)
         else if bf_length (str_buf s) = 0 then (STATUS_INVALID_PARAM, out_value)
         else (case parse_digits (str_content s) 0 of
                 Inl st \<Rightarrow> (st, out_value)
               | Inr acc \<Rightarrow> (STATUS_OK, Some acc))
     | _ \<Rightarrow> (STATUS_INVALID_PARAM, out_value))"

definition rte_string_to_i64 :: "rte_string option \<Rightarrow> i64 option \<Rightarrow> rte_status \<times> i64 option" where
  "rte_string_to_i64 str out_value =
    (case (str, out_value) of
       (Some s, Some _) \<Rightarrow>
         if \<not> rte_buffer_is_valid (Some (str_buf s)) then (STATUS_INVALID_PARAM, out_value)
         else if bf_length (str_buf s) = 0 then (STATUS_INVALID_PARAM, out_value)
         else
           let negative = (str_data s ! 0 = 0x2D); start = (if negative then 1 else 0)
           in if start \<ge> bf_length (str_buf s) then (STATUS_INVALID_PARAM, out_value)
              else (case parse_digits (drop start (str_content s)) 0 of
                      Inl st \<Rightarrow> (st, out_value)
                    | Inr acc \<Rightarrow>
                        if negative
                        then
                          let min_magnitude = 0x7FFFFFFFFFFFFFFF + 1
                          in if acc > min_magnitude then (STATUS_VALUE_OUT_OF_RANGE, out_value)
                             else if acc = min_magnitude then (STATUS_OK, Some 0x8000000000000000)
                             else (STATUS_OK, Some (- acc))
                        else if acc > 0x7FFFFFFFFFFFFFFF then (STATUS_VALUE_OUT_OF_RANGE, out_value)
                        else (STATUS_OK, Some acc))
     | _ \<Rightarrow> (STATUS_INVALID_PARAM, out_value))"

definition rte_string_to_u32 :: "rte_string option \<Rightarrow> u32 option \<Rightarrow> rte_status \<times> u32 option" where
  "rte_string_to_u32 str out_value =
    (if out_value = None then (STATUS_INVALID_PARAM, out_value)
     else
       let (st, v) = rte_string_to_u64 str (Some 0)
       in if st \<noteq> STATUS_OK then (st, out_value)
          else rte_cast_u64_to_u32 (the_default 0 v) out_value)"

definition rte_string_to_i32 :: "rte_string option \<Rightarrow> i32 option \<Rightarrow> rte_status \<times> i32 option" where
  "rte_string_to_i32 str out_value =
    (if out_value = None then (STATUS_INVALID_PARAM, out_value)
     else
       let (st, v) = rte_string_to_i64 str (Some 0)
       in if st \<noteq> STATUS_OK then (st, out_value)
          else rte_cast_i64_to_i32 (the_default 0 v) out_value)"

section \<open>Decimal numbers\<close>

text \<open>The value of a list of digits, most significant first, and the reference for the parser.\<close>

definition is_digit :: "u8 \<Rightarrow> bool" where
  "is_digit c \<longleftrightarrow> 0x30 \<le> c \<and> c \<le> 0x39"

definition digit_value :: "u8 \<Rightarrow> nat" where
  "digit_value c = unat c - 48"

definition decimal_value :: "bytes \<Rightarrow> nat" where
  "decimal_value cs = foldl (\<lambda>acc c. acc * 10 + digit_value c) 0 cs"

lemma decimal_value_snoc: "decimal_value (cs @ [c]) = decimal_value cs * 10 + digit_value c"
  by (simp add: decimal_value_def)

lemma digit_of_mod:
  fixes v :: u64
  shows "digit_value (0x30 + ucast (v mod 10)) = unat v mod 10" and "is_digit (0x30 + ucast (v mod 10))"
proof -
  have m: "unat (v mod 10) = unat v mod 10" by (simp add: unat_mod)
  have "unat (ucast (v mod 10) :: u8) = unat v mod 10"
    using m by (simp add: unsigned_ucast_eq take_bit_nat_eq_self)
  then have u: "unat (0x30 + ucast (v mod 10) :: u8) = 48 + unat v mod 10"
    by (simp add: unat_word_ariths(1))
  show "digit_value (0x30 + ucast (v mod 10)) = unat v mod 10" by (simp add: digit_value_def u)
  show "is_digit (0x30 + ucast (v mod 10))" by (simp add: is_digit_def word_le_nat_alt u)
qed

lemma digits_rev_correct:
  "decimal_value (rev (digits_rev v)) = unat v \<and> (\<forall>c \<in> set (digits_rev v). is_digit c) \<and>
    (v \<noteq> 0 \<longrightarrow> digits_rev v \<noteq> [] \<and> 10 ^ (length (digits_rev v) - 1) \<le> unat v)"
proof (induction v rule: digits_rev.induct)
  case (1 v)
  show ?case
  proof (cases "v = 0")
    case True
    then show ?thesis by (simp add: digits_rev.simps [of 0] decimal_value_def)
  next
    case False
    then have pos: "v > 0" by (simp add: word_gt_0)
    note IH = "1" [OF pos]
    have dv: "unat (v div 10) = unat v div 10" by (simp add: unat_div)
    have step: "digits_rev v = (0x30 + ucast (v mod 10)) # digits_rev (v div 10)"
      using pos by (simp add: digits_rev.simps [of v])
    have "10 ^ length (digits_rev (v div 10)) \<le> unat v"
    proof (cases "v div 10 = 0")
      case True
      then show ?thesis using pos
        by (simp add: digits_rev.simps [of 0] unat_gt_0 Suc_le_eq word_gt_0)
    next
      case ne: False
      then have "0 < length (digits_rev (v div 10))" using IH by simp
      then have "10 ^ length (digits_rev (v div 10)) = 10 * 10 ^ (length (digits_rev (v div 10)) - 1)"
        by (simp flip: power_Suc)
      also have "\<dots> \<le> 10 * (unat v div 10)" using IH ne by (simp add: dv)
      also have "\<dots> \<le> unat v" by simp
      finally show ?thesis .
    qed
    then show ?thesis
      using IH digit_of_mod [of v] by (simp add: step decimal_value_snoc dv)
  qed
qed

text \<open>The printed digits: their value, their kind, and room for them in the arrays of 20 bytes.\<close>

lemma format_digits:
  "decimal_value (rte_string_format_u64_digits v) = unat v"
  "\<forall>c \<in> set (rte_string_format_u64_digits v). is_digit c"
  "0 < length (rte_string_format_u64_digits v)" "length (rte_string_format_u64_digits v) \<le> 20"
proof -
  show "decimal_value (rte_string_format_u64_digits v) = unat v"
    "\<forall>c \<in> set (rte_string_format_u64_digits v). is_digit c"
    "0 < length (rte_string_format_u64_digits v)"
    using digits_rev_correct [of v]
    by (auto simp: rte_string_format_u64_digits_def decimal_value_def digit_value_def is_digit_def)
  show "length (rte_string_format_u64_digits v) \<le> 20"
  proof (rule ccontr)
    assume "\<not> length (rte_string_format_u64_digits v) \<le> 20"
    then have v: "v \<noteq> 0" "20 \<le> length (digits_rev v) - 1"
      by (auto simp: rte_string_format_u64_digits_def split: if_splits)
    have "(10 :: nat) ^ 20 \<le> 10 ^ (length (digits_rev v) - 1)" using v(2) by (intro power_increasing) simp_all
    also have "\<dots> \<le> unat v" using digits_rev_correct [of v] v(1) by simp
    also have "\<dots> < 2 ^ 64" using unsigned_less [of v] by simp
    finally show False by simp
  qed
qed

lemma digit_step:
  fixes acc :: u64
  assumes "is_digit c"
  shows "\<not> (c < 0x30 \<or> c > 0x39)" and "unat (ucast (c - 0x30) :: u64) = digit_value c"
    and "acc > (- 1 - ucast (c - 0x30)) div 10 \<longleftrightarrow> 2 ^ 64 \<le> unat acc * 10 + digit_value c"
    and "unat acc * 10 + digit_value c < 2 ^ 64 \<Longrightarrow>
      unat (acc * 10 + ucast (c - 0x30)) = unat acc * 10 + digit_value c"
proof -
  have c: "48 \<le> unat c" "unat c \<le> 57" using assms by (simp_all add: is_digit_def word_le_nat_alt)
  show "\<not> (c < 0x30 \<or> c > 0x39)" using c by (simp add: word_less_nat_alt)
  have "unat (c - 0x30) = unat c - 48" using c by (simp add: unat_sub word_le_nat_alt)
  then show d: "unat (ucast (c - 0x30) :: u64) = digit_value c"
    using c by (simp add: unsigned_ucast_eq take_bit_nat_eq_self digit_value_def)
  have small: "digit_value c \<le> 9" using c by (simp add: digit_value_def)
  have max: "unat (- 1 :: u64) = 18446744073709551615"
    by (simp add: unsigned_minus_1_eq_mask mask_eq_exp_minus_1)
  have "unat (- 1 - ucast (c - 0x30) :: u64) = 18446744073709551615 - digit_value c"
    using small by (subst unat_sub) (simp_all add: word_le_nat_alt d max)
  then have "unat ((- 1 - ucast (c - 0x30)) div 10 :: u64) = (18446744073709551615 - digit_value c) div 10"
    by (simp add: unat_div)
  then show "acc > (- 1 - ucast (c - 0x30)) div 10 \<longleftrightarrow> 2 ^ 64 \<le> unat acc * 10 + digit_value c"
    using small by (simp add: word_less_nat_alt less_eq_div_iff_mult_less_eq flip: not_le) linarith
  assume fits: "unat acc * 10 + digit_value c < 2 ^ 64"
  have "unat (acc * 10) = unat acc * 10" using fits by (simp add: unat_word_ariths(2))
  then show "unat (acc * 10 + ucast (c - 0x30)) = unat acc * 10 + digit_value c"
    using fits by (simp add: unat_word_ariths(1) d)
qed

lemma fold_digits_ge: "n \<le> foldl (\<lambda>acc c. acc * 10 + digit_value c) n cs"
proof (induction cs arbitrary: n)
  case (Cons c cs)
  have "n \<le> n * 10 + digit_value c" by simp
  also have "\<dots> \<le> foldl (\<lambda>acc c. acc * 10 + digit_value c) (n * 10 + digit_value c) cs" by (rule Cons.IH)
  finally show ?case by simp
qed simp

lemma parse_digits_correct:
  assumes "\<forall>c \<in> set cs. is_digit c"
  shows "parse_digits cs acc =
    (let n = foldl (\<lambda>acc c. acc * 10 + digit_value c) (unat acc) cs
     in if n < 2 ^ 64 then Inr (of_nat n) else Inl STATUS_VALUE_OUT_OF_RANGE)"
  using assms
proof (induction cs arbitrary: acc)
  case Nil
  have "unat acc < 2 ^ 64" using unsigned_less [of acc] by simp
  then show ?case by (simp add: Let_def)
next
  case (Cons c cs)
  then have c: "is_digit c" by simp
  show ?case
  proof (cases "unat acc * 10 + digit_value c < 2 ^ 64")
    case True
    then have "parse_digits (c # cs) acc = parse_digits cs (acc * 10 + ucast (c - 0x30))"
      using digit_step(1) [OF c] digit_step(3) [OF c, of acc] by (simp add: Let_def)
    also have "\<dots> = (let n = foldl (\<lambda>acc c. acc * 10 + digit_value c) (unat acc) (c # cs)
        in if n < 2 ^ 64 then Inr (of_nat n) else Inl STATUS_VALUE_OUT_OF_RANGE)"
      using Cons.IH [of "acc * 10 + ucast (c - 0x30)"] Cons.prems digit_step(4) [OF c True] by simp
    finally show ?thesis .
  next
    case False
    then have "\<not> foldl (\<lambda>acc c. acc * 10 + digit_value c) (unat acc) (c # cs) < 2 ^ 64"
      using fold_digits_ge [of "unat acc * 10 + digit_value c" cs] by simp
    then show ?thesis using digit_step(1) [OF c] digit_step(3) [OF c, of acc] False by (simp add: Let_def)
  qed
qed

lemma parse_digits_bad: "\<not> (\<forall>c \<in> set cs. is_digit c) \<Longrightarrow> \<exists>st. parse_digits cs acc = Inl st \<and> st \<noteq> STATUS_OK"
proof (induction cs arbitrary: acc)
  case (Cons c cs)
  then show ?case
    by (cases "is_digit c") (auto simp: Let_def is_digit_def not_le)
qed simp

lemma parse_digits_iff:
  "parse_digits cs 0 = Inr v \<longleftrightarrow>
    (\<forall>c \<in> set cs. is_digit c) \<and> decimal_value cs < 2 ^ 64 \<and> v = of_nat (decimal_value cs)"
  using parse_digits_bad [of cs 0] parse_digits_correct [of cs 0]
  by (cases "\<forall>c \<in> set cs. is_digit c") (auto simp: decimal_value_def Let_def split: if_splits)

lemma parse_digits_error: "parse_digits cs acc = Inl st \<Longrightarrow> st \<noteq> STATUS_OK"
  using parse_digits_bad [of cs acc] parse_digits_correct [of cs acc]
  by (cases "\<forall>c \<in> set cs. is_digit c") (auto simp: Let_def split: if_splits)

lemma parse_format: "parse_digits (rte_string_format_u64_digits v) 0 = Inr v"
proof -
  have "unat v < 2 ^ 64" using unsigned_less [of v] by simp
  then show ?thesis using format_digits [of v] by (simp add: parse_digits_iff)
qed

section \<open>Strings as character lists\<close>

lemma content_data: "wf_buffer (str_buf s) \<Longrightarrow> length (str_content s) = bf_length (str_buf s)"
  by (auto simp: str_content_def str_data_def wf_buffer_def split: option.splits)

lemma copy_n_content:
  assumes "wf_buffer (str_buf s)" "length cs \<le> bf_capacity (str_buf s)"
  obtains s' where "rte_string_copy_n (Some s) (Some cs) (length cs) = (STATUS_OK, Some s')"
    "str_content s' = cs" "wf_buffer (str_buf s')" "bf_capacity (str_buf s') = bf_capacity (str_buf s)"
proof -
  obtain d where d: "bf_data (str_buf s) = Some d" "length d = bf_capacity (str_buf s)"
    using assms(1) by (auto simp: wf_buffer_def split: option.splits)
  let ?s = "s\<lparr>str_buf := (str_buf s)\<lparr>bf_data := Some (copy_at 0 cs d), bf_length := length cs\<rparr>\<rparr>"
  show thesis
  proof (rule that [of ?s])
    show "rte_string_copy_n (Some s) (Some cs) (length cs) = (STATUS_OK, Some ?s)"
      using assms(2) by (simp add: rte_string_copy_n_def rte_buffer_copy_in_def d)
    show "str_content ?s = cs" by (simp add: str_content_def str_data_def copy_at_def)
    show "wf_buffer (str_buf ?s)" using assms(2) d by (simp add: wf_buffer_def copy_at_def)
  qed simp
qed

lemma to_u64_content:
  assumes "wf_buffer (str_buf s)"
  shows "rte_string_to_u64 (Some s) (Some old) =
    (if str_content s = [] then (STATUS_INVALID_PARAM, Some old)
     else case parse_digits (str_content s) 0 of Inl st \<Rightarrow> (st, Some old) | Inr v \<Rightarrow> (STATUS_OK, Some v))"
  using content_data [OF assms] wf_buffer_valid [OF assms]
  by (auto simp: rte_string_to_u64_def)

lemma to_i64_content:
  assumes "wf_buffer (str_buf s)" "str_content s = c # cs"
  shows "rte_string_to_i64 (Some s) (Some old) =
    (if c = 0x2D then
       if cs = [] then (STATUS_INVALID_PARAM, Some old)
       else (case parse_digits cs 0 of Inl st \<Rightarrow> (st, Some old)
             | Inr acc \<Rightarrow> if acc > 0x8000000000000000 then (STATUS_VALUE_OUT_OF_RANGE, Some old)
                          else (STATUS_OK, Some (- acc)))
     else (case parse_digits (c # cs) 0 of Inl st \<Rightarrow> (st, Some old)
             | Inr acc \<Rightarrow> if acc > 0x7FFFFFFFFFFFFFFF then (STATUS_VALUE_OUT_OF_RANGE, Some old)
                          else (STATUS_OK, Some acc)))"
proof -
  have len: "bf_length (str_buf s) = Suc (length cs)" using content_data [OF assms(1)] assms(2) by simp
  have "str_content s ! 0 = str_data s ! 0" using len by (simp add: str_content_def)
  then have first: "str_data s ! 0 = c" using assms(2) by simp
  show ?thesis using wf_buffer_valid [OF assms(1)]
    by (auto simp: rte_string_to_i64_def len first assms(2) Let_def split: sum.splits)
qed

lemma sint_i64: "sint (w :: i64) = (if uint w < 2 ^ 63 then uint w else uint w - 2 ^ 64)"
proof -
  let ?v = "if uint w < 2 ^ 63 then uint w else uint w - 2 ^ 64"
  have "- 9223372036854775808 \<le> ?v" "?v < 9223372036854775808"
    using uint_u64_bound [of w] by (auto intro: order_trans [OF _ uint_ge_0])
  then have "sint (word_of_int ?v :: i64) = ?v"
    by (intro sint_values(1)) simp_all
  moreover have "word_of_int ?v = w"
  proof (cases "uint w < 2 ^ 63")
    case False
    have "word_of_int (uint w - 2 ^ 64) = (word_of_int (uint w) :: i64) - word_of_int (2 ^ 64)"
      by (rule of_int_diff)
    also have "(word_of_int (2 ^ 64) :: i64) = 0" by simp
    finally show ?thesis using False by simp
  qed simp
  ultimately show ?thesis by simp
qed

lemma magnitude_bounds:
  "sint v < 0 \<Longrightarrow> magnitude_i64 v = - v \<and> \<not> magnitude_i64 v > 0x8000000000000000"
  "\<not> sint v < 0 \<Longrightarrow> magnitude_i64 v = v \<and> \<not> v > 0x7FFFFFFFFFFFFFFF"
proof -
  assume neg: "sint v < 0"
  have m: "magnitude_i64 v = - v" using neg by (simp add: magnitude_i64_def)
  have "2 ^ 63 \<le> uint v" "v \<noteq> 0" using neg by (auto simp: sint_i64 split: if_splits)
  moreover have "uint (- v) = 2 ^ 64 - uint v"
    using \<open>2 ^ 63 \<le> uint v\<close> uint_bounded [of v] by (simp add: uint_word_ariths(4) zmod_zminus1_eq_if)
  ultimately show "magnitude_i64 v = - v \<and> \<not> magnitude_i64 v > 0x8000000000000000"
    by (simp add: m word_less_def)
next
  assume "\<not> sint v < 0"
  then show "magnitude_i64 v = v \<and> \<not> v > 0x7FFFFFFFFFFFFFFF"
    using uint_bounded [of v] by (auto simp: magnitude_i64_def sint_i64 word_less_def split: if_splits)
qed

lemma signed_digits_length: "0 < length (signed_digits v)" "length (signed_digits v) \<le> 20"
proof -
  show "0 < length (signed_digits v)" using format_digits(3) by (simp add: signed_digits_def)
  show "length (signed_digits v) \<le> 20"
  proof (cases "sint v < 0")
    case True
    have "length (rte_string_format_u64_digits (magnitude_i64 v)) \<le> 19"
    proof (rule ccontr)
      let ?m = "magnitude_i64 v"
      assume "\<not> length (rte_string_format_u64_digits ?m) \<le> 19"
      then have m: "?m \<noteq> 0" "19 \<le> length (digits_rev ?m) - 1"
        by (auto simp: rte_string_format_u64_digits_def split: if_splits)
      have "(10 :: nat) ^ 19 \<le> 10 ^ (length (digits_rev ?m) - 1)" using m(2) by (intro power_increasing) simp_all
      also have "\<dots> \<le> unat ?m" using digits_rev_correct [of ?m] m(1) by simp
      also have "\<dots> \<le> 2 ^ 63" using conjunct2 [OF magnitude_bounds(1) [OF True]]
        by (simp add: word_less_nat_alt not_less)
      finally show False by simp
    qed
    then show ?thesis using True by (simp add: signed_digits_def)
  next
    case False
    then show ?thesis using format_digits(4) by (simp add: signed_digits_def)
  qed
qed

lemma i64_round_trip:
  assumes "wf_buffer (str_buf s)" "str_content s = signed_digits v"
  shows "rte_string_to_i64 (Some s) (Some old) = (STATUS_OK, Some v)"
proof (cases "sint v < 0")
  case True
  then have c: "str_content s = 0x2D # rte_string_format_u64_digits (magnitude_i64 v)"
    using assms(2) by (simp add: signed_digits_def)
  have mag: "magnitude_i64 v = - v" "\<not> - v > 0x8000000000000000"
    using magnitude_bounds(1) [OF True] by auto
  show ?thesis using mag(2) format_digits(3) [of "- v"]
    by (simp add: to_i64_content [OF assms(1) c] parse_format mag(1))
next
  case False
  then have plain: "str_content s = rte_string_format_u64_digits v"
    using assms(2) magnitude_bounds(2) [OF False] by (simp add: signed_digits_def)
  then obtain c cs where c: "str_content s = c # cs" "rte_string_format_u64_digits v = c # cs"
    using format_digits(3) [of v] by (cases "rte_string_format_u64_digits v") auto
  have "is_digit c" using format_digits(2) [of v] c(2) by simp
  then have "c \<noteq> 0x2D" by (auto simp: is_digit_def)
  then show ?thesis using magnitude_bounds(2) [OF False] parse_format [of v]
    by (simp add: to_i64_content [OF assms(1) c(1)] c(2))
qed

lemma widened_u32: "rte_cast_u32_to_u64 v (Some 0) = (STATUS_OK, Some (ucast v))"
  and widened_i32: "rte_cast_i32_to_i64 w (Some 0) = (STATUS_OK, Some (scast w))"
  by (simp_all add: rte_cast_u32_to_u64_def rte_cast_i32_to_i64_def)

lemma narrowed_u32: "rte_cast_u64_to_u32 (ucast v) (Some old) = (STATUS_OK, Some v)"
  by (rule cast_round_trip [OF exact_u32_to_u64 exact_u64_to_u32 _ widened_u32])
    (rule injI, rule unsigned_word_eqI)

lemma narrowed_i32: "rte_cast_i64_to_i32 (scast v) (Some old) = (STATUS_OK, Some v)"
  by (rule cast_round_trip [OF exact_i32_to_i64 exact_i64_to_i32 _ widened_i32])
    (rule injI, rule signed_word_eqI)

section \<open>Properties\<close>

text \<open>Numbers survive their decimal form: what the four conversions write into a string with room for
  20 characters the matching parsers read back, for every value of the type, the least signed one
  included.\<close>

theorem decimal_round_trip:
  assumes "wf_buffer (str_buf s)" "20 \<le> bf_capacity (str_buf s)"
  shows "(\<exists>s'. rte_string_from_u64 (Some s) a = (STATUS_OK, Some s') \<and>
      rte_string_to_u64 (Some s') (Some x) = (STATUS_OK, Some a)) \<and>
    (\<exists>s'. rte_string_from_i64 (Some s) b = (STATUS_OK, Some s') \<and>
      rte_string_to_i64 (Some s') (Some y) = (STATUS_OK, Some b)) \<and>
    (\<exists>s'. rte_string_from_u32 (Some s) c = (STATUS_OK, Some s') \<and>
      rte_string_to_u32 (Some s') (Some z) = (STATUS_OK, Some c)) \<and>
    (\<exists>s'. rte_string_from_i32 (Some s) d = (STATUS_OK, Some s') \<and>
      rte_string_to_i32 (Some s') (Some w) = (STATUS_OK, Some d))"
proof -
  have u: "\<exists>s'. rte_string_from_u64 (Some s) v = (STATUS_OK, Some s') \<and>
      (\<forall>old. rte_string_to_u64 (Some s') (Some old) = (STATUS_OK, Some v))" for v
  proof -
    have fits: "length (rte_string_format_u64_digits v) \<le> bf_capacity (str_buf s)"
      using format_digits(4) [of v] assms(2) by simp
    obtain s' where "rte_string_copy_n (Some s) (Some (rte_string_format_u64_digits v))
        (length (rte_string_format_u64_digits v)) = (STATUS_OK, Some s')"
      "str_content s' = rte_string_format_u64_digits v" "wf_buffer (str_buf s')"
      by (rule copy_n_content [OF assms(1) fits])
    then show ?thesis using format_digits(3) [of v]
      by (simp add: rte_string_from_u64_def to_u64_content parse_format)
  qed
  have i: "\<exists>s'. rte_string_from_i64 (Some s) v = (STATUS_OK, Some s') \<and>
      (\<forall>old. rte_string_to_i64 (Some s') (Some old) = (STATUS_OK, Some v))" for v
  proof -
    have fits: "length (signed_digits v) \<le> bf_capacity (str_buf s)"
      using signed_digits_length(2) [of v] assms(2) by simp
    obtain s' where "rte_string_copy_n (Some s) (Some (signed_digits v)) (length (signed_digits v)) =
        (STATUS_OK, Some s')" "str_content s' = signed_digits v" "wf_buffer (str_buf s')"
      by (rule copy_n_content [OF assms(1) fits])
    then show ?thesis by (simp add: rte_string_from_i64_def i64_round_trip)
  qed
  show ?thesis
    using u [of a] i [of b] u [of "ucast c"] i [of "scast d"]
    by (auto simp: rte_string_from_u32_def rte_string_to_u32_def rte_string_from_i32_def
        rte_string_to_i32_def widened_u32 widened_i32 narrowed_u32 narrowed_i32)
qed

definition sample_string :: rte_string where
  "sample_string = \<lparr>str_buf = \<lparr>bf_data = Some (replicate 24 0), bf_capacity = 24, bf_length = 0\<rparr>\<rparr>"

theorem decimal_round_trip_witness:
  "\<exists>s'. rte_string_from_i64 (Some sample_string) 0x8000000000000000 = (STATUS_OK, Some s') \<and>
      rte_string_to_i64 (Some s') (Some 0) = (STATUS_OK, Some 0x8000000000000000)"
  using decimal_round_trip [of sample_string 0 0 "0x8000000000000000" 0 0 0 0 0]
  by (simp add: sample_string_def wf_buffer_def)

text \<open>The parser accepts exactly the decimal numerals below two to the 64: one or more digits and
  nothing else, whose value fits; it returns that value, and on anything else an error, leaving the
  caller's variable.\<close>

theorem decimal_parse_exact:
  assumes "wf_buffer (str_buf s)"
  shows "if str_content s \<noteq> [] \<and> (\<forall>c \<in> set (str_content s). is_digit c) \<and>
      decimal_value (str_content s) < 2 ^ 64
    then rte_string_to_u64 (Some s) (Some old) = (STATUS_OK, Some (of_nat (decimal_value (str_content s))))
    else \<exists>status. status \<noteq> STATUS_OK \<and> rte_string_to_u64 (Some s) (Some old) = (status, Some old)"
proof (cases "parse_digits (str_content s) 0")
  case (Inl st)
  then have "\<not> ((\<forall>c \<in> set (str_content s). is_digit c) \<and> decimal_value (str_content s) < 2 ^ 64)"
    using parse_digits_iff [of "str_content s"] by auto
  then show ?thesis using parse_digits_error [OF Inl] by (auto simp: to_u64_content [OF assms] Inl)
next
  case (Inr v)
  then show ?thesis using parse_digits_iff [of "str_content s" v]
    by (auto simp: to_u64_content [OF assms])
qed

theorem decimal_parse_exact_witness:
  "rte_string_to_u64 (Some (sample_string\<lparr>str_buf := \<lparr>bf_data = Some [0x34, 0x32, 0], bf_capacity = 3,
      bf_length = 2\<rparr>\<rparr>)) (Some 7) = (STATUS_OK, Some 42)"
  using decimal_parse_exact [of "sample_string\<lparr>str_buf := \<lparr>bf_data = Some [0x34, 0x32, 0],
      bf_capacity = 3, bf_length = 2\<rparr>\<rparr>" 7]
  by (simp add: wf_buffer_def str_content_def str_data_def is_digit_def decimal_value_def
      digit_value_def)

end
