(* ===== verification/Log_Event.thy ===== *)
theory Log_Event
  imports Rte_String Oal_Services
begin

text \<open>
  The structured events of \<^verbatim>\<open>src/oal/log/rte_log.c\<close>: the line of key-value pairs that an
  event is written as, and the builder for its extra fields. The plain part of the file is in the
  theory of the platform state. A C string is the byte list of its array with the NUL in it; the
  local arrays start with bytes that nothing reads, zeros here.
\<close>

section \<open>Texts\<close>

definition LOG_EVENT_LINE_MAX_LEN :: nat where "LOG_EVENT_LINE_MAX_LEN = 256"

definition text_bytes :: "string \<Rightarrow> bytes" where
  "text_bytes t = map of_char t"

definition c_text :: "string \<Rightarrow> bytes" where
  "c_text t = text_bytes t @ [0]"

definition text_of :: "bytes \<Rightarrow> string" where
  "text_of b = map (\<lambda>c. char_of (unat c)) (takeWhile (\<lambda>c. c \<noteq> 0) b)"

definition opt_text :: "string option \<Rightarrow> bytes" where
  "opt_text t = c_text (case t of None \<Rightarrow> '''' | Some v \<Rightarrow> v)"

section \<open>The line of an event\<close>

text \<open>A concatenation whose status the code drops.\<close>

definition add_text :: "rte_string \<Rightarrow> bytes \<Rightarrow> rte_string" where
  "add_text line t = the_default line (snd (rte_string_concat (Some line) (Some t)))"

definition local_string :: "nat \<Rightarrow> rte_string" where
  "local_string n = the_default \<lparr>str_buf = \<lparr>bf_data = None, bf_capacity = 0, bf_length = 0\<rparr>\<rparr>
     (snd (rte_string_init (Some \<lparr>str_buf = \<lparr>bf_data = None, bf_capacity = 0, bf_length = 0\<rparr>\<rparr>)
        (Some (replicate n 0)) n))"

definition rte_log_append_event_field :: "rte_string \<Rightarrow> string \<Rightarrow> bytes option \<Rightarrow> rte_string" where
  "rte_log_append_event_field line key value =
    add_text (add_text (add_text (add_text line (c_text '' '')) (c_text key)) (c_text ''=''))
      (case value of None \<Rightarrow> c_text '''' | Some v \<Rightarrow> v)"

definition rte_log_append_event_field_u32 :: "rte_string \<Rightarrow> string \<Rightarrow> u32 \<Rightarrow> rte_string" where
  "rte_log_append_event_field_u32 line key value =
    (let num = the_default (local_string 16) (snd (rte_string_from_u32 (Some (local_string 16)) value));
         (_, num_cstr, _) = rte_string_c_str (Some num) True
     in rte_log_append_event_field line key num_cstr)"

text \<open>The line that is built once the time is known.\<close>

definition build_event_line ::
  "rte_log_level \<Rightarrow> string option \<Rightarrow> u64 \<Rightarrow> u32 \<Rightarrow> string option \<Rightarrow> string option \<Rightarrow> string option \<Rightarrow>
    string option \<Rightarrow> string option \<Rightarrow> rte_string" where
  "build_event_line level site now_ms cycle source destination type info extra_fields =
    (let line = local_string LOG_EVENT_LINE_MAX_LEN;
         line = add_text line (c_text ''Site='');
         line = add_text line (opt_text site);
         ts = the_default (local_string 24) (snd (rte_string_from_u64 (Some (local_string 24)) now_ms));
         (_, ts_cstr, _) = rte_string_c_str (Some ts) True;
         line = rte_log_append_event_field line ''Timestamp''
           (case ts_cstr of None \<Rightarrow> Some (c_text ''0'') | Some t \<Rightarrow> Some t);
         line = rte_log_append_event_field line ''Level'' (Some (c_text (rte_log_level_to_string level)));
         line = rte_log_append_event_field_u32 line ''Cycle'' cycle;
         line = rte_log_append_event_field line ''Source'' (map_option c_text source);
         line = rte_log_append_event_field line ''Destination'' (map_option c_text destination);
         line = rte_log_append_event_field line ''Type'' (map_option c_text type);
         line = rte_log_append_event_field line ''Info'' (map_option c_text info)
     in case extra_fields of None \<Rightarrow> line
        | Some e \<Rightarrow> if e = '''' then line else add_text (add_text line (c_text '' '')) (c_text e))"

definition rte_log_write_event ::
  "rte_log_level \<Rightarrow> string option \<Rightarrow> u32 \<Rightarrow> string option \<Rightarrow> string option \<Rightarrow> string option \<Rightarrow>
    string option \<Rightarrow> string option \<Rightarrow> 'x rte \<Rightarrow> 'x rte" where
  "rte_log_write_event level site cycle source destination type info extra_fields s =
    (case s_log s of None \<Rightarrow> s
     | Some a \<Rightarrow> (case log_write a of None \<Rightarrow> s
       | Some write \<Rightarrow>
           if log_level_value level < log_level_value (s_min_level s) then s
           else
             let (_, now_ms, s1) = rte_timer_now s;
                 line = build_event_line level site now_ms cycle source destination type info extra_fields;
                 (_, line_cstr, _) = rte_string_c_str (Some line) True
             in s1\<lparr>ext := write level source
                  (case line_cstr of None \<Rightarrow> '''' | Some t \<Rightarrow> text_of t) (ext s1)\<rparr>))"

section \<open>The builder of extra fields\<close>

record rte_log_fields =
  lf_str :: rte_string

definition rte_log_fields_reset :: "rte_log_fields option \<Rightarrow> rte_log_fields option" where
  "rte_log_fields_reset builder =
    (case builder of None \<Rightarrow> None
     | Some f \<Rightarrow> Some (f\<lparr>lf_str := the_default (lf_str f)
         (snd (rte_string_init (Some (lf_str f))
            (Some (replicate LOG_EVENT_LINE_MAX_LEN 0)) LOG_EVENT_LINE_MAX_LEN))\<rparr>))"

definition rte_log_fields_begin_pair ::
  "rte_log_fields option \<Rightarrow> string option \<Rightarrow> bool \<times> rte_log_fields option" where
  "rte_log_fields_begin_pair builder key =
    (case (builder, key) of
       (Some f, Some k) \<Rightarrow>
         let str = (if rte_string_length (Some (lf_str f)) > 0 then add_text (lf_str f) (c_text '' '')
                    else lf_str f)
         in (True, Some (f\<lparr>lf_str := add_text (add_text str (c_text k)) (c_text ''='')\<rparr>))
     | _ \<Rightarrow> (False, builder))"

text \<open>The common frame of the additions: a pair that begins, and an append whose status is dropped.\<close>

definition add_pair ::
  "rte_log_fields option \<Rightarrow> string option \<Rightarrow> (rte_string \<Rightarrow> rte_status \<times> rte_string option) \<Rightarrow>
    rte_log_fields option" where
  "add_pair builder key put =
    (case rte_log_fields_begin_pair builder key of
       (True, Some f) \<Rightarrow> Some (f\<lparr>lf_str := the_default (lf_str f) (snd (put (lf_str f)))\<rparr>)
     | (_, fs) \<Rightarrow> fs)"

definition rte_log_fields_add_str ::
  "rte_log_fields option \<Rightarrow> string option \<Rightarrow> string option \<Rightarrow> rte_log_fields option" where
  "rte_log_fields_add_str builder key value =
    add_pair builder key (\<lambda>str. rte_string_concat (Some str) (Some (opt_text value)))"

definition rte_log_fields_add_u32 ::
  "rte_log_fields option \<Rightarrow> string option \<Rightarrow> u32 \<Rightarrow> rte_log_fields option" where
  "rte_log_fields_add_u32 builder key value =
    add_pair builder key (\<lambda>str. rte_string_append_u32 (Some str) value)"

definition rte_log_fields_add_i32 ::
  "rte_log_fields option \<Rightarrow> string option \<Rightarrow> i32 \<Rightarrow> rte_log_fields option" where
  "rte_log_fields_add_i32 builder key value =
    add_pair builder key (\<lambda>str. rte_string_append_i32 (Some str) value)"

definition rte_log_fields_add_u64 ::
  "rte_log_fields option \<Rightarrow> string option \<Rightarrow> u64 \<Rightarrow> rte_log_fields option" where
  "rte_log_fields_add_u64 builder key value =
    add_pair builder key (\<lambda>str. rte_string_append_u64 (Some str) value)"

definition rte_log_fields_add_i64 ::
  "rte_log_fields option \<Rightarrow> string option \<Rightarrow> i64 \<Rightarrow> rte_log_fields option" where
  "rte_log_fields_add_i64 builder key value =
    add_pair builder key (\<lambda>str. rte_string_append_i64 (Some str) value)"

definition rte_log_fields_add_hex_u32 ::
  "rte_log_fields option \<Rightarrow> string option \<Rightarrow> u32 \<Rightarrow> u8 \<Rightarrow> rte_log_fields option" where
  "rte_log_fields_add_hex_u32 builder key value min_digits =
    add_pair builder key (\<lambda>str.
      let str1 = add_text str (c_text ''0x'')
      in case rte_string_append_hex_u32 (Some str1) value min_digits of
           (st, r) \<Rightarrow> (st, Some (the_default str1 r)))"

definition rte_log_fields_add_bool ::
  "rte_log_fields option \<Rightarrow> string option \<Rightarrow> bool \<Rightarrow> rte_log_fields option" where
  "rte_log_fields_add_bool builder key value =
    add_pair builder key (\<lambda>str. rte_string_concat (Some str)
      (Some (c_text (if value then ''true'' else ''false''))))"

text \<open>The text, and the builder, in whose storage the NUL is written.\<close>

definition rte_log_fields_c_str :: "rte_log_fields option \<Rightarrow> string \<times> rte_log_fields option" where
  "rte_log_fields_c_str builder =
    (case builder of None \<Rightarrow> ('''', None)
     | Some f \<Rightarrow>
         (case rte_string_c_str (Some (lf_str f)) True of
            (status, Some t, Some str) \<Rightarrow>
              (if status = STATUS_OK then text_of t else '''', Some (f\<lparr>lf_str := str\<rparr>))
          | _ \<Rightarrow> ('''', Some f)))"

definition rte_log_write_event_fields ::
  "rte_log_level \<Rightarrow> string option \<Rightarrow> u32 \<Rightarrow> string option \<Rightarrow> string option \<Rightarrow> string option \<Rightarrow>
    string option \<Rightarrow> rte_log_fields option \<Rightarrow> 'x rte \<Rightarrow> rte_log_fields option \<times> 'x rte" where
  "rte_log_write_event_fields level site cycle source destination type info builder s =
    (let (text, builder1) = rte_log_fields_c_str builder
     in (builder1, rte_log_write_event level site cycle source destination type info (Some text) s))"

section \<open>What a concatenation leaves\<close>

lemma scan_nul_found:
  assumes "0 \<notin> set cs" "length cs \<le> limit"
  shows "scan_nul limit (cs @ 0 # rest) = Some (length cs)"
proof -
  have "take (Suc limit) (cs @ 0 # rest) = cs @ 0 # take (limit - length cs) rest"
    using assms(2) by (simp add: Suc_diff_le)
  moreover have "takeWhile (\<lambda>c. c \<noteq> 0) (cs @ 0 # take (limit - length cs) rest) = cs"
    using assms(1) by (subst takeWhile_append2) auto
  ultimately show ?thesis by (simp add: scan_nul_def Let_def)
qed

lemma scan_nul_missed:
  assumes "0 \<notin> set cs" "limit < length cs"
  shows "scan_nul limit (cs @ rest) = None"
proof -
  have w: "take (Suc limit) (cs @ rest) = take (Suc limit) cs" using assms(2) by simp
  have t: "takeWhile (\<lambda>c. c \<noteq> 0) (take (Suc limit) cs) = take (Suc limit) cs"
    using assms(1) by (auto simp: takeWhile_eq_all_conv dest: in_set_takeD)
  show ?thesis unfolding scan_nul_def Let_def w t by simp
qed

text \<open>A line of the given size that holds the given characters.\<close>

definition holds :: "nat \<Rightarrow> bytes \<Rightarrow> rte_string \<Rightarrow> bool" where
  "holds n cs line \<longleftrightarrow> wf_buffer (str_buf line) \<and> bf_capacity (str_buf line) = n \<and> str_content line = cs"

lemma holdsE:
  assumes "holds n cs line"
  obtains d where "bf_data (str_buf line) = Some d" "length d = n" "take (length cs) d = cs"
    "bf_length (str_buf line) = length cs" "length cs \<le> n" "bf_capacity (str_buf line) = n"
proof -
  have wf: "wf_buffer (str_buf line)" and cap: "bf_capacity (str_buf line) = n"
    and c: "str_content line = cs" using assms by (simp_all add: holds_def)
  obtain d where d: "bf_data (str_buf line) = Some d" "length d = n"
    using wf cap by (auto simp: wf_buffer_def split: option.splits)
  have len: "bf_length (str_buf line) = length cs" using content_data [OF wf] c by simp
  show thesis
  proof (rule that [OF d])
    show "take (length cs) d = cs" using c by (simp add: str_content_def str_data_def d len)
    show "length cs \<le> n" using wf cap len by (simp add: wf_buffer_def)
  qed (rule len, rule cap)
qed

lemma local_string_holds: "0 < n \<Longrightarrow> holds n [] (local_string n)"
  by (simp add: local_string_def rte_string_init_def rte_buffer_init_def holds_def wf_buffer_def
      str_content_def)

lemma put_behind_holds:
  assumes "holds n cs line" "length cs + length t \<le> n"
  shows "holds n (cs @ t) (put_behind line (t @ rest) (length t))"
proof -
  obtain d where d: "bf_data (str_buf line) = Some d" "length d = n" "take (length cs) d = cs"
    "bf_length (str_buf line) = length cs" "bf_capacity (str_buf line) = n"
    using holdsE [OF assms(1)] by metis
  have "take (length cs + length t) (copy_at (length cs) t d) = cs @ t"
    using assms(2) d by (simp add: copy_at_def)
  then show ?thesis using assms(2) d
    by (simp add: holds_def put_behind_def wf_buffer_def str_content_def str_data_def)
qed

lemma holds_valid: "holds n cs line \<Longrightarrow> rte_buffer_is_valid (Some (str_buf line))"
  by (simp add: holds_def wf_buffer_valid)

lemma add_text_holds:
  assumes "holds n cs line" "0 \<notin> set t"
  shows "holds n (if length cs + length t \<le> n then cs @ t else cs) (add_text line (t @ 0 # rest))"
proof -
  obtain d where d: "bf_length (str_buf line) = length cs" "length cs \<le> n" "bf_capacity (str_buf line) = n"
    using holdsE [OF assms(1)] by metis
  show ?thesis
  proof (cases "length cs + length t \<le> n")
    case True
    then have "scan_nul (n - length cs) (t @ 0 # rest) = Some (length t)"
      using scan_nul_found [OF assms(2)] by simp
    then have "add_text line (t @ 0 # rest) = put_behind line (t @ 0 # rest) (length t)"
      by (simp add: add_text_def rte_string_concat_def holds_valid [OF assms(1)] d)
    then show ?thesis using put_behind_holds [OF assms(1) True] True by simp
  next
    case False
    then have "scan_nul (n - length cs) (t @ 0 # rest) = None"
      using scan_nul_missed [OF assms(2)] d(2) by simp
    then have "add_text line (t @ 0 # rest) = line"
      by (simp add: add_text_def rte_string_concat_def holds_valid [OF assms(1)] d)
    then show ?thesis using assms(1) False by simp
  qed
qed

section \<open>Characters and bytes\<close>

lemma unat_of_char [simp]: "unat (of_char c :: u8) = (of_char c :: nat)"
proof -
  have "(of_char c :: u8) = of_nat (of_char c)" by (simp only: of_nat_of_char)
  then show ?thesis using nat_of_char_less_256 [of c] by (simp only: unat_of_nat) simp
qed

lemma of_char_byte [simp]: "char_of (unat (of_char c :: u8)) = c"
  by simp

definition no_nul :: "string \<Rightarrow> bool" where
  "no_nul t \<longleftrightarrow> char_of (0::nat) \<notin> set t"

lemma nul_char: "char_of (0::nat) = CHR 0x00"
  by (simp add: char_of_def)

lemma of_char_zero: "(of_char c :: u8) = 0 \<longleftrightarrow> c = char_of (0::nat)"
proof
  assume "(of_char c :: u8) = 0"
  then have "unat (of_char c :: u8) = 0" by simp
  then show "c = char_of (0::nat)" by (metis of_char_byte unat_of_char)
next
  assume "c = char_of (0::nat)"
  then have zero: "(of_char c :: nat) = 0" by simp
  have "(of_char c :: u8) = of_nat (of_char c)" by (simp only: of_nat_of_char)
  also have "\<dots> = 0" unfolding zero by simp
  finally show "(of_char c :: u8) = 0" .
qed

lemma no_nul_bytes: "no_nul t \<Longrightarrow> 0 \<notin> set (text_bytes t)"
  by (metis imageE list.set_map no_nul_def of_char_zero text_bytes_def)

lemma length_text_bytes [simp]: "length (text_bytes t) = length t"
  by (simp add: text_bytes_def)

lemma text_bytes_append: "text_bytes (t @ u) = text_bytes t @ text_bytes u"
  by (simp add: text_bytes_def)

lemma text_of_bytes: "no_nul t \<Longrightarrow> text_of (text_bytes t @ 0 # rest) = t"
proof -
  assume "no_nul t"
  then have "takeWhile (\<lambda>c. c \<noteq> 0) (text_bytes t @ 0 # rest) = text_bytes t"
    using no_nul_bytes by (subst takeWhile_append2) auto
  then show ?thesis by (simp add: text_of_def text_bytes_def o_def)
qed

text \<open>A number in decimal.\<close>

definition number_text :: "u64 \<Rightarrow> string" where
  "number_text v = map (\<lambda>c. char_of (unat c)) (rte_string_format_u64_digits v)"

lemma number_text_bytes: "text_bytes (number_text v) = rte_string_format_u64_digits v"
proof -
  have "of_char (char_of (unat c) :: char) = c" if "c \<in> set (rte_string_format_u64_digits v)" for c :: u8
  proof -
    have n: "(of_char (char_of (unat c) :: char) :: nat) = unat c" using unsigned_less [of c] by simp
    have "(of_char (char_of (unat c) :: char) :: u8) = of_nat (of_char (char_of (unat c) :: char))"
      by (simp only: of_nat_of_char)
    also have "\<dots> = of_nat (unat c)" by (simp only: n)
    also have "\<dots> = c" by simp
    finally show ?thesis .
  qed
  then show ?thesis by (simp add: number_text_def text_bytes_def o_def map_idI)
qed

lemma number_no_nul: "no_nul (number_text v)"
proof -
  have "char_of (unat c) \<noteq> (char_of (0::nat) :: char)" if "c \<in> set (rte_string_format_u64_digits v)" for c :: u8
  proof
    assume "char_of (unat c) = (char_of (0::nat) :: char)"
    then have "(of_char (char_of (unat c) :: char) :: nat) = of_char (char_of (0::nat) :: char)" by simp
    moreover have "0x30 \<le> c" using format_digits(2) [of v] that by (simp add: is_digit_def)
    then have "unat c \<noteq> 0" by (auto simp: word_le_nat_alt)
    moreover have "unat c < 256" using unsigned_less [of c] by simp
    ultimately show False by simp
  qed
  then show ?thesis by (fastforce simp: no_nul_def number_text_def)
qed

lemma number_length: "length (number_text v) \<le> 20"
  using format_digits(4) by (simp add: number_text_def)

section \<open>The text of an event\<close>

text \<open>
  What a sequence of concatenations leaves in \<open>n\<close> bytes: a piece that does not fit as a whole is
  dropped, and the pieces behind it are still tried.
\<close>

definition add_fitting :: "nat \<Rightarrow> string \<Rightarrow> string \<Rightarrow> string" where
  "add_fitting n line piece = (if length line + length piece \<le> n then line @ piece else line)"

definition fitting :: "nat \<Rightarrow> string list \<Rightarrow> string" where
  "fitting n pieces = foldl (add_fitting n) '''' pieces"

definition field_pieces :: "string \<Rightarrow> string \<Rightarrow> string list" where
  "field_pieces key value = ['' '', key, ''='', value]"

definition event_pieces ::
  "rte_log_level \<Rightarrow> string option \<Rightarrow> u64 \<Rightarrow> u32 \<Rightarrow> string option \<Rightarrow> string option \<Rightarrow> string option \<Rightarrow>
    string option \<Rightarrow> string option \<Rightarrow> string list" where
  "event_pieces level site now cycle source destination type info extra_fields =
    [''Site='', the_default '''' site]
    @ field_pieces ''Timestamp'' (number_text now)
    @ field_pieces ''Level'' (rte_log_level_to_string level)
    @ field_pieces ''Cycle'' (number_text (ucast cycle))
    @ field_pieces ''Source'' (the_default '''' source)
    @ field_pieces ''Destination'' (the_default '''' destination)
    @ field_pieces ''Type'' (the_default '''' type)
    @ field_pieces ''Info'' (the_default '''' info)
    @ (case extra_fields of None \<Rightarrow> [] | Some e \<Rightarrow> if e = '''' then [] else ['' '', e])"

lemma fitting_all:
  assumes "length line + length (concat pieces) \<le> n"
  shows "foldl (add_fitting n) line pieces = line @ concat pieces"
  using assms by (induction pieces arbitrary: line) (simp_all add: add_fitting_def)

lemma fitting_bound: "length line \<le> n \<Longrightarrow> length (foldl (add_fitting n) line pieces) \<le> n"
  by (induction pieces arbitrary: line) (simp_all add: add_fitting_def)

abbreviation line_is :: "nat \<Rightarrow> string \<Rightarrow> rte_string \<Rightarrow> bool" where
  "line_is n t line \<equiv> holds n (text_bytes t) line"

lemma line_add:
  assumes "line_is n t line" "no_nul u"
  shows "line_is n (add_fitting n t u) (add_text line (text_bytes u @ 0 # rest))"
  using add_text_holds [OF assms(1) no_nul_bytes [OF assms(2)], of rest]
  by (simp add: add_fitting_def text_bytes_append if_distrib cong: if_cong)

lemma line_add_c: "line_is n t line \<Longrightarrow> no_nul u \<Longrightarrow> line_is n (add_fitting n t u) (add_text line (c_text u))"
  using line_add [of n t line u "[]"] by (simp add: c_text_def)

lemma c_text_opt: "opt_text t = c_text (the_default '''' t)"
  by (simp add: opt_text_def split: option.splits)

lemma plain_texts [simp]:
  "no_nul ''''" "no_nul '' ''" "no_nul ''=''" "no_nul ''Site=''" "no_nul ''Timestamp''" "no_nul ''Level''"
  "no_nul ''Cycle''" "no_nul ''Source''" "no_nul ''Destination''" "no_nul ''Type''" "no_nul ''Info''"
  "no_nul (rte_log_level_to_string level)"
  by (simp_all add: no_nul_def nul_char) (cases level; simp)

lemma line_field:
  assumes "line_is n t line" "no_nul key" "no_nul u"
  shows "line_is n (foldl (add_fitting n) t (field_pieces key u))
    (rte_log_append_event_field line key (Some (text_bytes u @ 0 # rest)))"
  unfolding rte_log_append_event_field_def field_pieces_def option.case foldl.simps
  by (intro line_add line_add_c assms plain_texts)

lemma line_field_opt:
  assumes "line_is n t line" "no_nul key" "no_nul (the_default '''' u)"
  shows "line_is n (foldl (add_fitting n) t (field_pieces key (the_default '''' u)))
    (rte_log_append_event_field line key (map_option c_text u))"
proof -
  have "rte_log_append_event_field line key (map_option c_text u) =
      rte_log_append_event_field line key (Some (text_bytes (the_default '''' u) @ 0 # []))"
    by (cases u) (simp_all add: rte_log_append_event_field_def c_text_def)
  then show ?thesis using line_field [OF assms, of "[]"] by simp
qed

lemma c_str_holds:
  assumes "holds n cs line"
  shows "if length cs < n
    then \<exists>rest s'. rte_string_c_str (Some line) True = (STATUS_OK, Some (cs @ 0 # rest), Some s')
    else rte_string_c_str (Some line) True = (STATUS_RESOURCE_EXHAUSTED, None, Some line)"
proof -
  obtain d where d: "bf_data (str_buf line) = Some d" "length d = n" "take (length cs) d = cs"
    "bf_length (str_buf line) = length cs" "length cs \<le> n" "bf_capacity (str_buf line) = n"
    using holdsE [OF assms] by metis
  show ?thesis
  proof (cases "length cs < n")
    case True
    then have "d[length cs := 0] = cs @ 0 # drop (Suc (length cs)) d"
      using d(2,3) by (simp add: upd_conv_take_nth_drop)
    then show ?thesis using True d
      by (simp add: rte_string_c_str_def holds_valid [OF assms] str_data_def Let_def)
  qed (use d in \<open>simp add: rte_string_c_str_def holds_valid [OF assms]\<close>)
qed

text \<open>A number printed into a local string of at least 21 bytes, or of 11 for 32 bits.\<close>

lemma number_c_str:
  assumes "length (number_text v) < n"
  shows "\<exists>rest s'. rte_string_c_str (Some (the_default (local_string n)
      (snd (rte_string_from_u64 (Some (local_string n)) v)))) True =
    (STATUS_OK, Some (text_bytes (number_text v) @ 0 # rest), Some s')"
proof -
  have len: "length (rte_string_format_u64_digits v) = length (number_text v)"
    by (simp add: number_text_def)
  have l: "holds n [] (local_string n)" using assms by (intro local_string_holds) simp
  then have "wf_buffer (str_buf (local_string n))" "bf_capacity (str_buf (local_string n)) = n"
    by (simp_all add: holds_def)
  then obtain s' where s': "rte_string_copy_n (Some (local_string n)) (Some (rte_string_format_u64_digits v))
      (length (rte_string_format_u64_digits v)) = (STATUS_OK, Some s')"
    "str_content s' = rte_string_format_u64_digits v" "wf_buffer (str_buf s')"
    "bf_capacity (str_buf s') = n"
    using copy_n_content [of "local_string n" "rte_string_format_u64_digits v"] assms len by auto
  then have "holds n (text_bytes (number_text v)) s'" by (simp add: holds_def number_text_bytes)
  moreover have "rte_string_from_u64 (Some (local_string n)) v = (STATUS_OK, Some s')"
    using s'(1) by (simp add: rte_string_from_u64_def)
  ultimately show ?thesis using c_str_holds [of n "text_bytes (number_text v)" s'] assms by simp
qed

lemma number_u32_length: "length (number_text (ucast (v :: u32))) \<le> 10"
proof (rule ccontr)
  let ?m = "ucast v :: u64"
  assume "\<not> ?thesis"
  then have m: "?m \<noteq> 0" "10 \<le> length (digits_rev ?m) - 1"
    by (auto simp: number_text_def rte_string_format_u64_digits_def split: if_splits)
  have "(10 :: nat) ^ 10 \<le> 10 ^ (length (digits_rev ?m) - 1)" using m(2) by (intro power_increasing) simp_all
  also have "\<dots> \<le> unat ?m" using digits_rev_correct [of ?m] m(1) by simp
  also have "\<dots> < 2 ^ 32" using unsigned_less [of v, where ?'a = nat]
    by (simp add: unsigned_ucast_eq take_bit_nat_eq_self)
  finally show False by simp
qed

lemma line_field_u32:
  assumes "line_is n t line" "no_nul key"
  shows "line_is n (foldl (add_fitting n) t (field_pieces key (number_text (ucast v))))
    (rte_log_append_event_field_u32 line key v)"
proof -
  have "length (number_text (ucast v)) < 16" using number_u32_length [of v] by simp
  then obtain rest s' where "rte_string_c_str (Some (the_default (local_string 16)
      (snd (rte_string_from_u64 (Some (local_string 16)) (ucast v))))) True =
    (STATUS_OK, Some (text_bytes (number_text (ucast v)) @ 0 # rest), Some s')"
    using number_c_str by metis
  then have "rte_log_append_event_field_u32 line key v =
      rte_log_append_event_field line key (Some (text_bytes (number_text (ucast v)) @ 0 # rest))"
    by (simp add: rte_log_append_event_field_u32_def rte_string_from_u32_def widened_u32)
  then show ?thesis using line_field [OF assms number_no_nul] by simp
qed

lemma line_extra:
  assumes "line_is n t line" "no_nul (the_default '''' e)"
  shows "line_is n (foldl (add_fitting n) t (case e of None \<Rightarrow> [] | Some x \<Rightarrow> if x = '''' then [] else ['' '', x]))
    (case e of None \<Rightarrow> line
     | Some x \<Rightarrow> if x = '''' then line else add_text (add_text line (c_text '' '')) (c_text x))"
proof (cases e)
  case (Some x)
  have "line_is n (foldl (add_fitting n) t ['' '', x]) (add_text (add_text line (c_text '' '')) (c_text x))"
    unfolding foldl.simps using assms(2) Some by (intro line_add_c assms(1) plain_texts) simp
  then show ?thesis using assms(1) Some by (cases "x = ''''") simp_all
qed (use assms(1) in simp)

text \<open>The line before its NUL, as the code builds it.\<close>

definition event_line ::
  "rte_log_level \<Rightarrow> string option \<Rightarrow> u64 \<Rightarrow> u32 \<Rightarrow> string option \<Rightarrow> string option \<Rightarrow> string option \<Rightarrow>
    string option \<Rightarrow> string option \<Rightarrow> string" where
  "event_line level site now cycle source destination type info extra_fields =
    fitting LOG_EVENT_LINE_MAX_LEN
      (event_pieces level site now cycle source destination type info extra_fields)"

lemma event_line_bound: "length (event_line level site now cycle source destination type info extra) \<le> 256"
  using fitting_bound [of "''''" 256] by (simp add: event_line_def fitting_def LOG_EVENT_LINE_MAX_LEN_def)

lemma written_line:
  assumes "line_is n t line" "no_nul t"
  shows "(case fst (snd (rte_string_c_str (Some line) True)) of None \<Rightarrow> '''' | Some b \<Rightarrow> text_of b) =
    (if length t < n then t else '''')"
  using c_str_holds [OF assms(1)] text_of_bytes [OF assms(2)] by (auto split: if_splits)

lemma fitting_no_nul: "no_nul t \<Longrightarrow> list_all no_nul ps \<Longrightarrow> no_nul (foldl (add_fitting n) t ps)"
  by (induction ps arbitrary: t) (auto simp: add_fitting_def no_nul_def)

lemma build_event_line_is:
  assumes "no_nul (the_default '''' site)" "no_nul (the_default '''' source)"
    "no_nul (the_default '''' destination)" "no_nul (the_default '''' type)"
    "no_nul (the_default '''' info)" "no_nul (the_default '''' extra)"
  shows "line_is 256 (event_line level site now cycle source destination type info extra)
    (build_event_line level site now cycle source destination type info extra)"
proof -
  let ?now = "local_string 24"
  have "length (number_text now) < 24" using number_length [of now] by simp
  then obtain rest ts' where ts: "rte_string_c_str (Some (the_default ?now
      (snd (rte_string_from_u64 (Some ?now) now)))) True =
    (STATUS_OK, Some (text_bytes (number_text now) @ 0 # rest), Some ts')"
    using number_c_str by metis
  have start: "line_is 256 '''' (local_string 256)" using local_string_holds [of 256] by (simp add: text_bytes_def)
  show ?thesis
    unfolding event_line_def fitting_def event_pieces_def LOG_EVENT_LINE_MAX_LEN_def foldl_append
      build_event_line_def Let_def ts prod.case option.case foldl.simps c_text_opt
    by (intro line_extra line_field_opt line_field_u32 line_field line_add_c start assms plain_texts
        number_no_nul
        line_field [where rest = "[]", folded c_text_def])
qed

section \<open>Properties\<close>

text \<open>C21. An event is written once, as the line whose pieces are the site, the time of the platform's
  timer, level, cycle, source, destination, type, info and the extra fields, each piece that does
  not fit into 256 bytes left out as a whole; the line is complete whenever its full text has at
  most 256 characters. But a line that fills the 256 bytes exactly is written as the empty text.\<close>

theorem event_line_exact:
  assumes "s_log s = Some a" "log_write a = Some write"
    "log_level_value (s_min_level s) \<le> log_level_value level"
    "\<forall>t \<in> {site, source, destination, type, info, extra}. no_nul (the_default '''' t)"
    "rte_timer_now s = (st, now, s1)"
  shows "let pieces = event_pieces level site now cycle source destination type info extra;
      line = event_line level site now cycle source destination type info extra
    in rte_log_write_event level site cycle source destination type info extra s =
        s1\<lparr>ext := write level source (if length line < 256 then line else '''') (ext s1)\<rparr> \<and>
      length line \<le> 256 \<and> (length (concat pieces) \<le> 256 \<longrightarrow> line = concat pieces)"
proof -
  let ?line = "event_line level site now cycle source destination type info extra"
  let ?pieces = "event_pieces level site now cycle source destination type info extra"
  have nn: "no_nul (the_default '''' site)" "no_nul (the_default '''' source)"
    "no_nul (the_default '''' destination)" "no_nul (the_default '''' type)"
    "no_nul (the_default '''' info)" "no_nul (the_default '''' extra)" using assms(4) by auto
  have no: "no_nul ?line" unfolding event_line_def fitting_def
    by (rule fitting_no_nul) (use nn in \<open>auto simp: event_pieces_def field_pieces_def number_no_nul
        split: option.splits\<close>)
  have "length (concat ?pieces) \<le> 256 \<Longrightarrow> ?line = concat ?pieces"
    using fitting_all [of "''''" ?pieces 256]
    by (simp add: event_line_def fitting_def LOG_EVENT_LINE_MAX_LEN_def)
  moreover obtain q r c where "rte_string_c_str (Some (build_event_line level site now cycle source
      destination type info extra)) True = (q, r, c)" by (metis prod_cases3)
  moreover note written_line [OF build_event_line_is [OF nn] no]
  ultimately show ?thesis using assms(1-3,5) event_line_bound
    by (simp add: rte_log_write_event_def Let_def)
qed

text \<open>The witness is the line that fills the buffer and is lost.\<close>

definition listing_log :: "string list rte" where
  "listing_log = (initial_rte [])\<lparr>s_log := Some \<lparr>log_init = None, log_write = Some (\<lambda>_ _ t x. t # x)\<rparr>\<rparr>"

theorem event_line_exact_witness:
  "ext (rte_log_write_event LOG_INFO None 0 None None None (Some (replicate 187 (CHR ''x''))) None
    listing_log) = [[]]"
proof -
  have zero: "number_text 0 = ''0''" by (simp add: number_text_def rte_string_format_u64_digits_def char_of_def bit_0)
  show ?thesis
    using event_line_exact [of listing_log "\<lparr>log_init = None, log_write = Some (\<lambda>_ _ t x. t # x)\<rparr>"
        "\<lambda>_ _ t x. t # x" LOG_INFO None None None None "Some (replicate 187 (CHR ''x''))" None
        STATUS_NOT_INITIALIZED 0 listing_log 0]
    by (simp add: listing_log_def initial_rte_def no_nul_def nul_char rte_timer_now_def event_pieces_def
        field_pieces_def zero Let_def)
qed

end
