(* ===== verification/AppManager.thy ===== *)
theory AppManager
  imports Checkpoint Log_Event
begin

unbundle bit_operations_syntax

text \<open>
  The application manager of \<^verbatim>\<open>src/app/appmanager/rte_appmanager.c\<close>: the one entry point that runs
  an application through initialisation, its cycles and its shutdown. The operations of the
  application are parameters: functions on the world, which holds the manager's static data, the
  checkpoint target (the application may set or clear its voter at any time), the channels, the
  watchdogs and the platform. The manager's run is a partial function: \<open>None\<close> is a run that never
  ends, \<open>Halted\<close> one that stopped in a safe state or in an operation that does not return.
\<close>

section \<open>State\<close>

datatype rte_app_state = APP_UNINITIALIZED | APP_INITIALIZING | APP_RUNNING | APP_SHUTTING_DOWN
  | APP_SHUTDOWN | APP_ERROR

fun app_state_code :: "rte_app_state \<Rightarrow> nat" where
  "app_state_code APP_UNINITIALIZED = 0"
| "app_state_code APP_INITIALIZING = 1"
| "app_state_code APP_RUNNING = 2"
| "app_state_code APP_SHUTTING_DOWN = 3"
| "app_state_code APP_SHUTDOWN = 4"
| "app_state_code APP_ERROR = 5"

record rte_appmanager_state =
  am_state :: rte_app_state
  am_iteration_count :: u32
  am_error_count :: u32
  am_last_error :: rte_status

record 'x rte_appmanager_checkpoint_config =
  ac_voter :: "'x rte_voter option"
  ac_max_delay_ms :: duration_ms
  ac_expected_node_count :: u32
  ac_watchdog :: "nat option"

record 'x app_world =
  g_app_state :: rte_appmanager_state
  g_shutdown_requested :: bool
  g_checkpoint_signature :: u64
  g_checkpoint_signature_active :: bool
  w_checkpoint :: "'x rte_appmanager_checkpoint_config"
  w_channels :: "'x chan_mem"
  w_dogs :: "'x watchdog_manager"
  w_rte :: "'x rte"

type_synonym 'x app_op = "'x app_world \<Rightarrow> (rte_status, 'x app_world) run"

record 'x rte_appmanager_operations =
  op_init :: "'x app_op option"
  op_pre_execute :: "'x app_op option"
  op_execute :: "'x app_op option"
  op_post_execute :: "'x app_op option"
  op_on_checkpoint_result :: "(bool \<Rightarrow> 'x app_op) option"
  op_shutdown :: "'x app_op option"
  op_get_name :: "string option"
  op_get_version :: "string option"

text \<open>\<open>apc_checkpoint\<close> tells whether a checkpoint target is attached; the target is in the world.\<close>

record 'x rte_appmanager_config =
  apc_ops :: "'x rte_appmanager_operations option"
  apc_max_iterations :: u32
  apc_error_threshold :: u32
  apc_checkpoint :: bool

section \<open>Checkpoint marks\<close>

definition CHECKPOINT_SIGNATURE_SEED :: u64 where
  "CHECKPOINT_SIGNATURE_SEED = 0xFFFFFFFFFFFFFFFF"

definition rte_appmanager_checkpoint_signature_reset :: "'x app_world \<Rightarrow> 'x app_world" where
  "rte_appmanager_checkpoint_signature_reset w =
    w\<lparr>g_checkpoint_signature := CHECKPOINT_SIGNATURE_SEED, g_checkpoint_signature_active := True\<rparr>"

definition rte_appmanager_encode_u64_le :: "u64 \<Rightarrow> bytes" where
  "rte_appmanager_encode_u64_le value = map (\<lambda>i. ucast (drop_bit (8 * i) value AND 0xFF)) [0..<8]"

definition rte_appmanager_checkpoint_fold_signature :: "u64 \<Rightarrow> u32" where
  "rte_appmanager_checkpoint_fold_signature signature =
    (let low = ucast (signature AND 0xFFFFFFFF); high = ucast (drop_bit 32 signature AND 0xFFFFFFFF)
     in low XOR high)"

text \<open>A signed number in decimal, and \<^verbatim>\<open>snprintf\<close> into an array of \<open>n\<close> bytes.\<close>

definition int_text :: "int \<Rightarrow> string" where
  "int_text i = (if i < 0 then ''-'' @ decimal (nat (- i)) else decimal (nat i))"

definition snprintf :: "nat \<Rightarrow> string \<Rightarrow> string" where
  "snprintf n t = take (n - 1) t"

definition rte_appmanager_checkpoint_mark ::
  "string option \<Rightarrow> i32 \<Rightarrow> string option \<Rightarrow> 'x app_world \<Rightarrow> 'x app_world" where
  "rte_appmanager_checkpoint_mark file line label w =
    (if \<not> g_checkpoint_signature_active w then w
     else case (case (label, file) of
         (Some l, _) \<Rightarrow> Some (snprintf 128 l)
       | (None, Some f) \<Rightarrow> Some (snprintf 128 (f @ '':'' @ int_text (sint line)))
       | _ \<Rightarrow> None) of
       None \<Rightarrow> w
     | Some text \<Rightarrow>
         let (mark_hash, cm1) = rte_checksum_crc64 (Some (text_bytes text)) (length text) (g_checksum (w_rte w));
             fold_buf = rte_appmanager_encode_u64_le (g_checkpoint_signature w)
               @ rte_appmanager_encode_u64_le mark_hash;
             (signature, cm2) = rte_checksum_crc64 (Some fold_buf) 16 cm1
         in w\<lparr>g_checkpoint_signature := signature, w_rte := (w_rte w)\<lparr>g_checksum := cm2\<rparr>\<rparr>)"

section \<open>Errors of a stage\<close>

definition app_log :: "rte_log_level \<Rightarrow> string \<Rightarrow> 'x app_world \<Rightarrow> 'x app_world" where
  "app_log level message w = w\<lparr>w_rte := rte_log_write level (Some ''APPMANAGER'') message (w_rte w)\<rparr>"

definition rte_appmanager_handle_stage_result ::
  "rte_status \<Rightarrow> string \<Rightarrow> u32 \<Rightarrow> 'x app_world \<Rightarrow> bool \<times> 'x app_world" where
  "rte_appmanager_handle_stage_result status stage_name error_threshold w =
    (if status = STATUS_OK then (True, w)
     else
       let w1 = w\<lparr>g_app_state := (g_app_state w)\<lparr>am_error_count := am_error_count (g_app_state w) + 1,
                    am_last_error := status\<rparr>\<rparr>;
           w2 = app_log LOG_ERROR
             (snprintf 96 (stage_name @ '' failed: '' @ decimal (status_code status))) w1
       in if error_threshold > 0 \<and> am_error_count (g_app_state w2) \<ge> error_threshold
          then (False, (app_log LOG_ERROR (snprintf 96 (''Error threshold exceeded ('' @
                  decimal (unat (am_error_count (g_app_state w2))) @ ''/'' @
                  decimal (unat error_threshold) @ ''), shutting down'')) w2)\<lparr>g_shutdown_requested := True\<rparr>)
          else (False, w2))"

section \<open>One cycle\<close>

text \<open>A stage: its operation, then the accounting; \<open>None\<close> is an absent optional stage.\<close>

definition stage ::
  "'x app_op option \<Rightarrow> string \<Rightarrow> u32 \<Rightarrow> 'x app_world \<Rightarrow> (bool, 'x app_world) run" where
  "stage operation stage_name error_threshold w =
    (case operation of None \<Rightarrow> Returned True w
     | Some f \<Rightarrow> (case f w of Halted w1 \<Rightarrow> Halted w1
         | Returned status w1 \<Rightarrow>
             let (ok, w2) = rte_appmanager_handle_stage_result status stage_name error_threshold w1
             in Returned ok w2))"

text \<open>The rendezvous as an operation; \<open>stack\<close> is what its reply buffers hold before a receive.\<close>

definition checkpoint_op :: "(u32 \<Rightarrow> nat \<Rightarrow> nat \<Rightarrow> bytes) \<Rightarrow> 'x app_op" where
  "checkpoint_op stack w =
    (let cfg = \<lparr>cp_checkpoint_id = rte_appmanager_checkpoint_fold_signature (g_checkpoint_signature w),
           cp_max_delay_ms = ac_max_delay_ms (w_checkpoint w),
           cp_expected_node_count = ac_expected_node_count (w_checkpoint w),
           cp_watchdog = ac_watchdog (w_checkpoint w)\<rparr>
     in case rte_channel_checkpoint (ac_voter (w_checkpoint w)) (Some cfg)
            (stack (am_iteration_count (g_app_state w))) (w_channels w) (w_dogs w) (w_rte w) of
          Returned status (mem, dogs, s) \<Rightarrow> Returned status (w\<lparr>w_channels := mem, w_dogs := dogs, w_rte := s\<rparr>)
        | Halted (mem, dogs, s) \<Rightarrow> Halted (w\<lparr>w_channels := mem, w_dogs := dogs, w_rte := s\<rparr>))"

text \<open>The last stage: the rendezvous where a voter is attached, then the report of its outcome.\<close>

definition checkpoint_stage ::
  "'x rte_appmanager_config \<Rightarrow> 'x rte_appmanager_operations \<Rightarrow> (u32 \<Rightarrow> nat \<Rightarrow> nat \<Rightarrow> bytes) \<Rightarrow>
    'x app_world \<Rightarrow> (unit, 'x app_world) run" where
  "checkpoint_stage config ops stack w =
    (case stage (if apc_checkpoint config \<and> ac_voter (w_checkpoint w) \<noteq> None then Some (checkpoint_op stack)
            else None) ''checkpoint'' (apc_error_threshold config) w of
       Halted w1 \<Rightarrow> Halted w1
     | Returned committed w1 \<Rightarrow>
         (case stage (map_option (\<lambda>f. f committed) (op_on_checkpoint_result ops)) ''on_checkpoint_result''
                (apc_error_threshold config) w1 of
            Halted w2 \<Rightarrow> Halted w2
          | Returned _ w2 \<Rightarrow> Returned () w2))"

definition app_cycle ::
  "'x rte_appmanager_config \<Rightarrow> 'x rte_appmanager_operations \<Rightarrow> (u32 \<Rightarrow> nat \<Rightarrow> nat \<Rightarrow> bytes) \<Rightarrow>
    'x app_world \<Rightarrow> (unit, 'x app_world) run" where
  "app_cycle config ops stack w =
    (let w0 = w\<lparr>g_app_state := (g_app_state w)\<lparr>am_iteration_count := am_iteration_count (g_app_state w) + 1\<rparr>\<rparr>;
         w1 = rte_appmanager_checkpoint_signature_reset w0
     in case stage (op_pre_execute ops) ''pre_execute'' (apc_error_threshold config) w1 of
          Halted w2 \<Rightarrow> Halted w2
        | Returned False w2 \<Rightarrow> Returned () w2
        | Returned True w2 \<Rightarrow>
            (case stage (op_execute ops) ''execute'' (apc_error_threshold config) w2 of
               Halted w3 \<Rightarrow> Halted w3
             | Returned False w3 \<Rightarrow> Returned () w3
             | Returned True w3 \<Rightarrow>
                 (case stage (op_post_execute ops) ''post_execute'' (apc_error_threshold config) w3 of
                    Halted w4 \<Rightarrow> Halted w4
                  | Returned _ w4 \<Rightarrow> checkpoint_stage config ops stack w4)))"

definition app_goes_on :: "'x rte_appmanager_config \<Rightarrow> 'x app_world \<Rightarrow> bool" where
  "app_goes_on config w \<longleftrightarrow> \<not> g_shutdown_requested w \<and>
    (apc_max_iterations config = 0 \<or> am_iteration_count (g_app_state w) < apc_max_iterations config)"

partial_function (option) app_cycles ::
  "'x rte_appmanager_config \<Rightarrow> 'x rte_appmanager_operations \<Rightarrow> (u32 \<Rightarrow> nat \<Rightarrow> nat \<Rightarrow> bytes) \<Rightarrow>
    'x app_world \<Rightarrow> (unit, 'x app_world) run option" where
  "app_cycles config ops stack w =
    (if \<not> app_goes_on config w then Some (Returned () w)
     else (case app_cycle config ops stack w of
         Halted w1 \<Rightarrow> Some (Halted w1)
       | Returned _ w1 \<Rightarrow> app_cycles config ops stack w1))"

section \<open>The run\<close>

definition set_app_state :: "rte_app_state \<Rightarrow> 'x app_world \<Rightarrow> 'x app_world" where
  "set_app_state st w = w\<lparr>g_app_state := (g_app_state w)\<lparr>am_state := st\<rparr>\<rparr>"

text \<open>The state a run starts from, before the application is initialised.\<close>

definition app_start :: "string \<Rightarrow> string \<Rightarrow> 'x app_world \<Rightarrow> 'x app_world" where
  "app_start name version w =
    app_log LOG_INFO (snprintf 96 (name @ '' v'' @ version @ '' starting''))
      (w\<lparr>g_app_state := \<lparr>am_state = APP_INITIALIZING, am_iteration_count = 0, am_error_count = 0,
           am_last_error = STATUS_OK\<rparr>,
         g_shutdown_requested := False, g_checkpoint_signature_active := False,
         w_rte := rte_lifecycle_unlock (w_rte w)\<rparr>)"

definition app_summary :: "string \<Rightarrow> 'x app_world \<Rightarrow> 'x app_world" where
  "app_summary name w = w\<lparr>w_rte := rte_log_write_event LOG_INFO (Some '''')
     (am_iteration_count (g_app_state w)) (Some ''APPMANAGER'') (Some ''-'') (Some ''SUMMARY'') (Some name)
     (Some (snprintf 64 (''Errors='' @ decimal (unat (am_error_count (g_app_state w))) @ '' FinalState='' @
        (if am_error_count (g_app_state w) > 0 then ''ERROR'' else ''OK'')))) (w_rte w)\<rparr>"

text \<open>The world the shutdown of a run is called with.\<close>

definition shutdown_start :: "'x app_world \<Rightarrow> 'x app_world" where
  "shutdown_start w = (set_app_state APP_SHUTTING_DOWN w)\<lparr>g_checkpoint_signature_active := False,
     w_rte := rte_lifecycle_unlock (w_rte w)\<rparr>"

text \<open>The end of a run; the operation is present there. The result is the exit code.\<close>

definition app_finish ::
  "'x rte_appmanager_config \<Rightarrow> 'x app_op \<Rightarrow> string \<Rightarrow> 'x app_world \<Rightarrow> (nat, 'x app_world) run" where
  "app_finish config shutdown name w =
    (case shutdown (shutdown_start w) of Halted w2 \<Rightarrow> Halted w2
        | Returned status w2 \<Rightarrow>
            let w3 = (if status \<noteq> STATUS_OK
                   then app_log LOG_WARNING (snprintf 64 (''Shutdown returned non-OK status: '' @
                          decimal (status_code status))) w2
                   else w2);
                w4 = app_summary name (set_app_state APP_SHUTDOWN w3)
            in Returned (if am_error_count (g_app_state w4) > 0 \<and> apc_error_threshold config > 0 then 1 else 0) w4)"

text \<open>After a failed initialisation the shutdown still runs; its status is dropped.\<close>

definition app_init_failed :: "rte_status \<Rightarrow> 'x app_op \<Rightarrow> 'x app_world \<Rightarrow> (nat, 'x app_world) run" where
  "app_init_failed status shutdown w =
    (let w1 = app_log LOG_ERROR (snprintf 64 (''Initialization failed: '' @ decimal (status_code status))) w;
         w2 = w1\<lparr>g_app_state := (g_app_state w1)\<lparr>am_state := APP_ERROR, am_last_error := status,
           am_error_count := am_error_count (g_app_state w1) + 1\<rparr>\<rparr>
     in case shutdown w2 of Halted w3 \<Rightarrow> Halted w3 | Returned _ w3 \<Rightarrow> Returned 1 w3)"

definition rte_appmanager_run ::
  "'x rte_appmanager_config option \<Rightarrow> (u32 \<Rightarrow> nat \<Rightarrow> nat \<Rightarrow> bytes) \<Rightarrow> 'x app_world \<Rightarrow>
    (nat, 'x app_world) run option" where
  "rte_appmanager_run config stack w =
    (case config of
       None \<Rightarrow> Some (Returned 1 (app_log LOG_ERROR ''Invalid rte_appmanager_config_t'' w))
     | Some cfg \<Rightarrow>
         (case apc_ops cfg of
            None \<Rightarrow> Some (Returned 1 (app_log LOG_ERROR ''Invalid rte_appmanager_config_t'' w))
          | Some ops \<Rightarrow>
              (case (op_init ops, op_execute ops, op_shutdown ops, op_get_name ops, op_get_version ops) of
                 (Some init, Some _, Some shutdown, Some name, Some version) \<Rightarrow>
                   if am_state (g_app_state w) \<in> {APP_INITIALIZING, APP_RUNNING, APP_SHUTTING_DOWN}
                   then Some (Returned 1 (app_log LOG_ERROR (snprintf 256
                     (''rte_appmanager_run() called while an application is already running (state='' @
                      decimal (app_state_code (am_state (g_app_state w))) @
                      '') - this is the single entry point, it cannot be re-entered concurrently'')) w))
                   else
                     (case init (app_start name version w) of
                        Halted w1 \<Rightarrow> Some (Halted w1)
                      | Returned status w1 \<Rightarrow>
                          if status \<noteq> STATUS_OK then Some (app_init_failed status shutdown w1)
                          else
                            let w2 = (set_app_state APP_RUNNING w1)\<lparr>w_rte := rte_lifecycle_lock (w_rte w1)\<rparr>
                            in (case app_cycles cfg ops stack w2 of
                                  None \<Rightarrow> None
                                | Some (Halted w3) \<Rightarrow> Some (Halted w3)
                                | Some (Returned _ w3) \<Rightarrow> Some (app_finish cfg shutdown name w3)))
               | _ \<Rightarrow> Some (Returned 1 (app_log LOG_ERROR ''Incomplete rte_appmanager_operations_t'' w)))))"

section \<open>The operations around a run\<close>

definition rte_appmanager_get_state :: "'x app_world \<Rightarrow> rte_app_state" where
  "rte_appmanager_get_state w = am_state (g_app_state w)"

definition rte_appmanager_get_stats ::
  "rte_appmanager_state option \<Rightarrow> 'x app_world \<Rightarrow> rte_status \<times> rte_appmanager_state option" where
  "rte_appmanager_get_stats state w =
    (case state of None \<Rightarrow> (STATUS_INVALID_PARAM, None) | Some _ \<Rightarrow> (STATUS_OK, Some (g_app_state w)))"

definition rte_appmanager_request_shutdown :: "'x app_world \<Rightarrow> 'x app_world" where
  "rte_appmanager_request_shutdown w = w\<lparr>g_shutdown_requested := True\<rparr>"

text \<open>The handler that is installed for \<^verbatim>\<open>SIGINT\<close> and \<^verbatim>\<open>SIGTERM\<close>.\<close>

definition rte_appmanager_signal_handler :: "int \<Rightarrow> 'x app_world \<Rightarrow> 'x app_world" where
  "rte_appmanager_signal_handler signum w = rte_appmanager_request_shutdown w"

definition rte_appmanager_reset_state :: "'x app_world \<Rightarrow> 'x app_world" where
  "rte_appmanager_reset_state w =
    w\<lparr>g_app_state := \<lparr>am_state = APP_UNINITIALIZED, am_iteration_count = 0, am_error_count = 0,
        am_last_error = STATUS_OK\<rparr>,
      g_shutdown_requested := False, g_checkpoint_signature_active := False,
      w_rte := rte_lifecycle_unlock (w_rte w)\<rparr>"

text \<open>
  The installation of the handler on a POSIX target. The two system calls are parameters on the state
  of the operating system, which returns 0 on success; the signals are \<^verbatim>\<open>SIGINT\<close> and \<^verbatim>\<open>SIGTERM\<close>.
\<close>

definition rte_appmanager_install_default_signal_handlers ::
  "('os \<Rightarrow> int \<times> 'os) \<Rightarrow> (int \<Rightarrow> 'os \<Rightarrow> int \<times> 'os) \<Rightarrow> 'os \<Rightarrow> rte_status \<times> 'os" where
  "rte_appmanager_install_default_signal_handlers sigemptyset sigaction os =
    (let (r0, os0) = sigemptyset os
     in if r0 \<noteq> 0 then (STATUS_INTERNAL_ERROR, os0)
        else let (r1, os1) = sigaction 2 os0
          in if r1 \<noteq> 0 then (STATUS_INTERNAL_ERROR, os1)
             else let (r2, os2) = sigaction 15 os1
               in if r2 \<noteq> 0 then (STATUS_INTERNAL_ERROR, os2) else (STATUS_OK, os2))"

section \<open>What the manager relies on\<close>

text \<open>
  The contract on the channels: sending and receiving leave the setup lock alone. It is the only thing
  the manager needs of them, and it is what makes the rendezvous keep the manager's books.
\<close>

definition quiet_channels :: "'x chan_mem \<Rightarrow> bool" where
  "quiet_channels mem \<longleftrightarrow> (\<forall>b. channels_keep (\<lambda>s. g_setup_locked s = b) mem)"

text \<open>
  The law of an operation of the application: where the channels are quiet it leaves the manager's
  bookkeeping and the setup lock alone, does not take back a request to stop, and leaves quiet
  channels.
\<close>

definition keeps_books :: "'x app_op \<Rightarrow> bool" where
  "keeps_books f \<longleftrightarrow> (\<forall>w status w'. quiet_channels (w_channels w) \<longrightarrow> f w = Returned status w' \<longrightarrow>
    g_app_state w' = g_app_state w \<and>
    g_checkpoint_signature_active w' = g_checkpoint_signature_active w \<and>
    g_setup_locked (w_rte w') = g_setup_locked (w_rte w) \<and>
    (g_shutdown_requested w \<longrightarrow> g_shutdown_requested w') \<and> quiet_channels (w_channels w'))"

text \<open>The operations of a cycle.\<close>

definition cycle_ops :: "'x rte_appmanager_operations \<Rightarrow> 'x app_op set" where
  "cycle_ops ops = set_option (op_pre_execute ops) \<union> set_option (op_execute ops) \<union>
    set_option (op_post_execute ops) \<union> {f b |f b. op_on_checkpoint_result ops = Some f}"

text \<open>The rendezvous obeys the law of the operations.\<close>

lemma platform_keeps_lock: "platform_keeps (\<lambda>s. g_setup_locked s = b)"
  by (auto simp: platform_keeps_def dest: timer_now_frame)

lemma same_callbacks_quiet: "same_callbacks mem mem' \<Longrightarrow> quiet_channels mem \<Longrightarrow> quiet_channels mem'"
  by (simp add: quiet_channels_def same_callbacks_keep)

lemma checkpoint_op_returns:
  assumes "checkpoint_op stack w = Returned status w'"
  obtains cfg mem dogs s where "rte_channel_checkpoint (ac_voter (w_checkpoint w)) (Some cfg)
      (stack (am_iteration_count (g_app_state w))) (w_channels w) (w_dogs w) (w_rte w) =
      Returned status (mem, dogs, s)" "w' = w\<lparr>w_channels := mem, w_dogs := dogs, w_rte := s\<rparr>"
  using assms by (auto simp: checkpoint_op_def Let_def split: run.splits prod.splits)

lemma checkpoint_op_books: "keeps_books (checkpoint_op stack)"
  unfolding keeps_books_def
proof (intro allI impI)
  fix w status w'
  assume quiet: "quiet_channels (w_channels w)" and run: "checkpoint_op stack w = Returned status w'"
  obtain cfg mem dogs s where ckp: "rte_channel_checkpoint (ac_voter (w_checkpoint w)) (Some cfg)
      (stack (am_iteration_count (g_app_state w))) (w_channels w) (w_dogs w) (w_rte w) =
      Returned status (mem, dogs, s)" and w': "w' = w\<lparr>w_channels := mem, w_dogs := dogs, w_rte := s\<rparr>"
    by (rule checkpoint_op_returns [OF run])
  have "channels_keep (\<lambda>s. g_setup_locked s = g_setup_locked (w_rte w)) (w_channels w)"
    using quiet by (simp add: quiet_channels_def)
  from checkpoint_keeps [OF ckp platform_keeps_lock this refl] w'
  show "g_app_state w' = g_app_state w \<and> g_checkpoint_signature_active w' = g_checkpoint_signature_active w \<and>
    g_setup_locked (w_rte w') = g_setup_locked (w_rte w) \<and>
    (g_shutdown_requested w \<longrightarrow> g_shutdown_requested w') \<and> quiet_channels (w_channels w')"
    using same_callbacks_quiet quiet by simp
qed

lemma app_log_books [simp]:
  "g_app_state (app_log l m w) = g_app_state w"
  "g_checkpoint_signature_active (app_log l m w) = g_checkpoint_signature_active w"
  "g_shutdown_requested (app_log l m w) = g_shutdown_requested w"
  "g_setup_locked (w_rte (app_log l m w)) = g_setup_locked (w_rte w)"
  "w_channels (app_log l m w) = w_channels w"
  by (simp_all add: app_log_def rte_log_write_def split: option.splits)

definition in_cycle :: "'x app_world \<Rightarrow> bool" where
  "in_cycle w \<longleftrightarrow> am_state (g_app_state w) = APP_RUNNING \<and> g_setup_locked (w_rte w) \<and>
    g_checkpoint_signature_active w"

text \<open>What one stage does to the books: at most one error more, and a request to stop at the threshold.\<close>

definition books_step :: "u32 \<Rightarrow> nat \<Rightarrow> 'x app_world \<Rightarrow> 'x app_world \<Rightarrow> bool" where
  "books_step threshold n w w' \<longleftrightarrow> am_iteration_count (g_app_state w') = am_iteration_count (g_app_state w) \<and>
    (in_cycle w \<longrightarrow> in_cycle w') \<and> (quiet_channels (w_channels w) \<longrightarrow> quiet_channels (w_channels w')) \<and>
    (g_shutdown_requested w \<longrightarrow> g_shutdown_requested w') \<and>
    (\<exists>k \<le> n. am_error_count (g_app_state w') = am_error_count (g_app_state w) + of_nat k \<and>
      (k > 0 \<longrightarrow> threshold > 0 \<longrightarrow> am_error_count (g_app_state w') \<ge> threshold \<longrightarrow> g_shutdown_requested w'))"

lemma handle_books:
  "rte_appmanager_handle_stage_result status nm threshold w = (ok, w') \<Longrightarrow>
    books_step threshold (if ok then 0 else 1) w w'"
  by (auto simp: rte_appmanager_handle_stage_result_def books_step_def in_cycle_def Let_def
      intro: exI [of _ "1::nat"] split: if_splits)

lemma books_refl: "books_step threshold 0 w w"
  by (auto simp: books_step_def intro: exI [of _ "0::nat"])

lemma books_trans:
  assumes "books_step threshold n w w'" "books_step threshold m w' w''"
  shows "books_step threshold (n + m) w w''"
proof -
  obtain k where k: "k \<le> n" "am_error_count (g_app_state w') = am_error_count (g_app_state w) + of_nat k"
    "k > 0 \<longrightarrow> threshold > 0 \<longrightarrow> am_error_count (g_app_state w') \<ge> threshold \<longrightarrow> g_shutdown_requested w'"
    using assms(1) by (auto simp: books_step_def)
  obtain j where j: "j \<le> m" "am_error_count (g_app_state w'') = am_error_count (g_app_state w') + of_nat j"
    "j > 0 \<longrightarrow> threshold > 0 \<longrightarrow> am_error_count (g_app_state w'') \<ge> threshold \<longrightarrow> g_shutdown_requested w''"
    using assms(2) by (auto simp: books_step_def)
  have "am_error_count (g_app_state w'') = am_error_count (g_app_state w) + of_nat (k + j)"
    using k(2) j(2) by simp
  moreover have "k + j > 0 \<longrightarrow> threshold > 0 \<longrightarrow> am_error_count (g_app_state w'') \<ge> threshold \<longrightarrow>
      g_shutdown_requested w''"
  proof (cases "j = 0")
    case True
    then show ?thesis using k(3) j(2) assms(2) by (auto simp: books_step_def)
  qed (use j(3) in simp)
  ultimately have "\<exists>k \<le> n + m. am_error_count (g_app_state w'') = am_error_count (g_app_state w) + of_nat k \<and>
      (k > 0 \<longrightarrow> threshold > 0 \<longrightarrow> am_error_count (g_app_state w'') \<ge> threshold \<longrightarrow> g_shutdown_requested w'')"
    using k(1) j(1) by (metis add_mono)
  then show ?thesis using assms unfolding books_step_def by metis
qed

lemma books_mono: "books_step threshold n w w' \<Longrightarrow> n \<le> m \<Longrightarrow> books_step threshold m w w'"
  unfolding books_step_def by (metis order_trans)

lemma stage_books:
  assumes "stage f nm threshold w = Returned ok w'" "\<And>g. f = Some g \<Longrightarrow> keeps_books g"
    and "quiet_channels (w_channels w)"
  shows "books_step threshold (if ok then 0 else 1) w w'"
proof (cases f)
  case None
  then show ?thesis using assms(1) by (auto simp: stage_def books_refl)
next
  case (Some g)
  then obtain status w1 where g: "g w = Returned status w1"
    and h: "rte_appmanager_handle_stage_result status nm threshold w1 = (ok, w')"
    using assms(1) by (auto simp: stage_def split: run.splits prod.splits)
  have "g_app_state w1 = g_app_state w" "in_cycle w1 = in_cycle w"
    "g_shutdown_requested w \<Longrightarrow> g_shutdown_requested w1" "quiet_channels (w_channels w1)"
    using assms(2) [OF Some] assms(3) g unfolding keeps_books_def in_cycle_def by metis+
  then show ?thesis using handle_books [OF h] by (auto simp: books_step_def)
qed

lemma stage_books_1:
  assumes "stage f nm threshold w = Returned ok w'" "\<And>g. f = Some g \<Longrightarrow> keeps_books g"
    and "quiet_channels (w_channels w)"
  shows "books_step threshold 1 w w'"
  by (rule books_mono [OF stage_books [OF assms]]) simp_all

lemma books_quiet:
  "books_step threshold n w w' \<Longrightarrow> quiet_channels (w_channels w) \<Longrightarrow> quiet_channels (w_channels w')"
  by (simp add: books_step_def)

lemma checkpoint_stage_books:
  assumes "checkpoint_stage cfg ops stack w = Returned () w'" "\<forall>f \<in> cycle_ops ops. keeps_books f"
    and "quiet_channels (w_channels w)"
  shows "books_step (apc_error_threshold cfg) 2 w w'"
proof -
  obtain ok w1 ok' where
    one: "stage (if apc_checkpoint cfg \<and> ac_voter (w_checkpoint w) \<noteq> None then Some (checkpoint_op stack)
      else None) ''checkpoint'' (apc_error_threshold cfg) w = Returned ok w1" and
    two: "stage (map_option (\<lambda>f. f ok) (op_on_checkpoint_result ops)) ''on_checkpoint_result''
      (apc_error_threshold cfg) w1 = Returned ok' w'"
    using assms(1) by (auto simp: checkpoint_stage_def split: run.splits)
  have b1: "books_step (apc_error_threshold cfg) 1 w w1"
    by (rule stage_books_1 [OF one _ assms(3)]) (auto simp: checkpoint_op_books split: if_splits)
  have "books_step (apc_error_threshold cfg) 1 w1 w'"
    by (rule stage_books_1 [OF two _ books_quiet [OF b1 assms(3)]])
      (use assms(2) in \<open>auto simp: cycle_ops_def\<close>)
  from books_trans [OF b1 this] show ?thesis by (simp add: numeral_2_eq_2)
qed

text \<open>The world the stages of a cycle start from.\<close>

definition cycle_start :: "'x app_world \<Rightarrow> 'x app_world" where
  "cycle_start w = rte_appmanager_checkpoint_signature_reset
    (w\<lparr>g_app_state := (g_app_state w)\<lparr>am_iteration_count := am_iteration_count (g_app_state w) + 1\<rparr>\<rparr>)"

lemma cycle_start_channels [simp]: "w_channels (cycle_start w) = w_channels w"
  by (simp add: cycle_start_def rte_appmanager_checkpoint_signature_reset_def)

lemma cycle_books:
  assumes "app_cycle cfg ops stack w = Returned () w'" "\<forall>f \<in> cycle_ops ops. keeps_books f"
    and "quiet_channels (w_channels w)"
  shows "books_step (apc_error_threshold cfg) 3 (cycle_start w) w'"
proof -
  let ?t = "apc_error_threshold cfg"
  obtain ok w1 where one: "stage (op_pre_execute ops) ''pre_execute'' ?t (cycle_start w) = Returned ok w1"
    using assms(1) by (auto simp: app_cycle_def cycle_start_def Let_def split: run.splits)
  have b1: "books_step ?t (if ok then 0 else 1) (cycle_start w) w1"
    by (rule stage_books [OF one]) (use assms(2,3) in \<open>auto simp: cycle_ops_def\<close>)
  have q1: "quiet_channels (w_channels w1)" by (rule books_quiet [OF b1]) (simp add: assms(3))
  show ?thesis
  proof (cases ok)
    case False
    then have "w' = w1" using assms(1) one by (simp add: app_cycle_def cycle_start_def Let_def)
    then show ?thesis using books_mono [OF b1] by simp
  next
    case True
    obtain ok2 w2 where two: "stage (op_execute ops) ''execute'' ?t w1 = Returned ok2 w2"
      using assms(1) one True by (auto simp: app_cycle_def cycle_start_def Let_def split: run.splits)
    have b2: "books_step ?t (if ok2 then 0 else 1) w1 w2"
      by (rule stage_books [OF two _ q1]) (use assms(2) in \<open>auto simp: cycle_ops_def\<close>)
    note q2 = books_quiet [OF b2 q1]
    show ?thesis
    proof (cases ok2)
      case False
      then have "w' = w2" using assms(1) one two True by (simp add: app_cycle_def cycle_start_def Let_def)
      then show ?thesis using books_mono [OF books_trans [OF b1 b2]] by (simp split: if_splits)
    next
      case ok2: True
      obtain ok3 w3 where three: "stage (op_post_execute ops) ''post_execute'' ?t w2 = Returned ok3 w3"
        and rest: "checkpoint_stage cfg ops stack w3 = Returned () w'"
        using assms(1) one two True ok2
        by (auto simp: app_cycle_def cycle_start_def Let_def split: run.splits)
      have b3: "books_step ?t 1 w2 w3"
        by (rule stage_books_1 [OF three _ q2]) (use assms(2) in \<open>auto simp: cycle_ops_def\<close>)
      from books_trans [OF books_trans [OF b1 b2] books_trans [OF b3 checkpoint_stage_books [OF rest assms(2)
            books_quiet [OF b3 q2]]]]
      show ?thesis using True ok2 by (simp add: numeral_3_eq_3 numeral_2_eq_2)
    qed
  qed
qed

section \<open>The loop over the cycles\<close>

lemma cycle_start_books [simp]:
  "am_iteration_count (g_app_state (cycle_start w)) = am_iteration_count (g_app_state w) + 1"
  "am_error_count (g_app_state (cycle_start w)) = am_error_count (g_app_state w)"
  "g_shutdown_requested (cycle_start w) = g_shutdown_requested w"
  "in_cycle (cycle_start w) \<longleftrightarrow> am_state (g_app_state w) = APP_RUNNING \<and> g_setup_locked (w_rte w)"
  by (simp_all add: cycle_start_def rte_appmanager_checkpoint_signature_reset_def in_cycle_def)

lemma unat_next:
  assumes "(n :: u32) < m"
  shows "unat (n + 1) = unat n + 1"
proof -
  have "unat n + 1 < 2 ^ 32" using assms unsigned_less [of m, where ?'a = nat] by (simp add: word_less_nat_alt)
  then show ?thesis using unat_add_lem [of n 1] by simp
qed

lemma cycles_end:
  assumes "apc_max_iterations cfg > 0" "\<forall>f \<in> cycle_ops ops. keeps_books f" "quiet_channels (w_channels w)"
  shows "app_cycles cfg ops stack w \<noteq> None"
  using assms(3)
proof (induction "unat (apc_max_iterations cfg) - unat (am_iteration_count (g_app_state w))" arbitrary: w
    rule: less_induct)
  case less
  show ?case
  proof (cases "app_goes_on cfg w")
    case True
    then have lt: "am_iteration_count (g_app_state w) < apc_max_iterations cfg"
      using assms(1) by (auto simp: app_goes_on_def)
    then have one: "unat (am_iteration_count (g_app_state w) + 1) = unat (am_iteration_count (g_app_state w)) + 1"
      by (rule unat_next)
    show ?thesis
    proof (cases "app_cycle cfg ops stack w")
      case (Returned u w1)
      then have "am_iteration_count (g_app_state w1) = am_iteration_count (g_app_state w) + 1"
        and quiet: "quiet_channels (w_channels w1)"
        using cycle_books [OF _ assms(2) less.prems] less.prems by (simp_all add: books_step_def)
      then have "unat (apc_max_iterations cfg) - unat (am_iteration_count (g_app_state w1))
          < unat (apc_max_iterations cfg) - unat (am_iteration_count (g_app_state w))"
        using lt one by (simp add: word_less_nat_alt)
      from less.hyps [OF this quiet] show ?thesis using True Returned by (simp add: app_cycles.simps [of _ _ _ w])
    qed (simp add: app_cycles.simps [of _ _ _ w])
  qed (simp add: app_cycles.simps)
qed

lemma cycles_inv:
  assumes run: "app_cycles cfg ops stack w = Some r" and start: "I w"
    and step: "\<And>w w'. I w \<Longrightarrow> app_goes_on cfg w \<Longrightarrow> app_cycle cfg ops stack w = Returned () w' \<Longrightarrow> I w'"
  shows "\<forall>w'. r = Returned () w' \<longrightarrow> I w' \<and> \<not> app_goes_on cfg w'"
proof -
  let ?Q = "\<lambda>cfg' ops' stack' w r. cfg' = cfg \<and> ops' = ops \<and> stack' = stack \<longrightarrow> I w \<longrightarrow>
    (\<forall>w'. r = Returned () w' \<longrightarrow> I w' \<and> \<not> app_goes_on cfg w')"
  have "?Q cfg ops stack w r"
  proof (rule app_cycles.raw_induct [OF _ run, where P = ?Q], intro impI, elim conjE, hypsubst)
    fix rec w r
    assume hyp: "\<And>cfg' ops' stack' w r. rec cfg' ops' stack' w = Some r \<Longrightarrow> ?Q cfg' ops' stack' w r"
      and body: "(if \<not> app_goes_on cfg w then Some (Returned () w)
        else case app_cycle cfg ops stack w of Returned x w1 \<Rightarrow> rec cfg ops stack w1 | Halted w1 \<Rightarrow> Some (Halted w1))
        = Some r" and "I w"
    show "\<forall>w'. r = Returned () w' \<longrightarrow> I w' \<and> \<not> app_goes_on cfg w'"
    proof (cases "app_goes_on cfg w")
      case True
      then show ?thesis
      proof (cases "app_cycle cfg ops stack w")
        case (Returned x w1)
        then show ?thesis using hyp [of cfg ops stack w1 r] body True step [OF \<open>I w\<close> True, of w1] by simp
      qed (use body in auto)
    qed (use body \<open>I w\<close> in auto)
  qed
  then show ?thesis using start by simp
qed

text \<open>What holds between two cycles: the phase, and the budget of errors.\<close>

definition within_budget :: "'x rte_appmanager_config \<Rightarrow> 'x app_world \<Rightarrow> bool" where
  "within_budget cfg w \<longleftrightarrow> (apc_error_threshold cfg > 0 \<longrightarrow> unat (apc_error_threshold cfg) + 2 < 2 ^ 32 \<longrightarrow>
    (g_shutdown_requested w \<or> am_error_count (g_app_state w) < apc_error_threshold cfg) \<and>
    unat (am_error_count (g_app_state w)) \<le> unat (apc_error_threshold cfg) + 2)"

definition between_cycles :: "'x rte_appmanager_config \<Rightarrow> 'x app_world \<Rightarrow> bool" where
  "between_cycles cfg w \<longleftrightarrow> am_state (g_app_state w) = APP_RUNNING \<and> g_setup_locked (w_rte w) \<and>
    within_budget cfg w \<and> quiet_channels (w_channels w) \<and>
    (apc_max_iterations cfg > 0 \<longrightarrow> am_iteration_count (g_app_state w) \<le> apc_max_iterations cfg)"

lemma budget_step:
  assumes "within_budget cfg w" "\<not> g_shutdown_requested w"
    and "books_step (apc_error_threshold cfg) 3 (cycle_start w) w'"
  shows "within_budget cfg w'"
proof -
  let ?t = "apc_error_threshold cfg"
  obtain k where k: "k \<le> 3" "am_error_count (g_app_state w') = am_error_count (g_app_state w) + of_nat k"
    "k > 0 \<longrightarrow> ?t > 0 \<longrightarrow> am_error_count (g_app_state w') \<ge> ?t \<longrightarrow> g_shutdown_requested w'"
    using assms(3) unfolding books_step_def cycle_start_books(2) by blast
  have "(g_shutdown_requested w' \<or> am_error_count (g_app_state w') < ?t) \<and>
      unat (am_error_count (g_app_state w')) \<le> unat ?t + 2"
    if t: "?t > 0" "unat ?t + 2 < 2 ^ 32"
  proof -
    have few: "unat (am_error_count (g_app_state w)) < unat ?t"
      using assms(1,2) t by (auto simp: within_budget_def word_less_nat_alt)
    have "unat (of_nat k :: u32) = k" using k(1) by (simp add: unat_of_nat take_bit_nat_eq_self)
    then have "unat (am_error_count (g_app_state w')) = unat (am_error_count (g_app_state w)) + k"
      using k(1,2) few t(2) unat_add_lem [of "am_error_count (g_app_state w)" "of_nat k"] by simp
    then show ?thesis using few k t by (cases "k = 0") (auto simp: word_less_nat_alt word_le_nat_alt not_less)
  qed
  then show ?thesis by (simp add: within_budget_def)
qed

lemma between_cycles_step:
  assumes "between_cycles cfg w" "app_goes_on cfg w" "app_cycle cfg ops stack w = Returned () w'"
    and "\<forall>f \<in> cycle_ops ops. keeps_books f"
  shows "between_cycles cfg w'"
proof -
  have quiet: "quiet_channels (w_channels w)" using assms(1) by (simp add: between_cycles_def)
  have b: "books_step (apc_error_threshold cfg) 3 (cycle_start w) w'" by (rule cycle_books [OF assms(3,4) quiet])
  then have "in_cycle w'" "quiet_channels (w_channels w')"
    using assms(1) quiet by (simp_all add: books_step_def between_cycles_def)
  moreover have "within_budget cfg w'"
    using budget_step [OF _ _ b] assms(1,2) by (simp add: between_cycles_def app_goes_on_def)
  moreover have "am_iteration_count (g_app_state w') \<le> apc_max_iterations cfg" if "apc_max_iterations cfg > 0"
  proof -
    have "am_iteration_count (g_app_state w) < apc_max_iterations cfg"
      using assms(2) that by (auto simp: app_goes_on_def)
    then show ?thesis using unat_next b by (simp add: books_step_def word_le_nat_alt word_less_nat_alt)
  qed
  ultimately show ?thesis by (simp add: between_cycles_def in_cycle_def)
qed

lemma app_start_books:
  "g_app_state (app_start n v w) = \<lparr>am_state = APP_INITIALIZING, am_iteration_count = 0, am_error_count = 0,
     am_last_error = STATUS_OK\<rparr>"
  "\<not> g_shutdown_requested (app_start n v w)" "\<not> g_checkpoint_signature_active (app_start n v w)"
  "\<not> g_setup_locked (w_rte (app_start n v w))" "w_channels (app_start n v w) = w_channels w"
  by (simp_all add: app_start_def rte_lifecycle_unlock_def)

lemma write_event_locked: "g_setup_locked (rte_log_write_event l site cy src dst ty info ex s) = g_setup_locked s"
proof -
  obtain st t s' where now: "rte_timer_now s = (st, t, s')" by (metis prod_cases3)
  then have "g_setup_locked s' = g_setup_locked s"
    by (auto simp: rte_timer_now_def split: option.splits prod.splits)
  then show ?thesis by (simp add: rte_log_write_event_def now split: option.splits prod.splits)
qed

lemma app_summary_books [simp]:
  "g_app_state (app_summary n w) = g_app_state w"
  "g_checkpoint_signature_active (app_summary n w) = g_checkpoint_signature_active w"
  "g_shutdown_requested (app_summary n w) = g_shutdown_requested w"
  "g_setup_locked (w_rte (app_summary n w)) = g_setup_locked (w_rte w)"
  by (simp_all add: app_summary_def write_event_locked)

lemma finish_books:
  assumes "app_finish cfg shutdown n w = Returned code w'" "keeps_books shutdown"
    and "quiet_channels (w_channels w)"
  shows "g_app_state w' = (g_app_state w)\<lparr>am_state := APP_SHUTDOWN\<rparr>" "\<not> g_setup_locked (w_rte w')"
    "\<not> g_checkpoint_signature_active w'" "g_shutdown_requested w \<Longrightarrow> g_shutdown_requested w'"
    "code = (if am_error_count (g_app_state w) > 0 \<and> apc_error_threshold cfg > 0 then 1 else 0)"
proof -
  obtain status w2 where s: "shutdown (shutdown_start w) = Returned status w2"
    using assms(1) by (auto simp: app_finish_def split: run.splits)
  have k: "g_app_state w2 = g_app_state (shutdown_start w)"
    "g_checkpoint_signature_active w2 = g_checkpoint_signature_active (shutdown_start w)"
    "g_setup_locked (w_rte w2) = g_setup_locked (w_rte (shutdown_start w))"
    "g_shutdown_requested (shutdown_start w) \<Longrightarrow> g_shutdown_requested w2"
  proof -
    have "quiet_channels (w_channels (shutdown_start w))"
      using assms(3) by (simp add: shutdown_start_def set_app_state_def)
    with assms(2) s show "g_app_state w2 = g_app_state (shutdown_start w)"
      "g_checkpoint_signature_active w2 = g_checkpoint_signature_active (shutdown_start w)"
      "g_setup_locked (w_rte w2) = g_setup_locked (w_rte (shutdown_start w))"
      "g_shutdown_requested (shutdown_start w) \<Longrightarrow> g_shutdown_requested w2"
      unfolding keeps_books_def by blast+
  qed
  show "g_app_state w' = (g_app_state w)\<lparr>am_state := APP_SHUTDOWN\<rparr>" "\<not> g_setup_locked (w_rte w')"
    "\<not> g_checkpoint_signature_active w'" "g_shutdown_requested w \<Longrightarrow> g_shutdown_requested w'"
    "code = (if am_error_count (g_app_state w) > 0 \<and> apc_error_threshold cfg > 0 then 1 else 0)"
    using assms(1) [unfolded app_finish_def s run.case Let_def] k
    by (auto simp: set_app_state_def shutdown_start_def rte_lifecycle_unlock_def split: if_splits)
qed

text \<open>A run with complete operations that is not refused, taken apart.\<close>

definition complete_ops ::
  "'x rte_appmanager_operations \<Rightarrow> 'x app_op \<Rightarrow> 'x app_op \<Rightarrow> string \<Rightarrow> string \<Rightarrow> bool" where
  "complete_ops ops init shutdown name version \<longleftrightarrow> op_init ops = Some init \<and> op_execute ops \<noteq> None \<and>
    op_shutdown ops = Some shutdown \<and> op_get_name ops = Some name \<and> op_get_version ops = Some version"

definition idle :: "'x app_world \<Rightarrow> bool" where
  "idle w \<longleftrightarrow> am_state (g_app_state w) \<notin> {APP_INITIALIZING, APP_RUNNING, APP_SHUTTING_DOWN}"

definition app_running :: "'x app_world \<Rightarrow> 'x app_world" where
  "app_running w = (set_app_state APP_RUNNING w)\<lparr>w_rte := rte_lifecycle_lock (w_rte w)\<rparr>"

lemma run_unfold:
  assumes "apc_ops cfg = Some ops" "complete_ops ops init shutdown name version" "idle w"
  shows "rte_appmanager_run (Some cfg) stack w =
    (case init (app_start name version w) of
       Halted w1 \<Rightarrow> Some (Halted w1)
     | Returned status w1 \<Rightarrow>
         if status \<noteq> STATUS_OK then Some (app_init_failed status shutdown w1)
         else (case app_cycles cfg ops stack (app_running w1) of
             None \<Rightarrow> None
           | Some (Halted w3) \<Rightarrow> Some (Halted w3)
           | Some (Returned _ w3) \<Rightarrow> Some (app_finish cfg shutdown name w3)))"
  using assms by (auto simp: rte_appmanager_run_def complete_ops_def idle_def app_running_def Let_def
      split: run.splits option.splits)

lemma run_incomplete:
  assumes "apc_ops cfg = Some ops" "\<And>init shutdown name version. \<not> complete_ops ops init shutdown name version"
  shows "rte_appmanager_run (Some cfg) stack w =
    Some (Returned 1 (app_log LOG_ERROR ''Incomplete rte_appmanager_operations_t'' w))"
proof -
  have "op_init ops = None \<or> op_execute ops = None \<or> op_shutdown ops = None \<or> op_get_name ops = None \<or>
      op_get_version ops = None"
    using assms(2) unfolding complete_ops_def by (metis option.exhaust)
  then show ?thesis using assms(1)
    by (cases "op_init ops"; cases "op_execute ops"; cases "op_shutdown ops"; cases "op_get_name ops";
        cases "op_get_version ops"; simp add: rte_appmanager_run_def)
qed

lemma run_busy:
  assumes "apc_ops cfg = Some ops" "complete_ops ops init shutdown name version" "\<not> idle w"
  shows "rte_appmanager_run (Some cfg) stack w = Some (Returned 1 (app_log LOG_ERROR (snprintf 256
     (''rte_appmanager_run() called while an application is already running (state='' @
      decimal (app_state_code (am_state (g_app_state w))) @
      '') - this is the single entry point, it cannot be re-entered concurrently'')) w))"
  using assms by (auto simp: rte_appmanager_run_def complete_ops_def idle_def)

lemma init_failed_books:
  assumes "app_init_failed status shutdown w = Returned code w'" "keeps_books shutdown"
    and "quiet_channels (w_channels w)"
  shows "g_app_state w' = (g_app_state w)\<lparr>am_state := APP_ERROR, am_last_error := status,
      am_error_count := am_error_count (g_app_state w) + 1\<rparr>"
    "g_setup_locked (w_rte w') = g_setup_locked (w_rte w)"
    "g_checkpoint_signature_active w' = g_checkpoint_signature_active w" "code = 1"
proof -
  let ?w1 = "app_log LOG_ERROR (snprintf 64 (''Initialization failed: '' @ decimal (status_code status))) w"
  let ?w2 = "?w1\<lparr>g_app_state := (g_app_state ?w1)\<lparr>am_state := APP_ERROR, am_last_error := status,
           am_error_count := am_error_count (g_app_state ?w1) + 1\<rparr>\<rparr>"
  obtain st where s: "shutdown ?w2 = Returned st w'" "code = 1"
    using assms(1) by (auto simp: app_init_failed_def Let_def split: run.splits)
  have "g_app_state w' = g_app_state ?w2" "g_checkpoint_signature_active w' = g_checkpoint_signature_active ?w2"
    "g_setup_locked (w_rte w') = g_setup_locked (w_rte ?w2)"
  proof -
    have "quiet_channels (w_channels ?w2)" using assms(3) by simp
    with assms(2) s(1) show "g_app_state w' = g_app_state ?w2"
      "g_checkpoint_signature_active w' = g_checkpoint_signature_active ?w2"
      "g_setup_locked (w_rte w') = g_setup_locked (w_rte ?w2)"
      unfolding keeps_books_def by blast+
  qed
  then show "g_app_state w' = (g_app_state w)\<lparr>am_state := APP_ERROR, am_last_error := status,
      am_error_count := am_error_count (g_app_state w) + 1\<rparr>"
    "g_setup_locked (w_rte w') = g_setup_locked (w_rte w)"
    "g_checkpoint_signature_active w' = g_checkpoint_signature_active w" "code = 1" using s(2) by simp_all
qed

section \<open>The calls of a run\<close>

text \<open>
  The calls of the application's operations are observed through a list that each operation extends with
  its own name, the status it returns and the phase it is called in; \<open>calls\<close> reads the list in the
  state of the outside world. Everything else of the outside world, the clock, the log and the
  channels, leaves the list alone.
\<close>

datatype app_call = CALL_INIT | CALL_PRE_EXECUTE | CALL_EXECUTE | CALL_POST_EXECUTE
  | CALL_CHECKPOINT_RESULT bool | CALL_SHUTDOWN

type_synonym call_entry = "app_call \<times> rte_status \<times> rte_app_state \<times> bool \<times> bool"

definition phase :: "'x app_world \<Rightarrow> rte_app_state \<times> bool \<times> bool" where
  "phase w = (am_state (g_app_state w), g_setup_locked (w_rte w), g_checkpoint_signature_active w)"

definition calls_of :: "('x \<Rightarrow> call_entry list) \<Rightarrow> 'x app_world \<Rightarrow> call_entry list" where
  "calls_of calls w = calls (ext (w_rte w))"

definition watched :: "('x \<Rightarrow> call_entry list) \<Rightarrow> 'x app_world \<Rightarrow> bool" where
  "watched calls w \<longleftrightarrow>
     (\<forall>b T L cs. channels_keep (\<lambda>s. g_setup_locked s = b \<and> s_timer s = T \<and> s_log s = L \<and>
        calls (ext s) = cs) (w_channels w)) \<and>
     (\<forall>a f x. s_timer (w_rte w) = Some a \<longrightarrow> timer_now a = Some f \<longrightarrow> calls (snd (snd (f x))) = calls x) \<and>
     (\<forall>a f l t m x. s_log (w_rte w) = Some a \<longrightarrow> log_write a = Some f \<longrightarrow> calls (f l t m x) = calls x)"

definition records :: "('x \<Rightarrow> call_entry list) \<Rightarrow> app_call \<Rightarrow> 'x app_op \<Rightarrow> bool" where
  "records calls c f \<longleftrightarrow> (\<forall>w status w'. watched calls w \<longrightarrow> f w = Returned status w' \<longrightarrow>
     watched calls w' \<and> calls_of calls w' = calls_of calls w @ [(c, status, phase w)] \<and>
     g_app_state w' = g_app_state w \<and> phase w' = phase w)"

definition recording :: "('x \<Rightarrow> call_entry list) \<Rightarrow> 'x rte_appmanager_operations \<Rightarrow> bool" where
  "recording calls ops \<longleftrightarrow> (\<forall>f. op_init ops = Some f \<longrightarrow> records calls CALL_INIT f) \<and>
     (\<forall>f. op_pre_execute ops = Some f \<longrightarrow> records calls CALL_PRE_EXECUTE f) \<and>
     (\<forall>f. op_execute ops = Some f \<longrightarrow> records calls CALL_EXECUTE f) \<and>
     (\<forall>f. op_post_execute ops = Some f \<longrightarrow> records calls CALL_POST_EXECUTE f) \<and>
     (\<forall>f b. op_on_checkpoint_result ops = Some f \<longrightarrow> records calls (CALL_CHECKPOINT_RESULT b) (f b)) \<and>
     (\<forall>f. op_shutdown ops = Some f \<longrightarrow> records calls CALL_SHUTDOWN f)"

text \<open>
  What a cycle must call, given the status each operation returns and the outcome of the rendezvous: the
  optional first stage, where it succeeds or is absent the execution, where that succeeds the optional
  last stage, whatever it returns the report of the outcome.
\<close>

definition stage_entry :: "bool \<Rightarrow> app_call \<Rightarrow> rte_status \<Rightarrow> call_entry list" where
  "stage_entry present c status = (if present then [(c, status, APP_RUNNING, True, True)] else [])"

definition cycle_entries :: "'x rte_appmanager_operations \<Rightarrow> rte_status \<Rightarrow> rte_status \<Rightarrow> rte_status \<Rightarrow>
    bool \<Rightarrow> rte_status \<Rightarrow> call_entry list" where
  "cycle_entries ops pre exec post committed result =
    stage_entry (op_pre_execute ops \<noteq> None) CALL_PRE_EXECUTE pre @
    (if op_pre_execute ops \<noteq> None \<and> pre \<noteq> STATUS_OK then []
     else stage_entry True CALL_EXECUTE exec @
       (if exec \<noteq> STATUS_OK then []
        else stage_entry (op_post_execute ops \<noteq> None) CALL_POST_EXECUTE post @
          stage_entry (op_on_checkpoint_result ops \<noteq> None) (CALL_CHECKPOINT_RESULT committed) result))"

definition legal_cycle :: "'x rte_appmanager_config \<Rightarrow> 'x rte_appmanager_operations \<Rightarrow> call_entry list \<Rightarrow> bool" where
  "legal_cycle cfg ops t \<longleftrightarrow> (\<exists>pre exec post committed result.
     t = cycle_entries ops pre exec post committed result \<and> (apc_checkpoint cfg \<or> committed))"

text \<open>A step of the run that extends the list by the given entries and stays in its phase.\<close>

definition extends :: "('x \<Rightarrow> call_entry list) \<Rightarrow> call_entry list \<Rightarrow> 'x app_world \<Rightarrow> 'x app_world \<Rightarrow> bool" where
  "extends calls es w w' \<longleftrightarrow> watched calls w' \<and> calls_of calls w' = calls_of calls w @ es \<and> phase w' = phase w \<and>
     am_iteration_count (g_app_state w') = am_iteration_count (g_app_state w)"

lemma extends_refl: "watched calls w \<Longrightarrow> extends calls [] w w"
  by (simp add: extends_def)

lemma extends_trans: "extends calls a w w' \<Longrightarrow> extends calls b w' w'' \<Longrightarrow> extends calls (a @ b) w w''"
  by (simp add: extends_def)

lemma extends_phase: "extends calls a w w' \<Longrightarrow> phase w' = phase w"
  by (simp add: extends_def)

lemma watched_cong:
  "w_channels w' = w_channels w \<Longrightarrow> s_timer (w_rte w') = s_timer (w_rte w) \<Longrightarrow> s_log (w_rte w') = s_log (w_rte w) \<Longrightarrow>
    watched calls w' = watched calls w"
  by (simp add: watched_def)

lemma log_extends:
  assumes "watched calls w"
  shows "extends calls [] w (app_log l m w)"
proof -
  have "s_timer (w_rte (app_log l m w)) = s_timer (w_rte w)" "s_log (w_rte (app_log l m w)) = s_log (w_rte w)"
    by (simp_all add: app_log_def rte_log_write_def split: option.splits)
  then have "watched calls (app_log l m w)" using assms watched_cong [of "app_log l m w" w] by simp
  moreover have "calls_of calls (app_log l m w) = calls_of calls w"
    using assms by (auto simp: calls_of_def app_log_def rte_log_write_def watched_def split: option.splits)
  ultimately show ?thesis by (simp add: extends_def phase_def)
qed

lemma log_watched:
  "watched calls w \<Longrightarrow> watched calls (app_log l m w)"
  "watched calls w \<Longrightarrow> calls_of calls (app_log l m w) = calls_of calls w"
  using log_extends by (auto simp: extends_def)

lemma watched_books [simp]:
  "watched calls (w\<lparr>g_app_state := a\<rparr>) = watched calls w"
  "watched calls (w\<lparr>g_shutdown_requested := b\<rparr>) = watched calls w"
  "watched calls (w\<lparr>g_checkpoint_signature_active := b\<rparr>) = watched calls w"
  "watched calls (w\<lparr>g_checkpoint_signature := n\<rparr>) = watched calls w"
  "watched calls (w\<lparr>w_rte := (w_rte w)\<lparr>g_setup_locked := b\<rparr>\<rparr>) = watched calls w"
  "calls_of calls (w\<lparr>g_app_state := a\<rparr>) = calls_of calls w"
  "calls_of calls (w\<lparr>g_shutdown_requested := b\<rparr>) = calls_of calls w"
  "calls_of calls (w\<lparr>g_checkpoint_signature_active := b\<rparr>) = calls_of calls w"
  "calls_of calls (w\<lparr>g_checkpoint_signature := n\<rparr>) = calls_of calls w"
  "calls_of calls (w\<lparr>w_rte := (w_rte w)\<lparr>g_setup_locked := b\<rparr>\<rparr>) = calls_of calls w"
  by (simp_all add: watched_def calls_of_def)

lemma handle_extends:
  assumes "rte_appmanager_handle_stage_result status nm threshold w = (ok, w')" "watched calls w"
  shows "extends calls [] w w'" "ok \<longleftrightarrow> status = STATUS_OK"
proof -
  let ?w1 = "w\<lparr>g_app_state := (g_app_state w)\<lparr>am_error_count := am_error_count (g_app_state w) + 1,
                    am_last_error := status\<rparr>\<rparr>"
  have keep: "extends calls [] w (app_log l m ?w1)"
    "extends calls [] w ((app_log l' m' (app_log l m ?w1))\<lparr>g_shutdown_requested := True\<rparr>)" for l m l' m'
    using assms(2) by (simp_all add: log_watched extends_def phase_def)
  show "ok \<longleftrightarrow> status = STATUS_OK"
    using assms(1) by (auto simp: rte_appmanager_handle_stage_result_def Let_def split: if_splits)
  show "extends calls [] w w'"
    using assms(1) keep extends_refl [OF assms(2)]
    by (auto simp: rte_appmanager_handle_stage_result_def Let_def split: if_splits)
qed

lemma stage_records:
  assumes "stage (Some f) nm threshold w = Returned ok w'" "records calls c f" "watched calls w"
  obtains status where "extends calls [(c, status, phase w)] w w'" "ok \<longleftrightarrow> status = STATUS_OK"
proof -
  obtain status w1 where f: "f w = Returned status w1"
    and h: "rte_appmanager_handle_stage_result status nm threshold w1 = (ok, w')"
    using assms(1) by (auto simp: stage_def split: run.splits prod.splits)
  have one: "extends calls [(c, status, phase w)] w w1"
    using assms(2,3) f unfolding records_def extends_def by metis
  then have "watched calls w1" by (simp add: extends_def)
  note rest = handle_extends [OF h this]
  show thesis using that extends_trans [OF one rest(1)] rest(2) by simp
qed

text \<open>A stage that may be absent.\<close>

lemma optional_stage_records:
  assumes "stage f nm threshold w = Returned ok w'" "\<And>g. f = Some g \<Longrightarrow> records calls c g" "watched calls w"
    and "phase w = (APP_RUNNING, True, True)"
  shows "\<exists>status. extends calls (stage_entry (f \<noteq> None) c status) w w' \<and>
    ok = (f \<noteq> None \<longrightarrow> status = STATUS_OK)"
proof (cases f)
  case None
  then have "ok \<and> w' = w" using assms(1) by (simp add: stage_def)
  then show ?thesis using None extends_refl [OF assms(3)] by (simp add: stage_entry_def)
next
  case (Some g)
  obtain status where "extends calls [(c, status, phase w)] w w'" "ok \<longleftrightarrow> status = STATUS_OK"
    using stage_records [OF assms(1) [unfolded Some] assms(2) [OF Some] assms(3)] by blast
  then show ?thesis using Some assms(4) by (auto simp: stage_entry_def)
qed

text \<open>The rendezvous calls no operation of the application.\<close>

lemma watched_platform:
  assumes "watched calls w"
  shows "platform_keeps (\<lambda>s. g_setup_locked s = b \<and> s_timer s = s_timer (w_rte w) \<and> s_log s = s_log (w_rte w) \<and>
    calls (ext s) = cs)"
proof -
  have clock: "\<And>a f x st t x'. s_timer (w_rte w) = Some a \<Longrightarrow> timer_now a = Some f \<Longrightarrow> f x = (st, t, x') \<Longrightarrow>
      calls x' = calls x"
    using assms unfolding watched_def by (metis snd_conv)
  show ?thesis
    by (auto simp: platform_keeps_def rte_timer_now_def split: option.splits prod.splits dest!: clock)
qed

lemma checkpoint_op_extends:
  assumes "checkpoint_op stack w = Returned status w'" "watched calls w"
  shows "extends calls [] w w'"
proof -
  obtain cfg mem dogs s where ckp: "rte_channel_checkpoint (ac_voter (w_checkpoint w)) (Some cfg)
      (stack (am_iteration_count (g_app_state w))) (w_channels w) (w_dogs w) (w_rte w) =
      Returned status (mem, dogs, s)" and w': "w' = w\<lparr>w_channels := mem, w_dogs := dogs, w_rte := s\<rparr>"
    by (rule checkpoint_op_returns [OF assms(1)])
  let ?I = "\<lambda>s. g_setup_locked s = g_setup_locked (w_rte w) \<and> s_timer s = s_timer (w_rte w) \<and>
    s_log s = s_log (w_rte w) \<and> calls (ext s) = calls (ext (w_rte w))"
  have "channels_keep ?I (w_channels w)" using assms(2) by (simp add: watched_def)
  note kept = checkpoint_keeps [OF ckp watched_platform [OF assms(2)] this, simplified]
  have "watched calls w'"
    using assms(2) kept by (simp add: watched_def w' same_callbacks_keep [OF kept(2)])
  then show ?thesis using kept(1) by (simp add: extends_def calls_of_def phase_def w')
qed

lemma checkpoint_stage_calls:
  assumes "checkpoint_stage cfg ops stack w = Returned () w'" "recording calls ops" "watched calls w"
    and "phase w = (APP_RUNNING, True, True)"
  obtains committed result where "extends calls (stage_entry (op_on_checkpoint_result ops \<noteq> None)
      (CALL_CHECKPOINT_RESULT committed) result) w w'" "apc_checkpoint cfg \<or> committed"
proof -
  obtain ok w1 ok' where
    one: "stage (if apc_checkpoint cfg \<and> ac_voter (w_checkpoint w) \<noteq> None then Some (checkpoint_op stack)
      else None) ''checkpoint'' (apc_error_threshold cfg) w = Returned ok w1" and
    two: "stage (map_option (\<lambda>f. f ok) (op_on_checkpoint_result ops)) ''on_checkpoint_result''
      (apc_error_threshold cfg) w1 = Returned ok' w'"
    using assms(1) by (auto simp: checkpoint_stage_def split: run.splits)
  have b1: "extends calls [] w w1 \<and> (apc_checkpoint cfg \<or> ok)"
  proof (cases "apc_checkpoint cfg \<and> ac_voter (w_checkpoint w) \<noteq> None")
    case True
    then obtain st w2 where c: "checkpoint_op stack w = Returned st w2"
      and h: "rte_appmanager_handle_stage_result st ''checkpoint'' (apc_error_threshold cfg) w2 = (ok, w1)"
      using one by (auto simp: stage_def split: run.splits prod.splits)
    have e: "extends calls [] w w2" by (rule checkpoint_op_extends [OF c assms(3)])
    then have "watched calls w2" by (simp add: extends_def)
    from extends_trans [OF e handle_extends(1) [OF h this]] True show ?thesis by simp
  next
    case False
    then have "ok \<and> w1 = w" using one by (auto simp: stage_def)
    then show ?thesis using extends_refl [OF assms(3)] by simp
  qed
  then have w1: "watched calls w1" "phase w1 = (APP_RUNNING, True, True)"
    using assms(4) by (simp_all add: extends_def)
  obtain result where "extends calls (stage_entry (map_option (\<lambda>f. f ok) (op_on_checkpoint_result ops) \<noteq> None)
      (CALL_CHECKPOINT_RESULT ok) result) w1 w'"
  proof -
    have "records calls (CALL_CHECKPOINT_RESULT ok) g"
      if "map_option (\<lambda>f. f ok) (op_on_checkpoint_result ops) = Some g" for g
      using assms(2) that by (auto simp: recording_def)
    from optional_stage_records [OF two this w1] show thesis using that by blast
  qed
  from extends_trans [OF conjunct1 [OF b1] this] b1 show thesis using that by auto
qed

lemma cycle_calls:
  assumes "app_cycle cfg ops stack w = Returned () w'" "recording calls ops" "watched calls (cycle_start w)"
    and "phase (cycle_start w) = (APP_RUNNING, True, True)" "op_execute ops \<noteq> None"
  obtains t where "legal_cycle cfg ops t" "extends calls t (cycle_start w) w'"
proof -
  let ?t = "apc_error_threshold cfg"
  have pre_rec: "op_pre_execute ops = Some g \<Longrightarrow> records calls CALL_PRE_EXECUTE g"
    and exec_rec: "op_execute ops = Some g \<Longrightarrow> records calls CALL_EXECUTE g"
    and post_rec: "op_post_execute ops = Some g \<Longrightarrow> records calls CALL_POST_EXECUTE g" for g
    using assms(2) by (simp_all add: recording_def)
  obtain ok w1 where one: "stage (op_pre_execute ops) ''pre_execute'' ?t (cycle_start w) = Returned ok w1"
    using assms(1) by (auto simp: app_cycle_def cycle_start_def Let_def split: run.splits)
  obtain pre where e1: "extends calls (stage_entry (op_pre_execute ops \<noteq> None) CALL_PRE_EXECUTE pre) (cycle_start w) w1"
    and ok1: "ok \<longleftrightarrow> (op_pre_execute ops \<noteq> None \<longrightarrow> pre = STATUS_OK)"
    using optional_stage_records [OF one pre_rec assms(3,4)] assms(5) by auto
  have legal: "legal_cycle cfg ops (cycle_entries ops pre exec post committed result)"
    if "apc_checkpoint cfg \<or> committed" for exec post committed result
    using that unfolding legal_cycle_def by blast
  show thesis
  proof (cases ok)
    case False
    then have "w' = w1" using assms(1) one by (simp add: app_cycle_def cycle_start_def Let_def)
    then show thesis using that [OF legal [of True]] e1 ok1 False by (simp add: cycle_entries_def)
  next
    case ok: True
    have w1: "watched calls w1" "phase w1 = (APP_RUNNING, True, True)"
      using e1 assms(4) by (simp_all add: extends_def)
    obtain ok2 w2 where two: "stage (op_execute ops) ''execute'' ?t w1 = Returned ok2 w2"
      using assms(1) one ok by (auto simp: app_cycle_def cycle_start_def Let_def split: run.splits)
    obtain exec where "extends calls (stage_entry (op_execute ops \<noteq> None) CALL_EXECUTE exec) w1 w2"
      and ok2: "ok2 \<longleftrightarrow> exec = STATUS_OK"
      using optional_stage_records [OF two exec_rec w1] assms(5) by auto
    then have e2: "extends calls (stage_entry True CALL_EXECUTE exec) w1 w2" using assms(5) by simp
    note e12 = extends_trans [OF e1 e2]
    show thesis
    proof (cases ok2)
      case False
      then have "w' = w2" using assms(1) one two ok by (simp add: app_cycle_def cycle_start_def Let_def)
      moreover have "cycle_entries ops pre exec STATUS_OK True STATUS_OK =
          stage_entry (op_pre_execute ops \<noteq> None) CALL_PRE_EXECUTE pre @ stage_entry True CALL_EXECUTE exec"
        using ok1 ok2 ok False by (auto simp: cycle_entries_def)
      ultimately show thesis using that [OF legal [of True exec STATUS_OK STATUS_OK]] e12 by simp
    next
      case True
      have w2: "watched calls w2" "phase w2 = (APP_RUNNING, True, True)"
        using e2 w1 by (simp_all add: extends_def)
      obtain ok3 w3 where three: "stage (op_post_execute ops) ''post_execute'' ?t w2 = Returned ok3 w3"
        and rest: "checkpoint_stage cfg ops stack w3 = Returned () w'"
        using assms(1) one two ok True
        by (auto simp: app_cycle_def cycle_start_def Let_def split: run.splits)
      obtain post where e3: "extends calls (stage_entry (op_post_execute ops \<noteq> None) CALL_POST_EXECUTE post) w2 w3"
        using optional_stage_records [OF three post_rec w2] assms(5) by auto
      have w3: "watched calls w3" "phase w3 = (APP_RUNNING, True, True)"
        using e3 w2 by (simp_all add: extends_def)
      obtain committed result where e4: "extends calls (stage_entry (op_on_checkpoint_result ops \<noteq> None)
          (CALL_CHECKPOINT_RESULT committed) result) w3 w'" and com: "apc_checkpoint cfg \<or> committed"
        using checkpoint_stage_calls [OF rest assms(2) w3] by blast
      from extends_trans [OF e12 extends_trans [OF e3 e4]]
      have "extends calls (cycle_entries ops pre exec post committed result) (cycle_start w) w'"
        using ok ok1 ok2 True by (auto simp: cycle_entries_def)
      then show thesis using that [OF legal [OF com]] by blast
    qed
  qed
qed

text \<open>What the cycles so far have called.\<close>

definition called_so_far :: "('x \<Rightarrow> call_entry list) \<Rightarrow> 'x rte_appmanager_config \<Rightarrow>
    'x rte_appmanager_operations \<Rightarrow> call_entry list \<Rightarrow> 'x app_world \<Rightarrow> bool" where
  "called_so_far calls cfg ops base w \<longleftrightarrow> watched calls w \<and> am_state (g_app_state w) = APP_RUNNING \<and>
     g_setup_locked (w_rte w) \<and>
     (\<exists>cycles. calls_of calls w = base @ concat cycles \<and> (\<forall>t \<in> set cycles. legal_cycle cfg ops t) \<and>
        am_iteration_count (g_app_state w) = of_nat (length cycles))"

lemma cycle_start_watched [simp]:
  "watched calls (cycle_start w) = watched calls w" "calls_of calls (cycle_start w) = calls_of calls w"
  by (simp_all add: cycle_start_def rte_appmanager_checkpoint_signature_reset_def)

lemma cycle_start_phase:
  "phase (cycle_start w) = (am_state (g_app_state w), g_setup_locked (w_rte w), True)"
  by (simp add: cycle_start_def rte_appmanager_checkpoint_signature_reset_def phase_def)

lemma called_step:
  assumes "called_so_far calls cfg ops base w" "app_cycle cfg ops stack w = Returned () w'"
    and "recording calls ops" "op_execute ops \<noteq> None"
  shows "called_so_far calls cfg ops base w'"
proof -
  obtain cycles where c: "calls_of calls w = base @ concat cycles" "\<forall>t \<in> set cycles. legal_cycle cfg ops t"
    "am_iteration_count (g_app_state w) = of_nat (length cycles)"
    using assms(1) by (auto simp: called_so_far_def)
  have "phase (cycle_start w) = (APP_RUNNING, True, True)" "watched calls (cycle_start w)"
    using assms(1) by (simp_all add: called_so_far_def cycle_start_phase)
  then obtain t where t: "legal_cycle cfg ops t" and e: "extends calls t (cycle_start w) w'"
    using cycle_calls [OF assms(2,3) _ _ assms(4)] by blast
  have "calls_of calls w' = base @ concat (cycles @ [t])" "\<forall>t \<in> set (cycles @ [t]). legal_cycle cfg ops t"
    "am_iteration_count (g_app_state w') = of_nat (length (cycles @ [t]))"
    using c t e by (auto simp: extends_def)
  moreover have "watched calls w'" "am_state (g_app_state w') = APP_RUNNING" "g_setup_locked (w_rte w')"
    using e assms(1) by (simp_all add: extends_def cycle_start_phase called_so_far_def) (simp_all add: phase_def)
  ultimately show ?thesis unfolding called_so_far_def by blast
qed

lemma write_event_calls:
  assumes "watched calls w"
  shows "calls (ext (rte_log_write_event l site cy src dst ty info ex (w_rte w))) = calls (ext (w_rte w))"
proof -
  have clock: "rte_timer_now (w_rte w) = (st, t, s') \<Longrightarrow> calls (ext s') = calls (ext (w_rte w))" for st t s'
    using watched_platform [OF assms, of "g_setup_locked (w_rte w)" "calls (ext (w_rte w))"]
    unfolding platform_keeps_def by blast
  show ?thesis using assms clock
    by (auto simp: rte_log_write_event_def watched_def Let_def split: option.splits prod.splits)
qed

lemma finish_calls:
  assumes "app_finish cfg shutdown n w = Returned code w'" "records calls CALL_SHUTDOWN shutdown" "watched calls w"
  shows "\<exists>status. calls_of calls w' =
      calls_of calls w @ [(CALL_SHUTDOWN, status, APP_SHUTTING_DOWN, False, False)] \<and>
    am_iteration_count (g_app_state w') = am_iteration_count (g_app_state w)"
proof -
  obtain status w2 where s: "shutdown (shutdown_start w) = Returned status w2"
    using assms(1) by (auto simp: app_finish_def split: run.splits)
  have start: "watched calls (shutdown_start w)" "calls_of calls (shutdown_start w) = calls_of calls w"
    "phase (shutdown_start w) = (APP_SHUTTING_DOWN, False, False)"
    "am_iteration_count (g_app_state (shutdown_start w)) = am_iteration_count (g_app_state w)"
    using assms(3) by (simp_all add: shutdown_start_def set_app_state_def rte_lifecycle_unlock_def phase_def
        watched_def calls_of_def)
  have rec: "watched calls w2" "calls_of calls w2 = calls_of calls (shutdown_start w) @
      [(CALL_SHUTDOWN, status, phase (shutdown_start w))]" "g_app_state w2 = g_app_state (shutdown_start w)"
    using assms(2) s start(1) unfolding records_def by blast+
  let ?w3 = "if status \<noteq> STATUS_OK then app_log LOG_WARNING (snprintf 64 (''Shutdown returned non-OK status: '' @
    decimal (status_code status))) w2 else w2"
  have w3: "watched calls (set_app_state APP_SHUTDOWN ?w3)"
    "calls_of calls (set_app_state APP_SHUTDOWN ?w3) = calls_of calls w2" "g_app_state ?w3 = g_app_state w2"
    using rec(1) log_watched by (auto simp: set_app_state_def)
  have w': "w' = app_summary n (set_app_state APP_SHUTDOWN ?w3)"
    using assms(1) by (simp add: app_finish_def s Let_def)
  have "calls_of calls w' = calls_of calls w2"
    using write_event_calls [OF w3(1)] w3(2) by (simp add: w' app_summary_def calls_of_def)
  moreover have "am_iteration_count (g_app_state w') = am_iteration_count (g_app_state w)"
    using w3(3) rec(3) start(4) by (simp add: w' set_app_state_def)
  ultimately show ?thesis using rec start by auto
qed

lemma start_watched:
  assumes "watched calls w"
  shows "watched calls (app_start name version w)" "calls_of calls (app_start name version w) = calls_of calls w"
    "phase (app_start name version w) = (APP_INITIALIZING, False, False)"
proof -
  let ?w = "w\<lparr>g_app_state := \<lparr>am_state = APP_INITIALIZING, am_iteration_count = 0, am_error_count = 0,
           am_last_error = STATUS_OK\<rparr>, g_shutdown_requested := False, g_checkpoint_signature_active := False,
         w_rte := rte_lifecycle_unlock (w_rte w)\<rparr>"
  have "watched calls ?w" "calls_of calls ?w = calls_of calls w"
    using assms by (simp_all add: watched_def calls_of_def rte_lifecycle_unlock_def)
  then show "watched calls (app_start name version w)"
    "calls_of calls (app_start name version w) = calls_of calls w"
    using log_watched [of calls ?w] by (simp_all add: app_start_def)
  show "phase (app_start name version w) = (APP_INITIALIZING, False, False)"
    using app_start_books [of name version w] by (simp add: phase_def)
qed

lemma init_failed_calls:
  assumes "app_init_failed status shutdown w = Returned code w'" "records calls CALL_SHUTDOWN shutdown"
    and "watched calls w" "phase w = (p, b, a)"
  shows "\<exists>status'. calls_of calls w' = calls_of calls w @ [(CALL_SHUTDOWN, status', APP_ERROR, b, a)] \<and>
    am_iteration_count (g_app_state w') = am_iteration_count (g_app_state w)"
proof -
  let ?w1 = "app_log LOG_ERROR (snprintf 64 (''Initialization failed: '' @ decimal (status_code status))) w"
  let ?w2 = "?w1\<lparr>g_app_state := (g_app_state ?w1)\<lparr>am_state := APP_ERROR, am_last_error := status,
           am_error_count := am_error_count (g_app_state ?w1) + 1\<rparr>\<rparr>"
  obtain st where s: "shutdown ?w2 = Returned st w'"
    using assms(1) by (auto simp: app_init_failed_def Let_def split: run.splits)
  have "watched calls ?w2" "calls_of calls ?w2 = calls_of calls w" "phase ?w2 = (APP_ERROR, b, a)"
    using assms(4) log_watched [OF assms(3)] by (simp_all add: phase_def)
  moreover have "watched calls ?w2 \<Longrightarrow> calls_of calls w' = calls_of calls ?w2 @ [(CALL_SHUTDOWN, st, phase ?w2)] \<and>
      g_app_state w' = g_app_state ?w2"
    using assms(2) s unfolding records_def by blast
  ultimately show ?thesis by auto
qed

section \<open>Marks as a chain of checksums\<close>

lemma encode_le: "rte_appmanager_encode_u64_le v = le_bytes 8 v"
proof -
  have "ucast (x AND 0xFF) = (ucast x :: u8)" for x :: u64
  proof -
    have "(0xFF :: u64) = mask 8" by (simp add: mask_eq_exp_minus_1)
    then have "x AND 0xFF = take_bit 8 x" by (simp only: take_bit_eq_mask)
    then show ?thesis by (simp only:) (rule bit_word_eqI, auto simp: bit_simps)
  qed
  then show ?thesis by (simp add: rte_appmanager_encode_u64_le_def le_bytes_def)
qed

definition mark_text :: "string option \<times> i32 \<times> string option \<Rightarrow> string option" where
  "mark_text m = (case m of (_, _, Some l) \<Rightarrow> Some (take 127 l)
     | (Some f, line, None) \<Rightarrow> Some (take 127 (f @ '':'' @ int_text (sint line)))
     | _ \<Rightarrow> None)"

definition chain_mark :: "rte_crc64_polynomial \<Rightarrow> u64 \<Rightarrow> string option \<Rightarrow> u64" where
  "chain_mark p signature t = (case t of None \<Rightarrow> signature
     | Some t \<Rightarrow> crc64_bits (crc_poly p) (le_bytes 8 signature @ le_bytes 8 (crc64_bits (crc_poly p) (text_bytes t))))"

definition apply_mark :: "string option \<times> i32 \<times> string option \<Rightarrow> 'x app_world \<Rightarrow> 'x app_world" where
  "apply_mark m w = (case m of (file, line, label) \<Rightarrow> rte_appmanager_checkpoint_mark file line label w)"

lemma one_mark:
  assumes "cm_ready p (g_checksum (w_rte w))" "g_checkpoint_signature_active w"
  shows "g_checkpoint_signature (apply_mark m w) = chain_mark p (g_checkpoint_signature w) (mark_text m)"
    "cm_ready p (g_checksum (w_rte (apply_mark m w)))" "g_checkpoint_signature_active (apply_mark m w)"
proof -
  obtain fname line label where m: "m = (fname, line, label)" by (cases m)
  have tx: "(case (label, fname) of (Some l, _) \<Rightarrow> Some (snprintf 128 l)
       | (None, Some f) \<Rightarrow> Some (snprintf 128 (f @ '':'' @ int_text (sint line))) | _ \<Rightarrow> None) = mark_text m"
    by (auto simp: m mark_text_def snprintf_def split: option.splits)
  show "g_checkpoint_signature (apply_mark m w) = chain_mark p (g_checkpoint_signature w) (mark_text m)"
    "cm_ready p (g_checksum (w_rte (apply_mark m w)))" "g_checkpoint_signature_active (apply_mark m w)"
  proof (atomize (full), cases "mark_text m")
    case (Some t)
    obtain h cm1 where one: "rte_checksum_crc64 (Some (text_bytes t)) (length t) (g_checksum (w_rte w)) = (h, cm1)"
      by fastforce
    obtain g cm2 where two: "rte_checksum_crc64 (Some (le_bytes 8 (g_checkpoint_signature w) @ le_bytes 8 h)) 16 cm1
        = (g, cm2)" by fastforce
    have h: "h = crc64_bits (crc_poly p) (text_bytes t)"
      using crc64_ready [OF assms(1), of "text_bytes t" "length t"] one by simp
    have r1: "cm_ready p cm1" using cm_ready_crc64_result [OF one] assms(1) by simp
    have g: "g = crc64_bits (crc_poly p) (le_bytes 8 (g_checkpoint_signature w) @ le_bytes 8 h)"
      using crc64_ready [OF r1, of "le_bytes 8 (g_checkpoint_signature w) @ le_bytes 8 h" 16] two by simp
    have r2: "cm_ready p cm2" using cm_ready_crc64_result [OF two] r1 by simp
    have "apply_mark m w = w\<lparr>g_checkpoint_signature := g, w_rte := (w_rte w)\<lparr>g_checksum := cm2\<rparr>\<rparr>"
      using assms(2) tx Some
      by (simp add: apply_mark_def m rte_appmanager_checkpoint_mark_def encode_le one two Let_def)
    then show "g_checkpoint_signature (apply_mark m w) = chain_mark p (g_checkpoint_signature w) (mark_text m) \<and>
      cm_ready p (g_checksum (w_rte (apply_mark m w))) \<and> g_checkpoint_signature_active (apply_mark m w)"
      using Some g h r2 assms(2) by (simp add: chain_mark_def)
  next
    case None
    then have "apply_mark m w = w" using assms(2) tx
      by (simp add: apply_mark_def m rte_appmanager_checkpoint_mark_def)
    then show "g_checkpoint_signature (apply_mark m w) = chain_mark p (g_checkpoint_signature w) (mark_text m) \<and>
      cm_ready p (g_checksum (w_rte (apply_mark m w))) \<and> g_checkpoint_signature_active (apply_mark m w)"
      using assms None by (simp add: chain_mark_def)
  qed
qed

lemma marks_chain:
  "cm_ready p (g_checksum (w_rte w)) \<Longrightarrow> g_checkpoint_signature_active w \<Longrightarrow>
    g_checkpoint_signature (fold apply_mark marks w) =
      foldl (chain_mark p) (g_checkpoint_signature w) (map mark_text marks)"
  by (induction marks arbitrary: w) (simp_all add: one_mark)

section \<open>Properties\<close>

text \<open>C25. How a run ends that returns, with or without a checkpoint attached. The contract: sending and
  receiving on the channels leaves the setup lock alone, and so do the application's operations, which
  also leave the manager's books alone, take back no request to stop and install no other channels.
  Then either the initialisation failed: exit code 1, state ERROR. Or the cycles ended because a stop
  was requested or the iterations were used up, never more than allowed, with at most two errors more
  than the threshold, in state SHUTDOWN; the exit code is then 1 as soon as there is a threshold and
  one single error. In both cases the setup is open again and no checkpoint signature is active.\<close>

theorem app_run_outcome:
  assumes "rte_appmanager_run (Some cfg) stack w = Some (Returned code w')"
    and "apc_ops cfg = Some ops" "complete_ops ops init shutdown name version" "idle w"
    and "keeps_books init" "keeps_books shutdown" "\<forall>f \<in> cycle_ops ops. keeps_books f"
    and "quiet_channels (w_channels w)"
  shows "(let books = g_app_state w'; threshold = apc_error_threshold cfg; limit = apc_max_iterations cfg in
      (am_state books = APP_ERROR \<and> code = 1 \<and> am_iteration_count books = 0 \<and> am_error_count books = 1 \<or>
       am_state books = APP_SHUTDOWN \<and>
       code = (if am_error_count books > 0 \<and> threshold > 0 then 1 else 0) \<and>
       (g_shutdown_requested w' \<or> limit > 0 \<and> am_iteration_count books = limit) \<and>
       (limit > 0 \<longrightarrow> am_iteration_count books \<le> limit) \<and>
       (threshold > 0 \<longrightarrow> unat threshold + 2 < 2 ^ 32 \<longrightarrow> unat (am_error_count books) \<le> unat threshold + 2))) \<and>
    \<not> g_setup_locked (w_rte w') \<and> \<not> g_checkpoint_signature_active w'"
proof -
  note run = run_unfold [OF assms(2-4)]
  let ?w0 = "app_start name version w"
  obtain status w1 where init: "init ?w0 = Returned status w1"
    using assms(1) by (auto simp: run split: run.splits)
  have books: "g_app_state w1 = g_app_state ?w0" "\<not> g_checkpoint_signature_active w1"
    "\<not> g_setup_locked (w_rte w1)" "quiet_channels (w_channels w1)"
    using assms(5,8) init app_start_books [of name version w] unfolding keeps_books_def by metis+
  show ?thesis
  proof (cases "status = STATUS_OK")
    case False
    then have "app_init_failed status shutdown w1 = Returned code w'" using assms(1) by (simp add: run init)
    note failed = init_failed_books [OF this assms(6) books(4)]
    show ?thesis using failed books app_start_books(1) [of name version w] by (simp add: Let_def)
  next
    case True
    then obtain w3 where cycles: "app_cycles cfg ops stack (app_running w1) = Some (Returned () w3)"
      and fin: "app_finish cfg shutdown name w3 = Returned code w'"
      using assms(1) by (auto simp: run init split: option.splits run.splits)
    have "between_cycles cfg (app_running w1)" using books app_start_books(1) [of name version w]
      by (simp add: between_cycles_def within_budget_def app_running_def set_app_state_def rte_lifecycle_lock_def)
    from cycles_inv [where I = "between_cycles cfg", OF cycles this]
    have inv: "between_cycles cfg w3" and stop: "\<not> app_goes_on cfg w3"
      using between_cycles_step [OF _ _ _ assms(7)] by simp_all
    have q3: "quiet_channels (w_channels w3)" using inv by (simp add: between_cycles_def)
    show ?thesis using inv stop finish_books [OF fin assms(6) q3]
      by (auto simp: Let_def between_cycles_def within_budget_def app_goes_on_def not_less word_gt_0)
  qed
qed

text \<open>The witnesses are runs of an application whose every operation does nothing but extend a list in the
  outside world, with a rendezvous that succeeds: one cycle, whose last stage fails.\<close>

definition tracing_op :: "app_call \<Rightarrow> rte_status \<Rightarrow> call_entry list app_op" where
  "tracing_op c status w =
    Returned status (w\<lparr>w_rte := (w_rte w)\<lparr>ext := ext (w_rte w) @ [(c, status, phase w)]\<rparr>\<rparr>)"

definition tracing_ops :: "call_entry list rte_appmanager_operations" where
  "tracing_ops = \<lparr>op_init = Some (tracing_op CALL_INIT STATUS_OK),
     op_pre_execute = Some (tracing_op CALL_PRE_EXECUTE STATUS_OK),
     op_execute = Some (tracing_op CALL_EXECUTE STATUS_OK),
     op_post_execute = Some (tracing_op CALL_POST_EXECUTE STATUS_TIMEOUT),
     op_on_checkpoint_result = Some (\<lambda>b. tracing_op (CALL_CHECKPOINT_RESULT b) STATUS_OK),
     op_shutdown = Some (tracing_op CALL_SHUTDOWN STATUS_OK), op_get_name = Some ''app'',
     op_get_version = Some ''1''\<rparr>"

definition tracing_config :: "call_entry list rte_appmanager_config" where
  "tracing_config = \<lparr>apc_ops = Some tracing_ops, apc_max_iterations = 1, apc_error_threshold = 10,
     apc_checkpoint = True\<rparr>"

definition tracing_world :: "call_entry list app_world" where
  "tracing_world = \<lparr>g_app_state = \<lparr>am_state = APP_UNINITIALIZED, am_iteration_count = 0, am_error_count = 0,
       am_last_error = STATUS_OK\<rparr>, g_shutdown_requested = False, g_checkpoint_signature = 0,
     g_checkpoint_signature_active = False,
     w_checkpoint = \<lparr>ac_voter = Some echo_voter, ac_max_delay_ms = 100, ac_expected_node_count = 1,
       ac_watchdog = None\<rparr>,
     w_channels = (\<lambda>_. echo_channel 0), w_dogs = initial_watchdogs, w_rte = echo_platform []\<rparr>"

lemma echo_channels_keep: "channels_keep I (\<lambda>_. echo_channel cid)"
  by (auto simp: channels_keep_def echo_channel_def)

lemma tracing_books [simp]: "keeps_books (tracing_op c status)"
  by (simp add: keeps_books_def tracing_op_def)

lemma tracing_records [simp]: "records id c (tracing_op c status)"
  by (auto simp: records_def tracing_op_def watched_def calls_of_def phase_def)

lemma tracing_laws:
  "apc_ops tracing_config = Some tracing_ops"
  "complete_ops tracing_ops (tracing_op CALL_INIT STATUS_OK) (tracing_op CALL_SHUTDOWN STATUS_OK) ''app'' ''1''"
  "idle tracing_world" "\<forall>f \<in> cycle_ops tracing_ops. keeps_books f" "quiet_channels (w_channels tracing_world)"
  "recording id tracing_ops" "watched id tracing_world"
  by (auto simp: tracing_config_def tracing_ops_def complete_ops_def idle_def tracing_world_def cycle_ops_def
      quiet_channels_def echo_channels_keep recording_def watched_def echo_platform_def initial_rte_def)

text \<open>What the stages before the rendezvous leave as they found it.\<close>

definition ready_for_rendezvous :: "call_entry list app_world \<Rightarrow> bool" where
  "ready_for_rendezvous w \<longleftrightarrow> echo_known (w_rte w) \<and> w_channels w = w_channels tracing_world \<and>
     w_checkpoint w = w_checkpoint tracing_world \<and> g_checkpoint_signature w = CHECKPOINT_SIGNATURE_SEED"

lemma tracing_stage:
  assumes "ready_for_rendezvous w"
  shows "\<exists>w'. stage (Some (tracing_op c status)) nm t w = Returned (status = STATUS_OK) w' \<and>
    ready_for_rendezvous w'"
proof -
  have log: "ready_for_rendezvous (app_log l m v) = ready_for_rendezvous v" for l m v
    by (simp add: ready_for_rendezvous_def app_log_def rte_log_write_def echo_known_def split: option.splits)
  have flag: "ready_for_rendezvous (v\<lparr>g_shutdown_requested := b\<rparr>) = ready_for_rendezvous v"
    "ready_for_rendezvous (v\<lparr>g_app_state := a\<rparr>) = ready_for_rendezvous v" for v a b
    by (simp_all add: ready_for_rendezvous_def)
  have "ready_for_rendezvous (w\<lparr>w_rte := (w_rte w)\<lparr>ext := e\<rparr>\<rparr>)" for e
    using assms by (simp add: ready_for_rendezvous_def echo_known_def)
  then show ?thesis
    by (simp add: stage_def tracing_op_def rte_appmanager_handle_stage_result_def Let_def log flag)
qed

lemma tracing_rendezvous:
  assumes "ready_for_rendezvous w"
  shows "\<exists>w'. checkpoint_op (\<lambda>_ _ _. replicate 272 0) w = Returned STATUS_OK w'"
proof -
  have cid: "rte_appmanager_checkpoint_fold_signature CHECKPOINT_SIGNATURE_SEED = 0"
    by (simp add: rte_appmanager_checkpoint_fold_signature_def CHECKPOINT_SIGNATURE_SEED_def)
  have "\<exists>y. rte_channel_checkpoint (Some echo_voter) (Some (echo_config 0)) (\<lambda>_ _. replicate 272 0)
      (w_channels w) (w_dogs w) (w_rte w) = Returned STATUS_OK y"
    by (rule echo_rendezvous) (use assms in \<open>simp_all add: ready_for_rendezvous_def tracing_world_def\<close>)
  with assms show ?thesis
    by (auto simp: checkpoint_op_def cid ready_for_rendezvous_def tracing_world_def echo_config_def Let_def
        split: prod.splits)
qed

lemma tracing_cycle:
  assumes "echo_known (w_rte w)" "w_channels w = w_channels tracing_world"
    and "w_checkpoint w = w_checkpoint tracing_world"
  shows "\<exists>w'. app_cycle tracing_config tracing_ops (\<lambda>_ _ _. replicate 272 0) w = Returned () w'"
proof -
  have r0: "ready_for_rendezvous (cycle_start w)"
    using assms by (simp add: ready_for_rendezvous_def cycle_start_def rte_appmanager_checkpoint_signature_reset_def)
  let ?t = "apc_error_threshold tracing_config"
  obtain w1 where one: "stage (op_pre_execute tracing_ops) ''pre_execute'' ?t (cycle_start w) = Returned True w1"
    and r1: "ready_for_rendezvous w1"
    using tracing_stage [OF r0, of CALL_PRE_EXECUTE STATUS_OK] by (auto simp: tracing_ops_def)
  obtain w2 where two: "stage (op_execute tracing_ops) ''execute'' ?t w1 = Returned True w2"
    and r2: "ready_for_rendezvous w2"
    using tracing_stage [OF r1, of CALL_EXECUTE STATUS_OK] by (auto simp: tracing_ops_def)
  obtain w3 where three: "stage (op_post_execute tracing_ops) ''post_execute'' ?t w2 = Returned False w3"
    and r3: "ready_for_rendezvous w3"
    using tracing_stage [OF r2, of CALL_POST_EXECUTE STATUS_TIMEOUT] by (auto simp: tracing_ops_def)
  obtain w4 where four: "checkpoint_op (\<lambda>_ _ _. replicate 272 0) w3 = Returned STATUS_OK w4"
    using tracing_rendezvous [OF r3] by blast
  have "ac_voter (w_checkpoint w3) \<noteq> None"
    using r3 by (simp add: ready_for_rendezvous_def tracing_world_def)
  then have "\<exists>w'. checkpoint_stage tracing_config tracing_ops (\<lambda>_ _ _. replicate 272 0) w3 = Returned () w'"
    using four by (simp add: checkpoint_stage_def tracing_config_def stage_def tracing_ops_def tracing_op_def
        rte_appmanager_handle_stage_result_def)
  with one two three show ?thesis by (simp add: app_cycle_def cycle_start_def Let_def)
qed

text \<open>The run ends after its one cycle.\<close>

lemma tracing_run:
  "\<exists>code w'. rte_appmanager_run (Some tracing_config) (\<lambda>_ _ _. replicate 272 0) tracing_world =
    Some (Returned code w') \<and> am_iteration_count (g_app_state w') = 1"
proof -
  let ?stack = "\<lambda>_ _ _. replicate 272 0 :: bytes"
  let ?w0 = "app_start ''app'' ''1'' tracing_world"
  obtain w1 where init: "tracing_op CALL_INIT STATUS_OK ?w0 = Returned STATUS_OK w1" by (simp add: tracing_op_def)
  have w0: "echo_known (w_rte ?w0)" "w_channels ?w0 = w_channels tracing_world"
      "w_checkpoint ?w0 = w_checkpoint tracing_world"
    using echo_start [of "[] :: call_entry list"]
    by (auto simp: app_start_def app_log_def rte_log_write_def tracing_world_def rte_lifecycle_unlock_def
        echo_known_def echo_platform_def initial_rte_def)
  let ?w2 = "app_running w1"
  have w1: "echo_known (w_rte ?w2)" "w_channels ?w2 = w_channels tracing_world"
      "w_checkpoint ?w2 = w_checkpoint tracing_world" "g_app_state w1 = g_app_state ?w0"
      "\<not> g_shutdown_requested ?w2"
    using init w0 app_start_books(2) [of "''app''" "''1''" tracing_world]
    by (auto simp: tracing_op_def app_running_def set_app_state_def rte_lifecycle_lock_def echo_known_def)
  obtain w3 where cyc: "app_cycle tracing_config tracing_ops ?stack ?w2 = Returned () w3"
    using tracing_cycle [OF w1(1-3)] by blast
  have count: "am_iteration_count (g_app_state ?w2) = 0"
    using w1(4) app_start_books(1) [of "''app''" "''1''" tracing_world]
    by (simp add: app_running_def set_app_state_def)
  have quiet: "quiet_channels (w_channels ?w2)" using tracing_laws(5) w1(2) by simp
  have "am_iteration_count (g_app_state w3) = 1"
    using cycle_books [OF cyc tracing_laws(4) quiet] count by (simp add: books_step_def)
  then have cycles: "app_cycles tracing_config tracing_ops ?stack ?w2 = Some (Returned () w3)"
    using w1(5) count cyc by (simp add: app_cycles.simps app_goes_on_def tracing_config_def)
  obtain code w' where fin: "app_finish tracing_config (tracing_op CALL_SHUTDOWN STATUS_OK) ''app'' w3 = Returned code w'"
    by (simp add: app_finish_def tracing_op_def)
  have "quiet_channels (w_channels w3)"
    using books_quiet [OF cycle_books [OF cyc tracing_laws(4) quiet]] quiet by simp
  note finished = finish_books(1) [OF fin tracing_books this]
  show ?thesis
    using init cycles fin finished \<open>am_iteration_count (g_app_state w3) = 1\<close>
    by (simp add: run_unfold [OF tracing_laws(1-3)])
qed

theorem app_run_outcome_witness:
  "\<exists>code w'. rte_appmanager_run (Some tracing_config) (\<lambda>_ _ _. replicate 272 0) tracing_world =
      Some (Returned code w') \<and> am_state (g_app_state w') = APP_SHUTDOWN \<and> \<not> g_setup_locked (w_rte w')"
proof -
  obtain code w' where run: "rte_appmanager_run (Some tracing_config) (\<lambda>_ _ _. replicate 272 0) tracing_world =
      Some (Returned code w')" and one: "am_iteration_count (g_app_state w') = 1"
    using tracing_run by blast
  from app_run_outcome [OF run tracing_laws(1-3) tracing_books tracing_books tracing_laws(4,5)] run one
  show ?thesis by (auto simp: Let_def)
qed

text \<open>A run with a bound on its iterations ends, when the application obeys its law, whatever statuses its
  operations return.\<close>

theorem app_run_ends:
  assumes "apc_max_iterations cfg > 0" "apc_ops cfg = Some ops" "\<And>f. op_init ops = Some f \<Longrightarrow> keeps_books f"
    and "\<forall>f \<in> cycle_ops ops. keeps_books f" "quiet_channels (w_channels w)"
  shows "rte_appmanager_run (Some cfg) stack w \<noteq> None"
proof (cases "\<exists>init shutdown name version. complete_ops ops init shutdown name version")
  case False
  then show ?thesis using run_incomplete [OF assms(2)] by simp
next
  case True
  then obtain init shutdown name version where c: "complete_ops ops init shutdown name version" by blast
  show ?thesis
  proof (cases "idle w")
    case False
    then show ?thesis using run_busy [OF assms(2) c] by simp
  next
    case True
    note run = run_unfold [OF assms(2) c True, of stack]
    show ?thesis
    proof (cases "init (app_start name version w)")
      case (Returned status w1)
      have "keeps_books init" using assms(3) c by (simp add: complete_ops_def)
      then have "quiet_channels (w_channels w1)"
        using Returned assms(5) app_start_books(5) [of name version w] unfolding keeps_books_def by metis
      then have "quiet_channels (w_channels (app_running w1))" by (simp add: app_running_def set_app_state_def)
      from cycles_end [OF assms(1,4) this, of stack] show ?thesis
        by (auto simp: run Returned split: option.splits run.splits)
    qed (simp add: run)
  qed
qed

text \<open>C24. Which operations of the application a run calls, how often, in which order and in which phase,
  for every run that returns, with or without a checkpoint attached. Each operation adds its name, the
  status it returns and the phase it sees to a list that nothing else changes: neither the clock, the
  log nor the channels do, and channels and operations leave the setup lock and the books alone. Then
  the list grows by exactly this. First one initialisation, in state INITIALIZING, with the setup open
  and no signature active. Where it succeeds, the calls of as many cycles as the iteration counter
  counts, all in state RUNNING, with the setup locked and the signature active, each cycle calling in
  this order: the first stage if there is one; unless that failed, the execution; unless that failed,
  the last stage if there is one, and whatever it returns the report of the outcome if there is one,
  which without a checkpoint attached says commit. At the end one shutdown, with the setup open and the
  signature closed, in state SHUTTING_DOWN, or in state ERROR where the initialisation failed.\<close>

theorem operations_called_in_order:
  assumes "rte_appmanager_run (Some cfg) stack w = Some (Returned code w')"
    and "apc_ops cfg = Some ops" "complete_ops ops init shutdown name version" "idle w"
    and "recording calls ops" "watched calls w"
  shows "\<exists>status status' cycles.
    calls_of calls w' = calls_of calls w @ [(CALL_INIT, status, APP_INITIALIZING, False, False)] @
      concat cycles @
      [(CALL_SHUTDOWN, status', if status = STATUS_OK then APP_SHUTTING_DOWN else APP_ERROR, False, False)] \<and>
    (\<forall>t \<in> set cycles. legal_cycle cfg ops t) \<and> (status \<noteq> STATUS_OK \<longrightarrow> cycles = []) \<and>
    am_iteration_count (g_app_state w') = of_nat (length cycles)"
proof -
  note run = run_unfold [OF assms(2-4)]
  let ?w0 = "app_start name version w"
  have laws: "records calls CALL_INIT init" "records calls CALL_SHUTDOWN shutdown" "op_execute ops \<noteq> None"
    using assms(3,5) by (auto simp: complete_ops_def recording_def)
  note start = start_watched [OF assms(6), of name version]
  obtain status w1 where init: "init ?w0 = Returned status w1"
    using assms(1) by (auto simp: run split: run.splits)
  have w1: "watched calls w1" "calls_of calls w1 = calls_of calls ?w0 @ [(CALL_INIT, status, phase ?w0)]"
    "g_app_state w1 = g_app_state ?w0" "phase w1 = phase ?w0"
    using laws(1) init start(1) unfolding records_def by blast+
  have none: "am_iteration_count (g_app_state w1) = 0" using w1(3) app_start_books(1) [of name version w] by simp
  show ?thesis
  proof (cases "status = STATUS_OK")
    case False
    then have "app_init_failed status shutdown w1 = Returned code w'" using assms(1) by (simp add: run init)
    from init_failed_calls [OF this laws(2) w1(1)] obtain status' where
      "calls_of calls w' = calls_of calls w1 @ [(CALL_SHUTDOWN, status', APP_ERROR, False, False)]"
      "am_iteration_count (g_app_state w') = 0"
      using w1(4) start(3) none by auto
    then show ?thesis using w1(2) start False by (intro exI [of _ status] exI [of _ status'] exI [of _ "[]"]) simp
  next
    case True
    then obtain w3 where cycles: "app_cycles cfg ops stack (app_running w1) = Some (Returned () w3)"
      and fin: "app_finish cfg shutdown name w3 = Returned code w'"
      using assms(1) by (auto simp: run init split: option.splits run.splits)
    have "watched calls (app_running w1)" "calls_of calls (app_running w1) = calls_of calls w1"
      "am_iteration_count (g_app_state (app_running w1)) = 0"
      using w1(1) none by (simp_all add: app_running_def set_app_state_def rte_lifecycle_lock_def watched_def calls_of_def)
    then have "called_so_far calls cfg ops (calls_of calls w1) (app_running w1)"
      by (auto simp: called_so_far_def app_running_def set_app_state_def rte_lifecycle_lock_def intro: exI [of _ "[]"])
    from cycles_inv [where I = "called_so_far calls cfg ops (calls_of calls w1)", OF cycles this]
    have "called_so_far calls cfg ops (calls_of calls w1) w3"
      using called_step [OF _ _ assms(5) laws(3)] by blast
    then obtain cs where cs: "watched calls w3" "calls_of calls w3 = calls_of calls w1 @ concat cs"
      "\<forall>t \<in> set cs. legal_cycle cfg ops t" "am_iteration_count (g_app_state w3) = of_nat (length cs)"
      by (auto simp: called_so_far_def)
    obtain status' where "calls_of calls w' =
        calls_of calls w3 @ [(CALL_SHUTDOWN, status', APP_SHUTTING_DOWN, False, False)]"
      "am_iteration_count (g_app_state w') = am_iteration_count (g_app_state w3)"
      using finish_calls [OF fin laws(2) cs(1)] by blast
    then show ?thesis using w1(2) start cs True
      by (intro exI [of _ status] exI [of _ status'] exI [of _ cs]) simp
  qed
qed


theorem operations_called_in_order_witness:
  "\<exists>code w' cycles status.
    rte_appmanager_run (Some tracing_config) (\<lambda>_ _ _. replicate 272 0) tracing_world = Some (Returned code w') \<and>
    ext (w_rte w') = [(CALL_INIT, STATUS_OK, APP_INITIALIZING, False, False)] @ concat cycles @
      [(CALL_SHUTDOWN, status, APP_SHUTTING_DOWN, False, False)] \<and>
    cycles \<noteq> [] \<and> (\<forall>t \<in> set cycles. legal_cycle tracing_config tracing_ops t)"
proof -
  obtain code w' where run: "rte_appmanager_run (Some tracing_config) (\<lambda>_ _ _. replicate 272 0) tracing_world =
      Some (Returned code w')" and one: "am_iteration_count (g_app_state w') = 1"
    using tracing_run by blast
  have start: "calls_of id tracing_world = []"
    by (simp add: calls_of_def tracing_world_def echo_platform_def initial_rte_def)
  from operations_called_in_order [OF run tracing_laws(1-3,6,7), unfolded start one]
  obtain st status cycles where trace: "calls_of id w' =
      [] @ [(CALL_INIT, st, APP_INITIALIZING, False, False)] @ concat cycles @
      [(CALL_SHUTDOWN, status, if st = STATUS_OK then APP_SHUTTING_DOWN else APP_ERROR, False, False)]"
    and legal: "\<forall>t \<in> set cycles. legal_cycle tracing_config tracing_ops t"
    and failed: "st \<noteq> STATUS_OK \<longrightarrow> cycles = []" and count: "1 = (of_nat (length cycles) :: u32)"
    by blast
  have "cycles \<noteq> []" using count by auto
  with failed trace legal run show ?thesis
    by (intro exI [of _ code] exI [of _ w'] exI [of _ cycles] exI [of _ status])
      (simp add: calls_of_def)
qed

definition fresh_world :: "unit app_world" where
  "fresh_world = \<lparr>g_app_state = \<lparr>am_state = APP_UNINITIALIZED, am_iteration_count = 0, am_error_count = 0,
       am_last_error = STATUS_OK\<rparr>, g_shutdown_requested = False, g_checkpoint_signature = 0,
     g_checkpoint_signature_active = False,
     w_checkpoint = \<lparr>ac_voter = None, ac_max_delay_ms = 0, ac_expected_node_count = 0, ac_watchdog = None\<rparr>,
     w_channels = (\<lambda>_. echo_channel 0), w_dogs = initial_watchdogs, w_rte = initial_rte ()\<rparr>"

text \<open>C26. The checkpoint identity of a cycle stands for the path the cycle took: from the fixed seed every
  mark chains the checksum of its text into the signature, computed with the bitwise checksum. Two
  channels with the same polynomial that pass the same marks in a cycle have the same signature,
  whatever their states, their histories and their numbers of cycles.\<close>

theorem signature_is_the_path:
  assumes "cm_ready p (g_checksum (w_rte w))"
  shows "g_checkpoint_signature (fold apply_mark marks (rte_appmanager_checkpoint_signature_reset w)) =
    foldl (chain_mark p) CHECKPOINT_SIGNATURE_SEED (map mark_text marks)"
proof -
  let ?w = "rte_appmanager_checkpoint_signature_reset w"
  have "cm_ready p (g_checksum (w_rte ?w))" "g_checkpoint_signature_active ?w"
    using assms by (simp_all add: rte_appmanager_checkpoint_signature_reset_def)
  from marks_chain [OF this] show ?thesis by (simp add: rte_appmanager_checkpoint_signature_reset_def)
qed

theorem signature_is_the_path_witness:
  "g_checkpoint_signature (fold apply_mark [(None, 0, Some ''go'')]
      (rte_appmanager_checkpoint_signature_reset (fresh_world\<lparr>w_rte := echo_platform ()\<rparr>))) =
    chain_mark RTE_CRC64_ERTMS CHECKPOINT_SIGNATURE_SEED (Some ''go'')"
  using signature_is_the_path [of RTE_CRC64_ERTMS "fresh_world\<lparr>w_rte := echo_platform ()\<rparr>"
      "[(None, 0, Some ''go'')]"] echo_start [of "()"]
  by (simp add: echo_known_def mark_text_def)

text \<open>C27. Staged output is committed only after the peers confirmed: with a voter attached, when fewer
  channels than expected can confirm the marker of this cycle's signature, the hook is never told to
  commit, so what it would do then is of no consequence.\<close>

theorem commit_needs_the_peers:
  assumes "apc_checkpoint cfg" "ac_voter (w_checkpoint w) = Some v"
    and "rendezvous_platform J p v (w_channels w)" "J (w_rte w)" "length (vo_channels v) \<le> VOTER_MAX_CHANNELS"
    and "\<And>n r i. length (stack n r i) = 272"
    and "card {i. i < length (vo_channels v) \<and>
        can_confirm J p (rte_appmanager_checkpoint_fold_signature (g_checkpoint_signature w))
          (w_channels w (vo_channels v ! i))} < unat (ac_expected_node_count (w_checkpoint w))"
    and "\<And>w. hook False w = hook' False w"
  shows "checkpoint_stage cfg (ops\<lparr>op_on_checkpoint_result := Some hook\<rparr>) stack w =
    checkpoint_stage cfg (ops\<lparr>op_on_checkpoint_result := Some hook'\<rparr>) stack w"
proof (cases "stage (Some (checkpoint_op stack)) ''checkpoint'' (apc_error_threshold cfg) w")
  case (Returned ok w1)
  have "\<not> ok"
  proof
    assume ok
    then obtain w2 where "checkpoint_op stack w = Returned STATUS_OK w2"
      using Returned by (auto simp: stage_def rte_appmanager_handle_stage_result_def Let_def
          split: run.splits if_splits)
    then obtain y where "rte_channel_checkpoint (Some v)
        (Some \<lparr>cp_checkpoint_id = rte_appmanager_checkpoint_fold_signature (g_checkpoint_signature w),
           cp_max_delay_ms = ac_max_delay_ms (w_checkpoint w),
           cp_expected_node_count = ac_expected_node_count (w_checkpoint w),
           cp_watchdog = ac_watchdog (w_checkpoint w)\<rparr>)
        (stack (am_iteration_count (g_app_state w))) (w_channels w) (w_dogs w) (w_rte w) = Returned STATUS_OK y"
      using assms(2) by (auto simp: checkpoint_op_def Let_def split: run.splits prod.splits)
    from rendezvous_confirmed [OF this assms(3-6)] assms(7) show False by simp
  qed
  then show ?thesis using assms(1,2,8) Returned by (simp add: checkpoint_stage_def stage_def [of "Some (hook _)"]
      stage_def [of "Some (hook' _)"])
qed (use assms(1,2) in \<open>simp add: checkpoint_stage_def\<close>)

definition silent_ops :: "unit rte_appmanager_operations" where
  "silent_ops = \<lparr>op_init = Some (Returned STATUS_OK), op_pre_execute = None,
     op_execute = Some (Returned STATUS_OK), op_post_execute = None, op_on_checkpoint_result = None,
     op_shutdown = Some (Returned STATUS_OK), op_get_name = Some ''app'', op_get_version = Some ''1''\<rparr>"

definition attached_config :: "unit rte_appmanager_config" where
  "attached_config = \<lparr>apc_ops = Some silent_ops, apc_max_iterations = 1, apc_error_threshold = 10,
     apc_checkpoint = True\<rparr>"

text \<open>One echoing channel where two peers are expected.\<close>

definition lonely_world :: "unit app_world" where
  "lonely_world = fresh_world\<lparr>w_rte := echo_platform (), w_checkpoint := \<lparr>ac_voter = Some echo_voter,
     ac_max_delay_ms = 100, ac_expected_node_count = 2, ac_watchdog = None\<rparr>\<rparr>"

theorem commit_needs_the_peers_witness:
  "checkpoint_stage attached_config
     (silent_ops\<lparr>op_on_checkpoint_result := Some (\<lambda>b. Returned STATUS_OK)\<rparr>) (\<lambda>_ _ _. replicate 272 0) lonely_world =
   checkpoint_stage attached_config
     (silent_ops\<lparr>op_on_checkpoint_result := Some (\<lambda>b. if b then Halted else Returned STATUS_OK)\<rparr>)
     (\<lambda>_ _ _. replicate 272 0) lonely_world"
proof (rule commit_needs_the_peers [where J = echo_known and p = RTE_CRC64_ERTMS and v = echo_voter])
  show "rendezvous_platform echo_known RTE_CRC64_ERTMS echo_voter (w_channels lonely_world)"
    using echo_platform_rendezvous by (simp add: lonely_world_def fresh_world_def)
  have "card {i. i < (1::nat) \<and> P i} \<le> 1" for P
    using card_mono [of "{..<1::nat}" "{i. i < 1 \<and> P i}"] by auto
  from le_less_trans [OF this]
  show "card {i. i < length (vo_channels echo_voter) \<and> can_confirm echo_known RTE_CRC64_ERTMS
        (rte_appmanager_checkpoint_fold_signature (g_checkpoint_signature lonely_world))
          (w_channels lonely_world (vo_channels echo_voter ! i))} < unat (ac_expected_node_count (w_checkpoint lonely_world))"
    by (simp add: lonely_world_def echo_voter_def)
qed (use echo_start in \<open>simp_all add: lonely_world_def attached_config_def echo_voter_def VOTER_MAX_CHANNELS_def\<close>)

end
