(* ===== verification/Redundancy_Config.thy ===== *)
theory Redundancy_Config
  imports Voter
begin

unbundle bit_operations_syntax

text \<open>
  The deployment configuration of \<^verbatim>\<open>src/redundancy/config/rte_redundancy_config.c\<close>: a bounded
  scanner for one fixed schema, the loader, and the active configuration. The text of the file is a
  character list; a position is an index into it, and the scanner looks at positions below the given
  end only. A character array is the C string in it, and an array with its count is the list of the
  entries counted. The parts of the scanner that fail return \<open>None\<close> where the code returns
  \<^verbatim>\<open>RTE_STATUS_INVALID_STATE\<close>, its only error there. The file system is a parameter.
\<close>

section \<open>Data\<close>

definition CONFIG_MAX_ROLE_NAME_LEN :: nat where "CONFIG_MAX_ROLE_NAME_LEN = 16"
definition CONFIG_MAX_REPLICAS :: nat where "CONFIG_MAX_REPLICAS = 5"
definition CONFIG_MAX_FILE_SIZE :: nat where "CONFIG_MAX_FILE_SIZE = 8192"
definition CHANNEL_CONFIG_MAX_CHANNELS :: nat where "CHANNEL_CONFIG_MAX_CHANNELS = 32"
definition CHANNEL_CONFIG_MAX_NAME_LEN :: nat where "CHANNEL_CONFIG_MAX_NAME_LEN = 32"
definition CHANNEL_CONFIG_MAX_HOST_LEN :: nat where "CHANNEL_CONFIG_MAX_HOST_LEN = 64"

datatype rte_channel_transport = TRANSPORT_FLOW | TRANSPORT_POSIX_NETLINK | TRANSPORT_DDS
datatype rte_channel_role = CHANNEL_LISTEN | CHANNEL_CONNECT

record rte_channel_def =
  cd_id :: u32
  cd_name :: string
  cd_transport :: rte_channel_transport
  cd_role :: rte_channel_role
  cd_host :: string
  cd_port :: u16
  cd_message_size :: u32
  cd_connect_timeout_ms :: u32
  cd_rcvbuf_bytes :: u32
  cd_sndbuf_bytes :: u32

datatype rte_redundancy_topology = TOPOLOGY_2OO2 | TOPOLOGY_2OO2_REDUNDANT | TOPOLOGY_2OO3 | TOPOLOGY_NMR
datatype rte_standby_mode = STANDBY_HOT | STANDBY_WARM | STANDBY_COLD

record rte_redundancy_config =
  rc_topology :: rte_redundancy_topology
  rc_replica_count :: u32
  rc_quorum_size :: u32
  rc_standby_mode :: rte_standby_mode
  rc_roles :: "string list"
  rc_channels :: "rte_channel_def list"

section \<open>The scanner\<close>

fun is_ws :: "char \<Rightarrow> bool" where
  "is_ws c \<longleftrightarrow> c = CHR '' '' \<or> c = CHR 0x09 \<or> c = CHR 0x0A \<or> c = CHR 0x0D"

fun is_dec :: "char \<Rightarrow> bool" where
  "is_dec c \<longleftrightarrow> c \<in> set ''0123456789''"

definition skip_ws :: "string \<Rightarrow> nat \<Rightarrow> nat \<Rightarrow> nat" where
  "skip_ws buf len pos = pos + length (takeWhile is_ws (drop pos (take len buf)))"

text \<open>The C string in an array.\<close>

definition c_string :: "string \<Rightarrow> string" where
  "c_string t = takeWhile (\<lambda>c. c \<noteq> CHR 0x00) t"

text \<open>A position where the needle stands, and a colon behind it: the position of the value.\<close>

definition value_at :: "string \<Rightarrow> nat \<Rightarrow> string \<Rightarrow> nat \<Rightarrow> nat option" where
  "value_at buf end_pos needle i =
    (if take (length needle) (drop i buf) = needle then
       let pos = skip_ws buf end_pos (i + length needle)
       in if pos \<ge> end_pos \<or> buf ! pos \<noteq> CHR '':'' then None else Some (skip_ws buf end_pos (pos + 1))
     else None)"

fun first_some :: "('a \<Rightarrow> 'b option) \<Rightarrow> 'a list \<Rightarrow> 'b option" where
  "first_some f [] = None"
| "first_some f (x # xs) = (case f x of None \<Rightarrow> first_some f xs | Some y \<Rightarrow> Some y)"

definition find_key_value_pos_bounded ::
  "string \<Rightarrow> nat \<Rightarrow> nat \<Rightarrow> string \<Rightarrow> rte_status \<times> nat option" where
  "find_key_value_pos_bounded buf start_pos end_pos key =
    (let front = CHR 0x22 # take 38 key
     in if length front + 1 \<ge> 40 then (STATUS_INVALID_PARAM, None)
        else let needle = front @ [CHR 0x22]
          in if start_pos + length needle > end_pos then (STATUS_INVALID_STATE, None)
             else (case first_some (value_at buf end_pos needle) [start_pos..<Suc (end_pos - length needle)] of
                     None \<Rightarrow> (STATUS_INVALID_STATE, None) | Some pos \<Rightarrow> (STATUS_OK, Some pos)))"

definition find_key_value_pos :: "string \<Rightarrow> nat \<Rightarrow> string \<Rightarrow> rte_status \<times> nat option" where
  "find_key_value_pos buf len key = find_key_value_pos_bounded buf 0 len key"

definition parse_string_value :: "string \<Rightarrow> nat \<Rightarrow> nat \<Rightarrow> nat \<Rightarrow> (string \<times> nat) option" where
  "parse_string_value buf len pos out_size =
    (if pos \<ge> len \<or> buf ! pos \<noteq> CHR 0x22 then None
     else
       let start = pos + 1;
           content = takeWhile (\<lambda>c. c \<noteq> CHR 0x22) (drop start (take len buf));
           close = start + length content
       in if close \<ge> len then None
          else if length content \<ge> out_size then None
          else Some (c_string content, close + 1))"

definition dec_value :: "char \<Rightarrow> nat" where
  "dec_value c = of_char c - of_char (CHR ''0'')"

definition parse_uint_value :: "string \<Rightarrow> nat \<Rightarrow> nat \<Rightarrow> u32 option" where
  "parse_uint_value buf len pos =
    (let digits = takeWhile is_dec (drop pos (take len buf))
     in if digits = [] then None
        else Some (foldl (\<lambda>value c. value * 10 + of_nat (dec_value c)) 0 digits))"

text \<open>The loop of the checked parser over its digits.\<close>

fun checked_digits :: "string \<Rightarrow> u32 \<Rightarrow> u32 option" where
  "checked_digits [] value = Some value"
| "checked_digits (c # cs) value =
    (let digit = of_nat (dec_value c)
     in if value > (0xFFFFFFFF - digit) div 10 then None else checked_digits cs (value * 10 + digit))"

definition parse_uint32_checked :: "string \<Rightarrow> nat \<Rightarrow> nat \<Rightarrow> u32 option" where
  "parse_uint32_checked buf len pos =
    (let digits = takeWhile is_dec (drop pos (take len buf))
     in case checked_digits digits 0 of None \<Rightarrow> None
        | Some value \<Rightarrow>
            if digits = [] then None
            else let idx = skip_ws buf len (pos + length digits)
              in if idx < len \<and> buf ! idx \<noteq> CHR '','' then None else Some value)"

text \<open>The value of a call whose status is tested for OK.\<close>

definition ok_value :: "rte_status \<times> 'a option \<Rightarrow> 'a option" where
  "ok_value r = (if fst r = STATUS_OK then snd r else None)"

text \<open>The out parameter is returned, as it was when the key is absent.\<close>

definition parse_optional_channel_u32 :: "string \<Rightarrow> nat \<Rightarrow> nat \<Rightarrow> string \<Rightarrow> u32 \<Rightarrow> u32 option" where
  "parse_optional_channel_u32 buf obj_start obj_end key old =
    (case ok_value (find_key_value_pos_bounded buf obj_start obj_end key) of
       Some val_pos \<Rightarrow> parse_uint32_checked buf obj_end val_pos
     | None \<Rightarrow> Some old)"

text \<open>The white space and the comma behind an item.\<close>

definition skip_comma :: "string \<Rightarrow> nat \<Rightarrow> nat \<Rightarrow> nat" where
  "skip_comma buf len pos =
    (let p = skip_ws buf len pos
     in if p < len \<and> buf ! p = CHR '','' then skip_ws buf len (p + 1) else p)"

text \<open>The items of an array, up to the closing bracket; at most so many as there is room for.\<close>

fun string_items :: "nat \<Rightarrow> string \<Rightarrow> nat \<Rightarrow> nat \<Rightarrow> string list \<Rightarrow> string list option" where
  "string_items room buf len pos found =
    (if pos < len \<and> buf ! pos \<noteq> CHR '']'' then
       (case room of 0 \<Rightarrow> None
        | Suc r \<Rightarrow>
            (case parse_string_value buf len pos CONFIG_MAX_ROLE_NAME_LEN of None \<Rightarrow> None
             | Some (t, end_pos) \<Rightarrow> string_items r buf len (skip_comma buf len end_pos) (found @ [t])))
     else if pos \<ge> len then None else Some found)"

declare string_items.simps [simp del]

definition parse_string_array :: "string \<Rightarrow> nat \<Rightarrow> nat \<Rightarrow> nat \<Rightarrow> string list option" where
  "parse_string_array buf len pos max_items =
    (if pos \<ge> len \<or> buf ! pos \<noteq> CHR ''['' then None
     else string_items max_items buf len (skip_ws buf len (pos + 1)) [])"

section \<open>Names\<close>

definition rte_channel_config_transport_from_string ::
  "string option \<Rightarrow> rte_channel_transport option \<Rightarrow> rte_status \<times> rte_channel_transport option" where
  "rte_channel_config_transport_from_string name out_transport =
    (case (name, out_transport) of
       (Some n, Some _) \<Rightarrow>
         if n = ''flow'' \<or> n = ''FLOW'' then (STATUS_OK, Some TRANSPORT_FLOW)
         else if n = ''netlink'' \<or> n = ''posix'' \<or> n = ''POSIX'' then (STATUS_OK, Some TRANSPORT_POSIX_NETLINK)
         else if n = ''dds'' \<or> n = ''DDS'' then (STATUS_OK, Some TRANSPORT_DDS)
         else (STATUS_INVALID_PARAM, out_transport)
     | _ \<Rightarrow> (STATUS_INVALID_PARAM, out_transport))"

definition rte_channel_config_role_from_string ::
  "string option \<Rightarrow> rte_channel_role option \<Rightarrow> rte_status \<times> rte_channel_role option" where
  "rte_channel_config_role_from_string name out_role =
    (case (name, out_role) of
       (Some n, Some _) \<Rightarrow>
         if n = ''listen'' \<or> n = ''LISTEN'' \<or> n = ''subscriber'' \<or> n = ''SUBSCRIBER''
         then (STATUS_OK, Some CHANNEL_LISTEN)
         else if n = ''connect'' \<or> n = ''CONNECT'' \<or> n = ''publisher'' \<or> n = ''PUBLISHER''
         then (STATUS_OK, Some CHANNEL_CONNECT)
         else (STATUS_INVALID_PARAM, out_role)
     | _ \<Rightarrow> (STATUS_INVALID_PARAM, out_role))"

definition rte_redundancy_config_topology_from_string ::
  "string option \<Rightarrow> rte_redundancy_topology option \<Rightarrow> rte_status \<times> rte_redundancy_topology option" where
  "rte_redundancy_config_topology_from_string name out_topology =
    (case (name, out_topology) of
       (Some n, Some _) \<Rightarrow>
         if n = ''2oo2'' then (STATUS_OK, Some TOPOLOGY_2OO2)
         else if n = ''2oo2_redundant'' then (STATUS_OK, Some TOPOLOGY_2OO2_REDUNDANT)
         else if n = ''2oo3'' then (STATUS_OK, Some TOPOLOGY_2OO3)
         else if n = ''nmr'' then (STATUS_OK, Some TOPOLOGY_NMR)
         else (STATUS_INVALID_PARAM, out_topology)
     | _ \<Rightarrow> (STATUS_INVALID_PARAM, out_topology))"

fun rte_redundancy_config_topology_to_string :: "rte_redundancy_topology \<Rightarrow> string" where
  "rte_redundancy_config_topology_to_string TOPOLOGY_2OO2 = ''2oo2''"
| "rte_redundancy_config_topology_to_string TOPOLOGY_2OO2_REDUNDANT = ''2oo2_redundant''"
| "rte_redundancy_config_topology_to_string TOPOLOGY_2OO3 = ''2oo3''"
| "rte_redundancy_config_topology_to_string TOPOLOGY_NMR = ''nmr''"

definition rte_redundancy_config_standby_mode_from_string ::
  "string option \<Rightarrow> rte_standby_mode option \<Rightarrow> rte_status \<times> rte_standby_mode option" where
  "rte_redundancy_config_standby_mode_from_string name out_mode =
    (case (name, out_mode) of
       (Some n, Some _) \<Rightarrow>
         if n = ''hot'' then (STATUS_OK, Some STANDBY_HOT)
         else if n = ''warm'' then (STATUS_OK, Some STANDBY_WARM)
         else if n = ''cold'' then (STATUS_OK, Some STANDBY_COLD)
         else (STATUS_INVALID_PARAM, out_mode)
     | _ \<Rightarrow> (STATUS_INVALID_PARAM, out_mode))"

fun rte_redundancy_config_standby_mode_to_string :: "rte_standby_mode \<Rightarrow> string" where
  "rte_redundancy_config_standby_mode_to_string STANDBY_HOT = ''hot''"
| "rte_redundancy_config_standby_mode_to_string STANDBY_WARM = ''warm''"
| "rte_redundancy_config_standby_mode_to_string STANDBY_COLD = ''cold''"

section \<open>Channel objects\<close>

definition zero_channel_def :: rte_channel_def where
  "zero_channel_def = \<lparr>cd_id = 0, cd_name = '''', cd_transport = TRANSPORT_FLOW, cd_role = CHANNEL_LISTEN,
     cd_host = '''', cd_port = 0, cd_message_size = 0, cd_connect_timeout_ms = 0, cd_rcvbuf_bytes = 0,
     cd_sndbuf_bytes = 0\<rparr>"

text \<open>An optional key whose value goes through the unchecked parser; a bad value leaves the old one.\<close>

definition lenient_u32 :: "string \<Rightarrow> nat \<Rightarrow> nat \<Rightarrow> string \<Rightarrow> u32 \<Rightarrow> u32" where
  "lenient_u32 buf obj_start obj_end key old =
    (case ok_value (find_key_value_pos_bounded buf obj_start obj_end key) of
       Some val_pos \<Rightarrow> the_default old (parse_uint_value buf obj_end val_pos)
     | None \<Rightarrow> old)"

text \<open>An optional key with a text of less than \<open>out_size\<close> characters.\<close>

definition lenient_text :: "string \<Rightarrow> nat \<Rightarrow> nat \<Rightarrow> string \<Rightarrow> nat \<Rightarrow> string option" where
  "lenient_text buf obj_start obj_end key out_size =
    (case ok_value (find_key_value_pos_bounded buf obj_start obj_end key) of
       Some val_pos \<Rightarrow> map_option fst (parse_string_value buf obj_end val_pos out_size)
     | None \<Rightarrow> None)"

definition parse_channel_object :: "string \<Rightarrow> nat \<Rightarrow> nat \<Rightarrow> rte_channel_def option" where
  "parse_channel_object buf obj_start obj_end =
    (case (case ok_value (find_key_value_pos_bounded buf obj_start obj_end ''id'') of
             Some val_pos \<Rightarrow> parse_uint_value buf obj_end val_pos
           | None \<Rightarrow> Some 0) of
       None \<Rightarrow> None
     | Some ident \<Rightarrow>
         (case lenient_text buf obj_start obj_end ''name'' CHANNEL_CONFIG_MAX_NAME_LEN of
            None \<Rightarrow> None
          | Some name \<Rightarrow>
              let transport = the_default TRANSPORT_FLOW (snd (rte_channel_config_transport_from_string
                    (lenient_text buf obj_start obj_end ''transport'' 64) (Some TRANSPORT_FLOW)));
                  role = the_default CHANNEL_CONNECT (snd (rte_channel_config_role_from_string
                    (lenient_text buf obj_start obj_end ''role'' 64) (Some CHANNEL_CONNECT)));
                  host = the_default '''' (lenient_text buf obj_start obj_end ''host'' CHANNEL_CONFIG_MAX_HOST_LEN);
                  port = ucast (lenient_u32 buf obj_start obj_end ''port'' 0);
                  message_size = lenient_u32 buf obj_start obj_end ''message_size'' 0;
                  connect_timeout_ms = lenient_u32 buf obj_start obj_end ''connect_timeout_ms'' 0
              in (case parse_optional_channel_u32 buf obj_start obj_end ''rcvbuf_bytes'' 0 of
                    None \<Rightarrow> None
                  | Some rcvbuf \<Rightarrow>
                      (case parse_optional_channel_u32 buf obj_start obj_end ''sndbuf_bytes'' 0 of
                         None \<Rightarrow> None
                       | Some sndbuf \<Rightarrow> Some \<lparr>cd_id = ident, cd_name = name, cd_transport = transport,
                           cd_role = role, cd_host = host, cd_port = port, cd_message_size = message_size,
                           cd_connect_timeout_ms = connect_timeout_ms, cd_rcvbuf_bytes = rcvbuf,
                           cd_sndbuf_bytes = sndbuf\<rparr>))))"

fun channel_items :: "nat \<Rightarrow> string \<Rightarrow> nat \<Rightarrow> nat \<Rightarrow> rte_channel_def list \<Rightarrow> rte_channel_def list option" where
  "channel_items room buf len pos found =
    (if pos < len \<and> buf ! pos \<noteq> CHR '']'' then
       (case room of 0 \<Rightarrow> None
        | Suc r \<Rightarrow>
            if buf ! pos \<noteq> CHR ''{'' then None
            else let obj_end = pos + 1 + length (takeWhile (\<lambda>c. c \<noteq> CHR ''}'') (drop (pos + 1) (take len buf)))
              in if obj_end \<ge> len then None
                 else (case parse_channel_object buf pos obj_end of None \<Rightarrow> None
                       | Some c \<Rightarrow> channel_items r buf len (skip_comma buf len (obj_end + 1)) (found @ [c])))
     else if pos \<ge> len then None else Some found)"

declare channel_items.simps [simp del]

definition parse_channels_array :: "string \<Rightarrow> nat \<Rightarrow> nat \<Rightarrow> nat \<Rightarrow> rte_channel_def list option" where
  "parse_channels_array buf len pos max_channels =
    (if pos \<ge> len \<or> buf ! pos \<noteq> CHR ''['' then None
     else channel_items max_channels buf len (skip_ws buf len (pos + 1)) [])"

section \<open>The loader\<close>

text \<open>The three required entries; the quorum has a default in three of the topologies.\<close>

definition quorum_value ::
  "string \<Rightarrow> nat \<Rightarrow> rte_redundancy_topology \<Rightarrow> u32 \<Rightarrow> u32 option" where
  "quorum_value buf len topology replicas =
    (case (case ok_value (find_key_value_pos buf len ''quorum'') of
         Some quorum_pos \<Rightarrow> parse_uint_value buf len quorum_pos
       | None \<Rightarrow> (case topology of
             TOPOLOGY_2OO2 \<Rightarrow> if replicas < 2 then None else Some 2
           | TOPOLOGY_2OO2_REDUNDANT \<Rightarrow> if replicas < 2 then None else Some 2
           | TOPOLOGY_2OO3 \<Rightarrow> if replicas \<noteq> 3 then None else Some 2
           | TOPOLOGY_NMR \<Rightarrow> None)) of
       None \<Rightarrow> None
     | Some quorum \<Rightarrow> if quorum < 1 \<or> quorum > replicas then None else Some quorum)"

definition replicas_value :: "string \<Rightarrow> nat \<Rightarrow> u32 option" where
  "replicas_value buf len =
    (case ok_value (find_key_value_pos buf len ''replicas'') of None \<Rightarrow> None
     | Some replicas_pos \<Rightarrow>
         (case parse_uint_value buf len replicas_pos of None \<Rightarrow> None
          | Some replicas \<Rightarrow>
              if replicas < 1 \<or> unat replicas > CONFIG_MAX_REPLICAS then None else Some replicas))"

definition topology_value ::
  "string \<Rightarrow> nat \<Rightarrow> rte_redundancy_topology \<Rightarrow> rte_redundancy_topology option" where
  "topology_value buf len old =
    (case ok_value (find_key_value_pos buf len ''topology'') of None \<Rightarrow> None
     | Some value_pos \<Rightarrow>
         (case parse_string_value buf len value_pos 24 of None \<Rightarrow> None
          | Some (topology_name, _) \<Rightarrow>
              ok_value (rte_redundancy_config_topology_from_string (Some topology_name) (Some old))))"

definition parse_topology_replicas_and_quorum ::
  "string \<Rightarrow> nat \<Rightarrow> rte_redundancy_config \<Rightarrow> rte_redundancy_config option" where
  "parse_topology_replicas_and_quorum buf len cfg =
    (case topology_value buf len (rc_topology cfg) of None \<Rightarrow> None
     | Some topology \<Rightarrow>
         (case replicas_value buf len of None \<Rightarrow> None
          | Some replicas \<Rightarrow>
              (case quorum_value buf len topology replicas of None \<Rightarrow> None
               | Some quorum \<Rightarrow> Some (cfg\<lparr>rc_topology := topology, rc_replica_count := replicas,
                   rc_quorum_size := quorum\<rparr>))))"

definition parse_optional_standby_mode ::
  "string \<Rightarrow> nat \<Rightarrow> rte_redundancy_config \<Rightarrow> rte_redundancy_config option" where
  "parse_optional_standby_mode buf len cfg =
    (case ok_value (find_key_value_pos buf len ''standby_mode'') of
       Some value_pos \<Rightarrow>
         (case parse_string_value buf len value_pos 8 of None \<Rightarrow> None
          | Some (mode_name, _) \<Rightarrow>
              map_option (\<lambda>mode. cfg\<lparr>rc_standby_mode := mode\<rparr>)
                (ok_value (rte_redundancy_config_standby_mode_from_string (Some mode_name) (Some STANDBY_COLD))))
     | None \<Rightarrow> Some (cfg\<lparr>rc_standby_mode := STANDBY_COLD\<rparr>))"

definition parse_optional_roles ::
  "string \<Rightarrow> nat \<Rightarrow> rte_redundancy_config \<Rightarrow> rte_redundancy_config option" where
  "parse_optional_roles buf len cfg =
    (case ok_value (find_key_value_pos buf len ''roles'') of
       Some value_pos \<Rightarrow>
         map_option (\<lambda>roles. cfg\<lparr>rc_roles := roles\<rparr>) (parse_string_array buf len value_pos CONFIG_MAX_REPLICAS)
     | None \<Rightarrow> Some (cfg\<lparr>rc_roles := []\<rparr>))"

definition parse_optional_channels ::
  "string \<Rightarrow> nat \<Rightarrow> rte_redundancy_config \<Rightarrow> rte_redundancy_config option" where
  "parse_optional_channels buf len cfg =
    (case ok_value (find_key_value_pos buf len ''channels'') of
       Some value_pos \<Rightarrow>
         map_option (\<lambda>cs. cfg\<lparr>rc_channels := cs\<rparr>)
           (parse_channels_array buf len value_pos CHANNEL_CONFIG_MAX_CHANNELS)
     | None \<Rightarrow> Some (cfg\<lparr>rc_channels := []\<rparr>))"

definition zero_config :: rte_redundancy_config where
  "zero_config = \<lparr>rc_topology = TOPOLOGY_2OO2, rc_replica_count = 0, rc_quorum_size = 0,
     rc_standby_mode = STANDBY_HOT, rc_roles = [], rc_channels = []\<rparr>"

text \<open>The module's static data; the context of the capability callback is part of it.\<close>

record redundancy_config_state =
  s_capability_fn :: "(rte_redundancy_topology \<Rightarrow> u32 \<Rightarrow> bool) option"
  s_active_config :: rte_redundancy_config
  s_has_active_config :: bool

definition initial_redundancy_config_state :: redundancy_config_state where
  "initial_redundancy_config_state = \<lparr>s_capability_fn = None, s_active_config = zero_config,
     s_has_active_config = False\<rparr>"

definition rte_redundancy_config_register_capability ::
  "(rte_redundancy_topology \<Rightarrow> u32 \<Rightarrow> bool) option \<Rightarrow> redundancy_config_state \<Rightarrow>
    rte_status \<times> redundancy_config_state" where
  "rte_redundancy_config_register_capability f st = (STATUS_OK, st\<lparr>s_capability_fn := f\<rparr>)"

definition rte_redundancy_config_get_active :: "redundancy_config_state \<Rightarrow> rte_redundancy_config option" where
  "rte_redundancy_config_get_active st = (if s_has_active_config st then Some (s_active_config st) else None)"

definition rte_redundancy_config_set_active ::
  "rte_redundancy_config option \<Rightarrow> redundancy_config_state \<Rightarrow> redundancy_config_state" where
  "rte_redundancy_config_set_active config st =
    (case config of None \<Rightarrow> st\<lparr>s_has_active_config := False\<rparr>
     | Some c \<Rightarrow> st\<lparr>s_active_config := c, s_has_active_config := True\<rparr>)"

text \<open>The four parts of the file, in the code's order.\<close>

definition parse_config :: "string \<Rightarrow> nat \<Rightarrow> rte_redundancy_config option" where
  "parse_config buf len =
    Option.bind (parse_topology_replicas_and_quorum buf len zero_config) (\<lambda>c1.
    Option.bind (parse_optional_standby_mode buf len c1) (\<lambda>c2.
    Option.bind (parse_optional_roles buf len c2) (\<lambda>c3.
    parse_optional_channels buf len c3)))"

text \<open>
  A file is absent, or its content with the flag of a read error. The end of the file is seen only
  when the content is shorter than the buffer.
\<close>

definition rte_redundancy_config_load ::
  "(string \<Rightarrow> (string \<times> bool) option) \<Rightarrow> string option \<Rightarrow> rte_redundancy_config option \<Rightarrow>
    redundancy_config_state \<Rightarrow> rte_status \<times> rte_redundancy_config option \<times> redundancy_config_state" where
  "rte_redundancy_config_load files path out_config st =
    (case (path, out_config) of
       (Some p, Some _) \<Rightarrow>
         (case files p of
            None \<Rightarrow> (STATUS_INTERNAL_ERROR, out_config, st)
          | Some (content, read_error) \<Rightarrow>
              if read_error \<or> length content \<ge> CONFIG_MAX_FILE_SIZE
              then (STATUS_INTERNAL_ERROR, out_config, st)
              else (case parse_config content (length content) of
                      None \<Rightarrow> (STATUS_INVALID_STATE, out_config, st)
                    | Some c \<Rightarrow>
                        if (case s_capability_fn st of None \<Rightarrow> False
                            | Some f \<Rightarrow> \<not> f (rc_topology c) (rc_replica_count c))
                        then (STATUS_NOT_SUPPORTED, out_config, st)
                        else (STATUS_OK, Some c, rte_redundancy_config_set_active (Some c) st)))
     | _ \<Rightarrow> (STATUS_INVALID_PARAM, out_config, st))"

section \<open>Using a configuration\<close>

definition rte_redundancy_config_apply_to_voter ::
  "rte_redundancy_config option \<Rightarrow> 'x rte_voter_config option \<Rightarrow> rte_status \<times> 'x rte_voter_config option" where
  "rte_redundancy_config_apply_to_voter config voter_cfg =
    (case (config, voter_cfg) of
       (Some c, Some v) \<Rightarrow> (STATUS_OK, Some (v\<lparr>vc_quorum_size := rc_quorum_size c\<rparr>))
     | _ \<Rightarrow> (STATUS_INVALID_PARAM, voter_cfg))"

definition rte_redundancy_config_find_channel_by_name ::
  "rte_redundancy_config option \<Rightarrow> string option \<Rightarrow> rte_channel_def option \<Rightarrow>
    rte_status \<times> rte_channel_def option" where
  "rte_redundancy_config_find_channel_by_name config name out_channel =
    (case (config, name, out_channel) of
       (Some c, Some n, Some _) \<Rightarrow>
         (case List.find (\<lambda>d. take CHANNEL_CONFIG_MAX_NAME_LEN (cd_name d) = take CHANNEL_CONFIG_MAX_NAME_LEN n)
                 (rc_channels c) of
            Some d \<Rightarrow> (STATUS_OK, Some d) | None \<Rightarrow> (STATUS_INVALID_PARAM, out_channel))
     | _ \<Rightarrow> (STATUS_INVALID_PARAM, out_channel))"

definition rte_redundancy_config_find_channel_by_id ::
  "rte_redundancy_config option \<Rightarrow> u32 \<Rightarrow> rte_channel_def option \<Rightarrow> rte_status \<times> rte_channel_def option" where
  "rte_redundancy_config_find_channel_by_id config ident out_channel =
    (case (config, out_channel) of
       (Some c, Some _) \<Rightarrow>
         (case List.find (\<lambda>d. cd_id d = ident) (rc_channels c) of
            Some d \<Rightarrow> (STATUS_OK, Some d) | None \<Rightarrow> (STATUS_INVALID_PARAM, out_channel))
     | _ \<Rightarrow> (STATUS_INVALID_PARAM, out_channel))"

section \<open>Sizes\<close>

lemma parse_string_length: "parse_string_value buf len pos n = Some (t, e) \<Longrightarrow> length t < n"
  using length_takeWhile_le [of "\<lambda>c. c \<noteq> CHR 0x00"]
  by (fastforce simp: parse_string_value_def c_string_def Let_def split: if_splits intro: le_less_trans)

lemma string_items_bound:
  "string_items room buf len pos found = Some xs \<Longrightarrow>
    length xs \<le> length found + room \<and> (\<forall>x \<in> set xs. x \<in> set found \<or> length x < CONFIG_MAX_ROLE_NAME_LEN)"
proof (induction room arbitrary: pos found)
  case 0
  then show ?case by (auto simp: string_items.simps [of 0] split: if_splits)
next
  case (Suc room)
  show ?case
  proof (cases "pos < len \<and> buf ! pos \<noteq> CHR '']''")
    case True
    then obtain t e where t: "parse_string_value buf len pos CONFIG_MAX_ROLE_NAME_LEN = Some (t, e)"
      and rest: "string_items room buf len (skip_comma buf len e) (found @ [t]) = Some xs"
      using Suc.prems by (auto simp: string_items.simps [of "Suc room"] split: option.splits)
    from Suc.IH [OF rest] parse_string_length [OF t] show ?thesis by auto
  next
    case False
    then have "xs = found" using Suc.prems
      by (simp add: string_items.simps [of "Suc room"] split: if_splits)
    then show ?thesis by simp
  qed
qed

definition valid_channel :: "rte_channel_def \<Rightarrow> bool" where
  "valid_channel d \<longleftrightarrow> length (cd_name d) < CHANNEL_CONFIG_MAX_NAME_LEN \<and>
    length (cd_host d) < CHANNEL_CONFIG_MAX_HOST_LEN"

lemma lenient_text_length:
  "lenient_text buf a b key n = Some t \<Longrightarrow> length t < n"
  by (auto simp: lenient_text_def dest: parse_string_length split: option.splits prod.splits)

lemma channel_object_valid: "parse_channel_object buf a b = Some d \<Longrightarrow> valid_channel d"
proof -
  assume p: "parse_channel_object buf a b = Some d"
  obtain name where name: "lenient_text buf a b ''name'' CHANNEL_CONFIG_MAX_NAME_LEN = Some name" "cd_name d = name"
    and host: "cd_host d = the_default '''' (lenient_text buf a b ''host'' CHANNEL_CONFIG_MAX_HOST_LEN)"
    using p by (auto simp: parse_channel_object_def Let_def split: option.splits)
  have "length (cd_host d) < CHANNEL_CONFIG_MAX_HOST_LEN"
    using host lenient_text_length [of buf a b "''host''"]
    by (cases "lenient_text buf a b ''host'' CHANNEL_CONFIG_MAX_HOST_LEN") (auto simp: CHANNEL_CONFIG_MAX_HOST_LEN_def)
  then show ?thesis using name lenient_text_length [OF name(1)] by (simp add: valid_channel_def)
qed

lemma channel_items_bound:
  "channel_items room buf len pos found = Some xs \<Longrightarrow>
    length xs \<le> length found + room \<and> (\<forall>x \<in> set xs. x \<in> set found \<or> valid_channel x)"
proof (induction room arbitrary: pos found)
  case 0
  then show ?case by (auto simp: channel_items.simps [of 0] split: if_splits)
next
  case (Suc room)
  show ?case
  proof (cases "pos < len \<and> buf ! pos \<noteq> CHR '']''")
    case True
    then obtain d e where d: "parse_channel_object buf pos e = Some d"
      and rest: "channel_items room buf len (skip_comma buf len (e + 1)) (found @ [d]) = Some xs"
      using Suc.prems by (auto simp: channel_items.simps [of "Suc room"] Let_def split: option.splits if_splits)
    from Suc.IH [OF rest] channel_object_valid [OF d] show ?thesis by auto
  next
    case False
    then have "xs = found" using Suc.prems
      by (simp add: channel_items.simps [of "Suc room"] split: if_splits)
    then show ?thesis by simp
  qed
qed

text \<open>What the rest of the program may rely on.\<close>

definition valid_config :: "rte_redundancy_config \<Rightarrow> bool" where
  "valid_config c \<longleftrightarrow> rc_replica_count c \<noteq> 0 \<and> unat (rc_replica_count c) \<le> CONFIG_MAX_REPLICAS \<and>
    rc_quorum_size c \<noteq> 0 \<and> rc_quorum_size c \<le> rc_replica_count c \<and>
    length (rc_roles c) \<le> CONFIG_MAX_REPLICAS \<and> (\<forall>r \<in> set (rc_roles c). length r < CONFIG_MAX_ROLE_NAME_LEN) \<and>
    length (rc_channels c) \<le> CHANNEL_CONFIG_MAX_CHANNELS \<and> (\<forall>d \<in> set (rc_channels c). valid_channel d)"

lemma topology_sizes:
  "parse_topology_replicas_and_quorum buf len c = Some c' \<Longrightarrow>
    rc_replica_count c' \<noteq> 0 \<and> unat (rc_replica_count c') \<le> CONFIG_MAX_REPLICAS \<and>
    rc_quorum_size c' \<noteq> 0 \<and> rc_quorum_size c' \<le> rc_replica_count c'"
  by (auto simp: parse_topology_replicas_and_quorum_def replicas_value_def quorum_value_def not_less
      split: option.splits if_splits)

lemma standby_keeps:
  "parse_optional_standby_mode buf len c = Some c' \<Longrightarrow>
    rc_replica_count c' = rc_replica_count c \<and> rc_quorum_size c' = rc_quorum_size c \<and>
    rc_topology c' = rc_topology c"
  by (auto simp: parse_optional_standby_mode_def split: prod.splits option.splits)

lemma roles_keep:
  "parse_optional_roles buf len c = Some c' \<Longrightarrow>
    rc_replica_count c' = rc_replica_count c \<and> rc_quorum_size c' = rc_quorum_size c \<and>
    rc_topology c' = rc_topology c \<and>
    length (rc_roles c') \<le> CONFIG_MAX_REPLICAS \<and> (\<forall>r \<in> set (rc_roles c'). length r < CONFIG_MAX_ROLE_NAME_LEN)"
  by (auto simp: parse_optional_roles_def parse_string_array_def dest!: string_items_bound
      split: prod.splits option.splits if_splits)

lemma channels_keep:
  "parse_optional_channels buf len c = Some c' \<Longrightarrow>
    rc_replica_count c' = rc_replica_count c \<and> rc_quorum_size c' = rc_quorum_size c \<and>
    rc_topology c' = rc_topology c \<and> rc_roles c' = rc_roles c \<and>
    length (rc_channels c') \<le> CHANNEL_CONFIG_MAX_CHANNELS \<and> (\<forall>d \<in> set (rc_channels c'). valid_channel d)"
  by (auto simp: parse_optional_channels_def parse_channels_array_def dest!: channel_items_bound
      split: prod.splits option.splits if_splits)

lemma parsed_valid: "parse_config buf len = Some c \<Longrightarrow> valid_config c"
proof -
  assume "parse_config buf len = Some c"
  then obtain c1 c2 c3 where c1: "parse_topology_replicas_and_quorum buf len zero_config = Some c1"
    and c2: "parse_optional_standby_mode buf len c1 = Some c2"
    and c3: "parse_optional_roles buf len c2 = Some c3"
    and c: "parse_optional_channels buf len c3 = Some c"
    by (auto simp: parse_config_def bind_eq_Some_conv)
  show ?thesis using topology_sizes [OF c1] standby_keeps [OF c2] roles_keep [OF c3] channels_keep [OF c]
    unfolding valid_config_def by simp
qed

section \<open>Numbers\<close>

definition text_value :: "string \<Rightarrow> nat" where
  "text_value ds = foldl (\<lambda>n c. n * 10 + dec_value c) 0 ds"

lemma of_nat_fold:
  "foldl (\<lambda>value c. value * 10 + of_nat (dec_value c)) (of_nat n :: u32) ds =
    of_nat (foldl (\<lambda>n c. n * 10 + dec_value c) n ds)"
proof (induction ds arbitrary: n)
  case (Cons c ds)
  have "(of_nat n * 10 + of_nat (dec_value c) :: u32) = of_nat (n * 10 + dec_value c)" by simp
  then show ?case using Cons.IH [of "n * 10 + dec_value c"] by (simp only: foldl.simps)
qed simp

lemma fold_value_ge: "n \<le> foldl (\<lambda>n c. n * 10 + dec_value c) n ds"
proof (induction ds arbitrary: n)
  case (Cons c ds)
  have "n \<le> n * 10 + dec_value c" by simp
  also have "\<dots> \<le> foldl (\<lambda>n c. n * 10 + dec_value c) (n * 10 + dec_value c) ds" by (rule Cons.IH)
  finally show ?case by simp
qed simp

lemma dec_value_bound: "is_dec c \<Longrightarrow> dec_value c < 10"
  by (auto simp: dec_value_def)

lemma checked_step:
  assumes "d < 10" "n < 2 ^ 32"
  shows "(of_nat n :: u32) > (0xFFFFFFFF - of_nat d) div 10 \<longleftrightarrow> \<not> n * 10 + d < 2 ^ 32"
proof -
  have d: "unat (of_nat d :: u32) = d" using assms(1) by (simp add: unat_of_nat take_bit_nat_eq_self)
  have n: "unat (of_nat n :: u32) = n" using assms(2) by (simp add: unat_of_nat take_bit_nat_eq_self)
  have max: "unat (0xFFFFFFFF :: u32) = 4294967295" by simp
  have "(of_nat d :: u32) \<le> 0xFFFFFFFF" using assms(1) by (simp only: word_le_nat_alt d max)
  then have "unat (0xFFFFFFFF - of_nat d :: u32) = 4294967295 - d"
    by (simp only: unat_sub d max)
  then have "unat ((0xFFFFFFFF - of_nat d) div 10 :: u32) = (4294967295 - d) div 10"
    by (simp add: unat_div)
  moreover have "(4294967295 - d) div 10 < n \<longleftrightarrow> \<not> n * 10 + d < 2 ^ 32"
    using assms(1) by (simp add: div_less_iff_less_mult) linarith
  ultimately show ?thesis by (simp only: word_less_nat_alt n)
qed

lemma checked_digits_value:
  assumes "\<forall>c \<in> set ds. is_dec c" "n < 2 ^ 32"
  shows "checked_digits ds (of_nat n) =
    (let v = foldl (\<lambda>n c. n * 10 + dec_value c) n ds in if v < 2 ^ 32 then Some (of_nat v) else None)"
  using assms
proof (induction ds arbitrary: n)
  case (Cons c ds)
  have step: "(of_nat n :: u32) > (0xFFFFFFFF - of_nat (dec_value c)) div 10 \<longleftrightarrow> \<not> n * 10 + dec_value c < 2 ^ 32"
    using Cons.prems dec_value_bound by (intro checked_step) auto
  show ?case
  proof (cases "n * 10 + dec_value c < 2 ^ 32")
    case True
    have "(of_nat n * 10 + of_nat (dec_value c) :: u32) = of_nat (n * 10 + dec_value c)" by simp
    then show ?thesis using True step Cons.IH [of "n * 10 + dec_value c"] Cons.prems
      by (simp only: checked_digits.simps Let_def foldl.simps) simp
  next
    case False
    then have "\<not> foldl (\<lambda>n c. n * 10 + dec_value c) (n * 10 + dec_value c) ds < 2 ^ 32"
      using fold_value_ge [of "n * 10 + dec_value c" ds] by simp
    then show ?thesis using False step by (simp add: Let_def)
  qed
qed simp

section \<open>Properties\<close>

text \<open>C28. A configuration that loads is well formed, whatever the file holds: one to five replicas, a
  quorum between one and their number, at most five role names and 32 channels, every text short
  enough for its array; it is the active configuration, the one handed to the caller, and one the
  registered capability check accepts.\<close>

theorem loaded_config_is_valid:
  assumes "rte_redundancy_config_load files path out st = (STATUS_OK, out', st')"
  shows "\<exists>c. out' = Some c \<and> valid_config c \<and> rte_redundancy_config_get_active st' = Some c \<and>
    (\<forall>f. s_capability_fn st = Some f \<longrightarrow> f (rc_topology c) (rc_replica_count c)) \<and>
    s_capability_fn st' = s_capability_fn st"
  using assms parsed_valid
  by (auto simp: rte_redundancy_config_load_def rte_redundancy_config_get_active_def
      rte_redundancy_config_set_active_def split: option.splits if_splits)

text \<open>A load that fails leaves the caller's configuration, the active configuration and the capability
  check as they were.\<close>

theorem failed_load_changes_nothing:
  assumes "rte_redundancy_config_load files path out st = (status, out', st')" "status \<noteq> STATUS_OK"
  shows "out' = out \<and> st' = st"
  using assms by (auto simp: rte_redundancy_config_load_def split: option.splits if_splits)

text \<open>C29. Of the numbers in the file the buffer sizes are read exactly: a value is accepted just when it
  is one decimal numeral below two to the 32, followed by nothing but white space up to a comma or the
  end of the object. All other numbers are read modulo two to the 32, with whatever follows the
  digits ignored.\<close>

theorem numbers_of_the_file:
  assumes "pos \<le> len" "len \<le> length buf"
  shows "let rest = drop pos (take len buf);
      digits = takeWhile is_dec rest;
      tail = dropWhile is_ws (dropWhile is_dec rest)
    in parse_uint32_checked buf len pos =
        (if digits \<noteq> [] \<and> text_value digits < 2 ^ 32 \<and> (tail = [] \<or> hd tail = CHR '','')
         then Some (of_nat (text_value digits)) else None) \<and>
      parse_uint_value buf len pos = (if digits = [] then None else Some (of_nat (text_value digits)))"
proof -
  let ?rest = "drop pos (take len buf)"
  let ?digits = "takeWhile is_dec ?rest"
  let ?after = "dropWhile is_dec ?rest"
  let ?tail = "dropWhile is_ws ?after"
  let ?idx = "skip_ws buf len (pos + length ?digits)"
  have after: "drop (pos + length ?digits) (take len buf) = ?after"
    by (metis add.commute drop_drop dropWhile_eq_drop)
  have idx: "?idx = pos + length ?digits + length (takeWhile is_ws ?after)"
    by (simp add: skip_ws_def after)
  have tail: "drop ?idx (take len buf) = ?tail"
    unfolding idx by (metis after add.commute drop_drop dropWhile_eq_drop)
  have long: "length (take len buf) = len" using assms(2) by simp
  have stop: "(?idx < len \<and> buf ! ?idx \<noteq> CHR '','') \<longleftrightarrow> \<not> (?tail = [] \<or> hd ?tail = CHR '','')"
  proof (cases "?idx < len")
    case True
    then have "?tail \<noteq> []" "hd ?tail = buf ! ?idx"
      unfolding tail [symmetric] using long by (auto simp: hd_drop_conv_nth)
    then show ?thesis using True by simp
  next
    case False
    then have "?tail = []" unfolding tail [symmetric] using long by simp
    then show ?thesis using False by simp
  qed
  have digits: "\<forall>c \<in> set ?digits. is_dec c" by (auto dest: set_takeWhileD)
  have "checked_digits ?digits 0 =
      (if text_value ?digits < 2 ^ 32 then Some (of_nat (text_value ?digits)) else None)"
    using checked_digits_value [OF digits, of 0] by (simp add: text_value_def Let_def)
  then have "parse_uint32_checked buf len pos =
        (if ?digits \<noteq> [] \<and> text_value ?digits < 2 ^ 32 \<and> (?tail = [] \<or> hd ?tail = CHR '','')
         then Some (of_nat (text_value ?digits)) else None)"
    by (simp add: parse_uint32_checked_def Let_def stop)
  moreover have "parse_uint_value buf len pos = (if ?digits = [] then None else Some (of_nat (text_value ?digits)))"
    using of_nat_fold [of 0 ?digits] by (simp add: parse_uint_value_def text_value_def Let_def)
  ultimately show ?thesis by (simp add: Let_def)
qed

text \<open>A file, and one whose number of replicas is read modulo two to the 32.\<close>

definition plain_file :: string where
  "plain_file = ''{'' @ [CHR 0x22] @ ''topology'' @ [CHR 0x22] @ '': '' @ [CHR 0x22] @ ''2oo3'' @ [CHR 0x22] @
     '', '' @ [CHR 0x22] @ ''replicas'' @ [CHR 0x22] @ '': 4294967299}''"

definition plain_config :: rte_redundancy_config where
  "plain_config = zero_config\<lparr>rc_topology := TOPOLOGY_2OO3, rc_replica_count := 3, rc_quorum_size := 2,
     rc_standby_mode := STANDBY_COLD\<rparr>"

lemma plain_parse: "parse_config plain_file (length plain_file) = Some plain_config"
  by code_simp

lemma plain_load: "rte_redundancy_config_load (\<lambda>_. Some (plain_file, False)) (Some ''f'') (Some zero_config)
    initial_redundancy_config_state =
  (STATUS_OK, Some plain_config, rte_redundancy_config_set_active (Some plain_config) initial_redundancy_config_state)"
proof -
  have "\<not> CONFIG_MAX_FILE_SIZE \<le> length plain_file" by (simp add: plain_file_def CONFIG_MAX_FILE_SIZE_def)
  then show ?thesis
    by (simp add: rte_redundancy_config_load_def plain_parse initial_redundancy_config_state_def)
qed

theorem loaded_config_is_valid_witness: "valid_config plain_config"
  using loaded_config_is_valid [OF plain_load] by blast

theorem failed_load_changes_nothing_witness:
  "rte_redundancy_config_load (\<lambda>_. None) (Some ''f'') (Some zero_config) initial_redundancy_config_state =
    (STATUS_INTERNAL_ERROR, Some zero_config, initial_redundancy_config_state)"
proof -
  obtain status out' st' where r: "rte_redundancy_config_load (\<lambda>_. None) (Some ''f'') (Some zero_config)
    initial_redundancy_config_state = (status, out', st')" by (metis prod_cases3)
  then have "status = STATUS_INTERNAL_ERROR" by (simp add: rte_redundancy_config_load_def)
  with failed_load_changes_nothing [OF r] r show ?thesis by simp
qed

theorem numbers_of_the_file_witness:
  "parse_uint32_checked ''4294967299'' 10 0 = None \<and> parse_uint_value ''4294967299'' 10 0 = Some 3"
  using numbers_of_the_file [of 0 10 "''4294967299''"] by (simp add: text_value_def dec_value_def Let_def)

end
