(* ===== verification/String_Refinement.thy ===== *)
theory String_Refinement
  imports Log_Event
begin

unbundle bit_operations_syntax

text \<open>
  What the string module promises, as functions on lists of characters: a writer either stores the
  list it computes from the old content or, when that list is longer than the capacity, reports the
  exhaustion and changes nothing; a reader depends on the content alone. The writers share one
  contract, a locale, which every one of them meets.
\<close>

section \<open>The contract of a writer\<close>

definition writes :: "rte_string \<Rightarrow> rte_status \<times> rte_string option \<Rightarrow> bytes \<Rightarrow> bool" where
  "writes s r cs \<longleftrightarrow>
    (if length cs \<le> bf_capacity (str_buf s)
     then fst r = STATUS_OK \<and> (\<exists>s'. snd r = Some s' \<and> holds (bf_capacity (str_buf s)) cs s')
     else r = (STATUS_RESOURCE_EXHAUSTED, Some s))"

locale text_writer =
  fixes wr :: "rte_string \<Rightarrow> rte_status \<times> rte_string option"
    and effect :: "bytes \<Rightarrow> bytes"
  assumes contract: "wf_buffer (str_buf s) \<Longrightarrow> writes s (wr s) (effect (str_content s))"
begin

lemma keeps_wf:
  assumes "wf_buffer (str_buf s)"
  shows "\<exists>s'. snd (wr s) = Some s' \<and> wf_buffer (str_buf s') \<and> bf_capacity (str_buf s') = bf_capacity (str_buf s)"
  using contract [OF assms] assms by (auto simp: writes_def holds_def split: if_splits)

lemma error_unchanged: "wf_buffer (str_buf s) \<Longrightarrow> fst (wr s) \<noteq> STATUS_OK \<Longrightarrow> wr s = (STATUS_RESOURCE_EXHAUSTED, Some s)"
  using contract [of s] by (auto simp: writes_def split: if_splits)

lemma ok_iff: "wf_buffer (str_buf s) \<Longrightarrow>
    fst (wr s) = STATUS_OK \<longleftrightarrow> length (effect (str_content s)) \<le> bf_capacity (str_buf s)"
  using contract [of s] by (auto simp: writes_def split: if_splits)

lemma content_after:
  assumes "wf_buffer (str_buf s)"
  shows "str_content (the_default s (snd (wr s))) =
    (if length (effect (str_content s)) \<le> bf_capacity (str_buf s) then effect (str_content s) else str_content s)"
  using contract [OF assms] by (auto simp: writes_def holds_def)

end

section \<open>The writers meet it\<close>

lemma append_bytes_writes:
  assumes "wf_buffer (str_buf s)"
  shows "writes s (rte_string_append_bytes (Some s) cs (length cs)) (str_content s @ cs)"
proof -
  have h: "holds (bf_capacity (str_buf s)) (str_content s) s" using assms by (simp add: holds_def)
  have len: "bf_length (str_buf s) = length (str_content s)" using content_data [OF assms] by simp
  have le: "length (str_content s) \<le> bf_capacity (str_buf s)" using assms len by (simp add: wf_buffer_def)
  show ?thesis
  proof (cases "length (str_content s @ cs) \<le> bf_capacity (str_buf s)")
    case True
    then have "holds (bf_capacity (str_buf s)) (str_content s @ cs) (put_behind s cs (length cs))"
      using put_behind_holds [OF h, of cs "[]"] by simp
    moreover have "\<not> length cs > bf_capacity (str_buf s) - length (str_content s)" using True by auto
    then have "rte_string_append_bytes (Some s) cs (length cs) =
        (STATUS_OK, Some (if cs = [] then s else put_behind s cs (length cs)))"
      using wf_buffer_valid [OF assms] by (simp add: rte_string_append_bytes_def len)
    ultimately show ?thesis using True h unfolding writes_def by simp
  next
    case False
    then have "length cs > bf_capacity (str_buf s) - length (str_content s)" using le by auto
    then have "rte_string_append_bytes (Some s) cs (length cs) = (STATUS_RESOURCE_EXHAUSTED, Some s)"
      using wf_buffer_valid [OF assms] by (simp add: rte_string_append_bytes_def len)
    then show ?thesis using False unfolding writes_def by simp
  qed
qed

lemma copy_n_writes:
  assumes "wf_buffer (str_buf s)"
  shows "writes s (rte_string_copy_n (Some s) (Some cs) (length cs)) cs"
proof (cases "length cs \<le> bf_capacity (str_buf s)")
  case True
  obtain s' where "rte_string_copy_n (Some s) (Some cs) (length cs) = (STATUS_OK, Some s')"
    "str_content s' = cs" "wf_buffer (str_buf s')" "bf_capacity (str_buf s') = bf_capacity (str_buf s)"
    by (rule copy_n_content [OF assms True])
  then show ?thesis using True by (simp add: writes_def holds_def)
next
  case False
  obtain d where "bf_data (str_buf s) = Some d" using assms by (auto simp: wf_buffer_def split: option.splits)
  then show ?thesis using False by (simp add: writes_def rte_string_copy_n_def rte_buffer_copy_in_def)
qed

text \<open>The characters of a C string in an array, up to its first NUL.\<close>

definition c_chars :: "bytes \<Rightarrow> bytes" where
  "c_chars d = takeWhile (\<lambda>c. c \<noteq> 0) d"

lemma c_chars_split: "d @ 0 # rest = c_chars d @ 0 # drop (Suc (length (c_chars d))) (d @ 0 # rest)"
proof (cases "0 \<in> set d")
  case True
  then obtain a b where d: "d = a @ 0 # b" "0 \<notin> set a" by (meson split_list_first)
  then have "c_chars d = a" unfolding c_chars_def by (simp only:, subst takeWhile_append2) auto
  then show ?thesis using d by simp
next
  case False
  then have "c_chars d = d" unfolding c_chars_def takeWhile_eq_all_conv by auto
  then show ?thesis by simp
qed

lemma c_chars_no_nul: "0 \<notin> set (c_chars d)"
  by (auto simp: c_chars_def dest: set_takeWhileD)

lemma concat_writes:
  assumes "wf_buffer (str_buf s)"
  shows "writes s (rte_string_concat (Some s) (Some (d @ 0 # rest))) (str_content s @ c_chars d)"
proof -
  let ?cs = "c_chars d" and ?n = "bf_capacity (str_buf s)"
  obtain more where d: "d @ 0 # rest = ?cs @ 0 # more" using c_chars_split by metis
  have h: "holds ?n (str_content s) s" using assms by (simp add: holds_def)
  have len: "bf_length (str_buf s) = length (str_content s)" using content_data [OF assms] by simp
  have le: "length (str_content s) \<le> ?n" using assms len by (simp add: wf_buffer_def)
  show ?thesis
  proof (cases "length (str_content s) + length ?cs \<le> ?n")
    case True
    then have "scan_nul (?n - length (str_content s)) (?cs @ 0 # more) = Some (length ?cs)"
      using scan_nul_found [OF c_chars_no_nul] by simp
    then show ?thesis using True put_behind_holds [OF h True] wf_buffer_valid [OF assms]
      by (simp add: writes_def rte_string_concat_def d len)
  next
    case False
    then have "scan_nul (?n - length (str_content s)) (?cs @ 0 # more) = None"
      using scan_nul_missed [OF c_chars_no_nul] le by simp
    then show ?thesis using False wf_buffer_valid [OF assms] by (simp add: writes_def rte_string_concat_def d len)
  qed
qed

lemma copy_writes:
  assumes "wf_buffer (str_buf s)"
  shows "writes s (rte_string_copy (Some s) (Some (d @ 0 # rest))) (c_chars d)"
proof -
  let ?cs = "c_chars d" and ?n = "bf_capacity (str_buf s)"
  obtain more where d: "d @ 0 # rest = ?cs @ 0 # more" using c_chars_split by metis
  show ?thesis
  proof (cases "length ?cs \<le> ?n")
    case True
    have "rte_string_copy_n (Some s) (Some (?cs @ 0 # more)) (length ?cs) =
        rte_string_copy_n (Some s) (Some ?cs) (length ?cs)"
      using assms by (auto simp: rte_string_copy_n_def rte_buffer_copy_in_def wf_buffer_def split: option.splits)
    then show ?thesis using True scan_nul_found [OF c_chars_no_nul True, of more] wf_buffer_valid [OF assms]
        copy_n_writes [OF assms, of ?cs]
      by (simp add: rte_string_copy_def d)
  next
    case False
    then show ?thesis using scan_nul_missed [OF c_chars_no_nul, of ?n d "0 # more"] wf_buffer_valid [OF assms]
      by (simp add: writes_def rte_string_copy_def d)
  qed
qed

lemma clear_writes: "wf_buffer (str_buf s) \<Longrightarrow> writes s (rte_string_clear (Some s)) []"
  by (frule wf_buffer_valid)
    (auto simp: writes_def holds_def rte_string_clear_def rte_buffer_clear_def str_content_def wf_buffer_def
      split: option.splits)

interpretation clear: text_writer "\<lambda>s. rte_string_clear (Some s)" "\<lambda>_. []"
  by unfold_locales (rule clear_writes)

interpretation copy: text_writer "\<lambda>s. rte_string_copy (Some s) (Some (d @ 0 # rest))" "\<lambda>_. c_chars d" for d rest
  by unfold_locales (rule copy_writes)

interpretation concat: text_writer "\<lambda>s. rte_string_concat (Some s) (Some (d @ 0 # rest))" "\<lambda>c. c @ c_chars d" for d rest
  by unfold_locales (rule concat_writes)

interpretation append_bytes: text_writer "\<lambda>s. rte_string_append_bytes (Some s) cs (length cs)" "\<lambda>c. c @ cs" for cs
  by unfold_locales (rule append_bytes_writes)

interpretation from_u64: text_writer "\<lambda>s. rte_string_from_u64 (Some s) v" "\<lambda>_. rte_string_format_u64_digits v" for v
  by unfold_locales (simp add: rte_string_from_u64_def copy_n_writes Let_def)

interpretation from_i64: text_writer "\<lambda>s. rte_string_from_i64 (Some s) v" "\<lambda>_. signed_digits v" for v
  by unfold_locales (simp add: rte_string_from_i64_def copy_n_writes Let_def)

interpretation from_u32: text_writer "\<lambda>s. rte_string_from_u32 (Some s) v"
    "\<lambda>_. rte_string_format_u64_digits (ucast v)" for v
  by unfold_locales (simp add: rte_string_from_u32_def widened_u32 from_u64.contract Let_def)

interpretation from_i32: text_writer "\<lambda>s. rte_string_from_i32 (Some s) v" "\<lambda>_. signed_digits (scast v)" for v
  by unfold_locales (simp add: rte_string_from_i32_def widened_i32 from_i64.contract Let_def)

interpretation append_u64: text_writer "\<lambda>s. rte_string_append_u64 (Some s) v"
    "\<lambda>c. c @ rte_string_format_u64_digits v" for v
  by unfold_locales (simp add: rte_string_append_u64_def append_bytes_writes Let_def)

interpretation append_i64: text_writer "\<lambda>s. rte_string_append_i64 (Some s) v" "\<lambda>c. c @ signed_digits v" for v
  by unfold_locales (simp add: rte_string_append_i64_def append_bytes_writes Let_def)

interpretation append_u32: text_writer "\<lambda>s. rte_string_append_u32 (Some s) v"
    "\<lambda>c. c @ rte_string_format_u64_digits (ucast v)" for v
  by unfold_locales (simp add: rte_string_append_u32_def widened_u32 append_u64.contract Let_def)

interpretation append_i32: text_writer "\<lambda>s. rte_string_append_i32 (Some s) v"
    "\<lambda>c. c @ signed_digits (scast v)" for v
  by unfold_locales (simp add: rte_string_append_i32_def widened_i32 append_i64.contract Let_def)

section \<open>Sequences of writers\<close>

datatype string_command = Clear | Copy bytes bytes | Concat bytes bytes | Append_bytes bytes
  | From_u64 u64 | From_i64 i64 | From_u32 u32 | From_i32 i32
  | Append_u64 u64 | Append_i64 i64 | Append_u32 u32 | Append_i32 i32

text \<open>The call of the module; an array of a C string is given by what is before and behind a NUL in it.\<close>

fun run_command :: "string_command \<Rightarrow> rte_string \<Rightarrow> rte_status \<times> rte_string option" where
  "run_command Clear s = rte_string_clear (Some s)"
| "run_command (Copy d rest) s = rte_string_copy (Some s) (Some (d @ 0 # rest))"
| "run_command (Concat d rest) s = rte_string_concat (Some s) (Some (d @ 0 # rest))"
| "run_command (Append_bytes cs) s = rte_string_append_bytes (Some s) cs (length cs)"
| "run_command (From_u64 v) s = rte_string_from_u64 (Some s) v"
| "run_command (From_i64 v) s = rte_string_from_i64 (Some s) v"
| "run_command (From_u32 v) s = rte_string_from_u32 (Some s) v"
| "run_command (From_i32 v) s = rte_string_from_i32 (Some s) v"
| "run_command (Append_u64 v) s = rte_string_append_u64 (Some s) v"
| "run_command (Append_i64 v) s = rte_string_append_i64 (Some s) v"
| "run_command (Append_u32 v) s = rte_string_append_u32 (Some s) v"
| "run_command (Append_i32 v) s = rte_string_append_i32 (Some s) v"

text \<open>Its effect on the list of characters.\<close>

fun command_effect :: "string_command \<Rightarrow> bytes \<Rightarrow> bytes" where
  "command_effect Clear c = []"
| "command_effect (Copy d rest) c = c_chars d"
| "command_effect (Concat d rest) c = c @ c_chars d"
| "command_effect (Append_bytes cs) c = c @ cs"
| "command_effect (From_u64 v) c = rte_string_format_u64_digits v"
| "command_effect (From_i64 v) c = signed_digits v"
| "command_effect (From_u32 v) c = rte_string_format_u64_digits (ucast v)"
| "command_effect (From_i32 v) c = signed_digits (scast v)"
| "command_effect (Append_u64 v) c = c @ rte_string_format_u64_digits v"
| "command_effect (Append_i64 v) c = c @ signed_digits v"
| "command_effect (Append_u32 v) c = c @ rte_string_format_u64_digits (ucast v)"
| "command_effect (Append_i32 v) c = c @ signed_digits (scast v)"

lemma command_contract: "text_writer (run_command cmd) (command_effect cmd)"
proof (cases cmd)
  case Clear
  then show ?thesis using clear.text_writer_axioms by (simp add: fun_eq_iff [symmetric] text_writer_def)
next
  case (Copy d rest)
  then show ?thesis using copy.contract by (simp add: text_writer_def)
next
  case (Concat d rest)
  then show ?thesis using concat.contract by (simp add: text_writer_def)
next
  case (Append_bytes cs)
  then show ?thesis using append_bytes.contract by (simp add: text_writer_def)
next
  case (From_u64 v)
  then show ?thesis using from_u64.contract by (simp add: text_writer_def)
next
  case (From_i64 v)
  then show ?thesis using from_i64.contract by (simp add: text_writer_def)
next
  case (From_u32 v)
  then show ?thesis using from_u32.contract by (simp add: text_writer_def)
next
  case (From_i32 v)
  then show ?thesis using from_i32.contract by (simp add: text_writer_def)
next
  case (Append_u64 v)
  then show ?thesis using append_u64.contract by (simp add: text_writer_def)
next
  case (Append_i64 v)
  then show ?thesis using append_i64.contract by (simp add: text_writer_def)
next
  case (Append_u32 v)
  then show ?thesis using append_u32.contract by (simp add: text_writer_def)
next
  case (Append_i32 v)
  then show ?thesis using append_i32.contract by (simp add: text_writer_def)
qed

text \<open>A program of calls, with the statuses it sees, and the same on a list bounded by a capacity.\<close>

fun run_commands :: "string_command list \<Rightarrow> rte_string \<Rightarrow> rte_status list \<times> rte_string" where
  "run_commands [] s = ([], s)"
| "run_commands (cmd # cmds) s =
    (let (status, r) = run_command cmd s; (statuses, s') = run_commands cmds (the_default s r)
     in (status # statuses, s'))"

fun list_commands :: "nat \<Rightarrow> string_command list \<Rightarrow> bytes \<Rightarrow> rte_status list \<times> bytes" where
  "list_commands n [] c = ([], c)"
| "list_commands n (cmd # cmds) c =
    (let fits = length (command_effect cmd c) \<le> n;
         (statuses, c') = list_commands n cmds (if fits then command_effect cmd c else c)
     in ((if fits then STATUS_OK else STATUS_RESOURCE_EXHAUSTED) # statuses, c'))"

section \<open>Readers\<close>

lemma first_difference_take:
  "first_difference (take (min (length as) (length bs)) as) (take (min (length as) (length bs)) bs) =
    first_difference as bs"
  by (induction as bs rule: first_difference.induct) simp_all

lemma compare_lists:
  "(let r = first_difference as bs in if r = 0 then (if length as < length bs then - 1
      else if length bs < length as then 1 else 0) else r) =
    (if ord_class.lexordp as bs then - 1 else if as = bs then 0 else 1)"
proof (induction as arbitrary: bs)
  case Nil
  then show ?case by (cases bs) simp_all
next
  case (Cons a as)
  show ?case
  proof (cases bs)
    case (Cons b bs')
    then show ?thesis using Cons.IH [of bs'] by (auto simp: Let_def split: if_splits)
  qed simp
qed

lemma find_of_map: "List.find P (map f ys) = map_option f (List.find (P \<circ> f) ys)"
  by (induction ys) simp_all

lemma find_index:
  "List.find (\<lambda>i. xs ! i = c) [0..<length xs] =
    (if c \<in> set xs then Some (length (takeWhile (\<lambda>x. x \<noteq> c) xs)) else None)"
proof (induction xs)
  case (Cons x xs)
  have "List.find (\<lambda>i. (x # xs) ! i = c) (map Suc [0..<length xs]) =
      map_option Suc (List.find (\<lambda>i. xs ! i = c) [0..<length xs])"
    by (simp add: find_of_map o_def)
  then show ?case using Cons.IH by (auto simp: upt_conv_Cons map_Suc_upt simp del: upt_Suc)
qed simp

lemma find_cong_set: "(\<And>i. i \<in> set xs \<Longrightarrow> P i = Q i) \<Longrightarrow> List.find P xs = List.find Q xs"
  by (induction xs) auto

lemma data_nth: "i < bf_length (str_buf s) \<Longrightarrow> str_data s ! i = str_content s ! i"
  by (simp add: str_content_def)

text \<open>The first position of a text in another.\<close>

definition first_match :: "bytes \<Rightarrow> bytes \<Rightarrow> nat option" where
  "first_match h n = List.find (\<lambda>i. take (length n) (drop i h) = n) [0..<Suc (length h)]"

lemma find_beyond:
  assumes "n \<noteq> []"
  shows "first_match h n = (if length n > length h then None
    else List.find (\<lambda>i. take (length n) (drop i h) = n) [0..<Suc (length h - length n)])"
proof -
  let ?P = "\<lambda>i. take (length n) (drop i h) = n"
  have short: "\<not> ?P i" if "length h - i < length n" for i
  proof
    assume "?P i"
    then have "length n = min (length n) (length h - i)" by (metis length_drop length_take min.commute)
    then show False using that by simp
  qed
  show ?thesis
  proof (cases "length n > length h")
    case True
    have "List.find ?P [0..<Suc (length h)] = None"
      unfolding find_None_iff using short True by (auto simp del: upt_Suc)
    then show ?thesis using True by (simp add: first_match_def)
  next
    case False
    let ?m = "Suc (length h - length n)"
    have "[0..<Suc (length h)] = [0..<?m] @ [?m..<Suc (length h)]"
      using False assms upt_add_eq_append [of 0 ?m "length h - (length h - length n)"]
      by (simp del: upt_Suc) 
    moreover have "List.find ?P [?m..<Suc (length h)] = None"
      unfolding find_None_iff using short False by (auto simp del: upt_Suc)
    moreover have "List.find ?P (xs @ ys) = List.find ?P xs" if "List.find ?P ys = None" for xs ys
      using that by (induction xs) auto
    ultimately show ?thesis using False by (simp add: first_match_def del: upt_Suc)
  qed
qed

lemma command_step:
  assumes "wf_buffer (str_buf s)"
  shows "\<exists>s1. snd (run_command cmd s) = Some s1 \<and> wf_buffer (str_buf s1) \<and>
    bf_capacity (str_buf s1) = bf_capacity (str_buf s) \<and>
    (if length (command_effect cmd (str_content s)) \<le> bf_capacity (str_buf s)
     then fst (run_command cmd s) = STATUS_OK \<and> str_content s1 = command_effect cmd (str_content s)
     else fst (run_command cmd s) = STATUS_RESOURCE_EXHAUSTED \<and> s1 = s)"
  using text_writer.contract [OF command_contract assms, of cmd] assms
  by (auto simp: writes_def holds_def split: if_splits)

text \<open>The readers on the content.\<close>

lemma take_data: "n \<le> bf_length (str_buf s) \<Longrightarrow> take n (str_data s) = take n (str_content s)"
  by (simp add: str_content_def min_def)

lemma compare_content:
  assumes "wf_buffer (str_buf a)" "wf_buffer (str_buf b)"
  shows "rte_string_compare (Some a) (Some b) (Some r0) =
    (STATUS_OK, Some (if ord_class.lexordp (str_content a) (str_content b) then - 1
      else if str_content a = str_content b then 0 else 1))"
proof -
  let ?as = "str_content a" and ?bs = "str_content b"
  have la: "bf_length (str_buf a) = length ?as" and lb: "bf_length (str_buf b) = length ?bs"
    using content_data assms by simp_all
  have v: "rte_buffer_is_valid (Some (str_buf a))" "rte_buffer_is_valid (Some (str_buf b))"
    using assms by (auto intro: wf_buffer_valid)
  have m: "(if length ?as < length ?bs then length ?as else length ?bs) = min (length ?as) (length ?bs)"
    by (simp add: min_def)
  have fd: "first_difference (take (min (length ?as) (length ?bs)) (str_data a))
      (take (min (length ?as) (length ?bs)) (str_data b)) = first_difference ?as ?bs"
    using first_difference_take [of ?as ?bs] by (simp add: take_data la lb)
  have "rte_string_compare (Some a) (Some b) (Some r0) = (STATUS_OK, Some (let r = first_difference ?as ?bs
      in if r = 0 then (if length ?as < length ?bs then - 1 else if length ?bs < length ?as then 1 else 0) else r))"
    by (simp only: rte_string_compare_def v la lb m fd Let_def option.case prod.case not_True_eq_False
        simp_thms if_False)
  then show ?thesis by (simp only: compare_lists)
qed

lemma find_char_content:
  assumes "wf_buffer (str_buf a)"
  shows "rte_string_find_char (Some a) c (Some f0) (Some i0) =
    (STATUS_OK, Some (c \<in> set (str_content a)),
     Some (if c \<in> set (str_content a) then length (takeWhile (\<lambda>x. x \<noteq> c) (str_content a)) else i0))"
proof -
  have la: "bf_length (str_buf a) = length (str_content a)" using content_data assms by simp
  have "List.find (\<lambda>i. str_data a ! i = c) [0..<bf_length (str_buf a)] =
      List.find (\<lambda>i. str_content a ! i = c) [0..<length (str_content a)]"
    unfolding la by (rule find_cong_set) (simp add: data_nth la)
  then show ?thesis using wf_buffer_valid [OF assms] by (simp add: rte_string_find_char_def find_index)
qed

lemma find_substr_content:
  assumes "wf_buffer (str_buf a)" "wf_buffer (str_buf b)"
  shows "rte_string_find_substr (Some a) (Some b) (Some f0) (Some i0) =
      (case first_match (str_content a) (str_content b) of
         None \<Rightarrow> (STATUS_OK, Some False, Some i0) | Some i \<Rightarrow> (STATUS_OK, Some True, Some i))"
proof -
  let ?as = "str_content a" and ?bs = "str_content b"
  have la: "bf_length (str_buf a) = length ?as" and lb: "bf_length (str_buf b) = length ?bs"
    using content_data assms by simp_all
  have v: "rte_buffer_is_valid (Some (str_buf a))" "rte_buffer_is_valid (Some (str_buf b))"
    using assms by (auto intro: wf_buffer_valid)
  show ?thesis
  proof (cases "?bs = []")
    case True
    then have "first_match ?as ?bs = Some 0" by (simp add: first_match_def upt_conv_Cons del: upt_Suc)
    then show ?thesis using True v by (simp add: rte_string_find_substr_def lb Let_def)
  next
    case False
    have nb: "take (length ?bs) (str_data b) = ?bs" by (simp add: take_data lb)
    have "List.find (\<lambda>i. take (length ?bs) (drop i (str_data a)) = ?bs) [0..<Suc (length ?as - length ?bs)] =
        List.find (\<lambda>i. take (length ?bs) (drop i ?as) = ?bs) [0..<Suc (length ?as - length ?bs)]"
      if "length ?bs \<le> length ?as"
    proof (rule find_cong_set)
      fix i assume "i \<in> set [0..<Suc (length ?as - length ?bs)]"
      then have "i + length ?bs \<le> length ?as" using that by auto
      then have "take (length ?bs) (drop i (str_data a)) = take (length ?bs) (drop i ?as)"
        unfolding take_drop using take_data [of "i + length ?bs" a] la by (simp add: add.commute)
      then show "(take (length ?bs) (drop i (str_data a)) = ?bs) = (take (length ?bs) (drop i ?as) = ?bs)" by simp
    qed
    then show ?thesis using False v
      by (auto simp: rte_string_find_substr_def la lb nb find_beyond [OF False] Let_def simp del: upt_Suc)
  qed
qed

section \<open>Properties\<close>

text \<open>C33. The writers of the string module refine operations on a bounded list. Over any sequence of
  calls on a well-formed string the statuses and the content are those of the list that each call
  would compute, which is dropped, with the status for exhaustion, exactly when it is longer than the
  capacity; the string stays well formed and keeps its capacity.\<close>

theorem strings_refine_lists:
  assumes "wf_buffer (str_buf s)" "run_commands cmds s = (statuses, s')"
  shows "list_commands (bf_capacity (str_buf s)) cmds (str_content s) = (statuses, str_content s') \<and>
    wf_buffer (str_buf s') \<and> bf_capacity (str_buf s') = bf_capacity (str_buf s)"
  using assms
proof (induction cmds arbitrary: s statuses)
  case (Cons cmd cmds)
  let ?status = "fst (run_command cmd s)"
  obtain s1 where one: "snd (run_command cmd s) = Some s1" "wf_buffer (str_buf s1)"
    "bf_capacity (str_buf s1) = bf_capacity (str_buf s)"
    "if length (command_effect cmd (str_content s)) \<le> bf_capacity (str_buf s)
     then ?status = STATUS_OK \<and> str_content s1 = command_effect cmd (str_content s)
     else ?status = STATUS_RESOURCE_EXHAUSTED \<and> s1 = s"
    using command_step [OF Cons.prems(1), of cmd] by blast
  obtain rest where rest: "run_commands cmds s1 = (rest, s')" "statuses = ?status # rest"
    using Cons.prems(2) one(1) by (auto simp: Let_def split: prod.splits)
  from Cons.IH [OF one(2) rest(1)] one(3,4) rest(2) show ?case
    by (auto simp: Let_def split: if_splits)
qed simp

theorem strings_refine_lists_witness:
  "\<exists>s'. run_commands [From_u64 42, Concat [0x21] [], Append_bytes (replicate 30 0x41)] sample_string =
      ([STATUS_OK, STATUS_OK, STATUS_RESOURCE_EXHAUSTED], s') \<and> str_content s' = [0x34, 0x32, 0x21]"
proof -
  let ?cmds = "[From_u64 42, Concat [0x21] [], Append_bytes (replicate 30 0x41)]"
  obtain statuses s' where r: "run_commands ?cmds sample_string = (statuses, s')" by fastforce
  have "rte_string_format_u64_digits 42 = [0x34, 0x32]" by code_simp
  then have "list_commands 24 ?cmds [] = ([STATUS_OK, STATUS_OK, STATUS_RESOURCE_EXHAUSTED], [0x34, 0x32, 0x21])"
    by (simp add: c_chars_def)
  with strings_refine_lists [OF _ r] r show ?thesis
    by (auto simp: sample_string_def wf_buffer_def str_content_def)
qed

text \<open>The readers see the content alone: the length is its length, the comparison is the
  lexicographic order of the bytes, the search for a character finds the first one, and the search for
  a text finds the first place where it stands, an empty one at the start; the caller's index is
  written only when something is found.\<close>

theorem string_readers_exact:
  assumes "wf_buffer (str_buf a)" "wf_buffer (str_buf b)"
  shows "rte_string_length (Some a) = length (str_content a) \<and>
    rte_string_compare (Some a) (Some b) (Some r0) =
      (STATUS_OK, Some (if ord_class.lexordp (str_content a) (str_content b) then - 1
        else if str_content a = str_content b then 0 else 1)) \<and>
    rte_string_find_char (Some a) c (Some f0) (Some i0) =
      (STATUS_OK, Some (c \<in> set (str_content a)),
       Some (if c \<in> set (str_content a) then length (takeWhile (\<lambda>x. x \<noteq> c) (str_content a)) else i0)) \<and>
    rte_string_find_substr (Some a) (Some b) (Some f0) (Some i0) =
      (case first_match (str_content a) (str_content b) of
         None \<Rightarrow> (STATUS_OK, Some False, Some i0) | Some i \<Rightarrow> (STATUS_OK, Some True, Some i))"
  using compare_content [OF assms] find_char_content [OF assms(1)] find_substr_content [OF assms]
    content_data [OF assms(1)]
  by (simp add: rte_string_length_def)

theorem string_readers_exact_witness:
  "rte_string_compare (Some sample_string)
     (Some (sample_string\<lparr>str_buf := \<lparr>bf_data = Some [0x34, 0x32, 0], bf_capacity = 3, bf_length = 2\<rparr>\<rparr>)) (Some 5) =
    (STATUS_OK, Some (- 1))"
  using string_readers_exact [of sample_string "sample_string\<lparr>str_buf := \<lparr>bf_data = Some [0x34, 0x32, 0],
      bf_capacity = 3, bf_length = 2\<rparr>\<rparr>" 5]
  by (simp add: sample_string_def wf_buffer_def str_content_def str_data_def)

end
