(* ===== verification/Oal_Dispatch.thy ===== *)
theory Oal_Dispatch
  imports Oal_Services Log_Event
begin

text \<open>
  The remaining services of the OS abstraction layer, \<^verbatim>\<open>src/oal\<close>: memory pools, clock
  synchronisation, mutexes, tasks, non-volatile memory, real-time set-up, reboot, message queues,
  flows and the fail-safe output unit, with the table of socket operations and the registration of
  a whole bundle (\<^verbatim>\<open>src/oal/osadapter/rte_osadapter.c\<close>). Every operation checks its
  parameters, some check the setup lock, and all of them hand the call to the registered OSAdapter.

  An OSAdapter's entry is a function on the opaque state that returns its status, what it leaves in
  the out parameters and the new state. A pointer the code compares with \<^verbatim>\<open>NULL\<close> is an option,
  an out parameter \<open>Some\<close> of the value the caller has there.
\<close>

section \<open>The adapters and the state of the layer\<close>

record rte_mem_pool_config =
  mp_block_size :: nat
  mp_block_count :: nat

record 'x osadapter_memory =
  memory_create :: "(nat \<Rightarrow> rte_mem_pool_config \<Rightarrow> 'x \<Rightarrow> rte_status \<times> handle option \<times> 'x) option"
  memory_acquire :: "(handle \<Rightarrow> 'x \<Rightarrow> rte_status \<times> nat option \<times> 'x) option"
  memory_release :: "(handle \<Rightarrow> nat \<Rightarrow> 'x \<Rightarrow> rte_status \<times> 'x) option"
  memory_stats :: "(handle \<Rightarrow> 'x \<Rightarrow> rte_status \<times> (nat \<times> nat) \<times> 'x) option"

datatype rte_clocksync_quality =
  CLOCKSYNC_UNSYNCHRONIZED | CLOCKSYNC_DEGRADED | CLOCKSYNC_SYNCHRONIZED

record 'x osadapter_clocksync =
  clocksync_get_offset_ms :: "(u64 \<Rightarrow> 'x \<Rightarrow> rte_status \<times> u64 \<times> 'x) option"
  clocksync_get_quality ::
    "(rte_clocksync_quality \<Rightarrow> 'x \<Rightarrow> rte_status \<times> rte_clocksync_quality \<times> 'x) option"

record 'x osadapter_mutex =
  mutex_create :: "(nat \<Rightarrow> 'x \<Rightarrow> rte_status \<times> handle option \<times> 'x) option"
  mutex_lock :: "(handle \<Rightarrow> 'x \<Rightarrow> rte_status \<times> 'x) option"
  mutex_unlock :: "(handle \<Rightarrow> 'x \<Rightarrow> rte_status \<times> 'x) option"
  mutex_destroy :: "(handle \<Rightarrow> 'x \<Rightarrow> rte_status \<times> 'x) option"
  mutex_lock_timed :: "(handle \<Rightarrow> duration_ms \<Rightarrow> 'x \<Rightarrow> rte_status \<times> 'x) option"

record rte_task_config =
  tk_name :: "string option"
  tk_entry :: "nat option"
  tk_user_ctx :: "nat option"
  tk_period_ms :: duration_ms
  tk_priority :: u32
  tk_stack_size :: nat

record 'x osadapter_task =
  task_create :: "(nat \<Rightarrow> rte_task_config \<Rightarrow> 'x \<Rightarrow> rte_status \<times> handle option \<times> 'x) option"
  task_start :: "(handle \<Rightarrow> 'x \<Rightarrow> rte_status \<times> 'x) option"
  task_suspend :: "(handle \<Rightarrow> 'x \<Rightarrow> rte_status \<times> 'x) option"
  task_destroy :: "(handle \<Rightarrow> 'x \<Rightarrow> rte_status \<times> 'x) option"

record rte_nvm_config =
  nv_region_name :: "string option"
  nv_region_size :: nat

record 'x osadapter_nvm =
  nvm_open :: "(nat \<Rightarrow> rte_nvm_config \<Rightarrow> 'x \<Rightarrow> rte_status \<times> handle option \<times> 'x) option"
  nvm_read :: "(handle \<Rightarrow> nat \<Rightarrow> bytes \<Rightarrow> 'x \<Rightarrow> rte_status \<times> bytes \<times> 'x) option"
  nvm_write :: "(handle \<Rightarrow> nat \<Rightarrow> bytes \<Rightarrow> 'x \<Rightarrow> rte_status \<times> 'x) option"
  nvm_sync :: "(handle \<Rightarrow> 'x \<Rightarrow> rte_status \<times> 'x) option"
  nvm_close :: "(handle \<Rightarrow> 'x \<Rightarrow> rte_status \<times> 'x) option"

record 'x osadapter_platform =
  platform_realtime_init :: "(u32 \<Rightarrow> 'x \<Rightarrow> rte_status \<times> 'x) option"

record 'x osadapter_reboot =
  reboot_request :: "(u16 \<Rightarrow> 'x \<Rightarrow> rte_status \<times> 'x) option"

record rte_ipc_config =
  ic_name :: "string option"
  ic_message_size :: nat
  ic_queue_depth :: nat

record 'x osadapter_ipc =
  ipc_create :: "(nat \<Rightarrow> rte_ipc_config \<Rightarrow> 'x \<Rightarrow> rte_status \<times> handle option \<times> 'x) option"
  ipc_send :: "(handle \<Rightarrow> bytes \<Rightarrow> duration_ms \<Rightarrow> 'x \<Rightarrow> rte_status \<times> 'x) option"
  ipc_receive :: "(handle \<Rightarrow> bytes \<Rightarrow> duration_ms \<Rightarrow> 'x \<Rightarrow> rte_status \<times> bytes \<times> 'x) option"
  ipc_destroy :: "(handle \<Rightarrow> 'x \<Rightarrow> rte_status \<times> 'x) option"

datatype rte_flow_channel = FLOW_CHANNEL_USER | FLOW_CHANNEL_CTRL | FLOW_CHANNEL_OTHER nat

record rte_flow_attr =
  fa_message_size :: nat
  fa_oflags :: u32
  fa_is_connected :: bool

record rte_flow_config =
  fc_name :: "string option"
  fc_oflags :: u32
  fc_message_size :: nat
  fc_open_timeout_ms :: duration_ms

record 'x osadapter_flow =
  flow_open :: "(nat \<Rightarrow> rte_flow_config \<Rightarrow> 'x \<Rightarrow> rte_status \<times> handle option \<times> 'x) option"
  flow_send :: "(handle \<Rightarrow> bytes \<Rightarrow> rte_flow_channel \<Rightarrow> duration_ms \<Rightarrow> 'x \<Rightarrow> rte_status \<times> 'x) option"
  flow_receive :: "(handle \<Rightarrow> bytes \<Rightarrow> rte_flow_channel option \<Rightarrow> duration_ms \<Rightarrow> 'x \<Rightarrow>
    rte_status \<times> (bytes \<times> rte_flow_channel option) \<times> 'x) option"
  flow_close :: "(handle \<Rightarrow> 'x \<Rightarrow> rte_status \<times> 'x) option"
  flow_getattr :: "(handle \<Rightarrow> rte_flow_attr \<Rightarrow> 'x \<Rightarrow> rte_status \<times> rte_flow_attr \<times> 'x) option"
  flow_setattr :: "(handle \<Rightarrow> rte_flow_attr \<Rightarrow> rte_flow_attr option \<Rightarrow> 'x \<Rightarrow>
    rte_status \<times> rte_flow_attr option \<times> 'x) option"

record 'x osadapter_fsou =
  fsou_grant :: "(u32 \<Rightarrow> 'x \<Rightarrow> rte_status \<times> 'x) option"
  fsou_revoke :: "(safestate_reason \<Rightarrow> 'x \<Rightarrow> rte_status \<times> 'x) option"

text \<open>A socket handle is an \<^verbatim>\<open>intptr_t\<close>; \<open>-1\<close> is the invalid one.\<close>

type_synonym socket_handle = int

datatype rte_os_socket_type = SOCKET_TYPE_UDP | SOCKET_TYPE_TCP

text \<open>
  The operations of a socket table. The optional out counter of \<open>socket_send\<close> and
  \<open>socket_sendto\<close> is always given, as is the endpoint of \<open>socket_recvfrom\<close>: it receives the
  buffer, the peer's host, the capacity of the host buffer and the port as the caller has them and
  returns what it leaves there.
\<close>

record 'x os_socket_ops =
  socket_open :: "(rte_os_socket_type \<Rightarrow> socket_handle \<Rightarrow> 'x \<Rightarrow> rte_status \<times> socket_handle \<times> 'x) option"
  socket_bind :: "(socket_handle \<Rightarrow> string option \<Rightarrow> u16 \<Rightarrow> 'x \<Rightarrow> rte_status \<times> 'x) option"
  socket_connect :: "(socket_handle \<Rightarrow> string \<Rightarrow> u16 \<Rightarrow> 'x \<Rightarrow> rte_status \<times> 'x) option"
  socket_send :: "(socket_handle \<Rightarrow> bytes \<Rightarrow> 'x \<Rightarrow> rte_status \<times> nat \<times> 'x) option"
  socket_sendto :: "(socket_handle \<Rightarrow> bytes \<Rightarrow> string \<Rightarrow> u16 \<Rightarrow> 'x \<Rightarrow> rte_status \<times> nat \<times> 'x) option"
  socket_recv :: "(socket_handle \<Rightarrow> bytes \<Rightarrow> 'x \<Rightarrow> rte_status \<times> bytes \<times> nat \<times> 'x) option"
  socket_recvfrom :: "(socket_handle \<Rightarrow> bytes \<Rightarrow> string \<Rightarrow> nat \<Rightarrow> u16 \<Rightarrow> 'x \<Rightarrow>
    rte_status \<times> (bytes \<times> string \<times> u16) \<times> nat \<times> 'x) option"
  socket_poll :: "(socket_handle \<Rightarrow> u32 \<Rightarrow> duration_ms \<Rightarrow> 'x \<Rightarrow> rte_status \<times> u32 \<times> 'x) option"
  socket_set_nonblocking :: "(socket_handle \<Rightarrow> bool \<Rightarrow> 'x \<Rightarrow> rte_status \<times> 'x) option"
  socket_close :: "(socket_handle \<Rightarrow> 'x \<Rightarrow> rte_status \<times> 'x) option"

text \<open>
  The file-scope variables: \<open>base\<close> holds those of the theories this one builds on, each
  \<open>o_\<dots>\<close> is the \<^verbatim>\<open>s_osadapter\<close> of one service, \<open>o_presence_reported\<close> the latch of
  \<^verbatim>\<open>rte_fsou_report_presence\<close>.
\<close>

record 'x oal =
  base :: "'x rte"
  o_memory :: "'x osadapter_memory option"
  o_clocksync :: "'x osadapter_clocksync option"
  o_mutex :: "'x osadapter_mutex option"
  o_task :: "'x osadapter_task option"
  o_nvm :: "'x osadapter_nvm option"
  o_platform :: "'x osadapter_platform option"
  o_reboot :: "'x osadapter_reboot option"
  o_ipc :: "'x osadapter_ipc option"
  o_flow :: "'x osadapter_flow option"
  o_sockets :: "'x os_socket_ops option"
  o_fsou :: "'x osadapter_fsou option"
  o_presence_reported :: bool

definition initial_oal :: "'x \<Rightarrow> 'x oal" where
  "initial_oal x = \<lparr>base = initial_rte x, o_memory = None, o_clocksync = None, o_mutex = None,
     o_task = None, o_nvm = None, o_platform = None, o_reboot = None, o_ipc = None, o_flow = None,
     o_sockets = None, o_fsou = None, o_presence_reported = False\<rparr>"

section \<open>The shapes the operations share\<close>

type_synonym ('x, 'r) oal_op = "'x oal \<Rightarrow> rte_status \<times> 'r \<times> 'x oal"

text \<open>The registered adapter's entry, if there is one; \<open>unwritten\<close> is what an error leaves.\<close>

definition call_adapter ::
  "('x oal \<Rightarrow> 'a option) \<Rightarrow> ('a \<Rightarrow> 'f option) \<Rightarrow> ('f \<Rightarrow> 'x \<Rightarrow> rte_status \<times> 'r \<times> 'x) \<Rightarrow> 'r \<Rightarrow>
    ('x, 'r) oal_op" where
  "call_adapter adapter entry call unwritten w =
    (case adapter w of None \<Rightarrow> (STATUS_NOT_INITIALIZED, unwritten, w)
     | Some a \<Rightarrow> case entry a of None \<Rightarrow> (STATUS_NOT_SUPPORTED, unwritten, w)
       | Some f \<Rightarrow> let (status, r, x) = call f (ext (base w))
                   in (status, r, w\<lparr>base := (base w)\<lparr>ext := x\<rparr>\<rparr>))"

text \<open>An operation that is refused, and reported, once the setup phase is locked.\<close>

definition setup_only :: "'r \<Rightarrow> ('x, 'r) oal_op \<Rightarrow> ('x, 'r) oal_op" where
  "setup_only unwritten action w =
    (let (status, s) = rte_lifecycle_check_setup_allowed (base w); w1 = w\<lparr>base := s\<rparr>
     in if status \<noteq> STATUS_OK then (status, unwritten, w1) else action w1)"

text \<open>The body of a \<^verbatim>\<open>rte_osadapter_..._register\<close>.\<close>

definition register_adapter :: "('a \<Rightarrow> 'x oal \<Rightarrow> 'x oal) \<Rightarrow> 'a option \<Rightarrow> ('x, unit) oal_op" where
  "register_adapter store osadapter w =
    (case osadapter of None \<Rightarrow> (STATUS_INVALID_PARAM, (), w)
     | Some a \<Rightarrow> setup_only () (\<lambda>w. (STATUS_OK, (), store a w)) w)"

text \<open>An entry without an out parameter, and one whose out parameter is present.\<close>

fun no_out :: "rte_status \<times> 'x \<Rightarrow> rte_status \<times> unit \<times> 'x" where
  "no_out (status, x) = (status, (), x)"

fun out_present :: "rte_status \<times> 'r \<times> 'x \<Rightarrow> rte_status \<times> 'r option \<times> 'x" where
  "out_present (status, r, x) = (status, Some r, x)"

text \<open>An operation of the theories below, on \<open>base\<close>.\<close>

definition on_base :: "('x rte \<Rightarrow> rte_status \<times> 'x rte) \<Rightarrow> ('x, unit) oal_op" where
  "on_base f w = (let (status, s) = f (base w) in (status, (), w\<lparr>base := s\<rparr>))"

section \<open>Memory pools\<close>

definition rte_osadapter_memory_register :: "'x osadapter_memory option \<Rightarrow> ('x, unit) oal_op" where
  "rte_osadapter_memory_register = register_adapter (\<lambda>a w. w\<lparr>o_memory := Some a\<rparr>)"

definition rte_mem_pool_create ::
  "nat option \<Rightarrow> rte_mem_pool_config option \<Rightarrow> handle option option \<Rightarrow> ('x, handle option option) oal_op" where
  "rte_mem_pool_create storage config out_handle w =
    (case (storage, config, out_handle) of
       (Some st, Some cfg, Some _) \<Rightarrow>
         if mp_block_size cfg = 0 \<or> mp_block_count cfg = 0 then (STATUS_INVALID_PARAM, out_handle, w)
         else setup_only (Some None)
           (call_adapter o_memory memory_create (\<lambda>f x. out_present (f st cfg x)) (Some None)) w
     | _ \<Rightarrow> (STATUS_INVALID_PARAM, out_handle, w))"

definition rte_mem_pool_acquire ::
  "handle option \<Rightarrow> nat option option \<Rightarrow> ('x, nat option option) oal_op" where
  "rte_mem_pool_acquire handle out_block w =
    (case (handle, out_block) of
       (Some h, Some _) \<Rightarrow>
         call_adapter o_memory memory_acquire (\<lambda>f x. out_present (f h x)) (Some None) w
     | _ \<Rightarrow> (STATUS_INVALID_PARAM, out_block, w))"

definition rte_mem_pool_release :: "handle option \<Rightarrow> nat option \<Rightarrow> ('x, unit) oal_op" where
  "rte_mem_pool_release handle block w =
    (case (handle, block) of
       (Some h, Some b) \<Rightarrow> call_adapter o_memory memory_release (\<lambda>f x. no_out (f h b x)) () w
     | _ \<Rightarrow> (STATUS_INVALID_PARAM, (), w))"

text \<open>The two counters, free and used; both are cleared first.\<close>

definition rte_mem_pool_stats ::
  "handle option \<Rightarrow> nat option \<Rightarrow> nat option \<Rightarrow> ('x, nat option \<times> nat option) oal_op" where
  "rte_mem_pool_stats handle out_free_blocks out_used_blocks w =
    (case (handle, out_free_blocks, out_used_blocks) of
       (Some h, Some _, Some _) \<Rightarrow>
         call_adapter o_memory memory_stats
           (\<lambda>f x. let (status, (free, used), x') = f h x in (status, (Some free, Some used), x'))
           (Some 0, Some 0) w
     | _ \<Rightarrow> (STATUS_INVALID_PARAM, (out_free_blocks, out_used_blocks), w))"

section \<open>Clock synchronisation\<close>

definition rte_osadapter_clocksync_register :: "'x osadapter_clocksync option \<Rightarrow> ('x, unit) oal_op" where
  "rte_osadapter_clocksync_register = register_adapter (\<lambda>a w. w\<lparr>o_clocksync := Some a\<rparr>)"

definition rte_clocksync_get_offset_ms :: "u64 option \<Rightarrow> ('x, u64 option) oal_op" where
  "rte_clocksync_get_offset_ms out_offset_ms w =
    (case out_offset_ms of None \<Rightarrow> (STATUS_INVALID_PARAM, None, w)
     | Some v \<Rightarrow> call_adapter o_clocksync clocksync_get_offset_ms
         (\<lambda>f x. out_present (f v x)) out_offset_ms w)"

definition rte_clocksync_get_quality ::
  "rte_clocksync_quality option \<Rightarrow> ('x, rte_clocksync_quality option) oal_op" where
  "rte_clocksync_get_quality out_quality w =
    (case out_quality of None \<Rightarrow> (STATUS_INVALID_PARAM, None, w)
     | Some v \<Rightarrow> call_adapter o_clocksync clocksync_get_quality
         (\<lambda>f x. out_present (f v x)) out_quality w)"

section \<open>Mutexes\<close>

definition rte_osadapter_mutex_register :: "'x osadapter_mutex option \<Rightarrow> ('x, unit) oal_op" where
  "rte_osadapter_mutex_register = register_adapter (\<lambda>a w. w\<lparr>o_mutex := Some a\<rparr>)"

definition rte_mutex_create ::
  "nat option \<Rightarrow> handle option option \<Rightarrow> ('x, handle option option) oal_op" where
  "rte_mutex_create storage out_handle w =
    (case (storage, out_handle) of
       (Some st, Some _) \<Rightarrow>
         setup_only (Some None)
           (call_adapter o_mutex mutex_create (\<lambda>f x. out_present (f st x)) (Some None)) w
     | _ \<Rightarrow> (STATUS_INVALID_PARAM, out_handle, w))"

definition rte_mutex_lock :: "handle option \<Rightarrow> ('x, unit) oal_op" where
  "rte_mutex_lock handle w =
    (case handle of None \<Rightarrow> (STATUS_INVALID_PARAM, (), w)
     | Some h \<Rightarrow> call_adapter o_mutex mutex_lock (\<lambda>f x. no_out (f h x)) () w)"

definition rte_mutex_lock_timed :: "handle option \<Rightarrow> duration_ms \<Rightarrow> ('x, unit) oal_op" where
  "rte_mutex_lock_timed handle timeout_ms w =
    (case handle of None \<Rightarrow> (STATUS_INVALID_PARAM, (), w)
     | Some h \<Rightarrow> call_adapter o_mutex mutex_lock_timed (\<lambda>f x. no_out (f h timeout_ms x)) () w)"

definition rte_mutex_unlock :: "handle option \<Rightarrow> ('x, unit) oal_op" where
  "rte_mutex_unlock handle w =
    (case handle of None \<Rightarrow> (STATUS_INVALID_PARAM, (), w)
     | Some h \<Rightarrow> call_adapter o_mutex mutex_unlock (\<lambda>f x. no_out (f h x)) () w)"

definition rte_mutex_destroy :: "handle option \<Rightarrow> ('x, unit) oal_op" where
  "rte_mutex_destroy handle w =
    (case handle of None \<Rightarrow> (STATUS_INVALID_PARAM, (), w)
     | Some h \<Rightarrow> call_adapter o_mutex mutex_destroy (\<lambda>f x. no_out (f h x)) () w)"

section \<open>Tasks\<close>

definition rte_osadapter_task_register :: "'x osadapter_task option \<Rightarrow> ('x, unit) oal_op" where
  "rte_osadapter_task_register = register_adapter (\<lambda>a w. w\<lparr>o_task := Some a\<rparr>)"

definition rte_task_create ::
  "nat option \<Rightarrow> rte_task_config option \<Rightarrow> handle option option \<Rightarrow> ('x, handle option option) oal_op" where
  "rte_task_create storage config out_handle w =
    (case (storage, config, out_handle) of
       (Some st, Some cfg, Some _) \<Rightarrow>
         if tk_entry cfg = None then (STATUS_INVALID_PARAM, out_handle, w)
         else setup_only (Some None)
           (call_adapter o_task task_create (\<lambda>f x. out_present (f st cfg x)) (Some None)) w
     | _ \<Rightarrow> (STATUS_INVALID_PARAM, out_handle, w))"

definition rte_task_start :: "handle option \<Rightarrow> ('x, unit) oal_op" where
  "rte_task_start handle w =
    (case handle of None \<Rightarrow> (STATUS_INVALID_PARAM, (), w)
     | Some h \<Rightarrow> setup_only () (call_adapter o_task task_start (\<lambda>f x. no_out (f h x)) ()) w)"

definition rte_task_suspend :: "handle option \<Rightarrow> ('x, unit) oal_op" where
  "rte_task_suspend handle w =
    (case handle of None \<Rightarrow> (STATUS_INVALID_PARAM, (), w)
     | Some h \<Rightarrow> call_adapter o_task task_suspend (\<lambda>f x. no_out (f h x)) () w)"

definition rte_task_destroy :: "handle option \<Rightarrow> ('x, unit) oal_op" where
  "rte_task_destroy handle w =
    (case handle of None \<Rightarrow> (STATUS_INVALID_PARAM, (), w)
     | Some h \<Rightarrow> call_adapter o_task task_destroy (\<lambda>f x. no_out (f h x)) () w)"

section \<open>Non-volatile memory\<close>

definition rte_osadapter_nvm_register :: "'x osadapter_nvm option \<Rightarrow> ('x, unit) oal_op" where
  "rte_osadapter_nvm_register = register_adapter (\<lambda>a w. w\<lparr>o_nvm := Some a\<rparr>)"

definition rte_nvm_open ::
  "nat option \<Rightarrow> rte_nvm_config option \<Rightarrow> handle option option \<Rightarrow> ('x, handle option option) oal_op" where
  "rte_nvm_open storage config out_handle w =
    (case (storage, config, out_handle) of
       (Some st, Some cfg, Some _) \<Rightarrow>
         if nv_region_name cfg = None \<or> nv_region_size cfg = 0
         then (STATUS_INVALID_PARAM, out_handle, w)
         else setup_only (Some None)
           (call_adapter o_nvm nvm_open (\<lambda>f x. out_present (f st cfg x)) (Some None)) w
     | _ \<Rightarrow> (STATUS_INVALID_PARAM, out_handle, w))"

text \<open>The adapter is handed the first \<open>buffer_size\<close> bytes of the buffer.\<close>

definition rte_nvm_read :: "handle option \<Rightarrow> nat \<Rightarrow> bytes option \<Rightarrow> nat \<Rightarrow> ('x, bytes option) oal_op" where
  "rte_nvm_read handle offset out_buffer buffer_size w =
    (case (handle, out_buffer) of
       (Some h, Some b) \<Rightarrow>
         if buffer_size = 0 then (STATUS_INVALID_PARAM, out_buffer, w)
         else call_adapter o_nvm nvm_read
           (\<lambda>f x. let (status, b', x') = f h offset (take buffer_size b) x
                  in (status, Some (b' @ drop buffer_size b), x')) out_buffer w
     | _ \<Rightarrow> (STATUS_INVALID_PARAM, out_buffer, w))"

definition rte_nvm_write :: "handle option \<Rightarrow> nat \<Rightarrow> bytes option \<Rightarrow> nat \<Rightarrow> ('x, unit) oal_op" where
  "rte_nvm_write handle offset buffer buffer_size w =
    (case (handle, buffer) of
       (Some h, Some b) \<Rightarrow>
         if buffer_size = 0 then (STATUS_INVALID_PARAM, (), w)
         else call_adapter o_nvm nvm_write
           (\<lambda>f x. no_out (f h offset (take buffer_size b) x)) () w
     | _ \<Rightarrow> (STATUS_INVALID_PARAM, (), w))"

definition rte_nvm_sync :: "handle option \<Rightarrow> ('x, unit) oal_op" where
  "rte_nvm_sync handle w =
    (case handle of None \<Rightarrow> (STATUS_INVALID_PARAM, (), w)
     | Some h \<Rightarrow> call_adapter o_nvm nvm_sync (\<lambda>f x. no_out (f h x)) () w)"

definition rte_nvm_close :: "handle option \<Rightarrow> ('x, unit) oal_op" where
  "rte_nvm_close handle w =
    (case handle of None \<Rightarrow> (STATUS_INVALID_PARAM, (), w)
     | Some h \<Rightarrow> call_adapter o_nvm nvm_close (\<lambda>f x. no_out (f h x)) () w)"

section \<open>Real-time set-up and reboot\<close>

definition PLATFORM_RT_PRIORITY_MAX :: u32 where "PLATFORM_RT_PRIORITY_MAX = 99"

definition rte_osadapter_platform_register :: "'x osadapter_platform option \<Rightarrow> ('x, unit) oal_op" where
  "rte_osadapter_platform_register = register_adapter (\<lambda>a w. w\<lparr>o_platform := Some a\<rparr>)"

definition rte_platform_realtime_init :: "u32 \<Rightarrow> ('x, unit) oal_op" where
  "rte_platform_realtime_init rt_priority w =
    (if rt_priority > PLATFORM_RT_PRIORITY_MAX then (STATUS_INVALID_PARAM, (), w)
     else call_adapter o_platform platform_realtime_init (\<lambda>f x. no_out (f rt_priority x)) () w)"

definition rte_osadapter_reboot_register :: "'x osadapter_reboot option \<Rightarrow> ('x, unit) oal_op" where
  "rte_osadapter_reboot_register = register_adapter (\<lambda>a w. w\<lparr>o_reboot := Some a\<rparr>)"

definition rte_reboot_request :: "u16 \<Rightarrow> ('x, unit) oal_op" where
  "rte_reboot_request reason_code =
    call_adapter o_reboot reboot_request (\<lambda>f x. no_out (f reason_code x)) ()"

section \<open>Message queues\<close>

definition rte_osadapter_ipc_register :: "'x osadapter_ipc option \<Rightarrow> ('x, unit) oal_op" where
  "rte_osadapter_ipc_register = register_adapter (\<lambda>a w. w\<lparr>o_ipc := Some a\<rparr>)"

definition rte_ipc_create ::
  "nat option \<Rightarrow> rte_ipc_config option \<Rightarrow> handle option option \<Rightarrow> ('x, handle option option) oal_op" where
  "rte_ipc_create storage config out_handle w =
    (case (storage, config, out_handle) of
       (Some st, Some cfg, Some _) \<Rightarrow>
         if ic_message_size cfg = 0 \<or> ic_queue_depth cfg = 0
         then (STATUS_INVALID_PARAM, out_handle, w)
         else setup_only (Some None)
           (call_adapter o_ipc ipc_create (\<lambda>f x. out_present (f st cfg x)) (Some None)) w
     | _ \<Rightarrow> (STATUS_INVALID_PARAM, out_handle, w))"

definition rte_ipc_send :: "handle option \<Rightarrow> bytes option \<Rightarrow> nat \<Rightarrow> duration_ms \<Rightarrow> ('x, unit) oal_op" where
  "rte_ipc_send handle message message_size timeout_ms w =
    (case (handle, message) of
       (Some h, Some m) \<Rightarrow>
         if message_size = 0 then (STATUS_INVALID_PARAM, (), w)
         else call_adapter o_ipc ipc_send
           (\<lambda>f x. no_out (f h (take message_size m) timeout_ms x)) () w
     | _ \<Rightarrow> (STATUS_INVALID_PARAM, (), w))"

definition rte_ipc_receive ::
  "handle option \<Rightarrow> bytes option \<Rightarrow> nat \<Rightarrow> duration_ms \<Rightarrow> ('x, bytes option) oal_op" where
  "rte_ipc_receive handle out_message buffer_size timeout_ms w =
    (case (handle, out_message) of
       (Some h, Some m) \<Rightarrow>
         if buffer_size = 0 then (STATUS_INVALID_PARAM, out_message, w)
         else call_adapter o_ipc ipc_receive
           (\<lambda>f x. let (status, m', x') = f h (take buffer_size m) timeout_ms x
                  in (status, Some (m' @ drop buffer_size m), x')) out_message w
     | _ \<Rightarrow> (STATUS_INVALID_PARAM, out_message, w))"

definition rte_ipc_destroy :: "handle option \<Rightarrow> ('x, unit) oal_op" where
  "rte_ipc_destroy handle w =
    (case handle of None \<Rightarrow> (STATUS_INVALID_PARAM, (), w)
     | Some h \<Rightarrow> call_adapter o_ipc ipc_destroy (\<lambda>f x. no_out (f h x)) () w)"

section \<open>Flows\<close>

definition FLOW_O_REQUESTER :: u32 where "FLOW_O_REQUESTER = 1"
definition FLOW_O_RESPONDER :: u32 where "FLOW_O_RESPONDER = 2"
definition FLOW_O_PUBLISHER :: u32 where "FLOW_O_PUBLISHER = 4"
definition FLOW_O_SUBSCRIBER :: u32 where "FLOW_O_SUBSCRIBER = 8"

unbundle bit_operations_syntax

definition oflags_select_exactly_one_role :: "u32 \<Rightarrow> bool" where
  "oflags_select_exactly_one_role oflags =
    (let role_bits = oflags AND (FLOW_O_REQUESTER OR FLOW_O_RESPONDER OR FLOW_O_PUBLISHER OR
                                 FLOW_O_SUBSCRIBER)
     in role_bits \<noteq> 0 \<and> role_bits AND (role_bits - 1) = 0)"

definition rte_osadapter_flow_register :: "'x osadapter_flow option \<Rightarrow> ('x, unit) oal_op" where
  "rte_osadapter_flow_register = register_adapter (\<lambda>a w. w\<lparr>o_flow := Some a\<rparr>)"

definition rte_flow_open ::
  "nat option \<Rightarrow> rte_flow_config option \<Rightarrow> handle option option \<Rightarrow> ('x, handle option option) oal_op" where
  "rte_flow_open storage config out_handle w =
    (case (storage, config, out_handle) of
       (Some st, Some cfg, Some _) \<Rightarrow>
         if fc_name cfg = None \<or> fc_message_size cfg = 0 then (STATUS_INVALID_PARAM, out_handle, w)
         else if \<not> oflags_select_exactly_one_role (fc_oflags cfg)
         then (STATUS_INVALID_PARAM, out_handle, w)
         else call_adapter o_flow flow_open (\<lambda>f x. out_present (f st cfg x)) (Some None) w
     | _ \<Rightarrow> (STATUS_INVALID_PARAM, out_handle, w))"

definition rte_flow_send ::
  "handle option \<Rightarrow> bytes option \<Rightarrow> nat \<Rightarrow> rte_flow_channel \<Rightarrow> duration_ms \<Rightarrow> ('x, unit) oal_op" where
  "rte_flow_send handle data data_size channel timeout_ms w =
    (case (handle, data) of
       (Some h, Some d) \<Rightarrow>
         if data_size = 0 then (STATUS_INVALID_PARAM, (), w)
         else if channel \<noteq> FLOW_CHANNEL_USER \<and> channel \<noteq> FLOW_CHANNEL_CTRL
         then (STATUS_INVALID_PARAM, (), w)
         else call_adapter o_flow flow_send
           (\<lambda>f x. no_out (f h (take data_size d) channel timeout_ms x)) () w
     | _ \<Rightarrow> (STATUS_INVALID_PARAM, (), w))"

text \<open>The out channel is optional; the adapter is handed the pointer as it is.\<close>

definition rte_flow_receive ::
  "handle option \<Rightarrow> bytes option \<Rightarrow> nat \<Rightarrow> rte_flow_channel option \<Rightarrow> duration_ms \<Rightarrow>
    ('x, bytes option \<times> rte_flow_channel option) oal_op" where
  "rte_flow_receive handle out_data buffer_size out_channel timeout_ms w =
    (case (handle, out_data) of
       (Some h, Some d) \<Rightarrow>
         if buffer_size = 0 then (STATUS_INVALID_PARAM, (out_data, out_channel), w)
         else call_adapter o_flow flow_receive
           (\<lambda>f x. let (status, (d', c), x') = f h (take buffer_size d) out_channel timeout_ms x
                  in (status, (Some (d' @ drop buffer_size d), c), x')) (out_data, out_channel) w
     | _ \<Rightarrow> (STATUS_INVALID_PARAM, (out_data, out_channel), w))"

definition rte_flow_close :: "handle option \<Rightarrow> ('x, unit) oal_op" where
  "rte_flow_close handle w =
    (case handle of None \<Rightarrow> (STATUS_INVALID_PARAM, (), w)
     | Some h \<Rightarrow> call_adapter o_flow flow_close (\<lambda>f x. no_out (f h x)) () w)"

definition rte_flow_getattr ::
  "handle option \<Rightarrow> rte_flow_attr option \<Rightarrow> ('x, rte_flow_attr option) oal_op" where
  "rte_flow_getattr handle out_attr w =
    (case (handle, out_attr) of
       (Some h, Some a) \<Rightarrow>
         call_adapter o_flow flow_getattr (\<lambda>f x. out_present (f h a x)) out_attr w
     | _ \<Rightarrow> (STATUS_INVALID_PARAM, out_attr, w))"

definition rte_flow_setattr ::
  "handle option \<Rightarrow> rte_flow_attr option \<Rightarrow> rte_flow_attr option \<Rightarrow>
    ('x, rte_flow_attr option) oal_op" where
  "rte_flow_setattr handle new_attr out_old_attr w =
    (case (handle, new_attr) of
       (Some h, Some a) \<Rightarrow>
         call_adapter o_flow flow_setattr (\<lambda>f x. f h a out_old_attr x) out_old_attr w
     | _ \<Rightarrow> (STATUS_INVALID_PARAM, out_old_attr, w))"

section \<open>The fail-safe output unit\<close>

definition rte_osadapter_fsou_register :: "'x osadapter_fsou option \<Rightarrow> ('x, unit) oal_op" where
  "rte_osadapter_fsou_register = register_adapter (\<lambda>a w. w\<lparr>o_fsou := Some a\<rparr>)"

definition rte_fsou_grant :: "u32 \<Rightarrow> ('x, unit) oal_op" where
  "rte_fsou_grant cycle_id = call_adapter o_fsou fsou_grant (\<lambda>f x. no_out (f cycle_id x)) ()"

definition rte_fsou_revoke :: "safestate_reason \<Rightarrow> ('x, unit) oal_op" where
  "rte_fsou_revoke reason = call_adapter o_fsou fsou_revoke (\<lambda>f x. no_out (f reason x)) ()"

definition rte_fsou_is_present :: "'x oal \<Rightarrow> bool" where
  "rte_fsou_is_present w = (o_fsou w \<noteq> None)"

definition rte_fsou_report_presence :: "'x oal \<Rightarrow> 'x oal" where
  "rte_fsou_report_presence w =
    (if o_presence_reported w then w
     else w\<lparr>o_presence_reported := True,
            base := rte_log_write LOG_INFO (Some ''FSOU'')
              (if o_fsou w \<noteq> None then ''FSOU present'' else ''no FSOU registered'') (base w)\<rparr>)"

section \<open>The socket table and the whole bundle\<close>

definition rte_osadapter_register_socket_ops :: "'x os_socket_ops option \<Rightarrow> ('x, unit) oal_op" where
  "rte_osadapter_register_socket_ops ops w =
    (case ops of None \<Rightarrow> (STATUS_INVALID_PARAM, (), w)
     | Some _ \<Rightarrow> (STATUS_OK, (), w\<lparr>o_sockets := ops\<rparr>))"

definition rte_osadapter_get_socket_ops :: "'x oal \<Rightarrow> 'x os_socket_ops option" where
  "rte_osadapter_get_socket_ops w = o_sockets w"

record 'x osadapter_bundle =
  b_memory :: "'x osadapter_memory option"
  b_clocksync :: "'x osadapter_clocksync option"
  b_timer :: "'x osadapter_timer option"
  b_mutex :: "'x osadapter_mutex option"
  b_task :: "'x osadapter_task option"
  b_log :: "'x osadapter_log option"
  b_nvm :: "'x osadapter_nvm option"
  b_platform :: "'x osadapter_platform option"
  b_reboot :: "'x osadapter_reboot option"
  b_ipc :: "'x osadapter_ipc option"
  b_netlink :: "'x osadapter_netlink option"
  b_flow :: "'x osadapter_flow option"
  b_sockets :: "'x os_socket_ops option"
  b_random :: "'x osadapter_random option"
  b_fsou :: "'x osadapter_fsou option"

text \<open>One member of the bundle, registered only when it is there, and the early returns.\<close>

definition bundle_item :: "('a option \<Rightarrow> ('x, unit) oal_op) \<Rightarrow> 'a option \<Rightarrow> ('x, unit) oal_op" where
  "bundle_item register item w =
    (case item of None \<Rightarrow> (STATUS_OK, (), w) | Some _ \<Rightarrow> register item w)"

fun until_error :: "('x, unit) oal_op list \<Rightarrow> ('x, unit) oal_op" where
  "until_error [] w = (STATUS_OK, (), w)"
| "until_error (f # fs) w =
    (let (status, _, w1) = f w in if status \<noteq> STATUS_OK then (status, (), w1) else until_error fs w1)"

definition bundle_items :: "'x osadapter_bundle \<Rightarrow> ('x, unit) oal_op list" where
  "bundle_items b =
    [bundle_item rte_osadapter_memory_register (b_memory b),
     bundle_item rte_osadapter_clocksync_register (b_clocksync b),
     bundle_item (\<lambda>a. on_base (rte_osadapter_timer_register a)) (b_timer b),
     bundle_item rte_osadapter_mutex_register (b_mutex b),
     bundle_item rte_osadapter_task_register (b_task b),
     bundle_item (\<lambda>a. on_base (rte_osadapter_log_register a)) (b_log b),
     bundle_item rte_osadapter_nvm_register (b_nvm b),
     bundle_item rte_osadapter_platform_register (b_platform b),
     bundle_item rte_osadapter_reboot_register (b_reboot b),
     bundle_item rte_osadapter_ipc_register (b_ipc b),
     bundle_item (\<lambda>a. on_base (rte_osadapter_netlink_register a)) (b_netlink b),
     bundle_item rte_osadapter_flow_register (b_flow b),
     bundle_item rte_osadapter_register_socket_ops (b_sockets b),
     bundle_item (\<lambda>a. on_base (rte_osadapter_random_register a)) (b_random b),
     bundle_item rte_osadapter_fsou_register (b_fsou b)]"

definition rte_osadapter_register_all :: "'x osadapter_bundle option \<Rightarrow> ('x, unit) oal_op" where
  "rte_osadapter_register_all bundle w =
    (case bundle of None \<Rightarrow> (STATUS_INVALID_PARAM, (), w) | Some b \<Rightarrow> until_error (bundle_items b) w)"


section \<open>What a call may change once the setup phase is locked\<close>

text \<open>
  \<open>sealed w w'\<close>: from \<open>w\<close> to \<open>w'\<close> every registered adapter, every handler for a safe state and the
  lock are the same. The rest may have changed: the opaque state, the minimum level of the log, the
  handler for safety violations, the socket table and the presence latch.
\<close>

definition sealed :: "'x oal \<Rightarrow> 'x oal \<Rightarrow> bool" where
  "sealed w w' \<longleftrightarrow> w' = w\<lparr>base := (base w)\<lparr>ext := ext (base w'), s_min_level := s_min_level (base w'),
       s_violation_handler := s_violation_handler (base w')\<rparr>,
     o_sockets := o_sockets w', o_presence_reported := o_presence_reported w'\<rparr>"

lemma sealed_refl [simp, intro]: "sealed w w"
  by (simp add: sealed_def)

lemma sealed_iff:
  "sealed w w' \<longleftrightarrow> (\<exists>x l v k r. w' = w\<lparr>base := (base w)\<lparr>ext := x, s_min_level := l, s_violation_handler := v\<rparr>,
     o_sockets := k, o_presence_reported := r\<rparr>)"
proof
  assume "sealed w w'"
  then show "\<exists>x l v k r. w' = w\<lparr>base := (base w)\<lparr>ext := x, s_min_level := l, s_violation_handler := v\<rparr>,
     o_sockets := k, o_presence_reported := r\<rparr>"
    unfolding sealed_def by blast
qed (auto simp: sealed_def)

lemma sealed_trans [trans]:
  assumes "sealed w w1" and "sealed w1 w2"
  shows "sealed w w2"
proof -
  obtain x l v k r where 1: "w1 = w\<lparr>base := (base w)\<lparr>ext := x, s_min_level := l, s_violation_handler := v\<rparr>,
     o_sockets := k, o_presence_reported := r\<rparr>"
    using assms(1) by (auto simp: sealed_iff)
  obtain x' l' v' k' r' where 2: "w2 = w1\<lparr>base := (base w1)\<lparr>ext := x', s_min_level := l',
     s_violation_handler := v'\<rparr>, o_sockets := k', o_presence_reported := r'\<rparr>"
    using assms(2) by (auto simp: sealed_iff)
  have "w2 = w\<lparr>base := (base w)\<lparr>ext := x', s_min_level := l', s_violation_handler := v'\<rparr>,
     o_sockets := k', o_presence_reported := r'\<rparr>"
    unfolding 2 1 by simp
  then show ?thesis unfolding sealed_iff by blast
qed

lemma sealed_locked: "sealed w w' \<Longrightarrow> g_setup_locked (base w') = g_setup_locked (base w)"
  by (auto simp: sealed_iff)

lemma sealed_ext [simp]: "sealed w (w\<lparr>base := (base w)\<lparr>ext := x\<rparr>\<rparr>)"
  by (simp add: sealed_def)

lemma sealed_sockets [simp]: "sealed w (w\<lparr>o_sockets := k\<rparr>)"
  by (simp add: sealed_def)

lemma sealed_base [simp]:
  "sealed w (w\<lparr>base := (base w)\<lparr>s_min_level := l\<rparr>\<rparr>)" "sealed w (w\<lparr>base := (base w)\<lparr>s_violation_handler := v\<rparr>\<rparr>)"
  by (simp_all add: sealed_def)

text \<open>What a refusal leaves: the handler for the state DEGRADED, where one is registered, has been called
  with the report. No adapter has been.\<close>

definition refusal :: "'x oal \<Rightarrow> 'x oal" where
  "refusal w = (case s_handlers (base w) 0 of None \<Rightarrow> w
     | Some h \<Rightarrow> w\<lparr>base := (base w)\<lparr>ext := h LEVEL_DEGRADED REASON_SETUP_AFTER_INIT
         (Some ''setup-only resource requested after the setup phase was locked'') (ext (base w))\<rparr>\<rparr>)"

lemma refusal_sealed [simp]: "sealed w (refusal w)"
  by (simp add: refusal_def split: option.split)

lemma refusal_check:
  "g_setup_locked (base w) \<Longrightarrow> rte_lifecycle_check_setup_allowed (base w) = (STATUS_INVALID_STATE, base (refusal w))"
  by (simp add: rte_lifecycle_check_setup_allowed_def rte_safestate_enter_def refusal_def split: option.split)

lemma refusal_base [simp]: "w\<lparr>base := base (refusal w)\<rparr> = refusal w"
  by (simp add: refusal_def split: option.split)

text \<open>The two ways in which a locked setup-only operation ends.\<close>

definition refused_call :: "'x oal \<Rightarrow> rte_status \<Rightarrow> 'x oal \<Rightarrow> bool" where
  "refused_call w status w' \<longleftrightarrow> status = STATUS_INVALID_PARAM \<and> w' = w \<or>
     status = STATUS_INVALID_STATE \<and> w' = refusal w"

lemma refused_call_sealed: "refused_call w status w' \<Longrightarrow> sealed w w'"
  by (auto simp: refused_call_def)

lemma refusal_state:
  "g_setup_locked s \<Longrightarrow> \<exists>x. rte_lifecycle_check_setup_allowed s = (STATUS_INVALID_STATE, s\<lparr>ext := x\<rparr>)"
proof -
  have "\<exists>x. run_state (rte_safestate_enter LEVEL_DEGRADED r m s) = s\<lparr>ext := x\<rparr>" for r m
    by (cases "s_handlers s 0") (auto simp: rte_safestate_enter_def intro: exI [of _ "ext s"])
  then show "g_setup_locked s \<Longrightarrow> ?thesis"
    by (simp add: rte_lifecycle_check_setup_allowed_def)
qed

lemma setup_allowed: "\<not> g_setup_locked s \<Longrightarrow> rte_lifecycle_check_setup_allowed s = (STATUS_OK, s)"
  by (simp add: rte_lifecycle_check_setup_allowed_def)

text \<open>The contract of every operation of the layer, and of the setup-only ones.\<close>

locale runtime_op =
  fixes op :: "('x, 'r) oal_op"
  assumes keeps_configuration: "g_setup_locked (base w) \<Longrightarrow> sealed w (snd (snd (op w)))"
begin

lemma stays_locked: "g_setup_locked (base w) \<Longrightarrow> g_setup_locked (base (snd (snd (op w))))"
  using keeps_configuration sealed_locked by blast

lemma repeated:
  "g_setup_locked (base w) \<Longrightarrow> sealed w (((\<lambda>v. snd (snd (op v))) ^^ n) w)"
proof (induction n)
  case (Suc n)
  let ?v = "((\<lambda>v. snd (snd (op v))) ^^ n) w"
  have "sealed w ?v" using Suc by blast
  moreover have "sealed ?v (snd (snd (op ?v)))"
    using keeps_configuration Suc.prems sealed_locked [OF calculation] by blast
  ultimately show ?case using sealed_trans by auto
qed simp

end

locale setup_op = runtime_op op for op :: "('x, 'r) oal_op" +
  assumes refused: "g_setup_locked (base w) \<Longrightarrow> refused_call w (fst (op w)) (snd (snd (op w)))"
begin

lemma never_succeeds:
  assumes "g_setup_locked (base w)"
  shows "fst (op (((\<lambda>v. snd (snd (op v))) ^^ n) w)) \<noteq> STATUS_OK"
proof -
  let ?v = "((\<lambda>v. snd (snd (op v))) ^^ n) w"
  have "g_setup_locked (base ?v)" using sealed_locked [OF repeated [OF assms]] assms by simp
  from refused [OF this] show ?thesis by (auto simp: refused_call_def)
qed

end

lemma call_adapter_sealed [simp]: "sealed w (snd (snd (call_adapter adapter entry call r w)))"
  by (simp add: call_adapter_def split: option.split prod.split)

lemma setup_only_locked:
  assumes "g_setup_locked (base w)"
  shows "setup_only r action w = (STATUS_INVALID_STATE, r, refusal w)"
  using refusal_check [OF assms] by (simp add: setup_only_def)

lemma setup_only_unlocked:
  "\<not> g_setup_locked (base w) \<Longrightarrow> setup_only r action w = action w"
  by (simp add: setup_only_def setup_allowed)

lemma register_adapter_locked:
  assumes "g_setup_locked (base w)"
  shows "refused_call w (fst (register_adapter store a w)) (snd (snd (register_adapter store a w)))"
  using assms by (cases a) (simp_all add: register_adapter_def setup_only_locked refused_call_def)

lemma register_adapter_unlocked:
  "\<not> g_setup_locked (base w) \<Longrightarrow> register_adapter store (Some a) w = (STATUS_OK, (), store a w)"
  by (simp add: register_adapter_def setup_only_unlocked)

text \<open>The second law of a setup-only operation gives the first.\<close>

lemma setup_opI:
  assumes "\<And>w. g_setup_locked (base w) \<Longrightarrow> refused_call w (fst (op w)) (snd (snd (op w)))"
  shows "setup_op op"
  by unfold_locales (use assms refused_call_sealed in blast)+

section \<open>The operations meet the contract\<close>

text \<open>The operations of the theories below that have an out parameter.\<close>

definition on_base_out :: "('x rte \<Rightarrow> rte_status \<times> 'r \<times> 'x rte) \<Rightarrow> ('x, 'r) oal_op" where
  "on_base_out f w = (let (status, r, s) = f (base w) in (status, r, w\<lparr>base := s\<rparr>))"

text \<open>The same two ends below.\<close>

definition base_refused :: "'x rte \<Rightarrow> rte_status \<Rightarrow> 'x rte \<Rightarrow> bool" where
  "base_refused s status s' \<longleftrightarrow> status = STATUS_INVALID_PARAM \<and> s' = s \<or>
     status = STATUS_INVALID_STATE \<and> s' = snd (rte_lifecycle_check_setup_allowed s)"

lemma base_refused_call:
  "g_setup_locked (base w) \<Longrightarrow> base_refused (base w) status s' \<Longrightarrow> refused_call w status (w\<lparr>base := s'\<rparr>)"
  by (auto simp: base_refused_def refused_call_def refusal_check)

lemma on_base_setup:
  assumes "\<And>s. g_setup_locked s \<Longrightarrow> base_refused s (fst (f s)) (snd (f s))"
  shows "setup_op (on_base f)"
proof (rule setup_opI)
  fix w :: "'a oal"
  assume l: "g_setup_locked (base w)"
  from base_refused_call [OF l assms [OF l]]
  show "refused_call w (fst (on_base f w)) (snd (snd (on_base f w)))"
    by (simp add: on_base_def case_prod_unfold Let_def)
qed

lemma on_base_runtime:
  assumes "\<And>s. \<exists>status x. f s = (status, s\<lparr>ext := x\<rparr>)"
  shows "runtime_op (on_base f)"
proof unfold_locales
  fix w :: "'a oal"
  from assms [of "base w"] show "sealed w (snd (snd (on_base f w)))"
    by (auto simp: on_base_def)
qed

lemma on_base_out_runtime:
  assumes "\<And>s. \<exists>status r x. f s = (status, r, s\<lparr>ext := x\<rparr>)"
  shows "runtime_op (on_base_out f)"
proof unfold_locales
  fix w :: "'a oal"
  from assms [of "base w"] show "sealed w (snd (snd (on_base_out f w)))"
    by (auto simp: on_base_out_def)
qed

lemma same_ext [simp]: "\<exists>x. s = s\<lparr>ext := x\<rparr>" for s :: "'x rte"
  by (rule exI [of _ "ext s"]) simp

lemma other_ext [simp]: "\<exists>y. s\<lparr>ext := x\<rparr> = s\<lparr>ext := y\<rparr>" for s :: "'x rte"
  by blast

lemma dispatch_ext: "\<exists>status x. dispatch adapter entry h s = (status, s\<lparr>ext := x\<rparr>)"
proof (cases adapter)
  case None
  then show ?thesis by (auto simp: dispatch_def)
next
  case (Some a)
  then show ?thesis
    by (cases "entry a") (auto simp: dispatch_def split: prod.split)
qed

lemma setup_registers:
  shows "setup_op (rte_osadapter_memory_register memory)"
    and "setup_op (rte_osadapter_clocksync_register clocksync)"
    and "setup_op (rte_osadapter_mutex_register mutex)"
    and "setup_op (rte_osadapter_task_register task)"
    and "setup_op (rte_osadapter_nvm_register nvm)"
    and "setup_op (rte_osadapter_platform_register platform)"
    and "setup_op (rte_osadapter_reboot_register reboot)"
    and "setup_op (rte_osadapter_ipc_register ipc)"
    and "setup_op (rte_osadapter_flow_register flow)"
    and "setup_op (rte_osadapter_fsou_register fsou)"
  by (rule setup_opI; simp only: rte_osadapter_memory_register_def rte_osadapter_clocksync_register_def rte_osadapter_mutex_register_def rte_osadapter_task_register_def rte_osadapter_nvm_register_def rte_osadapter_platform_register_def rte_osadapter_reboot_register_def rte_osadapter_ipc_register_def rte_osadapter_flow_register_def rte_osadapter_fsou_register_def register_adapter_locked)+

lemma setup_creations:
  shows "setup_op (rte_mem_pool_create storage pool out_handle)"
    and "setup_op (rte_mutex_create storage out_handle)"
    and "setup_op (rte_task_create storage task out_handle)"
    and "setup_op (rte_task_start h)"
    and "setup_op (rte_nvm_open storage region out_handle)"
    and "setup_op (rte_ipc_create storage queue out_handle)"
  by (rule setup_opI; simp add: rte_mem_pool_create_def rte_mutex_create_def rte_task_create_def rte_task_start_def rte_nvm_open_def rte_ipc_create_def
      setup_only_locked refused_call_def split: option.split)+

lemma locked_check:
  assumes "g_setup_locked s"
  obtains s1 where "rte_lifecycle_check_setup_allowed s = (STATUS_INVALID_STATE, s1)"
  using assms by (simp add: rte_lifecycle_check_setup_allowed_def)

lemma setup_timer_create: "setup_op (on_base_out (rte_timer_create storage config out_handle))"
proof (rule setup_opI)
  fix w :: "'x oal"
  assume l: "g_setup_locked (base w)"
  obtain status r s where run: "rte_timer_create storage config out_handle (base w) = (status, r, s)"
    by (metis prod_cases3)
  obtain s1 where "rte_lifecycle_check_setup_allowed (base w) = (STATUS_INVALID_STATE, s1)"
    by (rule locked_check [OF l])
  with run have "base_refused (base w) status s"
    by (auto simp: rte_timer_create_def base_refused_def split: option.splits if_splits)
  from base_refused_call [OF l this] run
  show "refused_call w (fst (on_base_out (rte_timer_create storage config out_handle) w))
      (snd (snd (on_base_out (rte_timer_create storage config out_handle) w)))"
    by (simp add: on_base_out_def)
qed

lemma setup_base_refused:
  assumes "g_setup_locked s"
  shows "base_refused s (fst (rte_osadapter_timer_register timer s)) (snd (rte_osadapter_timer_register timer s))"
    and "base_refused s (fst (rte_osadapter_log_register log s)) (snd (rte_osadapter_log_register log s))"
    and "base_refused s (fst (rte_osadapter_netlink_register netlink s))
      (snd (rte_osadapter_netlink_register netlink s))"
    and "base_refused s (fst (rte_osadapter_random_register random s)) (snd (rte_osadapter_random_register random s))"
    and "base_refused s (fst (rte_timer_start h s)) (snd (rte_timer_start h s))"
    and "base_refused s (fst (rte_safestate_register_handler level handler s))
      (snd (rte_safestate_register_handler level handler s))"
proof -
  obtain s1 where "rte_lifecycle_check_setup_allowed s = (STATUS_INVALID_STATE, s1)"
    by (rule locked_check [OF assms])
  then show "base_refused s (fst (rte_osadapter_timer_register timer s)) (snd (rte_osadapter_timer_register timer s))"
    and "base_refused s (fst (rte_osadapter_log_register log s)) (snd (rte_osadapter_log_register log s))"
    and "base_refused s (fst (rte_osadapter_netlink_register netlink s))
      (snd (rte_osadapter_netlink_register netlink s))"
    and "base_refused s (fst (rte_osadapter_random_register random s)) (snd (rte_osadapter_random_register random s))"
    and "base_refused s (fst (rte_timer_start h s)) (snd (rte_timer_start h s))"
    and "base_refused s (fst (rte_safestate_register_handler level handler s))
      (snd (rte_safestate_register_handler level handler s))"
    by (simp_all add: rte_osadapter_timer_register_def rte_osadapter_log_register_def
        rte_osadapter_netlink_register_def rte_osadapter_random_register_def rte_timer_start_def
        rte_safestate_register_handler_def base_refused_def split: option.split)
qed

lemma setup_base:
  shows "setup_op (on_base (rte_osadapter_timer_register timer))"
    and "setup_op (on_base (rte_osadapter_log_register log))"
    and "setup_op (on_base (rte_osadapter_netlink_register netlink))"
    and "setup_op (on_base (rte_osadapter_random_register random))"
    and "setup_op (on_base (rte_timer_start h))"
    and "setup_op (on_base (rte_safestate_register_handler level handler))"
  by (rule on_base_setup; simp only: setup_base_refused)+

lemmas setup_ops = setup_registers setup_creations setup_timer_create setup_base

lemma runtime_plain:
  shows "runtime_op (rte_mem_pool_acquire h out_block)"
    and "runtime_op (rte_mem_pool_release h block)"
    and "runtime_op (rte_mem_pool_stats h out_free out_used)"
    and "runtime_op (rte_clocksync_get_offset_ms out_offset)"
    and "runtime_op (rte_clocksync_get_quality out_quality)"
    and "runtime_op (rte_mutex_lock h)"
    and "runtime_op (rte_mutex_lock_timed h t)"
    and "runtime_op (rte_mutex_unlock h)"
    and "runtime_op (rte_mutex_destroy h)"
    and "runtime_op (rte_task_suspend h)"
    and "runtime_op (rte_task_destroy h)"
    and "runtime_op (rte_nvm_read h offset buffer n)"
    and "runtime_op (rte_nvm_write h offset buffer n)"
    and "runtime_op (rte_nvm_sync h)"
    and "runtime_op (rte_nvm_close h)"
    and "runtime_op (rte_platform_realtime_init p)"
    and "runtime_op (rte_reboot_request reason)"
    and "runtime_op (rte_ipc_send h m n t)"
    and "runtime_op (rte_ipc_receive h m n t)"
    and "runtime_op (rte_ipc_destroy h)"
    and "runtime_op (rte_flow_open storage config out_handle)"
    and "runtime_op (rte_flow_send h d n c t)"
    and "runtime_op (rte_flow_receive h d n out_channel t)"
    and "runtime_op (rte_flow_close h)"
    and "runtime_op (rte_flow_getattr h a)"
    and "runtime_op (rte_flow_setattr h a old)"
    and "runtime_op (rte_fsou_grant cycle)"
    and "runtime_op (rte_fsou_revoke reason)"
    and "runtime_op (rte_osadapter_register_socket_ops k)"
  by (unfold_locales; simp add: rte_mem_pool_acquire_def rte_mem_pool_release_def rte_mem_pool_stats_def rte_clocksync_get_offset_ms_def rte_clocksync_get_quality_def rte_mutex_lock_def rte_mutex_lock_timed_def rte_mutex_unlock_def rte_mutex_destroy_def rte_task_suspend_def rte_task_destroy_def rte_nvm_read_def rte_nvm_write_def rte_nvm_sync_def rte_nvm_close_def rte_platform_realtime_init_def rte_reboot_request_def rte_ipc_send_def rte_ipc_receive_def rte_ipc_destroy_def rte_flow_open_def rte_flow_send_def rte_flow_receive_def rte_flow_close_def rte_flow_getattr_def rte_flow_setattr_def rte_fsou_grant_def rte_fsou_revoke_def rte_osadapter_register_socket_ops_def
      split: option.split)+

lemma base_ext:
  shows "\<exists>status x. rte_timer_stop h s = (status, s\<lparr>ext := x\<rparr>)"
    and "\<exists>status x. rte_timer_destroy h s = (status, s\<lparr>ext := x\<rparr>)"
    and "\<exists>status x. rte_netlink_send h m n t s = (status, s\<lparr>ext := x\<rparr>)"
    and "\<exists>status x. rte_netlink_close h s = (status, s\<lparr>ext := x\<rparr>)"
    and "\<exists>status x. rte_log_init s = (status, s\<lparr>ext := x\<rparr>)"
  using dispatch_ext
  by (auto simp: rte_timer_stop_def rte_timer_destroy_def rte_netlink_send_def rte_netlink_close_def rte_log_init_def
      split: option.split prod.split)

lemma base_out_ext:
  shows "\<exists>status r x. rte_timer_now s = (status, r, s\<lparr>ext := x\<rparr>)"
    and "\<exists>status r x. rte_netlink_open storage config out_handle s = (status, r, s\<lparr>ext := x\<rparr>)"
    and "\<exists>status r x. rte_netlink_receive h m n t s = (status, r, s\<lparr>ext := x\<rparr>)"
    and "\<exists>status r x. rte_random_fill out n s = (status, r, s\<lparr>ext := x\<rparr>)"
  using dispatch_ext
  by (auto simp: rte_timer_now_def rte_netlink_open_def rte_netlink_receive_def rte_random_fill_def
      split: option.split prod.split)

lemma runtime_base:
  shows "runtime_op (on_base (rte_timer_stop h))"
    and "runtime_op (on_base (rte_timer_destroy h))"
    and "runtime_op (on_base (rte_netlink_send h m n t))"
    and "runtime_op (on_base (rte_netlink_close h))"
    and "runtime_op (on_base rte_log_init)"
  by (rule on_base_runtime; rule base_ext)+

lemma runtime_base_out:
  shows "runtime_op (on_base_out rte_timer_now)"
    and "runtime_op (on_base_out (rte_netlink_open storage config out_handle))"
    and "runtime_op (on_base_out (rte_netlink_receive h m n t))"
    and "runtime_op (on_base_out (rte_random_fill out n))"
  by (rule on_base_out_runtime; rule base_out_ext)+

lemma violation_register_runtime: "runtime_op (on_base (rte_safety_violation_register_handler handler))"
  by unfold_locales (simp add: on_base_def rte_safety_violation_register_handler_def split: option.split)

text \<open>A bundle is registered by a sequence of operations that each meet the contract.\<close>

lemma until_error_runtime: "(\<And>f. f \<in> set fs \<Longrightarrow> runtime_op f) \<Longrightarrow> runtime_op (until_error fs)"
proof (induction fs)
  case (Cons f fs)
  have f: "runtime_op f" and fs: "runtime_op (until_error fs)" using Cons by simp_all
  show ?case
  proof unfold_locales
    fix w :: "'a oal"
    assume l: "g_setup_locked (base w)"
    obtain status u w1 where run: "f w = (status, u, w1)" by (metis prod_cases3)
    have s1: "sealed w w1" using runtime_op.keeps_configuration [OF f l] run by simp
    have "g_setup_locked (base w1)" using sealed_locked [OF s1] l by simp
    from sealed_trans [OF s1 runtime_op.keeps_configuration [OF fs this]] s1
    show "sealed w (snd (snd (until_error (f # fs) w)))" by (simp add: run)
  qed
qed (unfold_locales, simp)

lemma bundle_item_runtime: "runtime_op (register item) \<Longrightarrow> runtime_op (bundle_item register item)"
  by (auto simp: runtime_op_def bundle_item_def split: option.split)

lemma setup_runtime: "setup_op op \<Longrightarrow> runtime_op op"
  by (simp add: setup_op_def)

lemma bundle_items_runtime: "list_all runtime_op (bundle_items b)"
  by (simp add: bundle_items_def bundle_item_runtime runtime_plain setup_runtime setup_ops)

lemma register_all_runtime: "runtime_op (rte_osadapter_register_all adapters)"
proof (cases adapters)
  case None
  then show ?thesis by (simp add: runtime_op_def rte_osadapter_register_all_def)
next
  case (Some b)
  have "runtime_op (until_error (bundle_items b))"
    by (rule until_error_runtime) (use bundle_items_runtime [of b] in \<open>simp add: list_all_iff\<close>)
  then show ?thesis by (simp add: Some runtime_op_def rte_osadapter_register_all_def)
qed

lemmas runtime_ops = runtime_plain runtime_base runtime_base_out violation_register_runtime
  register_all_runtime

text \<open>The contract at every setup-only operation, and at some of the others.\<close>

interpretation memory_register: setup_op "rte_osadapter_memory_register memory" for memory
  by (rule setup_ops)
interpretation clocksync_register: setup_op "rte_osadapter_clocksync_register clocksync" for clocksync
  by (rule setup_ops)
interpretation mutex_register: setup_op "rte_osadapter_mutex_register mutex" for mutex
  by (rule setup_ops)
interpretation task_register: setup_op "rte_osadapter_task_register task" for task
  by (rule setup_ops)
interpretation nvm_register: setup_op "rte_osadapter_nvm_register nvm" for nvm
  by (rule setup_ops)
interpretation platform_register: setup_op "rte_osadapter_platform_register platform" for platform
  by (rule setup_ops)
interpretation reboot_register: setup_op "rte_osadapter_reboot_register reboot" for reboot
  by (rule setup_ops)
interpretation ipc_register: setup_op "rte_osadapter_ipc_register ipc" for ipc
  by (rule setup_ops)
interpretation flow_register: setup_op "rte_osadapter_flow_register flow" for flow
  by (rule setup_ops)
interpretation fsou_register: setup_op "rte_osadapter_fsou_register fsou" for fsou
  by (rule setup_ops)
interpretation timer_register: setup_op "on_base (rte_osadapter_timer_register timer)" for timer
  by (rule setup_ops)
interpretation log_register: setup_op "on_base (rte_osadapter_log_register log)" for log
  by (rule setup_ops)
interpretation netlink_register: setup_op "on_base (rte_osadapter_netlink_register netlink)" for netlink
  by (rule setup_ops)
interpretation random_register: setup_op "on_base (rte_osadapter_random_register random)" for random
  by (rule setup_ops)
interpretation mem_pool_create: setup_op "rte_mem_pool_create storage pool out_handle" for storage pool out_handle
  by (rule setup_ops)
interpretation mutex_create: setup_op "rte_mutex_create storage out_handle" for storage out_handle
  by (rule setup_ops)
interpretation task_create: setup_op "rte_task_create storage task out_handle" for storage task out_handle
  by (rule setup_ops)
interpretation task_start: setup_op "rte_task_start h" for h
  by (rule setup_ops)
interpretation nvm_open: setup_op "rte_nvm_open storage region out_handle" for storage region out_handle
  by (rule setup_ops)
interpretation ipc_create: setup_op "rte_ipc_create storage queue out_handle" for storage queue out_handle
  by (rule setup_ops)
interpretation timer_create: setup_op "on_base_out (rte_timer_create storage config out_handle)" for storage config out_handle
  by (rule setup_ops)
interpretation timer_start: setup_op "on_base (rte_timer_start h)" for h
  by (rule setup_ops)
interpretation safestate_register: setup_op "on_base (rte_safestate_register_handler level handler)" for level handler
  by (rule setup_ops)
interpretation register_all: runtime_op "rte_osadapter_register_all adapters" for adapters
  by (rule runtime_ops)
interpretation mutex_lock_timed: runtime_op "rte_mutex_lock_timed h t" for h t
  by (rule runtime_ops)
interpretation flow_open: runtime_op "rte_flow_open storage config out_handle" for storage config out_handle
  by (rule runtime_ops)
interpretation fsou_grant: runtime_op "rte_fsou_grant cycle" for cycle
  by (rule runtime_ops)
interpretation register_socket_ops: runtime_op "rte_osadapter_register_socket_ops k" for k
  by (rule runtime_ops)

text \<open>
  \<open>setup_call w status w'\<close>: some setup-only operation, with some arguments, takes \<open>w\<close> to
  \<open>w'\<close> and returns \<open>status\<close>. \<open>oal_call\<close> adds the other operations that change the state of this theory and
  of those below it: the services of \<^verbatim>\<open>src/oal\<close>, the log and its events among them, the registration of a
  whole bundle, the report of a violation and the registration of its handler, and the entry into the
  safe state that returns. It leaves out what locks and unlocks the setup phase, which is the
  application manager's, and the placeholders \<^verbatim>\<open>rte_ipc_pubsub.c\<close> and \<^verbatim>\<open>rte_ipc_request_reply.c\<close>, which
  the build leaves out; the protocol adapters work through the socket table alone.
\<close>

inductive setup_call :: "'x oal \<Rightarrow> rte_status \<Rightarrow> 'x oal \<Rightarrow> bool" where
  memory_register: "rte_osadapter_memory_register memory w = (status, r, w') \<Longrightarrow> setup_call w status w'"
| clocksync_register: "rte_osadapter_clocksync_register clocksync w = (status, r, w') \<Longrightarrow> setup_call w status w'"
| mutex_register: "rte_osadapter_mutex_register mutex w = (status, r, w') \<Longrightarrow> setup_call w status w'"
| task_register: "rte_osadapter_task_register task w = (status, r, w') \<Longrightarrow> setup_call w status w'"
| nvm_register: "rte_osadapter_nvm_register nvm w = (status, r, w') \<Longrightarrow> setup_call w status w'"
| platform_register: "rte_osadapter_platform_register platform w = (status, r, w') \<Longrightarrow> setup_call w status w'"
| reboot_register: "rte_osadapter_reboot_register reboot w = (status, r, w') \<Longrightarrow> setup_call w status w'"
| ipc_register: "rte_osadapter_ipc_register ipc w = (status, r, w') \<Longrightarrow> setup_call w status w'"
| flow_register: "rte_osadapter_flow_register flow w = (status, r, w') \<Longrightarrow> setup_call w status w'"
| fsou_register: "rte_osadapter_fsou_register fsou w = (status, r, w') \<Longrightarrow> setup_call w status w'"
| timer_register: "on_base (rte_osadapter_timer_register timer) w = (status, r, w') \<Longrightarrow> setup_call w status w'"
| log_register: "on_base (rte_osadapter_log_register log) w = (status, r, w') \<Longrightarrow> setup_call w status w'"
| netlink_register: "on_base (rte_osadapter_netlink_register netlink) w = (status, r, w') \<Longrightarrow> setup_call w status w'"
| random_register: "on_base (rte_osadapter_random_register random) w = (status, r, w') \<Longrightarrow> setup_call w status w'"
| mem_pool_create: "rte_mem_pool_create storage pool out_handle w = (status, r, w') \<Longrightarrow> setup_call w status w'"
| mutex_create: "rte_mutex_create storage out_handle w = (status, r, w') \<Longrightarrow> setup_call w status w'"
| task_create: "rte_task_create storage task out_handle w = (status, r, w') \<Longrightarrow> setup_call w status w'"
| task_start: "rte_task_start h w = (status, r, w') \<Longrightarrow> setup_call w status w'"
| nvm_open: "rte_nvm_open storage region out_handle w = (status, r, w') \<Longrightarrow> setup_call w status w'"
| ipc_create: "rte_ipc_create storage queue out_handle w = (status, r, w') \<Longrightarrow> setup_call w status w'"
| timer_create: "on_base_out (rte_timer_create storage config out_handle) w = (status, r, w') \<Longrightarrow> setup_call w status w'"
| timer_start: "on_base (rte_timer_start h) w = (status, r, w') \<Longrightarrow> setup_call w status w'"
| safestate_register: "on_base (rte_safestate_register_handler level handler) w = (status, r, w') \<Longrightarrow>
    setup_call w status w'"

inductive oal_call :: "'x oal \<Rightarrow> 'x oal \<Rightarrow> bool" where
  setup_only: "setup_call w status w' \<Longrightarrow> oal_call w w'"
| report_presence: "oal_call w (rte_fsou_report_presence w)"
| mem_pool_acquire: "rte_mem_pool_acquire h out_block w = (status, r, w') \<Longrightarrow> oal_call w w'"
| mem_pool_release: "rte_mem_pool_release h block w = (status, r, w') \<Longrightarrow> oal_call w w'"
| mem_pool_stats: "rte_mem_pool_stats h out_free out_used w = (status, r, w') \<Longrightarrow> oal_call w w'"
| clocksync_get_offset_ms: "rte_clocksync_get_offset_ms out_offset w = (status, r, w') \<Longrightarrow> oal_call w w'"
| clocksync_get_quality: "rte_clocksync_get_quality out_quality w = (status, r, w') \<Longrightarrow> oal_call w w'"
| mutex_lock: "rte_mutex_lock h w = (status, r, w') \<Longrightarrow> oal_call w w'"
| mutex_lock_timed: "rte_mutex_lock_timed h t w = (status, r, w') \<Longrightarrow> oal_call w w'"
| mutex_unlock: "rte_mutex_unlock h w = (status, r, w') \<Longrightarrow> oal_call w w'"
| mutex_destroy: "rte_mutex_destroy h w = (status, r, w') \<Longrightarrow> oal_call w w'"
| task_suspend: "rte_task_suspend h w = (status, r, w') \<Longrightarrow> oal_call w w'"
| task_destroy: "rte_task_destroy h w = (status, r, w') \<Longrightarrow> oal_call w w'"
| nvm_read: "rte_nvm_read h offset buffer n w = (status, r, w') \<Longrightarrow> oal_call w w'"
| nvm_write: "rte_nvm_write h offset buffer n w = (status, r, w') \<Longrightarrow> oal_call w w'"
| nvm_sync: "rte_nvm_sync h w = (status, r, w') \<Longrightarrow> oal_call w w'"
| nvm_close: "rte_nvm_close h w = (status, r, w') \<Longrightarrow> oal_call w w'"
| platform_realtime_init: "rte_platform_realtime_init p w = (status, r, w') \<Longrightarrow> oal_call w w'"
| reboot_request: "rte_reboot_request reason w = (status, r, w') \<Longrightarrow> oal_call w w'"
| ipc_send: "rte_ipc_send h m n t w = (status, r, w') \<Longrightarrow> oal_call w w'"
| ipc_receive: "rte_ipc_receive h m n t w = (status, r, w') \<Longrightarrow> oal_call w w'"
| ipc_destroy: "rte_ipc_destroy h w = (status, r, w') \<Longrightarrow> oal_call w w'"
| flow_open: "rte_flow_open storage config out_handle w = (status, r, w') \<Longrightarrow> oal_call w w'"
| flow_send: "rte_flow_send h d n c t w = (status, r, w') \<Longrightarrow> oal_call w w'"
| flow_receive: "rte_flow_receive h d n out_channel t w = (status, r, w') \<Longrightarrow> oal_call w w'"
| flow_close: "rte_flow_close h w = (status, r, w') \<Longrightarrow> oal_call w w'"
| flow_getattr: "rte_flow_getattr h a w = (status, r, w') \<Longrightarrow> oal_call w w'"
| flow_setattr: "rte_flow_setattr h a old w = (status, r, w') \<Longrightarrow> oal_call w w'"
| fsou_grant: "rte_fsou_grant cycle w = (status, r, w') \<Longrightarrow> oal_call w w'"
| fsou_revoke: "rte_fsou_revoke reason w = (status, r, w') \<Longrightarrow> oal_call w w'"
| register_socket_ops: "rte_osadapter_register_socket_ops k w = (status, r, w') \<Longrightarrow> oal_call w w'"
| timer_stop: "on_base (rte_timer_stop h) w = (status, r, w') \<Longrightarrow> oal_call w w'"
| timer_destroy: "on_base (rte_timer_destroy h) w = (status, r, w') \<Longrightarrow> oal_call w w'"
| timer_now: "on_base_out rte_timer_now w = (status, r, w') \<Longrightarrow> oal_call w w'"
| netlink_open: "on_base_out (rte_netlink_open storage config out_handle) w = (status, r, w') \<Longrightarrow> oal_call w w'"
| netlink_send: "on_base (rte_netlink_send h m n t) w = (status, r, w') \<Longrightarrow> oal_call w w'"
| netlink_receive: "on_base_out (rte_netlink_receive h m n t) w = (status, r, w') \<Longrightarrow> oal_call w w'"
| netlink_close: "on_base (rte_netlink_close h) w = (status, r, w') \<Longrightarrow> oal_call w w'"
| random_fill: "on_base_out (rte_random_fill out n) w = (status, r, w') \<Longrightarrow> oal_call w w'"
| log_init: "on_base rte_log_init w = (status, r, w') \<Longrightarrow> oal_call w w'"
| log_write: "oal_call w (w\<lparr>base := rte_log_write level tag message (base w)\<rparr>)"
| log_set_level: "oal_call w (w\<lparr>base := rte_log_set_level level (base w)\<rparr>)"
| log_write_event: "oal_call w (w\<lparr>base := rte_log_write_event level site cycle source destination type info
    extra (base w)\<rparr>)"
| log_write_event_fields: "rte_log_write_event_fields level site cycle source destination type info builder
    (base w) = (builder', s) \<Longrightarrow> oal_call w (w\<lparr>base := s\<rparr>)"
| register_all: "rte_osadapter_register_all adapters w = (status, r, w') \<Longrightarrow> oal_call w w'"
| violation_register: "on_base (rte_safety_violation_register_handler handler) w = (status, r, w') \<Longrightarrow> oal_call w w'"
| violation_report: "oal_call w (w\<lparr>base := rte_safety_violation_report kind report_text (base w)\<rparr>)"
| safestate_enter: "rte_safestate_enter level reason message (base w) = Returned u s \<Longrightarrow> oal_call w (w\<lparr>base := s\<rparr>)"

lemma setup_opD:
  assumes "setup_op op" and "op w = (status, r, w')" and "g_setup_locked (base w)"
  shows "refused_call w status w'"
  using setup_op.refused [OF assms(1,3)] assms(2) by simp

lemma setup_call_locked:
  assumes "setup_call w status w'" and "g_setup_locked (base w)"
  shows "refused_call w status w'"
  using assms by (cases rule: setup_call.cases) (erule setup_opD [rotated], assumption, rule setup_ops)+

lemma runtime_opD:
  assumes "runtime_op op" and "op w = (status, r, w')" and "g_setup_locked (base w)"
  shows "sealed w w'"
  using runtime_op.keeps_configuration [OF assms(1,3)] assms(2) by simp

lemma log_write_ext: "\<exists>x. rte_log_write level tag message s = s\<lparr>ext := x\<rparr>"
  by (auto simp: rte_log_write_def split: option.split)

lemma report_presence_sealed: "sealed w (rte_fsou_report_presence w)"
proof -
  let ?m = "if o_fsou w \<noteq> None then ''FSOU present'' else ''no FSOU registered''"
  obtain x where "rte_log_write LOG_INFO (Some ''FSOU'') ?m (base w) = (base w)\<lparr>ext := x\<rparr>"
    using log_write_ext [of LOG_INFO "Some ''FSOU''" ?m "base w"] by (elim exE)
  then show ?thesis
    unfolding rte_fsou_report_presence_def by (simp add: sealed_def)
qed

lemma write_event_ext: "\<exists>x. rte_log_write_event l site cy src dst ty info ex s = s\<lparr>ext := x\<rparr>"
proof -
  obtain st t s' where now: "rte_timer_now s = (st, t, s')" by (metis prod_cases3)
  then obtain x where s': "s' = s\<lparr>ext := x\<rparr>" using base_out_ext(1) [of s] by auto
  show ?thesis
    by (auto simp: rte_log_write_event_def now s' Let_def split: option.split prod.split)
qed

lemma sealed_ext_base: "\<exists>x. s = (base w)\<lparr>ext := x\<rparr> \<Longrightarrow> sealed w (w\<lparr>base := s\<rparr>)"
  by auto

text \<open>The operations below that return nothing.\<close>

lemma plain_calls_sealed:
  "sealed w (w\<lparr>base := rte_log_write level tag message (base w)\<rparr>)"
  "sealed w (w\<lparr>base := rte_log_set_level level (base w)\<rparr>)"
  "sealed w (w\<lparr>base := rte_log_write_event level site cycle source destination type info extra (base w)\<rparr>)"
  "sealed w (w\<lparr>base := rte_safety_violation_report kind report_text (base w)\<rparr>)"
  "rte_log_write_event_fields level site cycle source destination type info builder (base w) = (builder', s) \<Longrightarrow>
    sealed w (w\<lparr>base := s\<rparr>)"
  "rte_safestate_enter safe_level reason text (base w) = Returned u s \<Longrightarrow> sealed w (w\<lparr>base := s\<rparr>)"
proof -
  show "sealed w (w\<lparr>base := rte_log_write level tag message (base w)\<rparr>)"
    by (rule sealed_ext_base) (rule log_write_ext)
  show "sealed w (w\<lparr>base := rte_log_set_level level (base w)\<rparr>)"
    by (simp add: rte_log_set_level_def)
  show "sealed w (w\<lparr>base := rte_log_write_event level site cycle source destination type info extra (base w)\<rparr>)"
    by (rule sealed_ext_base) (rule write_event_ext)
  show "sealed w (w\<lparr>base := rte_safety_violation_report kind report_text (base w)\<rparr>)"
    by (simp add: rte_safety_violation_report_def split: option.split)
  show "rte_log_write_event_fields level site cycle source destination type info builder (base w) = (builder', s) \<Longrightarrow>
    sealed w (w\<lparr>base := s\<rparr>)"
    by (rule sealed_ext_base) (auto simp: rte_log_write_event_fields_def write_event_ext split: prod.splits)
  show "rte_safestate_enter safe_level reason text (base w) = Returned u s \<Longrightarrow> sealed w (w\<lparr>base := s\<rparr>)"
    by (rule sealed_ext_base) (auto simp: rte_safestate_enter_def Let_def split: option.splits if_splits)
qed

lemma oal_call_locked:
  assumes "oal_call w w'" and "g_setup_locked (base w)"
  shows "sealed w w'"
  using assms
proof (cases rule: oal_call.cases)
  case (setup_only status)
  then show ?thesis using setup_call_locked refused_call_sealed assms(2) by blast
qed (simp only: report_presence_sealed plain_calls_sealed | erule runtime_opD [rotated], assumption, rule runtime_ops)+

lemma oal_calls_locked:
  assumes "oal_call\<^sup>*\<^sup>* w w'" and "g_setup_locked (base w)"
  shows "sealed w w'"
  using assms
proof (induction rule: rtranclp_induct)
  case (step w1 w2)
  then have "sealed w w1" by blast
  moreover have "sealed w1 w2"
    using oal_call_locked [OF step.hyps(2)] sealed_locked [OF calculation] step.prems by simp
  ultimately show ?case by (rule sealed_trans)
qed simp

section \<open>The role of a flow\<close>

lemma low_bits: "x AND 15 = take_bit 4 x" for x :: u32
  by (simp add: take_bit_eq_mask mask_eq_decr_exp)

lemma role_bit: "i < 4 \<Longrightarrow> bit (take_bit 4 x) i = bit x i" for x :: u32
  by (simp add: bit_take_bit_iff)

lemma role_values: "(r :: u32) < 16 \<Longrightarrow>
    r \<in> {0, 1, 2, 3, 4, 5, 6, 7, 8, 9, 10, 11, 12, 13, 14, 15}"
proof -
  assume "r < 16"
  then have "unat r < 16" by (simp add: word_less_nat_alt)
  then have "unat r \<in> {0, 1, 2, 3, 4, 5, 6, 7, 8, 9, 10, 11, 12, 13, 14, 15}"
    by (simp, arith)
  moreover have "r = word_of_nat (unat r)" by simp
  ultimately obtain n where "r = word_of_nat n"
    "n \<in> {0, 1, 2, 3, 4, 5, 6, 7, 8, 9, 10, 11, 12, 13, 14, 15}"
    by blast
  then show ?thesis by (elim insertE emptyE) simp_all
qed

lemma all_below_4: "(\<forall>j < (4::nat). P j) \<longleftrightarrow> P 0 \<and> P 1 \<and> P 2 \<and> P 3"
  by (auto simp: numeral_eq_Suc All_less_Suc)

lemma ex_below_4: "(\<exists>j < (4::nat). P j) \<longleftrightarrow> P 0 \<or> P 1 \<or> P 2 \<or> P 3"
  by (auto simp: numeral_eq_Suc Ex_less_Suc)

lemma exactly_one_role:
  "oflags_select_exactly_one_role oflags \<longleftrightarrow> (\<exists>i < (4::nat). \<forall>j < 4. bit oflags j = (j = i))"
proof -
  let ?r = "take_bit 4 oflags"
  have "unat ?r = take_bit 4 (unat oflags)" by (simp add: unsigned_take_bit_eq)
  also have "\<dots> < 2 ^ 4" by (rule take_bit_nat_less_exp)
  finally have "?r < 16" by (simp add: word_less_nat_alt)
  then have v: "?r \<in> {0, 1, 2, 3, 4, 5, 6, 7, 8, 9, 10, 11, 12, 13, 14, 15}" by (rule role_values)
  have l: "oflags_select_exactly_one_role oflags = (?r \<noteq> 0 \<and> ?r AND (?r - 1) = 0)"
    by (simp add: oflags_select_exactly_one_role_def FLOW_O_REQUESTER_def FLOW_O_RESPONDER_def
        FLOW_O_PUBLISHER_def FLOW_O_SUBSCRIBER_def low_bits Let_def)
  have "(\<exists>i < (4::nat). \<forall>j < 4. bit oflags j = (j = i)) = (\<exists>i < (4::nat). \<forall>j < 4. bit ?r j = (j = i))"
    by (simp add: role_bit)
  also have "\<dots> = (?r \<noteq> 0 \<and> ?r AND (?r - 1) = 0)"
    unfolding all_below_4 ex_below_4 using v by (elim insertE emptyE) (simp_all add: bit_numeral_rec bit_1_iff)
  finally show ?thesis using l by simp
qed

section \<open>Registering a bundle\<close>

definition given :: "'a option \<Rightarrow> 'a option \<Rightarrow> 'a option" where
  "given item old = (case item of None \<Rightarrow> old | Some a \<Rightarrow> Some a)"

text \<open>The state with every member of the bundle in place.\<close>

definition with_bundle :: "'x osadapter_bundle \<Rightarrow> 'x oal \<Rightarrow> 'x oal" where
  "with_bundle b w =
    w\<lparr>base := (base w)\<lparr>s_timer := given (b_timer b) (s_timer (base w)),
        s_log := given (b_log b) (s_log (base w)),
        s_netlink := given (b_netlink b) (s_netlink (base w)),
        s_random := given (b_random b) (s_random (base w))\<rparr>,
      o_memory := given (b_memory b) (o_memory w),
      o_clocksync := given (b_clocksync b) (o_clocksync w),
      o_mutex := given (b_mutex b) (o_mutex w),
      o_task := given (b_task b) (o_task w),
      o_nvm := given (b_nvm b) (o_nvm w),
      o_platform := given (b_platform b) (o_platform w),
      o_reboot := given (b_reboot b) (o_reboot w),
      o_ipc := given (b_ipc b) (o_ipc w),
      o_flow := given (b_flow b) (o_flow w),
      o_sockets := given (b_sockets b) (o_sockets w),
      o_fsou := given (b_fsou b) (o_fsou w)\<rparr>"

text \<open>Whether the bundle has a member that comes before, or after, its socket table.\<close>

definition early_members :: "'x osadapter_bundle \<Rightarrow> bool" where
  "early_members b \<longleftrightarrow> b_memory b \<noteq> None \<or> b_clocksync b \<noteq> None \<or> b_timer b \<noteq> None \<or>
     b_mutex b \<noteq> None \<or> b_task b \<noteq> None \<or> b_log b \<noteq> None \<or> b_nvm b \<noteq> None \<or>
     b_platform b \<noteq> None \<or> b_reboot b \<noteq> None \<or> b_ipc b \<noteq> None \<or> b_netlink b \<noteq> None \<or>
     b_flow b \<noteq> None"

definition late_members :: "'x osadapter_bundle \<Rightarrow> bool" where
  "late_members b \<longleftrightarrow> b_random b \<noteq> None \<or> b_fsou b \<noteq> None"

text \<open>Each member alone: what is given replaces what was registered.\<close>

lemma own_item:
  assumes "\<not> g_setup_locked (base w)" and "\<And>v. store (stored v) v = v"
    and "register = register_adapter (\<lambda>a. store (Some a))"
  shows "bundle_item register item w = (STATUS_OK, (), store (given item (stored w)) w)"
  using assms by (cases item) (simp_all add: bundle_item_def given_def register_adapter_unlocked)

lemma base_item:
  assumes "\<not> g_setup_locked (base w)" and "\<And>s. store (stored s) s = s"
    and "\<And>a s. \<not> g_setup_locked s \<Longrightarrow> register (Some a) s = (STATUS_OK, store (Some a) s)"
  shows "bundle_item (\<lambda>a. on_base (register a)) item w =
    (STATUS_OK, (), w\<lparr>base := store (given item (stored (base w))) (base w)\<rparr>)"
  using assms by (cases item) (simp_all add: bundle_item_def given_def on_base_def)

lemma bundle_member:
  assumes "\<not> g_setup_locked (base w)"
  shows "bundle_item rte_osadapter_memory_register memory w =
      (STATUS_OK, (), w\<lparr>o_memory := given memory (o_memory w)\<rparr>)"
    and "bundle_item rte_osadapter_clocksync_register clocksync w =
      (STATUS_OK, (), w\<lparr>o_clocksync := given clocksync (o_clocksync w)\<rparr>)"
    and "bundle_item rte_osadapter_mutex_register mutex w =
      (STATUS_OK, (), w\<lparr>o_mutex := given mutex (o_mutex w)\<rparr>)"
    and "bundle_item rte_osadapter_task_register task w =
      (STATUS_OK, (), w\<lparr>o_task := given task (o_task w)\<rparr>)"
    and "bundle_item rte_osadapter_nvm_register nvm w =
      (STATUS_OK, (), w\<lparr>o_nvm := given nvm (o_nvm w)\<rparr>)"
    and "bundle_item rte_osadapter_platform_register platform w =
      (STATUS_OK, (), w\<lparr>o_platform := given platform (o_platform w)\<rparr>)"
    and "bundle_item rte_osadapter_reboot_register reboot w =
      (STATUS_OK, (), w\<lparr>o_reboot := given reboot (o_reboot w)\<rparr>)"
    and "bundle_item rte_osadapter_ipc_register ipc w =
      (STATUS_OK, (), w\<lparr>o_ipc := given ipc (o_ipc w)\<rparr>)"
    and "bundle_item rte_osadapter_flow_register flow w =
      (STATUS_OK, (), w\<lparr>o_flow := given flow (o_flow w)\<rparr>)"
    and "bundle_item rte_osadapter_fsou_register fsou w =
      (STATUS_OK, (), w\<lparr>o_fsou := given fsou (o_fsou w)\<rparr>)"
    and "bundle_item (\<lambda>a. on_base (rte_osadapter_timer_register a)) timer w =
      (STATUS_OK, (), w\<lparr>base := (base w)\<lparr>s_timer := given timer (s_timer (base w))\<rparr>\<rparr>)"
    and "bundle_item (\<lambda>a. on_base (rte_osadapter_log_register a)) log w =
      (STATUS_OK, (), w\<lparr>base := (base w)\<lparr>s_log := given log (s_log (base w))\<rparr>\<rparr>)"
    and "bundle_item (\<lambda>a. on_base (rte_osadapter_netlink_register a)) netlink w =
      (STATUS_OK, (), w\<lparr>base := (base w)\<lparr>s_netlink := given netlink (s_netlink (base w))\<rparr>\<rparr>)"
    and "bundle_item (\<lambda>a. on_base (rte_osadapter_random_register a)) random w =
      (STATUS_OK, (), w\<lparr>base := (base w)\<lparr>s_random := given random (s_random (base w))\<rparr>\<rparr>)"
    and "bundle_item rte_osadapter_register_socket_ops sockets w =
      (STATUS_OK, (), w\<lparr>o_sockets := given sockets (o_sockets w)\<rparr>)"
proof -
  show "bundle_item rte_osadapter_memory_register memory w = (STATUS_OK, (), w\<lparr>o_memory := given memory (o_memory w)\<rparr>)"
    by (rule own_item [OF assms, where store = "\<lambda>a w. w\<lparr>o_memory := a\<rparr>"])
      (simp_all add: rte_osadapter_memory_register_def)
  show "bundle_item rte_osadapter_clocksync_register clocksync w = (STATUS_OK, (), w\<lparr>o_clocksync := given clocksync (o_clocksync w)\<rparr>)"
    by (rule own_item [OF assms, where store = "\<lambda>a w. w\<lparr>o_clocksync := a\<rparr>"])
      (simp_all add: rte_osadapter_clocksync_register_def)
  show "bundle_item rte_osadapter_mutex_register mutex w = (STATUS_OK, (), w\<lparr>o_mutex := given mutex (o_mutex w)\<rparr>)"
    by (rule own_item [OF assms, where store = "\<lambda>a w. w\<lparr>o_mutex := a\<rparr>"])
      (simp_all add: rte_osadapter_mutex_register_def)
  show "bundle_item rte_osadapter_task_register task w = (STATUS_OK, (), w\<lparr>o_task := given task (o_task w)\<rparr>)"
    by (rule own_item [OF assms, where store = "\<lambda>a w. w\<lparr>o_task := a\<rparr>"])
      (simp_all add: rte_osadapter_task_register_def)
  show "bundle_item rte_osadapter_nvm_register nvm w = (STATUS_OK, (), w\<lparr>o_nvm := given nvm (o_nvm w)\<rparr>)"
    by (rule own_item [OF assms, where store = "\<lambda>a w. w\<lparr>o_nvm := a\<rparr>"])
      (simp_all add: rte_osadapter_nvm_register_def)
  show "bundle_item rte_osadapter_platform_register platform w = (STATUS_OK, (), w\<lparr>o_platform := given platform (o_platform w)\<rparr>)"
    by (rule own_item [OF assms, where store = "\<lambda>a w. w\<lparr>o_platform := a\<rparr>"])
      (simp_all add: rte_osadapter_platform_register_def)
  show "bundle_item rte_osadapter_reboot_register reboot w = (STATUS_OK, (), w\<lparr>o_reboot := given reboot (o_reboot w)\<rparr>)"
    by (rule own_item [OF assms, where store = "\<lambda>a w. w\<lparr>o_reboot := a\<rparr>"])
      (simp_all add: rte_osadapter_reboot_register_def)
  show "bundle_item rte_osadapter_ipc_register ipc w = (STATUS_OK, (), w\<lparr>o_ipc := given ipc (o_ipc w)\<rparr>)"
    by (rule own_item [OF assms, where store = "\<lambda>a w. w\<lparr>o_ipc := a\<rparr>"])
      (simp_all add: rte_osadapter_ipc_register_def)
  show "bundle_item rte_osadapter_flow_register flow w = (STATUS_OK, (), w\<lparr>o_flow := given flow (o_flow w)\<rparr>)"
    by (rule own_item [OF assms, where store = "\<lambda>a w. w\<lparr>o_flow := a\<rparr>"])
      (simp_all add: rte_osadapter_flow_register_def)
  show "bundle_item rte_osadapter_fsou_register fsou w = (STATUS_OK, (), w\<lparr>o_fsou := given fsou (o_fsou w)\<rparr>)"
    by (rule own_item [OF assms, where store = "\<lambda>a w. w\<lparr>o_fsou := a\<rparr>"])
      (simp_all add: rte_osadapter_fsou_register_def)
  show "bundle_item (\<lambda>a. on_base (rte_osadapter_timer_register a)) timer w = (STATUS_OK, (), w\<lparr>base := (base w)\<lparr>s_timer := given timer (s_timer (base w))\<rparr>\<rparr>)"
    by (rule base_item [OF assms, where store = "\<lambda>a s. s\<lparr>s_timer := a\<rparr>"])
      (simp_all add: rte_osadapter_timer_register_def setup_allowed)
  show "bundle_item (\<lambda>a. on_base (rte_osadapter_log_register a)) log w = (STATUS_OK, (), w\<lparr>base := (base w)\<lparr>s_log := given log (s_log (base w))\<rparr>\<rparr>)"
    by (rule base_item [OF assms, where store = "\<lambda>a s. s\<lparr>s_log := a\<rparr>"])
      (simp_all add: rte_osadapter_log_register_def setup_allowed)
  show "bundle_item (\<lambda>a. on_base (rte_osadapter_netlink_register a)) netlink w = (STATUS_OK, (), w\<lparr>base := (base w)\<lparr>s_netlink := given netlink (s_netlink (base w))\<rparr>\<rparr>)"
    by (rule base_item [OF assms, where store = "\<lambda>a s. s\<lparr>s_netlink := a\<rparr>"])
      (simp_all add: rte_osadapter_netlink_register_def setup_allowed)
  show "bundle_item (\<lambda>a. on_base (rte_osadapter_random_register a)) random w = (STATUS_OK, (), w\<lparr>base := (base w)\<lparr>s_random := given random (s_random (base w))\<rparr>\<rparr>)"
    by (rule base_item [OF assms, where store = "\<lambda>a s. s\<lparr>s_random := a\<rparr>"])
      (simp_all add: rte_osadapter_random_register_def setup_allowed)
  show "bundle_item rte_osadapter_register_socket_ops sockets w =
    (STATUS_OK, (), w\<lparr>o_sockets := given sockets (o_sockets w)\<rparr>)"
    by (cases sockets) (simp_all add: bundle_item_def given_def rte_osadapter_register_socket_ops_def)
qed

lemma register_all_unlocked:
  assumes "\<not> g_setup_locked (base w)"
  shows "rte_osadapter_register_all (Some b) w = (STATUS_OK, (), with_bundle b w)"
  using assms
  by (simp add: rte_osadapter_register_all_def bundle_items_def bundle_member with_bundle_def)

text \<open>
  After the lock a member is skipped when it is absent and refused when it is there: the call
  returns \<open>STATUS_INVALID_STATE\<close> and only the report has reached the outside.
\<close>

definition skips :: "('x, unit) oal_op \<Rightarrow> bool" where
  "skips f \<longleftrightarrow> (\<forall>w. f w = (STATUS_OK, (), w))"

definition refuses :: "('x, unit) oal_op \<Rightarrow> bool" where
  "refuses f \<longleftrightarrow> (\<forall>w. g_setup_locked (base w) \<longrightarrow>
     (\<exists>x. f w = (STATUS_INVALID_STATE, (), w\<lparr>base := (base w)\<lparr>ext := x\<rparr>\<rparr>)))"

lemma register_adapter_refuses: "refuses (register_adapter store (Some a))"
proof -
  have "\<exists>x. register_adapter store (Some a) w =
      (STATUS_INVALID_STATE, (), w\<lparr>base := (base w)\<lparr>ext := x\<rparr>\<rparr>)"
    if l: "g_setup_locked (base w)" for w
    using refusal_state [OF l] by (auto simp: register_adapter_def setup_only_def)
  then show ?thesis by (simp add: refuses_def)
qed

lemma base_register_refuses:
  shows "refuses (on_base (rte_osadapter_timer_register (Some timer)))"
    and "refuses (on_base (rte_osadapter_log_register (Some log)))"
    and "refuses (on_base (rte_osadapter_netlink_register (Some netlink)))"
    and "refuses (on_base (rte_osadapter_random_register (Some random)))"
proof -
  have "\<exists>y. on_base (rte_osadapter_timer_register (Some timer)) w =
      (STATUS_INVALID_STATE, (), w\<lparr>base := (base w)\<lparr>ext := y\<rparr>\<rparr>)"
    if l: "g_setup_locked (base w)" for w
    using refusal_state [OF l] by (auto simp: on_base_def rte_osadapter_timer_register_def)
  then show "refuses (on_base (rte_osadapter_timer_register (Some timer)))" by (simp add: refuses_def)
  have "\<exists>y. on_base (rte_osadapter_log_register (Some log)) w =
      (STATUS_INVALID_STATE, (), w\<lparr>base := (base w)\<lparr>ext := y\<rparr>\<rparr>)"
    if l: "g_setup_locked (base w)" for w
    using refusal_state [OF l] by (auto simp: on_base_def rte_osadapter_log_register_def)
  then show "refuses (on_base (rte_osadapter_log_register (Some log)))" by (simp add: refuses_def)
  have "\<exists>y. on_base (rte_osadapter_netlink_register (Some netlink)) w =
      (STATUS_INVALID_STATE, (), w\<lparr>base := (base w)\<lparr>ext := y\<rparr>\<rparr>)"
    if l: "g_setup_locked (base w)" for w
    using refusal_state [OF l] by (auto simp: on_base_def rte_osadapter_netlink_register_def)
  then show "refuses (on_base (rte_osadapter_netlink_register (Some netlink)))" by (simp add: refuses_def)
  have "\<exists>y. on_base (rte_osadapter_random_register (Some random)) w =
      (STATUS_INVALID_STATE, (), w\<lparr>base := (base w)\<lparr>ext := y\<rparr>\<rparr>)"
    if l: "g_setup_locked (base w)" for w
    using refusal_state [OF l] by (auto simp: on_base_def rte_osadapter_random_register_def)
  then show "refuses (on_base (rte_osadapter_random_register (Some random)))" by (simp add: refuses_def)
qed

lemma refuses_not_skips: "refuses f \<Longrightarrow> \<not> skips f"
proof
  fix f :: "('x, unit) oal_op"
  assume r: "refuses f" and s: "skips f"
  obtain w :: "'x oal" where l: "g_setup_locked (base w)"
    by (rule that [of "(initial_oal undefined)\<lparr>base := rte_lifecycle_lock (initial_rte undefined)\<rparr>"])
      (simp add: rte_lifecycle_lock_def)
  from r l s show False by (auto simp: refuses_def skips_def)
qed

lemma until_error_locked:
  assumes "g_setup_locked (base w)" and "\<forall>f \<in> set fs. skips f \<or> refuses f"
  shows "if \<forall>f \<in> set fs. skips f then until_error (fs @ rest) w = until_error rest w
    else \<exists>x. until_error (fs @ rest) w =
      (STATUS_INVALID_STATE, (), w\<lparr>base := (base w)\<lparr>ext := x\<rparr>\<rparr>)"
  using assms(2)
proof (induction fs)
  case (Cons f fs)
  show ?case
  proof (cases "skips f")
    case True
    then have "until_error ((f # fs) @ rest) w = until_error (fs @ rest) w"
      by (simp add: skips_def)
    with Cons True show ?thesis by simp
  next
    case False
    then have "refuses f" using Cons.prems by simp
    then obtain x where "f w = (STATUS_INVALID_STATE, (), w\<lparr>base := (base w)\<lparr>ext := x\<rparr>\<rparr>)"
      using assms(1) by (auto simp: refuses_def)
    then show ?thesis using False by auto
  qed
qed simp

lemma member_kind:
  assumes "\<And>a. refuses (register (Some a))"
  shows "skips (bundle_item register item) = (item = None)"
    and "item = None \<or> refuses (bundle_item register item)"
proof -
  have n: "item = None \<Longrightarrow> skips (bundle_item register item)"
    by (simp add: skips_def bundle_item_def)
  have s: "item \<noteq> None \<Longrightarrow> refuses (bundle_item register item)"
    using assms by (auto simp: refuses_def bundle_item_def)
  show "skips (bundle_item register item) = (item = None)"
    using n s refuses_not_skips by blast
  show "item = None \<or> refuses (bundle_item register item)"
    using s by blast
qed

lemma registers_refuse:
  shows "refuses (rte_osadapter_memory_register (Some memory))"
    and "refuses (rte_osadapter_clocksync_register (Some clocksync))"
    and "refuses (rte_osadapter_mutex_register (Some mutex))"
    and "refuses (rte_osadapter_task_register (Some task))"
    and "refuses (rte_osadapter_nvm_register (Some nvm))"
    and "refuses (rte_osadapter_platform_register (Some platform))"
    and "refuses (rte_osadapter_reboot_register (Some reboot))"
    and "refuses (rte_osadapter_ipc_register (Some ipc))"
    and "refuses (rte_osadapter_flow_register (Some flow))"
    and "refuses (rte_osadapter_fsou_register (Some fsou))"
  by (simp_all add: register_adapter_refuses rte_osadapter_memory_register_def rte_osadapter_clocksync_register_def rte_osadapter_mutex_register_def rte_osadapter_task_register_def rte_osadapter_nvm_register_def rte_osadapter_platform_register_def rte_osadapter_reboot_register_def rte_osadapter_ipc_register_def rte_osadapter_flow_register_def rte_osadapter_fsou_register_def)

lemmas bundle_member_locked =
  member_kind [where register = rte_osadapter_memory_register, OF registers_refuse(1)]
  member_kind [where register = rte_osadapter_clocksync_register, OF registers_refuse(2)]
  member_kind [where register = rte_osadapter_mutex_register, OF registers_refuse(3)]
  member_kind [where register = rte_osadapter_task_register, OF registers_refuse(4)]
  member_kind [where register = rte_osadapter_nvm_register, OF registers_refuse(5)]
  member_kind [where register = rte_osadapter_platform_register, OF registers_refuse(6)]
  member_kind [where register = rte_osadapter_reboot_register, OF registers_refuse(7)]
  member_kind [where register = rte_osadapter_ipc_register, OF registers_refuse(8)]
  member_kind [where register = rte_osadapter_flow_register, OF registers_refuse(9)]
  member_kind [where register = rte_osadapter_fsou_register, OF registers_refuse(10)]
  member_kind [where register = "\<lambda>a. on_base (rte_osadapter_timer_register a)",
    OF base_register_refuses(1)]
  member_kind [where register = "\<lambda>a. on_base (rte_osadapter_log_register a)",
    OF base_register_refuses(2)]
  member_kind [where register = "\<lambda>a. on_base (rte_osadapter_netlink_register a)",
    OF base_register_refuses(3)]
  member_kind [where register = "\<lambda>a. on_base (rte_osadapter_random_register a)",
    OF base_register_refuses(4)]

lemma register_all_locked:
  assumes l: "g_setup_locked (base w)"
    and run: "rte_osadapter_register_all (Some b) w = (status, u, w')"
  shows "\<exists>x. w' = w\<lparr>base := (base w)\<lparr>ext := x\<rparr>,
      o_sockets := if early_members b then o_sockets w else given (b_sockets b) (o_sockets w)\<rparr>"
    and "status = (if early_members b \<or> late_members b then STATUS_INVALID_STATE else STATUS_OK)"
proof -
  let ?early = "take 12 (bundle_items b)" and ?late = "drop 13 (bundle_items b)"
  let ?w = "w\<lparr>o_sockets := given (b_sockets b) (o_sockets w)\<rparr>"
  have items: "bundle_items b =
      ?early @ bundle_item rte_osadapter_register_socket_ops (b_sockets b) # ?late"
    by (simp add: bundle_items_def)
  have early: "\<forall>f \<in> set ?early. skips f \<or> refuses f"
    and early_skips: "(\<forall>f \<in> set ?early. skips f) = (\<not> early_members b)"
    by (simp_all add: bundle_items_def bundle_member_locked early_members_def)
  have late: "\<forall>f \<in> set ?late. skips f \<or> refuses f"
    and late_skips: "(\<forall>f \<in> set ?late. skips f) = (\<not> late_members b)"
    by (simp_all add: bundle_items_def bundle_member_locked late_members_def)
  have socket: "until_error (bundle_item rte_osadapter_register_socket_ops (b_sockets b) # ?late) w =
      until_error ?late ?w"
    by (cases "b_sockets b")
      (simp_all add: bundle_item_def rte_osadapter_register_socket_ops_def given_def)
  have all: "rte_osadapter_register_all (Some b) w =
      until_error (?early @ bundle_item rte_osadapter_register_socket_ops (b_sockets b) # ?late) w"
    using items by (simp add: rte_osadapter_register_all_def)
  have "\<exists>x. rte_osadapter_register_all (Some b) w =
      (if early_members b \<or> late_members b then STATUS_INVALID_STATE else STATUS_OK, (),
       w\<lparr>base := (base w)\<lparr>ext := x\<rparr>,
         o_sockets := if early_members b then o_sockets w else given (b_sockets b) (o_sockets w)\<rparr>)"
  proof (cases "early_members b")
    case True
    then show ?thesis
      using until_error_locked [OF l early] early_skips unfolding all by auto
  next
    case False
    then have "rte_osadapter_register_all (Some b) w =
        until_error (bundle_item rte_osadapter_register_socket_ops (b_sockets b) # ?late) w"
      using until_error_locked [OF l early] early_skips unfolding all
      by (simp del: until_error.simps)
    also have "\<dots> = until_error (?late @ []) ?w" unfolding socket by simp
    finally have run_late: "rte_osadapter_register_all (Some b) w = until_error (?late @ []) ?w" .
    have "g_setup_locked (base ?w)" using l by simp
    note late_run = until_error_locked [OF this late, of "[]"]
    show ?thesis
    proof (cases "late_members b")
      case True
      with late_run late_skips obtain x where
        "until_error (?late @ []) ?w = (STATUS_INVALID_STATE, (), ?w\<lparr>base := (base ?w)\<lparr>ext := x\<rparr>\<rparr>)"
        by auto
      then show ?thesis using False True unfolding run_late by (intro exI [of _ x]) simp
    next
      case no_late: False
      with late_run late_skips have "until_error (?late @ []) ?w = (STATUS_OK, (), ?w)" by simp
      then show ?thesis using False no_late unfolding run_late
        by (intro exI [of _ "ext (base w)"]) simp
    qed
  qed
  then show "\<exists>x. w' = w\<lparr>base := (base w)\<lparr>ext := x\<rparr>,
      o_sockets := if early_members b then o_sockets w else given (b_sockets b) (o_sockets w)\<rparr>"
    and "status = (if early_members b \<or> late_members b then STATUS_INVALID_STATE else STATUS_OK)"
    using run by auto
qed

section \<open>The properties of the layer\<close>

text \<open>C30. Setup is over once it is locked: after any sequence of the operations of the abstraction layer,
  the log and the safe-state services that starts from a locked state, every setup-only operation (the
  registration of an OSAdapter or of a handler for a safe state, the creation of a pool, mutex, task,
  timer, queue or non-volatile region, the start of a task or timer) has no effect. Either it fails for a
  bad parameter and changes nothing, or it is refused for the state: then the handler for the state
  DEGRADED has been called with the report, where one is registered, and that is all; no adapter has
  been asked to create anything. Through the whole sequence every registered adapter and every handler
  for a safe state stays the one in place at the lock. What can have changed besides the outside world is
  what the code does not gate: the minimum level of the log, the handler for safety violations, the
  socket table and the presence latch.\<close>

theorem no_setup_after_lock:
  assumes "g_setup_locked (base w)"
    and "oal_call\<^sup>*\<^sup>* w w1"
    and "setup_call w1 status w2"
  shows "sealed w w1 \<and> sealed w w2 \<and>
    (status = STATUS_INVALID_PARAM \<and> w2 = w1 \<or> status = STATUS_INVALID_STATE \<and> w2 = refusal w1)"
proof -
  have s: "sealed w w1" by (rule oal_calls_locked [OF assms(2,1)])
  then have "g_setup_locked (base w1)" using sealed_locked assms(1) by blast
  note r = setup_call_locked [OF assms(3) this]
  with s sealed_trans [OF s refused_call_sealed [OF r]] show ?thesis by (simp add: refused_call_def)
qed

text \<open>A locked layer with a mutex adapter that counts its calls and a handler that counts the reports: the
  creation adds one report and no call.\<close>

definition locked_oal :: "unit oal" where
  "locked_oal = (initial_oal ())\<lparr>base := rte_lifecycle_lock (initial_rte ())\<rparr>"

definition counting_oal :: "(nat \<times> nat) oal" where
  "counting_oal = (initial_oal (0, 0))\<lparr>base := (rte_lifecycle_lock (initial_rte (0, 0)))
       \<lparr>s_handlers := (\<lambda>_. None)(0 := Some (\<lambda>level reason message (calls, reports). (calls, reports + 1)))\<rparr>,
     o_mutex := Some \<lparr>mutex_create = Some (\<lambda>storage (calls, reports). (STATUS_OK, Some storage, (calls + 1, reports))),
       mutex_lock = None, mutex_unlock = None, mutex_destroy = None, mutex_lock_timed = None\<rparr>\<rparr>"

lemma no_setup_after_lock_witness:
  "\<exists>w. rte_mutex_create (Some 1) (Some None) (counting_oal\<lparr>base := rte_log_set_level LOG_ERROR (base counting_oal)\<rparr>) =
      (STATUS_INVALID_STATE, Some None, w) \<and> ext (base w) = (0, 1) \<and> sealed counting_oal w"
proof -
  let ?w1 = "counting_oal\<lparr>base := rte_log_set_level LOG_ERROR (base counting_oal)\<rparr>"
  have locked: "g_setup_locked (base counting_oal)"
    by (simp add: counting_oal_def rte_lifecycle_lock_def)
  have run: "oal_call\<^sup>*\<^sup>* counting_oal ?w1" by (rule r_into_rtranclp) (rule oal_call.log_set_level)
  obtain status r w where create: "rte_mutex_create (Some 1) (Some None) ?w1 = (status, r, w)"
    by (metis prod_cases3)
  note result = no_setup_after_lock [OF locked run setup_call.mutex_create [OF create]]
  have "status = STATUS_INVALID_STATE \<and> r = Some None"
    using create by (auto simp: rte_mutex_create_def setup_only_def rte_lifecycle_check_setup_allowed_def
        rte_log_set_level_def counting_oal_def rte_lifecycle_lock_def)
  with result create show ?thesis
    by (auto simp: refusal_def counting_oal_def rte_log_set_level_def rte_lifecycle_lock_def initial_rte_def)
qed

text \<open>Registering a bundle: before the lock exactly the members the bundle has replace the registered
  ones and the call succeeds. After the lock it fails as soon as the bundle has any member but the
  socket table, no adapter is replaced, and the socket table is, unless an earlier member was
  refused first.
\<close>

theorem bundle_registration:
  assumes "rte_osadapter_register_all (Some b) w = (status, u, w')"
  shows "if g_setup_locked (base w)
    then status = (if early_members b \<or> late_members b then STATUS_INVALID_STATE else STATUS_OK) \<and>
      sealed w w' \<and>
      o_sockets w' = (if early_members b then o_sockets w else given (b_sockets b) (o_sockets w))
    else status = STATUS_OK \<and> w' = with_bundle b w"
proof (cases "g_setup_locked (base w)")
  case True
  from register_all_locked [OF True assms] True show ?thesis by (auto simp: sealed_def)
next
  case False
  then show ?thesis using register_all_unlocked [OF False, of b] assms by simp
qed

definition no_bundle :: "'x osadapter_bundle" where
  "no_bundle = \<lparr>b_memory = None, b_clocksync = None, b_timer = None, b_mutex = None, b_task = None,
     b_log = None, b_nvm = None, b_platform = None, b_reboot = None, b_ipc = None, b_netlink = None,
     b_flow = None, b_sockets = None, b_random = None, b_fsou = None\<rparr>"

text \<open>
  The witness registers a socket table and an output unit after the lock: the call fails, and the
  socket table has been replaced.
\<close>

definition no_sockets :: "unit os_socket_ops" where
  "no_sockets = \<lparr>socket_open = None, socket_bind = None, socket_connect = None, socket_send = None,
     socket_sendto = None, socket_recv = None, socket_recvfrom = None, socket_poll = None,
     socket_set_nonblocking = None, socket_close = None\<rparr>"

definition late_bundle :: "unit osadapter_bundle" where
  "late_bundle = no_bundle\<lparr>b_sockets := Some no_sockets,
     b_fsou := Some \<lparr>fsou_grant = None, fsou_revoke = None\<rparr>\<rparr>"

lemma bundle_registration_witness:
  "o_sockets (snd (snd (rte_osadapter_register_all (Some late_bundle) locked_oal))) = Some no_sockets \<and>
   fst (rte_osadapter_register_all (Some late_bundle) locked_oal) = STATUS_INVALID_STATE"
proof -
  obtain status u w' where r: "rte_osadapter_register_all (Some late_bundle) locked_oal = (status, u, w')"
    by (metis prod_cases3)
  have "g_setup_locked (base locked_oal)" by (simp add: locked_oal_def rte_lifecycle_lock_def)
  moreover have "\<not> early_members late_bundle" "late_members late_bundle"
    by (simp_all add: early_members_def late_members_def late_bundle_def no_bundle_def)
  moreover have "given (b_sockets late_bundle) (o_sockets locked_oal) = Some no_sockets"
    by (simp add: late_bundle_def given_def)
  ultimately show ?thesis using bundle_registration [OF r] r by simp
qed

text \<open>A flow that opens has a name, a message size and exactly one of the four roles: the test the code
  makes on the role bits, that they are not 0 and become 0 without their lowest bit, holds of no
  other bitmask.
\<close>

theorem opened_flow_has_one_role:
  assumes "rte_flow_open storage config out_handle w = (STATUS_OK, out', w')"
  shows "\<exists>cfg. config = Some cfg \<and> fc_name cfg \<noteq> None \<and> fc_message_size cfg > 0 \<and>
    (\<exists>i < 4. \<forall>j < 4. bit (fc_oflags cfg) j = (j = i))"
  using assms
  by (auto simp: rte_flow_open_def exactly_one_role split: option.splits if_splits)

definition any_flow :: "unit oal" where
  "any_flow = (initial_oal ())\<lparr>o_flow := Some \<lparr>flow_open = Some (\<lambda>_ _ x. (STATUS_OK, Some 7, x)),
     flow_send = None, flow_receive = None, flow_close = None, flow_getattr = None,
     flow_setattr = None\<rparr>\<rparr>"

lemma opened_flow_has_one_role_witness:
  "\<exists>cfg. Some \<lparr>fc_name = Some ''ab'', fc_oflags = 20, fc_message_size = 8, fc_open_timeout_ms = 0\<rparr> =
      Some cfg \<and> fc_name cfg \<noteq> None \<and> fc_message_size cfg > 0 \<and>
    (\<exists>i < 4. \<forall>j < 4. bit (fc_oflags cfg) j = (j = i))"
  by (rule opened_flow_has_one_role [of "Some 1" _ "Some None" any_flow "Some (Some 7)" any_flow])
    (simp add: rte_flow_open_def oflags_select_exactly_one_role_def FLOW_O_REQUESTER_def
      FLOW_O_RESPONDER_def FLOW_O_PUBLISHER_def FLOW_O_SUBSCRIBER_def call_adapter_def any_flow_def
      initial_oal_def initial_rte_def)

end
