(* ===== verification/Socket_Adapter.thy ===== *)
theory Socket_Adapter
  imports Oal_Dispatch
begin

text \<open>
  The protocol adapters over raw sockets: \<^verbatim>\<open>src/oal/protocol/rte_protocol_adapter_udp.c\<close>,
  \<^verbatim>\<open>rte_protocol_adapter_tcp.c\<close> and the registry \<^verbatim>\<open>rte_protocol_adapter.c\<close>. An adapter
  keeps its state in the storage the caller gives to open, and its handle is the address of that
  storage; a memory maps addresses to states. The socket operations belong to the OSAdapter.
\<close>

unbundle bit_operations_syntax

section \<open>Configuration and state\<close>

datatype rte_protocol_type =
  PROTOCOL_RAW_UDP | PROTOCOL_RAW_TCP | PROTOCOL_DDS | PROTOCOL_TYPE_OTHER nat

datatype rte_protocol_role =
  ROLE_LISTEN | ROLE_CONNECT | ROLE_PUB | ROLE_SUB | PROTOCOL_ROLE_OTHER nat

record rte_protocol_config =
  pc_protocol_type :: rte_protocol_type
  pc_role :: rte_protocol_role
  pc_host :: string
  pc_port :: u16
  pc_topic :: string
  pc_domain_id :: u32
  pc_max_message_size :: nat
  pc_open_timeout_ms :: duration_ms
  pc_default_timeout_ms :: duration_ms
  pc_use_handshake :: bool

definition ENDPOINT_STR_MAX :: nat where "ENDPOINT_STR_MAX = 64"

definition SOCKET_INVALID_HANDLE :: socket_handle where "SOCKET_INVALID_HANDLE = - 1"

definition SOCKET_EVENT_READ :: u32 where "SOCKET_EVENT_READ = 1"
definition SOCKET_EVENT_WRITE :: u32 where "SOCKET_EVENT_WRITE = 2"

record 'x udp_state =
  us_sock :: socket_handle
  us_os_sockets :: "'x os_socket_ops option"
  us_config :: rte_protocol_config
  us_is_connected :: bool
  us_peer_known :: bool
  us_peer_host :: string
  us_peer_port :: u16

record 'x tcp_state =
  ts_sock :: socket_handle
  ts_os_sockets :: "'x os_socket_ops option"
  ts_config :: rte_protocol_config
  ts_is_connected :: bool

text \<open>The sizes of the two structures with 64-bit pointers.\<close>

definition UDP_STATE_SIZE :: nat where "UDP_STATE_SIZE = 256"
definition TCP_STATE_SIZE :: nat where "TCP_STATE_SIZE = 192"

text \<open>The memory of the adapters' states, and the layer below.\<close>

type_synonym ('x, 's) endpoints = "(nat \<Rightarrow> 's) \<times> 'x oal"

section \<open>Calls of the socket table\<close>

definition os_call :: "('x \<Rightarrow> rte_status \<times> 'r \<times> 'x) \<Rightarrow> ('x, 'r) oal_op" where
  "os_call f w = (let (status, r, x) = f (ext (base w))
                  in (status, r, w\<lparr>base := (base w)\<lparr>ext := x\<rparr>\<rparr>))"

text \<open>\<^verbatim>\<open>(void)ops->close(sock)\<close>.\<close>

definition close_quietly :: "(socket_handle \<Rightarrow> 'x \<Rightarrow> rte_status \<times> 'x) \<Rightarrow> socket_handle \<Rightarrow> 'x oal \<Rightarrow> 'x oal" where
  "close_quietly fclose sock w = snd (snd (os_call (\<lambda>x. no_out (fclose sock x)) w))"

text \<open>
  Creating the socket and confirming that it does not block. The result is the status, the handle
  left in the adapter's state and the layer.
\<close>

definition create_socket ::
  "'x os_socket_ops \<Rightarrow> (rte_os_socket_type \<Rightarrow> socket_handle \<Rightarrow> 'x \<Rightarrow> rte_status \<times> socket_handle \<times> 'x) \<Rightarrow>
    (socket_handle \<Rightarrow> 'x \<Rightarrow> rte_status \<times> 'x) \<Rightarrow> rte_os_socket_type \<Rightarrow> ('x, socket_handle) oal_op" where
  "create_socket ops fopen fclose ty w =
    (let (status, sock, w1) = os_call (fopen ty SOCKET_INVALID_HANDLE) w
     in if status \<noteq> STATUS_OK then (status, SOCKET_INVALID_HANDLE, w1)
        else case socket_set_nonblocking ops of None \<Rightarrow> (STATUS_OK, sock, w1)
          | Some f \<Rightarrow>
              let (status, _, w2) = os_call (\<lambda>x. no_out (f sock True x)) w1
              in if status \<noteq> STATUS_OK
                 then (status, SOCKET_INVALID_HANDLE, close_quietly fclose sock w2)
                 else (STATUS_OK, sock, w2))"

text \<open>Binding a listening socket; an empty host is passed as \<^verbatim>\<open>NULL\<close>.\<close>

definition bind_socket ::
  "'x os_socket_ops \<Rightarrow> (socket_handle \<Rightarrow> 'x \<Rightarrow> rte_status \<times> 'x) \<Rightarrow> rte_protocol_config \<Rightarrow> socket_handle \<Rightarrow>
    ('x, socket_handle) oal_op" where
  "bind_socket ops fclose cfg sock w =
    (case socket_bind ops of
       None \<Rightarrow> (STATUS_NOT_SUPPORTED, SOCKET_INVALID_HANDLE, close_quietly fclose sock w)
     | Some f \<Rightarrow>
         let (status, _, w1) =
               os_call (\<lambda>x. no_out (f sock (if pc_host cfg \<noteq> [] then Some (pc_host cfg) else None)
                                     (pc_port cfg) x)) w
         in if status \<noteq> STATUS_OK then (status, SOCKET_INVALID_HANDLE, close_quietly fclose sock w1)
            else (STATUS_OK, sock, w1))"

text \<open>Waiting until the socket can be read or written, when the table has a poll.\<close>

definition wait_ready ::
  "'x os_socket_ops \<Rightarrow> socket_handle \<Rightarrow> u32 \<Rightarrow> duration_ms \<Rightarrow> ('x, unit) oal_op" where
  "wait_ready ops sock event timeout_ms w =
    (case socket_poll ops of None \<Rightarrow> (STATUS_OK, (), w)
     | Some f \<Rightarrow>
         let (status, revents, w1) = os_call (f sock event timeout_ms) w
         in if status \<noteq> STATUS_OK then (status, (), w1)
            else if revents AND event = 0 then (STATUS_TIMEOUT, (), w1)
            else (STATUS_OK, (), w1))"

text \<open>The table an open uses: the one it is given, or else the registered one.\<close>

definition chosen_ops :: "'x os_socket_ops option \<Rightarrow> 'x oal \<Rightarrow> 'x os_socket_ops option" where
  "chosen_ops os_sockets w =
    (case os_sockets of None \<Rightarrow> rte_osadapter_get_socket_ops w | Some ops \<Rightarrow> Some ops)"

section \<open>The UDP adapter\<close>

definition udp_adapter_open ::
  "nat option \<Rightarrow> nat \<Rightarrow> rte_protocol_config option \<Rightarrow> 'x os_socket_ops option \<Rightarrow> handle option option \<Rightarrow>
    ('x, 'x udp_state) endpoints \<Rightarrow> rte_status \<times> handle option option \<times> ('x, 'x udp_state) endpoints" where
  "udp_adapter_open storage storage_size config os_sockets out_handle e =
    (let (m, w) = e in
     case (storage, config, out_handle) of
       (Some st, Some cfg, Some _) \<Rightarrow>
         if storage_size < UDP_STATE_SIZE then (STATUS_RESOURCE_EXHAUSTED, out_handle, e)
         else (case chosen_ops os_sockets w of None \<Rightarrow> (STATUS_NOT_INITIALIZED, out_handle, e)
           | Some ops \<Rightarrow>
               (case (socket_open ops, socket_close ops) of
                  (Some fopen, Some fclose) \<Rightarrow>
                    let s0 = \<lparr>us_sock = SOCKET_INVALID_HANDLE, us_os_sockets = Some ops, us_config = cfg,
                              us_is_connected = False, us_peer_known = False, us_peer_host = [],
                              us_peer_port = 0\<rparr>;
                        (status, sock, w1) = create_socket ops fopen fclose SOCKET_TYPE_UDP w
                    in if status \<noteq> STATUS_OK then (status, out_handle, m(st := s0), w1)
                       else (case pc_role cfg of
                         ROLE_LISTEN \<Rightarrow>
                           let (status, sock', w2) = bind_socket ops fclose cfg sock w1
                           in (status, if status = STATUS_OK then Some (Some st) else out_handle,
                               m(st := s0\<lparr>us_sock := sock'\<rparr>), w2)
                       | ROLE_CONNECT \<Rightarrow>
                           let (status, _, w2) =
                                 (case socket_connect ops of None \<Rightarrow> (STATUS_NOT_SUPPORTED, (), w1)
                                  | Some f \<Rightarrow> os_call (\<lambda>x. no_out (f sock (pc_host cfg) (pc_port cfg) x)) w1)
                           in (STATUS_OK, Some (Some st),
                               m(st := s0\<lparr>us_sock := sock, us_is_connected := (status = STATUS_OK),
                                          us_peer_known := True, us_peer_host := pc_host cfg,
                                          us_peer_port := pc_port cfg\<rparr>), w2)
                       | _ \<Rightarrow>
                           (STATUS_OK, Some (Some st),
                            m(st := s0\<lparr>us_sock := sock, us_peer_host := pc_host cfg,
                                       us_peer_port := pc_port cfg,
                                       us_peer_known := (pc_port cfg > 0)\<rparr>), w1))
                | _ \<Rightarrow> (STATUS_NOT_INITIALIZED, out_handle, e)))
     | _ \<Rightarrow> (STATUS_INVALID_PARAM, out_handle, e))"

definition udp_adapter_send ::
  "handle option \<Rightarrow> bytes option \<Rightarrow> nat \<Rightarrow> duration_ms \<Rightarrow> ('x, 'x udp_state) endpoints \<Rightarrow>
    rte_status \<times> unit \<times> ('x, 'x udp_state) endpoints" where
  "udp_adapter_send handle data data_size timeout_ms e =
    (let (m, w) = e in
     case (handle, data) of
       (Some h, Some d) \<Rightarrow>
         let s = m h in
         if data_size = 0 then (STATUS_INVALID_PARAM, (), e)
         else if us_sock s = SOCKET_INVALID_HANDLE then (STATUS_INVALID_STATE, (), e)
         else (case us_os_sockets s of None \<Rightarrow> (STATUS_NOT_INITIALIZED, (), e)
           | Some ops \<Rightarrow>
               let (status, _, w1) = wait_ready ops (us_sock s) SOCKET_EVENT_WRITE timeout_ms w
               in if status \<noteq> STATUS_OK then (status, (), m, w1)
                  else (case (us_is_connected s, socket_send ops, us_peer_known s, socket_sendto ops) of
                    (True, Some f, _, _) \<Rightarrow>
                      let (status, _, w2) = os_call (f (us_sock s) (take data_size d)) w1
                      in (status, (), m, w2)
                  | (_, _, True, Some f) \<Rightarrow>
                      let (status, _, w2) =
                            os_call (f (us_sock s) (take data_size d) (us_peer_host s) (us_peer_port s)) w1
                      in (status, (), m, w2)
                  | _ \<Rightarrow> (STATUS_INVALID_STATE, (), m, w1)))
     | _ \<Rightarrow> (STATUS_INVALID_PARAM, (), e))"

text \<open>The count of bytes received stays in a local variable.\<close>

definition udp_adapter_receive ::
  "handle option \<Rightarrow> bytes option \<Rightarrow> nat \<Rightarrow> duration_ms \<Rightarrow> ('x, 'x udp_state) endpoints \<Rightarrow>
    rte_status \<times> bytes option \<times> ('x, 'x udp_state) endpoints" where
  "udp_adapter_receive handle out_buf buffer_size timeout_ms e =
    (let (m, w) = e in
     case (handle, out_buf) of
       (Some h, Some b) \<Rightarrow>
         let s = m h in
         if buffer_size = 0 then (STATUS_INVALID_PARAM, out_buf, e)
         else if us_sock s = SOCKET_INVALID_HANDLE then (STATUS_INVALID_STATE, out_buf, e)
         else (case us_os_sockets s of None \<Rightarrow> (STATUS_NOT_INITIALIZED, out_buf, e)
           | Some ops \<Rightarrow>
               let (status, _, w1) = wait_ready ops (us_sock s) SOCKET_EVENT_READ timeout_ms w
               in if status \<noteq> STATUS_OK then (status, out_buf, m, w1)
                  else (case (us_is_connected s, socket_recv ops, socket_recvfrom ops) of
                    (True, Some f, _) \<Rightarrow>
                      let (status, (b', _), w2) =
                            os_call (\<lambda>x. let (status, b', n, x') = f (us_sock s) (take buffer_size b) x
                                         in (status, (b', n), x')) w1
                      in (status, Some (b' @ drop buffer_size b), m, w2)
                  | (_, _, Some f) \<Rightarrow>
                      let (status, ((b', host, port), _), w2) =
                            os_call (\<lambda>x. let (status, r, n, x') = f (us_sock s) (take buffer_size b)
                                             (us_peer_host s) ENDPOINT_STR_MAX (us_peer_port s) x
                                         in (status, (r, n), x')) w1;
                          s' = s\<lparr>us_peer_host := host, us_peer_port := port\<rparr>
                      in (status, Some (b' @ drop buffer_size b),
                          m(h := if status = STATUS_OK then s'\<lparr>us_peer_known := True\<rparr> else s'), w2)
                  | _ \<Rightarrow> (STATUS_NOT_SUPPORTED, out_buf, m, w1)))
     | _ \<Rightarrow> (STATUS_INVALID_PARAM, out_buf, e))"

definition udp_adapter_close ::
  "handle option \<Rightarrow> ('x, 'x udp_state) endpoints \<Rightarrow> rte_status \<times> unit \<times> ('x, 'x udp_state) endpoints" where
  "udp_adapter_close handle e =
    (let (m, w) = e in
     case handle of None \<Rightarrow> (STATUS_OK, (), e)
     | Some h \<Rightarrow>
         let s = m h in
         if us_sock s = SOCKET_INVALID_HANDLE then (STATUS_OK, (), e)
         else let w1 = (case us_os_sockets s of None \<Rightarrow> w
                        | Some ops \<Rightarrow> case socket_close ops of None \<Rightarrow> w
                          | Some f \<Rightarrow> close_quietly f (us_sock s) w)
              in (STATUS_OK, (),
                  m(h := s\<lparr>us_sock := SOCKET_INVALID_HANDLE, us_is_connected := False\<rparr>), w1))"

section \<open>The TCP adapter\<close>

definition tcp_adapter_open ::
  "nat option \<Rightarrow> nat \<Rightarrow> rte_protocol_config option \<Rightarrow> 'x os_socket_ops option \<Rightarrow> handle option option \<Rightarrow>
    ('x, 'x tcp_state) endpoints \<Rightarrow> rte_status \<times> handle option option \<times> ('x, 'x tcp_state) endpoints" where
  "tcp_adapter_open storage storage_size config os_sockets out_handle e =
    (let (m, w) = e in
     case (storage, config, out_handle) of
       (Some st, Some cfg, Some _) \<Rightarrow>
         if storage_size < TCP_STATE_SIZE then (STATUS_RESOURCE_EXHAUSTED, out_handle, e)
         else (case chosen_ops os_sockets w of None \<Rightarrow> (STATUS_NOT_INITIALIZED, out_handle, e)
           | Some ops \<Rightarrow>
               (case (socket_open ops, socket_close ops) of
                  (Some fopen, Some fclose) \<Rightarrow>
                    let s0 = \<lparr>ts_sock = SOCKET_INVALID_HANDLE, ts_os_sockets = Some ops, ts_config = cfg,
                              ts_is_connected = False\<rparr>;
                        (status, sock, w1) = create_socket ops fopen fclose SOCKET_TYPE_TCP w
                    in if status \<noteq> STATUS_OK then (status, out_handle, m(st := s0), w1)
                       else (case pc_role cfg of
                         ROLE_LISTEN \<Rightarrow>
                           let (status, sock', w2) = bind_socket ops fclose cfg sock w1
                           in (status, if status = STATUS_OK then Some (Some st) else out_handle,
                               m(st := s0\<lparr>ts_sock := sock'\<rparr>), w2)
                       | ROLE_CONNECT \<Rightarrow>
                           (case socket_connect ops of
                              None \<Rightarrow> (STATUS_NOT_SUPPORTED, out_handle, m(st := s0), close_quietly fclose sock w1)
                            | Some f \<Rightarrow>
                                let (status, _, w2) =
                                      os_call (\<lambda>x. no_out (f sock (pc_host cfg) (pc_port cfg) x)) w1
                                in (STATUS_OK, Some (Some st),
                                    m(st := s0\<lparr>ts_sock := sock, ts_is_connected := (status = STATUS_OK)\<rparr>), w2))
                       | _ \<Rightarrow> (STATUS_OK, Some (Some st), m(st := s0\<lparr>ts_sock := sock\<rparr>), w1))
                | _ \<Rightarrow> (STATUS_NOT_INITIALIZED, out_handle, e)))
     | _ \<Rightarrow> (STATUS_INVALID_PARAM, out_handle, e))"

definition tcp_adapter_send ::
  "handle option \<Rightarrow> bytes option \<Rightarrow> nat \<Rightarrow> duration_ms \<Rightarrow> ('x, 'x tcp_state) endpoints \<Rightarrow>
    rte_status \<times> unit \<times> ('x, 'x tcp_state) endpoints" where
  "tcp_adapter_send handle data data_size timeout_ms e =
    (let (m, w) = e in
     case (handle, data) of
       (Some h, Some d) \<Rightarrow>
         let s = m h in
         if data_size = 0 then (STATUS_INVALID_PARAM, (), e)
         else if ts_sock s = SOCKET_INVALID_HANDLE then (STATUS_INVALID_STATE, (), e)
         else (case ts_os_sockets s of None \<Rightarrow> (STATUS_NOT_INITIALIZED, (), e)
           | Some ops \<Rightarrow> (case socket_send ops of None \<Rightarrow> (STATUS_NOT_INITIALIZED, (), e)
             | Some f \<Rightarrow>
                 let (status, _, w1) = wait_ready ops (ts_sock s) SOCKET_EVENT_WRITE timeout_ms w
                 in if status \<noteq> STATUS_OK then (status, (), m, w1)
                    else let (status, _, w2) = os_call (f (ts_sock s) (take data_size d)) w1
                         in (status, (), m, w2)))
     | _ \<Rightarrow> (STATUS_INVALID_PARAM, (), e))"

definition tcp_adapter_receive ::
  "handle option \<Rightarrow> bytes option \<Rightarrow> nat \<Rightarrow> duration_ms \<Rightarrow> ('x, 'x tcp_state) endpoints \<Rightarrow>
    rte_status \<times> bytes option \<times> ('x, 'x tcp_state) endpoints" where
  "tcp_adapter_receive handle out_buf buffer_size timeout_ms e =
    (let (m, w) = e in
     case (handle, out_buf) of
       (Some h, Some b) \<Rightarrow>
         let s = m h in
         if buffer_size = 0 then (STATUS_INVALID_PARAM, out_buf, e)
         else if ts_sock s = SOCKET_INVALID_HANDLE then (STATUS_INVALID_STATE, out_buf, e)
         else (case ts_os_sockets s of None \<Rightarrow> (STATUS_NOT_INITIALIZED, out_buf, e)
           | Some ops \<Rightarrow> (case socket_recv ops of None \<Rightarrow> (STATUS_NOT_INITIALIZED, out_buf, e)
             | Some f \<Rightarrow>
                 let (status, _, w1) = wait_ready ops (ts_sock s) SOCKET_EVENT_READ timeout_ms w
                 in if status \<noteq> STATUS_OK then (status, out_buf, m, w1)
                    else let (status, (b', _), w2) =
                               os_call (\<lambda>x. let (status, b', n, x') = f (ts_sock s) (take buffer_size b) x
                                            in (status, (b', n), x')) w1
                         in (status, Some (b' @ drop buffer_size b), m, w2)))
     | _ \<Rightarrow> (STATUS_INVALID_PARAM, out_buf, e))"

definition tcp_adapter_close ::
  "handle option \<Rightarrow> ('x, 'x tcp_state) endpoints \<Rightarrow> rte_status \<times> unit \<times> ('x, 'x tcp_state) endpoints" where
  "tcp_adapter_close handle e =
    (let (m, w) = e in
     case handle of None \<Rightarrow> (STATUS_OK, (), e)
     | Some h \<Rightarrow>
         let s = m h in
         if ts_sock s = SOCKET_INVALID_HANDLE then (STATUS_OK, (), e)
         else let w1 = (case ts_os_sockets s of None \<Rightarrow> w
                        | Some ops \<Rightarrow> case socket_close ops of None \<Rightarrow> w
                          | Some f \<Rightarrow> close_quietly f (ts_sock s) w)
              in (STATUS_OK, (),
                  m(h := s\<lparr>ts_sock := SOCKET_INVALID_HANDLE, ts_is_connected := False\<rparr>), w1))"

section \<open>What an OSAdapter promises about its sockets\<close>

text \<open>
  \<open>live x\<close> are the sockets that are open in the state \<open>x\<close>. An open that succeeds returns a new
  one, one that fails opens none (\<^verbatim>\<open>rte_osadapter_socket.h\<close>, REQ-OAL-SOCKET-001), a close
  releases its socket and no other operation opens or closes any.
\<close>

definition keeps_sockets :: "('x \<Rightarrow> socket_handle set) \<Rightarrow> ('x \<Rightarrow> 'r \<times> 'x) \<Rightarrow> bool" where
  "keeps_sockets live f \<longleftrightarrow> (\<forall>x. live (snd (f x)) = live x)"

definition socket_contract :: "('x \<Rightarrow> socket_handle set) \<Rightarrow> 'x os_socket_ops \<Rightarrow> bool" where
  "socket_contract live ops \<longleftrightarrow>
     (\<forall>x. SOCKET_INVALID_HANDLE \<notin> live x) \<and>
     (\<forall>f. socket_open ops = Some f \<longrightarrow> (\<forall>ty h x status sock x'. f ty h x = (status, sock, x') \<longrightarrow>
        (if status = STATUS_OK then sock \<notin> live x \<and> live x' = insert sock (live x)
         else live x' = live x))) \<and>
     (\<forall>f. socket_close ops = Some f \<longrightarrow> (\<forall>h x. live (snd (f h x)) = live x - {h})) \<and>
     (\<forall>f. socket_bind ops = Some f \<longrightarrow> (\<forall>h host port. keeps_sockets live (f h host port))) \<and>
     (\<forall>f. socket_connect ops = Some f \<longrightarrow> (\<forall>h host port. keeps_sockets live (f h host port))) \<and>
     (\<forall>f. socket_set_nonblocking ops = Some f \<longrightarrow> (\<forall>h b. keeps_sockets live (f h b))) \<and>
     (\<forall>f. socket_poll ops = Some f \<longrightarrow>
        (\<forall>h ev t x. live (snd (snd (f h ev t x))) = live x)) \<and>
     (\<forall>f. socket_send ops = Some f \<longrightarrow> (\<forall>h d x. live (snd (snd (f h d x))) = live x)) \<and>
     (\<forall>f. socket_sendto ops = Some f \<longrightarrow>
        (\<forall>h d host port x. live (snd (snd (f h d host port x))) = live x)) \<and>
     (\<forall>f. socket_recv ops = Some f \<longrightarrow> (\<forall>h b x. live (snd (snd (snd (f h b x)))) = live x)) \<and>
     (\<forall>f. socket_recvfrom ops = Some f \<longrightarrow>
        (\<forall>h b host n port x. live (snd (snd (snd (f h b host n port x)))) = live x))"

abbreviation live_in :: "('x \<Rightarrow> socket_handle set) \<Rightarrow> 'x oal \<Rightarrow> socket_handle set" where
  "live_in live w \<equiv> live (ext (base w))"

lemma os_call_ext: "ext (base (snd (snd (os_call f w)))) = snd (snd (f (ext (base w))))"
  by (simp add: os_call_def split: prod.split)

lemma no_out_state [simp]: "snd (snd (no_out r)) = snd r"
  by (cases r) simp

lemma os_call_live:
  assumes "os_call f w = (status, r, w')" and "\<And>x. live (snd (snd (f x))) = live x"
  shows "live_in live w' = live_in live w"
  using os_call_ext [of f w] assms by simp

lemma close_quietly_live:
  assumes "socket_contract live ops" and "socket_close ops = Some fclose"
  shows "live_in live (close_quietly fclose sock w) = live_in live w - {sock}"
  using assms by (simp add: close_quietly_def os_call_ext socket_contract_def)

lemma create_socket_live:
  assumes c: "socket_contract live ops"
    and o: "socket_open ops = Some fopen" and k: "socket_close ops = Some fclose"
    and run: "create_socket ops fopen fclose ty w = (status, sock, w')"
  shows "if status = STATUS_OK
    then sock \<notin> live_in live w \<and> live_in live w' = insert sock (live_in live w)
    else sock = SOCKET_INVALID_HANDLE \<and> live_in live w' = live_in live w"
proof -
  obtain st1 s1 x1 where f: "fopen ty SOCKET_INVALID_HANDLE (ext (base w)) = (st1, s1, x1)"
    by (metis prod_cases3)
  let ?w1 = "w\<lparr>base := (base w)\<lparr>ext := x1\<rparr>\<rparr>"
  have call: "os_call (fopen ty SOCKET_INVALID_HANDLE) w = (st1, s1, ?w1)"
    by (simp add: os_call_def f)
  have opened: "if st1 = STATUS_OK then s1 \<notin> live_in live w \<and> live_in live ?w1 = insert s1 (live_in live w)
      else live_in live ?w1 = live_in live w"
    using c o f unfolding socket_contract_def by simp
  show ?thesis
  proof (cases "st1 = STATUS_OK")
    case False
    then show ?thesis using run opened by (simp add: create_socket_def call)
  next
    case ok: True
    show ?thesis
    proof (cases "socket_set_nonblocking ops")
      case None
      then show ?thesis using run opened ok by (simp add: create_socket_def call)
    next
      case (Some f)
      obtain st2 u w2 where g: "os_call (\<lambda>x. no_out (f s1 True x)) ?w1 = (st2, u, w2)"
        by (metis prod_cases3)
      have "live_in live w2 = live_in live ?w1"
        using os_call_live [OF g] c Some by (simp add: socket_contract_def keeps_sockets_def)
      then show ?thesis
        using run opened ok close_quietly_live [OF c k]
        by (auto simp: create_socket_def call Some g split: if_splits)
    qed
  qed
qed

lemma bind_socket_live:
  assumes c: "socket_contract live ops" and k: "socket_close ops = Some fclose"
    and run: "bind_socket ops fclose cfg sock w = (status, sock', w')"
  shows "if status = STATUS_OK then sock' = sock \<and> live_in live w' = live_in live w
    else sock' = SOCKET_INVALID_HANDLE \<and> live_in live w' = live_in live w - {sock}"
proof (cases "socket_bind ops")
  case None
  then show ?thesis using run close_quietly_live [OF c k] by (auto simp: bind_socket_def)
next
  case (Some f)
  let ?f = "\<lambda>x. no_out (f sock (if pc_host cfg \<noteq> [] then Some (pc_host cfg) else None) (pc_port cfg) x)"
  obtain st1 u w1 where g: "os_call ?f w = (st1, u, w1)" by (metis prod_cases3)
  have "live_in live w1 = live_in live w"
    using os_call_live [OF g] c Some by (simp add: socket_contract_def keeps_sockets_def)
  then show ?thesis
    using run close_quietly_live [OF c k]
    by (auto simp: bind_socket_def Some g split: if_splits)
qed

lemma wait_ready_live:
  assumes c: "socket_contract live ops" and run: "wait_ready ops sock event t w = (status, u, w')"
  shows "live_in live w' = live_in live w"
proof (cases "socket_poll ops")
  case (Some f)
  obtain st1 r w1 where g: "os_call (f sock event t) w = (st1, r, w1)" by (metis prod_cases3)
  have "live_in live w1 = live_in live w"
    using os_call_live [OF g] c Some by (simp add: socket_contract_def)
  then show ?thesis using run by (auto simp: wait_ready_def Some g split: if_splits)
qed (use run in \<open>simp add: wait_ready_def\<close>)

section \<open>Sessions\<close>

text \<open>Any send or receive on one handle.\<close>

inductive endpoint_io ::
  "(handle option \<Rightarrow> bytes option \<Rightarrow> nat \<Rightarrow> duration_ms \<Rightarrow> 'e \<Rightarrow> rte_status \<times> unit \<times> 'e) \<Rightarrow>
   (handle option \<Rightarrow> bytes option \<Rightarrow> nat \<Rightarrow> duration_ms \<Rightarrow> 'e \<Rightarrow> rte_status \<times> bytes option \<times> 'e) \<Rightarrow>
   handle \<Rightarrow> 'e \<Rightarrow> 'e \<Rightarrow> bool" for send_ep receive_ep h where
  endpoint_send: "send_ep (Some h) data n t e = (status, u, e') \<Longrightarrow>
    endpoint_io send_ep receive_ep h e e'"
| endpoint_receive: "receive_ep (Some h) buf n t e = (status, buf', e') \<Longrightarrow>
    endpoint_io send_ep receive_ep h e e'"

text \<open>
  The contract of an adapter over sockets: \<open>sock_of\<close> and \<open>table_of\<close> read its state.
\<close>

locale socket_protocol =
  fixes open_ep :: "nat option \<Rightarrow> nat \<Rightarrow> rte_protocol_config option \<Rightarrow> 'x os_socket_ops option \<Rightarrow>
      handle option option \<Rightarrow> ('x, 's) endpoints \<Rightarrow> rte_status \<times> handle option option \<times> ('x, 's) endpoints"
    and send_ep :: "handle option \<Rightarrow> bytes option \<Rightarrow> nat \<Rightarrow> duration_ms \<Rightarrow> ('x, 's) endpoints \<Rightarrow>
      rte_status \<times> unit \<times> ('x, 's) endpoints"
    and receive_ep :: "handle option \<Rightarrow> bytes option \<Rightarrow> nat \<Rightarrow> duration_ms \<Rightarrow> ('x, 's) endpoints \<Rightarrow>
      rte_status \<times> bytes option \<times> ('x, 's) endpoints"
    and close_ep :: "handle option \<Rightarrow> ('x, 's) endpoints \<Rightarrow> rte_status \<times> unit \<times> ('x, 's) endpoints"
    and sock_of :: "'s \<Rightarrow> socket_handle"
    and table_of :: "'s \<Rightarrow> 'x os_socket_ops option"
  assumes open_law: "\<lbrakk>socket_contract live ops; chosen_ops tbl w = Some ops;
      open_ep storage n cfg tbl out (m, w) = (status, out', m', w')\<rbrakk> \<Longrightarrow>
      if status = STATUS_OK
      then \<exists>st. storage = Some st \<and> out' = Some (Some st) \<and> table_of (m' st) = Some ops \<and>
        socket_close ops \<noteq> None \<and> sock_of (m' st) \<notin> live_in live w \<and>
        live_in live w' = insert (sock_of (m' st)) (live_in live w)
      else out' = out \<and> live_in live w' = live_in live w"
    and send_law: "\<lbrakk>socket_contract live ops; table_of (m h) = Some ops;
      send_ep (Some h) data n t (m, w) = (status, u, m', w')\<rbrakk> \<Longrightarrow>
      m' = m \<and> live_in live w' = live_in live w"
    and receive_law: "\<lbrakk>socket_contract live ops; table_of (m h) = Some ops;
      receive_ep (Some h) buf n t (m, w) = (status, buf', m', w')\<rbrakk> \<Longrightarrow>
      sock_of (m' h) = sock_of (m h) \<and> table_of (m' h) = table_of (m h) \<and>
      live_in live w' = live_in live w"
    and close_law: "\<lbrakk>socket_contract live ops; table_of (m h) = Some ops; socket_close ops \<noteq> None;
      close_ep (Some h) (m, w) = (status, u, m', w')\<rbrakk> \<Longrightarrow>
      status = STATUS_OK \<and> sock_of (m' h) = SOCKET_INVALID_HANDLE \<and>
      live_in live w' = live_in live w - {sock_of (m h)}"
begin

lemma io_keeps:
  assumes c: "socket_contract live ops" and t: "table_of (fst e h) = Some ops"
    and io: "endpoint_io send_ep receive_ep h e e'"
  shows "sock_of (fst e' h) = sock_of (fst e h) \<and> table_of (fst e' h) = Some ops \<and>
    live_in live (snd e') = live_in live (snd e)"
  using io
proof cases
  case (endpoint_send data n t' status u)
  then show ?thesis
    using send_law [OF c, of "fst e" h data n t' "snd e" status u "fst e'" "snd e'"] t by simp
next
  case (endpoint_receive buf n t' status buf')
  then show ?thesis
    using receive_law [OF c, of "fst e" h buf n t' "snd e" status buf' "fst e'" "snd e'"] t by simp
qed

lemma ios_keep:
  assumes c: "socket_contract live ops" and t: "table_of (fst e h) = Some ops"
    and io: "(endpoint_io send_ep receive_ep h)\<^sup>*\<^sup>* e e'"
  shows "sock_of (fst e' h) = sock_of (fst e h) \<and> table_of (fst e' h) = Some ops \<and>
    live_in live (snd e') = live_in live (snd e)"
  using io
proof (induction rule: rtranclp_induct)
  case (step e1 e2)
  then have "table_of (fst e1 h) = Some ops" by blast
  from io_keeps [OF c this step.hyps(2)] step.IH show ?case by simp
qed (use t in simp)

lemma session:
  assumes c: "socket_contract live ops" and o: "chosen_ops tbl w = Some ops"
    and run: "open_ep storage n cfg tbl out (m, w) = (STATUS_OK, out', m1, w1)"
    and io: "(endpoint_io send_ep receive_ep st)\<^sup>*\<^sup>* (m1, w1) (m2, w2)" and st: "storage = Some st"
    and fin: "close_ep (Some st) (m2, w2) = (status, u, m3, w3)"
  shows "status = STATUS_OK \<and> out' = Some storage \<and>
    live_in live w2 = insert (sock_of (m1 st)) (live_in live w) \<and> sock_of (m1 st) \<notin> live_in live w \<and>
    live_in live w3 = live_in live w"
proof -
  from open_law [OF c o run] st have opened: "out' = Some (Some st)" "table_of (m1 st) = Some ops"
    "socket_close ops \<noteq> None" "sock_of (m1 st) \<notin> live_in live w"
    "live_in live w1 = insert (sock_of (m1 st)) (live_in live w)"
    by auto
  have kept: "sock_of (m2 st) = sock_of (m1 st)" "table_of (m2 st) = Some ops"
    "live_in live w2 = live_in live w1"
    using ios_keep [OF c _ io] opened(2) by simp_all
  from close_law [OF c kept(2) opened(3) fin] kept opened st show ?thesis by auto
qed

end

lemma role_cases:
  obtains (listen) "r = ROLE_LISTEN" | (connect) "r = ROLE_CONNECT"
  | (other) "r \<noteq> ROLE_LISTEN" "r \<noteq> ROLE_CONNECT"
  by blast

lemma io_calls_keep:
  assumes c: "socket_contract live ops"
  shows "socket_send ops = Some f1 \<Longrightarrow> os_call (f1 h d) w = (st, n, w') \<Longrightarrow>
      live_in live w' = live_in live w"
    and "socket_sendto ops = Some f2 \<Longrightarrow> os_call (f2 h d host port) w = (st, n, w') \<Longrightarrow>
      live_in live w' = live_in live w"
    and "socket_recv ops = Some f3 \<Longrightarrow>
      os_call (\<lambda>x. let (st, b', k, x') = f3 h d x in (st, (b', k), x')) w = (st, r3, w') \<Longrightarrow>
      live_in live w' = live_in live w"
    and "socket_recvfrom ops = Some f4 \<Longrightarrow>
      os_call (\<lambda>x. let (st, e, k, x') = f4 h d host i port x in (st, (e, k), x')) w = (st, r4, w') \<Longrightarrow>
      live_in live w' = live_in live w"
proof -
  have k1: "live (snd (snd (f1 h d x))) = live x" if "socket_send ops = Some f1" for x
    using c that by (simp add: socket_contract_def)
  show "live_in live w' = live_in live w" if "socket_send ops = Some f1"
    and r: "os_call (f1 h d) w = (st, n, w')"
    using os_call_live [OF r] k1 [OF that(1)] by simp
  have k2: "live (snd (snd (f2 h d host port x))) = live x" if "socket_sendto ops = Some f2" for x
    using c that by (simp add: socket_contract_def)
  show "live_in live w' = live_in live w" if "socket_sendto ops = Some f2"
    and r: "os_call (f2 h d host port) w = (st, n, w')"
    using os_call_live [OF r] k2 [OF that(1)] by simp
  have k3: "live (snd (snd (snd (f3 h d x)))) = live x" if "socket_recv ops = Some f3" for x
    using c that by (simp add: socket_contract_def)
  show "live_in live w' = live_in live w" if "socket_recv ops = Some f3"
    and r: "os_call (\<lambda>x. let (st, b', k, x') = f3 h d x in (st, (b', k), x')) w = (st, r3, w')"
    using os_call_live [OF r] k3 [OF that(1)] by (simp add: split_beta)
  have k4: "live (snd (snd (snd (f4 h d host i port x)))) = live x" if "socket_recvfrom ops = Some f4" for x
    using c that by (simp add: socket_contract_def)
  show "live_in live w' = live_in live w" if "socket_recvfrom ops = Some f4"
    and r: "os_call (\<lambda>x. let (st, e, k, x') = f4 h d host i port x in (st, (e, k), x')) w = (st, r4, w')"
    using os_call_live [OF r] k4 [OF that(1)] by (simp add: split_beta)
qed

section \<open>The UDP adapter keeps the contract\<close>

lemma udp_open_law:
  assumes c: "socket_contract live ops" and o: "chosen_ops tbl w = Some ops"
    and run: "udp_adapter_open storage n cfg tbl out (m, w) = (status, out', m', w')"
  shows "if status = STATUS_OK
    then \<exists>st. storage = Some st \<and> out' = Some (Some st) \<and> us_os_sockets (m' st) = Some ops \<and>
      socket_close ops \<noteq> None \<and> us_sock (m' st) \<notin> live_in live w \<and>
      live_in live w' = insert (us_sock (m' st)) (live_in live w)
    else out' = out \<and> live_in live w' = live_in live w"
proof (cases "\<exists>st cf fopen fclose. storage = Some st \<and> cfg = Some cf \<and> out \<noteq> None \<and> n \<ge> UDP_STATE_SIZE \<and>
    socket_open ops = Some fopen \<and> socket_close ops = Some fclose")
  case False
  have "status \<noteq> STATUS_OK \<and> out' = out \<and> w' = w"
  proof (cases "\<exists>st cf q. storage = Some st \<and> cfg = Some cf \<and> out = Some q \<and> \<not> n < UDP_STATE_SIZE")
    case no: False
    then show ?thesis using run unfolding udp_adapter_open_def
      by (cases storage; cases cfg; cases out) simp_all
  next
    case True
    then obtain st cf q where a: "storage = Some st" "cfg = Some cf" "out = Some q" "\<not> n < UDP_STATE_SIZE"
      by blast
    with False have "socket_open ops = None \<or> socket_close ops = None"
      by (cases "socket_open ops"; cases "socket_close ops"; simp)
    then show ?thesis
      using run by (cases "socket_open ops") (auto simp: udp_adapter_open_def a o)
  qed
  then show ?thesis by simp
next
  case True
  then obtain st cf fopen fclose q where a: "storage = Some st" "cfg = Some cf" "out = Some q"
      "\<not> n < UDP_STATE_SIZE" "socket_open ops = Some fopen" and k: "socket_close ops = Some fclose"
    by auto
  obtain st1 sock w1 where cr: "create_socket ops fopen fclose SOCKET_TYPE_UDP w = (st1, sock, w1)"
    by (metis prod_cases3)
  note made = create_socket_live [OF c a(5) k cr]
  note def = udp_adapter_open_def
  show ?thesis
  proof (cases "st1 = STATUS_OK")
    case False
    then show ?thesis using run made by (simp add: def a k o cr)
  next
    case ok: True
    show ?thesis
    proof (cases rule: role_cases [of "pc_role cf"])
      case ROLE_LISTEN: listen
      obtain st2 sock2 w2 where b: "bind_socket ops fclose cf sock w1 = (st2, sock2, w2)"
        by (metis prod_cases3)
      have r: "status = st2" "w' = w2" "out' = (if st2 = STATUS_OK then Some (Some st) else out)"
        "us_sock (m' st) = sock2" "us_os_sockets (m' st) = Some ops"
        using run unfolding def by (auto simp: a k o cr ok ROLE_LISTEN b)
      show ?thesis
      proof (cases "st2 = STATUS_OK")
        case True
        with bind_socket_live [OF c k b] made ok have "sock2 = sock" "live_in live w2 = live_in live w1"
          "sock \<notin> live_in live w" "live_in live w1 = insert sock (live_in live w)" by simp_all
        then show ?thesis unfolding r using True a(1) k r(4,5) by simp
      next
        case False
        with bind_socket_live [OF c k b] made ok have "live_in live w2 = live_in live w1 - {sock}"
          "sock \<notin> live_in live w" "live_in live w1 = insert sock (live_in live w)" by simp_all
        then have "live_in live w2 = live_in live w" by blast
        then show ?thesis unfolding r using False by simp
      qed
    next
      case ROLE_CONNECT: connect
      show ?thesis
      proof (cases "socket_connect ops")
        case None
        have r: "status = STATUS_OK" "w' = w1" "out' = Some (Some st)"
          "us_sock (m' st) = sock" "us_os_sockets (m' st) = Some ops"
          using run unfolding def by (auto simp: a k o cr ok ROLE_CONNECT None)
        then show ?thesis using made ok a(1) k by simp
      next
        case (Some f)
        obtain st2 u w2 where g: "os_call (\<lambda>x. no_out (f sock (pc_host cf) (pc_port cf) x)) w1 = (st2, u, w2)"
          by (metis prod_cases3)
        have l: "live_in live w2 = live_in live w1"
          using os_call_live [OF g] c Some by (simp add: socket_contract_def keeps_sockets_def)
        have r: "status = STATUS_OK" "w' = w2" "out' = Some (Some st)"
          "us_sock (m' st) = sock" "us_os_sockets (m' st) = Some ops"
          using run unfolding def by (auto simp: a k o cr ok ROLE_CONNECT Some g)
        then show ?thesis using made ok l a(1) k by simp
      qed
    next
      case other
      then have r: "status = STATUS_OK" "w' = w1" "out' = Some (Some st)"
        "us_sock (m' st) = sock" "us_os_sockets (m' st) = Some ops"
        using run unfolding def by (cases "pc_role cf"; auto simp: a k o cr ok)+
      then show ?thesis using made ok a(1) k by simp
    qed
  qed
qed

lemma udp_send_law:
  assumes c: "socket_contract live ops" and o: "us_os_sockets (m h) = Some ops"
    and run: "udp_adapter_send (Some h) data n t (m, w) = (status, u, m', w')"
  shows "m' = m \<and> live_in live w' = live_in live w"
proof (cases data)
  case (Some d)
  obtain st1 u1 w1 where p: "wait_ready ops (us_sock (m h)) SOCKET_EVENT_WRITE t w = (st1, u1, w1)"
    by (metis prod_cases3)
  note waited = wait_ready_live [OF c p]
  from run Some waited show ?thesis
    by (auto simp: udp_adapter_send_def o p Let_def
        dest!: io_calls_keep(1) [OF c] io_calls_keep(2) [OF c]
        split: if_splits option.splits prod.splits bool.splits)
qed (use run in \<open>simp add: udp_adapter_send_def\<close>)

lemma udp_close_law:
  assumes c: "socket_contract live ops" and o: "us_os_sockets (m h) = Some ops"
    and k: "socket_close ops \<noteq> None"
    and run: "udp_adapter_close (Some h) (m, w) = (status, u, m', w')"
  shows "status = STATUS_OK \<and> us_sock (m' h) = SOCKET_INVALID_HANDLE \<and>
    live_in live w' = live_in live w - {us_sock (m h)}"
proof (cases "us_sock (m h) = SOCKET_INVALID_HANDLE")
  case True
  moreover have "SOCKET_INVALID_HANDLE \<notin> live_in live w" using c by (simp add: socket_contract_def)
  ultimately show ?thesis using run by (simp add: udp_adapter_close_def Let_def)
next
  case False
  obtain fclose where f: "socket_close ops = Some fclose" using k by blast
  from run False show ?thesis
    by (auto simp: udp_adapter_close_def o f Let_def close_quietly_live [OF c f])
qed

lemma udp_receive_law:
  assumes c: "socket_contract live ops" and o: "us_os_sockets (m h) = Some ops"
    and run: "udp_adapter_receive (Some h) buf n t (m, w) = (status, buf', m', w')"
  shows "us_sock (m' h) = us_sock (m h) \<and> us_os_sockets (m' h) = us_os_sockets (m h) \<and>
    live_in live w' = live_in live w"
proof (cases "buf = None \<or> n = 0 \<or> us_sock (m h) = SOCKET_INVALID_HANDLE")
  case True
  have "m' = m \<and> w' = w"
  proof (cases buf)
    case (Some b)
    show ?thesis
    proof (cases "n = 0")
      case False
      with True Some have "us_sock (m h) = SOCKET_INVALID_HANDLE" by simp
      then show ?thesis using run Some False by (simp add: udp_adapter_receive_def)
    qed (use run Some in \<open>simp add: udp_adapter_receive_def\<close>)
  qed (use run in \<open>simp add: udp_adapter_receive_def\<close>)
  then show ?thesis by simp
next
  case False
  then obtain b where b: "buf = Some b" "n \<noteq> 0" "us_sock (m h) \<noteq> SOCKET_INVALID_HANDLE" by auto
  obtain st1 u1 w1 where p: "wait_ready ops (us_sock (m h)) SOCKET_EVENT_READ t w = (st1, u1, w1)"
    by (metis prod_cases3)
  note waited = wait_ready_live [OF c p]
  note def = udp_adapter_receive_def Let_def
  consider (refused) "st1 \<noteq> STATUS_OK"
    | (recv) f where "st1 = STATUS_OK" "us_is_connected (m h)" "socket_recv ops = Some f"
    | (recvfrom) f where "st1 = STATUS_OK" "\<not> (us_is_connected (m h) \<and> socket_recv ops \<noteq> None)"
        "socket_recvfrom ops = Some f"
    | (neither) "st1 = STATUS_OK" "\<not> (us_is_connected (m h) \<and> socket_recv ops \<noteq> None)"
        "socket_recvfrom ops = None"
    by fastforce
  then show ?thesis
  proof cases
    case refused
    with run waited show ?thesis by (auto simp: def b o p)
  next
    case (recv f)
    obtain st2 b2 k2 w2 where g: "os_call (\<lambda>x. let (st, b', k, x') = f (us_sock (m h)) (take n b) x
        in (st, (b', k), x')) w1 = (st2, (b2, k2), w2)"
      by (metis prod.exhaust)
    from run waited io_calls_keep(3) [OF c recv(3) g] recv g show ?thesis by (auto simp: def b o p)
  next
    case (recvfrom f)
    obtain st2 b2 h2 p2 k2 w2 where g: "os_call (\<lambda>x. let (st, e, k, x') = f (us_sock (m h)) (take n b)
        (us_peer_host (m h)) ENDPOINT_STR_MAX (us_peer_port (m h)) x
        in (st, (e, k), x')) w1 = (st2, ((b2, h2, p2), k2), w2)"
      by (metis prod.exhaust)
    note keep = io_calls_keep(4) [OF c recvfrom(3) g]
    from run recvfrom g have "m' = m(h := (m h)\<lparr>us_peer_host := h2, us_peer_port := p2,
        us_peer_known := (st2 = STATUS_OK \<or> us_peer_known (m h))\<rparr>) \<and> w' = w2"
      by (cases "us_is_connected (m h)"; cases "socket_recv ops") (auto simp: def b o p)
    with waited keep show ?thesis by simp
  next
    case neither
    with run waited show ?thesis
      by (cases "us_is_connected (m h)"; cases "socket_recv ops") (auto simp: def b o p)
  qed
qed

section \<open>The TCP adapter keeps the contract\<close>

lemma tcp_open_law:
  assumes c: "socket_contract live ops" and o: "chosen_ops tbl w = Some ops"
    and run: "tcp_adapter_open storage n cfg tbl out (m, w) = (status, out', m', w')"
  shows "if status = STATUS_OK
    then \<exists>st. storage = Some st \<and> out' = Some (Some st) \<and> ts_os_sockets (m' st) = Some ops \<and>
      socket_close ops \<noteq> None \<and> ts_sock (m' st) \<notin> live_in live w \<and>
      live_in live w' = insert (ts_sock (m' st)) (live_in live w)
    else out' = out \<and> live_in live w' = live_in live w"
proof (cases "\<exists>st cf fopen fclose. storage = Some st \<and> cfg = Some cf \<and> out \<noteq> None \<and> n \<ge> TCP_STATE_SIZE \<and>
    socket_open ops = Some fopen \<and> socket_close ops = Some fclose")
  case False
  have "status \<noteq> STATUS_OK \<and> out' = out \<and> w' = w"
  proof (cases "\<exists>st cf q. storage = Some st \<and> cfg = Some cf \<and> out = Some q \<and> \<not> n < TCP_STATE_SIZE")
    case no: False
    then show ?thesis using run unfolding tcp_adapter_open_def
      by (cases storage; cases cfg; cases out) simp_all
  next
    case True
    then obtain st cf q where a: "storage = Some st" "cfg = Some cf" "out = Some q" "\<not> n < TCP_STATE_SIZE"
      by blast
    with False have "socket_open ops = None \<or> socket_close ops = None"
      by (cases "socket_open ops"; cases "socket_close ops"; simp)
    then show ?thesis
      using run by (cases "socket_open ops") (auto simp: tcp_adapter_open_def a o)
  qed
  then show ?thesis by simp
next
  case True
  then obtain st cf fopen fclose q where a: "storage = Some st" "cfg = Some cf" "out = Some q"
      "\<not> n < TCP_STATE_SIZE" "socket_open ops = Some fopen" and k: "socket_close ops = Some fclose"
    by auto
  obtain st1 sock w1 where cr: "create_socket ops fopen fclose SOCKET_TYPE_TCP w = (st1, sock, w1)"
    by (metis prod_cases3)
  note made = create_socket_live [OF c a(5) k cr]
  note def = tcp_adapter_open_def
  show ?thesis
  proof (cases "st1 = STATUS_OK")
    case False
    then show ?thesis using run made by (simp add: def a k o cr)
  next
    case ok: True
    show ?thesis
    proof (cases rule: role_cases [of "pc_role cf"])
      case ROLE_LISTEN: listen
      obtain st2 sock2 w2 where b: "bind_socket ops fclose cf sock w1 = (st2, sock2, w2)"
        by (metis prod_cases3)
      have r: "status = st2" "w' = w2" "out' = (if st2 = STATUS_OK then Some (Some st) else out)"
        "ts_sock (m' st) = sock2" "ts_os_sockets (m' st) = Some ops"
        using run unfolding def by (auto simp: a k o cr ok ROLE_LISTEN b)
      show ?thesis
      proof (cases "st2 = STATUS_OK")
        case True
        with bind_socket_live [OF c k b] made ok have "sock2 = sock" "live_in live w2 = live_in live w1"
          "sock \<notin> live_in live w" "live_in live w1 = insert sock (live_in live w)" by simp_all
        then show ?thesis unfolding r using True a(1) k r(4,5) by simp
      next
        case False
        with bind_socket_live [OF c k b] made ok have "live_in live w2 = live_in live w1 - {sock}"
          "sock \<notin> live_in live w" "live_in live w1 = insert sock (live_in live w)" by simp_all
        then have "live_in live w2 = live_in live w" by blast
        then show ?thesis unfolding r using False by simp
      qed
    next
      case ROLE_CONNECT: connect
      show ?thesis
      proof (cases "socket_connect ops")
        case None
        have r: "status = STATUS_NOT_SUPPORTED" "w' = close_quietly fclose sock w1" "out' = out"
          using run unfolding def by (auto simp: a k o cr ok ROLE_CONNECT None)
        moreover have "live_in live (close_quietly fclose sock w1) = live_in live w"
          using close_quietly_live [OF c k, of sock w1] made ok by auto
        ultimately show ?thesis by simp
      next
        case (Some f)
        obtain st2 u w2 where g: "os_call (\<lambda>x. no_out (f sock (pc_host cf) (pc_port cf) x)) w1 = (st2, u, w2)"
          by (metis prod_cases3)
        have l: "live_in live w2 = live_in live w1"
          using os_call_live [OF g] c Some by (simp add: socket_contract_def keeps_sockets_def)
        have r: "status = STATUS_OK" "w' = w2" "out' = Some (Some st)"
          "ts_sock (m' st) = sock" "ts_os_sockets (m' st) = Some ops"
          using run unfolding def by (auto simp: a k o cr ok ROLE_CONNECT Some g)
        then show ?thesis using made ok l a(1) k by simp
      qed
    next
      case other
      then have r: "status = STATUS_OK" "w' = w1" "out' = Some (Some st)"
        "ts_sock (m' st) = sock" "ts_os_sockets (m' st) = Some ops"
        using run unfolding def by (cases "pc_role cf"; auto simp: a k o cr ok)+
      then show ?thesis using made ok a(1) k by simp
    qed
  qed
qed

lemma tcp_send_law:
  assumes c: "socket_contract live ops" and o: "ts_os_sockets (m h) = Some ops"
    and run: "tcp_adapter_send (Some h) data n t (m, w) = (status, u, m', w')"
  shows "m' = m \<and> live_in live w' = live_in live w"
proof (cases data)
  case (Some d)
  obtain st1 u1 w1 where p: "wait_ready ops (ts_sock (m h)) SOCKET_EVENT_WRITE t w = (st1, u1, w1)"
    by (metis prod_cases3)
  note waited = wait_ready_live [OF c p]
  from run Some waited show ?thesis
    by (auto simp: tcp_adapter_send_def o p Let_def
        dest!: io_calls_keep(1) [OF c] io_calls_keep(2) [OF c]
        split: if_splits option.splits prod.splits bool.splits)
qed (use run in \<open>simp add: tcp_adapter_send_def\<close>)

lemma tcp_close_law:
  assumes c: "socket_contract live ops" and o: "ts_os_sockets (m h) = Some ops"
    and k: "socket_close ops \<noteq> None"
    and run: "tcp_adapter_close (Some h) (m, w) = (status, u, m', w')"
  shows "status = STATUS_OK \<and> ts_sock (m' h) = SOCKET_INVALID_HANDLE \<and>
    live_in live w' = live_in live w - {ts_sock (m h)}"
proof (cases "ts_sock (m h) = SOCKET_INVALID_HANDLE")
  case True
  moreover have "SOCKET_INVALID_HANDLE \<notin> live_in live w" using c by (simp add: socket_contract_def)
  ultimately show ?thesis using run by (simp add: tcp_adapter_close_def Let_def)
next
  case False
  obtain fclose where f: "socket_close ops = Some fclose" using k by blast
  from run False show ?thesis
    by (auto simp: tcp_adapter_close_def o f Let_def close_quietly_live [OF c f])
qed

lemma tcp_receive_law:
  assumes c: "socket_contract live ops" and o: "ts_os_sockets (m h) = Some ops"
    and run: "tcp_adapter_receive (Some h) buf n t (m, w) = (status, buf', m', w')"
  shows "ts_sock (m' h) = ts_sock (m h) \<and> ts_os_sockets (m' h) = ts_os_sockets (m h) \<and>
    live_in live w' = live_in live w"
proof (cases "buf = None \<or> n = 0 \<or> ts_sock (m h) = SOCKET_INVALID_HANDLE")
  case True
  have "m' = m \<and> w' = w"
  proof (cases buf)
    case (Some b)
    show ?thesis
    proof (cases "n = 0")
      case False
      with True Some have "ts_sock (m h) = SOCKET_INVALID_HANDLE" by simp
      then show ?thesis using run Some False by (simp add: tcp_adapter_receive_def)
    qed (use run Some in \<open>simp add: tcp_adapter_receive_def\<close>)
  qed (use run in \<open>simp add: tcp_adapter_receive_def\<close>)
  then show ?thesis by simp
next
  case False
  then obtain b where b: "buf = Some b" "n \<noteq> 0" "ts_sock (m h) \<noteq> SOCKET_INVALID_HANDLE" by auto
  obtain st1 u1 w1 where p: "wait_ready ops (ts_sock (m h)) SOCKET_EVENT_READ t w = (st1, u1, w1)"
    by (metis prod_cases3)
  note waited = wait_ready_live [OF c p]
  note def = tcp_adapter_receive_def Let_def
  consider (missing) "socket_recv ops = None" | (refused) f where "socket_recv ops = Some f" "st1 \<noteq> STATUS_OK"
    | (recv) f where "st1 = STATUS_OK" "socket_recv ops = Some f"
    by fastforce
  then show ?thesis
  proof cases
    case missing
    with run show ?thesis by (auto simp: def b o p)
  next
    case refused
    with run waited show ?thesis by (auto simp: def b o p)
  next
    case (recv f)
    obtain st2 b2 k2 w2 where g: "os_call (\<lambda>x. let (st, b', k, x') = f (ts_sock (m h)) (take n b) x
        in (st, (b', k), x')) w1 = (st2, (b2, k2), w2)"
      by (metis prod.exhaust)
    from run waited io_calls_keep(3) [OF c recv(2) g] recv g show ?thesis by (auto simp: def b o p)
  qed
qed


section \<open>Both adapters meet the contract\<close>

interpretation udp: socket_protocol udp_adapter_open udp_adapter_send udp_adapter_receive
    udp_adapter_close us_sock us_os_sockets
  by unfold_locales (rule udp_open_law udp_send_law udp_receive_law udp_close_law; assumption)+

interpretation tcp: socket_protocol tcp_adapter_open tcp_adapter_send tcp_adapter_receive
    tcp_adapter_close ts_sock ts_os_sockets
  by unfold_locales (rule tcp_open_law tcp_send_law tcp_receive_law tcp_close_law; assumption)+

text \<open>
  A session is balanced: an open that fails has left the sockets as they were; after an open that
  succeeds exactly one more socket is open, over any sends and receives, and the close gives that
  one back.
\<close>

definition balanced_sessions ::
  "('x \<Rightarrow> socket_handle set) \<Rightarrow> 'x os_socket_ops \<Rightarrow>
   (nat option \<Rightarrow> nat \<Rightarrow> rte_protocol_config option \<Rightarrow> 'x os_socket_ops option \<Rightarrow> handle option option \<Rightarrow>
     ('x, 's) endpoints \<Rightarrow> rte_status \<times> handle option option \<times> ('x, 's) endpoints) \<Rightarrow>
   (handle option \<Rightarrow> bytes option \<Rightarrow> nat \<Rightarrow> duration_ms \<Rightarrow> ('x, 's) endpoints \<Rightarrow>
     rte_status \<times> unit \<times> ('x, 's) endpoints) \<Rightarrow>
   (handle option \<Rightarrow> bytes option \<Rightarrow> nat \<Rightarrow> duration_ms \<Rightarrow> ('x, 's) endpoints \<Rightarrow>
     rte_status \<times> bytes option \<times> ('x, 's) endpoints) \<Rightarrow>
   (handle option \<Rightarrow> ('x, 's) endpoints \<Rightarrow> rte_status \<times> unit \<times> ('x, 's) endpoints) \<Rightarrow>
   ('s \<Rightarrow> socket_handle) \<Rightarrow> bool" where
  "balanced_sessions live ops open_ep send_ep receive_ep close_ep sock_of \<longleftrightarrow>
     (\<forall>storage n cfg tbl out m w status out' m1 w1.
        chosen_ops tbl w = Some ops \<longrightarrow>
        open_ep storage n cfg tbl out (m, w) = (status, out', m1, w1) \<longrightarrow>
        (if status \<noteq> STATUS_OK then out' = out \<and> live_in live w1 = live_in live w
         else \<exists>st. storage = Some st \<and> out' = Some (Some st) \<and> sock_of (m1 st) \<notin> live_in live w \<and>
           (\<forall>m2 w2 status' u m3 w3.
              (endpoint_io send_ep receive_ep st)\<^sup>*\<^sup>* (m1, w1) (m2, w2) \<longrightarrow>
              close_ep (Some st) (m2, w2) = (status', u, m3, w3) \<longrightarrow>
              live_in live w2 = insert (sock_of (m1 st)) (live_in live w) \<and>
              status' = STATUS_OK \<and> live_in live w3 = live_in live w)))"

context socket_protocol
begin

lemma balanced:
  assumes c: "socket_contract live ops"
  shows "balanced_sessions live ops open_ep send_ep receive_ep close_ep sock_of"
proof -
  have step: "if status \<noteq> STATUS_OK then out' = out \<and> live_in live w1 = live_in live w
      else \<exists>st. storage = Some st \<and> out' = Some (Some st) \<and> sock_of (m1 st) \<notin> live_in live w \<and>
        (\<forall>m2 w2 status' u m3 w3.
           (endpoint_io send_ep receive_ep st)\<^sup>*\<^sup>* (m1, w1) (m2, w2) \<longrightarrow>
           close_ep (Some st) (m2, w2) = (status', u, m3, w3) \<longrightarrow>
           live_in live w2 = insert (sock_of (m1 st)) (live_in live w) \<and>
           status' = STATUS_OK \<and> live_in live w3 = live_in live w)"
    if o: "chosen_ops tbl w = Some ops"
      and run: "open_ep storage n cfg tbl out (m, w) = (status, out', m1, w1)"
    for storage n cfg tbl out m w status out' m1 w1
  proof (cases "status = STATUS_OK")
    case False
    then show ?thesis using open_law [OF c o run] by simp
  next
    case True
    then obtain st where st: "storage = Some st" "out' = Some (Some st)"
      "sock_of (m1 st) \<notin> live_in live w"
      using open_law [OF c o run] by auto
    note session [OF c o run [unfolded True] _ st(1)]
    then show ?thesis using True st by simp
  qed
  then show ?thesis unfolding balanced_sessions_def by blast
qed

end

text \<open>C31.
  The raw-socket adapters leak no socket: over an OSAdapter that keeps its word about opening and
  closing, an open of the UDP or the TCP adapter that fails, for whatever reason and after however
  many calls of the socket table, has closed the socket it created and left the caller's handle
  alone; one that succeeds owns exactly one new socket, which no send or receive changes and which
  the close releases.
\<close>

theorem adapters_leak_no_socket:
  assumes "socket_contract live ops"
  shows "balanced_sessions live ops udp_adapter_open udp_adapter_send udp_adapter_receive
      udp_adapter_close us_sock \<and>
    balanced_sessions live ops tcp_adapter_open tcp_adapter_send tcp_adapter_receive
      tcp_adapter_close ts_sock"
  using udp.balanced [OF assms] tcp.balanced [OF assms] by blast

text \<open>The witness: a system that numbers its sockets, whose bind and connect always fail.\<close>

definition numbered_sockets :: "(nat \<times> nat list) os_socket_ops" where
  "numbered_sockets =
    \<lparr>socket_open = Some (\<lambda>_ _ (n, l). (STATUS_OK, int n, Suc n, n # l)),
     socket_bind = Some (\<lambda>_ _ _ x. (STATUS_INTERNAL_ERROR, x)),
     socket_connect = Some (\<lambda>_ _ _ x. (STATUS_INTERNAL_ERROR, x)),
     socket_send = None, socket_sendto = None, socket_recv = None, socket_recvfrom = None,
     socket_poll = None, socket_set_nonblocking = None,
     socket_close = Some (\<lambda>h (n, l). (STATUS_OK, n, filter (\<lambda>k. int k \<noteq> h) l))\<rparr>"

definition numbered_live :: "nat \<times> nat list \<Rightarrow> socket_handle set" where
  "numbered_live x = int ` {k \<in> set (snd x). k < fst x}"

lemma numbered_contract: "socket_contract numbered_live numbered_sockets"
  by (auto simp: socket_contract_def numbered_sockets_def numbered_live_def keeps_sockets_def
      SOCKET_INVALID_HANDLE_def)

definition some_config :: rte_protocol_config where
  "some_config = \<lparr>pc_protocol_type = PROTOCOL_RAW_UDP, pc_role = ROLE_LISTEN, pc_host = [], pc_port = 7,
     pc_topic = [], pc_domain_id = 0, pc_max_message_size = 8, pc_open_timeout_ms = 0,
     pc_default_timeout_ms = 0, pc_use_handshake = False\<rparr>"

definition idle_udp :: "(nat \<times> nat list) udp_state" where
  "idle_udp = \<lparr>us_sock = SOCKET_INVALID_HANDLE, us_os_sockets = None, us_config = some_config,
     us_is_connected = False, us_peer_known = False, us_peer_host = [], us_peer_port = 0\<rparr>"

definition refused_open where
  "refused_open = udp_adapter_open (Some 1) 256 (Some some_config) (Some numbered_sockets) (Some None)
     (\<lambda>_. idle_udp, initial_oal (3, []))"

lemma adapters_leak_no_socket_witness:
  "fst refused_open = STATUS_INTERNAL_ERROR \<and> live_in numbered_live (snd (snd (snd refused_open))) = {}"
proof -
  obtain status out' m1 w1 where run: "udp_adapter_open (Some 1) 256 (Some some_config)
      (Some numbered_sockets) (Some None) (\<lambda>_. idle_udp, initial_oal (3, [])) = (status, out', m1, w1)"
    by (metis prod_cases4)
  have failed: "status = STATUS_INTERNAL_ERROR"
    using run by (auto simp: udp_adapter_open_def chosen_ops_def numbered_sockets_def UDP_STATE_SIZE_def
        some_config_def create_socket_def os_call_def bind_socket_def close_quietly_def initial_oal_def
        initial_rte_def)
  have c: "chosen_ops (Some numbered_sockets) (initial_oal (3, [])) = Some numbered_sockets"
    by (simp add: chosen_ops_def)
  have b: "balanced_sessions numbered_live numbered_sockets udp_adapter_open udp_adapter_send
      udp_adapter_receive udp_adapter_close us_sock"
    using adapters_leak_no_socket [OF numbered_contract] by blast
  have "live_in numbered_live w1 = live_in numbered_live (initial_oal (3, []))"
    using b [unfolded balanced_sessions_def, rule_format, OF c run] failed by simp
  then show ?thesis
    unfolding refused_open_def run failed by (simp add: initial_oal_def initial_rte_def numbered_live_def)
qed

section \<open>The registry\<close>

text \<open>
  The operations of an adapter are one value of the type \<open>'p\<close>; \<open>udp\<close> and \<open>tcp\<close> are the
  tables the two functions above make, DDS has none of its own.
\<close>

record 'p protocol_registry =
  s_udp_adapter :: "'p option"
  s_tcp_adapter :: "'p option"
  s_dds_adapter :: "'p option"

definition rte_protocol_adapter_register ::
  "rte_protocol_type \<Rightarrow> 'p option \<Rightarrow> 'p protocol_registry \<Rightarrow> rte_status \<times> 'p protocol_registry" where
  "rte_protocol_adapter_register ty ops r =
    (if ops = None then (STATUS_INVALID_PARAM, r)
     else case ty of
       PROTOCOL_RAW_UDP \<Rightarrow> (STATUS_OK, r\<lparr>s_udp_adapter := ops\<rparr>)
     | PROTOCOL_RAW_TCP \<Rightarrow> (STATUS_OK, r\<lparr>s_tcp_adapter := ops\<rparr>)
     | PROTOCOL_DDS \<Rightarrow> (STATUS_OK, r\<lparr>s_dds_adapter := ops\<rparr>)
     | PROTOCOL_TYPE_OTHER _ \<Rightarrow> (STATUS_INVALID_PARAM, r))"

definition rte_protocol_adapter_get ::
  "'p \<Rightarrow> 'p \<Rightarrow> rte_protocol_type \<Rightarrow> 'p protocol_registry \<Rightarrow> 'p option" where
  "rte_protocol_adapter_get udp tcp ty r =
    (case ty of
       PROTOCOL_RAW_UDP \<Rightarrow> if s_udp_adapter r \<noteq> None then s_udp_adapter r else Some udp
     | PROTOCOL_RAW_TCP \<Rightarrow> if s_tcp_adapter r \<noteq> None then s_tcp_adapter r else Some tcp
     | PROTOCOL_DDS \<Rightarrow> s_dds_adapter r
     | PROTOCOL_TYPE_OTHER _ \<Rightarrow> None)"

lemma get_after_register:
  assumes "rte_protocol_adapter_register ty ops r = (STATUS_OK, r')"
  shows "rte_protocol_adapter_get udp tcp ty r' = ops"
    and "ty' \<noteq> ty \<Longrightarrow> rte_protocol_adapter_get udp tcp ty' r' = rte_protocol_adapter_get udp tcp ty' r"
  using assms
  by (auto simp: rte_protocol_adapter_register_def rte_protocol_adapter_get_def
      split: if_splits rte_protocol_type.splits)

end
