(* ===== verification/Safe_Ptr.thy ===== *)
theory Safe_Ptr
  imports Cast
begin

text \<open>
  The guarded pointer of \<^verbatim>\<open>src/oal/memory/rte_safe_ptr.c\<close>: a base address, the size of the
  region and a canary. Addresses are natural numbers, \<open>None\<close> is \<^verbatim>\<open>NULL\<close>; the pointer to the
  guarded pointer itself is an option too.
\<close>

record rte_safe_ptr =
  sp_ptr :: "nat option"
  sp_size :: size_t
  sp_canary :: u32

definition SAFE_PTR_CANARY :: u32 where "SAFE_PTR_CANARY = 0x5AFE9021"

definition rte_safe_ptr_init ::
  "rte_safe_ptr option \<Rightarrow> nat option \<Rightarrow> size_t \<Rightarrow> rte_status \<times> rte_safe_ptr option" where
  "rte_safe_ptr_init sp ptr region_size =
    (case sp of None \<Rightarrow> (STATUS_INVALID_PARAM, sp)
     | Some _ \<Rightarrow>
         if ptr = None \<and> region_size \<noteq> 0 then (STATUS_INVALID_PARAM, sp)
         else (STATUS_OK, Some \<lparr>sp_ptr = ptr, sp_size = region_size, sp_canary = SAFE_PTR_CANARY\<rparr>))"

definition rte_safe_ptr_is_valid :: "rte_safe_ptr option \<Rightarrow> bool" where
  "rte_safe_ptr_is_valid sp =
    (case sp of None \<Rightarrow> False
     | Some p \<Rightarrow> if sp_canary p \<noteq> SAFE_PTR_CANARY then False else sp_ptr p \<noteq> None)"

definition rte_safe_ptr_get ::
  "rte_safe_ptr option \<Rightarrow> nat option option \<Rightarrow> 'x rte \<Rightarrow> rte_status \<times> nat option option \<times> 'x rte" where
  "rte_safe_ptr_get sp out_ptr s =
    (case (sp, out_ptr) of
       (Some p, Some _) \<Rightarrow>
         if sp_canary p \<noteq> SAFE_PTR_CANARY
         then (STATUS_DATA_CORRUPTION, out_ptr,
           rte_safety_violation_report VIOLATION_CORRUPTION (Some ''rte_safe_ptr_get: canary mismatch'') s)
         else if sp_ptr p = None then (STATUS_INVALID_PARAM, out_ptr, s)
         else (STATUS_OK, Some (sp_ptr p), s)
     | _ \<Rightarrow> (STATUS_INVALID_PARAM, out_ptr, s))"

text \<open>\<open>end_before\<close> is the local variable before the checked addition writes it.\<close>

definition rte_safe_ptr_offset ::
  "size_t \<Rightarrow> rte_safe_ptr option \<Rightarrow> size_t \<Rightarrow> size_t \<Rightarrow> nat option option \<Rightarrow> 'x rte \<Rightarrow>
    rte_status \<times> nat option option \<times> 'x rte" where
  "rte_safe_ptr_offset end_before sp offset len out_ptr s =
    (case (sp, out_ptr) of
       (Some p, Some _) \<Rightarrow>
         if sp_canary p \<noteq> SAFE_PTR_CANARY
         then (STATUS_DATA_CORRUPTION, out_ptr,
           rte_safety_violation_report VIOLATION_CORRUPTION
             (Some ''rte_safe_ptr_offset: canary mismatch'') s)
         else (case sp_ptr p of None \<Rightarrow> (STATUS_INVALID_PARAM, out_ptr, s)
           | Some base_ptr \<Rightarrow>
               let (status, end_after, s1) = rte_cast_checked_add_size offset len (Some end_before) s
               in if status \<noteq> STATUS_OK
                  then (STATUS_VALUE_OUT_OF_RANGE, out_ptr,
                    rte_safety_violation_report VIOLATION_OUT_OF_RANGE
                      (Some ''rte_safe_ptr_offset: offset + length overflowed size_t'') s1)
                  else if the end_after > sp_size p
                  then (STATUS_VALUE_OUT_OF_RANGE, out_ptr,
                    rte_safety_violation_report VIOLATION_OUT_OF_RANGE
                      (Some ''rte_safe_ptr_offset: offset + length exceeds wrapped region size'') s1)
                  else (STATUS_OK, Some (Some (base_ptr + unat offset)), s1))
     | _ \<Rightarrow> (STATUS_INVALID_PARAM, out_ptr, s))"

definition rte_safe_ptr_invalidate :: "rte_safe_ptr option \<Rightarrow> rte_safe_ptr option" where
  "rte_safe_ptr_invalidate sp =
    (case sp of None \<Rightarrow> None
     | Some _ \<Rightarrow> Some \<lparr>sp_ptr = None, sp_size = 0, sp_canary = 0\<rparr>)"

section \<open>Access\<close>

lemma invalidated_not_valid [simp]: "\<not> rte_safe_ptr_is_valid (rte_safe_ptr_invalidate sp)"
  by (simp add: rte_safe_ptr_is_valid_def rte_safe_ptr_invalidate_def SAFE_PTR_CANARY_def split: option.split)

lemma get_ok_iff_valid:
  "fst (rte_safe_ptr_get sp (Some q) s) = STATUS_OK \<longleftrightarrow> rte_safe_ptr_is_valid sp"
  by (simp add: rte_safe_ptr_get_def rte_safe_ptr_is_valid_def split: option.split)

lemma init_valid:
  assumes "rte_safe_ptr_init sp ptr region_size = (STATUS_OK, sp')"
  shows "rte_safe_ptr_is_valid sp' = (ptr \<noteq> None)"
  using assms by (auto simp: rte_safe_ptr_init_def rte_safe_ptr_is_valid_def split: option.splits if_splits)

lemma no_wrap: "\<not> b > - 1 - a \<longleftrightarrow> unat a + unat b < 2 ^ 64" for a b :: size_t
proof -
  have "unat (- 1 - a) = 2 ^ 64 - 1 - unat a"
    by (simp add: unat_sub unsigned_minus_1_eq_mask mask_eq_exp_minus_1)
  then show ?thesis using unsigned_less [of a, where 'a = nat] by (simp add: word_less_nat_alt not_less) arith
qed

lemma offset_unfold:
  "rte_safe_ptr_offset e (Some p) offset len (Some q) s =
    (if sp_canary p \<noteq> SAFE_PTR_CANARY
     then (STATUS_DATA_CORRUPTION, Some q,
       rte_safety_violation_report VIOLATION_CORRUPTION (Some ''rte_safe_ptr_offset: canary mismatch'') s)
     else case sp_ptr p of None \<Rightarrow> (STATUS_INVALID_PARAM, Some q, s)
       | Some a \<Rightarrow>
           if unat offset + unat len \<ge> 2 ^ 64
           then (STATUS_VALUE_OUT_OF_RANGE, Some q,
             rte_safety_violation_report VIOLATION_OUT_OF_RANGE
               (Some ''rte_safe_ptr_offset: offset + length overflowed size_t'')
               (rte_safety_violation_report VIOLATION_OVERFLOW
                 (Some ''rte_cast_checked_add_size: addition overflowed size_t'') s))
           else if unat offset + unat len > unat (sp_size p)
           then (STATUS_VALUE_OUT_OF_RANGE, Some q,
             rte_safety_violation_report VIOLATION_OUT_OF_RANGE
               (Some ''rte_safe_ptr_offset: offset + length exceeds wrapped region size'') s)
           else (STATUS_OK, Some (Some (a + unat offset)), s))"
proof (cases "unat offset + unat len < 2 ^ 64")
  case True
  then have "unat (offset + len) = unat offset + unat len" by (simp add: unat_word_ariths)
  moreover have "\<not> len > - 1 - offset" using True no_wrap by blast
  ultimately show ?thesis using True
    by (simp add: rte_safe_ptr_offset_def rte_cast_checked_add_size_def word_less_nat_alt
        split: option.split)
next
  case False
  then have "len > - 1 - offset" using no_wrap by blast
  then show ?thesis using False
    by (simp add: rte_safe_ptr_offset_def rte_cast_checked_add_size_def split: option.split)
qed

text \<open>A guarded pointer never reaches outside its region: the offset operation hands out an address
  exactly when the canary is intact, the pointer is set and all the bytes of the
  range lie inside the region, with the sum taken over the natural numbers, so that no
  wrap-around of the size type lets a range through; the address is then the base plus the offset. In
  every other case the out pointer is untouched, and both a damaged canary and a range that does
  not fit are reported to the violation handler.
\<close>

theorem safe_ptr_stays_inside:
  assumes "rte_safe_ptr_offset e (Some p) offset len (Some q) s = (status, out', s')"
  shows "(status = STATUS_OK \<longleftrightarrow>
      sp_canary p = SAFE_PTR_CANARY \<and> sp_ptr p \<noteq> None \<and> unat offset + unat len \<le> unat (sp_size p)) \<and>
    out' = (if status = STATUS_OK then Some (Some (the (sp_ptr p) + unat offset)) else Some q) \<and>
    (if status = STATUS_OK \<or> status = STATUS_INVALID_PARAM then s' = s
     else \<exists>text s1. s' = rte_safety_violation_report
       (if sp_canary p = SAFE_PTR_CANARY then VIOLATION_OUT_OF_RANGE else VIOLATION_CORRUPTION) text s1)"
proof -
  have b: "unat (sp_size p) < 2 ^ 64" using unsigned_less [of "sp_size p", where 'a = nat] by simp
  show ?thesis
  proof (cases "sp_canary p = SAFE_PTR_CANARY \<and> sp_ptr p \<noteq> None")
    case False
    then show ?thesis using assms unfolding offset_unfold
      by (cases "sp_canary p = SAFE_PTR_CANARY") auto
  next
    case True
    then obtain a where a: "sp_canary p = SAFE_PTR_CANARY" "sp_ptr p = Some a" by blast
    then show ?thesis using assms b unfolding offset_unfold
      by (auto split: if_splits)
  qed
qed

text \<open>
  The witness: a region of 16 bytes at address 4096 and an offset of two to the 64 minus four; with
  a length of eight the sum wraps to four, and the range is refused.
\<close>

definition sixteen_bytes :: rte_safe_ptr where
  "sixteen_bytes = \<lparr>sp_ptr = Some 4096, sp_size = 16, sp_canary = SAFE_PTR_CANARY\<rparr>"

lemma safe_ptr_stays_inside_witness:
  "fst (rte_safe_ptr_offset 0 (Some sixteen_bytes) (- 4) 8 (Some None) (initial_rte ())) \<noteq> STATUS_OK \<and>
   fst (snd (rte_safe_ptr_offset 0 (Some sixteen_bytes) 12 4 (Some None) (initial_rte ()))) = Some (Some 4108)"
proof -
  let ?far = "rte_safe_ptr_offset 0 (Some sixteen_bytes) (- 4) 8 (Some None) (initial_rte ())"
  let ?near = "rte_safe_ptr_offset 0 (Some sixteen_bytes) 12 4 (Some None) (initial_rte ())"
  obtain a b c a' b' c' where r: "?far = (a, b, c)" "?near = (a', b', c')" by (metis prod_cases3)
  have "unat (- 4 :: size_t) = 18446744073709551612" by simp
  then show ?thesis
    using safe_ptr_stays_inside [OF r(1)] safe_ptr_stays_inside [OF r(2)] r
    by (simp add: sixteen_bytes_def)
qed

end
