(* ===== verification/Channel_Service.thy ===== *)
theory Channel_Service
  imports Oal_Dispatch Redundancy_Config
begin

text \<open>
  The named channel service, \<^verbatim>\<open>src/redundancy/channel_service/rte_channel_service.c\<close>, and the
  OSAdapter for it that stands on flows, \<^verbatim>\<open>rte_channel_service_flow_osadapter.c\<close>: a channel is
  set up by its name in the active configuration, and its flow is opened by the first read or send.

  A storage object is an address; a memory maps addresses to the adapter's view of them. The flow
  storage is the first field of that view, so it has the same address; its bytes belong to the flow
  OSAdapter and are not part of the record.
\<close>

section \<open>State\<close>

definition CHANNEL_SERVICE_NAME_SIZE :: nat where "CHANNEL_SERVICE_NAME_SIZE = 32"

record flow_channel_state =
  fs_flow_handle :: "handle option"
  fs_oflags :: u32
  fs_message_size :: nat
  fs_name_buf :: string
  fs_default_timeout_ms :: duration_ms
  fs_resolved :: bool
  fs_opened :: bool

text \<open>A resolver with its context: it is handed the configuration as it is and returns it written.\<close>

type_synonym 'x resolve_fn =
  "string \<Rightarrow> rte_netlink_config \<Rightarrow> 'x \<Rightarrow> rte_status \<times> rte_netlink_config \<times> 'x"

record 'x flow_world =
  fw_oal :: "'x oal"
  fw_config :: redundancy_config_state
  fw_mem :: "nat \<Rightarrow> flow_channel_state"
  fw_resolver :: "'x resolve_fn option"

record 'x osadapter_channel_service =
  csv_setup :: "(nat option \<Rightarrow> string option \<Rightarrow> 'x flow_world \<Rightarrow> rte_status \<times> 'x flow_world) option"
  csv_read :: "(nat option \<Rightarrow> bytes option \<Rightarrow> nat \<Rightarrow> duration_ms \<Rightarrow> 'x flow_world \<Rightarrow>
    rte_status \<times> bytes option \<times> 'x flow_world) option"
  csv_send :: "(nat option \<Rightarrow> bytes option \<Rightarrow> nat \<Rightarrow> duration_ms \<Rightarrow> 'x flow_world \<Rightarrow>
    rte_status \<times> 'x flow_world) option"
  csv_close :: "(nat option \<Rightarrow> 'x flow_world \<Rightarrow> rte_status \<times> 'x flow_world) option"
  csv_read_ex :: "(nat option \<Rightarrow> bytes option \<Rightarrow> nat \<Rightarrow> duration_ms \<Rightarrow> nat option \<Rightarrow> 'x flow_world \<Rightarrow>
    rte_status \<times> bytes option \<times> nat option \<times> 'x flow_world) option"

record 'x channel_service =
  cs_world :: "'x flow_world"
  cs_osadapter :: "'x osadapter_channel_service option"

text \<open>All bytes 0.\<close>

definition zero_flow_channel :: flow_channel_state where
  "zero_flow_channel = \<lparr>fs_flow_handle = None, fs_oflags = 0, fs_message_size = 0, fs_name_buf = [],
     fs_default_timeout_ms = 0, fs_resolved = False, fs_opened = False\<rparr>"

definition zero_netlink_config :: rte_netlink_config where
  "zero_netlink_config = \<lparr>nc_role = NETLINK_LISTEN, nc_host = None, nc_port = 0, nc_message_size = 0,
     nc_connect_timeout_ms = 0, nc_rcvbuf_bytes = 0, nc_sndbuf_bytes = 0\<rparr>"

section \<open>The service\<close>

definition complete_osadapter :: "'x osadapter_channel_service \<Rightarrow> bool" where
  "complete_osadapter a \<longleftrightarrow> csv_setup a \<noteq> None \<and> csv_read a \<noteq> None \<and> csv_send a \<noteq> None \<and> csv_close a \<noteq> None"

definition validate_osadapter :: "'x channel_service \<Rightarrow> rte_status" where
  "validate_osadapter s =
    (case cs_osadapter s of None \<Rightarrow> STATUS_NOT_INITIALIZED
     | Some a \<Rightarrow> if complete_osadapter a then STATUS_OK else STATUS_NOT_INITIALIZED)"

definition rte_osadapter_channel_service_register ::
  "'x osadapter_channel_service option \<Rightarrow> 'x channel_service \<Rightarrow> rte_status \<times> 'x channel_service" where
  "rte_osadapter_channel_service_register osadapter s =
    (case osadapter of None \<Rightarrow> (STATUS_INVALID_PARAM, s)
     | Some a \<Rightarrow>
         if complete_osadapter a then (STATUS_OK, s\<lparr>cs_osadapter := Some a\<rparr>)
         else (STATUS_INVALID_PARAM, s))"

text \<open>The entries of a validated OSAdapter; \<open>validate_osadapter\<close> has checked that they are there.\<close>

definition entry :: "('x osadapter_channel_service \<Rightarrow> 'f option) \<Rightarrow> 'x channel_service \<Rightarrow> 'f" where
  "entry f s = the (f (the (cs_osadapter s)))"

definition rte_channel_service_setup ::
  "nat option \<Rightarrow> string option \<Rightarrow> 'x channel_service \<Rightarrow> rte_status \<times> 'x channel_service" where
  "rte_channel_service_setup storage channel_name s =
    (if storage = None \<or> channel_name = None then (STATUS_INVALID_PARAM, s)
     else
       let (lifecycle_status, b) = rte_lifecycle_check_setup_allowed (base (fw_oal (cs_world s)));
           s1 = s\<lparr>cs_world := (cs_world s)\<lparr>fw_oal := (fw_oal (cs_world s))\<lparr>base := b\<rparr>\<rparr>\<rparr>
       in if lifecycle_status \<noteq> STATUS_OK then (lifecycle_status, s1)
          else if validate_osadapter s1 \<noteq> STATUS_OK then (validate_osadapter s1, s1)
          else let (status, w) = entry csv_setup s1 storage channel_name (cs_world s1)
               in (status, s1\<lparr>cs_world := w\<rparr>))"

definition rte_channel_service_setup_by_id ::
  "nat option \<Rightarrow> u32 \<Rightarrow> 'x channel_service \<Rightarrow> rte_status \<times> 'x channel_service" where
  "rte_channel_service_setup_by_id storage channel_id s =
    (let active = rte_redundancy_config_get_active (fw_config (cs_world s)) in
     if storage = None then (STATUS_INVALID_PARAM, s)
     else if active = None then (STATUS_NOT_INITIALIZED, s)
     else let (status, def) = rte_redundancy_config_find_channel_by_id active channel_id
                (Some zero_channel_def)
          in if status \<noteq> STATUS_OK then (status, s)
             else rte_channel_service_setup storage (map_option cd_name def) s)"

definition rte_channel_service_read ::
  "nat option \<Rightarrow> bytes option \<Rightarrow> nat \<Rightarrow> duration_ms \<Rightarrow> 'x channel_service \<Rightarrow>
    rte_status \<times> bytes option \<times> 'x channel_service" where
  "rte_channel_service_read storage data data_size timeout_ms s =
    (if storage = None \<or> data = None \<or> data_size = 0 then (STATUS_INVALID_PARAM, data, s)
     else if validate_osadapter s \<noteq> STATUS_OK then (validate_osadapter s, data, s)
     else let (status, data', w) = entry csv_read s storage data data_size timeout_ms (cs_world s)
          in (status, data', s\<lparr>cs_world := w\<rparr>))"

definition rte_channel_service_read_ex ::
  "nat option \<Rightarrow> bytes option \<Rightarrow> nat \<Rightarrow> duration_ms \<Rightarrow> nat option \<Rightarrow> 'x channel_service \<Rightarrow>
    rte_status \<times> bytes option \<times> nat option \<times> 'x channel_service" where
  "rte_channel_service_read_ex storage data data_size timeout_ms out_actual_size s =
    (if storage = None \<or> data = None \<or> data_size = 0 \<or> out_actual_size = None
     then (STATUS_INVALID_PARAM, data, out_actual_size, s)
     else if validate_osadapter s \<noteq> STATUS_OK then (validate_osadapter s, data, out_actual_size, s)
     else case csv_read_ex (the (cs_osadapter s)) of
       Some f \<Rightarrow>
         let (status, data', n, w) = f storage data data_size timeout_ms out_actual_size (cs_world s)
         in (status, data', n, s\<lparr>cs_world := w\<rparr>)
     | None \<Rightarrow>
         let (status, data', w) = entry csv_read s storage data data_size timeout_ms (cs_world s)
         in (status, data', if status = STATUS_OK then Some data_size else out_actual_size,
             s\<lparr>cs_world := w\<rparr>))"

definition rte_channel_service_send ::
  "nat option \<Rightarrow> bytes option \<Rightarrow> nat \<Rightarrow> duration_ms \<Rightarrow> 'x channel_service \<Rightarrow>
    rte_status \<times> 'x channel_service" where
  "rte_channel_service_send storage data data_size timeout_ms s =
    (if storage = None \<or> data = None \<or> data_size = 0 then (STATUS_INVALID_PARAM, s)
     else if validate_osadapter s \<noteq> STATUS_OK then (validate_osadapter s, s)
     else let (status, w) = entry csv_send s storage data data_size timeout_ms (cs_world s)
          in (status, s\<lparr>cs_world := w\<rparr>))"

definition rte_channel_service_close :: "nat option \<Rightarrow> 'x channel_service \<Rightarrow> rte_status \<times> 'x channel_service" where
  "rte_channel_service_close storage s =
    (if storage = None then (STATUS_OK, s)
     else if validate_osadapter s \<noteq> STATUS_OK then (validate_osadapter s, s)
     else let (status, w) = entry csv_close s storage (cs_world s) in (status, s\<lparr>cs_world := w\<rparr>))"

section \<open>The OSAdapter over flows\<close>

definition oflags_for_role :: "rte_netlink_role \<Rightarrow> u32" where
  "oflags_for_role role = (if role = NETLINK_CONNECT then FLOW_O_PUBLISHER else FLOW_O_SUBSCRIBER)"

text \<open>The configuration found by name, as the link configuration the resolver would give.\<close>

definition link_config_of :: "rte_channel_def \<Rightarrow> rte_netlink_config" where
  "link_config_of def =
    \<lparr>nc_role = (if cd_role def = CHANNEL_CONNECT then NETLINK_CONNECT else NETLINK_LISTEN),
     nc_host = (if cd_host def \<noteq> [] then Some (cd_host def) else None), nc_port = cd_port def,
     nc_message_size = unat (cd_message_size def), nc_connect_timeout_ms = cd_connect_timeout_ms def,
     nc_rcvbuf_bytes = cd_rcvbuf_bytes def, nc_sndbuf_bytes = cd_sndbuf_bytes def\<rparr>"

definition resolve_channel ::
  "string \<Rightarrow> 'x flow_world \<Rightarrow> rte_status \<times> rte_netlink_config \<times> 'x flow_world" where
  "resolve_channel channel_name w =
    (case fw_resolver w of
       Some f \<Rightarrow>
         let (status, resolved, x) = f channel_name zero_netlink_config (ext (base (fw_oal w)))
         in (status, resolved,
             w\<lparr>fw_oal := (fw_oal w)\<lparr>base := (base (fw_oal w))\<lparr>ext := x\<rparr>\<rparr>\<rparr>)
     | None \<Rightarrow>
         let active = rte_redundancy_config_get_active (fw_config w) in
         if active = None then (STATUS_NOT_INITIALIZED, zero_netlink_config, w)
         else let (status, def) = rte_redundancy_config_find_channel_by_name active (Some channel_name)
                    (Some zero_channel_def)
              in if status \<noteq> STATUS_OK then (status, zero_netlink_config, w)
                 else (STATUS_OK, link_config_of (the def), w))"

definition osadapter_setup ::
  "nat option \<Rightarrow> string option \<Rightarrow> 'x flow_world \<Rightarrow> rte_status \<times> 'x flow_world" where
  "osadapter_setup storage channel_name w =
    (case (storage, channel_name) of
       (Some st, Some nm) \<Rightarrow>
         let w1 = w\<lparr>fw_mem := (fw_mem w)(st := zero_flow_channel)\<rparr>;
             (status, resolved, w2) = resolve_channel nm w1
         in if status \<noteq> STATUS_OK then (status, w2)
            else (STATUS_OK, w2\<lparr>fw_mem := (fw_mem w2)(st := (fw_mem w2 st)\<lparr>
                    fs_name_buf := take (CHANNEL_SERVICE_NAME_SIZE - 1) nm,
                    fs_oflags := oflags_for_role (nc_role resolved),
                    fs_message_size := nc_message_size resolved,
                    fs_default_timeout_ms := nc_connect_timeout_ms resolved,
                    fs_resolved := True, fs_opened := False\<rparr>)\<rparr>)
     | _ \<Rightarrow> (STATUS_INVALID_PARAM, w))"

text \<open>The configuration the deferred open builds from the channel's state.\<close>

definition flow_config_of :: "flow_channel_state \<Rightarrow> duration_ms \<Rightarrow> rte_flow_config" where
  "flow_config_of state open_timeout_ms =
    \<lparr>fc_name = Some (fs_name_buf state), fc_oflags = fs_oflags state,
     fc_message_size = fs_message_size state,
     fc_open_timeout_ms = (if open_timeout_ms > 0 then open_timeout_ms else fs_default_timeout_ms state)\<rparr>"

definition ensure_open :: "nat \<Rightarrow> duration_ms \<Rightarrow> 'x flow_world \<Rightarrow> rte_status \<times> 'x flow_world" where
  "ensure_open st open_timeout_ms w =
    (let state = fw_mem w st in
     if fs_opened state then (STATUS_OK, w)
     else let (status, h, o') = rte_flow_open (Some st) (Some (flow_config_of state open_timeout_ms))
                (Some (fs_flow_handle state)) (fw_oal w);
              state1 = state\<lparr>fs_flow_handle := the h\<rparr>
          in (status, w\<lparr>fw_oal := o',
                fw_mem := (fw_mem w)(st := if status = STATUS_OK then state1\<lparr>fs_opened := True\<rparr> else state1)\<rparr>))"

definition osadapter_read ::
  "nat option \<Rightarrow> bytes option \<Rightarrow> nat \<Rightarrow> duration_ms \<Rightarrow> 'x flow_world \<Rightarrow>
    rte_status \<times> bytes option \<times> 'x flow_world" where
  "osadapter_read storage data data_size timeout_ms w =
    (case (storage, data) of
       (Some st, Some _) \<Rightarrow>
         if data_size = 0 then (STATUS_INVALID_PARAM, data, w)
         else if \<not> fs_resolved (fw_mem w st) then (STATUS_NOT_INITIALIZED, data, w)
         else let (status, w1) = ensure_open st timeout_ms w
              in if status \<noteq> STATUS_OK then (status, data, w1)
                 else let (status, (data', _), o') = rte_flow_receive (fs_flow_handle (fw_mem w1 st)) data
                            data_size None timeout_ms (fw_oal w1)
                      in (status, data', w1\<lparr>fw_oal := o'\<rparr>)
     | _ \<Rightarrow> (STATUS_INVALID_PARAM, data, w))"

definition backend_send ::
  "nat option \<Rightarrow> bytes option \<Rightarrow> nat \<Rightarrow> duration_ms \<Rightarrow> 'x flow_world \<Rightarrow> rte_status \<times> 'x flow_world" where
  "backend_send storage data data_size timeout_ms w =
    (case (storage, data) of
       (Some st, Some _) \<Rightarrow>
         if data_size = 0 then (STATUS_INVALID_PARAM, w)
         else if \<not> fs_resolved (fw_mem w st) then (STATUS_NOT_INITIALIZED, w)
         else let (status, w1) = ensure_open st timeout_ms w
              in if status \<noteq> STATUS_OK then (status, w1)
                 else let (status, _, o') = rte_flow_send (fs_flow_handle (fw_mem w1 st)) data
                            data_size FLOW_CHANNEL_USER timeout_ms (fw_oal w1)
                      in (status, w1\<lparr>fw_oal := o'\<rparr>)
     | _ \<Rightarrow> (STATUS_INVALID_PARAM, w))"

definition osadapter_close :: "nat option \<Rightarrow> 'x flow_world \<Rightarrow> rte_status \<times> 'x flow_world" where
  "osadapter_close storage w =
    (case storage of None \<Rightarrow> (STATUS_INVALID_PARAM, w)
     | Some st \<Rightarrow>
         let state = fw_mem w st in
         if \<not> fs_opened state
         then (STATUS_OK, w\<lparr>fw_mem := (fw_mem w)(st := state\<lparr>fs_resolved := False\<rparr>)\<rparr>)
         else let (status, _, o') = rte_flow_close (fs_flow_handle state) (fw_oal w)
              in (status, w\<lparr>fw_oal := o',
                    fw_mem := (fw_mem w)(st := state\<lparr>fs_opened := False, fs_resolved := False\<rparr>)\<rparr>))"

definition g_flow_osadapter :: "'x osadapter_channel_service" where
  "g_flow_osadapter = \<lparr>csv_setup = Some osadapter_setup, csv_read = Some osadapter_read,
     csv_send = Some backend_send, csv_close = Some osadapter_close, csv_read_ex = None\<rparr>"

definition rte_channel_service_flow_osadapter_register_resolver ::
  "'x resolve_fn option \<Rightarrow> 'x channel_service \<Rightarrow> rte_status \<times> 'x channel_service" where
  "rte_channel_service_flow_osadapter_register_resolver resolver s =
    (case resolver of None \<Rightarrow> (STATUS_INVALID_PARAM, s)
     | Some f \<Rightarrow> rte_osadapter_channel_service_register (Some g_flow_osadapter)
         (s\<lparr>cs_world := (cs_world s)\<lparr>fw_resolver := Some f\<rparr>\<rparr>))"

definition rte_channel_service_flow_osadapter :: "'x osadapter_channel_service" where
  "rte_channel_service_flow_osadapter = g_flow_osadapter"

section \<open>The channel an identifier names\<close>

lemma find_of_distinct:
  assumes "distinct (map f xs)" and "d \<in> set xs"
  shows "List.find (\<lambda>y. f y = f d) xs = Some d"
  using assms by (induction xs) force+

lemma find_member: "List.find P xs = Some d \<Longrightarrow> d \<in> set xs"
  by (auto simp: find_Some_iff)

text \<open>What the flow OSAdapter leaves in the storage after a set-up with the definition \<open>d\<close>.\<close>

definition ready_channel :: "rte_channel_def \<Rightarrow> flow_channel_state" where
  "ready_channel d = \<lparr>fs_flow_handle = None,
     fs_oflags = (if cd_role d = CHANNEL_CONNECT then FLOW_O_PUBLISHER else FLOW_O_SUBSCRIBER),
     fs_message_size = unat (cd_message_size d), fs_name_buf = cd_name d,
     fs_default_timeout_ms = cd_connect_timeout_ms d, fs_resolved = True, fs_opened = False\<rparr>"

lemma ready_channel_state [simp]:
  "fs_flow_handle (ready_channel d) = None" "fs_resolved (ready_channel d)" "\<not> fs_opened (ready_channel d)"
  by (simp_all add: ready_channel_def)

lemma osadapter_setup_found:
  assumes "fw_resolver w = None"
    and "rte_redundancy_config_get_active (fw_config w) = Some c"
    and "rte_redundancy_config_find_channel_by_name (Some c) (Some nm) (Some zero_channel_def) =
      (STATUS_OK, Some d)"
    and "length nm < CHANNEL_SERVICE_NAME_SIZE" and "cd_name d = nm"
  shows "osadapter_setup (Some st) (Some nm) w =
    (STATUS_OK, w\<lparr>fw_mem := (fw_mem w)(st := ready_channel d)\<rparr>)"
  using assms
  by (simp add: osadapter_setup_def resolve_channel_def Let_def link_config_of_def ready_channel_def
      zero_flow_channel_def oflags_for_role_def)

lemma setup_unlocked:
  assumes "\<not> g_setup_locked (base (fw_oal (cs_world s)))"
    and "cs_osadapter s = Some g_flow_osadapter"
    and "osadapter_setup (Some st) (Some nm) (cs_world s) = (status, w)"
  shows "rte_channel_service_setup (Some st) (Some nm) s = (status, s\<lparr>cs_world := w\<rparr>)"
  using assms
  by (simp add: rte_channel_service_setup_def rte_lifecycle_check_setup_allowed_def Let_def
      validate_osadapter_def complete_osadapter_def entry_def g_flow_osadapter_def)

text \<open>C32.
  The channel an identifier names is the one that is reached: with channel names that differ, a
  set-up by identifier over the flow OSAdapter succeeds, changes nothing but the storage and leaves
  there the name, role, message size and timeout of the definition with that identifier; the first
  send then opens the flow of that name, as publisher for a connecting channel and as subscriber
  for a listening one, with the caller's timeout or, for 0, the configured one, and sends the
  message on its user channel only when the flow has opened.
\<close>

theorem channel_of_identifier:
  assumes active: "rte_redundancy_config_get_active (fw_config (cs_world s)) = Some c"
    and names: "distinct (map (\<lambda>y. take CHANNEL_CONFIG_MAX_NAME_LEN (cd_name y)) (rc_channels c))"
    and found: "List.find (\<lambda>y. cd_id y = ident) (rc_channels c) = Some d"
    and name_fits: "length (cd_name d) < CHANNEL_SERVICE_NAME_SIZE"
    and unlocked: "\<not> g_setup_locked (base (fw_oal (cs_world s)))"
    and flows: "cs_osadapter s = Some g_flow_osadapter" "fw_resolver (cs_world s) = None"
    and run: "rte_channel_service_setup_by_id (Some st) ident s = (status, s1)"
    and send: "rte_channel_service_send (Some st) (Some data) (Suc n) t s1 = (status', s2)"
  shows "status = STATUS_OK \<and>
    s1 = s\<lparr>cs_world := (cs_world s)\<lparr>fw_mem := (fw_mem (cs_world s))(st := ready_channel d)\<rparr>\<rparr> \<and>
    (let cfg = \<lparr>fc_name = Some (cd_name d), fc_oflags = fs_oflags (ready_channel d),
           fc_message_size = unat (cd_message_size d),
           fc_open_timeout_ms = (if t > 0 then t else cd_connect_timeout_ms d)\<rparr>;
         (opened, h, o1) = rte_flow_open (Some st) (Some cfg) (Some None) (fw_oal (cs_world s))
     in if opened = STATUS_OK
        then rte_flow_send (the h) (Some data) (Suc n) FLOW_CHANNEL_USER t o1 =
          (status', (), fw_oal (cs_world s2))
        else status' = opened \<and> fw_oal (cs_world s2) = o1)"
proof -
  let ?w = "(cs_world s)\<lparr>fw_mem := (fw_mem (cs_world s))(st := ready_channel d)\<rparr>"
  have by_id: "rte_redundancy_config_find_channel_by_id (Some c) ident (Some zero_channel_def) =
      (STATUS_OK, Some d)"
    using found by (simp add: rte_redundancy_config_find_channel_by_id_def)
  have by_name: "rte_redundancy_config_find_channel_by_name (Some c) (Some (cd_name d))
      (Some zero_channel_def) = (STATUS_OK, Some d)"
    using find_of_distinct [OF names find_member [OF found]]
    by (simp add: rte_redundancy_config_find_channel_by_name_def)
  have ready: "rte_channel_service_setup (Some st) (Some (cd_name d)) s = (STATUS_OK, s\<lparr>cs_world := ?w\<rparr>)"
    by (rule setup_unlocked [OF unlocked flows(1)])
      (rule osadapter_setup_found [OF flows(2) active by_name name_fits refl])
  have s1: "status = STATUS_OK" "s1 = s\<lparr>cs_world := ?w\<rparr>"
    using run active by_id ready by (simp_all add: rte_channel_service_setup_by_id_def)
  let ?cfg = "\<lparr>fc_name = Some (cd_name d), fc_oflags = fs_oflags (ready_channel d),
    fc_message_size = unat (cd_message_size d),
    fc_open_timeout_ms = (if t > 0 then t else cd_connect_timeout_ms d)\<rparr>"
  obtain opened h o1 where o: "rte_flow_open (Some st) (Some ?cfg) (Some None) (fw_oal (cs_world s)) =
      (opened, h, o1)"
    by (metis prod_cases3)
  have cfg: "flow_config_of (ready_channel d) t = ?cfg"
    by (simp add: flow_config_of_def ready_channel_def)
  have open1: "ensure_open st t ?w = (opened, ?w\<lparr>fw_oal := o1, fw_mem := (fw_mem ?w)(st :=
      if opened = STATUS_OK then (ready_channel d)\<lparr>fs_flow_handle := the h, fs_opened := True\<rparr>
      else (ready_channel d)\<lparr>fs_flow_handle := the h\<rparr>)\<rparr>)"
    using o by (simp add: ensure_open_def cfg)
  obtain w' where b: "backend_send (Some st) (Some data) (Suc n) t ?w = (status', w')"
    and s2: "s2 = s\<lparr>cs_world := w'\<rparr>"
    using send unfolding s1
    by (auto simp: rte_channel_service_send_def flows validate_osadapter_def complete_osadapter_def
        entry_def g_flow_osadapter_def split: prod.splits)
  have "if opened = STATUS_OK
      then rte_flow_send (the h) (Some data) (Suc n) FLOW_CHANNEL_USER t o1 = (status', (), fw_oal w')
      else status' = opened \<and> fw_oal w' = o1"
    using b by (auto simp: backend_send_def open1 split: prod.splits if_splits)
  then show ?thesis using s1 s2 o by (simp add: Let_def)
qed

text \<open>The witness: two channels, one flow adapter that opens flow 7 and sends.\<close>

definition two_channels :: rte_redundancy_config where
  "two_channels = zero_config\<lparr>rc_channels :=
     [zero_channel_def\<lparr>cd_id := 1, cd_name := ''ab'', cd_message_size := 8\<rparr>,
      zero_channel_def\<lparr>cd_id := 2, cd_name := ''ac'', cd_message_size := 16, cd_role := CHANNEL_CONNECT\<rparr>]\<rparr>"

definition world_with :: "rte_redundancy_config \<Rightarrow> unit channel_service" where
  "world_with c = \<lparr>cs_world = \<lparr>fw_oal = (initial_oal ())\<lparr>o_flow := Some
       \<lparr>flow_open = Some (\<lambda>_ _ x. (STATUS_OK, Some 7, x)), flow_send = Some (\<lambda>_ _ _ _ x. (STATUS_OK, x)),
        flow_receive = None, flow_close = None, flow_getattr = None, flow_setattr = None\<rparr>\<rparr>,
     fw_config = rte_redundancy_config_set_active (Some c) initial_redundancy_config_state,
     fw_mem = (\<lambda>_. zero_flow_channel), fw_resolver = None\<rparr>,
   cs_osadapter = Some g_flow_osadapter\<rparr>"

lemma world_with_active [simp]:
  "rte_redundancy_config_get_active (fw_config (cs_world (world_with c))) = Some c"
  "\<not> g_setup_locked (base (fw_oal (cs_world (world_with c))))"
  "cs_osadapter (world_with c) = Some g_flow_osadapter" "fw_resolver (cs_world (world_with c)) = None"
  by (simp_all add: world_with_def rte_redundancy_config_get_active_def
      rte_redundancy_config_set_active_def initial_oal_def initial_rte_def)

lemma channel_of_identifier_witness:
  "fst (rte_channel_service_setup_by_id (Some 64) 2 (world_with two_channels)) = STATUS_OK \<and>
   fs_message_size (fw_mem (cs_world (snd (rte_channel_service_setup_by_id (Some 64) 2
     (world_with two_channels)))) 64) = 16"
proof -
  let ?d = "zero_channel_def\<lparr>cd_id := 2, cd_name := ''ac'', cd_message_size := 16, cd_role := CHANNEL_CONNECT\<rparr>"
  obtain status s1 where run: "rte_channel_service_setup_by_id (Some 64) 2 (world_with two_channels) = (status, s1)"
    by fastforce
  obtain status' s2 where send: "rte_channel_service_send (Some 64) (Some [1]) (Suc 0) 5 s1 = (status', s2)"
    by fastforce
  have "distinct (map (\<lambda>y. take CHANNEL_CONFIG_MAX_NAME_LEN (cd_name y)) (rc_channels two_channels))"
    by (simp add: two_channels_def CHANNEL_CONFIG_MAX_NAME_LEN_def)
  moreover have "List.find (\<lambda>y. cd_id y = 2) (rc_channels two_channels) = Some ?d"
    by (simp add: two_channels_def)
  moreover have "length (cd_name ?d) < CHANNEL_SERVICE_NAME_SIZE"
    by (simp add: CHANNEL_SERVICE_NAME_SIZE_def)
  ultimately show ?thesis
    using channel_of_identifier [OF world_with_active(1) _ _ _ world_with_active(2,3,4) run send, of ?d] run
    by (simp add: ready_channel_def)
qed

text \<open>
  Without the names the identifier is not enough: the set-up looks the channel up again by its
  name, and of two channels without one it takes the first.
\<close>

definition unnamed_channels :: rte_redundancy_config where
  "unnamed_channels = zero_config\<lparr>rc_channels :=
     [zero_channel_def\<lparr>cd_id := 1, cd_message_size := 8\<rparr>, zero_channel_def\<lparr>cd_id := 2, cd_message_size := 16\<rparr>]\<rparr>"

lemma unnamed_channel_confused:
  "fs_message_size (fw_mem (cs_world (snd (rte_channel_service_setup_by_id (Some 64) 2
     (world_with unnamed_channels)))) 64) = 8"
proof -
  let ?d = "zero_channel_def\<lparr>cd_id := 1, cd_message_size := 8\<rparr>"
  have n: "cd_name ?d = []" "cd_name zero_channel_def = []" by (simp_all add: zero_channel_def_def)
  have by_id: "rte_redundancy_config_find_channel_by_id (Some unnamed_channels) 2 (Some zero_channel_def) =
      (STATUS_OK, Some (zero_channel_def\<lparr>cd_id := 2, cd_message_size := 16\<rparr>))"
    by (simp add: rte_redundancy_config_find_channel_by_id_def unnamed_channels_def)
  have by_name: "rte_redundancy_config_find_channel_by_name (Some unnamed_channels) (Some [])
      (Some zero_channel_def) = (STATUS_OK, Some ?d)"
    by (simp add: rte_redundancy_config_find_channel_by_name_def unnamed_channels_def n)
  have "rte_channel_service_setup (Some 64) (Some []) (world_with unnamed_channels) =
      (STATUS_OK, (world_with unnamed_channels)\<lparr>cs_world := (cs_world (world_with unnamed_channels))
        \<lparr>fw_mem := (fw_mem (cs_world (world_with unnamed_channels)))(64 := ready_channel ?d)\<rparr>\<rparr>)"
    by (rule setup_unlocked [OF world_with_active(2,3)], rule osadapter_setup_found [OF world_with_active(4,1) by_name])
      (simp_all add: CHANNEL_SERVICE_NAME_SIZE_def n)
  then show ?thesis
    by (simp add: rte_channel_service_setup_by_id_def by_id n ready_channel_def)
qed

section \<open>Flows that are lost\<close>

text \<open>A set-up of a channel whose flow is open forgets the flow without closing it.\<close>

lemma second_setup_loses_the_flow:
  assumes "fw_resolver w = None" and "osadapter_setup (Some st) (Some nm) w = (status, w')"
  shows "fw_oal w' = fw_oal w \<and> \<not> fs_opened (fw_mem w' st)"
  using assms
  by (auto simp: osadapter_setup_def resolve_channel_def zero_flow_channel_def Let_def
      split: prod.splits if_splits)

text \<open>A close that fails forgets it as well.\<close>

lemma failed_close_loses_the_flow:
  assumes "osadapter_close (Some st) w = (status, w')"
  shows "\<not> fs_opened (fw_mem w' st) \<and> \<not> fs_resolved (fw_mem w' st)"
  using assms by (auto simp: osadapter_close_def Let_def split: prod.splits if_splits)

text \<open>A channel that was never set up, or was closed, refuses its operations and touches nothing.\<close>

lemma unresolved_channel_refuses:
  assumes "\<not> fs_resolved (fw_mem w st)" and "n > 0"
  shows "osadapter_read (Some st) (Some data) n t w = (STATUS_NOT_INITIALIZED, Some data, w)"
    and "backend_send (Some st) (Some data) n t w = (STATUS_NOT_INITIALIZED, w)"
  using assms by (simp_all add: osadapter_read_def backend_send_def)

end
