(* ===== verification/Multi_Site.thy ===== *)
theory Multi_Site
  imports Log_Event
begin

unbundle bit_operations_syntax

text \<open>
  The geographic redundancy example, \<^verbatim>\<open>src/examples/2oo2-geographic-redundancy\<close>: the two-site voter
  of \<^verbatim>\<open>redundancy_multi_site.c\<close> with its 2oo2 votes, heartbeat supervision and failover, and the
  simulation of \<^verbatim>\<open>main.c\<close> that drives it. The seconds that \<^verbatim>\<open>time(NULL)\<close> returns are parameters. A
  pointer the code compares with \<^verbatim>\<open>NULL\<close> is an option. The lines written to the console and the names of
  the sites, which only appear there, are left out; the text of the service channel is kept, as the
  C string in its array of 256 characters.
\<close>

section \<open>Data\<close>

datatype site_id = SITE_WEST | SITE_EAST | SITE_OTHER nat

datatype site_state = SITE_ONLINE | SITE_STANDBY | SITE_ISOLATED | SITE_FAULTY

record train_command =
  cmd_train_id :: u32
  cmd_position :: u32
  cmd_signal_state :: u8
  cmd_emergency_stop :: u8
  cmd_speed_limit :: u16
  cmd_timestamp_ms :: u32
  cmd_checksum :: u32
  cmd_sequence_number :: u32

record site_channels =
  ch_channel_a :: train_command
  ch_channel_b :: train_command
  ch_service_output :: bytes
  ch_voting_result :: u8
  ch_voted_command :: train_command

record site_stats =
  st_total_votes :: u32
  st_total_matches :: u32
  st_total_mismatches :: u32
  st_channel_a_errors :: u32
  st_channel_b_errors :: u32
  st_voting_timeouts :: u32
  st_sequence_number :: u32

record site_context =
  sx_site_id :: site_id
  sx_state :: site_state
  sx_channels :: site_channels
  sx_stats :: site_stats
  sx_heartbeat_timestamp_ms :: u32
  sx_heartbeat_miss_count :: u32

record multi_site_config =
  ms_site_heartbeat_interval_ms :: u32
  ms_heartbeat_timeout_ms :: u32
  ms_channel_timeout_ms :: u32
  ms_max_heartbeat_misses :: u32
  ms_max_voting_errors :: u32

record multi_site_voter =
  mv_config :: multi_site_config
  mv_west :: site_context
  mv_east :: site_context
  mv_active_site :: site_id

text \<open>The bytes of a command in memory; the structure has no padding.\<close>

definition SIZEOF_COMMAND :: nat where "SIZEOF_COMMAND = 24"

definition command_bytes :: "train_command \<Rightarrow> bytes" where
  "command_bytes c = le_bytes 4 (cmd_train_id c) @ le_bytes 4 (cmd_position c) @
     [cmd_signal_state c, cmd_emergency_stop c] @ le_bytes 2 (cmd_speed_limit c) @
     le_bytes 4 (cmd_timestamp_ms c) @ le_bytes 4 (cmd_checksum c) @ le_bytes 4 (cmd_sequence_number c)"

text \<open>What \<^verbatim>\<open>memset\<close> with zero leaves.\<close>

definition zero_command :: train_command where
  "zero_command = \<lparr>cmd_train_id = 0, cmd_position = 0, cmd_signal_state = 0, cmd_emergency_stop = 0,
     cmd_speed_limit = 0, cmd_timestamp_ms = 0, cmd_checksum = 0, cmd_sequence_number = 0\<rparr>"

definition zero_site :: site_context where
  "zero_site = \<lparr>sx_site_id = SITE_WEST, sx_state = SITE_ONLINE,
     sx_channels = \<lparr>ch_channel_a = zero_command, ch_channel_b = zero_command, ch_service_output = [],
       ch_voting_result = 0, ch_voted_command = zero_command\<rparr>,
     sx_stats = \<lparr>st_total_votes = 0, st_total_matches = 0, st_total_mismatches = 0, st_channel_a_errors = 0,
       st_channel_b_errors = 0, st_voting_timeouts = 0, st_sequence_number = 0\<rparr>,
     sx_heartbeat_timestamp_ms = 0, sx_heartbeat_miss_count = 0\<rparr>"

section \<open>Votes\<close>

definition crc32_step :: "u32 \<Rightarrow> u8 \<Rightarrow> u32" where
  "crc32_step crc b = drop_bit 8 crc XOR (crc XOR ucast b)"

definition crc32 :: "bytes option \<Rightarrow> nat \<Rightarrow> u32" where
  "crc32 data n = (case data of None \<Rightarrow> 0 | Some d \<Rightarrow> foldl crc32_step 0xFFFFFFFF (take n d) XOR 0xFFFFFFFF)"

definition safe_command :: "u32 \<Rightarrow> train_command" where
  "safe_command train_id = \<lparr>cmd_train_id = train_id, cmd_position = 0, cmd_signal_state = 0,
     cmd_emergency_stop = 1, cmd_speed_limit = 0, cmd_timestamp_ms = 0, cmd_checksum = 0,
     cmd_sequence_number = 0\<rparr>"

text \<open>\<^verbatim>\<open>snprintf\<close> into the array: at most 255 characters. The arrow of the mismatch line is three bytes.\<close>

definition service_text :: "bytes list \<Rightarrow> bytes" where
  "service_text parts = take 255 (concat parts)"

definition site_text :: "site_context \<Rightarrow> bytes" where
  "site_text site = text_bytes ''[SITE '' @ text_bytes (if sx_site_id site = SITE_WEST then ''WEST'' else ''EAST'')"

definition dec_u :: "'a::len word \<Rightarrow> bytes" where
  "dec_u v = rte_string_format_u64_digits (ucast v)"

definition command_text :: "train_command \<Rightarrow> bytes" where
  "command_text c = text_bytes ''(train='' @ dec_u (cmd_train_id c) @ text_bytes '',sig='' @ dec_u (cmd_signal_state c) @
     text_bytes '',spd='' @ dec_u (cmd_speed_limit c) @ text_bytes '')''"

definition corruption_text :: "site_context \<Rightarrow> string \<Rightarrow> bytes" where
  "corruption_text site name = service_text [site_text site, text_bytes ''] Channel '', text_bytes name,
     text_bytes '' corruption (CRC fail), using safe state'']"

definition mismatch_text :: "site_context \<Rightarrow> train_command \<Rightarrow> train_command \<Rightarrow> bytes" where
  "mismatch_text site a b = service_text [site_text site, text_bytes ''] MISMATCH: A'', command_text a,
     text_bytes '' vs B'', command_text b, [0x20, 0xE2, 0x86, 0x92, 0x20], text_bytes ''SAFE_STATE'']"

definition match_text :: "site_context \<Rightarrow> train_command \<Rightarrow> bytes" where
  "match_text site a = service_text [site_text site, text_bytes ''] MATCH: train='', dec_u (cmd_train_id a),
     text_bytes '', pos='', dec_u (cmd_position a), text_bytes '', sig='', dec_u (cmd_signal_state a),
     text_bytes '', speed='', dec_u (cmd_speed_limit a), text_bytes '' km/h'']"

definition checksum_ok :: "train_command \<Rightarrow> bool" where
  "checksum_ok c \<longleftrightarrow> crc32 (Some (command_bytes c)) (SIZEOF_COMMAND - 4) = cmd_checksum c"

definition upd_channels :: "(site_channels \<Rightarrow> site_channels) \<Rightarrow> site_context \<Rightarrow> site_context" where
  "upd_channels f site = site\<lparr>sx_channels := f (sx_channels site)\<rparr>"

definition upd_site_stats :: "(site_stats \<Rightarrow> site_stats) \<Rightarrow> site_context \<Rightarrow> site_context" where
  "upd_site_stats f site = site\<lparr>sx_stats := f (sx_stats site)\<rparr>"

text \<open>The three results of a vote are the match (0), the mismatch (1) and the corruption (2).\<close>

definition site_vote ::
  "site_context \<Rightarrow> train_command option \<Rightarrow> train_command option \<Rightarrow> int \<times> site_context" where
  "site_vote site cmd_a cmd_b =
    (case (cmd_a, cmd_b) of
       (Some a, Some b) \<Rightarrow>
         let site1 = upd_site_stats (\<lambda>s. s\<lparr>st_total_votes := st_total_votes s + 1\<rparr>) site in
         if \<not> checksum_ok a
         then (0, upd_channels (\<lambda>c. c\<lparr>ch_service_output := corruption_text site ''A'', ch_voting_result := 2,
                      ch_voted_command := safe_command (cmd_train_id a)\<rparr>)
                    (upd_site_stats (\<lambda>s. s\<lparr>st_channel_a_errors := st_channel_a_errors s + 1\<rparr>) site1))
         else if \<not> checksum_ok b
         then (0, upd_channels (\<lambda>c. c\<lparr>ch_service_output := corruption_text site ''B'', ch_voting_result := 2,
                      ch_voted_command := safe_command (cmd_train_id b)\<rparr>)
                    (upd_site_stats (\<lambda>s. s\<lparr>st_channel_b_errors := st_channel_b_errors s + 1\<rparr>) site1))
         else if cmd_train_id a \<noteq> cmd_train_id b \<or> cmd_position a \<noteq> cmd_position b \<or>
             cmd_signal_state a \<noteq> cmd_signal_state b \<or> cmd_speed_limit a \<noteq> cmd_speed_limit b
         then (0, upd_channels (\<lambda>c. c\<lparr>ch_voting_result := 1, ch_voted_command := safe_command (cmd_train_id a),
                      ch_service_output := mismatch_text site a b\<rparr>)
                    (upd_site_stats (\<lambda>s. s\<lparr>st_total_mismatches := st_total_mismatches s + 1\<rparr>) site1))
         else (0, upd_channels (\<lambda>c. c\<lparr>ch_voting_result := 0, ch_voted_command := a, ch_channel_a := a,
                      ch_channel_b := b, ch_service_output := match_text site a\<rparr>)
                    (upd_site_stats (\<lambda>s. s\<lparr>st_total_matches := st_total_matches s + 1\<rparr>) site1))
     | _ \<Rightarrow> (- 1, site))"

section \<open>Sites\<close>

text \<open>The C expression that picks a site: everything that is not West is East.\<close>

definition site_of :: "site_id \<Rightarrow> multi_site_voter \<Rightarrow> site_context" where
  "site_of site v = (if site = SITE_WEST then mv_west v else mv_east v)"

definition upd_site :: "site_id \<Rightarrow> (site_context \<Rightarrow> site_context) \<Rightarrow> multi_site_voter \<Rightarrow> multi_site_voter" where
  "upd_site site f v =
    (if site = SITE_WEST then v\<lparr>mv_west := f (mv_west v)\<rparr> else v\<lparr>mv_east := f (mv_east v)\<rparr>)"

definition ms_of_seconds :: "int \<Rightarrow> u32" where
  "ms_of_seconds t = of_int (t * 1000)"

text \<open>The clock is read once for each site.\<close>

definition multi_site_voter_init ::
  "int \<Rightarrow> int \<Rightarrow> multi_site_voter option \<Rightarrow> multi_site_config option \<Rightarrow> int \<times> multi_site_voter option" where
  "multi_site_voter_init t1 t2 voter config =
    (case (voter, config) of
       (Some _, Some cfg) \<Rightarrow>
         (0, Some \<lparr>mv_config = cfg,
            mv_west = zero_site\<lparr>sx_site_id := SITE_WEST, sx_state := SITE_ONLINE,
              sx_heartbeat_timestamp_ms := ms_of_seconds t1\<rparr>,
            mv_east = zero_site\<lparr>sx_site_id := SITE_EAST, sx_state := SITE_STANDBY,
              sx_heartbeat_timestamp_ms := ms_of_seconds t2\<rparr>,
            mv_active_site = SITE_WEST\<rparr>)
     | _ \<Rightarrow> (- 1, voter))"

definition multi_site_vote_cycle ::
  "multi_site_voter option \<Rightarrow> site_id \<Rightarrow> train_command option \<Rightarrow> train_command option \<Rightarrow>
    int \<times> multi_site_voter option" where
  "multi_site_vote_cycle voter site cmd_a cmd_b =
    (case voter of None \<Rightarrow> (- 1, None)
     | Some v \<Rightarrow>
         if cmd_a = None \<or> cmd_b = None then (- 1, voter)
         else
           let (r, s) = site_vote (upd_site_stats
                 (\<lambda>s. s\<lparr>st_sequence_number := st_sequence_number s + 1\<rparr>) (site_of site v)) cmd_a cmd_b
           in (r, Some (upd_site site (\<lambda>_. s) v)))"

definition other_site :: "site_id \<Rightarrow> site_id" where
  "other_site site = (if site = SITE_WEST then SITE_EAST else SITE_WEST)"

text \<open>Without a voter the code reads the active site through the null pointer: \<open>None\<close>.\<close>

definition multi_site_heartbeat ::
  "int \<Rightarrow> multi_site_voter option \<Rightarrow> (site_id \<times> multi_site_voter) option" where
  "multi_site_heartbeat t voter =
    (case voter of None \<Rightarrow> None
     | Some v \<Rightarrow>
         let now = ms_of_seconds t;
             active = mv_active_site v;
             since = now - sx_heartbeat_timestamp_ms (site_of active v);
             v1 = (if since > ms_heartbeat_timeout_ms (mv_config v)
                   then upd_site active (\<lambda>s. s\<lparr>sx_heartbeat_miss_count := sx_heartbeat_miss_count s + 1\<rparr>) v
                   else upd_site active (\<lambda>s. s\<lparr>sx_heartbeat_miss_count := 0\<rparr>) v)
         in if since > ms_heartbeat_timeout_ms (mv_config v) \<and>
               sx_heartbeat_miss_count (site_of active v1) \<ge> ms_max_heartbeat_misses (mv_config v)
            then
              let v2 = upd_site (other_site active) (\<lambda>s. s\<lparr>sx_state := SITE_ONLINE,
                         sx_heartbeat_timestamp_ms := now, sx_heartbeat_miss_count := 0\<rparr>)
                       (upd_site active (\<lambda>s. s\<lparr>sx_state := SITE_FAULTY\<rparr>) v1)
              in Some (other_site active, v2\<lparr>mv_active_site := other_site active\<rparr>)
            else Some (active, upd_site active (\<lambda>s. s\<lparr>sx_heartbeat_timestamp_ms := now\<rparr>) v1))"

definition multi_site_failover_request ::
  "multi_site_voter option \<Rightarrow> site_id \<Rightarrow> int \<times> multi_site_voter option" where
  "multi_site_failover_request voter new_active =
    (case voter of None \<Rightarrow> (- 1, None)
     | Some v \<Rightarrow>
         if new_active = mv_active_site v then (0, voter)
         else (0, Some ((upd_site new_active (\<lambda>s. s\<lparr>sx_state := SITE_ONLINE\<rparr>)
                (upd_site (mv_active_site v) (\<lambda>s. s\<lparr>sx_state := SITE_STANDBY\<rparr>) v))
                \<lparr>mv_active_site := new_active\<rparr>)))"

definition multi_site_get_active_command ::
  "multi_site_voter option \<Rightarrow> train_command option \<Rightarrow> int \<times> train_command option" where
  "multi_site_get_active_command voter cmd_out =
    (case (voter, cmd_out) of
       (Some v, Some _) \<Rightarrow> (0, Some (ch_voted_command (sx_channels (site_of (mv_active_site v) v))))
     | _ \<Rightarrow> (- 1, cmd_out))"

text \<open>The caller's buffer is the C string in it.\<close>

definition multi_site_get_service_output ::
  "multi_site_voter option \<Rightarrow> bytes option \<Rightarrow> u32 \<Rightarrow> int \<times> bytes option" where
  "multi_site_get_service_output voter output_buf buf_size =
    (case (voter, output_buf) of
       (Some v, Some _) \<Rightarrow>
         if buf_size = 0 then (- 1, output_buf)
         else
           let b = take (unat (buf_size - 1)) (ch_service_output (sx_channels (site_of (mv_active_site v) v)))
           in (int (length b), Some b)
     | _ \<Rightarrow> (- 1, output_buf))"

definition multi_site_voter_shutdown :: "multi_site_voter option \<Rightarrow> int \<times> multi_site_voter option" where
  "multi_site_voter_shutdown voter =
    (case voter of None \<Rightarrow> (- 1, None)
     | Some v \<Rightarrow> (0, Some (upd_site SITE_EAST (\<lambda>s. s\<lparr>sx_state := SITE_FAULTY\<rparr>)
         (upd_site SITE_WEST (\<lambda>s. s\<lparr>sx_state := SITE_FAULTY\<rparr>) v))))"

section \<open>The simulation\<close>

record train_state =
  tr_train_id :: u32
  tr_position :: u32
  tr_last_position :: u32

definition trains :: "train_state list" where
  "trains = [\<lparr>tr_train_id = 101, tr_position = 500, tr_last_position = 500\<rparr>,
     \<lparr>tr_train_id = 102, tr_position = 2500, tr_last_position = 2500\<rparr>,
     \<lparr>tr_train_id = 103, tr_position = 7500, tr_last_position = 7500\<rparr>]"

text \<open>The checksum is computed while its own field is zero.\<close>

definition with_checksum_field :: "train_command \<Rightarrow> train_command" where
  "with_checksum_field c =
    c\<lparr>cmd_checksum := foldl crc32_step 0xFFFFFFFF
        (take (SIZEOF_COMMAND - 4) (command_bytes (c\<lparr>cmd_checksum := 0\<rparr>))) XOR 0xFFFFFFFF\<rparr>"

definition channel_a_compute :: "int \<Rightarrow> train_state \<Rightarrow> train_command" where
  "channel_a_compute t train =
    (let cmd = zero_command\<lparr>cmd_train_id := tr_train_id train, cmd_position := tr_position train,
           cmd_emergency_stop := 0, cmd_timestamp_ms := ms_of_seconds t, cmd_sequence_number := 0\<rparr>;
         cmd1 = (if tr_position train < 1000 then cmd\<lparr>cmd_signal_state := 2, cmd_speed_limit := 80\<rparr>
           else if tr_position train < 5000 then cmd\<lparr>cmd_signal_state := 1, cmd_speed_limit := 40\<rparr>
           else if tr_position train < 9000 then cmd\<lparr>cmd_signal_state := 0, cmd_speed_limit := 0\<rparr>
           else cmd\<lparr>cmd_emergency_stop := 1, cmd_signal_state := 0, cmd_speed_limit := 0\<rparr>)
     in with_checksum_field cmd1)"

text \<open>The static counter of the calls is passed on.\<close>

definition channel_b_compute :: "int \<Rightarrow> train_state \<Rightarrow> u32 \<Rightarrow> train_command \<times> u32" where
  "channel_b_compute t train call_count =
    (let cmd = channel_a_compute t train;
         call_count1 = call_count + 1
     in (if call_count1 mod 25 = 0
         then with_checksum_field (cmd\<lparr>cmd_signal_state := (cmd_signal_state cmd + 1) mod 3\<rparr>)
         else cmd, call_count1))"

definition simulate_movement :: "train_state \<Rightarrow> train_state" where
  "simulate_movement train =
    (let train1 = train\<lparr>tr_last_position := tr_position train\<rparr>;
         step = (if tr_train_id train = 101 then 5 else if tr_train_id train = 102 then 8
           else if tr_train_id train = 103 then 3 else 0);
         train2 = train1\<lparr>tr_position := tr_position train1 + step\<rparr>
     in if tr_position train2 > 10000 then train2\<lparr>tr_position := 10000\<rparr> else train2)"

record simulation =
  sm_voter :: multi_site_voter
  sm_trains :: "train_state list"
  sm_call_count :: u32
  sm_reads :: nat

text \<open>\<open>clock n\<close> is the result of the \<open>n\<close>-th call of \<^verbatim>\<open>time(NULL)\<close>.\<close>

definition simulate_train :: "(nat \<Rightarrow> int) \<Rightarrow> train_state \<Rightarrow> simulation \<Rightarrow> simulation" where
  "simulate_train clock train sm =
    (let a = channel_a_compute (clock (sm_reads sm)) train;
         (b, count) = channel_b_compute (clock (sm_reads sm + 1)) train (sm_call_count sm);
         (_, v1) = multi_site_vote_cycle (Some (sm_voter sm)) SITE_WEST (Some a) (Some b);
         (_, v2) = multi_site_vote_cycle v1 SITE_EAST (Some a) (Some b)
     in sm\<lparr>sm_voter := (case v2 of None \<Rightarrow> sm_voter sm | Some v \<Rightarrow> v), sm_call_count := count,
          sm_reads := sm_reads sm + 2\<rparr>)"

definition FAILOVER_TRIGGER_CYCLE :: nat where "FAILOVER_TRIGGER_CYCLE = 25"
definition TOTAL_CYCLES :: nat where "TOTAL_CYCLES = 50"

definition simulation_cycle :: "(nat \<Rightarrow> int) \<Rightarrow> nat \<Rightarrow> simulation \<Rightarrow> simulation" where
  "simulation_cycle clock cycle sm =
    (let moved = map simulate_movement (sm_trains sm);
         sm1 = fold (simulate_train clock) moved (sm\<lparr>sm_trains := moved\<rparr>);
         v = (case multi_site_heartbeat (clock (sm_reads sm1)) (Some (sm_voter sm1)) of
                None \<Rightarrow> sm_voter sm1 | Some (_, v) \<Rightarrow> v);
         v' = (if cycle = FAILOVER_TRIGGER_CYCLE
               then v\<lparr>mv_west := (mv_west v)\<lparr>sx_heartbeat_timestamp_ms := 0\<rparr>\<rparr> else v)
     in sm1\<lparr>sm_voter := v', sm_reads := sm_reads sm1 + 1\<rparr>)"

definition example_config :: multi_site_config where
  "example_config = \<lparr>ms_site_heartbeat_interval_ms = 50, ms_heartbeat_timeout_ms = 150,
     ms_channel_timeout_ms = 25, ms_max_heartbeat_misses = 3, ms_max_voting_errors = 10\<rparr>"

definition simulation_start :: "(nat \<Rightarrow> int) \<Rightarrow> multi_site_voter \<Rightarrow> simulation" where
  "simulation_start clock memory =
    (case multi_site_voter_init (clock 0) (clock 1) (Some memory) (Some example_config) of
       (_, Some v) \<Rightarrow> \<lparr>sm_voter = v, sm_trains = trains, sm_call_count = 0, sm_reads = 2\<rparr>
     | (_, None) \<Rightarrow> \<lparr>sm_voter = memory, sm_trains = trains, sm_call_count = 0, sm_reads = 2\<rparr>)"

definition simulate :: "(nat \<Rightarrow> int) \<Rightarrow> multi_site_voter \<Rightarrow> simulation" where
  "simulate clock memory =
    (let sm = fold (simulation_cycle clock) [0..<TOTAL_CYCLES] (simulation_start clock memory)
     in case multi_site_voter_shutdown (Some (sm_voter sm)) of
          (_, Some v) \<Rightarrow> sm\<lparr>sm_voter := v\<rparr> | (_, None) \<Rightarrow> sm)"

section \<open>The checksum is a parity\<close>

definition crc32_mix :: "u32 \<Rightarrow> u32" where
  "crc32_mix c = drop_bit 8 c XOR c"

lemma crc32_mix_xor: "crc32_mix (a XOR b) = crc32_mix a XOR crc32_mix b"
  by (rule bit_word_eqI) (auto simp: crc32_mix_def bit_simps)

lemma crc32_mix_byte: "crc32_mix (ucast (b :: u8)) = ucast b"
  by (rule bit_word_eqI) (auto simp: crc32_mix_def bit_simps dest: bit_imp_le_length)

lemma crc32_step_mix: "crc32_step c b = crc32_mix c XOR ucast b"
  by (simp add: crc32_step_def crc32_mix_def ac_simps)

definition parity :: "bytes \<Rightarrow> u8" where
  "parity d = foldr (XOR) d 0"

lemma parity_simps [simp]: "parity [] = 0" "parity (b # d) = b XOR parity d" "parity (d @ e) = parity d XOR parity e"
  by (induction d) (simp_all add: parity_def ac_simps)

lemma mix_pow_parity: "(crc32_mix ^^ n) (c XOR ucast (b :: u8)) = (crc32_mix ^^ n) c XOR ucast b"
  by (induction n) (simp_all add: crc32_mix_xor crc32_mix_byte)

lemma crc32_fold: "foldl crc32_step c d = (crc32_mix ^^ length d) c XOR ucast (parity d)"
proof (induction d arbitrary: c)
  case (Cons b d)
  have "foldl crc32_step c (b # d) = (crc32_mix ^^ length d) (crc32_mix c XOR ucast b) XOR ucast (parity d)"
    by (simp add: Cons crc32_step_mix)
  also have "\<dots> = (crc32_mix ^^ length (b # d)) c XOR ucast (parity (b # d))"
    unfolding mix_pow_parity by (simp add: funpow_swap1 unsigned_xor_eq ac_simps)
  finally show ?case .
qed simp

lemma crc32_parity:
  assumes "n \<le> length d"
  shows "crc32 (Some d) n = crc32 (Some (replicate n 0)) n XOR ucast (parity (take n d))"
proof -
  have "parity (replicate n 0) = 0" by (induction n) simp_all
  then show ?thesis using assms by (simp add: crc32_def crc32_fold min_absorb2 ac_simps)
qed

lemma length_command_bytes: "length (command_bytes c) = SIZEOF_COMMAND"
  by (simp add: command_bytes_def SIZEOF_COMMAND_def)

lemma covered_bytes: "take (SIZEOF_COMMAND - 4) (command_bytes c) =
    le_bytes 4 (cmd_train_id c) @ le_bytes 4 (cmd_position c) @
     [cmd_signal_state c, cmd_emergency_stop c] @ le_bytes 2 (cmd_speed_limit c) @
     le_bytes 4 (cmd_timestamp_ms c) @ le_bytes 4 (cmd_checksum c)"
  by (simp add: command_bytes_def SIZEOF_COMMAND_def)

text \<open>The covered bytes include the checksum itself, which the sender computes while it is zero.\<close>

lemma parity_le_zero: "parity (le_bytes 4 (0 :: u32)) = 0"
  by code_simp

text \<open>Four turns of the shift cancel, so over twenty bytes nothing but the parity of the bytes is left.\<close>

lemma crc32_mix_four: "(crc32_mix ^^ 4) c = c"
  by (rule bit_word_eqI)
    (auto simp: crc32_mix_def numeral_Bit0 bit_simps add.assoc dest: bit_imp_le_length)

lemma crc32_mix_cancel: "(crc32_mix ^^ (4 * n)) c = c"
  by (induction n arbitrary: c) (simp_all only: mult_0_right funpow_0 mult_Suc_right funpow_add o_apply crc32_mix_four)

lemma command_crc_is_parity:
  "crc32 (Some (command_bytes c)) (SIZEOF_COMMAND - 4) = ucast (parity (take (SIZEOF_COMMAND - 4) (command_bytes c)))"
proof -
  have "crc32 (Some (command_bytes c)) (SIZEOF_COMMAND - 4) = ((crc32_mix ^^ (4 * 5)) 0xFFFFFFFF XOR
      ucast (parity (take (SIZEOF_COMMAND - 4) (command_bytes c)))) XOR 0xFFFFFFFF"
    by (simp add: crc32_def crc32_fold length_command_bytes SIZEOF_COMMAND_def)
  then show ?thesis unfolding crc32_mix_cancel by (simp add: xor.commute xor.left_commute)
qed

lemma parity_of_byte: "parity (le_bytes 4 (ucast (b :: u8) :: u32)) = b"
proof -
  have "drop_bit k (ucast b :: u32) = 0" if "8 \<le> k" for k
    using that by (intro bit_word_eqI) (auto simp: bit_simps dest: bit_imp_le_length)
  moreover have "(ucast (ucast b :: u32) :: u8) = b" by transfer simp
  ultimately show ?thesis by (simp add: le_bytes_def upt_rec)
qed

lemma own_command_accepted: "checksum_ok (with_checksum_field c) \<longleftrightarrow> cmd_checksum (with_checksum_field c) = 0"
proof -
  let ?z = "take (SIZEOF_COMMAND - 4) (command_bytes (c\<lparr>cmd_checksum := 0\<rparr>))"
  have k: "cmd_checksum (with_checksum_field c) = ucast (parity ?z)"
    unfolding command_crc_is_parity [symmetric] by (simp add: with_checksum_field_def crc32_def)
  have "parity (take (SIZEOF_COMMAND - 4) (command_bytes (with_checksum_field c))) =
      parity ?z XOR parity (le_bytes 4 (cmd_checksum (with_checksum_field c)))"
    by (simp add: covered_bytes with_checksum_field_def parity_le_zero ac_simps)
  then have "parity (take (SIZEOF_COMMAND - 4) (command_bytes (with_checksum_field c))) = 0"
    unfolding k parity_of_byte by simp
  then show ?thesis by (auto simp: checksum_ok_def command_crc_is_parity)
qed

text \<open>The first command of the example, at second 0, is refused by both sites.\<close>

lemma first_command_refused:
  "\<not> checksum_ok (channel_a_compute 0 (simulate_movement (hd trains)))"
proof -
  have "take (SIZEOF_COMMAND - 4) (command_bytes (zero_command\<lparr>cmd_train_id := 101, cmd_position := 505,
      cmd_signal_state := 2, cmd_speed_limit := 80\<rparr>)) =
    [101, 0, 0, 0, 249, 1, 0, 0, 2, 0, 80, 0, 0, 0, 0, 0, 0, 0, 0, 0]"
    unfolding covered_bytes by (simp add: zero_command_def le_bytes_def upt_rec)
  then have "cmd_checksum (channel_a_compute 0 (simulate_movement (hd trains))) = 207"
    by (simp add: channel_a_compute_def simulate_movement_def trains_def with_checksum_field_def
        ms_of_seconds_def zero_command_def crc32_step_def)
  then show ?thesis
    by (simp add: channel_a_compute_def Let_def own_command_accepted split del: if_split)
qed

section \<open>Votes output the agreed command or the safe one\<close>

definition vital_fields_agree :: "train_command \<Rightarrow> train_command \<Rightarrow> bool" where
  "vital_fields_agree a b \<longleftrightarrow> cmd_train_id a = cmd_train_id b \<and> cmd_position a = cmd_position b \<and>
     cmd_signal_state a = cmd_signal_state b \<and> cmd_speed_limit a = cmd_speed_limit b"

lemma site_vote_cases:
  assumes "site_vote site (Some a) (Some b) = (r, site')"
  shows "r = 0 \<and>
    (if checksum_ok a \<and> checksum_ok b \<and> vital_fields_agree a b
     then ch_voted_command (sx_channels site') = a \<and> ch_voting_result (sx_channels site') = 0
     else ch_voting_result (sx_channels site') \<noteq> 0 \<and>
       ch_voted_command (sx_channels site') \<in> safe_command ` {cmd_train_id a, cmd_train_id b})"
  using assms by (auto simp: site_vote_def vital_fields_agree_def upd_channels_def upd_site_stats_def Let_def
      split: if_splits)

definition votes_counted :: "site_context \<Rightarrow> bool" where
  "votes_counted site \<longleftrightarrow> (let s = sx_stats site in st_total_votes s = st_total_matches s +
     st_total_mismatches s + st_channel_a_errors s + st_channel_b_errors s)"

lemma site_vote_kept:
  assumes "site_vote site a b = (r, site')"
  shows "sx_state site' = sx_state site \<and> sx_heartbeat_timestamp_ms site' = sx_heartbeat_timestamp_ms site \<and>
    sx_heartbeat_miss_count site' = sx_heartbeat_miss_count site \<and> (votes_counted site \<longrightarrow> votes_counted site')"
  using assms by (auto simp: votes_counted_def site_vote_def upd_channels_def upd_site_stats_def Let_def
      split: if_splits option.splits)

section \<open>One site is online\<close>

inductive multi_site_run :: "multi_site_config \<Rightarrow> bool \<Rightarrow> multi_site_voter \<Rightarrow> bool" for cfg where
  start: "multi_site_voter_init t1 t2 (Some m) (Some cfg) = (0, Some v) \<Longrightarrow> multi_site_run cfg True v"
| vote: "multi_site_run cfg up v \<Longrightarrow> multi_site_vote_cycle (Some v) site a b = (r, Some v') \<Longrightarrow>
    multi_site_run cfg up v'"
| heartbeat: "multi_site_run cfg up v \<Longrightarrow> multi_site_heartbeat t (Some v) = Some (site, v') \<Longrightarrow>
    multi_site_run cfg up v'"
| failover: "multi_site_run cfg up v \<Longrightarrow> multi_site_failover_request (Some v) site = (r, Some v') \<Longrightarrow>
    multi_site_run cfg up v'"
| shutdown: "multi_site_run cfg up v \<Longrightarrow> multi_site_voter_shutdown (Some v) = (r, Some v') \<Longrightarrow>
    multi_site_run cfg False v'"

definition one_online :: "bool \<Rightarrow> multi_site_voter \<Rightarrow> bool" where
  "one_online up v \<longleftrightarrow> sx_state (site_of (other_site (mv_active_site v)) v) \<noteq> SITE_ONLINE \<and>
     (up \<longrightarrow> sx_state (site_of (mv_active_site v) v) = SITE_ONLINE) \<and>
     votes_counted (mv_west v) \<and> votes_counted (mv_east v)"

lemma site_of_upd [simp]:
  "site_of SITE_WEST (upd_site SITE_WEST f v) = f (site_of SITE_WEST v)"
  "site \<noteq> SITE_WEST \<Longrightarrow> site' \<noteq> SITE_WEST \<Longrightarrow> site_of site (upd_site site' f v) = f (site_of site v)"
  "site \<noteq> SITE_WEST \<Longrightarrow> site_of site (upd_site SITE_WEST f v) = site_of site v"
  "site \<noteq> SITE_WEST \<Longrightarrow> site_of SITE_WEST (upd_site site f v) = site_of SITE_WEST v"
  "site_of site (v\<lparr>mv_active_site := a\<rparr>) = site_of site v"
  "mv_active_site (upd_site site f v) = mv_active_site v" "mv_config (upd_site site f v) = mv_config v"
  by (simp_all add: site_of_def upd_site_def)

lemma one_online_sites: "one_online up v \<longleftrightarrow>
    sx_state (site_of (other_site (mv_active_site v)) v) \<noteq> SITE_ONLINE \<and>
    (up \<longrightarrow> sx_state (site_of (mv_active_site v) v) = SITE_ONLINE) \<and>
    votes_counted (site_of SITE_WEST v) \<and> votes_counted (site_of SITE_EAST v)"
  by (simp add: one_online_def site_of_def)

lemma votes_counted_upd [simp]:
  "votes_counted (s\<lparr>sx_state := x\<rparr>) = votes_counted s"
  "votes_counted (s\<lparr>sx_heartbeat_timestamp_ms := t\<rparr>) = votes_counted s"
  "votes_counted (s\<lparr>sx_heartbeat_miss_count := n\<rparr>) = votes_counted s"
  "votes_counted (upd_site_stats (\<lambda>s. s\<lparr>st_sequence_number := f s\<rparr>) s) = votes_counted s"
  by (simp_all add: votes_counted_def upd_site_stats_def Let_def)

text \<open>A vote changes one site, and of that neither the state nor the count.\<close>

lemma vote_cycle_shape:
  assumes "multi_site_vote_cycle (Some v) site a b = (r, Some v')"
  shows "v' = v \<or> (\<exists>s. v' = upd_site site (\<lambda>_. s) v \<and> sx_state s = sx_state (site_of site v) \<and>
    sx_heartbeat_timestamp_ms s = sx_heartbeat_timestamp_ms (site_of site v) \<and>
    sx_heartbeat_miss_count s = sx_heartbeat_miss_count (site_of site v) \<and>
    (votes_counted (site_of site v) \<longrightarrow> votes_counted s))"
proof -
  let ?s = "upd_site_stats (\<lambda>s. s\<lparr>st_sequence_number := st_sequence_number s + 1\<rparr>) (site_of site v)"
  obtain r' s where vote: "site_vote ?s a b = (r', s)" by fastforce
  then have "v' = v \<or> v' = upd_site site (\<lambda>_. s) v"
    using assms by (auto simp: multi_site_vote_cycle_def split: if_splits)
  moreover have "sx_state ?s = sx_state (site_of site v)"
    "sx_heartbeat_timestamp_ms ?s = sx_heartbeat_timestamp_ms (site_of site v)"
    "sx_heartbeat_miss_count ?s = sx_heartbeat_miss_count (site_of site v)"
    "votes_counted ?s = votes_counted (site_of site v)"
    by simp_all (simp_all add: upd_site_stats_def)
  ultimately show ?thesis using site_vote_kept [OF vote]
    by (elim disjE) (blast, (intro disjI2 exI [of _ s], simp))
qed

lemma run_one_online: "multi_site_run cfg up v \<Longrightarrow> one_online up v"
proof (induction rule: multi_site_run.induct)
  case (start t1 t2 m v)
  then show ?case
    by (auto simp: multi_site_voter_init_def one_online_def site_of_def other_site_def zero_site_def votes_counted_def)
next
  case (vote up v site a b r v')
  from vote_cycle_shape [OF vote.hyps(2)] vote.IH show ?case
    by (auto simp: one_online_def site_of_def upd_site_def other_site_def split: if_splits)
next
  case (heartbeat up v t site v')
  then show ?case
    by (cases "mv_active_site v = SITE_WEST")
      (auto simp: one_online_def site_of_def upd_site_def other_site_def multi_site_heartbeat_def Let_def split: if_splits)
next
  case (failover up v site r v')
  then show ?case
    by (auto simp: one_online_def site_of_def upd_site_def other_site_def multi_site_failover_request_def split: if_splits)
next
  case (shutdown up v r v')
  then show ?case
    by (auto simp: one_online_def site_of_def upd_site_def other_site_def multi_site_voter_shutdown_def split: if_splits)
qed

section \<open>What the active site puts out\<close>

definition restrictive :: "train_command \<Rightarrow> bool" where
  "restrictive c \<longleftrightarrow> cmd_signal_state c = 0 \<and> cmd_speed_limit c = 0"

text \<open>A command that is not restrictive is the one both channels of the site agreed on.\<close>

definition output_justified :: "site_context \<Rightarrow> bool" where
  "output_justified site \<longleftrightarrow> (let c = sx_channels site in restrictive (ch_voted_command c) \<or>
     ch_voted_command c = ch_channel_a c \<and> checksum_ok (ch_channel_a c) \<and> checksum_ok (ch_channel_b c) \<and>
     vital_fields_agree (ch_channel_a c) (ch_channel_b c))"

lemma output_justified_upd [simp]:
  "output_justified (s\<lparr>sx_state := x\<rparr>) = output_justified s"
  "output_justified (s\<lparr>sx_heartbeat_timestamp_ms := t\<rparr>) = output_justified s"
  "output_justified (s\<lparr>sx_heartbeat_miss_count := n\<rparr>) = output_justified s"
  "output_justified (upd_site_stats f s) = output_justified s"
  by (simp_all add: output_justified_def upd_site_stats_def)

lemma site_vote_justified:
  assumes "site_vote site a b = (r, site')" "output_justified site"
  shows "output_justified site'"
  using assms by (auto simp: site_vote_def output_justified_def upd_channels_def upd_site_stats_def
      restrictive_def safe_command_def vital_fields_agree_def Let_def split: if_splits option.splits)

lemma run_justified:
  "multi_site_run cfg up v \<Longrightarrow> output_justified (mv_west v) \<and> output_justified (mv_east v)"
proof (induction rule: multi_site_run.induct)
  case (start t1 t2 m v)
  then show ?case
    by (auto simp: multi_site_voter_init_def output_justified_def restrictive_def zero_site_def zero_command_def)
next
  case (vote up v site a b r v')
  let ?s = "upd_site_stats (\<lambda>s. s\<lparr>st_sequence_number := st_sequence_number s + 1\<rparr>) (site_of site v)"
  obtain r' s where vote': "site_vote ?s a b = (r', s)" by fastforce
  then have "v' = v \<or> v' = upd_site site (\<lambda>_. s) v"
    using vote.hyps(2) by (auto simp: multi_site_vote_cycle_def split: if_splits)
  moreover have "output_justified s"
    by (rule site_vote_justified [OF vote']) (use vote.IH in \<open>simp add: site_of_def\<close>)
  ultimately show ?case using vote.IH by (auto simp: upd_site_def)
next
  case (heartbeat up v t site v')
  then show ?case by (auto simp: upd_site_def multi_site_heartbeat_def Let_def split: if_splits)
next
  case (failover up v site r v')
  then show ?case by (auto simp: upd_site_def multi_site_failover_request_def split: if_splits)
next
  case (shutdown up v r v')
  then show ?case by (auto simp: upd_site_def multi_site_voter_shutdown_def)
qed

text \<open>The emergency stop is not among the compared fields: the one that channel B asks for is lost.\<close>

lemma emergency_stop_not_compared:
  assumes "b = zero_command\<lparr>cmd_emergency_stop := 1, cmd_timestamp_ms := 1\<rparr>"
    and "site_vote site (Some zero_command) (Some b) = (r, site')"
  shows "ch_voting_result (sx_channels site') = 0 \<and> cmd_emergency_stop (ch_voted_command (sx_channels site')) = 0"
proof -
  have "checksum_ok zero_command" "checksum_ok b"
    unfolding checksum_ok_def command_crc_is_parity covered_bytes assms(1)
    by (simp_all add: zero_command_def le_bytes_def upt_rec)
  moreover have "vital_fields_agree zero_command b" by (simp add: vital_fields_agree_def assms(1))
  ultimately show ?thesis using site_vote_cases [OF assms(2)] by (simp add: zero_command_def)
qed

section \<open>The simulated failure goes unnoticed\<close>

text \<open>
  The heartbeat refreshes the time stamp it supervises, so the count of misses is the number of calls in
  a row that came too late, whatever the site does. The readings: \<open>beat_at\<close> is the clock at the heartbeat
  of a cycle, \<open>previous_beat\<close> the one before it.
\<close>

definition beat_at :: "(nat \<Rightarrow> int) \<Rightarrow> nat \<Rightarrow> int" where
  "beat_at clock k = clock (8 + 7 * k)"

definition previous_beat :: "(nat \<Rightarrow> int) \<Rightarrow> nat \<Rightarrow> int" where
  "previous_beat clock k = (if k = 0 then clock 0 else beat_at clock (k - 1))"

definition late_beat :: "(nat \<Rightarrow> int) \<Rightarrow> nat \<Rightarrow> bool" where
  "late_beat clock k \<longleftrightarrow> k = FAILOVER_TRIGGER_CYCLE + 1 \<or> beat_at clock k \<noteq> previous_beat clock k"

text \<open>Four cycles of 50 ms see the second change at most once.\<close>

definition steady :: "(nat \<Rightarrow> int) \<Rightarrow> bool" where
  "steady clock \<longleftrightarrow> mono clock \<and> (\<forall>n. clock (n + 28) \<le> clock n + 1)"

lemma beats_ordered:
  assumes "steady clock"
  shows "previous_beat clock k \<le> beat_at clock k" "previous_beat clock (Suc k) = beat_at clock k"
    "beat_at clock (Suc (Suc k)) \<le> previous_beat clock k + 1"
proof -
  have mono: "clock i \<le> clock j" if "i \<le> j" for i j
    using assms that by (simp add: steady_def mono_def)
  have tick: "clock j \<le> clock i + 1" if "j \<le> i + 28" for i j
    using assms mono [OF that] by (metis order_trans steady_def)
  show "previous_beat clock k \<le> beat_at clock k" "previous_beat clock (Suc k) = beat_at clock k"
    using mono by (auto simp: previous_beat_def beat_at_def)
  show "beat_at clock (Suc (Suc k)) \<le> previous_beat clock k + 1"
    unfolding beat_at_def previous_beat_def by (auto intro!: tick)
qed

lemma late_twice:
  assumes "steady clock" "late_beat clock k" "late_beat clock (Suc k)"
  shows "\<not> late_beat clock (Suc (Suc k))"
proof
  assume "late_beat clock (Suc (Suc k))"
  with assms beats_ordered [OF assms(1), of k] beats_ordered [OF assms(1), of "Suc k"]
    beats_ordered [OF assms(1), of "Suc (Suc k)"]
  show False unfolding late_beat_def by linarith
qed

text \<open>The part of the simulation that a cycle starts from.\<close>

definition supervised :: "u32 \<Rightarrow> u32 \<Rightarrow> nat \<Rightarrow> simulation \<Rightarrow> bool" where
  "supervised since misses reads sm \<longleftrightarrow> mv_active_site (sm_voter sm) = SITE_WEST \<and>
     mv_config (sm_voter sm) = example_config \<and> length (sm_trains sm) = 3 \<and> sm_reads sm = reads \<and>
     sx_heartbeat_timestamp_ms (mv_west (sm_voter sm)) = since \<and>
     sx_heartbeat_miss_count (mv_west (sm_voter sm)) = misses"

lemma vote_cycle_supervised:
  assumes "multi_site_vote_cycle (Some v) site (Some a) (Some b) = (r, v')"
  shows "\<exists>w. v' = Some w \<and> mv_active_site w = mv_active_site v \<and> mv_config w = mv_config v \<and>
    sx_heartbeat_timestamp_ms (mv_west w) = sx_heartbeat_timestamp_ms (mv_west v) \<and>
    sx_heartbeat_miss_count (mv_west w) = sx_heartbeat_miss_count (mv_west v)"
proof -
  obtain w where w: "v' = Some w" using assms by (auto simp: multi_site_vote_cycle_def split: prod.splits)
  from vote_cycle_shape [OF assms [unfolded w]] w show ?thesis
    by (auto simp: upd_site_def site_of_def)
qed

lemma simulate_train_supervised:
  assumes "supervised since misses reads sm"
  shows "supervised since misses (reads + 2) (simulate_train clock train sm)"
proof -
  let ?a = "channel_a_compute (clock (sm_reads sm)) train"
  obtain b count where b: "channel_b_compute (clock (sm_reads sm + 1)) train (sm_call_count sm) = (b, count)"
    by fastforce
  obtain r1 v1 where v1: "multi_site_vote_cycle (Some (sm_voter sm)) SITE_WEST (Some ?a) (Some b) = (r1, v1)"
    by fastforce
  then obtain w1 where w1: "v1 = Some w1" using vote_cycle_supervised by blast
  obtain r2 v2 where v2: "multi_site_vote_cycle (Some w1) SITE_EAST (Some ?a) (Some b) = (r2, v2)"
    by fastforce
  obtain w2 where w2: "v2 = Some w2" using v2 vote_cycle_supervised by blast
  have "simulate_train clock train sm =
      sm\<lparr>sm_voter := w2, sm_call_count := count, sm_reads := sm_reads sm + 2\<rparr>"
    unfolding simulate_train_def Let_def b v1 prod.case w1 v2 w2 by simp
  with vote_cycle_supervised [OF v1] vote_cycle_supervised [OF v2] w1 w2 assms show ?thesis
    by (auto simp: supervised_def)
qed

lemma trains_supervised:
  "supervised since misses reads sm \<Longrightarrow>
    supervised since misses (reads + 2 * length ts) (fold (simulate_train clock) ts sm)"
proof (induction ts arbitrary: sm reads)
  case (Cons t ts)
  from Cons.IH [OF simulate_train_supervised [OF Cons.prems]] show ?case
    by (simp add: ac_simps)
qed simp

lemma heartbeat_supervised:
  assumes "supervised since misses reads sm" "multi_site_heartbeat t (Some (sm_voter sm)) = Some (site, v)"
    and "150 < ms_of_seconds t - since \<longrightarrow> misses + 1 < 3"
  shows "mv_active_site v = SITE_WEST \<and> mv_config v = example_config \<and>
    sx_heartbeat_timestamp_ms (mv_west v) = ms_of_seconds t \<and>
    sx_heartbeat_miss_count (mv_west v) = (if 150 < ms_of_seconds t - since then misses + 1 else 0)"
  using assms by (auto simp: supervised_def multi_site_heartbeat_def upd_site_def site_of_def example_config_def
      Let_def not_le split: if_splits)

text \<open>The time stamp a cycle leaves, and the invariant of the cycles.\<close>

definition stamp :: "(nat \<Rightarrow> int) \<Rightarrow> nat \<Rightarrow> u32" where
  "stamp clock k = (if k = FAILOVER_TRIGGER_CYCLE + 1 then 0 else ms_of_seconds (previous_beat clock k))"

definition before_cycle :: "(nat \<Rightarrow> int) \<Rightarrow> nat \<Rightarrow> simulation \<Rightarrow> bool" where
  "before_cycle clock k sm \<longleftrightarrow> (\<exists>misses. supervised (stamp clock k) misses (2 + 7 * k) sm \<and> misses \<le> 2 \<and>
     (misses \<noteq> 0 \<longrightarrow> 0 < k \<and> late_beat clock (k - 1)) \<and>
     (misses = 2 \<longrightarrow> 1 < k \<and> late_beat clock (k - 2)))"

lemma heartbeat_some: "\<exists>site v'. multi_site_heartbeat t (Some v) = Some (site, v')"
  by (simp add: multi_site_heartbeat_def Let_def)

lemma up_to_two: "m \<le> (2 :: u32) \<Longrightarrow> m = 0 \<or> m = 1 \<or> m = 2"
  by unat_arith

lemma cycle_supervised:
  assumes "steady clock" "before_cycle clock k sm"
  shows "before_cycle clock (Suc k) (simulation_cycle clock k sm)"
proof -
  obtain misses where inv: "supervised (stamp clock k) misses (2 + 7 * k) sm" "misses \<le> 2"
    "misses \<noteq> 0 \<Longrightarrow> 0 < k \<and> late_beat clock (k - 1)" "misses = 2 \<Longrightarrow> 1 < k \<and> late_beat clock (k - 2)"
    using assms(2) by (auto simp: before_cycle_def)
  let ?moved = "map simulate_movement (sm_trains sm)"
  let ?sm = "fold (simulate_train clock) ?moved (sm\<lparr>sm_trains := ?moved\<rparr>)"
  have three: "length ?moved = 3" using inv(1) by (simp add: supervised_def)
  have "supervised (stamp clock k) misses (2 + 7 * k) (sm\<lparr>sm_trains := ?moved\<rparr>)"
    using inv(1) by (simp add: supervised_def)
  from trains_supervised [OF this, where clock = clock and ts = ?moved]
  have sup: "supervised (stamp clock k) misses (8 + 7 * k) ?sm" unfolding three by simp
  then have reads: "sm_reads ?sm = 8 + 7 * k" "length (sm_trains ?sm) = 3" by (simp_all add: supervised_def)
  obtain site v where beat: "multi_site_heartbeat (beat_at clock k) (Some (sm_voter ?sm)) = Some (site, v)"
    using heartbeat_some by blast
  let ?late = "150 < ms_of_seconds (beat_at clock k) - stamp clock k"
  have late: "late_beat clock k" if ?late
    using that by (auto simp: late_beat_def stamp_def split: if_splits)
  have "misses \<noteq> 2" if ?late
  proof
    assume "misses = 2"
    with inv(3,4) have "1 < k" "late_beat clock (k - 2)" "late_beat clock (k - 1)" by simp_all
    then have "late_beat clock (k - 2)" "late_beat clock (Suc (k - 2))" "Suc (Suc (k - 2)) = k"
      by (simp_all add: Suc_diff_Suc numeral_2_eq_2)
    with late_twice [OF assms(1)] late [OF that] show False by metis
  qed
  then have few: "?late \<longrightarrow> misses + 1 < 3" using up_to_two [OF inv(2)] by auto
  let ?misses = "if ?late then misses + 1 else 0"
  note v = heartbeat_supervised [OF sup beat few]
  let ?v = "if k = FAILOVER_TRIGGER_CYCLE then v\<lparr>mv_west := (mv_west v)\<lparr>sx_heartbeat_timestamp_ms := 0\<rparr>\<rparr> else v"
  have "simulation_cycle clock k sm = ?sm\<lparr>sm_voter := ?v, sm_reads := 9 + 7 * k\<rparr>"
    unfolding simulation_cycle_def Let_def reads beat [unfolded beat_at_def] by simp
  moreover have "stamp clock (Suc k) = (if k = FAILOVER_TRIGGER_CYCLE then 0 else ms_of_seconds (beat_at clock k))"
    using beats_ordered(2) [OF assms(1)] by (simp add: stamp_def)
  ultimately have "supervised (stamp clock (Suc k)) ?misses (2 + 7 * Suc k) (simulation_cycle clock k sm)"
    using v reads(2) by (auto simp: supervised_def)
  moreover have "?misses \<le> 2" using \<open>?late \<Longrightarrow> misses \<noteq> 2\<close> up_to_two [OF inv(2)] by auto
  moreover have "?misses \<noteq> 0 \<longrightarrow> late_beat clock k" using late by simp
  moreover have "?misses = 2 \<longrightarrow> 0 < k \<and> late_beat clock (k - 1)"
    using inv(3) up_to_two [OF inv(2)] by auto
  ultimately show ?thesis unfolding before_cycle_def by (intro exI [of _ ?misses]) auto
qed

lemma start_supervised: "before_cycle clock 0 (simulation_start clock memory)"
proof -
  have "supervised (stamp clock 0) 0 (2 + 7 * 0) (simulation_start clock memory)"
    by (simp add: simulation_start_def multi_site_voter_init_def supervised_def stamp_def previous_beat_def
        zero_site_def trains_def)
  then show ?thesis unfolding before_cycle_def by (intro exI [of _ 0]) simp
qed

lemma cycles_supervised:
  "steady clock \<Longrightarrow> before_cycle clock n (fold (simulation_cycle clock) [0..<n] (simulation_start clock memory))"
  by (induction n) (simp_all add: start_supervised cycle_supervised)

text \<open>The failure that the simulation injects into West never makes East take over.\<close>

theorem injected_failure_unnoticed:
  assumes "steady clock"
  shows "mv_active_site (sm_voter (simulate clock memory)) = SITE_WEST"
proof -
  let ?sm = "fold (simulation_cycle clock) [0..<TOTAL_CYCLES] (simulation_start clock memory)"
  have "mv_active_site (sm_voter ?sm) = SITE_WEST"
    using cycles_supervised [OF assms, of TOTAL_CYCLES memory] by (auto simp: before_cycle_def supervised_def)
  then show ?thesis by (simp add: simulate_def multi_site_voter_shutdown_def Let_def)
qed

lemma injected_failure_unnoticed_witness:
  "mv_active_site (sm_voter (simulate (\<lambda>n. int (n div 140)) memory)) = SITE_WEST"
proof (rule injected_failure_unnoticed)
  have "(n + 28) div 140 \<le> n div 140 + 1" for n :: nat by simp
  then show "steady (\<lambda>n. int (n div 140))"
    by (auto simp: steady_def intro!: monoI div_le_mono)
qed

section \<open>Properties\<close>

text \<open>C36. What the active site of the two-site voter puts out is never more permissive than both of its
  channels: after any history of votes, heartbeats, failover requests and shutdowns the command read
  from the active site is restrictive (signal at red, no speed allowed) or the one that both channels of
  that site submitted with the same train, position, signal and speed and with checksums that verify;
  the other site is not online, and until the shutdown the active one is.\<close>

theorem active_command_justified:
  assumes "multi_site_run cfg up v"
    and "multi_site_get_active_command (Some v) (Some c0) = (r, Some c)"
  shows "r = 0 \<and> (restrictive c \<or> (\<exists>b. c = ch_channel_a (sx_channels (site_of (mv_active_site v) v)) \<and>
      b = ch_channel_b (sx_channels (site_of (mv_active_site v) v)) \<and>
      checksum_ok c \<and> checksum_ok b \<and> vital_fields_agree c b)) \<and>
    sx_state (site_of (other_site (mv_active_site v)) v) \<noteq> SITE_ONLINE \<and>
    (up \<longrightarrow> sx_state (site_of (mv_active_site v) v) = SITE_ONLINE)"
proof -
  let ?s = "site_of (mv_active_site v) v"
  have "output_justified ?s" using run_justified [OF assms(1)] by (simp add: site_of_def)
  moreover have "r = 0" "c = ch_voted_command (sx_channels ?s)"
    using assms(2) by (simp_all add: multi_site_get_active_command_def)
  ultimately show ?thesis using run_one_online [OF assms(1)]
    by (auto simp: output_justified_def one_online_def Let_def)
qed

theorem active_command_justified_witness:
  "\<exists>v. multi_site_run example_config True v \<and>
    sx_state (site_of (other_site (mv_active_site v)) v) \<noteq> SITE_ONLINE"
proof -
  obtain v where v: "multi_site_voter_init 0 0 (Some undefined) (Some example_config) = (0, Some v)"
    by (simp add: multi_site_voter_init_def)
  have run: "multi_site_run example_config True v" by (rule multi_site_run.start [OF v])
  obtain c where "multi_site_get_active_command (Some v) (Some zero_command) = (0, Some c)"
    by (simp add: multi_site_get_active_command_def)
  from active_command_justified [OF run this] run show ?thesis by blast
qed

end
