(* ===== verification/Spec2Isabelle.thy ===== *)
theory Spec2Isabelle
  imports Rte_Prelude Rte_Types Site_Role_Policy Election Checksum_Tables Wire Checksum
    Platform_State Oal_Services Channel Voter Cross_Comparator Vital_Message Dual_Msgchannel
    Dual_Channel Dual_Receive Dual_Negotiator Buffer Site_Role Site_Role_Safety
    Site_Role_Challenge Site_Role_Frames Site_Role_Takeover Site_Role_Start
    Watchdog Checkpoint State_Transfer Safechannel Safechannel_Vote Cast Rte_String Log_Event
    AppManager Redundancy_Config String_Refinement Oal_Dispatch Socket_Adapter Safe_Ptr
    Channel_Service Multi_Site
begin

text \<open>
  Platform RTE, a runtime environment for redundant safety applications (\<^verbatim>\<open>README.md\<close>,
  \<^verbatim>\<open>docs/REDUNDANCY_ARCHITECTURE.dox\<close>): a verification development of the C code under
  \<^verbatim>\<open>src/\<close> and \<^verbatim>\<open>include/\<close>.

  \<^bold>\<open>The program.\<close> An application registers its stages with the application manager, which
  initialises the services, locks the setup phase and then runs cycles: stages, a checkpoint at which
  the redundant nodes wait for each other, a commit stage, the checkpoint's result. Below it lie the
  redundancy components: channels and a voter over them (two out of two, two out of three), a
  comparator for channel pairs, the rendezvous of the checkpoint, an election among replicas, watchdogs,
  and, for two sites, a message channel with sequence numbers and a CRC, a channel over up to four
  redundant links with acknowledgements, the negotiation of ONLINE and STANDBY, and the site-role
  service with its takeover protocol. At the bottom the services of the OS abstraction layer check
  their parameters, respect the setup lock and hand each call to an OSAdapter, which is supplied by
  the platform and is not part of the repository.

  \<^bold>\<open>How the code is modelled.\<close> A structure is a record, an enumeration a datatype whose last
  constructor, where a caller can pass one, stands for the values outside it. Integers keep their
  width (words of \<open>HOL-Library.Word\<close>, so that arithmetic wraps as in C), only sizes and indices are
  natural numbers. A pointer that the code compares with \<^verbatim>\<open>NULL\<close> is an option; an out parameter is
  returned, with the value the caller had there where the code leaves it alone. The file-scope state of
  the platform layer is one record (\<open>'x rte\<close> in \<open>Platform_State\<close>, extended to \<open>'x oal\<close> in
  \<open>Oal_Dispatch\<close>) that is passed from call to call. Code outside the repository, an OSAdapter or
  a callback of the application, is a function on the opaque state \<open>'x\<close> in the field \<open>ext\<close>: its type
  is the documented interface and nothing else is assumed, unless a theorem names it. Objects whose
  sharing matters (channels, buffers of the state transfer, adapter storages) live in a store that
  maps addresses to values.

  Statuses are values of one datatype (\<open>Rte_Types\<close>); every error path of the code is a branch. A
  call that can enter a safe state, in which the code loops for ever, has the result type \<open>run\<close>
  (\<open>Rte_Prelude\<close>): \<open>Returned\<close> or \<open>Halted\<close>. A loop whose end depends on the environment is a partial
  function into an option, \<open>None\<close> when it does not end: the wait for an acknowledgement
  (\<open>dual_wait_ack\<close>), the draining of state frames (\<open>drain_frames\<close>), the cycles of the application
  (\<open>app_cycles\<close>), the connection attempts and the start-up negotiation of a site (\<open>connect_retries\<close>,
  \<open>negotiate_start\<close>). Whether they end is stated and proved: the wait ends under adapters that keep
  their word on timeouts and does not under a clock that stops; a run of the application ends when its
  iterations are bounded.

  \<^bold>\<open>Theories and sources.\<close>

  \<^item> \<open>Rte_Prelude\<close>, \<open>Rte_Types\<close>: \<^verbatim>\<open>utils/types\<close>, \<^verbatim>\<open>utils/status\<close>, \<^verbatim>\<open>dual/rte_dual_types.c\<close>; words,
    the result type, the collections of rules, the enumerations and their texts.
  \<^item> \<open>Wire\<close>, \<open>Buffer\<close>, \<open>Cast\<close>, \<open>Safe_Ptr\<close>: integers in memory, \<^verbatim>\<open>utils/buffer/rte_buffer.c\<close>,
    \<^verbatim>\<open>utils/cast/rte_cast.c\<close>, \<^verbatim>\<open>oal/memory/rte_safe_ptr.c\<close>. Reads invert writes for every width and byte
    order; each of the conversions is exact or refuses; a guarded pointer stays in its region.
  \<^item> \<open>Rte_String\<close>, \<open>String_Refinement\<close>: \<^verbatim>\<open>utils/string/rte_string.c\<close>, and its refinement of lists.
  \<^item> \<open>Checksum_Tables\<close>, \<open>Checksum\<close>, \<open>Vital_Message\<close>: \<^verbatim>\<open>redundancy/checksum/rte_checksum.c\<close>. The
    three tables, the statistics and the vital messages. The tables compute the bitwise CRC, and the
    ERTMS and XZ polynomials detect every change inside a window of seven bytes; the ISO table does not.
  \<^item> \<open>Platform_State\<close>, \<open>Oal_Services\<close>, \<open>Oal_Dispatch\<close>: lifecycle, safe state and violation reports
    (\<^verbatim>\<open>utils/lifecycle\<close>, \<^verbatim>\<open>utils/safestate\<close>), the log and the services under \<^verbatim>\<open>oal/\<close> with the
    registration of their OSAdapters (\<^verbatim>\<open>oal/osadapter/rte_osadapter.c\<close>). Once the setup phase is
    locked, every setup call is refused: it calls the handler for the DEGRADED state and nothing else. What
    the code does not gate (the socket table, the level of the log, the handler for violations) is named.
  \<^item> \<open>Log_Event\<close>: the event lines of \<^verbatim>\<open>oal/log/rte_log.c\<close>.
  \<^item> \<open>Socket_Adapter\<close>, \<open>Channel_Service\<close>: \<^verbatim>\<open>oal/protocol\<close> (UDP, TCP, registry; the sizes of their
    states are those of 64-bit pointers) and \<^verbatim>\<open>redundancy/channel_service\<close>.
  \<^item> \<open>Channel\<close>, \<open>Voter\<close>, \<open>Cross_Comparator\<close>: \<^verbatim>\<open>channel_link/rte_channel.c\<close>, \<^verbatim>\<open>voter/rte_voter.c\<close>,
    \<^verbatim>\<open>cross_comparator/rte_cross_comparator.c\<close>. The contents of local buffers before they are written
    are a parameter (\<open>stack\<close>), so that a theorem holds for every garbage in them.
  \<^item> \<open>Election\<close>: \<^verbatim>\<open>election/rte_election.c\<close>, over a linear order of the candidates' keys.
  \<^item> \<open>Watchdog\<close>, \<open>Checkpoint\<close>: \<^verbatim>\<open>watchdog/rte_watchdog.c\<close>, a pool of eight slots, and
    \<^verbatim>\<open>checkpoint/rte_checkpoint.c\<close>, at most 64 rounds as in the code (\<^verbatim>\<open>CHECKPOINT_MAX_ROUNDS\<close>).
  \<^item> \<open>AppManager\<close>: \<^verbatim>\<open>app/appmanager/rte_appmanager.c\<close>. The operations of an application are parameters.
    What a run calls is a list of \<open>app_call\<close>, kept by operations that write down their own calls
    (\<open>recording\<close>); how a run ends is stated for operations and channels that leave the setup lock alone
    (\<open>keeps_books\<close>, \<open>quiet_channels\<close>), and both hold with a checkpoint attached.
  \<^item> \<open>Redundancy_Config\<close>: \<^verbatim>\<open>config/rte_redundancy_config.c\<close>, the scanner, the loader and the active
    configuration; its loops are bounded by the end of the text and by the capacity of the arrays.
  \<^item> \<open>Dual_Msgchannel\<close>, \<open>Dual_Channel\<close>, \<open>Dual_Receive\<close>, \<open>Dual_Negotiator\<close>: \<^verbatim>\<open>redundancy/dual\<close>.
  \<^item> \<open>Site_Role_Policy\<close>, \<open>Site_Role\<close>: \<^verbatim>\<open>site_role/rte_site_role_policy.c\<close>, \<^verbatim>\<open>rte_site_role.c\<close>;
    \<open>Site_Role_Safety\<close>, \<open>Site_Role_Challenge\<close>, \<open>Site_Role_Takeover\<close>, \<open>Site_Role_Start\<close>,
    \<open>Site_Role_Frames\<close> hold its theorems.
  \<^item> \<open>Safechannel\<close>, \<open>Safechannel_Vote\<close>: \<^verbatim>\<open>safechannel/rte_safechannel.c\<close>, and a voted channel from
    the opening of its links to the vote.
  \<^item> \<open>State_Transfer\<close>: \<^verbatim>\<open>state_transfer/rte_state_transfer.c\<close>.
  \<^item> \<open>Multi_Site\<close>: the two-site voter of \<^verbatim>\<open>examples/2oo2-geographic-redundancy\<close> and its simulation.

  \<^bold>\<open>Interfaces.\<close> Laws that several operations share are locales, each interpreted on the model's own
  definitions: \<open>frame_codec\<close> (frames of a fixed size; acknowledgement, state and vital message),
  \<open>int_codec\<close> (the six pairs of buffer operations), \<open>crc_table\<close> and \<open>detecting_table\<close> (the three
  tables), \<open>comparison\<close> (what the voter's grouping needs of its equality), \<open>field_codec\<close> (the fields of a
  state transfer), \<open>text_writer\<close> (the writers of the string module), \<open>runtime_op\<close> and \<open>setup_op\<close> (the
  calls of the abstraction layer after the lock: those that keep the configuration, and those that are
  refused) and \<open>socket_protocol\<close> (the adapters over
  sockets). Histories are inductive predicates: \<open>msgchannel_run\<close>, \<open>polled\<close>, \<open>negotiator_run\<close>,
  \<open>site_role_run\<close>, \<open>renewed_run\<close>, \<open>watchdog_run\<close>, \<open>oal_call\<close>, \<open>endpoint_io\<close>, \<open>multi_site_run\<close>; their invariants are proved
  by rule induction.

  \<^bold>\<open>What the theorems show.\<close>

  \<^item> Roles: two nodes that name each other, start fresh and hear the other's true start-up time are never
    both ONLINE, and one of them is elected; a takeover needs the token of the operator, and an accepted token is refused from then on unless a
    draw repeats its number; which conditions promote a site without a link; an election has one winner
    at all nodes. A node that restarts quickly can leave two standby nodes.
  \<^item> Messages: what is sent is received, nothing is accepted twice, out of order or corrupted; a link
    counts as up only with its own acknowledgement; the receive over several links hands out the last of
    the frames its sweep accepted.
  \<^item> Votes: with a quorum of healthy channels the result is the value they share, one faulty link of
    three is masked from the opening of the links to the result, and a receive that reports success had
    a quorum.
  \<^item> Time: a tick fires the expired watchdogs and no other; staged output is committed only after the
    rendezvous; a missed rendezvous enters the SAFE state and does not return; a run of an application
    calls its operations in one order.
  \<^item> Setup and configuration: no setup after the lock, a configuration that loads satisfies the rules of
    its documentation, opened links and sockets are closed again on every error path.
  \<^item> Data: the string, buffer, cast, checksum and state-transfer modules against their reference
    definitions.

  Each property of the development follows a text that states it; the lemmas before it carry it. A
  witness applies a property with hypotheses to a concrete input.

  \<^bold>\<open>Not modelled.\<close>

  \<^item> \<^verbatim>\<open>oal/ipc/rte_ipc_request_reply.c\<close> and \<^verbatim>\<open>oal/ipc/rte_ipc_pubsub.c\<close>: placeholders that check their
    pointers, log through macros of a header that does not exist, and return a constant; the build
    leaves them out.
  \<^item> \<^verbatim>\<open>core/rte_core_version.c\<close>: returns a string that the build generates.
  \<^item> \<^verbatim>\<open>oal/memory/rte_mem_util.h\<close> and \<^verbatim>\<open>utils/notify/rte_notify.h\<close>: one-line wrappers of the memory
    functions of the C library, which are list operations here, and a macro that declares a structure
    no source of the library uses.
  \<^item> The console lines and plain log lines that no operation reads back, the file and line numbers of
    reports, and diagnostics that only print.
  \<^item> The other examples, which print and hold no state of the library, the tests, the build scripts and
    the command-line tools.
  \<^item> Threads and signal handlers that run inside a call: the models are sequences of whole calls, in any
    order.
\<close>

end
